(* ===== verification/Prelude.thy ===== *)
theory Prelude
  imports
    Main
    "HOL-Library.List_Lexorder"
    "HOL-Library.Char_ord"
begin

text \<open>
  Shared vocabulary of the development: results of fallible operations as sums
  (\<open>Inl\<close> the error, \<open>Inr\<close> the value), the panicking operations of the Rust source, the
  ordered map that stands for \<open>BTreeMap\<close>, the de-duplicating push that the formula
  constructors use, and decimal rendering of indices as in \<open>format!\<close>.
  The collections \<open>result_simps\<close> and \<open>eval_simps\<close> are filled by the component theories.
\<close>

named_theorems result_simps \<open>rewriting of fallible computations\<close>
named_theorems eval_simps \<open>meaning of formula constructors and transformers\<close>

section \<open>Results\<close>

definition rbind :: "('e + 'a) \<Rightarrow> ('a \<Rightarrow> 'e + 'b) \<Rightarrow> 'e + 'b" where
  "rbind m f = (case m of Inl e \<Rightarrow> Inl e | Inr x \<Rightarrow> f x)"

lemma rbind_Inl [simp, result_simps]: "rbind (Inl e) f = Inl e"
  by (simp add: rbind_def)

lemma rbind_Inr [simp, result_simps]: "rbind (Inr x) f = f x"
  by (simp add: rbind_def)

lemma rbind_eq_Inr [result_simps]: "rbind m f = Inr y \<longleftrightarrow> (\<exists>x. m = Inr x \<and> f x = Inr y)"
  by (cases m) auto

lemma rbind_eq_Inl [result_simps]:
  "rbind m f = Inl e \<longleftrightarrow> m = Inl e \<or> (\<exists>x. m = Inr x \<and> f x = Inl e)"
  by (cases m) auto

lemma rbind_cong [fundef_cong]:
  "m = m' \<Longrightarrow> (\<And>x. m' = Inr x \<Longrightarrow> f x = f' x) \<Longrightarrow> rbind m f = rbind m' f'"
  by (cases m') auto

text \<open>A loop whose body may return early with \<open>?\<close>.\<close>

fun rfold :: "('a \<Rightarrow> 's \<Rightarrow> 'e + 's) \<Rightarrow> 'a list \<Rightarrow> 's \<Rightarrow> 'e + 's" where
  "rfold f [] s = Inr s"
| "rfold f (x # xs) s = rbind (f x s) (rfold f xs)"

lemma rfold_append: "rfold f (xs @ ys) s = rbind (rfold f xs s) (rfold f ys)"
  by (induction xs arbitrary: s) (auto simp: rbind_def split: sum.splits)

lemma rfold_invariant:
  assumes "rfold f xs s = Inr t" and "I s"
    and "\<And>x s t. x \<in> set xs \<Longrightarrow> I s \<Longrightarrow> f x s = Inr t \<Longrightarrow> I t"
  shows "I t"
  using assms
proof (induction xs arbitrary: s)
  case Nil
  then show ?case by simp
next
  case (Cons x xs)
  from Cons.prems(1) obtain u where u: "f x s = Inr u" "rfold f xs u = Inr t"
    by (auto simp: rbind_eq_Inr)
  have "I u" using Cons.prems(2,3) u(1) by (metis list.set_intros(1))
  then show ?case using Cons.IH [OF u(2)] Cons.prems(3) by (metis list.set_intros(2))
qed

lemma rfold_total:
  assumes "I s" and "\<And>x s. x \<in> set xs \<Longrightarrow> I s \<Longrightarrow> \<exists>t. f x s = Inr t \<and> I t"
  shows "\<exists>t. rfold f xs s = Inr t \<and> I t"
  using assms
proof (induction xs arbitrary: s)
  case Nil
  then show ?case by simp
next
  case (Cons x xs)
  from Cons.prems obtain u where u: "f x s = Inr u" "I u" by (metis list.set_intros(1))
  obtain t where "rfold f xs u = Inr t" "I t"
    using Cons.IH [OF u(2)] Cons.prems(2) by (metis list.set_intros(2))
  with u show ?case by auto
qed

section \<open>Ordered maps\<close>

text \<open>
  \<open>BTreeMap\<close> is modelled by the list of its bindings in key order, which is the order its
  iterators produce.  \<open>bt_wf\<close> is the representation invariant.
\<close>

type_synonym ('k, 'v) btree = "('k \<times> 'v) list"

fun bt_insert :: "'k::linorder \<Rightarrow> 'v \<Rightarrow> ('k, 'v) btree \<Rightarrow> ('k, 'v) btree" where
  "bt_insert k v [] = [(k, v)]"
| "bt_insert k v ((a, b) # m) =
     (if k < a then (k, v) # (a, b) # m
      else if k = a then (k, v) # m
      else (a, b) # bt_insert k v m)"

definition bt_remove :: "'k \<Rightarrow> ('k, 'v) btree \<Rightarrow> ('k, 'v) btree" where
  "bt_remove k m = filter (\<lambda>p. fst p \<noteq> k) m"

definition bt_get :: "('k, 'v) btree \<Rightarrow> 'k \<Rightarrow> 'v option" where
  "bt_get m k = map_of m k"

definition bt_keys :: "('k, 'v) btree \<Rightarrow> 'k list" where
  "bt_keys m = map fst m"

definition bt_values :: "('k, 'v) btree \<Rightarrow> 'v list" where
  "bt_values m = map snd m"

definition bt_wf :: "('k::linorder, 'v) btree \<Rightarrow> bool" where
  "bt_wf m = sorted_wrt (<) (map fst m)"

text \<open>The contract the clients of an ordered map rely on.\<close>

locale ordered_map =
  fixes empty :: "'m"
    and insert :: "'k::linorder \<Rightarrow> 'v \<Rightarrow> 'm \<Rightarrow> 'm"
    and remove :: "'k \<Rightarrow> 'm \<Rightarrow> 'm"
    and get :: "'m \<Rightarrow> 'k \<Rightarrow> 'v option"
    and keys :: "'m \<Rightarrow> 'k list"
    and wf :: "'m \<Rightarrow> bool"
  assumes get_empty: "get empty k = None"
    and get_insert: "get (insert k v m) j = (if j = k then Some v else get m j)"
    and get_remove: "get (remove k m) j = (if j = k then None else get m j)"
    and keys_get: "k \<in> set (keys m) \<longleftrightarrow> get m k \<noteq> None"
    and wf_empty: "wf empty"
    and wf_insert: "wf m \<Longrightarrow> wf (insert k v m)"
    and wf_remove: "wf m \<Longrightarrow> wf (remove k m)"
    and wf_keys: "wf m \<Longrightarrow> sorted_wrt (<) (keys m)"
begin

lemma keys_insert: "set (keys (insert k v m)) = Set.insert k (set (keys m))"
  by (auto simp: keys_get get_insert split: if_splits)

lemma keys_remove: "set (keys (remove k m)) = set (keys m) - {k}"
  by (auto simp: keys_get get_remove split: if_splits)

lemma distinct_keys: "wf m \<Longrightarrow> distinct (keys m)"
  using wf_keys strict_sorted_iff by blast

lemma wf_keys_unique:
  "wf m \<Longrightarrow> wf n \<Longrightarrow> set (keys m) = set (keys n) \<Longrightarrow> keys m = keys n"
  using wf_keys strict_sorted_equal by blast

lemma get_fill:
  "get (foldl (\<lambda>m k. insert k (f k) m) m ks) j = (if j \<in> set ks then Some (f j) else get m j)"
  by (induction ks arbitrary: m) (auto simp: get_insert)

lemma wf_fill: "wf m \<Longrightarrow> wf (foldl (\<lambda>m k. insert k (f k) m) m ks)"
  by (induction ks arbitrary: m) (auto simp: wf_insert)

end

lemma bt_get_insert: "bt_get (bt_insert k v m) j = (if j = k then Some v else bt_get m j)"
  by (induction k v m rule: bt_insert.induct) (auto simp: bt_get_def)

lemma bt_get_remove: "bt_get (bt_remove k m) j = (if j = k then None else bt_get m j)"
  by (induction m) (auto simp: bt_get_def bt_remove_def)

lemma set_keys_bt_insert: "fst ` set (bt_insert k v m) = insert k (fst ` set m)"
  by (induction k v m rule: bt_insert.induct) auto

lemma bt_wf_insert: "bt_wf m \<Longrightarrow> bt_wf (bt_insert k v m)"
proof (induction k v m rule: bt_insert.induct)
  case (2 k v a b m)
  have "\<forall>x \<in> fst ` set (bt_insert k v m). x = k \<or> x \<in> fst ` set m"
    by (auto simp: set_keys_bt_insert)
  with 2 show ?case by (fastforce simp: bt_wf_def)
qed (simp add: bt_wf_def)

lemma bt_wf_remove: "bt_wf m \<Longrightarrow> bt_wf (bt_remove k m)"
  by (induction m) (auto simp: bt_wf_def bt_remove_def)

interpretation bt: ordered_map "[]" bt_insert bt_remove bt_get bt_keys bt_wf
proof unfold_locales
  fix k :: 'a and m :: "('a, 'b) btree"
  show "(k \<in> set (bt_keys m)) = (bt_get m k \<noteq> None)"
    by (auto simp: bt_keys_def bt_get_def map_of_eq_None_iff)
qed (simp_all add: bt_get_insert bt_get_remove bt_wf_insert bt_wf_remove,
     simp_all add: bt_get_def bt_wf_def bt_keys_def)

lemmas bt_simps = bt.get_empty bt.get_insert bt.get_remove bt.get_fill
declare bt_simps [simp]

lemma bt_get_SomeD: "bt_get m k = Some v \<Longrightarrow> (k, v) \<in> set m"
  by (simp add: bt_get_def map_of_SomeD)

lemma bt_get_mem: "bt_wf m \<Longrightarrow> (k, v) \<in> set m \<Longrightarrow> bt_get m k = Some v"
  by (simp add: bt_get_def bt_wf_def strict_sorted_iff)

lemma bt_values_get: "bt_wf m \<Longrightarrow> v \<in> set (bt_values m) \<longleftrightarrow> (\<exists>k. bt_get m k = Some v)"
  by (force simp: bt_values_def dest: bt_get_mem bt_get_SomeD)

lemma bt_wf_Cons: "bt_wf ((a, b) # m) \<longleftrightarrow> (\<forall>k \<in> set (bt_keys m). a < k) \<and> bt_wf m"
  by (auto simp: bt_wf_def bt_keys_def)

lemma set_bt_insert:
  "bt_wf m \<Longrightarrow> set (bt_insert k v m) = insert (k, v) {p \<in> set m. fst p \<noteq> k}"
proof (induction k v m rule: bt_insert.induct)
  case (2 k v a b m)
  then have "\<forall>p \<in> set m. a < fst p" "bt_wf m" by (auto simp: bt_wf_Cons bt_keys_def)
  with 2 show ?case by (auto split: if_splits dest: order.strict_trans)
qed simp

lemma set_bt_remove [simp]: "set (bt_remove k m) = {p \<in> set m. fst p \<noteq> k}"
  by (auto simp: bt_remove_def)

lemma bt_get_in: "bt_wf m \<Longrightarrow> bt_get m k = Some v \<longleftrightarrow> (k, v) \<in> set m"
  using bt_get_SomeD bt_get_mem by metis

lemma bt_keys_iff: "k \<in> set (bt_keys m) \<longleftrightarrow> (\<exists>v. bt_get m k = Some v)"
  unfolding bt_keys_def bt_get_def set_map by (metis map_of_eq_None_iff not_None_eq)

section \<open>De-duplicating push\<close>

text \<open>\<open>if !flat.contains(&item) { flat.push(item) }\<close>\<close>

definition push_new :: "'a list \<Rightarrow> 'a \<Rightarrow> 'a list" where
  "push_new flat item = (if item \<in> set flat then flat else flat @ [item])"

lemma set_push_new [simp]: "set (push_new flat item) = insert item (set flat)"
  by (auto simp: push_new_def)

lemma distinct_push_new [simp]: "distinct flat \<Longrightarrow> distinct (push_new flat item)"
  by (simp add: push_new_def)

lemma set_foldl_push_new [simp]: "set (foldl push_new flat items) = set flat \<union> set items"
  by (induction items arbitrary: flat) auto

lemma distinct_foldl_push_new [simp]: "distinct flat \<Longrightarrow> distinct (foldl push_new flat items)"
  by (induction items arbitrary: flat) auto

section \<open>Decimal rendering\<close>

definition digit_char :: "nat \<Rightarrow> char" where
  "digit_char d = (''0123456789'' ! d)"

fun nat_str :: "nat \<Rightarrow> string" where
  "nat_str n = (if n < 10 then [digit_char n] else nat_str (n div 10) @ [digit_char (n mod 10)])"

declare nat_str.simps [simp del]

lemma digit_char_inj: "a < 10 \<Longrightarrow> b < 10 \<Longrightarrow> digit_char a = digit_char b \<Longrightarrow> a = b"
proof -
  assume ab: "a < 10" "b < 10" and eq: "digit_char a = digit_char b"
  have d: "distinct (''0123456789'')" and l: "length (''0123456789'') = 10" by simp_all
  show ?thesis using eq nth_eq_iff_index_eq [OF d] ab unfolding digit_char_def l by blast
qed

lemma nat_str_nonempty: "nat_str n \<noteq> []"
  by (subst nat_str.simps) simp

lemma nat_str_inj: "nat_str m = nat_str n \<Longrightarrow> m = n"
proof (induction m arbitrary: n rule: nat_str.induct)
  case (1 m)
  note eqm = nat_str.simps [of m] and eqn = nat_str.simps [of n]
  consider "m < 10" "n < 10" | "m < 10" "n \<ge> 10" | "m \<ge> 10" "n < 10" | "m \<ge> 10" "n \<ge> 10"
    by linarith
  then show ?case
  proof cases
    case 1
    with "1.prems" eqm eqn show ?thesis by (auto intro: digit_char_inj)
  next
    case 2
    with "1.prems" eqm eqn nat_str_nonempty [of "n div 10"] show ?thesis by auto
  next
    case 3
    with "1.prems" eqm eqn nat_str_nonempty [of "m div 10"] show ?thesis by auto
  next
    case 4
    with "1.prems" eqm eqn
    have q: "nat_str (m div 10) = nat_str (n div 10)"
      and r: "digit_char (m mod 10) = digit_char (n mod 10)" by simp_all
    have "m div 10 = n div 10" using "1.IH" [OF _ q] 4 by simp
    moreover have "m mod 10 = n mod 10" using digit_char_inj [OF _ _ r] by simp
    ultimately show ?thesis by (metis div_mult_mod_eq)
  qed
qed

section \<open>Strings\<close>

text \<open>
  \<open>str::starts_with\<close>, \<open>strip_prefix\<close>, \<open>contains\<close>, \<open>find\<close> of a character, and \<open>join\<close>.
\<close>

definition starts_with :: "string \<Rightarrow> string \<Rightarrow> bool" where
  "starts_with p s \<longleftrightarrow> take (length p) s = p"

definition strip_prefix :: "string \<Rightarrow> string \<Rightarrow> string option" where
  "strip_prefix p s = (if starts_with p s then Some (drop (length p) s) else None)"

fun contains_str :: "string \<Rightarrow> string \<Rightarrow> bool" where
  "contains_str pattern s = (starts_with pattern s \<or> (case s of [] \<Rightarrow> False | _ # rest \<Rightarrow> contains_str pattern rest))"

declare contains_str.simps [simp del]

definition find_char :: "char \<Rightarrow> string \<Rightarrow> nat option" where
  "find_char c s = (let n = length (takeWhile (\<lambda>x. x \<noteq> c) s) in
     if n < length s then Some n else None)"

fun join_strings :: "string \<Rightarrow> string list \<Rightarrow> string" where
  "join_strings sep [] = []"
| "join_strings sep [x] = x"
| "join_strings sep (x # xs) = x @ sep @ join_strings sep xs"

lemma starts_with_iff: "starts_with p s \<longleftrightarrow> (\<exists>rest. s = p @ rest)"
  unfolding starts_with_def by (metis append_eq_conv_conj append_take_drop_id)

lemma starts_with_append [simp]: "starts_with p (p @ s)"
  by (simp add: starts_with_def)

lemma strip_prefix_iff: "strip_prefix p s = Some rest \<longleftrightarrow> s = p @ rest"
  by (auto simp: strip_prefix_def starts_with_iff)

text \<open>A loop whose body may give up.\<close>

fun opt_fold :: "('a \<Rightarrow> 's \<Rightarrow> 's option) \<Rightarrow> 'a list \<Rightarrow> 's \<Rightarrow> 's option" where
  "opt_fold f [] s = Some s"
| "opt_fold f (x # xs) s = Option.bind (f x s) (opt_fold f xs)"

end
