(* ===== verification/Machine_Int.thy ===== *)
theory Machine_Int
  imports Prelude "HOL-Library.Word" "HOL-Library.Signed_Division"
begin

text \<open>
  The \<open>i64\<close> arithmetic of the program.  A value is a \<open>64 word\<close> read by \<open>sint\<close>.  Rust's
  overflow behaviour depends on the build profile: with overflow checks (the dev profile,
  \<open>oc = True\<close>) an overflowing \<open>+ - *\<close>, negation or \<open>abs\<close> panics, without them (release,
  \<open>oc = False\<close>) it wraps.  Division by zero and \<open>i64::MIN / -1\<close> panic in both.  A
  panicking computation is the value \<open>Panics\<close>.
\<close>

type_synonym i64 = "64 word"

datatype 'a outcome = Returns 'a | Panics

definition obind :: "'a outcome \<Rightarrow> ('a \<Rightarrow> 'b outcome) \<Rightarrow> 'b outcome" where
  "obind m f = (case m of Returns x \<Rightarrow> f x | Panics \<Rightarrow> Panics)"

lemma obind_Returns [simp]: "obind (Returns x) f = f x"
  by (simp add: obind_def)

lemma obind_Panics [simp]: "obind Panics f = Panics"
  by (simp add: obind_def)

lemma obind_eq_Returns: "obind m f = Returns y \<longleftrightarrow> (\<exists>x. m = Returns x \<and> f x = Returns y)"
  by (cases m) auto

lemma obind_cong [fundef_cong]:
  "m = m' \<Longrightarrow> (\<And>x. m' = Returns x \<Longrightarrow> f x = f' x) \<Longrightarrow> obind m f = obind m' f'"
  by (cases m') auto

definition in_i64 :: "int \<Rightarrow> bool" where
  "in_i64 x \<longleftrightarrow> - (2 ^ 63) \<le> x \<and> x < 2 ^ 63"

definition i64_result :: "bool \<Rightarrow> int \<Rightarrow> i64 outcome" where
  "i64_result oc x = (if oc \<and> \<not> in_i64 x then Panics else Returns (word_of_int x))"

definition i64_add :: "bool \<Rightarrow> i64 \<Rightarrow> i64 \<Rightarrow> i64 outcome" where
  "i64_add oc a b = i64_result oc (sint a + sint b)"

definition i64_sub :: "bool \<Rightarrow> i64 \<Rightarrow> i64 \<Rightarrow> i64 outcome" where
  "i64_sub oc a b = i64_result oc (sint a - sint b)"

definition i64_mul :: "bool \<Rightarrow> i64 \<Rightarrow> i64 \<Rightarrow> i64 outcome" where
  "i64_mul oc a b = i64_result oc (sint a * sint b)"

definition i64_neg :: "bool \<Rightarrow> i64 \<Rightarrow> i64 outcome" where
  "i64_neg oc a = i64_result oc (- sint a)"

definition i64_abs :: "bool \<Rightarrow> i64 \<Rightarrow> i64 outcome" where
  "i64_abs oc a = i64_result oc \<bar>sint a\<bar>"

definition i64_div :: "i64 \<Rightarrow> i64 \<Rightarrow> i64 outcome" where
  "i64_div a b =
     (if sint b = 0 \<or> (sint a = - (2 ^ 63) \<and> sint b = -1) then Panics
      else Returns (word_of_int (sint a sdiv sint b)))"

definition i64_rem :: "i64 \<Rightarrow> i64 \<Rightarrow> i64 outcome" where
  "i64_rem a b =
     (if sint b = 0 \<or> (sint a = - (2 ^ 63) \<and> sint b = -1) then Panics
      else Returns (word_of_int (sint a smod sint b)))"

lemma in_i64_sint [simp]: "in_i64 (sint (a :: i64))"
  using sint_lt [of a] sint_ge [of a] by (simp add: in_i64_def)

lemma sint_word_of_int_i64: "in_i64 x \<Longrightarrow> sint (word_of_int x :: i64) = x"
  unfolding in_i64_def by (simp add: sint_sbintrunc' signed_take_bit_int_eq_self)

lemma i64_result_exact:
  "i64_result True x = Returns r \<Longrightarrow> sint r = x \<and> in_i64 x"
  by (auto simp: i64_result_def sint_word_of_int_i64 split: if_splits)

lemma sint_i64_add: "i64_add True a b = Returns r \<Longrightarrow> sint r = sint a + sint b"
  unfolding i64_add_def by (drule i64_result_exact) simp

lemma sint_i64_sub: "i64_sub True a b = Returns r \<Longrightarrow> sint r = sint a - sint b"
  unfolding i64_sub_def by (drule i64_result_exact) simp

lemma sint_i64_mul: "i64_mul True a b = Returns r \<Longrightarrow> sint r = sint a * sint b"
  unfolding i64_mul_def by (drule i64_result_exact) simp

lemma sint_i64_neg: "i64_neg True a = Returns r \<Longrightarrow> sint r = - sint a"
  unfolding i64_neg_def by (drule i64_result_exact) simp

lemma sint_i64_abs: "i64_abs True a = Returns r \<Longrightarrow> sint r = \<bar>sint a\<bar>"
  unfolding i64_abs_def by (drule i64_result_exact) simp

lemma abs_sdiv_eq: "b \<noteq> 0 \<Longrightarrow> \<bar>a sdiv b\<bar> = \<bar>a :: int\<bar> div \<bar>b\<bar>"
  by (cases "a = 0") (simp_all add: signed_divide_int_def abs_mult abs_sgn_eq
      pos_imp_zdiv_nonneg_iff)

lemma sint_i64_div:
  assumes "i64_div a b = Returns r"
  shows "sint r = sint a sdiv sint b" and "sint b \<noteq> 0"
proof -
  from assms have nz: "sint b \<noteq> 0" and ok: "\<not> (sint a = - (2 ^ 63) \<and> sint b = -1)"
    and r: "r = word_of_int (sint a sdiv sint b)"
    by (auto simp: i64_div_def split: if_splits)
  have bound: "- (2 ^ 63) \<le> sint a" "sint a < 2 ^ 63"
    using in_i64_sint [of a] by (simp_all add: in_i64_def)
  note abs = abs_sdiv_eq [OF nz, of "sint a"]
  have "in_i64 (sint a sdiv sint b)"
  proof (cases "\<bar>sint b\<bar> = 1")
    case True
    then have "sint b = 1 \<or> sint b = -1" by linarith
    with bound ok show ?thesis
      by (auto simp: in_i64_def signed_divide_int_def sgn_if split: if_splits)
  next
    case False
    with nz have "2 \<le> \<bar>sint b\<bar>" by linarith
    then have "\<bar>sint a\<bar> div \<bar>sint b\<bar> \<le> \<bar>sint a\<bar> div 2"
      by (intro zdiv_mono2) auto
    moreover have "\<bar>sint a\<bar> div 2 < 2 ^ 63" using bound by simp
    ultimately have "\<bar>sint a sdiv sint b\<bar> < 2 ^ 63" using abs by simp
    then show ?thesis by (auto simp: in_i64_def)
  qed
  with r nz show "sint r = sint a sdiv sint b" "sint b \<noteq> 0"
    by (simp_all add: sint_word_of_int_i64)
qed

lemma abs_smod_less: "b \<noteq> 0 \<Longrightarrow> \<bar>a smod b\<bar> < \<bar>b :: int\<bar>"
proof -
  assume b: "b \<noteq> 0"
  have "a smod b = sgn a * (\<bar>a\<bar> mod \<bar>b\<bar>)" by (simp add: signed_modulo_int_def)
  moreover have "0 \<le> \<bar>a\<bar> mod \<bar>b\<bar>" "\<bar>a\<bar> mod \<bar>b\<bar> < \<bar>b\<bar>" using b by simp_all
  ultimately show ?thesis using b by (simp add: abs_mult abs_sgn_eq)
qed

lemma sint_i64_rem:
  assumes "i64_rem a b = Returns r"
  shows "sint r = sint a smod sint b" and "sint b \<noteq> 0"
proof -
  from assms have nz: "sint b \<noteq> 0" and r: "r = word_of_int (sint a smod sint b)"
    by (auto simp: i64_rem_def split: if_splits)
  have "in_i64 (sint a smod sint b)"
    using abs_smod_less [OF nz, of "sint a"] in_i64_sint [of b] by (auto simp: in_i64_def)
  with r nz show "sint r = sint a smod sint b" "sint b \<noteq> 0"
    by (simp_all add: sint_word_of_int_i64)
qed

lemmas sint_i64 = sint_i64_add sint_i64_sub sint_i64_mul sint_i64_neg sint_i64_abs
  sint_i64_div sint_i64_rem

end
