(* ===== verification/Formula.thy ===== *)
theory Formula
  imports Machine_Int
begin

text \<open>
  The symbolic vocabulary (\<open>src/formula/mod.rs\<close>): sorts, exact rationals, variables, array
  memories, terms and formulas, their sort checker, the smart constructors with the eager
  \<open>simplify\<close>, constant folding, variable substitution and the collectors of array indices
  and memory regions.  The constructors carry the prefixes \<open>M\<close>, \<open>T\<close> and \<open>F\<close> because the
  source's names (\<open>True\<close>, \<open>Not\<close>, \<open>Var\<close>, ...) are taken in HOL.
\<close>

section \<open>Sorts, rationals, variables\<close>

datatype sort = SBool | SInt | SReal

record rational =
  rat_num :: i64
  rat_den :: i64

text \<open>
  \<open>gcd\<close>: \<open>abs\<close> of both arguments, Euclid's loop, and 1 for \<open>gcd(0, 0)\<close>.  The remainder of
  the loop is the panicking \<open>%\<close> of \<open>i64\<close>.
\<close>

function gcd_loop :: "i64 \<Rightarrow> i64 \<Rightarrow> i64 outcome" where
  "gcd_loop a b =
     (if b \<noteq> 0 then obind (i64_rem a b) (\<lambda>t. gcd_loop b t) else Returns a)"
  by pat_completeness auto
termination
proof (relation "measure (\<lambda>(a, b). nat \<bar>sint b\<bar>)", goal_cases)
  case 1
  show ?case by simp
next
  case (2 a b t)
  then have t: "sint t = sint a smod sint b" and b: "sint b \<noteq> 0"
    using sint_i64_rem [of a b t] by auto
  with abs_smod_less [OF b, of "sint a"] show ?case by auto
qed

declare gcd_loop.simps [simp del]

definition rat_gcd :: "bool \<Rightarrow> i64 \<Rightarrow> i64 \<Rightarrow> i64 outcome" where
  "rat_gcd oc a b =
     obind (i64_abs oc a) (\<lambda>a. obind (i64_abs oc b) (\<lambda>b.
       obind (gcd_loop a b) (\<lambda>a. Returns (if a = 0 then 1 else a))))"

definition rational_new :: "bool \<Rightarrow> i64 \<Rightarrow> i64 \<Rightarrow> rational outcome" where
  "rational_new oc num den =
     (if den = 0 then Panics
      else
        obind (if sint den < 0 then i64_neg oc num else Returns num) (\<lambda>num'.
        obind (if sint den < 0 then i64_neg oc den else Returns den) (\<lambda>den'.
        obind (rat_gcd oc num' den') (\<lambda>g.
        obind (i64_div num' g) (\<lambda>n.
        obind (i64_div den' g) (\<lambda>d.
          Returns \<lparr>rat_num = n, rat_den = d\<rparr>))))))"

definition rational_integer :: "bool \<Rightarrow> i64 \<Rightarrow> rational outcome" where
  "rational_integer oc value = rational_new oc value 1"

datatype ordering = Less | Equal | Greater

definition rational_cmp :: "bool \<Rightarrow> rational \<Rightarrow> rational \<Rightarrow> ordering outcome" where
  "rational_cmp oc self other =
     obind (i64_mul oc (rat_num self) (rat_den other)) (\<lambda>l.
     obind (i64_mul oc (rat_num other) (rat_den self)) (\<lambda>r.
       Returns (if sint l < sint r then Less else if sint l = sint r then Equal else Greater)))"

record var =
  var_name :: string
  var_sort :: sort

definition var_new :: "string \<Rightarrow> sort \<Rightarrow> var" where
  "var_new name s = \<lparr>var_name = name, var_sort = s\<rparr>"

definition var_bool :: "string \<Rightarrow> var" where
  "var_bool name = var_new name SBool"

definition var_int :: "string \<Rightarrow> var" where
  "var_int name = var_new name SInt"

definition var_real :: "string \<Rightarrow> var" where
  "var_real name = var_new name SReal"

section \<open>Memories, terms, formulas\<close>

datatype memory =
    MVar string
  | MStore memory fterm fterm
and fterm =
    TVar var
  | TInt i64
  | TReal rational
  | TBoolToInt formula
  | TSelect memory fterm
  | TAdd fterm fterm
  | TSub fterm fterm
  | TMul fterm fterm
  | TDiv fterm fterm
  | TRem fterm fterm
  | TNeg fterm
and formula =
    FTrue
  | FFalse
  | FVar var
  | FNot formula
  | FAnd "formula list"
  | FOr "formula list"
  | FImplies formula formula
  | FEq fterm fterm
  | FMemoryEq memory memory
  | FLt fterm fterm
  | FLe fterm fterm
  | FGt fterm fterm
  | FGe fterm fterm

datatype model_value =
    ModelInt i64
  | ModelBool bool
  | ModelReal rational
  | ArrayDefault model_value

record smt_model =
  model_scalar :: "(var \<times> model_value) list"
  model_memory :: "(string \<times> model_value) list"

definition smt_model_is_empty :: "smt_model \<Rightarrow> bool" where
  "smt_model_is_empty m \<longleftrightarrow> model_scalar m = [] \<and> model_memory m = []"

datatype formula_error =
    ExpectedBooleanSort sort
  | ExpectedNumericSort sort
  | ExpectedIntegerSort sort
  | MixedSorts sort sort

text \<open>
  \<open>Term::try_as_constant_int\<close>: \<open>None\<close> for anything that is not built from literals, and for
  a division by zero; the operand order of the \<open>?\<close> operators is kept.
\<close>

definition const_binop ::
  "i64 option outcome \<Rightarrow> i64 option outcome \<Rightarrow> (i64 \<Rightarrow> i64 \<Rightarrow> i64 outcome) \<Rightarrow> i64 option outcome"
where
  "const_binop l r f =
     obind l (\<lambda>l. case l of None \<Rightarrow> Returns None | Some l \<Rightarrow>
     obind r (\<lambda>r. case r of None \<Rightarrow> Returns None | Some r \<Rightarrow>
     obind (f l r) (\<lambda>v. Returns (Some v))))"

definition const_divop ::
  "i64 option outcome \<Rightarrow> i64 option outcome \<Rightarrow> (i64 \<Rightarrow> i64 \<Rightarrow> i64 outcome) \<Rightarrow> i64 option outcome"
where
  "const_divop l r f =
     obind r (\<lambda>d. case d of None \<Rightarrow> Returns None | Some d \<Rightarrow>
     if d = 0 then Returns None
     else obind l (\<lambda>l. case l of None \<Rightarrow> Returns None | Some l \<Rightarrow>
       obind (f l d) (\<lambda>v. Returns (Some v))))"

fun try_as_constant_int :: "bool \<Rightarrow> fterm \<Rightarrow> i64 option outcome" where
  "try_as_constant_int oc (TInt n) = Returns (Some n)"
| "try_as_constant_int oc (TAdd l r) =
     const_binop (try_as_constant_int oc l) (try_as_constant_int oc r) (i64_add oc)"
| "try_as_constant_int oc (TSub l r) =
     const_binop (try_as_constant_int oc l) (try_as_constant_int oc r) (i64_sub oc)"
| "try_as_constant_int oc (TMul l r) =
     const_binop (try_as_constant_int oc l) (try_as_constant_int oc r) (i64_mul oc)"
| "try_as_constant_int oc (TDiv l r) =
     const_divop (try_as_constant_int oc l) (try_as_constant_int oc r) i64_div"
| "try_as_constant_int oc (TRem l r) =
     const_divop (try_as_constant_int oc l) (try_as_constant_int oc r) i64_rem"
| "try_as_constant_int oc (TNeg inner) =
     obind (try_as_constant_int oc inner) (\<lambda>v. case v of None \<Rightarrow> Returns None
       | Some v \<Rightarrow> obind (i64_neg oc v) (\<lambda>v. Returns (Some v)))"
| "try_as_constant_int oc _ = Returns None"

section \<open>Smart constructors\<close>

text \<open>
  The loop of \<open>simplify\<close> over the items of a conjunction: \<open>None\<close> is the early
  \<open>return Formula::False\<close>.  Nested conjunctions are flattened one level, duplicates dropped.
\<close>

fun flatten_and :: "formula list \<Rightarrow> formula list \<Rightarrow> formula list option" where
  "flatten_and flat [] = Some flat"
| "flatten_and flat (item # items) =
     (case item of
        FTrue \<Rightarrow> flatten_and flat items
      | FFalse \<Rightarrow> None
      | FAnd inner \<Rightarrow> flatten_and (foldl push_new flat inner) items
      | other \<Rightarrow> flatten_and (push_new flat other) items)"

fun flatten_or :: "formula list \<Rightarrow> formula list \<Rightarrow> formula list option" where
  "flatten_or flat [] = Some flat"
| "flatten_or flat (item # items) =
     (case item of
        FFalse \<Rightarrow> flatten_or flat items
      | FTrue \<Rightarrow> None
      | FOr inner \<Rightarrow> flatten_or (foldl push_new flat inner) items
      | other \<Rightarrow> flatten_or (push_new flat other) items)"

fun simplify :: "formula \<Rightarrow> formula" where
  "simplify (FAnd items) =
     (case flatten_and [] items of
        None \<Rightarrow> FFalse
      | Some flat \<Rightarrow> (case flat of [] \<Rightarrow> FTrue | [f] \<Rightarrow> f | _ \<Rightarrow> FAnd flat))"
| "simplify (FOr items) =
     (case flatten_or [] items of
        None \<Rightarrow> FTrue
      | Some flat \<Rightarrow> (case flat of [] \<Rightarrow> FFalse | [f] \<Rightarrow> f | _ \<Rightarrow> FOr flat))"
| "simplify (FImplies lhs rhs) =
     (if lhs = FFalse \<or> rhs = FTrue then FTrue
      else if lhs = FTrue then rhs
      else FImplies lhs rhs)"
| "simplify other = other"

definition f_bool_var :: "string \<Rightarrow> formula" where
  "f_bool_var name = FVar (var_bool name)"

definition f_not :: "formula \<Rightarrow> formula" where
  "f_not inner = FNot inner"

definition f_and :: "formula \<Rightarrow> formula \<Rightarrow> formula" where
  "f_and lhs rhs = simplify (FAnd [lhs, rhs])"

definition f_and_many :: "formula list \<Rightarrow> formula" where
  "f_and_many items = simplify (FAnd items)"

definition f_or :: "formula \<Rightarrow> formula \<Rightarrow> formula" where
  "f_or lhs rhs = simplify (FOr [lhs, rhs])"

definition f_or_many :: "formula list \<Rightarrow> formula" where
  "f_or_many items = simplify (FOr items)"

definition f_implies :: "formula \<Rightarrow> formula \<Rightarrow> formula" where
  "f_implies lhs rhs = simplify (FImplies lhs rhs)"

definition f_iff :: "formula \<Rightarrow> formula \<Rightarrow> formula" where
  "f_iff lhs rhs = f_and (f_implies lhs rhs) (f_implies rhs lhs)"

section \<open>Sort checking\<close>

fun first_error :: "('e + unit) list \<Rightarrow> 'e + unit" where
  "first_error [] = Inr ()"
| "first_error (x # xs) = rbind x (\<lambda>_. first_error xs)"

lemma first_error_Inr [simp]: "first_error xs = Inr u \<longleftrightarrow> (\<forall>x \<in> set xs. x = Inr ())"
  by (induction xs) (auto simp: rbind_eq_Inr)

definition arith_sort :: "(formula_error + sort) \<Rightarrow> (formula_error + sort) \<Rightarrow> formula_error + sort"
where
  "arith_sort l r = rbind l (\<lambda>lhs_sort. rbind r (\<lambda>rhs_sort.
     if lhs_sort \<noteq> rhs_sort then Inl (MixedSorts lhs_sort rhs_sort)
     else if lhs_sort = SBool then Inl (ExpectedNumericSort SBool)
     else Inr lhs_sort))"

definition int_sort :: "(formula_error + sort) \<Rightarrow> formula_error + unit" where
  "int_sort s = rbind s (\<lambda>s. if s \<noteq> SInt then Inl (ExpectedIntegerSort s) else Inr ())"

primrec validate_memory :: "memory \<Rightarrow> formula_error + unit"
  and term_sort :: "fterm \<Rightarrow> formula_error + sort"
  and validate :: "formula \<Rightarrow> formula_error + unit" where
  "validate_memory (MVar name) = Inr ()"
| "validate_memory (MStore inner index val) =
     rbind (validate_memory inner) (\<lambda>_.
     rbind (term_sort index) (\<lambda>index_sort.
     rbind (term_sort val) (\<lambda>value_sort.
       if index_sort \<noteq> SInt then Inl (ExpectedIntegerSort index_sort)
       else if value_sort \<noteq> SInt then Inl (ExpectedIntegerSort value_sort)
       else Inr ())))"
| "term_sort (TVar v) = Inr (var_sort v)"
| "term_sort (TInt n) = Inr SInt"
| "term_sort (TReal q) = Inr SReal"
| "term_sort (TBoolToInt f) = rbind (validate f) (\<lambda>_. Inr SInt)"
| "term_sort (TSelect m index) = rbind (int_sort (term_sort index)) (\<lambda>_. Inr SInt)"
| "term_sort (TAdd l r) = arith_sort (term_sort l) (term_sort r)"
| "term_sort (TSub l r) = arith_sort (term_sort l) (term_sort r)"
| "term_sort (TMul l r) = arith_sort (term_sort l) (term_sort r)"
| "term_sort (TDiv l r) = arith_sort (term_sort l) (term_sort r)"
| "term_sort (TRem l r) = arith_sort (term_sort l) (term_sort r)"
| "term_sort (TNeg inner) =
     rbind (term_sort inner) (\<lambda>s. if s = SBool then Inl (ExpectedNumericSort SBool) else Inr s)"
| "validate FTrue = Inr ()"
| "validate FFalse = Inr ()"
| "validate (FVar v) =
     (if var_sort v \<noteq> SBool then Inl (ExpectedBooleanSort (var_sort v)) else Inr ())"
| "validate (FNot inner) = validate inner"
| "validate (FAnd items) = first_error (map validate items)"
| "validate (FOr items) = first_error (map validate items)"
| "validate (FImplies l r) = rbind (validate l) (\<lambda>_. validate r)"
| "validate (FEq l r) = rbind (arith_sort (term_sort l) (term_sort r)) (\<lambda>_. Inr ())"
| "validate (FMemoryEq l r) = rbind (validate_memory l) (\<lambda>_. validate_memory r)"
| "validate (FLt l r) = rbind (arith_sort (term_sort l) (term_sort r)) (\<lambda>_. Inr ())"
| "validate (FLe l r) = rbind (arith_sort (term_sort l) (term_sort r)) (\<lambda>_. Inr ())"
| "validate (FGt l r) = rbind (arith_sort (term_sort l) (term_sort r)) (\<lambda>_. Inr ())"
| "validate (FGe l r) = rbind (arith_sort (term_sort l) (term_sort r)) (\<lambda>_. Inr ())"

section \<open>Variable-for-variable substitution\<close>

definition map_var :: "(var \<rightharpoonup> var) \<Rightarrow> var \<Rightarrow> var" where
  "map_var mapping v = (case mapping v of None \<Rightarrow> v | Some w \<Rightarrow> w)"

primrec substitute_memory_vars :: "(var \<rightharpoonup> var) \<Rightarrow> memory \<Rightarrow> memory"
  and substitute_term_vars :: "(var \<rightharpoonup> var) \<Rightarrow> fterm \<Rightarrow> fterm"
  and substitute_formula_vars :: "(var \<rightharpoonup> var) \<Rightarrow> formula \<Rightarrow> formula" where
  "substitute_memory_vars mapping (MVar name) = MVar name"
| "substitute_memory_vars mapping (MStore inner index val) =
     MStore (substitute_memory_vars mapping inner) (substitute_term_vars mapping index)
       (substitute_term_vars mapping val)"
| "substitute_term_vars mapping (TVar v) = TVar (map_var mapping v)"
| "substitute_term_vars mapping (TInt n) = TInt n"
| "substitute_term_vars mapping (TReal q) = TReal q"
| "substitute_term_vars mapping (TBoolToInt inner) =
     TBoolToInt (substitute_formula_vars mapping inner)"
| "substitute_term_vars mapping (TSelect m index) =
     TSelect (substitute_memory_vars mapping m) (substitute_term_vars mapping index)"
| "substitute_term_vars mapping (TAdd l r) =
     TAdd (substitute_term_vars mapping l) (substitute_term_vars mapping r)"
| "substitute_term_vars mapping (TSub l r) =
     TSub (substitute_term_vars mapping l) (substitute_term_vars mapping r)"
| "substitute_term_vars mapping (TMul l r) =
     TMul (substitute_term_vars mapping l) (substitute_term_vars mapping r)"
| "substitute_term_vars mapping (TDiv l r) =
     TDiv (substitute_term_vars mapping l) (substitute_term_vars mapping r)"
| "substitute_term_vars mapping (TRem l r) =
     TRem (substitute_term_vars mapping l) (substitute_term_vars mapping r)"
| "substitute_term_vars mapping (TNeg inner) = TNeg (substitute_term_vars mapping inner)"
| "substitute_formula_vars mapping FTrue = FTrue"
| "substitute_formula_vars mapping FFalse = FFalse"
| "substitute_formula_vars mapping (FVar v) = FVar (map_var mapping v)"
| "substitute_formula_vars mapping (FNot inner) = f_not (substitute_formula_vars mapping inner)"
| "substitute_formula_vars mapping (FAnd items) =
     f_and_many (map (substitute_formula_vars mapping) items)"
| "substitute_formula_vars mapping (FOr items) =
     f_or_many (map (substitute_formula_vars mapping) items)"
| "substitute_formula_vars mapping (FImplies l r) =
     f_implies (substitute_formula_vars mapping l) (substitute_formula_vars mapping r)"
| "substitute_formula_vars mapping (FEq l r) =
     FEq (substitute_term_vars mapping l) (substitute_term_vars mapping r)"
| "substitute_formula_vars mapping (FMemoryEq l r) =
     FMemoryEq (substitute_memory_vars mapping l) (substitute_memory_vars mapping r)"
| "substitute_formula_vars mapping (FLt l r) =
     FLt (substitute_term_vars mapping l) (substitute_term_vars mapping r)"
| "substitute_formula_vars mapping (FLe l r) =
     FLe (substitute_term_vars mapping l) (substitute_term_vars mapping r)"
| "substitute_formula_vars mapping (FGt l r) =
     FGt (substitute_term_vars mapping l) (substitute_term_vars mapping r)"
| "substitute_formula_vars mapping (FGe l r) =
     FGe (substitute_term_vars mapping l) (substitute_term_vars mapping r)"

definition substitute :: "formula \<Rightarrow> (var \<rightharpoonup> var) \<Rightarrow> formula" where
  "substitute self mapping = substitute_formula_vars mapping self"

section \<open>Collectors\<close>

text \<open>The \<open>&mut Vec\<close> accumulator of the source is the list appended to.\<close>

primrec select_indices_memory :: "memory \<Rightarrow> i64 list"
  and select_indices_term :: "fterm \<Rightarrow> i64 list"
  and select_indices_formula :: "formula \<Rightarrow> i64 list" where
  "select_indices_memory (MVar name) = []"
| "select_indices_memory (MStore inner index val) =
     select_indices_memory inner @ select_indices_term index @ select_indices_term val"
| "select_indices_term (TVar v) = []"
| "select_indices_term (TInt n) = []"
| "select_indices_term (TReal q) = []"
| "select_indices_term (TBoolToInt inner) = select_indices_formula inner"
| "select_indices_term (TSelect m index) =
     select_indices_memory m @ (case index of TInt n \<Rightarrow> [n] | _ \<Rightarrow> [])
       @ select_indices_term index"
| "select_indices_term (TAdd l r) = select_indices_term l @ select_indices_term r"
| "select_indices_term (TSub l r) = select_indices_term l @ select_indices_term r"
| "select_indices_term (TMul l r) = select_indices_term l @ select_indices_term r"
| "select_indices_term (TDiv l r) = select_indices_term l @ select_indices_term r"
| "select_indices_term (TRem l r) = select_indices_term l @ select_indices_term r"
| "select_indices_term (TNeg inner) = select_indices_term inner"
| "select_indices_formula FTrue = []"
| "select_indices_formula FFalse = []"
| "select_indices_formula (FVar v) = []"
| "select_indices_formula (FNot inner) = select_indices_formula inner"
| "select_indices_formula (FAnd items) = concat (map select_indices_formula items)"
| "select_indices_formula (FOr items) = concat (map select_indices_formula items)"
| "select_indices_formula (FImplies l r) = select_indices_formula l @ select_indices_formula r"
| "select_indices_formula (FEq l r) = select_indices_term l @ select_indices_term r"
| "select_indices_formula (FMemoryEq l r) = select_indices_memory l @ select_indices_memory r"
| "select_indices_formula (FLt l r) = select_indices_term l @ select_indices_term r"
| "select_indices_formula (FLe l r) = select_indices_term l @ select_indices_term r"
| "select_indices_formula (FGt l r) = select_indices_term l @ select_indices_term r"
| "select_indices_formula (FGe l r) = select_indices_term l @ select_indices_term r"

definition collect_select_indices :: "formula \<Rightarrow> i64 list" where
  "collect_select_indices f = remdups_adj (sort_key sint (select_indices_formula f))"

primrec region_names_memory :: "memory \<Rightarrow> string set"
  and region_names_term :: "fterm \<Rightarrow> string set"
  and region_names_formula :: "formula \<Rightarrow> string set" where
  "region_names_memory (MVar name) = {name}"
| "region_names_memory (MStore inner index val) =
     region_names_memory inner \<union> region_names_term index \<union> region_names_term val"
| "region_names_term (TVar v) = {}"
| "region_names_term (TInt n) = {}"
| "region_names_term (TReal q) = {}"
| "region_names_term (TBoolToInt inner) = region_names_formula inner"
| "region_names_term (TSelect m index) = region_names_memory m \<union> region_names_term index"
| "region_names_term (TAdd l r) = region_names_term l \<union> region_names_term r"
| "region_names_term (TSub l r) = region_names_term l \<union> region_names_term r"
| "region_names_term (TMul l r) = region_names_term l \<union> region_names_term r"
| "region_names_term (TDiv l r) = region_names_term l \<union> region_names_term r"
| "region_names_term (TRem l r) = region_names_term l \<union> region_names_term r"
| "region_names_term (TNeg inner) = region_names_term inner"
| "region_names_formula FTrue = {}"
| "region_names_formula FFalse = {}"
| "region_names_formula (FVar v) = {}"
| "region_names_formula (FNot inner) = region_names_formula inner"
| "region_names_formula (FAnd items) = \<Union> (set (map region_names_formula items))"
| "region_names_formula (FOr items) = \<Union> (set (map region_names_formula items))"
| "region_names_formula (FImplies l r) = region_names_formula l \<union> region_names_formula r"
| "region_names_formula (FEq l r) = region_names_term l \<union> region_names_term r"
| "region_names_formula (FMemoryEq l r) = region_names_memory l \<union> region_names_memory r"
| "region_names_formula (FLt l r) = region_names_term l \<union> region_names_term r"
| "region_names_formula (FLe l r) = region_names_term l \<union> region_names_term r"
| "region_names_formula (FGt l r) = region_names_term l \<union> region_names_term r"
| "region_names_formula (FGe l r) = region_names_term l \<union> region_names_term r"

definition collect_memory_region_names :: "formula \<Rightarrow> string set" where
  "collect_memory_region_names f = region_names_formula f"

section \<open>Properties of the data layer\<close>

lemma gcd_loop_spec:
  "gcd_loop a b = Returns g \<Longrightarrow> 0 \<le> sint a \<Longrightarrow> 0 \<le> sint b \<Longrightarrow> sint g = gcd (sint a) (sint b)"
proof (induction a b rule: gcd_loop.induct)
  case (1 a b)
  show ?case
  proof (cases "b = 0")
    case True
    with "1.prems" show ?thesis by (simp add: gcd_loop.simps [of a 0])
  next
    case False
    with "1.prems" obtain t where t: "i64_rem a b = Returns t" and g: "gcd_loop b t = Returns g"
      by (auto simp: gcd_loop.simps [of a b] obind_eq_Returns)
    have st: "sint t = sint a smod sint b" and b0: "sint b \<noteq> 0"
      using sint_i64_rem [OF t] by auto
    then have "sint t = sint a mod sint b" using 1 by (simp add: smod_mod_positive)
    moreover have "0 \<le> sint t" using calculation "1.prems"(3) b0 by simp
    ultimately show ?thesis
      using "1.IH" [OF False t g] "1.prems"(3) by (metis gcd.commute gcd_red_int)
  qed
qed

lemma rat_gcd_spec:
  "rat_gcd True a b = Returns g \<Longrightarrow> sint b \<noteq> 0 \<Longrightarrow> sint g = gcd (sint a) (sint b)"
  by (auto simp: rat_gcd_def obind_eq_Returns dest!: sint_i64_abs gcd_loop_spec
      split: if_splits)

text \<open>
  The smart constructors rebuild only what they must: the flattening loops fail exactly on an
  absorbing item and otherwise keep the set of conjuncts.
\<close>

definition and_parts :: "formula \<Rightarrow> formula set" where
  "and_parts f = (case f of FTrue \<Rightarrow> {} | FAnd fs \<Rightarrow> set fs | g \<Rightarrow> {g})"

definition or_parts :: "formula \<Rightarrow> formula set" where
  "or_parts f = (case f of FFalse \<Rightarrow> {} | FOr fs \<Rightarrow> set fs | g \<Rightarrow> {g})"

lemma flatten_and_None: "flatten_and flat items = None \<longleftrightarrow> FFalse \<in> set items"
  by (induction flat items rule: flatten_and.induct) (auto split: formula.splits)

lemma flatten_or_None: "flatten_or flat items = None \<longleftrightarrow> FTrue \<in> set items"
  by (induction flat items rule: flatten_or.induct) (auto split: formula.splits)

lemma flatten_and_set:
  "flatten_and flat items = Some out \<Longrightarrow> set out = set flat \<union> (\<Union>f \<in> set items. and_parts f)"
  by (induction flat items rule: flatten_and.induct)
    (auto simp: and_parts_def split: formula.splits)

lemma flatten_or_set:
  "flatten_or flat items = Some out \<Longrightarrow> set out = set flat \<union> (\<Union>f \<in> set items. or_parts f)"
  by (induction flat items rule: flatten_or.induct)
    (auto simp: or_parts_def split: formula.splits)

lemma flatten_and_distinct: "flatten_and flat items = Some out \<Longrightarrow> distinct flat \<Longrightarrow> distinct out"
  by (induction flat items rule: flatten_and.induct) (auto split: formula.splits)

lemma flatten_or_distinct: "flatten_or flat items = Some out \<Longrightarrow> distinct flat \<Longrightarrow> distinct out"
  by (induction flat items rule: flatten_or.induct) (auto split: formula.splits)

end
