(* ===== verification/Formula_Sem.thy ===== *)
theory Formula_Sem
  imports Formula Complex_Main
begin

text \<open>
  The meaning of formulas.  The program gives its formulas a meaning by lowering them to Z3
  (\<open>src/smt/solver.rs\<close>): integers and reals, \<open>select\<close>/\<open>store\<close> on integer arrays, comparisons
  of equal sorts only.  A valuation is a program state: a value for every scalar variable, a
  truth value for every Boolean variable, and the cells of every memory region.  Division and
  remainder are total in SMT-LIB but unspecified at 0, so their meaning is part of the
  valuation; \<open>smtlib_division\<close> states what the standard fixes.
  An ill-sorted operation denotes \<open>IllSorted\<close> and a comparison of ill-sorted values is false;
  \<open>term_sort_sound\<close> shows that the sort checker excludes this.
\<close>

datatype scalar_value = IntV int | RealV real | IllSorted

record valuation =
  scalar_of :: "var \<Rightarrow> scalar_value"
  bool_of :: "var \<Rightarrow> bool"
  cells_of :: "string \<Rightarrow> int \<Rightarrow> int"
  int_div_of :: "int \<Rightarrow> int \<Rightarrow> int"
  int_rem_of :: "int \<Rightarrow> int \<Rightarrow> int"
  real_div_of :: "real \<Rightarrow> real \<Rightarrow> real"

text \<open>
  What SMT-LIB and Z3 document of \<open>div\<close>, \<open>rem\<close> and \<open>/\<close> away from a zero divisor: Euclidean
  division, and \<open>rem\<close> the modulus with the sign of the divisor.
\<close>

definition smtlib_division :: "valuation \<Rightarrow> bool" where
  "smtlib_division s \<longleftrightarrow>
     (\<forall>a b. b \<noteq> 0 \<longrightarrow> int_div_of s a b = sgn b * (a div \<bar>b\<bar>)) \<and>
     (\<forall>a b. b \<noteq> 0 \<longrightarrow> int_rem_of s a b = sgn b * (a mod \<bar>b\<bar>)) \<and>
     (\<forall>x y. y \<noteq> 0 \<longrightarrow> real_div_of s x y = x / y)"

definition rational_value :: "rational \<Rightarrow> real" where
  "rational_value q = real_of_int (sint (rat_num q)) / real_of_int (sint (rat_den q))"

fun arith_value ::
  "(int \<Rightarrow> int \<Rightarrow> int) \<Rightarrow> (real \<Rightarrow> real \<Rightarrow> real) \<Rightarrow> scalar_value \<Rightarrow> scalar_value \<Rightarrow> scalar_value"
where
  "arith_value fi fr (IntV a) (IntV b) = IntV (fi a b)"
| "arith_value fi fr (RealV a) (RealV b) = RealV (fr a b)"
| "arith_value fi fr _ _ = IllSorted"

fun rem_value :: "(int \<Rightarrow> int \<Rightarrow> int) \<Rightarrow> scalar_value \<Rightarrow> scalar_value \<Rightarrow> scalar_value" where
  "rem_value f (IntV a) (IntV b) = IntV (f a b)"
| "rem_value f _ _ = IllSorted"

fun neg_value :: "scalar_value \<Rightarrow> scalar_value" where
  "neg_value (IntV a) = IntV (- a)"
| "neg_value (RealV a) = RealV (- a)"
| "neg_value IllSorted = IllSorted"

fun compare_values ::
  "(int \<Rightarrow> int \<Rightarrow> bool) \<Rightarrow> (real \<Rightarrow> real \<Rightarrow> bool) \<Rightarrow> scalar_value \<Rightarrow> scalar_value \<Rightarrow> bool"
where
  "compare_values ci cr (IntV a) (IntV b) = ci a b"
| "compare_values ci cr (RealV a) (RealV b) = cr a b"
| "compare_values ci cr _ _ = False"

fun index_of :: "scalar_value \<Rightarrow> int option" where
  "index_of (IntV i) = Some i"
| "index_of _ = None"

definition store_cells ::
  "(int \<Rightarrow> int) \<Rightarrow> scalar_value \<Rightarrow> scalar_value \<Rightarrow> int \<Rightarrow> int" where
  "store_cells m i v =
     (case index_of i of None \<Rightarrow> m
      | Some i \<Rightarrow> (case index_of v of None \<Rightarrow> m | Some v \<Rightarrow> m(i := v)))"

definition select_cell :: "(int \<Rightarrow> int) \<Rightarrow> scalar_value \<Rightarrow> scalar_value" where
  "select_cell m i = (case index_of i of None \<Rightarrow> IllSorted | Some i \<Rightarrow> IntV (m i))"

primrec eval_memory :: "valuation \<Rightarrow> memory \<Rightarrow> int \<Rightarrow> int"
  and eval_term :: "valuation \<Rightarrow> fterm \<Rightarrow> scalar_value"
  and eval_formula :: "valuation \<Rightarrow> formula \<Rightarrow> bool" where
  "eval_memory s (MVar name) = cells_of s name"
| "eval_memory s (MStore inner index val) =
     store_cells (eval_memory s inner) (eval_term s index) (eval_term s val)"
| "eval_term s (TVar v) = scalar_of s v"
| "eval_term s (TInt n) = IntV (sint n)"
| "eval_term s (TReal q) = RealV (rational_value q)"
| "eval_term s (TBoolToInt f) = IntV (if eval_formula s f then 1 else 0)"
| "eval_term s (TSelect m index) = select_cell (eval_memory s m) (eval_term s index)"
| "eval_term s (TAdd l r) = arith_value (+) (+) (eval_term s l) (eval_term s r)"
| "eval_term s (TSub l r) = arith_value (-) (-) (eval_term s l) (eval_term s r)"
| "eval_term s (TMul l r) = arith_value (*) (*) (eval_term s l) (eval_term s r)"
| "eval_term s (TDiv l r) =
     arith_value (int_div_of s) (real_div_of s) (eval_term s l) (eval_term s r)"
| "eval_term s (TRem l r) = rem_value (int_rem_of s) (eval_term s l) (eval_term s r)"
| "eval_term s (TNeg t) = neg_value (eval_term s t)"
| "eval_formula s FTrue = True"
| "eval_formula s FFalse = False"
| "eval_formula s (FVar v) = bool_of s v"
| "eval_formula s (FNot f) = (\<not> eval_formula s f)"
| "eval_formula s (FAnd fs) = list_all (\<lambda>b. b) (map (eval_formula s) fs)"
| "eval_formula s (FOr fs) = list_ex (\<lambda>b. b) (map (eval_formula s) fs)"
| "eval_formula s (FImplies l r) = (eval_formula s l \<longrightarrow> eval_formula s r)"
| "eval_formula s (FEq l r) = compare_values (=) (=) (eval_term s l) (eval_term s r)"
| "eval_formula s (FMemoryEq l r) = (eval_memory s l = eval_memory s r)"
| "eval_formula s (FLt l r) = compare_values (<) (<) (eval_term s l) (eval_term s r)"
| "eval_formula s (FLe l r) = compare_values (\<le>) (\<le>) (eval_term s l) (eval_term s r)"
| "eval_formula s (FGt l r) = compare_values (>) (>) (eval_term s l) (eval_term s r)"
| "eval_formula s (FGe l r) = compare_values (\<ge>) (\<ge>) (eval_term s l) (eval_term s r)"

abbreviation satisfiable :: "formula \<Rightarrow> bool" where
  "satisfiable f \<equiv> \<exists>s. eval_formula s f"

lemma eval_FAnd [eval_simps, simp]: "eval_formula s (FAnd fs) \<longleftrightarrow> (\<forall>f \<in> set fs. eval_formula s f)"
  by (simp add: list_all_iff)

lemma eval_FOr [eval_simps, simp]: "eval_formula s (FOr fs) \<longleftrightarrow> (\<exists>f \<in> set fs. eval_formula s f)"
  by (simp add: list_ex_iff)

declare eval_formula.simps(5,6) [simp del]

section \<open>The smart constructors mean what they say\<close>

lemma eval_and_parts: "eval_formula s f \<longleftrightarrow> f \<noteq> FFalse \<and> (\<forall>g \<in> and_parts f. eval_formula s g)"
  by (cases f) (auto simp: and_parts_def)

lemma eval_or_parts: "eval_formula s f \<longleftrightarrow> f = FTrue \<or> (\<exists>g \<in> or_parts f. eval_formula s g)"
  by (cases f) (auto simp: or_parts_def)

lemma eval_simplify_and: "eval_formula s (simplify (FAnd fs)) \<longleftrightarrow> (\<forall>f \<in> set fs. eval_formula s f)"
proof (cases "flatten_and [] fs")
  case None
  then have "FFalse \<in> set fs" by (simp add: flatten_and_None)
  with None show ?thesis by force
next
  case (Some out)
  then have "FFalse \<notin> set fs" and "set out = (\<Union>f \<in> set fs. and_parts f)"
    using flatten_and_None [of "[]" fs] flatten_and_set [of "[]" fs out] by auto
  then have "(\<forall>f \<in> set fs. eval_formula s f) \<longleftrightarrow> (\<forall>g \<in> set out. eval_formula s g)"
    using eval_and_parts [of s] by (metis UN_iff)
  with Some show ?thesis by (auto split: list.splits)
qed

lemma eval_simplify_or: "eval_formula s (simplify (FOr fs)) \<longleftrightarrow> (\<exists>f \<in> set fs. eval_formula s f)"
proof (cases "flatten_or [] fs")
  case None
  then have "FTrue \<in> set fs" by (simp add: flatten_or_None)
  with None show ?thesis by force
next
  case (Some out)
  then have "FTrue \<notin> set fs" and "set out = (\<Union>f \<in> set fs. or_parts f)"
    using flatten_or_None [of "[]" fs] flatten_or_set [of "[]" fs out] by auto
  then have "(\<exists>f \<in> set fs. eval_formula s f) \<longleftrightarrow> (\<exists>g \<in> set out. eval_formula s g)"
    using eval_or_parts [of s] by (metis UN_iff)
  with Some show ?thesis by (auto split: list.splits)
qed

lemma eval_simplify: "eval_formula s (simplify f) = eval_formula s f"
proof (cases f)
  case (FAnd fs)
  then show ?thesis by (metis eval_FAnd eval_simplify_and)
next
  case (FOr fs)
  then show ?thesis by (metis eval_FOr eval_simplify_or)
qed auto

text \<open>
  The connectives as an interface: whatever builds formulas with them relies on these laws
  only, never on the shape that \<open>simplify\<close> happens to produce.
\<close>

locale connectives =
  fixes holds :: "'s \<Rightarrow> 'f \<Rightarrow> bool"
    and top bot :: 'f
    and neg :: "'f \<Rightarrow> 'f"
    and conj disj impl :: "'f \<Rightarrow> 'f \<Rightarrow> 'f"
    and conjs disjs :: "'f list \<Rightarrow> 'f"
  assumes holds_top: "holds s top"
    and holds_bot: "\<not> holds s bot"
    and holds_neg: "holds s (neg f) \<longleftrightarrow> \<not> holds s f"
    and holds_conj: "holds s (conj f g) \<longleftrightarrow> holds s f \<and> holds s g"
    and holds_disj: "holds s (disj f g) \<longleftrightarrow> holds s f \<or> holds s g"
    and holds_impl: "holds s (impl f g) \<longleftrightarrow> (holds s f \<longrightarrow> holds s g)"
    and holds_conjs: "holds s (conjs fs) \<longleftrightarrow> (\<forall>f \<in> set fs. holds s f)"
    and holds_disjs: "holds s (disjs fs) \<longleftrightarrow> (\<exists>f \<in> set fs. holds s f)"
begin

lemma holds_fold_disj: "holds s (foldl disj f fs) \<longleftrightarrow> holds s f \<or> (\<exists>g \<in> set fs. holds s g)"
  by (induction fs arbitrary: f) (auto simp: holds_disj)

lemma holds_fold_conj: "holds s (foldl conj f fs) \<longleftrightarrow> holds s f \<and> (\<forall>g \<in> set fs. holds s g)"
  by (induction fs arbitrary: f) (auto simp: holds_conj)

text \<open>Refutation, as \<open>Oracle::implies\<close> uses it.\<close>

lemma entails_by_refutation:
  "(\<forall>s. \<not> holds s (conj f (neg g))) \<longleftrightarrow> (\<forall>s. holds s f \<longrightarrow> holds s g)"
  by (auto simp: holds_conj holds_neg)

end

interpretation fml: connectives eval_formula FTrue FFalse f_not f_and f_or f_implies
  f_and_many f_or_many
  by unfold_locales
    (simp_all add: f_not_def f_and_def f_or_def f_implies_def f_and_many_def f_or_many_def
      eval_simplify_and eval_simplify_or eval_simplify del: simplify.simps)

lemmas eval_connectives = fml.holds_neg fml.holds_conj fml.holds_disj fml.holds_impl
  fml.holds_conjs fml.holds_disjs
declare eval_connectives [simp, eval_simps]

lemma eval_f_iff [simp, eval_simps]:
  "eval_formula s (f_iff f g) \<longleftrightarrow> (eval_formula s f \<longleftrightarrow> eval_formula s g)"
  by (auto simp: f_iff_def)

section \<open>Sort soundness\<close>

fun value_sort :: "scalar_value \<Rightarrow> sort option" where
  "value_sort (IntV i) = Some SInt"
| "value_sort (RealV r) = Some SReal"
| "value_sort IllSorted = None"

definition well_sorted :: "valuation \<Rightarrow> bool" where
  "well_sorted s \<longleftrightarrow> (\<forall>v. var_sort v \<noteq> SBool \<longrightarrow> value_sort (scalar_of s v) = Some (var_sort v))"

lemma value_sort_Int: "value_sort v = Some SInt \<longleftrightarrow> (\<exists>i. v = IntV i)"
  by (cases v) auto

lemma value_sort_Real: "value_sort v = Some SReal \<longleftrightarrow> (\<exists>r. v = RealV r)"
  by (cases v) auto

lemma arith_sort_Inr:
  "arith_sort l r = Inr t \<longleftrightarrow> l = Inr t \<and> r = Inr t \<and> t \<noteq> SBool"
  by (auto simp: arith_sort_def rbind_eq_Inr split: if_splits)

lemma value_sort_arith:
  "value_sort x = Some t \<Longrightarrow> value_sort y = Some t \<Longrightarrow> value_sort (arith_value fi fr x y) = Some t"
  by (cases x; cases y) auto

lemma value_sort_neg: "value_sort (neg_value x) = value_sort x"
  by (cases x) auto

lemma value_sort_rem:
  "value_sort x = Some SInt \<Longrightarrow> value_sort y = Some SInt \<Longrightarrow> value_sort (rem_value f x y) = Some SInt"
  by (cases x; cases y) auto

lemma value_sort_select: "value_sort i = Some SInt \<Longrightarrow> value_sort (select_cell m i) = Some SInt"
  by (cases i) (auto simp: select_cell_def)

text \<open>
  The checker accepts the remainder of two reals although the lowering refuses it; the
  predicate excludes it on the spine of a term and in the indices it reads.
\<close>

primrec no_real_rem :: "fterm \<Rightarrow> bool" where
  "no_real_rem (TVar v) = True"
| "no_real_rem (TInt n) = True"
| "no_real_rem (TReal q) = True"
| "no_real_rem (TBoolToInt f) = True"
| "no_real_rem (TSelect m i) = no_real_rem i"
| "no_real_rem (TAdd l r) = (no_real_rem l \<and> no_real_rem r)"
| "no_real_rem (TSub l r) = (no_real_rem l \<and> no_real_rem r)"
| "no_real_rem (TMul l r) = (no_real_rem l \<and> no_real_rem r)"
| "no_real_rem (TDiv l r) = (no_real_rem l \<and> no_real_rem r)"
| "no_real_rem (TRem l r) = (no_real_rem l \<and> no_real_rem r \<and> term_sort l \<noteq> Inr SReal)"
| "no_real_rem (TNeg t) = no_real_rem t"

lemma eval_term_sorted:
  assumes "well_sorted s"
  shows "no_real_rem t \<Longrightarrow> term_sort t = Inr k \<Longrightarrow> k \<noteq> SBool \<Longrightarrow> value_sort (eval_term s t) = Some k"
proof (induction t arbitrary: k rule: fterm.induct
    [where ?P1.0 = "\<lambda>_. True" and ?P3.0 = "\<lambda>_. True"])
  case (TVar v)
  with assms show ?case by (simp add: well_sorted_def)
next
  case (TRem l r)
  then show ?case by (cases k) (auto simp: arith_sort_Inr intro!: value_sort_rem)
next
  case (TNeg t)
  then show ?case by (auto simp: value_sort_neg rbind_eq_Inr split: if_splits)
qed (auto simp: arith_sort_Inr int_sort_def rbind_eq_Inr split: if_splits
      intro!: value_sort_arith value_sort_select)

section \<open>Free symbols and coincidence\<close>

primrec scalars_memory :: "memory \<Rightarrow> var set"
  and scalars_term :: "fterm \<Rightarrow> var set"
  and scalars_formula :: "formula \<Rightarrow> var set" where
  "scalars_memory (MVar name) = {}"
| "scalars_memory (MStore m i v) = scalars_memory m \<union> scalars_term i \<union> scalars_term v"
| "scalars_term (TVar v) = {v}"
| "scalars_term (TInt n) = {}"
| "scalars_term (TReal q) = {}"
| "scalars_term (TBoolToInt f) = scalars_formula f"
| "scalars_term (TSelect m i) = scalars_memory m \<union> scalars_term i"
| "scalars_term (TAdd l r) = scalars_term l \<union> scalars_term r"
| "scalars_term (TSub l r) = scalars_term l \<union> scalars_term r"
| "scalars_term (TMul l r) = scalars_term l \<union> scalars_term r"
| "scalars_term (TDiv l r) = scalars_term l \<union> scalars_term r"
| "scalars_term (TRem l r) = scalars_term l \<union> scalars_term r"
| "scalars_term (TNeg t) = scalars_term t"
| "scalars_formula FTrue = {}"
| "scalars_formula FFalse = {}"
| "scalars_formula (FVar v) = {}"
| "scalars_formula (FNot f) = scalars_formula f"
| "scalars_formula (FAnd fs) = \<Union> (set (map scalars_formula fs))"
| "scalars_formula (FOr fs) = \<Union> (set (map scalars_formula fs))"
| "scalars_formula (FImplies l r) = scalars_formula l \<union> scalars_formula r"
| "scalars_formula (FEq l r) = scalars_term l \<union> scalars_term r"
| "scalars_formula (FMemoryEq l r) = scalars_memory l \<union> scalars_memory r"
| "scalars_formula (FLt l r) = scalars_term l \<union> scalars_term r"
| "scalars_formula (FLe l r) = scalars_term l \<union> scalars_term r"
| "scalars_formula (FGt l r) = scalars_term l \<union> scalars_term r"
| "scalars_formula (FGe l r) = scalars_term l \<union> scalars_term r"

primrec bools_memory :: "memory \<Rightarrow> var set"
  and bools_term :: "fterm \<Rightarrow> var set"
  and bools_formula :: "formula \<Rightarrow> var set" where
  "bools_memory (MVar name) = {}"
| "bools_memory (MStore m i v) = bools_memory m \<union> bools_term i \<union> bools_term v"
| "bools_term (TVar v) = {}"
| "bools_term (TInt n) = {}"
| "bools_term (TReal q) = {}"
| "bools_term (TBoolToInt f) = bools_formula f"
| "bools_term (TSelect m i) = bools_memory m \<union> bools_term i"
| "bools_term (TAdd l r) = bools_term l \<union> bools_term r"
| "bools_term (TSub l r) = bools_term l \<union> bools_term r"
| "bools_term (TMul l r) = bools_term l \<union> bools_term r"
| "bools_term (TDiv l r) = bools_term l \<union> bools_term r"
| "bools_term (TRem l r) = bools_term l \<union> bools_term r"
| "bools_term (TNeg t) = bools_term t"
| "bools_formula FTrue = {}"
| "bools_formula FFalse = {}"
| "bools_formula (FVar v) = {v}"
| "bools_formula (FNot f) = bools_formula f"
| "bools_formula (FAnd fs) = \<Union> (set (map bools_formula fs))"
| "bools_formula (FOr fs) = \<Union> (set (map bools_formula fs))"
| "bools_formula (FImplies l r) = bools_formula l \<union> bools_formula r"
| "bools_formula (FEq l r) = bools_term l \<union> bools_term r"
| "bools_formula (FMemoryEq l r) = bools_memory l \<union> bools_memory r"
| "bools_formula (FLt l r) = bools_term l \<union> bools_term r"
| "bools_formula (FLe l r) = bools_term l \<union> bools_term r"
| "bools_formula (FGt l r) = bools_term l \<union> bools_term r"
| "bools_formula (FGe l r) = bools_term l \<union> bools_term r"

definition same_arith :: "valuation \<Rightarrow> valuation \<Rightarrow> bool" where
  "same_arith s t \<longleftrightarrow> int_div_of s = int_div_of t \<and> int_rem_of s = int_rem_of t
     \<and> real_div_of s = real_div_of t"

definition agree :: "var set \<Rightarrow> var set \<Rightarrow> string set \<Rightarrow> valuation \<Rightarrow> valuation \<Rightarrow> bool" where
  "agree V B R s t \<longleftrightarrow> same_arith s t \<and> (\<forall>v \<in> V. scalar_of s v = scalar_of t v)
     \<and> (\<forall>v \<in> B. bool_of s v = bool_of t v) \<and> (\<forall>r \<in> R. cells_of s r = cells_of t r)"

lemma agree_Un [simp]:
  "agree (V \<union> V') (B \<union> B') (R \<union> R') s t \<longleftrightarrow> agree V B R s t \<and> agree V' B' R' s t"
  by (auto simp: agree_def)

lemma agree_UN:
  "agree (\<Union>f \<in> S. V f) (\<Union>f \<in> S. B f) (\<Union>f \<in> S. R f) s t \<Longrightarrow> f \<in> S \<Longrightarrow> agree (V f) (B f) (R f) s t"
  by (auto simp: agree_def)

lemma coincidence:
  shows eval_memory_agree:
      "agree (scalars_memory m) (bools_memory m) (region_names_memory m) s t
        \<Longrightarrow> eval_memory s m = eval_memory t m"
    and eval_term_agree:
      "agree (scalars_term e) (bools_term e) (region_names_term e) s t
        \<Longrightarrow> eval_term s e = eval_term t e"
    and eval_formula_agree:
      "agree (scalars_formula f) (bools_formula f) (region_names_formula f) s t
        \<Longrightarrow> eval_formula s f = eval_formula t f"
proof (induction m and e and f)
  case (FAnd fs)
  have "eval_formula s f = eval_formula t f" if "f \<in> set fs" for f
    using FAnd.IH [OF that] agree_UN [of scalars_formula "set fs"] FAnd.prems that by auto
  then show ?case by simp
next
  case (FOr fs)
  have "eval_formula s f = eval_formula t f" if "f \<in> set fs" for f
    using FOr.IH [OF that] agree_UN [of scalars_formula "set fs"] FOr.prems that by auto
  then show ?case by simp
next
  case (TDiv l r)
  then have "same_arith s t" by (simp add: agree_def)
  with TDiv show ?case by (simp add: same_arith_def)
next
  case (TRem l r)
  then have "same_arith s t" by (simp add: agree_def)
  with TRem show ?case by (simp add: same_arith_def)
qed (auto simp: agree_def)

end
