(* ===== verification/Substitution.thy ===== *)
theory Substitution
  imports Formula_Sem
begin

text \<open>
  The substitution helpers of \<open>src/cfg/abstract_cfg.rs\<close> (a term for a scalar variable, a
  formula for a Boolean variable, a memory for a region) and the renaming of
  \<open>src/formula/alpha_rename.rs\<close>, each with the lemma that relates the syntactic operation to
  an update of the valuation.
\<close>

section \<open>A term for a scalar variable\<close>

primrec substitute_var_in_memory :: "var \<Rightarrow> fterm \<Rightarrow> memory \<Rightarrow> memory"
  and substitute_var_in_term :: "var \<Rightarrow> fterm \<Rightarrow> fterm \<Rightarrow> fterm"
  and substitute_var_in_formula :: "var \<Rightarrow> fterm \<Rightarrow> formula \<Rightarrow> formula" where
  "substitute_var_in_memory target replacement (MVar name) = MVar name"
| "substitute_var_in_memory target replacement (MStore inner index val) =
     MStore (substitute_var_in_memory target replacement inner) (substitute_var_in_term target replacement index)
       (substitute_var_in_term target replacement val)"
| "substitute_var_in_term target replacement (TVar v) = (if v = target then replacement else TVar v)"
| "substitute_var_in_term target replacement (TInt n) = TInt n"
| "substitute_var_in_term target replacement (TReal q) = TReal q"
| "substitute_var_in_term target replacement (TBoolToInt inner) =
     TBoolToInt (substitute_var_in_formula target replacement inner)"
| "substitute_var_in_term target replacement (TSelect m index) =
     TSelect (substitute_var_in_memory target replacement m) (substitute_var_in_term target replacement index)"
| "substitute_var_in_term target replacement (TAdd l r) =
     TAdd (substitute_var_in_term target replacement l) (substitute_var_in_term target replacement r)"
| "substitute_var_in_term target replacement (TSub l r) =
     TSub (substitute_var_in_term target replacement l) (substitute_var_in_term target replacement r)"
| "substitute_var_in_term target replacement (TMul l r) =
     TMul (substitute_var_in_term target replacement l) (substitute_var_in_term target replacement r)"
| "substitute_var_in_term target replacement (TDiv l r) =
     TDiv (substitute_var_in_term target replacement l) (substitute_var_in_term target replacement r)"
| "substitute_var_in_term target replacement (TRem l r) =
     TRem (substitute_var_in_term target replacement l) (substitute_var_in_term target replacement r)"
| "substitute_var_in_term target replacement (TNeg inner) = TNeg (substitute_var_in_term target replacement inner)"
| "substitute_var_in_formula target replacement FTrue = FTrue"
| "substitute_var_in_formula target replacement FFalse = FFalse"
| "substitute_var_in_formula target replacement (FVar v) = FVar v"
| "substitute_var_in_formula target replacement (FNot inner) = f_not (substitute_var_in_formula target replacement inner)"
| "substitute_var_in_formula target replacement (FAnd items) =
     f_and_many (map (substitute_var_in_formula target replacement) items)"
| "substitute_var_in_formula target replacement (FOr items) =
     f_or_many (map (substitute_var_in_formula target replacement) items)"
| "substitute_var_in_formula target replacement (FImplies l r) =
     f_implies (substitute_var_in_formula target replacement l) (substitute_var_in_formula target replacement r)"
| "substitute_var_in_formula target replacement (FEq l r) =
     FEq (substitute_var_in_term target replacement l) (substitute_var_in_term target replacement r)"
| "substitute_var_in_formula target replacement (FMemoryEq l r) =
     FMemoryEq (substitute_var_in_memory target replacement l) (substitute_var_in_memory target replacement r)"
| "substitute_var_in_formula target replacement (FLt l r) =
     FLt (substitute_var_in_term target replacement l) (substitute_var_in_term target replacement r)"
| "substitute_var_in_formula target replacement (FLe l r) =
     FLe (substitute_var_in_term target replacement l) (substitute_var_in_term target replacement r)"
| "substitute_var_in_formula target replacement (FGt l r) =
     FGt (substitute_var_in_term target replacement l) (substitute_var_in_term target replacement r)"
| "substitute_var_in_formula target replacement (FGe l r) =
     FGe (substitute_var_in_term target replacement l) (substitute_var_in_term target replacement r)"

section \<open>A formula for a Boolean variable\<close>

text \<open>The source does not descend into the terms of an atom.\<close>

primrec substitute_bool_var_in_formula :: "var \<Rightarrow> formula \<Rightarrow> formula \<Rightarrow> formula" where
  "substitute_bool_var_in_formula target replacement FTrue = FTrue"
| "substitute_bool_var_in_formula target replacement FFalse = FFalse"
| "substitute_bool_var_in_formula target replacement (FVar v) =
     (if v = target then replacement else FVar v)"
| "substitute_bool_var_in_formula target replacement (FNot inner) =
     f_not (substitute_bool_var_in_formula target replacement inner)"
| "substitute_bool_var_in_formula target replacement (FAnd items) =
     f_and_many (map (substitute_bool_var_in_formula target replacement) items)"
| "substitute_bool_var_in_formula target replacement (FOr items) =
     f_or_many (map (substitute_bool_var_in_formula target replacement) items)"
| "substitute_bool_var_in_formula target replacement (FImplies l r) =
     f_implies (substitute_bool_var_in_formula target replacement l)
       (substitute_bool_var_in_formula target replacement r)"
| "substitute_bool_var_in_formula target replacement (FEq l r) = FEq l r"
| "substitute_bool_var_in_formula target replacement (FMemoryEq l r) = FMemoryEq l r"
| "substitute_bool_var_in_formula target replacement (FLt l r) = FLt l r"
| "substitute_bool_var_in_formula target replacement (FLe l r) = FLe l r"
| "substitute_bool_var_in_formula target replacement (FGt l r) = FGt l r"
| "substitute_bool_var_in_formula target replacement (FGe l r) = FGe l r"

section \<open>A memory for a region\<close>

primrec substitute_memory_var_in_memory :: "string \<Rightarrow> memory \<Rightarrow> memory \<Rightarrow> memory"
  and substitute_memory_var_in_term :: "string \<Rightarrow> memory \<Rightarrow> fterm \<Rightarrow> fterm"
  and substitute_memory_var_in_formula :: "string \<Rightarrow> memory \<Rightarrow> formula \<Rightarrow> formula" where
  "substitute_memory_var_in_memory region replacement (MVar name) = (if name = region then replacement else MVar name)"
| "substitute_memory_var_in_memory region replacement (MStore inner index val) =
     MStore (substitute_memory_var_in_memory region replacement inner) (substitute_memory_var_in_term region replacement index)
       (substitute_memory_var_in_term region replacement val)"
| "substitute_memory_var_in_term region replacement (TVar v) = TVar v"
| "substitute_memory_var_in_term region replacement (TInt n) = TInt n"
| "substitute_memory_var_in_term region replacement (TReal q) = TReal q"
| "substitute_memory_var_in_term region replacement (TBoolToInt inner) =
     TBoolToInt (substitute_memory_var_in_formula region replacement inner)"
| "substitute_memory_var_in_term region replacement (TSelect m index) =
     TSelect (substitute_memory_var_in_memory region replacement m) (substitute_memory_var_in_term region replacement index)"
| "substitute_memory_var_in_term region replacement (TAdd l r) =
     TAdd (substitute_memory_var_in_term region replacement l) (substitute_memory_var_in_term region replacement r)"
| "substitute_memory_var_in_term region replacement (TSub l r) =
     TSub (substitute_memory_var_in_term region replacement l) (substitute_memory_var_in_term region replacement r)"
| "substitute_memory_var_in_term region replacement (TMul l r) =
     TMul (substitute_memory_var_in_term region replacement l) (substitute_memory_var_in_term region replacement r)"
| "substitute_memory_var_in_term region replacement (TDiv l r) =
     TDiv (substitute_memory_var_in_term region replacement l) (substitute_memory_var_in_term region replacement r)"
| "substitute_memory_var_in_term region replacement (TRem l r) =
     TRem (substitute_memory_var_in_term region replacement l) (substitute_memory_var_in_term region replacement r)"
| "substitute_memory_var_in_term region replacement (TNeg inner) = TNeg (substitute_memory_var_in_term region replacement inner)"
| "substitute_memory_var_in_formula region replacement FTrue = FTrue"
| "substitute_memory_var_in_formula region replacement FFalse = FFalse"
| "substitute_memory_var_in_formula region replacement (FVar v) = FVar v"
| "substitute_memory_var_in_formula region replacement (FNot inner) = f_not (substitute_memory_var_in_formula region replacement inner)"
| "substitute_memory_var_in_formula region replacement (FAnd items) =
     f_and_many (map (substitute_memory_var_in_formula region replacement) items)"
| "substitute_memory_var_in_formula region replacement (FOr items) =
     f_or_many (map (substitute_memory_var_in_formula region replacement) items)"
| "substitute_memory_var_in_formula region replacement (FImplies l r) =
     f_implies (substitute_memory_var_in_formula region replacement l) (substitute_memory_var_in_formula region replacement r)"
| "substitute_memory_var_in_formula region replacement (FEq l r) =
     FEq (substitute_memory_var_in_term region replacement l) (substitute_memory_var_in_term region replacement r)"
| "substitute_memory_var_in_formula region replacement (FMemoryEq l r) =
     FMemoryEq (substitute_memory_var_in_memory region replacement l) (substitute_memory_var_in_memory region replacement r)"
| "substitute_memory_var_in_formula region replacement (FLt l r) =
     FLt (substitute_memory_var_in_term region replacement l) (substitute_memory_var_in_term region replacement r)"
| "substitute_memory_var_in_formula region replacement (FLe l r) =
     FLe (substitute_memory_var_in_term region replacement l) (substitute_memory_var_in_term region replacement r)"
| "substitute_memory_var_in_formula region replacement (FGt l r) =
     FGt (substitute_memory_var_in_term region replacement l) (substitute_memory_var_in_term region replacement r)"
| "substitute_memory_var_in_formula region replacement (FGe l r) =
     FGe (substitute_memory_var_in_term region replacement l) (substitute_memory_var_in_term region replacement r)"

section \<open>Alpha-renaming\<close>

definition rename_var :: "(string \<Rightarrow> string) \<Rightarrow> var \<Rightarrow> var" where
  "rename_var var_rename v = var_new (var_rename (var_name v)) (var_sort v)"

primrec rename_memory :: "(string \<Rightarrow> string) \<Rightarrow> (string \<Rightarrow> string) \<Rightarrow> memory \<Rightarrow> memory"
  and rename_term :: "(string \<Rightarrow> string) \<Rightarrow> (string \<Rightarrow> string) \<Rightarrow> fterm \<Rightarrow> fterm"
  and rename_formula :: "(string \<Rightarrow> string) \<Rightarrow> (string \<Rightarrow> string) \<Rightarrow> formula \<Rightarrow> formula" where
  "rename_memory var_rename region_rename (MVar name) = MVar (region_rename name)"
| "rename_memory var_rename region_rename (MStore inner index val) =
     MStore (rename_memory var_rename region_rename inner) (rename_term var_rename region_rename index)
       (rename_term var_rename region_rename val)"
| "rename_term var_rename region_rename (TVar v) = TVar (rename_var var_rename v)"
| "rename_term var_rename region_rename (TInt n) = TInt n"
| "rename_term var_rename region_rename (TReal q) = TReal q"
| "rename_term var_rename region_rename (TBoolToInt inner) =
     TBoolToInt (rename_formula var_rename region_rename inner)"
| "rename_term var_rename region_rename (TSelect m index) =
     TSelect (rename_memory var_rename region_rename m) (rename_term var_rename region_rename index)"
| "rename_term var_rename region_rename (TAdd l r) =
     TAdd (rename_term var_rename region_rename l) (rename_term var_rename region_rename r)"
| "rename_term var_rename region_rename (TSub l r) =
     TSub (rename_term var_rename region_rename l) (rename_term var_rename region_rename r)"
| "rename_term var_rename region_rename (TMul l r) =
     TMul (rename_term var_rename region_rename l) (rename_term var_rename region_rename r)"
| "rename_term var_rename region_rename (TDiv l r) =
     TDiv (rename_term var_rename region_rename l) (rename_term var_rename region_rename r)"
| "rename_term var_rename region_rename (TRem l r) =
     TRem (rename_term var_rename region_rename l) (rename_term var_rename region_rename r)"
| "rename_term var_rename region_rename (TNeg inner) = TNeg (rename_term var_rename region_rename inner)"
| "rename_formula var_rename region_rename FTrue = FTrue"
| "rename_formula var_rename region_rename FFalse = FFalse"
| "rename_formula var_rename region_rename (FVar v) = FVar (rename_var var_rename v)"
| "rename_formula var_rename region_rename (FNot inner) = FNot (rename_formula var_rename region_rename inner)"
| "rename_formula var_rename region_rename (FAnd items) =
     FAnd (map (rename_formula var_rename region_rename) items)"
| "rename_formula var_rename region_rename (FOr items) =
     FOr (map (rename_formula var_rename region_rename) items)"
| "rename_formula var_rename region_rename (FImplies l r) =
     FImplies (rename_formula var_rename region_rename l) (rename_formula var_rename region_rename r)"
| "rename_formula var_rename region_rename (FEq l r) =
     FEq (rename_term var_rename region_rename l) (rename_term var_rename region_rename r)"
| "rename_formula var_rename region_rename (FMemoryEq l r) =
     FMemoryEq (rename_memory var_rename region_rename l) (rename_memory var_rename region_rename r)"
| "rename_formula var_rename region_rename (FLt l r) =
     FLt (rename_term var_rename region_rename l) (rename_term var_rename region_rename r)"
| "rename_formula var_rename region_rename (FLe l r) =
     FLe (rename_term var_rename region_rename l) (rename_term var_rename region_rename r)"
| "rename_formula var_rename region_rename (FGt l r) =
     FGt (rename_term var_rename region_rename l) (rename_term var_rename region_rename r)"
| "rename_formula var_rename region_rename (FGe l r) =
     FGe (rename_term var_rename region_rename l) (rename_term var_rename region_rename r)"

definition rename_formula_uniform :: "(string \<Rightarrow> string) \<Rightarrow> formula \<Rightarrow> formula" where
  "rename_formula_uniform rename f = rename_formula rename rename f"

section \<open>Substitution is update of the valuation\<close>

definition set_scalar :: "var \<Rightarrow> scalar_value \<Rightarrow> valuation \<Rightarrow> valuation" where
  "set_scalar x v s = s\<lparr>scalar_of := (scalar_of s)(x := v)\<rparr>"

definition set_bool :: "var \<Rightarrow> bool \<Rightarrow> valuation \<Rightarrow> valuation" where
  "set_bool x b s = s\<lparr>bool_of := (bool_of s)(x := b)\<rparr>"

definition set_cells :: "string \<Rightarrow> (int \<Rightarrow> int) \<Rightarrow> valuation \<Rightarrow> valuation" where
  "set_cells r m s = s\<lparr>cells_of := (cells_of s)(r := m)\<rparr>"

lemmas set_defs = set_scalar_def set_bool_def set_cells_def

lemma set_selectors [simp]:
  "scalar_of (set_scalar x v s) = (scalar_of s)(x := v)"
  "bool_of (set_scalar x v s) = bool_of s"
  "cells_of (set_scalar x v s) = cells_of s"
  "int_div_of (set_scalar x v s) = int_div_of s"
  "int_rem_of (set_scalar x v s) = int_rem_of s"
  "real_div_of (set_scalar x v s) = real_div_of s"
  "scalar_of (set_bool x b s) = scalar_of s"
  "bool_of (set_bool x b s) = (bool_of s)(x := b)"
  "cells_of (set_bool x b s) = cells_of s"
  "int_div_of (set_bool x b s) = int_div_of s"
  "int_rem_of (set_bool x b s) = int_rem_of s"
  "real_div_of (set_bool x b s) = real_div_of s"
  "scalar_of (set_cells r m s) = scalar_of s"
  "bool_of (set_cells r m s) = bool_of s"
  "cells_of (set_cells r m s) = (cells_of s)(r := m)"
  "int_div_of (set_cells r m s) = int_div_of s"
  "int_rem_of (set_cells r m s) = int_rem_of s"
  "real_div_of (set_cells r m s) = real_div_of s"
  by (simp_all add: set_defs)

lemma substitute_var_sem:
  shows eval_substitute_var_in_memory:
      "eval_memory s (substitute_var_in_memory x t m)
        = eval_memory (set_scalar x (eval_term s t) s) m"
    and eval_substitute_var_in_term:
      "eval_term s (substitute_var_in_term x t e)
        = eval_term (set_scalar x (eval_term s t) s) e"
    and eval_substitute_var_in_formula:
      "eval_formula s (substitute_var_in_formula x t f)
        = eval_formula (set_scalar x (eval_term s t) s) f"
  by (induction m and e and f) auto

lemma substitute_memory_var_sem:
  shows eval_substitute_memory_var_in_memory:
      "eval_memory s (substitute_memory_var_in_memory r p m)
        = eval_memory (set_cells r (eval_memory s p) s) m"
    and eval_substitute_memory_var_in_term:
      "eval_term s (substitute_memory_var_in_term r p e)
        = eval_term (set_cells r (eval_memory s p) s) e"
    and eval_substitute_memory_var_in_formula:
      "eval_formula s (substitute_memory_var_in_formula r p f)
        = eval_formula (set_cells r (eval_memory s p) s) f"
  by (induction m and e and f) auto

text \<open>
  The Boolean variables read inside the terms of a formula (through \<open>BoolToInt\<close>), which the
  Boolean substitution leaves alone.
\<close>

primrec bools_under_terms :: "formula \<Rightarrow> var set" where
  "bools_under_terms FTrue = {}"
| "bools_under_terms FFalse = {}"
| "bools_under_terms (FVar v) = {}"
| "bools_under_terms (FNot f) = bools_under_terms f"
| "bools_under_terms (FAnd fs) = \<Union> (set (map bools_under_terms fs))"
| "bools_under_terms (FOr fs) = \<Union> (set (map bools_under_terms fs))"
| "bools_under_terms (FImplies l r) = bools_under_terms l \<union> bools_under_terms r"
| "bools_under_terms (FEq l r) = bools_term l \<union> bools_term r"
| "bools_under_terms (FMemoryEq l r) = bools_memory l \<union> bools_memory r"
| "bools_under_terms (FLt l r) = bools_term l \<union> bools_term r"
| "bools_under_terms (FLe l r) = bools_term l \<union> bools_term r"
| "bools_under_terms (FGt l r) = bools_term l \<union> bools_term r"
| "bools_under_terms (FGe l r) = bools_term l \<union> bools_term r"

lemma agree_set_bool: "x \<notin> B \<Longrightarrow> agree V B R s (set_bool x b s)"
  by (auto simp: agree_def same_arith_def)

lemma eval_term_set_bool: "x \<notin> bools_term e \<Longrightarrow> eval_term (set_bool x b s) e = eval_term s e"
  by (metis agree_set_bool eval_term_agree)

lemma eval_memory_set_bool:
  "x \<notin> bools_memory m \<Longrightarrow> eval_memory (set_bool x b s) m = eval_memory s m"
  by (metis agree_set_bool eval_memory_agree)

lemma eval_substitute_bool_var_in_formula:
  "x \<notin> bools_under_terms f \<Longrightarrow>
    eval_formula s (substitute_bool_var_in_formula x p f)
      = eval_formula (set_bool x (eval_formula s p) s) f"
  by (induction f rule: formula.induct [where ?P1.0 = "\<lambda>_. True" and ?P2.0 = "\<lambda>_. True"])
    (auto simp: eval_term_set_bool eval_memory_set_bool)

text \<open>The valuation a renamed formula is about, read through the renaming.\<close>

definition pull_back :: "(string \<Rightarrow> string) \<Rightarrow> (string \<Rightarrow> string) \<Rightarrow> valuation \<Rightarrow> valuation" where
  "pull_back vr rr s = s\<lparr>scalar_of := (\<lambda>v. scalar_of s (rename_var vr v)),
     bool_of := (\<lambda>v. bool_of s (rename_var vr v)),
     cells_of := (\<lambda>r. cells_of s (rr r))\<rparr>"

lemma pull_back_selectors [simp]:
  "scalar_of (pull_back vr rr s) v = scalar_of s (rename_var vr v)"
  "bool_of (pull_back vr rr s) v = bool_of s (rename_var vr v)"
  "cells_of (pull_back vr rr s) r = cells_of s (rr r)"
  "int_div_of (pull_back vr rr s) = int_div_of s"
  "int_rem_of (pull_back vr rr s) = int_rem_of s"
  "real_div_of (pull_back vr rr s) = real_div_of s"
  by (simp_all add: pull_back_def)

lemma rename_sem:
  shows eval_rename_memory:
      "eval_memory s (rename_memory vr rr m) = eval_memory (pull_back vr rr s) m"
    and eval_rename_term: "eval_term s (rename_term vr rr e) = eval_term (pull_back vr rr s) e"
    and eval_rename_formula:
      "eval_formula s (rename_formula vr rr f) = eval_formula (pull_back vr rr s) f"
  by (induction m and e and f) auto

lemma rename_var_comp: "rename_var g (rename_var f v) = rename_var (g \<circ> f) v"
  by (simp add: rename_var_def var_new_def)

lemma rename_var_id [simp]: "rename_var (\<lambda>x. x) v = v"
  by (simp add: rename_var_def var_new_def)

lemma rename_comp:
  shows "rename_memory g' h' (rename_memory g h m) = rename_memory (g' \<circ> g) (h' \<circ> h) m"
    and "rename_term g' h' (rename_term g h e) = rename_term (g' \<circ> g) (h' \<circ> h) e"
    and rename_formula_comp:
      "rename_formula g' h' (rename_formula g h f) = rename_formula (g' \<circ> g) (h' \<circ> h) f"
  by (induction m and e and f) (auto simp: rename_var_comp comp_def)

lemma rename_same:
  shows "rename_memory (\<lambda>x. x) (\<lambda>x. x) m = m"
    and "rename_term (\<lambda>x. x) (\<lambda>x. x) e = e"
    and rename_formula_same: "rename_formula (\<lambda>x. x) (\<lambda>x. x) f = f"
  by (induction m and e and f) (auto simp: map_idI)

end
