(* ===== verification/Symbols.thy ===== *)
theory Symbols
  imports Substitution
begin

text \<open>
  Which symbols a formula mentions, and that the smart constructors and the substitutions
  introduce none.  \<open>formula_symbols\<close> is the interface every "mentions" function of the
  development satisfies; the bounds for the constructors are proved once inside it.
  The second part is \<open>formula_mentions_region\<close> and \<open>havoc_region_in_formula\<close> of
  \<open>src/cfg/abstract_cfg.rs\<close>.
\<close>

locale formula_symbols =
  fixes sym :: "formula \<Rightarrow> 'a set"
  assumes sym_FTrue: "sym FTrue = {}"
    and sym_FFalse: "sym FFalse = {}"
    and sym_FNot: "sym (FNot f) = sym f"
    and sym_FAnd: "sym (FAnd fs) = (\<Union>f \<in> set fs. sym f)"
    and sym_FOr: "sym (FOr fs) = (\<Union>f \<in> set fs. sym f)"
    and sym_FImplies: "sym (FImplies f g) = sym f \<union> sym g"
begin

lemma sym_and_parts: "g \<in> and_parts f \<Longrightarrow> sym g \<subseteq> sym f"
  by (cases f) (auto simp: and_parts_def sym_FAnd)

lemma sym_or_parts: "g \<in> or_parts f \<Longrightarrow> sym g \<subseteq> sym f"
  by (cases f) (auto simp: or_parts_def sym_FOr)

lemma sym_simplify_and: "sym (simplify (FAnd fs)) \<subseteq> (\<Union>f \<in> set fs. sym f)"
proof (cases "flatten_and [] fs")
  case None
  then show ?thesis by (simp add: sym_FFalse)
next
  case (Some out)
  then have "set out = (\<Union>f \<in> set fs. and_parts f)" by (auto dest: flatten_and_set)
  then have le: "(\<Union>f \<in> set out. sym f) \<subseteq> (\<Union>f \<in> set fs. sym f)"
    using sym_and_parts by blast
  have "sym (simplify (FAnd fs)) \<subseteq> (\<Union>f \<in> set out. sym f)"
    using Some by (simp add: sym_FTrue sym_FAnd split: list.split)
  from this le show ?thesis by (rule subset_trans)
qed

lemma sym_simplify_or: "sym (simplify (FOr fs)) \<subseteq> (\<Union>f \<in> set fs. sym f)"
proof (cases "flatten_or [] fs")
  case None
  then show ?thesis by (simp add: sym_FTrue)
next
  case (Some out)
  then have "set out = (\<Union>f \<in> set fs. or_parts f)" by (auto dest: flatten_or_set)
  then have le: "(\<Union>f \<in> set out. sym f) \<subseteq> (\<Union>f \<in> set fs. sym f)"
    using sym_or_parts by blast
  have "sym (simplify (FOr fs)) \<subseteq> (\<Union>f \<in> set out. sym f)"
    using Some by (simp add: sym_FFalse sym_FOr split: list.split)
  from this le show ?thesis by (rule subset_trans)
qed

lemma sym_f_not: "sym (f_not f) \<subseteq> sym f"
  by (simp add: f_not_def sym_FNot)

lemma sym_f_and_many: "sym (f_and_many fs) \<subseteq> (\<Union>f \<in> set fs. sym f)"
  using sym_simplify_and [of fs] by (simp add: f_and_many_def)

lemma sym_f_or_many: "sym (f_or_many fs) \<subseteq> (\<Union>f \<in> set fs. sym f)"
  using sym_simplify_or [of fs] by (simp add: f_or_many_def)

lemma sym_f_and: "sym (f_and f g) \<subseteq> sym f \<union> sym g"
  using sym_simplify_and [of "[f, g]"] by (simp add: f_and_def)

lemma sym_f_or: "sym (f_or f g) \<subseteq> sym f \<union> sym g"
  using sym_simplify_or [of "[f, g]"] by (simp add: f_or_def)

lemma sym_f_implies: "sym (f_implies f g) \<subseteq> sym f \<union> sym g"
  by (auto simp: f_implies_def sym_FTrue sym_FImplies)

lemmas sym_connectives = sym_f_not sym_f_and_many sym_f_or_many sym_f_and sym_f_or sym_f_implies

end

interpretation scalar_syms: formula_symbols scalars_formula
  by unfold_locales simp_all

interpretation bool_syms: formula_symbols bools_formula
  by unfold_locales simp_all

interpretation region_syms: formula_symbols region_names_formula
  by unfold_locales simp_all

interpretation coerced_syms: formula_symbols bools_under_terms
  by unfold_locales simp_all

section \<open>Coerced Booleans under substitution\<close>

lemma bools_substitute_var:
  shows bools_substitute_var_in_memory:
      "bools_memory (substitute_var_in_memory x t m) \<subseteq> bools_memory m \<union> bools_term t"
    and bools_substitute_var_in_term:
      "bools_term (substitute_var_in_term x t e) \<subseteq> bools_term e \<union> bools_term t"
    and bools_substitute_var_in_formula:
      "bools_formula (substitute_var_in_formula x t f) \<subseteq> bools_formula f \<union> bools_term t"
proof (induction m and e and f)
  case (FAnd fs)
  then show ?case using bool_syms.sym_f_and_many [of "map (substitute_var_in_formula x t) fs"]
    by fastforce
next
  case (FOr fs)
  then show ?case using bool_syms.sym_f_or_many [of "map (substitute_var_in_formula x t) fs"]
    by fastforce
next
  case (FImplies f g)
  then show ?case using bool_syms.sym_f_implies
      [of "substitute_var_in_formula x t f" "substitute_var_in_formula x t g"] by auto
qed (auto simp: f_not_def)

lemma bools_substitute_memory_var:
  shows bools_substitute_memory_var_in_memory:
      "bools_memory (substitute_memory_var_in_memory r p m) \<subseteq> bools_memory m \<union> bools_memory p"
    and bools_substitute_memory_var_in_term:
      "bools_term (substitute_memory_var_in_term r p e) \<subseteq> bools_term e \<union> bools_memory p"
    and bools_substitute_memory_var_in_formula:
      "bools_formula (substitute_memory_var_in_formula r p f) \<subseteq> bools_formula f \<union> bools_memory p"
proof (induction m and e and f)
  case (FAnd fs)
  then show ?case
    using bool_syms.sym_f_and_many [of "map (substitute_memory_var_in_formula r p) fs"]
    by fastforce
next
  case (FOr fs)
  then show ?case
    using bool_syms.sym_f_or_many [of "map (substitute_memory_var_in_formula r p) fs"]
    by fastforce
next
  case (FImplies f g)
  then show ?case using bool_syms.sym_f_implies
      [of "substitute_memory_var_in_formula r p f" "substitute_memory_var_in_formula r p g"]
    by auto
qed (auto simp: f_not_def)

lemmas bools_substitute_D =
  bools_substitute_var_in_memory [THEN subsetD] bools_substitute_var_in_term [THEN subsetD]
  bools_substitute_memory_var_in_memory [THEN subsetD]
  bools_substitute_memory_var_in_term [THEN subsetD]

lemma formula_only_induct [case_names FTrue FFalse FVar FNot FAnd FOr FImplies FEq FMemoryEq
    FLt FLe FGt FGe]:
  assumes "P FTrue" "P FFalse" "\<And>v. P (FVar v)" "\<And>f. P f \<Longrightarrow> P (FNot f)"
    "\<And>fs. (\<And>f. f \<in> set fs \<Longrightarrow> P f) \<Longrightarrow> P (FAnd fs)"
    "\<And>fs. (\<And>f. f \<in> set fs \<Longrightarrow> P f) \<Longrightarrow> P (FOr fs)"
    "\<And>f g. P f \<Longrightarrow> P g \<Longrightarrow> P (FImplies f g)"
    "\<And>l r. P (FEq l r)" "\<And>l r. P (FMemoryEq l r)"
    "\<And>l r. P (FLt l r)" "\<And>l r. P (FLe l r)" "\<And>l r. P (FGt l r)" "\<And>l r. P (FGe l r)"
  shows "P f"
  using assms
  by (induction f rule: formula.induct [where ?P1.0 = "\<lambda>_. True" and ?P2.0 = "\<lambda>_. True"])
    simp_all

lemma coerced_substitute_var:
  "bools_under_terms (substitute_var_in_formula x t f) \<subseteq> bools_under_terms f \<union> bools_term t"
proof (induction f rule: formula_only_induct)
  case (FAnd fs)
  then show ?case
    using coerced_syms.sym_f_and_many [of "map (substitute_var_in_formula x t) fs"] by fastforce
next
  case (FOr fs)
  then show ?case
    using coerced_syms.sym_f_or_many [of "map (substitute_var_in_formula x t) fs"] by fastforce
next
  case (FImplies f g)
  then show ?case using coerced_syms.sym_f_implies
      [of "substitute_var_in_formula x t f" "substitute_var_in_formula x t g"] by auto
qed (auto simp: f_not_def dest!: bools_substitute_D)

lemma coerced_substitute_memory_var:
  "bools_under_terms (substitute_memory_var_in_formula r p f)
    \<subseteq> bools_under_terms f \<union> bools_memory p"
proof (induction f rule: formula_only_induct)
  case (FAnd fs)
  then show ?case
    using coerced_syms.sym_f_and_many [of "map (substitute_memory_var_in_formula r p) fs"]
    by fastforce
next
  case (FOr fs)
  then show ?case
    using coerced_syms.sym_f_or_many [of "map (substitute_memory_var_in_formula r p) fs"]
    by fastforce
next
  case (FImplies f g)
  then show ?case using coerced_syms.sym_f_implies
      [of "substitute_memory_var_in_formula r p f" "substitute_memory_var_in_formula r p g"]
    by auto
qed (auto simp: f_not_def dest!: bools_substitute_D)

lemma coerced_substitute_bool_var:
  "bools_under_terms (substitute_bool_var_in_formula x p f)
    \<subseteq> bools_under_terms f \<union> bools_under_terms p"
proof (induction f rule: formula_only_induct)
  case (FAnd fs)
  then show ?case
    using coerced_syms.sym_f_and_many [of "map (substitute_bool_var_in_formula x p) fs"]
    by fastforce
next
  case (FOr fs)
  then show ?case
    using coerced_syms.sym_f_or_many [of "map (substitute_bool_var_in_formula x p) fs"]
    by fastforce
next
  case (FImplies f g)
  then show ?case using coerced_syms.sym_f_implies
      [of "substitute_bool_var_in_formula x p f" "substitute_bool_var_in_formula x p g"] by auto
qed (auto simp: f_not_def)

section \<open>Region mentions and havoc\<close>

primrec memory_mentions_region :: "string \<Rightarrow> memory \<Rightarrow> bool"
  and term_mentions_region :: "string \<Rightarrow> fterm \<Rightarrow> bool"
  and formula_mentions_region :: "string \<Rightarrow> formula \<Rightarrow> bool" where
  "memory_mentions_region region (MVar name) = (name = region)"
| "memory_mentions_region region (MStore inner idx val) =
     (memory_mentions_region region inner \<or> term_mentions_region region idx
       \<or> term_mentions_region region val)"
| "term_mentions_region region (TVar v) = False"
| "term_mentions_region region (TInt n) = False"
| "term_mentions_region region (TReal q) = False"
| "term_mentions_region region (TBoolToInt inner) = formula_mentions_region region inner"
| "term_mentions_region region (TSelect m idx) =
     (memory_mentions_region region m \<or> term_mentions_region region idx)"
| "term_mentions_region region (TAdd a b) =
     (term_mentions_region region a \<or> term_mentions_region region b)"
| "term_mentions_region region (TSub a b) =
     (term_mentions_region region a \<or> term_mentions_region region b)"
| "term_mentions_region region (TMul a b) =
     (term_mentions_region region a \<or> term_mentions_region region b)"
| "term_mentions_region region (TDiv a b) =
     (term_mentions_region region a \<or> term_mentions_region region b)"
| "term_mentions_region region (TRem a b) =
     (term_mentions_region region a \<or> term_mentions_region region b)"
| "term_mentions_region region (TNeg inner) = term_mentions_region region inner"
| "formula_mentions_region region FTrue = False"
| "formula_mentions_region region FFalse = False"
| "formula_mentions_region region (FVar v) = False"
| "formula_mentions_region region (FNot inner) = formula_mentions_region region inner"
| "formula_mentions_region region (FAnd items) =
     list_ex (\<lambda>b. b) (map (formula_mentions_region region) items)"
| "formula_mentions_region region (FOr items) =
     list_ex (\<lambda>b. b) (map (formula_mentions_region region) items)"
| "formula_mentions_region region (FImplies a b) =
     (formula_mentions_region region a \<or> formula_mentions_region region b)"
| "formula_mentions_region region (FEq a b) =
     (term_mentions_region region a \<or> term_mentions_region region b)"
| "formula_mentions_region region (FMemoryEq a b) =
     (memory_mentions_region region a \<or> memory_mentions_region region b)"
| "formula_mentions_region region (FLt a b) =
     (term_mentions_region region a \<or> term_mentions_region region b)"
| "formula_mentions_region region (FLe a b) =
     (term_mentions_region region a \<or> term_mentions_region region b)"
| "formula_mentions_region region (FGt a b) =
     (term_mentions_region region a \<or> term_mentions_region region b)"
| "formula_mentions_region region (FGe a b) =
     (term_mentions_region region a \<or> term_mentions_region region b)"

lemma mentions_region:
  shows memory_mentions_region_iff: "memory_mentions_region r m \<longleftrightarrow> r \<in> region_names_memory m"
    and term_mentions_region_iff: "term_mentions_region r e \<longleftrightarrow> r \<in> region_names_term e"
    and formula_mentions_region_iff: "formula_mentions_region r f \<longleftrightarrow> r \<in> region_names_formula f"
  by (induction m and e and f) (auto simp: list_ex_iff)

definition havoc_region_in_formula :: "string \<Rightarrow> formula \<Rightarrow> formula" where
  "havoc_region_in_formula region f =
     (if \<not> formula_mentions_region region f then f
      else case f of
        FAnd items \<Rightarrow> f_and_many (filter (\<lambda>item. \<not> formula_mentions_region region item) items)
      | _ \<Rightarrow> FTrue)"

lemma eval_set_cells_unmentioned:
  "r \<notin> region_names_formula f \<Longrightarrow> eval_formula (set_cells r m s) f = eval_formula s f"
  by (rule eval_formula_agree) (auto simp: agree_def same_arith_def)

lemma havoc_unmentioned: "r \<notin> region_names_formula f \<Longrightarrow> havoc_region_in_formula r f = f"
  by (simp add: havoc_region_in_formula_def formula_mentions_region_iff)

lemma havoc_FAnd:
  assumes "r \<in> region_names_formula (FAnd items)"
  shows "havoc_region_in_formula r (FAnd items)
    = f_and_many (filter (\<lambda>item. r \<notin> region_names_formula item) items)"
proof -
  have "formula_mentions_region r (FAnd items)"
    using assms by (simp only: formula_mentions_region_iff)
  then show ?thesis
    unfolding havoc_region_in_formula_def by (simp only: formula_mentions_region_iff) simp
qed

lemma havoc_mentioned:
  assumes "r \<in> region_names_formula f" and "\<nexists>items. f = FAnd items"
  shows "havoc_region_in_formula r f = FTrue"
proof -
  have "formula_mentions_region r f"
    using assms(1) by (simp only: formula_mentions_region_iff)
  with assms(2) show ?thesis
    unfolding havoc_region_in_formula_def by (cases f) simp_all
qed

lemma havoc_cases:
  obtains (unmentioned) "r \<notin> region_names_formula f" "havoc_region_in_formula r f = f"
  | (dropped) items where "f = FAnd items" "havoc_region_in_formula r f
        = f_and_many (filter (\<lambda>item. r \<notin> region_names_formula item) items)"
  | (unconstrained) "havoc_region_in_formula r f = FTrue"
proof (cases "r \<in> region_names_formula f")
  case True
  with havoc_FAnd havoc_mentioned dropped unconstrained show thesis by metis
next
  case False
  with havoc_unmentioned unmentioned show thesis by metis
qed

lemma havoc_weaker: "eval_formula s f \<Longrightarrow> eval_formula s (havoc_region_in_formula r f)"
  by (rule havoc_cases [of r f]) auto

lemma havoc_keeps:
  "region_names_formula (havoc_region_in_formula r f) \<subseteq> region_names_formula f - {r}"
proof (rule havoc_cases [of r f])
  fix items
  assume f: "f = FAnd items" and h: "havoc_region_in_formula r f
    = f_and_many (filter (\<lambda>item. r \<notin> region_names_formula item) items)"
  have "region_names_formula (havoc_region_in_formula r f)
      \<subseteq> (\<Union>g \<in> set (filter (\<lambda>item. r \<notin> region_names_formula item) items). region_names_formula g)"
    unfolding h by (rule region_syms.sym_f_and_many)
  also have "\<dots> \<subseteq> region_names_formula f - {r}" by (auto simp: f)
  finally show ?thesis .
qed auto

lemma coerced_havoc: "bools_under_terms (havoc_region_in_formula r f) \<subseteq> bools_under_terms f"
proof (rule havoc_cases [of r f])
  fix items
  assume f: "f = FAnd items" and h: "havoc_region_in_formula r f
    = f_and_many (filter (\<lambda>item. r \<notin> region_names_formula item) items)"
  have "bools_under_terms (havoc_region_in_formula r f)
      \<subseteq> (\<Union>g \<in> set (filter (\<lambda>item. r \<notin> region_names_formula item) items). bools_under_terms g)"
    unfolding h by (rule coerced_syms.sym_f_and_many)
  also have "\<dots> \<subseteq> bools_under_terms f" by (auto simp: f)
  finally show ?thesis .
qed auto

end
