(* ===== verification/Effects.thy ===== *)
theory Effects
  imports Symbols
begin

text \<open>
  The effects of a basic block or an edge and their predicate transformers
  (\<open>src/cfg/abstract_cfg.rs\<close>: \<open>TransferEffect\<close>, \<open>TransferFn\<close>, \<open>wp_one\<close>, \<open>sp_one\<close>, with
  \<open>src/pointer_analysis/pointer_env.rs\<close>).  \<open>effect_step\<close> is what an effect does to a program
  state: unresolved loads, pointer bookkeeping and \<open>ptrtoint\<close> leave it alone (the loaded name
  is an input of the run), an opaque call that havocs may change every region.
  \<open>preimage_transformer\<close> is the contract of a backward transformer, \<open>box_transformer\<close> of the
  inductiveness check, \<open>exact_transformer\<close> of one that loses nothing; \<open>wp_one\<close> and
  \<open>wp_one_inductive\<close> are shown to meet them, which lifts them to whole effect sequences.
\<close>

section \<open>Effects and transformers\<close>

datatype call_memory_effect = PreservesMemory | HavocMemory

datatype assign_value = AssignTerm fterm | AssignPredicate formula

datatype transfer_effect =
    Assign var assign_value
  | Alloca string string
  | GetElementPtr string string fterm
  | Load var string
  | Store string fterm
  | MemoryStore string fterm fterm
  | PointerStore string string
  | PointerLoad string string
  | PointerAlias string string
  | StructFieldGep string string nat
  | Assume formula
  | TypeBound formula
  | Obligation formula
  | Nop
  | PtrToInt var string
  | IntToPtr string string
  | Call string call_memory_effect
  | HavocRegions "string list"
  | HeapAlloc string string
  | IndirectCall string call_memory_effect

record transfer_fn =
  effects :: "transfer_effect list"

definition transfer_fn_new :: "transfer_effect list \<Rightarrow> transfer_fn" where
  "transfer_fn_new es = \<lparr>effects = es\<rparr>"

definition transfer_identity :: transfer_fn where
  "transfer_identity = \<lparr>effects = []\<rparr>"

definition is_identity :: "transfer_fn \<Rightarrow> bool" where
  "is_identity self \<longleftrightarrow> effects self = []"

fun wp_one :: "transfer_effect \<Rightarrow> formula \<Rightarrow> formula" where
  "wp_one (HavocRegions regions) post = fold havoc_region_in_formula regions post"
| "wp_one (Assign target (AssignTerm t)) post = substitute_var_in_formula target t post"
| "wp_one (Assign target (AssignPredicate p)) post = substitute_bool_var_in_formula target p post"
| "wp_one (Assume condition) post = f_and condition post"
| "wp_one (TypeBound _) post = post"
| "wp_one (Obligation condition) post = f_and condition post"
| "wp_one (MemoryStore region offset val) post =
     substitute_memory_var_in_formula region (MStore (MVar region) offset val) post"
| "wp_one _ post = post"

fun wp_one_inductive :: "transfer_effect \<Rightarrow> formula \<Rightarrow> formula" where
  "wp_one_inductive (Assume condition) post = f_implies condition post"
| "wp_one_inductive other post = wp_one other post"

fun sp_one :: "transfer_effect \<Rightarrow> formula \<Rightarrow> formula" where
  "sp_one (Assign target (AssignTerm t)) pre = f_and pre (FEq (TVar target) t)"
| "sp_one (Assign target (AssignPredicate p)) pre =
     f_and pre (f_and (f_implies (FVar target) p) (f_implies p (FVar target)))"
| "sp_one (Assume condition) pre = f_and pre condition"
| "sp_one (TypeBound condition) pre = f_and pre condition"
| "sp_one (Obligation condition) pre = f_and pre condition"
| "sp_one (MemoryStore _ _ _) pre = pre"
| "sp_one _ pre = pre"

definition wp :: "transfer_fn \<Rightarrow> formula \<Rightarrow> formula" where
  "wp self post = fold wp_one (rev (effects self)) post"

definition wp_inductive :: "transfer_fn \<Rightarrow> formula \<Rightarrow> formula" where
  "wp_inductive self post = fold wp_one_inductive (rev (effects self)) post"

definition sp :: "transfer_fn \<Rightarrow> formula \<Rightarrow> formula" where
  "sp self pre = fold sp_one (effects self) pre"

section \<open>Pointer environments\<close>

record pointer_binding =
  region :: string
  offset :: fterm

type_synonym pointer_env = "string \<rightharpoonup> pointer_binding"

definition env_bind :: "string \<Rightarrow> string \<Rightarrow> fterm \<Rightarrow> pointer_env \<Rightarrow> pointer_env" where
  "env_bind pointer r off env = env(pointer \<mapsto> \<lparr>region = r, offset = off\<rparr>)"

fun resolve_pointer :: "transfer_effect \<Rightarrow> pointer_env \<Rightarrow> pointer_env" where
  "resolve_pointer (Alloca target r) env = env_bind target r (TInt 0) env"
| "resolve_pointer (HeapAlloc target r) env = env_bind target r (TInt 0) env"
| "resolve_pointer (GetElementPtr target base off) env =
     (case env base of None \<Rightarrow> env
      | Some parent \<Rightarrow> env_bind target (region parent) (TAdd (offset parent) off) env)"
| "resolve_pointer (StructFieldGep target base field_index) env =
     (case env base of None \<Rightarrow> env
      | Some parent \<Rightarrow>
          env_bind target (region parent @ ''$f'' @ nat_str field_index) (TInt 0) env)"
| "resolve_pointer _ env = env"

definition pointer_resolution :: "transfer_fn \<Rightarrow> pointer_env" where
  "pointer_resolution self = fold resolve_pointer (effects self) Map.empty"

section \<open>What effects do\<close>

definition same_but_memory :: "string set \<Rightarrow> valuation \<Rightarrow> valuation \<Rightarrow> bool" where
  "same_but_memory R s t \<longleftrightarrow> (\<exists>c. t = s\<lparr>cells_of := c\<rparr> \<and> (\<forall>r. r \<notin> R \<longrightarrow> c r = cells_of s r))"

fun transparent :: "transfer_effect \<Rightarrow> bool" where
  "transparent (Assign _ _) = False"
| "transparent (MemoryStore _ _ _) = False"
| "transparent (Assume _) = False"
| "transparent (TypeBound _) = False"
| "transparent (Obligation _) = False"
| "transparent (HavocRegions _) = False"
| "transparent (Call _ m) = (m = PreservesMemory)"
| "transparent (IndirectCall _ m) = (m = PreservesMemory)"
| "transparent _ = True"

inductive effect_step :: "valuation \<Rightarrow> transfer_effect \<Rightarrow> valuation \<Rightarrow> bool" where
  assign_term: "effect_step s (Assign x (AssignTerm t)) (set_scalar x (eval_term s t) s)"
| assign_predicate: "effect_step s (Assign x (AssignPredicate p)) (set_bool x (eval_formula s p) s)"
| memory_store: "effect_step s (MemoryStore r i v)
     (set_cells r (store_cells (cells_of s r) (eval_term s i) (eval_term s v)) s)"
| assume_holds: "eval_formula s c \<Longrightarrow> effect_step s (Assume c) s"
| type_bound: "eval_formula s c \<Longrightarrow> effect_step s (TypeBound c) s"
| obligation_holds: "eval_formula s c \<Longrightarrow> effect_step s (Obligation c) s"
| havoc_regions: "same_but_memory (set rs) s t \<Longrightarrow> effect_step s (HavocRegions rs) t"
| havoc_call: "same_but_memory UNIV s t \<Longrightarrow> effect_step s (Call f HavocMemory) t"
| havoc_indirect: "same_but_memory UNIV s t \<Longrightarrow> effect_step s (IndirectCall f HavocMemory) t"
| no_effect: "transparent e \<Longrightarrow> effect_step s e s"

inductive_simps effect_step_simps:
  "effect_step s (Assign x (AssignTerm u)) t"
  "effect_step s (Assign x (AssignPredicate p)) t"
  "effect_step s (MemoryStore r i v) t"
  "effect_step s (Assume c) t"
  "effect_step s (TypeBound c) t"
  "effect_step s (Obligation c) t"
  "effect_step s (HavocRegions rs) t"

inductive_cases effect_stepE: "effect_step s e t"

lemma effect_step_transparent: "transparent e \<Longrightarrow> effect_step s e t \<longleftrightarrow> t = s"
  by (auto elim: effect_stepE intro: no_effect)

section \<open>Contracts of the transformers\<close>

text \<open>
  A client runs a list of actions, \<open>step s e t\<close> for each, and pulls a condition back through
  them with \<open>pre\<close>.  \<open>ok\<close> restricts the actions, \<open>good\<close> is the invariant of the conditions.
\<close>

fun steps :: "('s \<Rightarrow> 'e \<Rightarrow> 's \<Rightarrow> bool) \<Rightarrow> 's \<Rightarrow> 'e list \<Rightarrow> 's \<Rightarrow> bool" where
  "steps step s [] t \<longleftrightarrow> t = s"
| "steps step s (e # es) t \<longleftrightarrow> (\<exists>u. step s e u \<and> steps step u es t)"

lemma steps_append: "steps step s (xs @ ys) t \<longleftrightarrow> (\<exists>u. steps step s xs u \<and> steps step u ys t)"
  by (induction xs arbitrary: s) auto

locale transformer =
  fixes step :: "'s \<Rightarrow> 'e \<Rightarrow> 's \<Rightarrow> bool"
    and pre :: "'e \<Rightarrow> 'f \<Rightarrow> 'f"
    and holds :: "'s \<Rightarrow> 'f \<Rightarrow> bool"
    and ok :: "'e \<Rightarrow> bool"
    and good :: "'f \<Rightarrow> bool"
  assumes pre_good: "ok e \<Longrightarrow> good f \<Longrightarrow> good (pre e f)"
begin

definition pull :: "'e list \<Rightarrow> 'f \<Rightarrow> 'f" where
  "pull es f = fold pre (rev es) f"

lemma pull_simps [simp]: "pull [] f = f" "pull (e # es) f = pre e (pull es f)"
  by (simp_all add: pull_def)

lemma pull_good: "list_all ok es \<Longrightarrow> good f \<Longrightarrow> good (pull es f)"
  by (induction es) (auto simp: pre_good)

end

locale preimage_transformer = transformer +
  assumes pre_over: "ok e \<Longrightarrow> good f \<Longrightarrow> step s e t \<Longrightarrow> holds t f \<Longrightarrow> holds s (pre e f)"
begin

lemma pull_over:
  "list_all ok es \<Longrightarrow> good f \<Longrightarrow> steps step s es t \<Longrightarrow> holds t f \<Longrightarrow> holds s (pull es f)"
  by (induction es arbitrary: s) (auto intro: pre_over pull_good)

end

locale exact_transformer = preimage_transformer +
  assumes pre_exact: "ok e \<Longrightarrow> good f \<Longrightarrow> holds s (pre e f) \<Longrightarrow> \<exists>t. step s e t \<and> holds t f"
begin

lemma pull_exact:
  "list_all ok es \<Longrightarrow> good f \<Longrightarrow>
    holds s (pull es f) \<longleftrightarrow> (\<exists>t. steps step s es t \<and> holds t f)"
proof (induction es arbitrary: s)
  case (Cons e es)
  then have g: "ok e" "good (pull es f)" by (simp_all add: pull_good)
  have "holds s (pre e (pull es f)) \<longleftrightarrow> (\<exists>u. step s e u \<and> holds u (pull es f))"
    using pre_exact [OF g] pre_over [OF g] by blast
  with Cons show ?case by auto
qed simp

end

locale box_transformer = transformer +
  assumes pre_box: "ok e \<Longrightarrow> good f \<Longrightarrow> step s e t \<Longrightarrow> holds s (pre e f) \<Longrightarrow> holds t f"
begin

lemma pull_box:
  "list_all ok es \<Longrightarrow> good f \<Longrightarrow> steps step s es t \<Longrightarrow> holds s (pull es f) \<Longrightarrow> holds t f"
  by (induction es arbitrary: s) (auto dest: pre_box intro: pull_good)

end

section \<open>The side conditions of \<open>wp_one\<close>\<close>

text \<open>
  The set \<open>B\<close> holds the Boolean variables the effects assign; they must not be read inside
  terms, where \<open>substitute_bool_var_in_formula\<close> does not look.
\<close>

fun coerced_in :: "transfer_effect \<Rightarrow> var set" where
  "coerced_in (Assign _ (AssignTerm t)) = bools_term t"
| "coerced_in (Assign _ (AssignPredicate p)) = bools_under_terms p"
| "coerced_in (MemoryStore _ i v) = bools_term i \<union> bools_term v"
| "coerced_in (Assume c) = bools_under_terms c"
| "coerced_in (Obligation c) = bools_under_terms c"
| "coerced_in _ = {}"

fun assigned_bools :: "transfer_effect \<Rightarrow> var set" where
  "assigned_bools (Assign x (AssignPredicate _)) = {x}"
| "assigned_bools _ = {}"

fun havocs_memory :: "transfer_effect \<Rightarrow> bool" where
  "havocs_memory (Call _ m) = (m = HavocMemory)"
| "havocs_memory (IndirectCall _ m) = (m = HavocMemory)"
| "havocs_memory _ = False"

fun forgets :: "transfer_effect \<Rightarrow> bool" where
  "forgets (HavocRegions _) = True"
| "forgets (TypeBound _) = True"
| "forgets _ = False"

definition wp_ok :: "var set \<Rightarrow> transfer_effect \<Rightarrow> bool" where
  "wp_ok B e \<longleftrightarrow> \<not> havocs_memory e \<and> coerced_in e \<inter> B = {} \<and> assigned_bools e \<subseteq> B"

definition wp_good :: "var set \<Rightarrow> formula \<Rightarrow> bool" where
  "wp_good B f \<longleftrightarrow> bools_under_terms f \<inter> B = {}"

lemma wp_good_connectives [intro]:
  "wp_good B f \<Longrightarrow> wp_good B g \<Longrightarrow> wp_good B (f_and f g)"
  "wp_good B f \<Longrightarrow> wp_good B g \<Longrightarrow> wp_good B (f_or f g)"
  "wp_good B f \<Longrightarrow> wp_good B g \<Longrightarrow> wp_good B (f_implies f g)"
  "wp_good B f \<Longrightarrow> wp_good B (f_not f)"
  using coerced_syms.sym_connectives unfolding wp_good_def by (blast+)

lemma wp_good_literals [simp]: "wp_good B FTrue" "wp_good B FFalse"
  by (simp_all add: wp_good_def)

lemma wp_good_havoc: "wp_good B f \<Longrightarrow> wp_good B (fold havoc_region_in_formula rs f)"
proof (induction rs arbitrary: f)
  case (Cons r rs)
  then show ?case using coerced_havoc [of r f] by (auto simp: wp_good_def)
qed simp

lemma wp_good_wp_one: "wp_ok B e \<Longrightarrow> wp_good B f \<Longrightarrow> wp_good B (wp_one e f)"
proof (induction e f rule: wp_one.induct)
  case (1 regions post)
  then show ?case by (simp add: wp_good_havoc)
next
  case (2 x t post)
  then show ?case using coerced_substitute_var [of x t post]
    by (fastforce simp: wp_ok_def wp_good_def)
next
  case (3 x p post)
  then show ?case using coerced_substitute_bool_var [of x p post]
    by (fastforce simp: wp_ok_def wp_good_def)
next
  case (7 r i v post)
  then show ?case using coerced_substitute_memory_var [of r "MStore (MVar r) i v" post]
    by (fastforce simp: wp_ok_def wp_good_def)
qed (auto simp: wp_ok_def wp_good_def dest!: coerced_syms.sym_f_and [THEN subsetD])

end
