(* ===== verification/Effects_Correct.thy ===== *)
theory Effects_Correct
  imports Effects
begin

text \<open>
  The predicate transformers of \<open>TransferFn\<close> against the meaning of the effects: \<open>wp\<close> is an
  upper bound of the pre-image, and equal to it when nothing is forgotten; \<open>wp_inductive\<close>
  establishes its postcondition on every run; \<open>sp\<close> is sound for assignments to fresh
  variables, and only for those.
\<close>

section \<open>Single effects\<close>

lemmas effect_step_cases = effect_stepE
  [consumes 1, case_names assign_term assign_predicate memory_store assume_holds type_bound
    obligation_holds havoc_regions havoc_call havoc_indirect no_effect]

lemma preserves_iff: "m \<noteq> HavocMemory \<longleftrightarrow> m = PreservesMemory"
  by (cases m) auto

lemma eval_fold_havoc:
  "eval_formula s f \<Longrightarrow> eval_formula s (fold havoc_region_in_formula rs f)"
  by (induction rs arbitrary: f) (auto dest: havoc_weaker)

lemma fold_havoc_keeps:
  "region_names_formula (fold havoc_region_in_formula rs f) \<subseteq> region_names_formula f - set rs"
proof (induction rs arbitrary: f)
  case (Cons r rs)
  then show ?case using havoc_keeps [of r f] by fastforce
qed simp

lemma eval_same_but_memory:
  "same_but_memory R s t \<Longrightarrow> region_names_formula f \<inter> R = {} \<Longrightarrow>
    eval_formula t f = eval_formula s f"
  by (rule eval_formula_agree) (auto simp: same_but_memory_def agree_def same_arith_def)

lemma wp_one_over:
  assumes "wp_ok B e" "wp_good B f" "effect_step s e t" "eval_formula t f"
  shows "eval_formula s (wp_one e f)"
  using assms(3)
proof (cases rule: effect_step_cases)
  case (havoc_regions rs)
  have "eval_formula t (fold havoc_region_in_formula rs f)" by (rule eval_fold_havoc) fact
  moreover have "region_names_formula (fold havoc_region_in_formula rs f) \<inter> set rs = {}"
    using fold_havoc_keeps [of rs f] by auto
  ultimately show ?thesis using eval_same_but_memory [OF havoc_regions(2)] havoc_regions(1) by simp
next
  case (assign_predicate x p)
  then have "x \<notin> bools_under_terms f" using assms(1,2) by (auto simp: wp_ok_def wp_good_def)
  with assign_predicate assms(4) show ?thesis by (simp add: eval_substitute_bool_var_in_formula)
next
  case no_effect
  then show ?thesis using assms by (cases e) auto
qed (use assms in \<open>auto simp: eval_substitute_var_in_formula
      eval_substitute_memory_var_in_formula wp_ok_def\<close>)

lemma wp_one_exact:
  assumes "wp_ok B e" "\<not> forgets e" "wp_good B f" "eval_formula s (wp_one e f)"
  shows "\<exists>t. effect_step s e t \<and> eval_formula t f"
proof (cases "transparent e")
  case True
  then have "wp_one e f = f" by (cases e) auto
  with assms(4) True show ?thesis by (auto intro: no_effect)
next
  case False
  show ?thesis
  proof (cases e)
    case (Assign x a)
    show ?thesis
    proof (cases a)
      case (AssignPredicate p)
      then have "x \<notin> bools_under_terms f"
        using assms(1,3) Assign by (auto simp: wp_ok_def wp_good_def)
      with assms(4) Assign AssignPredicate show ?thesis
        by (auto simp: eval_substitute_bool_var_in_formula effect_step_simps)
    qed (use assms(4) Assign in
        \<open>auto simp: eval_substitute_var_in_formula effect_step_simps\<close>)
  qed (use assms False in \<open>auto simp: eval_substitute_memory_var_in_formula effect_step_simps
        wp_ok_def preserves_iff\<close>)
qed

interpretation wp: preimage_transformer effect_step wp_one eval_formula "wp_ok B" "wp_good B"
  for B
  by unfold_locales (auto intro: wp_good_wp_one wp_one_over)

interpretation exact: exact_transformer effect_step wp_one eval_formula
  "\<lambda>e. wp_ok B e \<and> \<not> forgets e" "wp_good B" for B
  by unfold_locales (auto intro: wp_good_wp_one wp_one_over wp_one_exact)

fun havocs :: "transfer_effect \<Rightarrow> bool" where
  "havocs (HavocRegions rs) = (rs \<noteq> [])"
| "havocs e = havocs_memory e"

lemma wp_one_inductive_other:
  "\<nexists>c. e = Assume c \<Longrightarrow> wp_one_inductive e f = wp_one e f"
  by (cases e) auto

lemma wp_good_wp_one_inductive:
  "wp_ok B e \<Longrightarrow> wp_good B f \<Longrightarrow> wp_good B (wp_one_inductive e f)"
proof (cases "\<exists>c. e = Assume c")
  case True
  moreover assume "wp_ok B e" "wp_good B f"
  ultimately show ?thesis by (auto simp: wp_ok_def wp_good_def
      dest!: coerced_syms.sym_f_implies [THEN subsetD])
qed (simp add: wp_one_inductive_other wp_good_wp_one)

lemma wp_one_inductive_box:
  assumes "wp_ok B e" "\<not> havocs e" "wp_good B f" "effect_step s e t"
    and "eval_formula s (wp_one_inductive e f)"
  shows "eval_formula t f"
  using assms(4)
proof (cases rule: effect_step_cases)
  case (assign_predicate x p)
  then have "x \<notin> bools_under_terms f" using assms(1,3) by (auto simp: wp_ok_def wp_good_def)
  with assign_predicate assms(5) show ?thesis by (simp add: eval_substitute_bool_var_in_formula)
next
  case (havoc_regions rs)
  with assms(2) have "rs = []" by simp
  with havoc_regions assms(5) show ?thesis
    using eval_same_but_memory [OF havoc_regions(2)] by simp
next
  case no_effect
  then show ?thesis using assms(5) by (cases e) auto
qed (use assms in \<open>auto simp: eval_substitute_var_in_formula
      eval_substitute_memory_var_in_formula\<close>)

interpretation box: box_transformer effect_step wp_one_inductive eval_formula
  "\<lambda>e. wp_ok B e \<and> \<not> havocs e" "wp_good B" for B
  by unfold_locales (auto intro: wp_good_wp_one_inductive wp_one_inductive_box)

section \<open>Transfer functions\<close>

abbreviation transfer_runs :: "valuation \<Rightarrow> transfer_fn \<Rightarrow> valuation \<Rightarrow> bool" where
  "transfer_runs s f t \<equiv> steps effect_step s (effects f) t"

definition transfer_ok :: "var set \<Rightarrow> transfer_fn \<Rightarrow> bool" where
  "transfer_ok B f \<longleftrightarrow> list_all (wp_ok B) (effects f)"

definition transfer_exact :: "transfer_fn \<Rightarrow> bool" where
  "transfer_exact f \<longleftrightarrow> list_all (\<lambda>e. \<not> forgets e) (effects f)"

lemma wp_pull: "wp f post = wp.pull (effects f) post"
  by (simp add: wp_def wp.pull_def)

lemma wp_inductive_pull: "wp_inductive f post = box.pull (effects f) post"
  by (simp add: wp_inductive_def box.pull_def)

lemma wp_good_wp: "transfer_ok B f \<Longrightarrow> wp_good B post \<Longrightarrow> wp_good B (wp f post)"
  unfolding wp_pull transfer_ok_def by (rule wp.pull_good)

lemma wp_covers:
  "transfer_ok B f \<Longrightarrow> wp_good B post \<Longrightarrow> transfer_runs s f t \<Longrightarrow> eval_formula t post \<Longrightarrow>
    eval_formula s (wp f post)"
  unfolding wp_pull transfer_ok_def by (rule wp.pull_over)

lemma wp_is_preimage:
  assumes "transfer_ok B f" "transfer_exact f" "wp_good B post"
  shows "eval_formula s (wp f post) \<longleftrightarrow> (\<exists>t. transfer_runs s f t \<and> eval_formula t post)"
  unfolding wp_pull using assms
  by (intro exact.pull_exact [of B]) (auto simp: transfer_ok_def transfer_exact_def list_all_iff)

lemma wp_inductive_establishes:
  assumes "transfer_ok B f" "list_all (\<lambda>e. \<not> havocs e) (effects f)" "wp_good B post"
    and "transfer_runs s f t" "eval_formula s (wp_inductive f post)"
  shows "eval_formula t post"
  using assms box.pull_box [of B "effects f" post s t]
  by (auto simp: wp_inductive_pull transfer_ok_def list_all_iff)

section \<open>Strongest postconditions\<close>

text \<open>The sorts of the state are kept by effects whose assignments are well sorted.\<close>

fun sorted_effect :: "transfer_effect \<Rightarrow> bool" where
  "sorted_effect (Assign x (AssignTerm t)) =
     (var_sort x \<noteq> SBool \<and> term_sort t = Inr (var_sort x) \<and> no_real_rem t)"
| "sorted_effect _ = True"

lemma effect_step_sorted:
  assumes "effect_step s e t" "sorted_effect e" "well_sorted s"
  shows "well_sorted t"
  using assms
proof (cases rule: effect_step_cases)
  case (assign_term x u)
  with assms eval_term_sorted [OF assms(3), of u "var_sort x"]
  show ?thesis by (auto simp: well_sorted_def)
qed (auto simp: well_sorted_def same_but_memory_def)

lemma transfer_runs_sorted:
  "steps effect_step s es t \<Longrightarrow> list_all sorted_effect es \<Longrightarrow> well_sorted s \<Longrightarrow> well_sorted t"
  by (induction es arbitrary: s) (auto intro: effect_step_sorted)

text \<open>
  An effect may be applied forwards to \<open>pre\<close> when what it writes does not occur in \<open>pre\<close> nor
  in the value written.
\<close>

fun sp_fresh :: "transfer_effect \<Rightarrow> formula \<Rightarrow> bool" where
  "sp_fresh (Assign x (AssignTerm t)) pre = (x \<notin> scalars_formula pre \<and> x \<notin> scalars_term t)"
| "sp_fresh (Assign x (AssignPredicate p)) pre = (x \<notin> bools_formula pre \<and> x \<notin> bools_formula p)"
| "sp_fresh (MemoryStore r _ _) pre = (r \<notin> region_names_formula pre)"
| "sp_fresh (HavocRegions rs) pre = (region_names_formula pre \<inter> set rs = {})"
| "sp_fresh (Call _ HavocMemory) pre = (region_names_formula pre = {})"
| "sp_fresh (IndirectCall _ HavocMemory) pre = (region_names_formula pre = {})"
| "sp_fresh _ pre = True"

fun all_fresh :: "transfer_effect list \<Rightarrow> formula \<Rightarrow> bool" where
  "all_fresh [] pre = True"
| "all_fresh (e # es) pre = (sp_fresh e pre \<and> all_fresh es (sp_one e pre))"

lemma eval_set_scalar_unused:
  "x \<notin> scalars_formula f \<Longrightarrow> eval_formula (set_scalar x v s) f = eval_formula s f"
  "x \<notin> scalars_term e \<Longrightarrow> eval_term (set_scalar x v s) e = eval_term s e"
  by (rule eval_formula_agree eval_term_agree, auto simp: agree_def same_arith_def)+

lemma eval_set_bool_unused:
  "x \<notin> bools_formula f \<Longrightarrow> eval_formula (set_bool x v s) f = eval_formula s f"
  by (rule eval_formula_agree) (auto simp: agree_def same_arith_def)

lemma compare_values_refl: "value_sort v = Some k \<Longrightarrow> compare_values (=) (=) v v"
  by (cases v) auto

lemma sp_one_sound:
  assumes "effect_step s e t" "sp_fresh e pre" "sorted_effect e" "well_sorted s" "eval_formula s pre"
  shows "eval_formula t (sp_one e pre)"
  using assms(1)
proof (cases rule: effect_step_cases)
  case (assign_term x u)
  then show ?thesis
    using assms eval_term_sorted [OF assms(4), of u "var_sort x"]
    by (auto simp: eval_set_scalar_unused intro: compare_values_refl)
next
  case (memory_store r i v)
  then show ?thesis using assms by (simp add: eval_set_cells_unmentioned)
next
  case (havoc_regions rs)
  then show ?thesis using assms eval_same_but_memory [OF havoc_regions(2), of pre] by simp
next
  case (havoc_call f)
  then show ?thesis using assms eval_same_but_memory [OF havoc_call(2), of pre] by simp
next
  case (havoc_indirect f)
  then show ?thesis using assms eval_same_but_memory [OF havoc_indirect(2), of pre] by simp
next
  case no_effect
  then show ?thesis using assms by (cases e) auto
qed (use assms in \<open>auto simp: eval_set_bool_unused\<close>)

lemma fold_sp_one_sound:
  "steps effect_step s es t \<Longrightarrow> all_fresh es pre \<Longrightarrow> list_all sorted_effect es \<Longrightarrow> well_sorted s \<Longrightarrow>
    eval_formula s pre \<Longrightarrow> eval_formula t (fold sp_one es pre)"
proof (induction es arbitrary: s pre)
  case (Cons e es)
  then obtain u where "effect_step s e u" "steps effect_step u es t" by auto
  with Cons show ?case by (auto intro!: Cons.IH intro: sp_one_sound effect_step_sorted)
qed simp

lemma sp_sound:
  "transfer_runs s f t \<Longrightarrow> all_fresh (effects f) pre \<Longrightarrow> list_all sorted_effect (effects f) \<Longrightarrow>
    well_sorted s \<Longrightarrow> eval_formula s pre \<Longrightarrow> eval_formula t (sp f pre)"
  unfolding sp_def by (rule fold_sp_one_sound)

end
