(* ===== verification/Oracle.thy ===== *)
theory Oracle
  imports Effects_Correct
begin

text \<open>
  The boundary to the SMT solver (\<open>src/smt/oracle.rs\<close>).  Z3 is not part of the repository: the
  scope that asserts a formula, checks it and reads a model back is the record \<open>solver\<close>, an
  argument of every definition that queries it.  \<open>sound_solver\<close> is what the program relies on:
  an answer about a formula that was accepted is right over the sorted states with SMT-LIB
  division.  \<open>folding_solver\<close> is a concrete solver that decides what constant folding decides.
\<close>

datatype sat_result = Sat | Unsat | SatUnknown

record solver =
  assert_formula :: "formula \<Rightarrow> formula_error + unit"
  check :: "formula \<Rightarrow> sat_result"
  model_bindings :: "formula \<Rightarrow> i64 list \<Rightarrow> smt_model option"

datatype feasibility = Feasible | Infeasible | FeasibilityUnknown

datatype validity = Valid | Invalid | ValidityUnknown

record feasibility_report =
  report_feasibility :: feasibility
  report_model :: "smt_model option"

definition feasibility_with_model :: "solver \<Rightarrow> formula \<Rightarrow> formula_error + feasibility_report" where
  "feasibility_with_model z f =
     rbind (assert_formula z f) (\<lambda>_.
       let indices = collect_select_indices f in
       Inr (case check z f of
          Sat \<Rightarrow> \<lparr>report_feasibility = Feasible, report_model = model_bindings z f indices\<rparr>
        | Unsat \<Rightarrow> \<lparr>report_feasibility = Infeasible, report_model = None\<rparr>
        | SatUnknown \<Rightarrow>
            \<lparr>report_feasibility = FeasibilityUnknown, report_model = model_bindings z f indices\<rparr>))"

definition feasibility :: "solver \<Rightarrow> formula \<Rightarrow> formula_error + feasibility" where
  "feasibility z f = rbind (feasibility_with_model z f) (\<lambda>r. Inr (report_feasibility r))"

definition implies_with_model ::
  "solver \<Rightarrow> formula \<Rightarrow> formula \<Rightarrow> formula_error + (validity \<times> smt_model option)" where
  "implies_with_model z assumptions conclusion =
     (let counterexample = f_and assumptions (f_not conclusion) in
      rbind (feasibility_with_model z counterexample) (\<lambda>report.
        Inr (case report_feasibility report of
               Infeasible \<Rightarrow> Valid | Feasible \<Rightarrow> Invalid | FeasibilityUnknown \<Rightarrow> ValidityUnknown,
             report_model report)))"

definition oracle_implies :: "solver \<Rightarrow> formula \<Rightarrow> formula \<Rightarrow> formula_error + validity" where
  "oracle_implies z assumptions conclusion =
     rbind (implies_with_model z assumptions conclusion) (\<lambda>(v, _). Inr v)"

definition is_contradiction :: "solver \<Rightarrow> formula \<Rightarrow> formula_error + bool" where
  "is_contradiction z f = rbind (feasibility z f) (\<lambda>r. Inr (r = Infeasible))"

section \<open>What the answers mean\<close>

definition admissible :: "valuation \<Rightarrow> bool" where
  "admissible s \<longleftrightarrow> well_sorted s \<and> smtlib_division s"

definition sound_solver :: "solver \<Rightarrow> bool" where
  "sound_solver z \<longleftrightarrow> (\<forall>f. assert_formula z f = Inr () \<longrightarrow>
     (check z f = Unsat \<longrightarrow> (\<forall>s. admissible s \<longrightarrow> \<not> eval_formula s f)) \<and>
     (check z f = Sat \<longrightarrow> (\<exists>s. admissible s \<and> eval_formula s f)))"

text \<open>The oracle as its clients use it: each answer with the fact it stands for.\<close>

locale query_oracle =
  fixes ask :: "'f \<Rightarrow> 'e + feasibility"
    and entails :: "'f \<Rightarrow> 'f \<Rightarrow> 'e + validity"
    and state_ok :: "'s \<Rightarrow> bool"
    and holds :: "'s \<Rightarrow> 'f \<Rightarrow> bool"
  assumes ask_infeasible: "ask f = Inr Infeasible \<Longrightarrow> state_ok s \<Longrightarrow> \<not> holds s f"
    and ask_feasible: "ask f = Inr Feasible \<Longrightarrow> \<exists>s. state_ok s \<and> holds s f"
    and entails_valid: "entails f g = Inr Valid \<Longrightarrow> state_ok s \<Longrightarrow> holds s f \<Longrightarrow> holds s g"
    and entails_invalid: "entails f g = Inr Invalid \<Longrightarrow> \<exists>s. state_ok s \<and> holds s f \<and> \<not> holds s g"
begin

lemma entails_trans:
  "entails f g = Inr Valid \<Longrightarrow> entails g h = Inr Valid \<Longrightarrow> state_ok s \<Longrightarrow> holds s f \<Longrightarrow> holds s h"
  using entails_valid by blast

lemma entails_not_both: "entails f g = Inr Valid \<Longrightarrow> entails f g \<noteq> Inr Invalid"
  by simp

lemma entails_infeasible:
  "entails f g = Inr Valid \<Longrightarrow> ask g = Inr Infeasible \<Longrightarrow> state_ok s \<Longrightarrow> \<not> holds s f"
  using entails_valid ask_infeasible by blast

end

lemma feasibility_with_model_Inr:
  "feasibility_with_model z f = Inr r \<Longrightarrow> assert_formula z f = Inr () \<and>
    (report_feasibility r = Infeasible \<longleftrightarrow> check z f = Unsat) \<and>
    (report_feasibility r = Feasible \<longleftrightarrow> check z f = Sat)"
  by (auto simp: feasibility_with_model_def rbind_eq_Inr Let_def split: sat_result.splits)

lemma report_sound:
  assumes "sound_solver z" "feasibility_with_model z f = Inr r"
  shows "report_feasibility r = Infeasible \<Longrightarrow> admissible s \<Longrightarrow> \<not> eval_formula s f"
    and "report_feasibility r = Feasible \<Longrightarrow> \<exists>s. admissible s \<and> eval_formula s f"
  using feasibility_with_model_Inr [OF assms(2)] assms(1) unfolding sound_solver_def by blast+

lemma oracle_implies_iff:
  "oracle_implies z f g = Inr v \<longleftrightarrow> (\<exists>r. feasibility_with_model z (f_and f (f_not g)) = Inr r \<and>
    v = (case report_feasibility r of
      Infeasible \<Rightarrow> Valid | Feasible \<Rightarrow> Invalid | FeasibilityUnknown \<Rightarrow> ValidityUnknown))"
  by (auto simp: oracle_implies_def implies_with_model_def rbind_eq_Inr Let_def)

lemma validity_cases:
  "(case x of Infeasible \<Rightarrow> Valid | Feasible \<Rightarrow> Invalid | FeasibilityUnknown \<Rightarrow> ValidityUnknown)
    = Valid \<longleftrightarrow> x = Infeasible"
  "(case x of Infeasible \<Rightarrow> Valid | Feasible \<Rightarrow> Invalid | FeasibilityUnknown \<Rightarrow> ValidityUnknown)
    = Invalid \<longleftrightarrow> x = Feasible"
  by (cases x; simp)+

lemma oracle_laws:
  assumes "sound_solver z"
  shows "query_oracle (feasibility z) (oracle_implies z) admissible eval_formula"
proof unfold_locales
  fix f g s
  show "feasibility z f = Inr Infeasible \<Longrightarrow> admissible s \<Longrightarrow> \<not> eval_formula s f"
    using report_sound(1) [OF assms] by (auto simp: feasibility_def rbind_eq_Inr)
  show "feasibility z f = Inr Feasible \<Longrightarrow> \<exists>s. admissible s \<and> eval_formula s f"
    using report_sound(2) [OF assms] by (auto simp: feasibility_def rbind_eq_Inr)
  show "eval_formula s g" if v: "oracle_implies z f g = Inr Valid" and s: "admissible s" "eval_formula s f"
  proof -
    obtain r where "feasibility_with_model z (f_and f (f_not g)) = Inr r"
      "report_feasibility r = Infeasible"
      using v oracle_implies_iff validity_cases(1) by metis
    from report_sound(1) [OF assms this s(1)] s(2) show ?thesis by simp
  qed
  show "\<exists>s. admissible s \<and> eval_formula s f \<and> \<not> eval_formula s g"
    if v: "oracle_implies z f g = Inr Invalid"
  proof -
    obtain r where "feasibility_with_model z (f_and f (f_not g)) = Inr r"
      "report_feasibility r = Feasible"
      using v oracle_implies_iff validity_cases(2) by metis
    from report_sound(2) [OF assms this] show ?thesis by simp
  qed
qed

section \<open>A concrete solver\<close>

text \<open>Three-valued constant folding; \<open>None\<close> is undecided.\<close>

definition fold_compare :: "(int \<Rightarrow> int \<Rightarrow> bool) \<Rightarrow> fterm \<Rightarrow> fterm \<Rightarrow> bool option" where
  "fold_compare c a b =
     (case a of TInt m \<Rightarrow> (case b of TInt n \<Rightarrow> Some (c (sint m) (sint n)) | _ \<Rightarrow> None) | _ \<Rightarrow> None)"

definition fold_all :: "bool option list \<Rightarrow> bool option" where
  "fold_all bs = (if Some False \<in> set bs then Some False else if None \<in> set bs then None
     else Some True)"

definition fold_any :: "bool option list \<Rightarrow> bool option" where
  "fold_any bs = (if Some True \<in> set bs then Some True else if None \<in> set bs then None
     else Some False)"

fun fold_formula :: "formula \<Rightarrow> bool option" where
  "fold_formula FTrue = Some True"
| "fold_formula FFalse = Some False"
| "fold_formula (FNot f) = map_option Not (fold_formula f)"
| "fold_formula (FAnd fs) = fold_all (map fold_formula fs)"
| "fold_formula (FOr fs) = fold_any (map fold_formula fs)"
| "fold_formula (FEq a b) = fold_compare (=) a b"
| "fold_formula (FLt a b) = fold_compare (<) a b"
| "fold_formula (FLe a b) = fold_compare (\<le>) a b"
| "fold_formula (FGt a b) = fold_compare (>) a b"
| "fold_formula (FGe a b) = fold_compare (\<ge>) a b"
| "fold_formula _ = None"

lemma fold_compare_sound:
  "fold_compare c a b = Some v \<Longrightarrow> compare_values c d (eval_term s a) (eval_term s b) = v"
  by (auto simp: fold_compare_def split: fterm.splits)

lemma fold_formula_sound: "fold_formula f = Some v \<Longrightarrow> eval_formula s f = v"
proof (induction f arbitrary: v rule: formula_only_induct)
  case (FAnd fs)
  then show ?case by (auto simp: fold_all_def split: if_splits) (metis image_eqI not_None_eq)+
next
  case (FOr fs)
  then show ?case by (auto simp: fold_any_def split: if_splits) (metis image_eqI not_None_eq)+
qed (auto dest: fold_compare_sound)

definition folding_solver :: solver where
  "folding_solver = \<lparr>assert_formula = (\<lambda>_. Inr ()),
     check = (\<lambda>f. case fold_formula f of
        Some True \<Rightarrow> Sat | Some False \<Rightarrow> Unsat | None \<Rightarrow> SatUnknown),
     model_bindings = (\<lambda>_ _. None)\<rparr>"

definition sample_state :: valuation where
  "sample_state = \<lparr>scalar_of = (\<lambda>v. if var_sort v = SReal then RealV 0 else IntV 0),
     bool_of = (\<lambda>_. False), cells_of = (\<lambda>_ _. 0),
     int_div_of = (\<lambda>a b. sgn b * (a div \<bar>b\<bar>)), int_rem_of = (\<lambda>a b. sgn b * (a mod \<bar>b\<bar>)),
     real_div_of = (/)\<rparr>"

lemma sample_state_admissible: "admissible sample_state"
  by (auto simp: admissible_def sample_state_def well_sorted_def smtlib_division_def
      split: sort.splits) (metis sort.exhaust)+

lemma folding_solver_sound: "sound_solver folding_solver"
  unfolding sound_solver_def folding_solver_def
  using fold_formula_sound sample_state_admissible
  by (auto split: option.splits bool.splits)

text \<open>A client of the oracle works inside this locale; a sound solver provides it.\<close>

locale sound_oracle =
  fixes z :: solver
  assumes sound: "sound_solver z"

sublocale sound_oracle \<subseteq> query_oracle "feasibility z" "oracle_implies z" admissible eval_formula
  by (rule oracle_laws) (rule sound)

interpretation folding: sound_oracle folding_solver
  by unfold_locales (rule folding_solver_sound)

end
