(* ===== verification/Cfg.thy ===== *)
theory Cfg
  imports Effects
begin

text \<open>
  The abstract control-flow graph (\<open>src/cfg/abstract_cfg.rs\<close>): nodes, edges and the
  operations that build and query the graph, with the representation invariant \<open>cfg_wf\<close>.
  \<open>CfgNodeId\<close> and \<open>CfgEdgeId\<close> wrap a \<open>usize\<close> counter and are natural numbers here; a
  \<open>BTreeMap\<close> is a key-ordered list of bindings and a \<open>BTreeSet\<close> an ordered list.
\<close>

section \<open>Data\<close>

record source_location =
  loc_file :: string
  loc_line :: "32 word"
  loc_column :: "32 word"

definition source_location_new :: "string \<Rightarrow> 32 word \<Rightarrow> 32 word \<Rightarrow> source_location" where
  "source_location_new file line column =
     \<lparr>loc_file = file, loc_line = line, loc_column = column\<rparr>"

definition source_location_display :: "source_location \<Rightarrow> string" where
  "source_location_display self =
     (let line = nat_str (unat (loc_line self)); column = nat_str (unat (loc_column self)) in
      if loc_file self = [] then
        (if loc_column self = 0 then ''<unknown>:'' @ line
         else ''<unknown>:'' @ line @ '':'' @ column)
      else if loc_column self = 0 then loc_file self @ '':'' @ line
      else loc_file self @ '':'' @ line @ '':'' @ column)"

type_synonym cfg_node_id = nat
type_synonym cfg_edge_id = nat

datatype node_kind = Entry | Normal | Exit | SyntheticExit

record abstract_node =
  node_id :: cfg_node_id
  node_label :: string
  node_kind :: node_kind
  node_location :: "source_location option"
  node_transfer :: transfer_fn
  node_pre :: formula
  node_post :: formula

record abstract_edge =
  edge_id :: cfg_edge_id
  edge_source :: cfg_node_id
  edge_target :: cfg_node_id
  edge_guard :: formula
  edge_effects :: "transfer_effect list"

definition edge_transfer :: "abstract_edge \<Rightarrow> transfer_fn" where
  "edge_transfer self = transfer_fn_new (edge_effects self)"

record abstract_cfg =
  cfg_nodes :: "(cfg_node_id, abstract_node) btree"
  cfg_edges :: "(cfg_edge_id, abstract_edge) btree"
  cfg_entry :: cfg_node_id
  concrete_exits :: "cfg_node_id list"
  cfg_exit :: "cfg_node_id option"
  next_node :: nat
  next_edge :: nat

datatype cfg_error = UnknownNode cfg_node_id | UnknownEdge cfg_edge_id | MissingExit

section \<open>Construction\<close>

definition cfg_new :: "string \<Rightarrow> abstract_cfg" where
  "cfg_new entry_label =
     \<lparr>cfg_nodes = bt_insert 0
        \<lparr>node_id = 0, node_label = entry_label, node_kind = Entry, node_location = None,
         node_transfer = transfer_identity, node_pre = FTrue, node_post = FTrue\<rparr> [],
      cfg_edges = [], cfg_entry = 0, concrete_exits = [], cfg_exit = None,
      next_node = 1, next_edge = 0\<rparr>"

definition cfg_node :: "abstract_cfg \<Rightarrow> cfg_node_id \<Rightarrow> cfg_error + abstract_node" where
  "cfg_node self i =
     (case bt_get (cfg_nodes self) i of None \<Rightarrow> Inl (UnknownNode i) | Some n \<Rightarrow> Inr n)"

definition cfg_edge :: "abstract_cfg \<Rightarrow> cfg_edge_id \<Rightarrow> cfg_error + abstract_edge" where
  "cfg_edge self i =
     (case bt_get (cfg_edges self) i of None \<Rightarrow> Inl (UnknownEdge i) | Some e \<Rightarrow> Inr e)"

text \<open>\<open>node_mut\<close> and \<open>edge_mut\<close> lend a binding to a writer, which is the argument here.\<close>

definition node_mut ::
  "cfg_node_id \<Rightarrow> (abstract_node \<Rightarrow> abstract_node) \<Rightarrow> abstract_cfg \<Rightarrow> cfg_error + abstract_cfg"
where
  "node_mut i write self =
     (case bt_get (cfg_nodes self) i of
        None \<Rightarrow> Inl (UnknownNode i)
      | Some n \<Rightarrow> Inr (self\<lparr>cfg_nodes := bt_insert i (write n) (cfg_nodes self)\<rparr>))"

definition edge_mut ::
  "cfg_edge_id \<Rightarrow> (abstract_edge \<Rightarrow> abstract_edge) \<Rightarrow> abstract_cfg \<Rightarrow> cfg_error + abstract_cfg"
where
  "edge_mut i write self =
     (case bt_get (cfg_edges self) i of
        None \<Rightarrow> Inl (UnknownEdge i)
      | Some e \<Rightarrow> Inr (self\<lparr>cfg_edges := bt_insert i (write e) (cfg_edges self)\<rparr>))"

definition node_ids :: "abstract_cfg \<Rightarrow> cfg_node_id list" where
  "node_ids self = bt_keys (cfg_nodes self)"

definition edge_ids :: "abstract_cfg \<Rightarrow> cfg_edge_id list" where
  "edge_ids self = bt_keys (cfg_edges self)"

definition add_node :: "string \<Rightarrow> transfer_fn \<Rightarrow> abstract_cfg \<Rightarrow> cfg_node_id \<times> abstract_cfg" where
  "add_node label tr self =
     (let i = next_node self in
      (i, self\<lparr>next_node := i + 1,
        cfg_nodes := bt_insert i
          \<lparr>node_id = i, node_label = label, node_kind = Normal, node_location = None,
           node_transfer = tr, node_pre = FTrue, node_post = FTrue\<rparr> (cfg_nodes self)\<rparr>))"

definition set_entry_transfer :: "transfer_fn \<Rightarrow> abstract_cfg \<Rightarrow> abstract_cfg" where
  "set_entry_transfer tr self =
     (case bt_get (cfg_nodes self) (cfg_entry self) of
        None \<Rightarrow> self
      | Some n \<Rightarrow> self\<lparr>cfg_nodes :=
          bt_insert (cfg_entry self) (n\<lparr>node_transfer := tr\<rparr>) (cfg_nodes self)\<rparr>)"

definition set_source_location ::
  "cfg_node_id \<Rightarrow> source_location \<Rightarrow> abstract_cfg \<Rightarrow> cfg_error + abstract_cfg" where
  "set_source_location i location self =
     node_mut i (\<lambda>n. n\<lparr>node_location := Some location\<rparr>) self"

definition mark_exit :: "cfg_node_id \<Rightarrow> abstract_cfg \<Rightarrow> cfg_error + abstract_cfg" where
  "mark_exit i self =
     (if i \<noteq> cfg_entry self then
        rbind (node_mut i (\<lambda>n. n\<lparr>node_kind := Exit\<rparr>) self) (\<lambda>self.
          Inr (self\<lparr>concrete_exits := insort_insert i (concrete_exits self), cfg_exit := None\<rparr>))
      else Inr self)"

definition add_edge ::
  "cfg_node_id \<Rightarrow> cfg_node_id \<Rightarrow> formula \<Rightarrow> transfer_effect list \<Rightarrow> abstract_cfg
    \<Rightarrow> cfg_error + (cfg_edge_id \<times> abstract_cfg)" where
  "add_edge source target guard es self =
     (if bt_get (cfg_nodes self) source = None then Inl (UnknownNode source)
      else if bt_get (cfg_nodes self) target = None then Inl (UnknownNode target)
      else
        let i = next_edge self in
        Inr (i, self\<lparr>next_edge := i + 1,
          cfg_edges := bt_insert i
            \<lparr>edge_id = i, edge_source = source, edge_target = target, edge_guard = guard,
             edge_effects = es\<rparr> (cfg_edges self)\<rparr>))"

definition append_edge_effects ::
  "cfg_edge_id \<Rightarrow> transfer_effect list \<Rightarrow> abstract_cfg \<Rightarrow> cfg_error + abstract_cfg" where
  "append_edge_effects i es self =
     edge_mut i (\<lambda>e. e\<lparr>edge_effects := edge_effects e @ es\<rparr>) self"

definition remove_edge :: "cfg_edge_id \<Rightarrow> abstract_cfg \<Rightarrow> abstract_cfg" where
  "remove_edge i self = self\<lparr>cfg_edges := bt_remove i (cfg_edges self)\<rparr>"

section \<open>Adjacency\<close>

definition successors :: "abstract_cfg \<Rightarrow> cfg_node_id \<Rightarrow> cfg_node_id list" where
  "successors self i =
     map edge_target (filter (\<lambda>edge. edge_source edge = i) (bt_values (cfg_edges self)))"

definition predecessors :: "abstract_cfg \<Rightarrow> cfg_node_id \<Rightarrow> cfg_node_id list" where
  "predecessors self i =
     map edge_source (filter (\<lambda>edge. edge_target edge = i) (bt_values (cfg_edges self)))"

definition outgoing_edges :: "abstract_cfg \<Rightarrow> cfg_node_id \<Rightarrow> cfg_edge_id list" where
  "outgoing_edges self i =
     map edge_id (filter (\<lambda>edge. edge_source edge = i) (bt_values (cfg_edges self)))"

definition incoming_edges :: "abstract_cfg \<Rightarrow> cfg_node_id \<Rightarrow> cfg_edge_id list" where
  "incoming_edges self i =
     map edge_id (filter (\<lambda>edge. edge_target edge = i) (bt_values (cfg_edges self)))"

section \<open>A single exit\<close>

definition ensure_single_exit :: "abstract_cfg \<Rightarrow> cfg_error + (cfg_node_id \<times> abstract_cfg)" where
  "ensure_single_exit self =
     (case cfg_exit self of
        Some exit \<Rightarrow> Inr (exit, self)
      | None \<Rightarrow>
          (case concrete_exits self of
             [] \<Rightarrow> Inl MissingExit
           | [exit] \<Rightarrow> Inr (exit, self\<lparr>cfg_exit := Some exit\<rparr>)
           | exits \<Rightarrow>
               let (synthetic, self) = add_node ''__synthetic_exit'' transfer_identity self in
               rbind (node_mut synthetic (\<lambda>n. n\<lparr>node_kind := SyntheticExit\<rparr>) self) (\<lambda>self.
               rbind (rfold (\<lambda>exit self. rbind (add_edge exit synthetic FTrue [] self)
                        (\<lambda>(_, self). Inr self)) exits self) (\<lambda>self.
                 Inr (synthetic, self\<lparr>cfg_exit := Some synthetic\<rparr>)))))"

section \<open>The invariant\<close>

definition nodes_wf :: "abstract_cfg \<Rightarrow> bool" where
  "nodes_wf g \<longleftrightarrow> bt_wf (cfg_nodes g) \<and>
     (\<forall>(i, n) \<in> set (cfg_nodes g). node_id n = i \<and> i < next_node g) \<and>
     cfg_entry g \<in> set (node_ids g)"

definition edges_wf :: "abstract_cfg \<Rightarrow> bool" where
  "edges_wf g \<longleftrightarrow> bt_wf (cfg_edges g) \<and>
     (\<forall>(i, e) \<in> set (cfg_edges g). edge_id e = i \<and> i < next_edge g \<and>
        edge_source e \<in> set (node_ids g) \<and> edge_target e \<in> set (node_ids g))"

definition exits_wf :: "abstract_cfg \<Rightarrow> bool" where
  "exits_wf g \<longleftrightarrow> sorted (concrete_exits g) \<and> distinct (concrete_exits g) \<and>
     set (concrete_exits g) \<subseteq> set (node_ids g) - {cfg_entry g} \<and>
     (\<forall>x. cfg_exit g = Some x \<longrightarrow> x \<in> set (node_ids g))"

definition cfg_wf :: "abstract_cfg \<Rightarrow> bool" where
  "cfg_wf g \<longleftrightarrow> nodes_wf g \<and> edges_wf g \<and> exits_wf g"

lemmas cfg_wf_defs = cfg_wf_def nodes_wf_def edges_wf_def exits_wf_def

end
