(* ===== verification/Cfg_Ops.thy ===== *)
theory Cfg_Ops
  imports Cfg
begin

text \<open>
  Every operation of \<open>AbstractCfg\<close> keeps \<open>cfg_wf\<close>, and what \<open>ensure_single_exit\<close> builds.
\<close>

section \<open>Reading a well-formed graph\<close>

lemma node_ids_insert [simp]:
  "set (bt_keys (bt_insert i n m)) = insert i (set (bt_keys (m :: (nat, 'a) btree)))"
  by (rule bt.keys_insert)

lemma node_ids_get: "i \<in> set (node_ids g) \<longleftrightarrow> (\<exists>n. bt_get (cfg_nodes g) i = Some n)"
  by (simp add: node_ids_def bt_keys_iff)

lemma cfg_node_Inr [simp]: "cfg_node g i = Inr n \<longleftrightarrow> bt_get (cfg_nodes g) i = Some n"
  by (simp add: cfg_node_def split: option.split)

lemma cfg_edge_Inr [simp]: "cfg_edge g i = Inr e \<longleftrightarrow> bt_get (cfg_edges g) i = Some e"
  by (simp add: cfg_edge_def split: option.split)

lemma wf_node:
  "cfg_wf g \<Longrightarrow> bt_get (cfg_nodes g) i = Some n \<Longrightarrow> node_id n = i \<and> i < next_node g"
  by (auto simp: cfg_wf_defs dest!: bt_get_SomeD)

lemma wf_edge:
  assumes "cfg_wf g" "bt_get (cfg_edges g) i = Some e"
  shows "edge_id e = i" "i < next_edge g" "edge_source e \<in> set (node_ids g)"
    "edge_target e \<in> set (node_ids g)"
  using assms by (auto simp: cfg_wf_defs dest!: bt_get_SomeD)

text \<open>The edges as a list, and the edge an id stands for.\<close>

abbreviation all_edges :: "abstract_cfg \<Rightarrow> abstract_edge list" where
  "all_edges g \<equiv> bt_values (cfg_edges g)"

lemma all_edges_iff:
  assumes "cfg_wf g"
  shows "e \<in> set (all_edges g) \<longleftrightarrow> bt_get (cfg_edges g) (edge_id e) = Some e"
proof -
  have "bt_wf (cfg_edges g)" using assms by (simp add: cfg_wf_defs)
  then have "e \<in> set (all_edges g) \<longleftrightarrow> (\<exists>i. bt_get (cfg_edges g) i = Some e)"
    by (rule bt_values_get)
  then show ?thesis using wf_edge(1) [OF assms] by metis
qed

lemma all_edges_nodes:
  "cfg_wf g \<Longrightarrow> e \<in> set (all_edges g) \<Longrightarrow>
    edge_source e \<in> set (node_ids g) \<and> edge_target e \<in> set (node_ids g)"
  by (simp add: all_edges_iff wf_edge)

lemma edge_id_inj:
  "cfg_wf g \<Longrightarrow> e \<in> set (all_edges g) \<Longrightarrow> e' \<in> set (all_edges g) \<Longrightarrow> edge_id e = edge_id e' \<Longrightarrow> e = e'"
  by (auto simp: all_edges_iff)

lemma outgoing_edges_iff:
  "cfg_wf g \<Longrightarrow> i \<in> set (outgoing_edges g n)
    \<longleftrightarrow> (\<exists>e. bt_get (cfg_edges g) i = Some e \<and> edge_source e = n)"
  using wf_edge(1) [of g i] by (auto simp: outgoing_edges_def all_edges_iff image_iff)

lemma incoming_edges_iff:
  "cfg_wf g \<Longrightarrow> i \<in> set (incoming_edges g n)
    \<longleftrightarrow> (\<exists>e. bt_get (cfg_edges g) i = Some e \<and> edge_target e = n)"
  using wf_edge(1) [of g i] by (auto simp: incoming_edges_def all_edges_iff image_iff)

section \<open>Preservation\<close>

lemma cfg_wf_new: "cfg_wf (cfg_new label)"
  by (simp add: cfg_wf_defs cfg_new_def bt_wf_def node_ids_def bt_keys_def)

lemma cfg_wf_add_node:
  assumes "cfg_wf g" shows "cfg_wf (snd (add_node label tr g))"
proof -
  have "\<forall>(i, e) \<in> set (cfg_nodes g). i < next_node g" using assms by (auto simp: cfg_wf_defs)
  with assms show ?thesis
    unfolding cfg_wf_defs add_node_def Let_def node_ids_def
    by (auto simp: set_bt_insert bt_wf_insert less_Suc_eq)
qed

lemma add_node_fresh: "cfg_wf g \<Longrightarrow> fst (add_node label tr g) \<notin> set (node_ids g)"
  using wf_node [of g "next_node g"]
  by (cases "bt_get (cfg_nodes g) (next_node g)") (auto simp: add_node_def Let_def node_ids_get)

lemma node_mut_frame:
  assumes "node_mut i w g = Inr h"
  shows "cfg_edges h = cfg_edges g" "concrete_exits h = concrete_exits g"
    "cfg_entry h = cfg_entry g" "set (node_ids h) = set (node_ids g)"
proof -
  from assms obtain n where n: "bt_get (cfg_nodes g) i = Some n"
    and h: "h = g\<lparr>cfg_nodes := bt_insert i (w n) (cfg_nodes g)\<rparr>"
    by (auto simp: node_mut_def split: option.splits)
  have "i \<in> set (bt_keys (cfg_nodes g))" using n by (auto simp: bt_keys_iff)
  with h show "cfg_edges h = cfg_edges g" "concrete_exits h = concrete_exits g"
    "cfg_entry h = cfg_entry g" "set (node_ids h) = set (node_ids g)"
    by (auto simp: node_ids_def)
qed

lemma node_mut_wf:
  assumes "cfg_wf g" "node_mut i w g = Inr h" "\<And>n. node_id (w n) = node_id n"
  shows "cfg_wf h"
proof -
  from assms(2) obtain n where n: "bt_get (cfg_nodes g) i = Some n"
    and h: "h = g\<lparr>cfg_nodes := bt_insert i (w n) (cfg_nodes g)\<rparr>"
    by (auto simp: node_mut_def split: option.splits)
  have "node_id n = i \<and> i < next_node g" using wf_node [OF assms(1) n] .
  moreover have "insert i (set (bt_keys (cfg_nodes g))) = set (bt_keys (cfg_nodes g))"
    using n by (auto simp: bt_keys_iff)
  ultimately show ?thesis using assms(1,3)
    by (auto simp: cfg_wf_defs h node_ids_def set_bt_insert bt_wf_insert)
qed

lemma edge_mut_wf:
  assumes "cfg_wf g" "edge_mut i w g = Inr h"
    and "\<And>e. edge_id (w e) = edge_id e \<and> edge_source (w e) = edge_source e
      \<and> edge_target (w e) = edge_target e"
  shows "cfg_wf h"
proof -
  from assms(2) obtain e where e: "bt_get (cfg_edges g) i = Some e"
    and h: "h = g\<lparr>cfg_edges := bt_insert i (w e) (cfg_edges g)\<rparr>"
    by (auto simp: edge_mut_def split: option.splits)
  show ?thesis using assms(1,3) wf_edge [OF assms(1) e]
    by (auto simp: cfg_wf_defs h node_ids_def set_bt_insert bt_wf_insert)
qed

lemma set_entry_transfer_wf: "cfg_wf g \<Longrightarrow> cfg_wf (set_entry_transfer tr g)"
  by (rule node_mut_wf [of g "cfg_entry g" "\<lambda>n. n\<lparr>node_transfer := tr\<rparr>"])
    (auto simp: set_entry_transfer_def node_mut_def cfg_wf_defs node_ids_get split: option.split)

lemma set_source_location_wf: "cfg_wf g \<Longrightarrow> set_source_location i l g = Inr h \<Longrightarrow> cfg_wf h"
  unfolding set_source_location_def by (erule (1) node_mut_wf) simp

lemma mark_exit_wf:
  assumes "cfg_wf g" "mark_exit i g = Inr h" shows "cfg_wf h"
proof (cases "i = cfg_entry g")
  case True
  with assms show ?thesis by (simp add: mark_exit_def)
next
  case False
  with assms(2) obtain k where k: "node_mut i (\<lambda>n. n\<lparr>node_kind := Exit\<rparr>) g = Inr k"
    and h: "h = k\<lparr>concrete_exits := insort_insert i (concrete_exits k), cfg_exit := None\<rparr>"
    by (auto simp: mark_exit_def rbind_eq_Inr)
  have "cfg_wf k" by (rule node_mut_wf [OF assms(1) k]) simp
  moreover have "i \<in> set (node_ids k)" "cfg_entry k = cfg_entry g"
    using k by (auto simp: node_mut_def node_ids_def split: option.splits)
  ultimately show ?thesis using False
    by (auto simp: cfg_wf_defs h node_ids_def sorted_insort_insert distinct_insort_insert
        set_insort_insert)
qed

lemma add_edge_Inr:
  "add_edge s t gd es g = Inr (i, h) \<longleftrightarrow> s \<in> set (node_ids g) \<and> t \<in> set (node_ids g) \<and>
    i = next_edge g \<and> h = g\<lparr>next_edge := i + 1, cfg_edges := bt_insert i
      \<lparr>edge_id = i, edge_source = s, edge_target = t, edge_guard = gd, edge_effects = es\<rparr>
      (cfg_edges g)\<rparr>"
  by (auto simp: add_edge_def Let_def node_ids_get)

lemma add_edge_wf: "cfg_wf g \<Longrightarrow> add_edge s t gd es g = Inr (i, h) \<Longrightarrow> cfg_wf h"
  by (auto simp: cfg_wf_defs add_edge_Inr node_ids_def set_bt_insert bt_wf_insert less_Suc_eq)

lemma append_edge_effects_wf: "cfg_wf g \<Longrightarrow> append_edge_effects i es g = Inr h \<Longrightarrow> cfg_wf h"
  unfolding append_edge_effects_def by (erule (1) edge_mut_wf) simp

lemma remove_edge_wf: "cfg_wf g \<Longrightarrow> cfg_wf (remove_edge i g)"
  by (auto simp: cfg_wf_defs remove_edge_def node_ids_def bt_wf_remove)

section \<open>The single exit\<close>

definition connected_to :: "cfg_node_id \<Rightarrow> abstract_cfg \<Rightarrow> cfg_node_id \<Rightarrow> bool" where
  "connected_to x g c \<longleftrightarrow> c = x \<or>
     (\<exists>e \<in> set (all_edges g). edge_source e = c \<and> edge_target e = x \<and> edge_guard e = FTrue \<and>
        edge_effects e = [])"

abbreviation join_exit :: "cfg_node_id \<Rightarrow> cfg_node_id \<Rightarrow> abstract_cfg \<Rightarrow> cfg_error + abstract_cfg"
where
  "join_exit x c g \<equiv> rbind (add_edge c x FTrue [] g) (\<lambda>(_, g). Inr g)"

text \<open>What the loop over the concrete exits keeps and adds, starting at \<open>g\<close>.\<close>

definition extends :: "abstract_cfg \<Rightarrow> cfg_node_id \<Rightarrow> abstract_cfg \<Rightarrow> bool" where
  "extends g x h \<longleftrightarrow> cfg_wf h \<and> cfg_nodes h = cfg_nodes g \<and> cfg_entry h = cfg_entry g \<and>
     concrete_exits h = concrete_exits g \<and> set (all_edges g) \<subseteq> set (all_edges h) \<and>
     (\<forall>e \<in> set (all_edges h). e \<notin> set (all_edges g) \<longrightarrow>
        edge_target e = x \<and> edge_source e \<in> set (concrete_exits g))"

lemma join_exit_step:
  assumes "extends g x h" "c \<in> set (concrete_exits g)" "c \<in> set (node_ids g)" "x \<in> set (node_ids g)"
  shows "\<exists>k. join_exit x c h = Inr k \<and> extends g x k \<and> connected_to x k c
    \<and> set (all_edges h) \<subseteq> set (all_edges k)"
proof -
  define new where "new = \<lparr>edge_id = next_edge h, edge_source = c, edge_target = x,
    edge_guard = FTrue, edge_effects = []\<rparr>"
  define k where "k = h\<lparr>next_edge := next_edge h + 1,
    cfg_edges := bt_insert (next_edge h) new (cfg_edges h)\<rparr>"
  have wf: "cfg_wf h" and ids: "node_ids h = node_ids g"
    using assms(1) by (auto simp: extends_def node_ids_def)
  have add: "add_edge c x FTrue [] h = Inr (next_edge h, k)"
    using assms ids by (simp add: add_edge_Inr k_def new_def)
  have "\<forall>(i, e) \<in> set (cfg_edges h). i < next_edge h" using wf by (auto simp: cfg_wf_defs)
  then have "set (cfg_edges k) = insert (next_edge h, new) (set (cfg_edges h))"
    using wf by (auto simp: k_def set_bt_insert cfg_wf_defs)
  then have edges: "set (all_edges k) = insert new (set (all_edges h))"
    by (simp add: bt_values_def)
  have "extends g x k"
    using assms(1,2) add_edge_wf [OF wf add] edges unfolding extends_def
    by (auto simp: k_def new_def)
  moreover have "connected_to x k c"
    unfolding connected_to_def edges by (auto simp: new_def)
  ultimately show ?thesis using add edges by auto
qed

lemma join_exits:
  assumes "extends g x h" "set cs \<subseteq> set (concrete_exits g)" "set cs \<subseteq> set (node_ids g)"
    and "x \<in> set (node_ids g)"
  shows "\<exists>k. rfold (join_exit x) cs h = Inr k \<and> extends g x k \<and> (\<forall>c \<in> set cs. connected_to x k c)
    \<and> set (all_edges h) \<subseteq> set (all_edges k)"
  using assms(1-3)
proof (induction cs arbitrary: h)
  case (Cons c cs)
  have c: "c \<in> set (concrete_exits g)" "c \<in> set (node_ids g)"
    and cs: "set cs \<subseteq> set (concrete_exits g)" "set cs \<subseteq> set (node_ids g)"
    using Cons.prems by simp_all
  obtain m where m: "join_exit x c h = Inr m" "extends g x m" "connected_to x m c"
    "set (all_edges h) \<subseteq> set (all_edges m)"
    using join_exit_step [OF Cons.prems(1) c assms(4)] by blast
  obtain k where k: "rfold (join_exit x) cs m = Inr k" "extends g x k"
    "\<forall>c \<in> set cs. connected_to x k c" "set (all_edges m) \<subseteq> set (all_edges k)"
    using Cons.IH [OF m(2) cs] by blast
  have "connected_to x k c" using m(3) k(4) unfolding connected_to_def by blast
  moreover have "rfold (join_exit x) (c # cs) h = Inr k" using m(1) k(1) by simp
  ultimately show ?case using m(4) k by (metis set_ConsD subset_trans)
qed simp

lemma ensure_single_exit_many:
  assumes wf: "cfg_wf g" and none: "cfg_exit g = None"
    and exits: "concrete_exits g = a # b # rest"
  shows "\<exists>x h. ensure_single_exit g = Inr (x, h) \<and> cfg_wf h \<and> cfg_exit h = Some x
    \<and> (\<forall>c \<in> set (concrete_exits g). connected_to x h c) \<and> set (all_edges g) \<subseteq> set (all_edges h)
    \<and> outgoing_edges h x = [] \<and> x \<notin> set (node_ids g)"
proof -
  obtain x g1 where x: "add_node ''__synthetic_exit'' transfer_identity g = (x, g1)" by fastforce
  have wf1: "cfg_wf g1" and fresh: "x \<notin> set (node_ids g)"
    using cfg_wf_add_node [OF wf] add_node_fresh [OF wf] x by (metis fst_conv snd_conv)+
  have g1: "cfg_edges g1 = cfg_edges g" "concrete_exits g1 = concrete_exits g"
    "set (node_ids g1) = insert x (set (node_ids g))"
    using x by (simp_all add: add_node_def Let_def node_ids_def split: prod.splits) auto
  then obtain g2 where g2: "node_mut x (\<lambda>n. n\<lparr>node_kind := SyntheticExit\<rparr>) g1 = Inr g2"
    using node_ids_get [of x g1] by (auto simp: node_mut_def)
  have wf2: "cfg_wf g2" by (rule node_mut_wf [OF wf1 g2]) simp
  have g2': "cfg_edges g2 = cfg_edges g" "concrete_exits g2 = concrete_exits g"
    "set (node_ids g2) = insert x (set (node_ids g))"
    using node_mut_frame [OF g2] g1 by simp_all
  have sub: "set (concrete_exits g) \<subseteq> set (node_ids g)" using wf by (auto simp: cfg_wf_defs)
  have start: "extends g2 x g2" "set (concrete_exits g) \<subseteq> set (concrete_exits g2)"
    "set (concrete_exits g) \<subseteq> set (node_ids g2)" "x \<in> set (node_ids g2)"
    using sub wf2 g2' by (auto simp: extends_def)
  obtain k where k: "rfold (join_exit x) (concrete_exits g) g2 = Inr k" "extends g2 x k"
    "\<forall>c \<in> set (concrete_exits g). connected_to x k c"
    using join_exits [OF start] by blast
  define h where "h = k\<lparr>cfg_exit := Some x\<rparr>"
  have "ensure_single_exit g = Inr (x, h)"
    using none exits x g2 k(1) by (simp add: ensure_single_exit_def h_def)
  moreover have ids: "node_ids h = node_ids g2" using k(2) by (simp add: extends_def h_def node_ids_def)
  moreover have "cfg_wf h" using k(2) g2' by (auto simp: extends_def cfg_wf_defs h_def node_ids_def)
  moreover have "\<forall>c \<in> set (concrete_exits g). connected_to x h c"
    using k(3) by (simp add: connected_to_def h_def)
  moreover have "edge_source e \<noteq> x" if "e \<in> set (all_edges h)" for e
    using that k(2) all_edges_nodes [OF wf] fresh sub g2'(1,2) by (auto simp: extends_def h_def)
  then have "outgoing_edges h x = []" by (auto simp: outgoing_edges_def filter_empty_conv)
  moreover have "cfg_exit h = Some x" "set (all_edges g) \<subseteq> set (all_edges h)"
    using k(2) g2' by (auto simp: extends_def h_def)
  ultimately show ?thesis using fresh by blast
qed

lemma ensure_single_exit_one:
  assumes "cfg_wf g" "cfg_exit g = None" "concrete_exits g = [x]"
  shows "ensure_single_exit g = Inr (x, g\<lparr>cfg_exit := Some x\<rparr>)" "cfg_wf (g\<lparr>cfg_exit := Some x\<rparr>)"
  using assms by (auto simp: ensure_single_exit_def cfg_wf_defs node_ids_def)

end
