(* ===== verification/Topology.thy ===== *)
theory Topology
  imports Cfg_Ops
begin

text \<open>
  Topological order and back edges (\<open>src/cfg/abstract_cfg.rs\<close>: \<open>topological_order\<close>,
  \<open>topological_order_excluding\<close>, \<open>detect_back_edges\<close>).  The \<open>Vec\<close> that serves as the work
  list is popped at its end and is held with that end first.  A failing \<open>expect\<close> and the
  underflow of a degree counter are \<open>Panics\<close>.  The recursive search for back edges takes fuel
  for its depth; \<open>detect_back_edges_total\<close> shows that the number of nodes is enough.
\<close>

section \<open>Kahn's algorithm\<close>

definition count_edge ::
  "abstract_edge \<Rightarrow> (cfg_node_id, nat) btree \<Rightarrow> (cfg_node_id, nat) btree outcome" where
  "count_edge edge indegree =
     (case bt_get indegree (edge_target edge) of
        None \<Rightarrow> Panics
      | Some degree \<Rightarrow> Returns (bt_insert (edge_target edge) (degree + 1) indegree))"

fun count_edges ::
  "abstract_edge list \<Rightarrow> (cfg_node_id, nat) btree \<Rightarrow> (cfg_node_id, nat) btree outcome" where
  "count_edges [] indegree = Returns indegree"
| "count_edges (e # es) indegree = obind (count_edge e indegree) (count_edges es)"

fun relax ::
  "abstract_edge list \<Rightarrow> (cfg_node_id, nat) btree \<Rightarrow> cfg_node_id list
    \<Rightarrow> ((cfg_node_id, nat) btree \<times> cfg_node_id list) outcome" where
  "relax [] indegree queue = Returns (indegree, queue)"
| "relax (edge # es) indegree queue =
     (case bt_get indegree (edge_target edge) of
        None \<Rightarrow> Panics
      | Some degree \<Rightarrow>
          if degree = 0 then Panics
          else relax es (bt_insert (edge_target edge) (degree - 1) indegree)
            (if degree - 1 = 0 then edge_target edge # queue else queue))"

definition pending :: "(cfg_node_id, nat) btree \<Rightarrow> nat" where
  "pending indegree = (\<Sum>k \<in> set (bt_keys indegree). the (bt_get indegree k))"

lemma pending_decrement:
  assumes "bt_get d k = Some n" "n \<noteq> 0"
  shows "Suc (pending (bt_insert k (n - 1) d)) = pending d"
proof -
  let ?K = "set (bt_keys d)"
  have k: "k \<in> ?K" using assms(1) by (auto simp: bt_keys_iff)
  have fin: "finite ?K" by simp
  have "pending (bt_insert k (n - 1) d)
      = (\<Sum>j \<in> ?K. the (bt_get (bt_insert k (n - 1) d) j))"
    using k by (simp add: pending_def insert_absorb)
  also have "\<dots> = (n - 1) + (\<Sum>j \<in> ?K - {k}. the (bt_get d j))"
    using k by (subst sum.remove [OF fin k]) (auto intro!: sum.cong)
  also have "Suc \<dots> = the (bt_get d k) + (\<Sum>j \<in> ?K - {k}. the (bt_get d j))"
    using assms by simp
  finally show ?thesis by (simp add: pending_def sum.remove [OF fin k])
qed

lemma relax_measure:
  "relax es d q = Returns (d', q') \<Longrightarrow> pending d' + length q' \<le> pending d + length q"
proof (induction es d q rule: relax.induct)
  case (2 e es d q)
  obtain n where n: "bt_get d (edge_target e) = Some n" "n \<noteq> 0"
    using "2.prems" by (simp split: option.splits if_splits)
  let ?q = "if n - 1 = 0 then edge_target e # q else q"
  have r: "relax es (bt_insert (edge_target e) (n - 1) d) ?q = Returns (d', q')"
    using "2.prems" n by simp
  have "pending d' + length q' \<le> pending (bt_insert (edge_target e) (n - 1) d) + length ?q"
    by (rule "2.IH" [OF n(1) n(2) r])
  also have "\<dots> \<le> pending d + length q"
    using pending_decrement [OF n] by auto
  finally show ?case .
qed simp

function kahn ::
  "abstract_edge list \<Rightarrow> (cfg_node_id, nat) btree \<Rightarrow> cfg_node_id list \<Rightarrow> cfg_node_id list
    \<Rightarrow> cfg_node_id list outcome" where
  "kahn es indegree [] order = Returns order"
| "kahn es indegree (node # queue) order =
     obind (relax (filter (\<lambda>edge. edge_source edge = node) es) indegree queue)
       (\<lambda>(indegree, queue). kahn es indegree queue (order @ [node]))"
  by pat_completeness auto
termination
proof (relation "measure (\<lambda>(es, d, q, order). pending d + length q)", goal_cases)
  case 1
  show ?case by simp
next
  case (2 es indegree node queue order x d q)
  then show ?case using relax_measure [of _ indegree queue d q] by fastforce
qed

definition kahn_order ::
  "cfg_node_id list \<Rightarrow> abstract_edge list \<Rightarrow> cfg_node_id list option outcome" where
  "kahn_order ids es =
     obind (count_edges es (foldl (\<lambda>m i. bt_insert i 0 m) [] ids)) (\<lambda>indegree.
       let queue = rev (map fst (filter (\<lambda>(i, degree). degree = 0) indegree)) in
       obind (kahn es indegree queue []) (\<lambda>order.
         Returns (if length order = length ids then Some order else None)))"

definition topological_order :: "abstract_cfg \<Rightarrow> cfg_node_id list option outcome" where
  "topological_order self = kahn_order (node_ids self) (bt_values (cfg_edges self))"

definition topological_order_excluding ::
  "cfg_edge_id set \<Rightarrow> abstract_cfg \<Rightarrow> cfg_node_id list option outcome" where
  "topological_order_excluding excluded self =
     kahn_order (node_ids self)
       (filter (\<lambda>edge. edge_id edge \<notin> excluded) (bt_values (cfg_edges self)))"

section \<open>Degrees\<close>

definition into :: "abstract_edge list \<Rightarrow> cfg_node_id \<Rightarrow> nat" where
  "into es j = length (filter (\<lambda>e. edge_target e = j) es)"

lemma into_simps [simp]:
  "into [] j = 0"
  "into (e # es) j = (if edge_target e = j then 1 else 0) + into es j"
  by (simp_all add: into_def)

lemma into_zero: "into es j = 0 \<longleftrightarrow> (\<forall>e \<in> set es. edge_target e \<noteq> j)"
  by (auto simp: into_def filter_empty_conv)

lemma into_split: "into es j = into (filter P es) j + into (filter (\<lambda>e. \<not> P e) es) j"
  by (induction es) auto

lemma count_edges_spec:
  assumes "\<forall>e \<in> set es. edge_target e \<in> N" "\<forall>j. bt_get d j = (if j \<in> N then Some (c j) else None)"
    "bt_wf d"
  shows "\<exists>d'. count_edges es d = Returns d' \<and> bt_wf d' \<and>
    (\<forall>j. bt_get d' j = (if j \<in> N then Some (c j + into es j) else None))"
  using assms
proof (induction es arbitrary: d c)
  case (Cons e es)
  let ?t = "edge_target e"
  have step: "count_edge e d = Returns (bt_insert ?t (c ?t + 1) d)"
    using Cons.prems by (simp add: count_edge_def)
  have "\<exists>d'. count_edges es (bt_insert ?t (c ?t + 1) d) = Returns d' \<and> bt_wf d' \<and>
      (\<forall>j. bt_get d' j = (if j \<in> N then Some ((c(?t := c ?t + 1)) j + into es j) else None))"
    using Cons.prems by (intro Cons.IH) (auto simp: bt_wf_insert)
  with step show ?case by (auto split: if_splits)
qed auto

lemma relax_spec:
  assumes "\<forall>e \<in> set es. edge_target e \<in> N"
    and "\<forall>j. bt_get d j = (if j \<in> N then Some (into es j + c j) else None)"
  shows "\<exists>d' q'. relax es d q = Returns (d', q') \<and>
    (\<forall>j. bt_get d' j = (if j \<in> N then Some (c j) else None)) \<and>
    set q' = set q \<union> {j \<in> edge_target ` set es. c j = 0} \<and>
    (distinct q \<and> set q \<inter> {j \<in> edge_target ` set es. c j = 0} = {} \<longrightarrow> distinct q')"
  using assms
proof (induction es arbitrary: d q)
  case (Cons e es)
  define t where "t = edge_target e"
  define d1 where "d1 = bt_insert t (into es t + c t) d"
  define q1 where "q1 = (if into es t + c t = 0 then t # q else q)"
  have step: "relax (e # es) d q = relax es d1 q1"
    using Cons.prems by (simp add: t_def d1_def q1_def)
  have d1: "\<forall>j. bt_get d1 j = (if j \<in> N then Some (into es j + c j) else None)"
    using Cons.prems by (simp add: d1_def t_def)
  obtain d' q' where r: "relax es d1 q1 = Returns (d', q')"
    "\<forall>j. bt_get d' j = (if j \<in> N then Some (c j) else None)"
    "set q' = set q1 \<union> {j \<in> edge_target ` set es. c j = 0}"
    "distinct q1 \<and> set q1 \<inter> {j \<in> edge_target ` set es. c j = 0} = {} \<longrightarrow> distinct q'"
    using Cons.IH [OF _ d1, of q1] Cons.prems(1) by auto
  have "t \<in> edge_target ` set es \<longleftrightarrow> into es t \<noteq> 0" by (auto simp: into_zero)
  then have "set q' = set q \<union> {j \<in> edge_target ` set (e # es). c j = 0}"
    using r(3) by (auto simp: q1_def t_def [symmetric])
  moreover have "distinct q'"
    if "distinct q" "set q \<inter> {j \<in> edge_target ` set (e # es). c j = 0} = {}"
    using that r(4) \<open>t \<in> edge_target ` set es \<longleftrightarrow> into es t \<noteq> 0\<close>
    by (auto simp: q1_def t_def [symmetric] split: if_splits)
  ultimately show ?case using step r(1,2) by auto
qed auto

section \<open>The loop invariant\<close>

definition open_edges :: "abstract_edge list \<Rightarrow> cfg_node_id list \<Rightarrow> abstract_edge list" where
  "open_edges es order = filter (\<lambda>e. edge_source e \<notin> set order) es"

definition in_order :: "abstract_edge list \<Rightarrow> cfg_node_id list \<Rightarrow> bool" where
  "in_order es order \<longleftrightarrow> (\<forall>i < length order. \<forall>e \<in> set es.
     edge_target e = order ! i \<longrightarrow> edge_source e \<in> set (take i order))"

lemma in_order_snoc:
  "in_order es order \<Longrightarrow> \<forall>e \<in> set es. edge_target e = n \<longrightarrow> edge_source e \<in> set order \<Longrightarrow>
    in_order es (order @ [n])"
  by (auto simp: in_order_def nth_append less_Suc_eq)

definition kahn_inv ::
  "abstract_edge list \<Rightarrow> cfg_node_id set \<Rightarrow> (cfg_node_id, nat) btree \<Rightarrow> cfg_node_id list
    \<Rightarrow> cfg_node_id list \<Rightarrow> bool" where
  "kahn_inv es N d q order \<longleftrightarrow>
     (\<forall>j. bt_get d j = (if j \<in> N then Some (into (open_edges es order) j) else None)) \<and>
     distinct (order @ q) \<and> set (order @ q) = {j \<in> N. into (open_edges es order) j = 0} \<and>
     in_order es order"

lemma into_open_split:
  "n \<notin> set order \<Longrightarrow> into (open_edges es order) j
    = into (filter (\<lambda>e. edge_source e = n) es) j + into (open_edges es (order @ [n])) j"
  by (induction es) (auto simp: open_edges_def)

lemma kahn_inv_step:
  assumes inv: "kahn_inv es N d (n # q) order" and targets: "\<forall>e \<in> set es. edge_target e \<in> N"
  shows "\<exists>d' q'. relax (filter (\<lambda>e. edge_source e = n) es) d q = Returns (d', q')
    \<and> kahn_inv es N d' q' (order @ [n])"
proof -
  let ?out = "filter (\<lambda>e. edge_source e = n) es"
  let ?c = "into (open_edges es (order @ [n]))"
  have fresh: "n \<notin> set order" "distinct q" "distinct order" "set order \<inter> set q = {}" "n \<notin> set q"
    using inv by (auto simp: kahn_inv_def)
  note split = into_open_split [OF fresh(1), of es]
  have closed: "set (order @ n # q) = {j \<in> N. into ?out j + ?c j = 0}"
    using inv by (simp add: kahn_inv_def split)
  have deg: "\<forall>j. bt_get d j = (if j \<in> N then Some (into ?out j + ?c j) else None)"
    using inv by (simp add: kahn_inv_def split)
  define new where "new = {j \<in> edge_target ` set ?out. ?c j = 0}"
  have new_iff: "j \<in> new \<longleftrightarrow> into ?out j \<noteq> 0 \<and> ?c j = 0" for j
    unfolding new_def into_zero [of ?out] by blast
  have disj: "set (order @ n # q) \<inter> new = {}" unfolding closed by (auto simp: new_iff)
  obtain d' q' where r: "relax ?out d q = Returns (d', q')"
    "\<forall>j. bt_get d' j = (if j \<in> N then Some (?c j) else None)"
    "set q' = set q \<union> new" "distinct q \<and> set q \<inter> new = {} \<longrightarrow> distinct q'"
    using relax_spec [of ?out N d ?c q] targets deg unfolding new_def by auto
  have "new \<subseteq> N" using targets by (auto simp: new_def)
  then have "set ((order @ [n]) @ q') = {j \<in> N. ?c j = 0}"
    using r(3) closed by (auto simp: new_iff)
  moreover have "distinct ((order @ [n]) @ q')" using r(3,4) fresh disj by auto
  moreover have "in_order es (order @ [n])"
  proof (rule in_order_snoc)
    show "in_order es order" using inv by (simp add: kahn_inv_def)
    have "into (open_edges es order) n = 0" using inv by (auto simp: kahn_inv_def)
    then show "\<forall>e \<in> set es. edge_target e = n \<longrightarrow> edge_source e \<in> set order"
      by (auto simp: into_zero open_edges_def)
  qed
  ultimately have "kahn_inv es N d' q' (order @ [n])" using r(2) by (simp add: kahn_inv_def)
  with r(1) show ?thesis by blast
qed

lemma kahn_total:
  "kahn_inv es N d q order \<Longrightarrow> \<forall>e \<in> set es. edge_target e \<in> N \<Longrightarrow>
    \<exists>d' order'. kahn es d q order = Returns order' \<and> kahn_inv es N d' [] order'"
proof (induction es d q order rule: kahn.induct)
  case (2 es d n q order)
  obtain d' q' where "relax (filter (\<lambda>e. edge_source e = n) es) d q = Returns (d', q')"
    "kahn_inv es N d' q' (order @ [n])" using kahn_inv_step [OF "2.prems"] by blast
  with 2 show ?case by auto
qed auto

lemma kahn_order_returns:
  assumes "sorted_wrt (<) ids" "\<forall>e \<in> set es. edge_target e \<in> set ids"
  shows "\<exists>d order. kahn_inv es (set ids) d [] order \<and>
    kahn_order ids es = Returns (if length order = length ids then Some order else None)"
proof -
  let ?d0 = "foldl (\<lambda>m i. bt_insert i 0 m) [] ids :: (cfg_node_id, nat) btree"
  have d0: "bt_wf ?d0" "\<forall>j. bt_get ?d0 j = (if j \<in> set ids then Some ((\<lambda>_. 0) j) else None)"
    using bt.wf_fill [of "[]" "\<lambda>_. 0" ids] bt.get_fill [of "\<lambda>_. 0" "[]" ids]
    by (auto simp: bt_wf_def)
  obtain d where d: "count_edges es ?d0 = Returns d" "bt_wf d"
    "\<forall>j. bt_get d j = (if j \<in> set ids then Some (into es j) else None)"
    using count_edges_spec [OF assms(2) d0(2,1)] by auto
  define q where "q = rev (map fst (filter (\<lambda>(i, degree). degree = 0) d))"
  have "distinct (map fst d)" using d(2) by (simp add: bt_wf_def strict_sorted_iff)
  then have "distinct q" by (simp add: q_def distinct_map_filter)
  moreover have "set q = {j \<in> set ids. into es j = 0}"
  proof -
    have "j \<in> set q \<longleftrightarrow> bt_get d j = Some 0" for j
      using d(2) by (force simp: q_def bt_get_in)
    then show ?thesis using d(3) by (auto split: if_splits)
  qed
  ultimately have "kahn_inv es (set ids) d q []"
    using d(3) by (simp add: kahn_inv_def open_edges_def in_order_def)
  then obtain d' order where "kahn es d q [] = Returns order" "kahn_inv es (set ids) d' [] order"
    using kahn_total [of es "set ids" d q "[]"] assms(2) by blast
  with d(1) show ?thesis by (auto simp: kahn_order_def q_def Let_def)
qed

section \<open>What the order means\<close>

definition flow :: "abstract_edge list \<Rightarrow> (cfg_node_id \<times> cfg_node_id) set" where
  "flow es = (\<lambda>e. (edge_source e, edge_target e)) ` set es"

definition topological :: "cfg_node_id list \<Rightarrow> abstract_edge list \<Rightarrow> cfg_node_id list \<Rightarrow> bool" where
  "topological ids es order \<longleftrightarrow> distinct order \<and> set order = set ids \<and> in_order es order"

lemma kahn_order_sound:
  assumes "sorted_wrt (<) ids" "\<forall>e \<in> set es. edge_target e \<in> set ids"
    and "kahn_order ids es = Returns (Some order)"
  shows "topological ids es order"
proof -
  obtain d where inv: "kahn_inv es (set ids) d [] order" and len: "length order = length ids"
    using kahn_order_returns [OF assms(1,2)] assms(3) by (auto split: if_splits)
  have "set order \<subseteq> set ids" "distinct order" using inv by (auto simp: kahn_inv_def)
  moreover have "distinct ids" using assms(1) by (simp add: strict_sorted_iff)
  ultimately have "set order = set ids"
    using len by (metis card_subset_eq distinct_card finite_set)
  with inv show ?thesis by (simp add: topological_def kahn_inv_def)
qed

lemma kahn_order_complete:
  assumes "sorted_wrt (<) ids" "\<forall>e \<in> set es. edge_target e \<in> set ids \<and> edge_source e \<in> set ids"
    and "acyclic (flow es)"
  shows "\<exists>order. kahn_order ids es = Returns (Some order)"
proof -
  obtain d order where inv: "kahn_inv es (set ids) d [] order"
    and res: "kahn_order ids es = Returns (if length order = length ids then Some order else None)"
    using kahn_order_returns [OF assms(1)] assms(2) by blast
  have "set order = set ids"
  proof (rule ccontr)
    assume "set order \<noteq> set ids"
    moreover have "set order \<subseteq> set ids" using inv by (auto simp: kahn_inv_def)
    ultimately obtain x where x: "x \<in> set ids - set order" by blast
    have "wf (flow es)" using assms(3) by (intro finite_acyclic_wf) (simp_all add: flow_def)
    then obtain z where z: "z \<in> set ids - set order"
      "\<And>y. (y, z) \<in> flow es \<Longrightarrow> y \<notin> set ids - set order" using wfE_min [OF _ x] by metis
    then have "into (open_edges es order) z \<noteq> 0" using inv by (auto simp: kahn_inv_def)
    then obtain e where "e \<in> set es" "edge_source e \<notin> set order" "edge_target e = z"
      by (auto simp: into_zero open_edges_def)
    with z(2) [of "edge_source e"] assms(2) show False by (auto simp: flow_def)
  qed
  then have "length order = length ids"
    using inv assms(1) by (simp add: kahn_inv_def strict_sorted_iff flip: distinct_card)
  with res show ?thesis by auto
qed

lemma list_position:
  assumes "distinct xs"
  obtains pos :: "'a \<Rightarrow> nat" where "\<And>i y. i < length xs \<Longrightarrow> y \<in> set (take i xs) \<Longrightarrow> pos y < pos (xs ! i)"
proof -
  define pos where "pos x = (LEAST i. i < length xs \<and> xs ! i = x)" for x
  have pos: "pos (xs ! i) = i" if "i < length xs" for i
    unfolding pos_def using that assms
    by (intro Least_equality) (auto simp: nth_eq_iff_index_eq)
  have "pos y < pos (xs ! i)" if "i < length xs" "y \<in> set (take i xs)" for i y
    using that pos by (auto simp: in_set_conv_nth)
  with that show thesis by blast
qed

lemma topological_acyclic:
  assumes "topological ids es order" "\<forall>e \<in> set es. edge_target e \<in> set ids"
  shows "acyclic (flow es)"
proof -
  obtain pos :: "cfg_node_id \<Rightarrow> nat" where
    pos: "\<And>i y. i < length order \<Longrightarrow> y \<in> set (take i order) \<Longrightarrow> pos y < pos (order ! i)"
    using assms(1) list_position unfolding topological_def by metis
  have "pos (edge_source e) < pos (edge_target e)" if e: "e \<in> set es" for e
  proof -
    have "edge_target e \<in> set order" using assms e by (simp add: topological_def)
    then obtain i where i: "i < length order" "order ! i = edge_target e"
      by (auto simp: in_set_conv_nth)
    then have "edge_source e \<in> set (take i order)"
      using assms(1) e by (simp add: topological_def in_order_def)
    with i pos show ?thesis by metis
  qed
  then have "flow es \<subseteq> measure pos" by (auto simp: flow_def)
  then show ?thesis by (rule acyclic_subset [OF wf_acyclic [OF wf_measure]])
qed

end
