(* ===== verification/Back_Edges.thy ===== *)
theory Back_Edges
  imports Topology
begin

text \<open>
  \<open>detect_back_edges\<close> (\<open>src/cfg/abstract_cfg.rs\<close>): the depth-first search from the entry.  It
  returns, every reported edge closes a cycle, and without the reported edges the part of the
  graph that the entry reaches is acyclic.
\<close>

type_synonym dfs_state = "cfg_node_id set \<times> cfg_node_id set \<times> cfg_edge_id list"

text \<open>
  \<open>detect_back_edges_from\<close> with its loop as \<open>detect_back_edges_over\<close>; the fuel bounds the depth
  of the recursion.
\<close>

fun detect_back_edges_from ::
    "nat \<Rightarrow> abstract_cfg \<Rightarrow> cfg_node_id \<Rightarrow> dfs_state \<Rightarrow> dfs_state option"
  and detect_back_edges_over ::
    "nat \<Rightarrow> abstract_cfg \<Rightarrow> cfg_edge_id list \<Rightarrow> dfs_state \<Rightarrow> dfs_state option" where
  "detect_back_edges_from 0 self node st = None"
| "detect_back_edges_from (Suc fuel) self node (visited, stack, back_edges) =
     (case detect_back_edges_over fuel self (outgoing_edges self node)
         (insert node visited, insert node stack, back_edges) of
        None \<Rightarrow> None
      | Some (visited, stack, back_edges) \<Rightarrow> Some (visited, stack - {node}, back_edges))"
| "detect_back_edges_over fuel self [] st = Some st"
| "detect_back_edges_over fuel self (i # is) (visited, stack, back_edges) =
     (case cfg_edge self i of
        Inl _ \<Rightarrow> detect_back_edges_over fuel self is (visited, stack, back_edges)
      | Inr edge \<Rightarrow>
          if edge_target edge \<in> stack then
            detect_back_edges_over fuel self is (visited, stack, back_edges @ [edge_id edge])
          else if edge_target edge \<notin> visited then
            (case detect_back_edges_from fuel self (edge_target edge) (visited, stack, back_edges) of
               None \<Rightarrow> None
             | Some st \<Rightarrow> detect_back_edges_over fuel self is st)
          else detect_back_edges_over fuel self is (visited, stack, back_edges))"

definition detect_back_edges :: "abstract_cfg \<Rightarrow> cfg_edge_id list option" where
  "detect_back_edges self =
     (case detect_back_edges_from (length (node_ids self)) self (cfg_entry self) ({}, {}, []) of
        None \<Rightarrow> None
      | Some (_, _, back_edges) \<Rightarrow> Some back_edges)"

section \<open>The search invariant\<close>

abbreviation graph :: "abstract_cfg \<Rightarrow> (cfg_node_id \<times> cfg_node_id) set" where
  "graph g \<equiv> flow (all_edges g)"

text \<open>\<open>fin\<close> lists the nodes in the order in which the search has left them.\<close>

definition settled :: "abstract_cfg \<Rightarrow> cfg_edge_id list \<Rightarrow> cfg_node_id list \<Rightarrow> bool" where
  "settled g b fin \<longleftrightarrow> (\<forall>i < length fin. \<forall>e \<in> set (all_edges g). edge_source e = fin ! i \<longrightarrow>
     edge_id e \<in> set b \<or> edge_target e \<in> set (take i fin))"

definition closes_cycle :: "abstract_cfg \<Rightarrow> cfg_edge_id \<Rightarrow> bool" where
  "closes_cycle g i \<longleftrightarrow> (\<exists>e. bt_get (cfg_edges g) i = Some e \<and>
     (edge_target e, edge_source e) \<in> (graph g)\<^sup>*)"

fun dfs_inv :: "abstract_cfg \<Rightarrow> dfs_state \<Rightarrow> cfg_node_id list \<Rightarrow> bool" where
  "dfs_inv g (v, s, b) fin \<longleftrightarrow> v = s \<union> set fin \<and> s \<inter> set fin = {} \<and> distinct fin \<and>
     v \<subseteq> set (node_ids g) \<and> settled g b fin \<and> (\<forall>i \<in> set b. closes_cycle g i) \<and>
     (\<forall>i \<in> set b. \<forall>e. bt_get (cfg_edges g) i = Some e \<longrightarrow> edge_target e \<in> v)"

lemma settled_mono: "settled g b fin \<Longrightarrow> set b \<subseteq> set b' \<Longrightarrow> settled g b' fin"
  by (auto simp: settled_def)

lemma settled_snoc:
  "settled g b fin \<Longrightarrow>
    \<forall>e \<in> set (all_edges g). edge_source e = n \<longrightarrow> edge_id e \<in> set b \<or> edge_target e \<in> set fin \<Longrightarrow>
    settled g b (fin @ [n])"
  by (auto simp: settled_def nth_append less_Suc_eq)

definition covers ::
  "abstract_cfg \<Rightarrow> cfg_edge_id list \<Rightarrow> cfg_edge_id list \<Rightarrow> cfg_node_id list \<Rightarrow> bool" where
  "covers g is b fin \<longleftrightarrow> (\<forall>i \<in> set is. \<forall>e. bt_get (cfg_edges g) i = Some e \<longrightarrow>
     edge_id e \<in> set b \<or> edge_target e \<in> set fin)"

text \<open>The outcome of a (part of the) search that started in \<open>(v, s, b)\<close> with \<open>fin\<close> left.\<close>

definition search_ok ::
  "abstract_cfg \<Rightarrow> dfs_state \<Rightarrow> cfg_node_id list \<Rightarrow> dfs_state option \<Rightarrow> cfg_node_id list
    \<Rightarrow> cfg_edge_id list \<Rightarrow> bool" where
  "search_ok g st fin result new b' \<longleftrightarrow> (\<exists>v'. result = Some (v', fst (snd st), b') \<and>
     dfs_inv g (v', fst (snd st), b') (fin @ new) \<and> set (snd (snd st)) \<subseteq> set b' \<and> fst st \<subseteq> v')"

lemma graph_edge:
  assumes "cfg_wf g" "bt_get (cfg_edges g) i = Some e"
  shows "(edge_source e, edge_target e) \<in> graph g"
proof -
  have "e \<in> set (all_edges g)" using assms wf_edge(1) [OF assms] by (simp add: all_edges_iff)
  then show ?thesis by (auto simp: flow_def)
qed

lemma dfs_enter:
  "dfs_inv g (v, s, b) fin \<Longrightarrow> n \<in> set (node_ids g) - v \<Longrightarrow>
    dfs_inv g (insert n v, insert n s, b) fin"
  by auto

lemma dfs_leave:
  assumes wf: "cfg_wf g" and n: "n \<in> set (node_ids g) - v"
    and start: "dfs_inv g (v, s, b) fin"
    and over: "search_ok g (insert n v, insert n s, b) fin
      (detect_back_edges_over fuel g (outgoing_edges g n) (insert n v, insert n s, b)) new b'"
    and cov: "covers g (outgoing_edges g n) b' (fin @ new)"
  shows "search_ok g (v, s, b) fin (detect_back_edges_from (Suc fuel) g n (v, s, b)) (new @ [n]) b'"
proof -
  from over obtain v' where
    v': "detect_back_edges_over fuel g (outgoing_edges g n) (insert n v, insert n s, b)
        = Some (v', insert n s, b')" "dfs_inv g (v', insert n s, b') (fin @ new)"
      "set b \<subseteq> set b'" "insert n v \<subseteq> v'"
    by (auto simp: search_ok_def)
  have "n \<notin> s" using n start by auto
  then have s: "insert n s - {n} = s" by auto
  have "settled g b' ((fin @ new) @ [n])"
  proof (rule settled_snoc)
    show "settled g b' (fin @ new)" using v'(2) by simp
    show "\<forall>e \<in> set (all_edges g). edge_source e = n \<longrightarrow>
        edge_id e \<in> set b' \<or> edge_target e \<in> set (fin @ new)"
      using cov outgoing_edges_iff [OF wf] all_edges_iff [OF wf] unfolding covers_def by metis
  qed
  moreover have "v' = s \<union> set (fin @ new @ [n])" using v'(2) \<open>n \<notin> s\<close> by auto
  ultimately have "dfs_inv g (v', s, b') (fin @ new @ [n])"
    using v'(2) \<open>n \<notin> s\<close> by auto
  then show ?thesis using v' s by (auto simp: search_ok_def)
qed

lemma card_Diff_less_eq_fuel:
  "v \<subseteq> v' \<Longrightarrow> card (set N - v) \<le> fuel \<Longrightarrow> card (set N - v') \<le> fuel"
  by (meson Diff_mono List.finite_set card_mono finite_Diff order.trans subset_refl)

lemma search_trans:
  assumes "search_ok g st fin (Some (v1, fst (snd st), b1)) new1 b1"
    and "search_ok g (v1, fst (snd st), b1) (fin @ new1) result new2 b2"
  shows "search_ok g st fin result (new1 @ new2) b2"
  using assms by (auto simp: search_ok_def)

lemma search_refl: "dfs_inv g (v, s, b) fin \<Longrightarrow> search_ok g (v, s, b) fin (Some (v, s, b)) [] b"
  by (simp add: search_ok_def del: dfs_inv.simps)

text \<open>One edge of the loop, from the state before it to the state in which the loop goes on.\<close>

lemma dfs_report:
  assumes "dfs_inv g (v, s, b) fin" "bt_get (cfg_edges g) i = Some e" "edge_id e = i"
    and "edge_target e \<in> s" "\<forall>x \<in> s. (x, edge_source e) \<in> (graph g)\<^sup>*"
  shows "dfs_inv g (v, s, b @ [edge_id e]) fin"
proof -
  have "closes_cycle g i" using assms by (auto simp: closes_cycle_def)
  with assms show ?thesis by (auto simp: settled_def)
qed

lemma dfs_search:
  shows "cfg_wf g \<Longrightarrow> dfs_inv g st fin \<Longrightarrow> n \<in> set (node_ids g) - fst st \<Longrightarrow>
      \<forall>x \<in> fst (snd st). (x, n) \<in> (graph g)\<^sup>* \<Longrightarrow> card (set (node_ids g) - fst st) \<le> fuel \<Longrightarrow>
      \<exists>new b'. search_ok g st fin (detect_back_edges_from fuel g n st) new b' \<and> n \<in> set new"
    and "cfg_wf g \<Longrightarrow> dfs_inv g st' fin' \<Longrightarrow>
      \<forall>i \<in> set is. \<exists>e. bt_get (cfg_edges g) i = Some e \<and> edge_source e = u \<Longrightarrow>
      \<forall>x \<in> fst (snd st'). (x, u) \<in> (graph g)\<^sup>* \<Longrightarrow>
      card (set (node_ids g) - fst st') \<le> fuel' \<Longrightarrow>
      \<exists>new b'. search_ok g st' fin' (detect_back_edges_over fuel' g is st') new b' \<and>
        covers g is b' (fin' @ new)"
proof (induction fuel g n st and fuel' g "is" st' arbitrary: fin and fin' u
    rule: detect_back_edges_from_detect_back_edges_over.induct)
  case (1 g n st)
  then show ?case by (auto simp: card_eq_0_iff)
next
  case (2 fuel g n v s b)
  have n: "n \<in> set (node_ids g) - v" using "2.prems"(3) by simp
  have "card (set (node_ids g) - insert n v) < card (set (node_ids g) - v)"
    using n by (intro psubset_card_mono) auto
  then have card: "card (set (node_ids g) - insert n v) \<le> fuel" using "2.prems"(5) by simp
  obtain new b' where over: "search_ok g (insert n v, insert n s, b) fin
      (detect_back_edges_over fuel g (outgoing_edges g n) (insert n v, insert n s, b)) new b'"
    "covers g (outgoing_edges g n) b' (fin @ new)"
    using "2.IH" [OF "2.prems"(1) dfs_enter [OF "2.prems"(2) n], of n]
      "2.prems"(4) card outgoing_edges_iff [OF "2.prems"(1)] by auto
  show ?case using dfs_leave [OF "2.prems"(1) n "2.prems"(2) over] by fastforce
next
  case (3 fuel g st)
  obtain v s b where st: "st = (v, s, b)" by (cases st)
  with 3 have "search_ok g st fin' (detect_back_edges_over fuel g [] st) [] b"
    by (simp add: search_refl del: dfs_inv.simps)
  then show ?case by (auto simp: covers_def)
next
  case (4 fuel g i "is" v s b)
  note wf = "4.prems"(1) and inv = "4.prems"(2)
  obtain e where e: "bt_get (cfg_edges g) i = Some e" "edge_source e = u"
    using "4.prems"(3) by auto
  have look: "cfg_edge g i = Inr e" using e by simp
  have ids: "edge_id e = i" using wf_edge(1) [OF wf e(1)] .
  have rest: "\<forall>i \<in> set is. \<exists>e. bt_get (cfg_edges g) i = Some e \<and> edge_source e = u"
    using "4.prems"(3) by simp
  have reach: "\<forall>x \<in> s. (x, u) \<in> (graph g)\<^sup>*" and card: "card (set (node_ids g) - v) \<le> fuel"
    using "4.prems"(4,5) by simp_all
  consider (loop) "edge_target e \<in> s" | (tree) "edge_target e \<notin> s" "edge_target e \<notin> v"
    | (cross) "edge_target e \<notin> s" "edge_target e \<in> v" by blast
  then show ?case
  proof cases
    case loop
    then have "dfs_inv g (v, s, b @ [edge_id e]) fin'" using dfs_report [OF inv e(1) ids] reach e
      by (simp del: dfs_inv.simps)
    then obtain new b' where r: "search_ok g (v, s, b @ [edge_id e]) fin'
        (detect_back_edges_over fuel g is (v, s, b @ [edge_id e])) new b'"
      "covers g is b' (fin' @ new)"
      using "4.IH"(2) [OF look loop wf _ rest] reach card by (simp del: dfs_inv.simps) blast
    moreover have "detect_back_edges_over fuel g (i # is) (v, s, b)
        = detect_back_edges_over fuel g is (v, s, b @ [edge_id e])"
      using e loop by (simp add: cfg_edge_def)
    ultimately have "search_ok g (v, s, b) fin'
        (detect_back_edges_over fuel g (i # is) (v, s, b)) new b'"
      by (simp add: search_ok_def)
    moreover have "edge_id e \<in> set b'" using r(1) by (auto simp: search_ok_def)
    ultimately show ?thesis using r(2) e by (auto simp: covers_def)
  next
    case tree
    have t: "edge_target e \<in> set (node_ids g) - v" using wf_edge(4) [OF wf e(1)] tree by simp
    have "\<forall>x \<in> s. (x, edge_target e) \<in> (graph g)\<^sup>*"
      using reach graph_edge [OF wf e(1)] e(2) by (auto intro: rtrancl_into_rtrancl)
    then obtain new1 b1 where r1: "search_ok g (v, s, b) fin'
        (detect_back_edges_from fuel g (edge_target e) (v, s, b)) new1 b1"
      "edge_target e \<in> set new1"
      using "4.IH"(3) [OF look tree(1) _ wf inv] tree t card by auto
    then obtain v1 where v1: "detect_back_edges_from fuel g (edge_target e) (v, s, b)
        = Some (v1, s, b1)" "dfs_inv g (v1, s, b1) (fin' @ new1)" "v \<subseteq> v1"
      by (auto simp: search_ok_def)
    obtain new2 b2 where r2: "search_ok g (v1, s, b1) (fin' @ new1)
        (detect_back_edges_over fuel g is (v1, s, b1)) new2 b2"
      "covers g is b2 ((fin' @ new1) @ new2)"
      using "4.IH"(4) [OF look tree(1) _ v1(1) wf v1(2) rest] reach tree
        card_Diff_less_eq_fuel [OF v1(3) card] by auto
    have "search_ok g (v, s, b) fin'
        (detect_back_edges_over fuel g (i # is) (v, s, b)) (new1 @ new2) b2"
      using search_trans [of g "(v, s, b)" fin' v1 b1 new1 _ new2 b2] r1(1) r2(1) e tree v1(1)
      by (simp add: cfg_edge_def)
    moreover have "covers g (i # is) b2 (fin' @ new1 @ new2)"
      using r2(2) r1(2) e by (auto simp: covers_def)
    ultimately show ?thesis by blast
  next
    case cross
    then have "edge_target e \<in> set fin'" using inv by auto
    moreover obtain new b' where r: "search_ok g (v, s, b) fin'
        (detect_back_edges_over fuel g is (v, s, b)) new b'" "covers g is b' (fin' @ new)"
      using "4.IH"(5) [OF look cross(1) _ wf inv rest] cross(2) reach card
      by (simp del: dfs_inv.simps) blast
    moreover have "detect_back_edges_over fuel g (i # is) (v, s, b)
        = detect_back_edges_over fuel g is (v, s, b)"
      using e cross by (simp add: cfg_edge_def)
    ultimately have "search_ok g (v, s, b) fin' (detect_back_edges_over fuel g (i # is) (v, s, b)) new b'"
      "covers g (i # is) b' (fin' @ new)"
      using e by (auto simp: covers_def)
    then show ?thesis by blast
  qed
qed

section \<open>The whole search\<close>

lemma detect_back_edges_spec:
  assumes "cfg_wf g"
  shows "\<exists>b fin. detect_back_edges g = Some b \<and> dfs_inv g (set fin, {}, b) fin
    \<and> cfg_entry g \<in> set fin"
proof -
  have "card (set (node_ids g) - fst ({}, {}, [])) \<le> length (node_ids g)"
    by (simp add: card_length)
  moreover have "cfg_entry g \<in> set (node_ids g) - fst ({}, {}, [])"
    using assms by (simp add: cfg_wf_defs)
  ultimately obtain fin b where r: "search_ok g ({}, {}, []) []
      (detect_back_edges_from (length (node_ids g)) g (cfg_entry g) ({}, {}, [])) fin b"
    "cfg_entry g \<in> set fin"
    using dfs_search(1) [OF assms, of "({}, {}, [])" "[]"] by (simp add: settled_def) blast
  from r(1) obtain v where "detect_back_edges_from (length (node_ids g)) g (cfg_entry g) ({}, {}, [])
      = Some (v, {}, b)" "dfs_inv g (v, {}, b) fin" by (auto simp: search_ok_def)
  moreover from this(2) have "v = set fin" by simp
  ultimately show ?thesis using r(2) by (auto simp: detect_back_edges_def)
qed

lemma left_nodes_closed:
  assumes "cfg_wf g" "dfs_inv g (set fin, {}, b) fin" "x \<in> set fin" "(x, y) \<in> (graph g)\<^sup>*"
  shows "y \<in> set fin"
  using assms(4)
proof (induction rule: rtrancl_induct)
  case (step y z)
  then obtain e where e: "e \<in> set (all_edges g)" "edge_source e = y" "edge_target e = z"
    by (auto simp: flow_def)
  from step.IH obtain i where i: "i < length fin" "fin ! i = y" by (auto simp: in_set_conv_nth)
  have "settled g b fin" using assms(2) by simp
  with e i have "edge_id e \<in> set b \<or> z \<in> set (take i fin)" unfolding settled_def by metis
  then show ?case
  proof
    assume "edge_id e \<in> set b"
    then show ?thesis using assms(2) e all_edges_iff [OF assms(1), of e] by auto
  qed (rule in_set_takeD)
qed (rule assms(3))

lemma forward_edges_acyclic:
  assumes "dfs_inv g (set fin, {}, b) fin"
    and "\<forall>e \<in> set es. e \<in> set (all_edges g) \<and> edge_id e \<notin> set b \<and> edge_source e \<in> set fin"
  shows "acyclic (flow es)"
proof -
  have "distinct fin" and settled: "settled g b fin" using assms(1) by simp_all
  from list_position [OF this(1)] obtain pos :: "cfg_node_id \<Rightarrow> nat" where
    pos: "\<And>i y. i < length fin \<Longrightarrow> y \<in> set (take i fin) \<Longrightarrow> pos y < pos (fin ! i)"
    by metis
  have "pos (edge_target e) < pos (edge_source e)" if e: "e \<in> set es" for e
  proof -
    obtain i where i: "i < length fin" "fin ! i = edge_source e"
      using assms(2) e in_set_conv_nth [of "edge_source e" fin] by metis
    then have "edge_target e \<in> set (take i fin)"
      using settled assms(2) e unfolding settled_def by metis
    with pos i show ?thesis by metis
  qed
  then have "(flow es)\<inverse> \<subseteq> measure pos" by (auto simp: flow_def)
  then have "acyclic ((flow es)\<inverse>)" by (rule acyclic_subset [OF wf_acyclic [OF wf_measure]])
  then show ?thesis by simp
qed

section \<open>Properties\<close>

definition kept_edges :: "cfg_edge_id set \<Rightarrow> abstract_cfg \<Rightarrow> abstract_edge list" where
  "kept_edges excluded g = filter (\<lambda>e. edge_id e \<notin> excluded) (all_edges g)"

lemma wf_kept:
  assumes "cfg_wf g"
  shows "sorted_wrt (<) (node_ids g)"
    and "\<forall>e \<in> set (kept_edges ex g). edge_target e \<in> set (node_ids g) \<and> edge_source e \<in> set (node_ids g)"
  using assms all_edges_nodes [OF assms]
  by (auto simp: cfg_wf_defs bt_wf_def node_ids_def bt_keys_def kept_edges_def)

lemma order_cases:
  assumes "cfg_wf g"
  shows "(\<exists>order. topological_order_excluding ex g = Returns (Some order) \<and>
      topological (node_ids g) (kept_edges ex g) order \<and> acyclic (flow (kept_edges ex g)))
    \<or> (topological_order_excluding ex g = Returns None \<and> \<not> acyclic (flow (kept_edges ex g)))"
proof -
  note wf = wf_kept(1) [OF assms] wf_kept(2) [OF assms, of ex]
  have def: "topological_order_excluding ex g = kahn_order (node_ids g) (kept_edges ex g)"
    by (simp add: topological_order_excluding_def kept_edges_def)
  have targets: "\<forall>e \<in> set (kept_edges ex g). edge_target e \<in> set (node_ids g)" using wf(2) by blast
  obtain r where r: "kahn_order (node_ids g) (kept_edges ex g) = Returns r"
    using kahn_order_returns [OF wf(1) targets] by blast
  show ?thesis
  proof (cases r)
    case None
    then have "\<not> acyclic (flow (kept_edges ex g))"
      using r kahn_order_complete [OF wf] by auto
    with None r def show ?thesis by simp
  next
    case (Some order)
    then have "topological (node_ids g) (kept_edges ex g) order"
      using r kahn_order_sound [OF wf(1) targets] by simp
    moreover from this have "acyclic (flow (kept_edges ex g))" using targets
      by (rule topological_acyclic)
    ultimately show ?thesis using Some r def by simp
  qed
qed

lemma topological_order_all: "topological_order g = topological_order_excluding {} g" "kept_edges {} g = all_edges g"
  by (simp_all add: topological_order_def topological_order_excluding_def kept_edges_def)

text \<open>
  C15: Kahn's algorithm never panics on a well-formed graph, over all edges and over those that are not
  excluded.  It returns an order exactly when the edges form no cycle, and the order lists every
  node once with the source of each edge before its target.
\<close>

theorem topological_order_correct:
  assumes "cfg_wf g"
  shows "(\<exists>r. topological_order g = Returns r \<and> (r \<noteq> None \<longleftrightarrow> acyclic (graph g)) \<and>
      (\<forall>order. r = Some order \<longrightarrow> topological (node_ids g) (all_edges g) order)) \<and>
    (\<exists>r. topological_order_excluding ex g = Returns r \<and> (r \<noteq> None \<longleftrightarrow> acyclic (flow (kept_edges ex g))) \<and>
      (\<forall>order. r = Some order \<longrightarrow> topological (node_ids g) (kept_edges ex g) order))"
proof -
  have "\<exists>r. topological_order_excluding x g = Returns r \<and> (r \<noteq> None \<longleftrightarrow> acyclic (flow (kept_edges x g))) \<and>
      (\<forall>order. r = Some order \<longrightarrow> topological (node_ids g) (kept_edges x g) order)" for x
    using order_cases [OF assms, of x] by auto
  from this [of "{}"] this [of ex] show ?thesis unfolding topological_order_all by blast
qed

text \<open>A loop: entry 0, header 1, body 2, exit 3, back edge 2.\<close>

definition example_node :: "nat \<Rightarrow> abstract_node" where
  "example_node i = \<lparr>node_id = i, node_label = [], node_kind = Normal, node_location = None,
     node_transfer = transfer_identity, node_pre = FTrue, node_post = FTrue\<rparr>"

definition example_edge :: "nat \<Rightarrow> nat \<Rightarrow> nat \<Rightarrow> abstract_edge" where
  "example_edge i s t = \<lparr>edge_id = i, edge_source = s, edge_target = t, edge_guard = FTrue,
     edge_effects = []\<rparr>"

definition example_loop :: abstract_cfg where
  "example_loop = \<lparr>cfg_nodes = map (\<lambda>i. (i, example_node i)) [0, 1, 2, 3],
     cfg_edges = [(0, example_edge 0 0 1), (1, example_edge 1 1 2), (2, example_edge 2 2 1),
       (3, example_edge 3 1 3)],
     cfg_entry = 0, concrete_exits = [3], cfg_exit = None, next_node = 4, next_edge = 4\<rparr>"

lemma example_loop_wf: "cfg_wf example_loop"
  by (auto simp: cfg_wf_defs example_loop_def example_node_def example_edge_def bt_wf_def
      node_ids_def bt_keys_def)

theorem topological_order_witness:
  "topological_order example_loop = Returns None \<and> \<not> acyclic (graph example_loop)
    \<and> topological_order_excluding {2} example_loop = Returns (Some [0, 1, 3, 2])
    \<and> topological (node_ids example_loop) (kept_edges {2} example_loop) [0, 1, 3, 2]
    \<and> acyclic (flow (kept_edges {2} example_loop))"
proof -
  have "topological_order_excluding {2} example_loop = Returns (Some [0, 1, 3, 2])"
    "topological_order example_loop = Returns None" by code_simp+
  with topological_order_correct [OF example_loop_wf, of "{2}"] show ?thesis by auto
qed

lemma back_edges_break_cycles:
  assumes "cfg_wf g"
  shows "\<exists>b. detect_back_edges g = Some b \<and> (\<forall>i \<in> set b. closes_cycle g i) \<and>
    acyclic {(s, t) \<in> flow (kept_edges (set b) g). (cfg_entry g, s) \<in> (graph g)\<^sup>*} \<and>
    ((\<forall>n \<in> set (node_ids g). (cfg_entry g, n) \<in> (graph g)\<^sup>*) \<longrightarrow>
      (\<exists>order. topological_order_excluding (set b) g = Returns (Some order)))"
proof -
  obtain b fin where b: "detect_back_edges g = Some b" "dfs_inv g (set fin, {}, b) fin"
    "cfg_entry g \<in> set fin" using detect_back_edges_spec [OF assms] by blast
  let ?es = "filter (\<lambda>e. (cfg_entry g, edge_source e) \<in> (graph g)\<^sup>*) (kept_edges (set b) g)"
  have "acyclic (flow ?es)"
    using left_nodes_closed [OF assms b(2,3)] by (intro forward_edges_acyclic [OF b(2)]) (auto simp: kept_edges_def)
  moreover have "flow ?es = {(s, t) \<in> flow (kept_edges (set b) g). (cfg_entry g, s) \<in> (graph g)\<^sup>*}"
    by (auto simp: flow_def)
  ultimately have reachable: "acyclic {(s, t) \<in> flow (kept_edges (set b) g). (cfg_entry g, s) \<in> (graph g)\<^sup>*}" by simp
  have "\<exists>order. topological_order_excluding (set b) g = Returns (Some order)"
    if "\<forall>n \<in> set (node_ids g). (cfg_entry g, n) \<in> (graph g)\<^sup>*"
  proof -
    have "set (node_ids g) \<subseteq> set fin" using that left_nodes_closed [OF assms b(2,3)] by blast
    then have "acyclic (flow (kept_edges (set b) g))"
      using wf_kept(2) [OF assms, of "set b"]
      by (intro forward_edges_acyclic [OF b(2)]) (auto simp: kept_edges_def)
    with order_cases [OF assms, of "set b"] show ?thesis by blast
  qed
  with b reachable show ?thesis by auto
qed

text \<open>
  C16: the search for back edges returns on every well-formed graph; each edge it reports closes
  a cycle, and the edges that leave nodes the entry reaches form no cycle once the reported ones are
  excluded.  When the entry reaches every node, the graph then has a topological order.
\<close>

theorem detect_back_edges_correct:
  assumes "cfg_wf g"
  shows "\<exists>b. detect_back_edges g = Some b \<and> (\<forall>i \<in> set b. closes_cycle g i) \<and>
    acyclic {(s, t) \<in> flow (kept_edges (set b) g). (cfg_entry g, s) \<in> (graph g)\<^sup>*} \<and>
    ((\<forall>n \<in> set (node_ids g). (cfg_entry g, n) \<in> (graph g)\<^sup>*) \<longrightarrow>
      (\<exists>order. topological_order_excluding (set b) g = Returns (Some order)))"
  by (rule back_edges_break_cycles [OF assms])

theorem detect_back_edges_witness:
  "detect_back_edges example_loop = Some [2] \<and> closes_cycle example_loop 2 \<and>
    (\<exists>order. topological_order_excluding {2} example_loop = Returns (Some order))"
proof -
  have b: "detect_back_edges example_loop = Some [2]" by code_simp
  have e: "(0, 1) \<in> graph example_loop" "(1, 2) \<in> graph example_loop"
    "(1, 3) \<in> graph example_loop"
    by (auto simp: flow_def example_loop_def example_edge_def bt_values_def)
  then have "\<forall>n \<in> set (node_ids example_loop). (cfg_entry example_loop, n) \<in> (graph example_loop)\<^sup>*"
    by (auto simp: example_loop_def node_ids_def bt_keys_def intro: rtrancl.rtrancl_refl
        dest: r_into_rtrancl rtrancl_into_rtrancl)
  with detect_back_edges_correct [OF example_loop_wf] b show ?thesis by auto
qed

end
