(* ===== verification/Summaries.thy ===== *)
theory Summaries
  imports Oracle
begin

text \<open>
  Queries, procedure summaries, subsumption and the contextual summary table
  (\<open>src/analysis/interproc/query.rs\<close>, \<open>src/analysis/interproc/summaries.rs\<close>).  A merge returns
  its result together with the table it leaves: an oracle error during the second loop of a
  merge drops the drained entries, as in the source.  The locale \<open>covering\<close> is the contract
  between the merge and a kind of summary.
\<close>

section \<open>Data\<close>

type_synonym procedure_name = string

record query =
  query_procedure :: procedure_name
  query_pre :: formula
  query_post :: formula

definition query_new :: "procedure_name \<Rightarrow> formula \<Rightarrow> formula \<Rightarrow> query" where
  "query_new procedure pre post =
     \<lparr>query_procedure = procedure, query_pre = pre, query_post = post\<rparr>"

record notmay_summary =
  notmay_precondition :: formula
  notmay_postcondition :: formula

record may_summary =
  may_precondition :: formula
  may_postcondition :: formula

record must_summary =
  must_precondition :: formula
  must_postcondition :: formula

datatype query_result =
    NotReachable notmay_summary
  | Reachable must_summary "smt_model option"
  | QueryUnknown

datatype subsumption = Covers | DoesNotCover | OracleUnknown

definition is_covering :: "subsumption \<Rightarrow> bool" where
  "is_covering self \<longleftrightarrow> self = Covers"

section \<open>Subsumption\<close>

definition implies_with_shortcuts :: "solver \<Rightarrow> formula \<Rightarrow> formula \<Rightarrow> formula_error + subsumption"
where
  "implies_with_shortcuts z lhs rhs =
     (if lhs = rhs then Inr Covers
      else if lhs = FFalse then Inr Covers
      else if rhs = FTrue then Inr Covers
      else rbind (oracle_implies z lhs rhs) (\<lambda>v.
        Inr (case v of
            Valid \<Rightarrow> Covers | Invalid \<Rightarrow> DoesNotCover | ValidityUnknown \<Rightarrow> OracleUnknown)))"

definition notmay_covers :: "solver \<Rightarrow> notmay_summary \<Rightarrow> query \<Rightarrow> formula_error + subsumption" where
  "notmay_covers z s q =
     rbind (implies_with_shortcuts z (query_pre q) (notmay_precondition s)) (\<lambda>pre_ok.
       if pre_ok \<noteq> Covers then Inr pre_ok
       else implies_with_shortcuts z (query_post q) (notmay_postcondition s))"

definition must_covers :: "solver \<Rightarrow> must_summary \<Rightarrow> query \<Rightarrow> formula_error + subsumption" where
  "must_covers z s q =
     rbind (implies_with_shortcuts z (must_precondition s) (query_pre q)) (\<lambda>pre_ok.
       if pre_ok \<noteq> Covers then Inr pre_ok
       else implies_with_shortcuts z (must_postcondition s) (query_post q))"

section \<open>The table\<close>

record summary_table =
  notmay_entries :: "(procedure_name, notmay_summary list) btree"
  must_entries :: "(procedure_name, must_summary list) btree"
  forward_may_entries :: "(procedure_name, may_summary list) btree"
  invariant_entries :: "(procedure_name, (nat \<times> formula) list) btree"

definition table_new :: summary_table where
  "table_new = \<lparr>notmay_entries = [], must_entries = [], forward_may_entries = [],
     invariant_entries = []\<rparr>"

definition get_or_empty :: "('k, 'v list) btree \<Rightarrow> 'k \<Rightarrow> 'v list" where
  "get_or_empty m k = (case bt_get m k of None \<Rightarrow> [] | Some v \<Rightarrow> v)"

definition notmay :: "summary_table \<Rightarrow> procedure_name \<Rightarrow> notmay_summary list" where
  "notmay self procedure = get_or_empty (notmay_entries self) procedure"

definition must :: "summary_table \<Rightarrow> procedure_name \<Rightarrow> must_summary list" where
  "must self procedure = get_or_empty (must_entries self) procedure"

definition forward_may :: "summary_table \<Rightarrow> procedure_name \<Rightarrow> may_summary list" where
  "forward_may self procedure = get_or_empty (forward_may_entries self) procedure"

definition or_default :: "'k::linorder \<Rightarrow> ('k, 'v list) btree \<Rightarrow> ('k, 'v list) btree" where
  "or_default k m = bt_insert k (get_or_empty m k) m"

definition init_notmay :: "procedure_name \<Rightarrow> summary_table \<Rightarrow> summary_table" where
  "init_notmay procedure self =
     self\<lparr>notmay_entries := or_default procedure (notmay_entries self)\<rparr>"

definition init_forward_may :: "procedure_name \<Rightarrow> summary_table \<Rightarrow> summary_table" where
  "init_forward_may procedure self =
     self\<lparr>forward_may_entries := or_default procedure (forward_may_entries self)\<rparr>"

definition push_entry :: "'k::linorder \<Rightarrow> 'v \<Rightarrow> ('k, 'v list) btree \<Rightarrow> bool \<times> ('k, 'v list) btree" where
  "push_entry k s m =
     (let entries = get_or_empty m k in
      if s \<in> set entries then (False, bt_insert k entries m)
      else (True, bt_insert k (entries @ [s]) m))"

definition add_notmay ::
  "procedure_name \<Rightarrow> notmay_summary \<Rightarrow> summary_table \<Rightarrow> bool \<times> summary_table" where
  "add_notmay procedure s self =
     (let (added, m) = push_entry procedure s (notmay_entries self) in
      (added, self\<lparr>notmay_entries := m\<rparr>))"

definition add_forward_may ::
  "procedure_name \<Rightarrow> may_summary \<Rightarrow> summary_table \<Rightarrow> bool \<times> summary_table" where
  "add_forward_may procedure s self =
     (let (added, m) = push_entry procedure s (forward_may_entries self) in
      (added, self\<lparr>forward_may_entries := m\<rparr>))"

definition set_loop_invariants ::
  "procedure_name \<Rightarrow> (nat \<times> formula) list \<Rightarrow> summary_table \<Rightarrow> summary_table" where
  "set_loop_invariants procedure invariants self =
     self\<lparr>invariant_entries := bt_insert procedure invariants (invariant_entries self)\<rparr>"

definition get_loop_invariants :: "summary_table \<Rightarrow> procedure_name \<Rightarrow> (nat \<times> formula) list" where
  "get_loop_invariants self procedure = get_or_empty (invariant_entries self) procedure"

definition extend_from :: "summary_table \<Rightarrow> summary_table \<Rightarrow> summary_table" where
  "extend_from other self =
     (let self = fold (\<lambda>(proc, ss) t. fold (\<lambda>s t. snd (add_notmay proc s t)) ss t)
            (notmay_entries other) self;
          self = fold (\<lambda>(proc, ss) t. t\<lparr>must_entries :=
              fold (\<lambda>s m. snd (push_entry proc s m)) ss (or_default proc (must_entries t))\<rparr>)
            (must_entries other) self;
          self = fold (\<lambda>(proc, ss) t. fold (\<lambda>s t. snd (add_forward_may proc s t)) ss t)
            (forward_may_entries other) self
      in fold (\<lambda>(proc, invs) t.
            if bt_get (invariant_entries t) proc = None
            then t\<lparr>invariant_entries := bt_insert proc invs (invariant_entries t)\<rparr> else t)
          (invariant_entries other) self)"

definition all_procedure_names :: "summary_table \<Rightarrow> procedure_name list" where
  "all_procedure_names self = remdups_adj (sort (bt_keys (notmay_entries self)
     @ bt_keys (must_entries self) @ bt_keys (forward_may_entries self)
     @ bt_keys (invariant_entries self)))"

section \<open>Merging\<close>

text \<open>
  \<open>merge_notmay\<close> and \<open>merge_must\<close> differ in the covering test only.  The first loop stops at a
  covering entry; the second keeps what the new summary does not cover.
\<close>

fun any_covers :: "('a \<Rightarrow> 'a \<Rightarrow> 'e + subsumption) \<Rightarrow> 'a list \<Rightarrow> 'a \<Rightarrow> 'e + bool" where
  "any_covers cov [] new = Inr False"
| "any_covers cov (existing # rest) new =
     rbind (cov existing new) (\<lambda>c. if c = Covers then Inr True else any_covers cov rest new)"

fun keep_uncovered :: "('a \<Rightarrow> 'a \<Rightarrow> 'e + subsumption) \<Rightarrow> 'a \<Rightarrow> 'a list \<Rightarrow> 'e + 'a list" where
  "keep_uncovered cov new [] = Inr []"
| "keep_uncovered cov new (existing # rest) =
     rbind (cov new existing) (\<lambda>c. rbind (keep_uncovered cov new rest) (\<lambda>kept.
       Inr (if c \<noteq> Covers then existing # kept else kept)))"

definition merge_entries ::
  "('a \<Rightarrow> 'a \<Rightarrow> 'e + subsumption) \<Rightarrow> 'a \<Rightarrow> 'a list \<Rightarrow> ('e + bool) \<times> 'a list" where
  "merge_entries cov new entries =
     (case any_covers cov entries new of
        Inl e \<Rightarrow> (Inl e, entries)
      | Inr True \<Rightarrow> (Inr False, entries)
      | Inr False \<Rightarrow>
          (case keep_uncovered cov new entries of
             Inl e \<Rightarrow> (Inl e, [])
           | Inr kept \<Rightarrow> (Inr True, kept @ [new])))"

definition notmay_as_query :: "notmay_summary \<Rightarrow> query" where
  "notmay_as_query s = query_new [] (notmay_precondition s) (notmay_postcondition s)"

definition must_as_query :: "must_summary \<Rightarrow> query" where
  "must_as_query s = query_new [] (must_precondition s) (must_postcondition s)"

definition merge_notmay ::
  "solver \<Rightarrow> procedure_name \<Rightarrow> notmay_summary \<Rightarrow> summary_table
    \<Rightarrow> (formula_error + bool) \<times> summary_table" where
  "merge_notmay z procedure new_summary self =
     (let (r, entries) = merge_entries (\<lambda>s q. notmay_covers z s (notmay_as_query q)) new_summary
            (get_or_empty (notmay_entries self) procedure)
      in (r, self\<lparr>notmay_entries := bt_insert procedure entries (notmay_entries self)\<rparr>))"

definition merge_must ::
  "solver \<Rightarrow> procedure_name \<Rightarrow> must_summary \<Rightarrow> summary_table
    \<Rightarrow> (formula_error + bool) \<times> summary_table" where
  "merge_must z procedure new_summary self =
     (let (r, entries) = merge_entries (\<lambda>s q. must_covers z s (must_as_query q)) new_summary
            (get_or_empty (must_entries self) procedure)
      in (r, self\<lparr>must_entries := bt_insert procedure entries (must_entries self)\<rparr>))"

fun first_covering :: "('a \<Rightarrow> 'q \<Rightarrow> 'e + subsumption) \<Rightarrow> 'a list \<Rightarrow> 'q \<Rightarrow> 'e + 'a option" where
  "first_covering cov [] q = Inr None"
| "first_covering cov (s # rest) q =
     rbind (cov s q) (\<lambda>c. if c = Covers then Inr (Some s) else first_covering cov rest q)"

definition lookup_notmay_covering ::
  "solver \<Rightarrow> query \<Rightarrow> summary_table \<Rightarrow> formula_error + notmay_summary option" where
  "lookup_notmay_covering z q self =
     first_covering (notmay_covers z) (notmay self (query_procedure q)) q"

definition lookup_must_covering ::
  "solver \<Rightarrow> query \<Rightarrow> summary_table \<Rightarrow> formula_error + must_summary option" where
  "lookup_must_covering z q self =
     first_covering (must_covers z) (must self (query_procedure q)) q"

section \<open>The covering contract\<close>

text \<open>\<open>below q s\<close>: whatever \<open>s\<close> answers, it answers for \<open>q\<close>.\<close>

locale covering =
  fixes cov :: "'a \<Rightarrow> 'a \<Rightarrow> 'e + subsumption"
    and below :: "'a \<Rightarrow> 'a \<Rightarrow> bool"
  assumes below_refl: "below q q"
    and below_trans: "below p q \<Longrightarrow> below q r \<Longrightarrow> below p r"
    and cov_below: "cov s q = Inr Covers \<Longrightarrow> below q s"
begin

lemma any_covers_below: "any_covers cov es q = Inr True \<Longrightarrow> \<exists>s \<in> set es. below q s"
  by (induction es) (auto simp: rbind_eq_Inr cov_below split: if_splits)

lemma keep_uncovered_set:
  "keep_uncovered cov new es = Inr kept \<Longrightarrow>
    set kept \<subseteq> set es \<and> (\<forall>s \<in> set es. s \<in> set kept \<or> below s new)"
  by (induction es arbitrary: kept) (fastforce simp: rbind_eq_Inr cov_below split: if_splits)+

lemma merge_set:
  "merge_entries cov new es = (r, es') \<Longrightarrow> set es' \<subseteq> insert new (set es)"
  by (auto simp: merge_entries_def dest!: keep_uncovered_set split: sum.splits bool.splits)

lemma merge_covers:
  assumes "merge_entries cov new es = (Inr b, es')" "s \<in> insert new (set es)"
  shows "\<exists>t \<in> set es'. below s t"
proof (cases "any_covers cov es new")
  case (Inr found)
  show ?thesis
  proof (cases found)
    case True
    then have "es' = es" using assms(1) Inr by (simp add: merge_entries_def)
    moreover have "\<exists>s \<in> set es. below new s" using any_covers_below [of es new] Inr True by simp
    ultimately show ?thesis using assms(2) below_refl by blast
  next
    case False
    with assms(1) Inr obtain kept where "keep_uncovered cov new es = Inr kept" "es' = kept @ [new]"
      by (auto simp: merge_entries_def split: sum.splits)
    moreover from this(1) have "\<forall>s \<in> set es. s \<in> set kept \<or> below s new"
      by (simp add: keep_uncovered_set)
    ultimately show ?thesis using assms(2) below_refl by auto
  qed
qed (use assms(1) in \<open>simp add: merge_entries_def\<close>)

lemma merge_keeps_covered:
  "merge_entries cov new es = (Inr b, es') \<Longrightarrow> s \<in> set es \<Longrightarrow> below q s \<Longrightarrow>
    \<exists>t \<in> set es'. below q t"
  using merge_covers below_trans by blast

end

lemma first_covering_Some:
  "first_covering cov es q = Inr (Some s) \<Longrightarrow> s \<in> set es \<and> cov s q = Inr Covers"
  by (induction es) (auto simp: rbind_eq_Inr split: if_splits)

section \<open>What a summary claims\<close>

definition entails_on :: "formula \<Rightarrow> formula \<Rightarrow> bool" where
  "entails_on f g \<longleftrightarrow> (\<forall>s. admissible s \<longrightarrow> eval_formula s f \<longrightarrow> eval_formula s g)"

lemma implies_with_shortcuts_sound:
  assumes "sound_solver z" "implies_with_shortcuts z f g = Inr Covers"
  shows "entails_on f g"
proof -
  have valid: "oracle_implies z f g = Inr Valid \<Longrightarrow> entails_on f g"
    using query_oracle.entails_valid [OF oracle_laws [OF assms(1)]] by (auto simp: entails_on_def)
  consider "f = g" | "f = FFalse" | "g = FTrue" | "oracle_implies z f g = Inr Valid"
  proof -
    assume cases: "f = g \<Longrightarrow> thesis" "f = FFalse \<Longrightarrow> thesis" "g = FTrue \<Longrightarrow> thesis"
      "oracle_implies z f g = Inr Valid \<Longrightarrow> thesis"
    have "oracle_implies z f g = Inr Valid" if "f \<noteq> g" "f \<noteq> FFalse" "g \<noteq> FTrue"
    proof -
      from assms(2) that obtain v where v: "oracle_implies z f g = Inr v"
        "(case v of Valid \<Rightarrow> Covers | Invalid \<Rightarrow> DoesNotCover | ValidityUnknown \<Rightarrow> OracleUnknown)
          = Covers"
        by (auto simp: implies_with_shortcuts_def rbind_eq_Inr)
      then show ?thesis by (cases v) simp_all
    qed
    with cases show thesis by blast
  qed
  then show ?thesis by cases (simp_all add: entails_on_def valid [unfolded entails_on_def])
qed

definition notmay_below :: "notmay_summary \<Rightarrow> notmay_summary \<Rightarrow> bool" where
  "notmay_below q s \<longleftrightarrow> entails_on (notmay_precondition q) (notmay_precondition s) \<and>
     entails_on (notmay_postcondition q) (notmay_postcondition s)"

definition must_below :: "must_summary \<Rightarrow> must_summary \<Rightarrow> bool" where
  "must_below q s \<longleftrightarrow> entails_on (must_precondition s) (must_precondition q) \<and>
     entails_on (must_postcondition s) (must_postcondition q)"

end
