(* ===== verification/Rules.thy ===== *)
theory Rules
  imports Back_Edges Summaries
begin

text \<open>
  Node summaries and the propagation rules of the bidirectional analysis
  (\<open>src/analysis/backward/node_summary.rs\<close>, \<open>src/analysis/backward/rules.rs\<close>).  An engine
  operation takes the engine and returns the changed engine or a \<open>rule_error\<close>; the SMT solver
  is an argument.  \<open>BTreeMap\<close>s are ordered association lists, the \<open>BTreeSet\<close> of blocked edges an
  ordered list.
\<close>

section \<open>Node summaries\<close>

record node_summary =
  summary_node :: cfg_node_id
  reach :: formula
  state :: formula

definition summary_unreachable :: "cfg_node_id \<Rightarrow> node_summary" where
  "summary_unreachable node = \<lparr>summary_node = node, reach = FFalse, state = FFalse\<rparr>"

definition summary_entry :: "cfg_node_id \<Rightarrow> node_summary" where
  "summary_entry node = \<lparr>summary_node = node, reach = FTrue, state = FFalse\<rparr>"

definition combined :: "node_summary \<Rightarrow> formula" where
  "combined self =
     (if reach self = FFalse \<or> state self = FFalse then FFalse
      else f_and (reach self) (state self))"

definition join_reach :: "formula \<Rightarrow> node_summary \<Rightarrow> node_summary" where
  "join_reach incoming self = self\<lparr>reach := f_or (reach self) incoming\<rparr>"

definition join_state :: "formula \<Rightarrow> node_summary \<Rightarrow> node_summary" where
  "join_state incoming self = self\<lparr>state := f_or (state self) incoming\<rparr>"

definition check_summary :: "solver \<Rightarrow> node_summary \<Rightarrow> formula_error + feasibility_report" where
  "check_summary z summary = feasibility_with_model z (combined summary)"

lemma eval_combined [simp]:
  "eval_formula s (combined n) \<longleftrightarrow> eval_formula s (reach n) \<and> eval_formula s (state n)"
  by (auto simp: combined_def)

section \<open>The engine\<close>

datatype judgement = Verified | BugFound "smt_model option" | JudgementUnknown

datatype rule_error =
    RuleUnknownEdge cfg_edge_id
  | RuleUnknownNode cfg_node_id
  | RuleOracle formula_error

record rule_engine =
  engine_cfg :: abstract_cfg
  summaries :: "(cfg_node_id, node_summary) btree"
  blocked_edges :: "cfg_edge_id list"

definition engine_new :: "abstract_cfg \<Rightarrow> rule_engine" where
  "engine_new cfg = \<lparr>engine_cfg = cfg, summaries = [], blocked_edges = []\<rparr>"

definition summary :: "rule_engine \<Rightarrow> cfg_node_id \<Rightarrow> rule_error + node_summary" where
  "summary self i =
     (case bt_get (summaries self) i of None \<Rightarrow> Inl (RuleUnknownNode i) | Some s \<Rightarrow> Inr s)"

definition summary_mut ::
  "cfg_node_id \<Rightarrow> (node_summary \<Rightarrow> node_summary) \<Rightarrow> rule_engine \<Rightarrow> rule_error + rule_engine" where
  "summary_mut i write self =
     (case bt_get (summaries self) i of
        None \<Rightarrow> Inl (RuleUnknownNode i)
      | Some s \<Rightarrow> Inr (self\<lparr>summaries := bt_insert i (write s) (summaries self)\<rparr>))"

definition blocked_count :: "rule_engine \<Rightarrow> nat" where
  "blocked_count self = length (blocked_edges self)"

definition is_blocked :: "rule_engine \<Rightarrow> cfg_edge_id \<Rightarrow> bool" where
  "is_blocked self edge \<longleftrightarrow> edge \<in> set (blocked_edges self)"

definition block_edge :: "cfg_edge_id \<Rightarrow> rule_engine \<Rightarrow> rule_engine" where
  "block_edge edge self = self\<lparr>blocked_edges := insort_insert edge (blocked_edges self)\<rparr>"

definition engine_init :: "rule_engine \<Rightarrow> rule_engine" where
  "engine_init self = self\<lparr>summaries :=
     foldl (\<lambda>m i. bt_insert i (if i = cfg_entry (engine_cfg self) then summary_entry i
         else summary_unreachable i) m) [] (node_ids (engine_cfg self))\<rparr>"

definition set_state :: "cfg_node_id \<Rightarrow> formula \<Rightarrow> rule_engine \<Rightarrow> rule_error + rule_engine" where
  "set_state node f self = summary_mut node (\<lambda>s. s\<lparr>state := f\<rparr>) self"

definition engine_edge :: "rule_engine \<Rightarrow> cfg_edge_id \<Rightarrow> rule_error + abstract_edge" where
  "engine_edge self i =
     (case cfg_edge (engine_cfg self) i of Inl _ \<Rightarrow> Inl (RuleUnknownEdge i) | Inr e \<Rightarrow> Inr e)"

definition engine_node :: "rule_engine \<Rightarrow> cfg_node_id \<Rightarrow> rule_error + abstract_node" where
  "engine_node self i =
     (case cfg_node (engine_cfg self) i of Inl _ \<Rightarrow> Inl (RuleUnknownNode i) | Inr n \<Rightarrow> Inr n)"

definition lift_oracle :: "formula_error + 'a \<Rightarrow> rule_error + 'a" where
  "lift_oracle r = (case r of Inl e \<Rightarrow> Inl (RuleOracle e) | Inr x \<Rightarrow> Inr x)"

section \<open>Rules\<close>

definition forward_may_post :: "cfg_edge_id \<Rightarrow> rule_engine \<Rightarrow> rule_error + rule_engine" where
  "forward_may_post eid self =
     (if is_blocked self eid then Inr self
      else
        rbind (engine_edge self eid) (\<lambda>edge.
        rbind (summary self (edge_source edge)) (\<lambda>source.
          let propagated = f_and (reach source) (edge_guard edge) in
          summary_mut (edge_target edge) (join_reach propagated) self)))"

definition notmay_pre :: "cfg_edge_id \<Rightarrow> rule_engine \<Rightarrow> rule_error + rule_engine" where
  "notmay_pre eid self =
     (if is_blocked self eid then Inr self
      else
        rbind (engine_edge self eid) (\<lambda>edge.
        rbind (summary self (edge_target edge)) (\<lambda>target.
          let edge_pre = wp (edge_transfer edge) (state target);
              post_at_source = f_and (edge_guard edge) edge_pre
          in
          rbind (engine_node self (edge_source edge)) (\<lambda>source.
            let pre_at_source = wp (node_transfer source) post_at_source in
            summary_mut (edge_source edge) (join_state pre_at_source) self))))"

definition notmay_pre_pruned ::
  "solver \<Rightarrow> cfg_edge_id \<Rightarrow> rule_engine \<Rightarrow> rule_error + rule_engine" where
  "notmay_pre_pruned z eid self =
     rbind (notmay_pre eid self) (\<lambda>self.
     rbind (engine_edge self eid) (\<lambda>edge.
     rbind (summary self (edge_source edge)) (\<lambda>source.
     rbind (lift_oracle (feasibility z (combined source))) (\<lambda>answer.
       if answer = Infeasible then
         summary_mut (edge_source edge) (\<lambda>s. s\<lparr>state := FFalse\<rparr>) (block_edge eid self)
       else Inr self))))"

fun callee_of_effects :: "transfer_effect list \<Rightarrow> string option" where
  "callee_of_effects [] = None"
| "callee_of_effects (effect # rest) =
     (case effect of
        Call callee _ \<Rightarrow> if callee \<noteq> ''may_assert'' then Some callee else callee_of_effects rest
      | _ \<Rightarrow> callee_of_effects rest)"

definition callee_of :: "abstract_node \<Rightarrow> string option" where
  "callee_of node = callee_of_effects (effects (node_transfer node))"

fun apply_notmay_summaries ::
  "solver \<Rightarrow> cfg_edge_id \<Rightarrow> abstract_edge \<Rightarrow> notmay_summary list \<Rightarrow> rule_engine
    \<Rightarrow> rule_error + rule_engine" where
  "apply_notmay_summaries z eid edge [] self = Inr self"
| "apply_notmay_summaries z eid edge (s # rest) self =
     rbind (summary self (edge_source edge)) (\<lambda>source.
     rbind (lift_oracle (feasibility z (f_and (reach source) (notmay_precondition s)))) (\<lambda>feasible.
     rbind (summary self (edge_target edge)) (\<lambda>target.
     rbind (lift_oracle (oracle_implies z (state target) (notmay_postcondition s))) (\<lambda>valid.
       if feasible \<noteq> Infeasible \<and> valid = Valid then
         summary_mut (edge_source edge) (\<lambda>s. s\<lparr>state := FFalse\<rparr>) (block_edge eid self)
       else apply_notmay_summaries z eid edge rest self))))"

definition notmay_pre_usesummary ::
  "solver \<Rightarrow> summary_table \<Rightarrow> cfg_edge_id \<Rightarrow> rule_engine \<Rightarrow> rule_error + rule_engine" where
  "notmay_pre_usesummary z tables eid self =
     (if is_blocked self eid then Inr self
      else
        rbind (engine_edge self eid) (\<lambda>edge.
        rbind (engine_node self (edge_target edge)) (\<lambda>target.
          case callee_of target of
            None \<Rightarrow> Inr self
          | Some callee \<Rightarrow>
              apply_notmay_summaries z eid edge (notmay tables callee) self)))"

fun apply_may_summaries ::
  "solver \<Rightarrow> cfg_node_id \<Rightarrow> formula \<Rightarrow> may_summary list \<Rightarrow> rule_engine
    \<Rightarrow> rule_error + rule_engine" where
  "apply_may_summaries z target caller_reach [] self = Inr self"
| "apply_may_summaries z target caller_reach (s # rest) self =
     rbind (if may_precondition s = FTrue then Inr True
            else rbind (lift_oracle (oracle_implies z caller_reach (may_precondition s)))
              (\<lambda>v. Inr (v = Valid))) (\<lambda>applies.
       if \<not> applies then apply_may_summaries z target caller_reach rest self
       else rbind (summary_mut target (join_reach (may_postcondition s)) self)
         (apply_may_summaries z target caller_reach rest))"

definition forward_may_usesummary ::
  "solver \<Rightarrow> summary_table \<Rightarrow> cfg_edge_id \<Rightarrow> rule_engine \<Rightarrow> rule_error + rule_engine" where
  "forward_may_usesummary z tables eid self =
     (if is_blocked self eid then Inr self
      else
        rbind (engine_edge self eid) (\<lambda>edge.
        rbind (engine_node self (edge_source edge)) (\<lambda>source.
          case callee_of source of
            None \<Rightarrow> Inr self
          | Some callee \<Rightarrow>
              rbind (summary self (edge_source edge)) (\<lambda>s.
                apply_may_summaries z (edge_target edge) (reach s) (forward_may tables callee) self))))"

section \<open>The fixpoint\<close>

definition forward_edge ::
  "solver \<Rightarrow> summary_table \<Rightarrow> cfg_edge_id \<Rightarrow> rule_engine \<Rightarrow> rule_error + rule_engine" where
  "forward_edge z tables edge self =
     rbind (forward_may_post edge self) (forward_may_usesummary z tables edge)"

definition backward_edge ::
  "solver \<Rightarrow> summary_table \<Rightarrow> cfg_edge_id \<Rightarrow> rule_engine \<Rightarrow> rule_error + rule_engine" where
  "backward_edge z tables edge self =
     rbind (notmay_pre edge self) (\<lambda>self.
     rbind (notmay_pre_usesummary z tables edge self) (notmay_pre_pruned z edge))"

definition forward_pass ::
  "solver \<Rightarrow> summary_table \<Rightarrow> cfg_node_id list \<Rightarrow> rule_engine \<Rightarrow> rule_error + rule_engine" where
  "forward_pass z tables order self =
     rfold (\<lambda>node self. rfold (forward_edge z tables) (outgoing_edges (engine_cfg self) node) self)
       order self"

definition backward_pass ::
  "solver \<Rightarrow> summary_table \<Rightarrow> cfg_node_id list \<Rightarrow> rule_engine \<Rightarrow> rule_error + rule_engine" where
  "backward_pass z tables order self =
     rfold (\<lambda>node self. rfold (backward_edge z tables) (incoming_edges (engine_cfg self) node) self)
       (rev order) self"

fun fixpoint_rounds ::
  "nat \<Rightarrow> solver \<Rightarrow> summary_table \<Rightarrow> cfg_node_id list \<Rightarrow> rule_engine \<Rightarrow> rule_error + rule_engine"
where
  "fixpoint_rounds 0 z tables order self = Inr self"
| "fixpoint_rounds (Suc rounds) z tables order self =
     (let blocked_before = blocked_count self in
      rbind (forward_pass z tables order self) (\<lambda>self.
      rbind (backward_pass z tables order self) (\<lambda>self.
        if blocked_before = blocked_count self then Inr self
        else fixpoint_rounds rounds z tables order self)))"

text \<open>The loop runs over \<open>0..=max_iterations\<close>, one more round than \<open>max_iterations\<close>.\<close>

definition run_to_fixpoint ::
  "solver \<Rightarrow> summary_table \<Rightarrow> cfg_node_id list \<Rightarrow> rule_engine \<Rightarrow> rule_error + rule_engine" where
  "run_to_fixpoint z tables order self =
     (let max_iterations = length (cfg_edges (engine_cfg self)) + 1 in
      fixpoint_rounds (max_iterations + 1) z tables order self)"

definition verified :: "solver \<Rightarrow> cfg_node_id \<Rightarrow> rule_engine \<Rightarrow> rule_error + bool" where
  "verified z entry self =
     rbind (summary self entry) (\<lambda>s.
     rbind (lift_oracle (check_summary z s)) (\<lambda>result.
       Inr (report_feasibility result = Infeasible)))"

definition bugfound ::
  "solver \<Rightarrow> cfg_node_id \<Rightarrow> bool \<Rightarrow> rule_engine \<Rightarrow> rule_error + smt_model option option" where
  "bugfound z entry cfg_is_acyclic self =
     (if \<not> cfg_is_acyclic then Inr None
      else
        rbind (summary self entry) (\<lambda>s.
        rbind (lift_oracle (check_summary z s)) (\<lambda>result.
          Inr (case report_feasibility result of
                 Feasible \<Rightarrow> Some (report_model result)
               | Infeasible \<Rightarrow> None
               | FeasibilityUnknown \<Rightarrow> None))))"

end
