(* ===== verification/Backward.thy ===== *)
theory Backward
  imports Rules
begin

text \<open>
  The assertion checker (\<open>src/analysis/backward/mod.rs\<close>): one bidirectional pass over a graph
  whose back edges are excluded, and the choice between the acyclic and the cyclic path.  The
  search for loop invariants (\<open>synthesize_loop_invariants\<close>) is an argument of
  \<open>analyze_with_tables\<close>.
\<close>

record verified_loop_invariant =
  inv_header :: cfg_node_id
  inv_formula :: formula

record assertion_site =
  site_id :: nat
  site_node :: cfg_node_id
  site_source_location :: source_location
  site_location :: string
  site_obligation :: formula

record assertion_result =
  result_site_id :: nat
  result_site_label :: string
  result_source_location :: source_location
  result_judgement :: judgement
  result_entry_summary :: node_summary
  result_assertion_summary :: node_summary
  result_debug_names :: "string \<rightharpoonup> string"

datatype backward_error =
    CyclicCfgUnsupported
  | BackwardRule rule_error
  | BackwardOracle formula_error

definition lift_rule :: "rule_error + 'a \<Rightarrow> backward_error + 'a" where
  "lift_rule r = (case r of Inl e \<Rightarrow> Inl (BackwardRule e) | Inr x \<Rightarrow> Inr x)"

definition conjunct_loop_invariants ::
  "verified_loop_invariant list \<Rightarrow> (cfg_node_id, formula) btree" where
  "conjunct_loop_invariants invariants =
     fold (\<lambda>inv m. case bt_get m (inv_header inv) of
         Some current \<Rightarrow> bt_insert (inv_header inv) (f_and current (inv_formula inv)) m
       | None \<Rightarrow> bt_insert (inv_header inv) (inv_formula inv) m) invariants []"

definition inject_invariant :: "cfg_node_id \<times> formula \<Rightarrow> rule_engine \<Rightarrow> rule_error + rule_engine"
where
  "inject_invariant = (\<lambda>(header, invariant) engine.
     summary_mut header (\<lambda>s. s\<lparr>reach :=
       if reach s = FFalse then invariant else f_and (reach s) invariant\<rparr>) engine)"

definition seed_assertion :: "assertion_site \<Rightarrow> rule_engine \<Rightarrow> rule_error + rule_engine" where
  "seed_assertion site engine =
     (let neg_obligation = f_not (site_obligation site) in
      rbind (engine_node engine (site_node site)) (\<lambda>node.
        set_state (site_node site) (wp (node_transfer node) neg_obligation) engine))"

definition start_engine :: "abstract_cfg \<Rightarrow> cfg_edge_id list \<Rightarrow> rule_engine" where
  "start_engine cfg excluded_edges = fold block_edge excluded_edges (engine_init (engine_new cfg))"

definition judge ::
  "solver \<Rightarrow> cfg_node_id \<Rightarrow> bool \<Rightarrow> rule_engine \<Rightarrow> rule_error + judgement" where
  "judge z entry cfg_is_acyclic engine =
     rbind (bugfound z entry cfg_is_acyclic engine) (\<lambda>bug.
       case bug of
         Some model \<Rightarrow> Inr (BugFound model)
       | None \<Rightarrow> rbind (verified z entry engine) (\<lambda>v.
           Inr (if v then Verified else JudgementUnknown)))"

definition run_backward ::
  "abstract_cfg \<Rightarrow> assertion_site \<Rightarrow> solver \<Rightarrow> cfg_edge_id list \<Rightarrow> verified_loop_invariant list
    \<Rightarrow> summary_table \<Rightarrow> (string \<rightharpoonup> string) \<Rightarrow> (backward_error + assertion_result) outcome" where
  "run_backward cfg site z excluded_edges loop_invariants tables debug_names =
     obind (topological_order_excluding (set excluded_edges) cfg) (\<lambda>order.
       case order of
         None \<Rightarrow> Returns (Inl CyclicCfgUnsupported)
       | Some order \<Rightarrow> Returns (lift_rule (
           let engine = start_engine cfg excluded_edges in
           rbind (rfold inject_invariant (conjunct_loop_invariants loop_invariants) engine) (\<lambda>engine.
           rbind (seed_assertion site engine) (\<lambda>engine.
           rbind (run_to_fixpoint z tables order engine) (\<lambda>engine.
           let cfg_is_acyclic = (detect_back_edges cfg = Some []) in
           rbind (judge z (cfg_entry cfg) cfg_is_acyclic engine) (\<lambda>judgement.
           rbind (summary engine (cfg_entry cfg)) (\<lambda>entry_summary.
           rbind (summary engine (site_node site)) (\<lambda>assertion_summary.
             Inr \<lparr>result_site_id = site_id site, result_site_label = site_location site,
               result_source_location = site_source_location site, result_judgement = judgement,
               result_entry_summary = entry_summary, result_assertion_summary = assertion_summary,
               result_debug_names = debug_names\<rparr>)))))))))"

definition compute_preliminary_backward_states ::
  "abstract_cfg \<Rightarrow> assertion_site \<Rightarrow> cfg_edge_id list
    \<Rightarrow> (backward_error + (cfg_node_id, formula) btree) outcome" where
  "compute_preliminary_backward_states cfg site excluded_back_edges =
     obind (topological_order_excluding (set excluded_back_edges) cfg) (\<lambda>order.
       case order of
         None \<Rightarrow> Returns (Inl CyclicCfgUnsupported)
       | Some order \<Rightarrow> Returns (lift_rule (
           rbind (seed_assertion site (start_engine cfg excluded_back_edges)) (\<lambda>engine.
           rbind (rfold (\<lambda>node. rfold notmay_pre (incoming_edges cfg node)) (rev order) engine)
             (\<lambda>engine. Inr (map (\<lambda>(i, s). (i, state s)) (summaries engine)))))))"

definition analyze_with_tables ::
  "abstract_cfg \<Rightarrow> assertion_site \<Rightarrow> solver \<Rightarrow> summary_table \<Rightarrow> (string \<rightharpoonup> string)
    \<Rightarrow> ((cfg_node_id, formula) btree \<Rightarrow> (backward_error + verified_loop_invariant list) outcome)
    \<Rightarrow> (backward_error + assertion_result) outcome" where
  "analyze_with_tables cfg site z tables debug_names synthesize_loop_invariants =
     obind (topological_order cfg) (\<lambda>acyclic_order.
       if acyclic_order \<noteq> None then run_backward cfg site z [] [] tables debug_names
       else
         case detect_back_edges cfg of
           None \<Rightarrow> Panics
         | Some back_edges \<Rightarrow>
             let excluded = remdups_adj (sort back_edges) in
             obind (compute_preliminary_backward_states cfg site excluded) (\<lambda>states.
               case states of
                 Inl e \<Rightarrow> Returns (Inl e)
               | Inr assertion_postconditions \<Rightarrow>
                   obind (synthesize_loop_invariants assertion_postconditions) (\<lambda>synthesized. case synthesized of
                      Inl e \<Rightarrow> Returns (Inl e)
                    | Inr invariants \<Rightarrow>
                        if invariants = [] then Returns (Inl CyclicCfgUnsupported)
                        else run_backward cfg site z excluded invariants tables debug_names)))"

definition analyze ::
  "abstract_cfg \<Rightarrow> assertion_site \<Rightarrow> solver
    \<Rightarrow> ((cfg_node_id, formula) btree \<Rightarrow> (backward_error + verified_loop_invariant list) outcome)
    \<Rightarrow> (backward_error + assertion_result) outcome" where
  "analyze cfg site z synthesize_loop_invariants =
     analyze_with_tables cfg site z table_new Map.empty synthesize_loop_invariants"

section \<open>Syntactic tautologies\<close>

text \<open>
  The source compares terms by their \<open>Debug\<close> rendering, which the derived implementation makes
  injective; here they are compared as terms.
\<close>

fun atoms_cover_all_integers :: "formula \<Rightarrow> formula \<Rightarrow> bool" where
  "atoms_cover_all_integers (FLt a1 b1) (FGe a2 b2) = ((a1, b1) = (a2, b2))"
| "atoms_cover_all_integers (FGe a1 b1) (FLt a2 b2) = ((a1, b1) = (a2, b2))"
| "atoms_cover_all_integers (FLe a1 b1) (FGt a2 b2) = ((a1, b1) = (a2, b2))"
| "atoms_cover_all_integers (FGt a1 b1) (FLe a2 b2) = ((a1, b1) = (a2, b2))"
| "atoms_cover_all_integers (FLe a1 b1) (FLe a2 b2) = ((a1, b1) = (b2, a2))"
| "atoms_cover_all_integers (FGe a1 b1) (FGe a2 b2) = ((a1, b1) = (b2, a2))"
| "atoms_cover_all_integers _ _ = False"

fun some_pair :: "('a \<Rightarrow> 'a \<Rightarrow> bool) \<Rightarrow> 'a list \<Rightarrow> bool" where
  "some_pair P [] = False"
| "some_pair P (x # xs) = (list_ex (P x) xs \<or> some_pair P xs)"

fun is_tautology :: "formula \<Rightarrow> bool" where
  "is_tautology (FLe a b) = (a = b)"
| "is_tautology (FGe a b) = (a = b)"
| "is_tautology (FEq a b) = (a = b)"
| "is_tautology (FAnd items) = list_all is_tautology items"
| "is_tautology (FOr items) =
     (list_ex is_tautology items \<or> some_pair atoms_cover_all_integers items)"
| "is_tautology _ = False"

section \<open>Names in models\<close>

definition parse_model_var_name :: "string \<Rightarrow> (string \<times> string) option" where
  "parse_model_var_name name =
     (case find_char (CHR ''$'') name of
        None \<Rightarrow> None
      | Some dollar \<Rightarrow>
          let func = take dollar name; local = drop (dollar + 1) name in
          if starts_with ''call'' local \<and> CHR ''$'' \<in> set local then None
          else if local = ''__retval'' then None
          else
            let display = (if starts_with ''__ext_'' local
                then ''param['' @ drop 6 local @ '']'' else local)
            in Some (func, display))"

end
