(* ===== verification/Formula_Claims.thy ===== *)
theory Formula_Claims
  imports Oracle Backward
begin

text \<open>
  What the formula layer promises its clients: exact rationals in lowest terms, smart
  constructors that keep the meaning, a sort checker under which comparisons are two-valued,
  constant folding, substitution as state update, the collectors of regions and array indices,
  and the syntactic tautology check of the driver.
\<close>

section \<open>Rationals\<close>

lemma sint_eq_0: "sint (a :: i64) = 0 \<longleftrightarrow> a = 0"
proof
  assume "sint a = 0"
  then have "(word_of_int (sint a) :: i64) = 0" by (simp only: of_int_0)
  then show "a = 0" by simp
qed simp

lemma rational_new_parts:
  assumes "rational_new True num den = Returns q"
  obtains num' den' g :: i64 where "sint num' = sgn (sint den) * sint num" "sint den' = \<bar>sint den\<bar>"
    "sint den \<noteq> 0" "sint g = gcd (sint num') (sint den')"
    "sint (rat_num q) = sint num' sdiv sint g" "sint (rat_den q) = sint den' sdiv sint g"
proof -
  obtain num' den' g n d where parts:
      "(if sint den < 0 then i64_neg True num else Returns num) = Returns num'"
      "(if sint den < 0 then i64_neg True den else Returns den) = Returns den'"
      "rat_gcd True num' den' = Returns g" "i64_div num' g = Returns n" "i64_div den' g = Returns d"
      and q: "q = \<lparr>rat_num = n, rat_den = d\<rparr>" and "den \<noteq> 0"
    using assms by (auto simp: rational_new_def obind_eq_Returns split: if_splits)
  then have nz: "sint den \<noteq> 0" using sint_eq_0 by simp
  have n': "sint num' = sgn (sint den) * sint num" "sint den' = \<bar>sint den\<bar>"
    using parts(1,2) nz by (auto split: if_splits dest: sint_i64_neg)
  with nz have "sint den' \<noteq> 0" by simp
  with parts(3) have "sint g = gcd (sint num') (sint den')" by (rule rat_gcd_spec)
  with n' nz show thesis
    by (rule that) (simp_all add: q sint_i64_div(1) [OF parts(4)] sint_i64_div(1) [OF parts(5)])
qed

lemma gcd_loop_returns: "0 \<le> sint a \<Longrightarrow> 0 \<le> sint b \<Longrightarrow> \<exists>g. gcd_loop a b = Returns g"
proof (induction a b rule: gcd_loop.induct)
  case (1 a b)
  show ?case
  proof (cases "b = 0")
    case False
    then have b: "0 < sint b" using 1 sint_eq_0 [of b] by linarith
    then obtain t where t: "i64_rem a b = Returns t" by (auto simp: i64_rem_def)
    have "0 \<le> sint t" using sint_i64_rem(1) [OF t] 1(2) b by (simp add: smod_mod_positive)
    with 1 False t show ?thesis by (simp add: gcd_loop.simps [of a b])
  qed (simp add: gcd_loop.simps [of a 0])
qed

lemma i64_neg_returns: "sint a \<noteq> - (2 ^ 63) \<Longrightarrow> \<exists>r. i64_neg True a = Returns r"
  using in_i64_sint [of a] by (auto simp: i64_neg_def i64_result_def in_i64_def)

lemma i64_neg_min: "sint a = - (2 ^ 63) \<Longrightarrow> i64_neg True a = Panics"
  by (simp add: i64_neg_def i64_result_def in_i64_def)

lemma i64_abs_cases:
  "i64_abs True a = (if sint a = - (2 ^ 63) then Panics else Returns (word_of_int \<bar>sint a\<bar>))"
  using in_i64_sint [of a] by (auto simp: i64_abs_def i64_result_def in_i64_def abs_if)

lemma rat_gcd_returns:
  assumes "sint a \<noteq> - (2 ^ 63)" "0 < sint b"
  shows "\<exists>g. rat_gcd True a b = Returns g \<and> 0 < sint g"
proof -
  have "i64_abs True a = Returns (word_of_int \<bar>sint a\<bar>)" "i64_abs True b = Returns (word_of_int \<bar>sint b\<bar>)"
    using assms i64_abs_cases by simp_all
  moreover obtain g where "gcd_loop (word_of_int \<bar>sint a\<bar>) (word_of_int \<bar>sint b\<bar>) = Returns g"
    using gcd_loop_returns sint_i64_abs [OF calculation(1)] sint_i64_abs [OF calculation(2)]
    by (metis abs_ge_zero)
  ultimately obtain h where h: "rat_gcd True a b = Returns h" by (simp add: rat_gcd_def)
  with rat_gcd_spec [OF h] assms(2) show ?thesis by auto
qed

lemma i64_div_returns: "0 < sint b \<Longrightarrow> \<exists>r. i64_div a b = Returns r"
  by (auto simp: i64_div_def)

lemma rational_new_panics:
  "rational_new True num den = Panics \<longleftrightarrow>
     den = 0 \<or> sint num = - (2 ^ 63) \<or> sint den = - (2 ^ 63)"
proof (cases "den = 0 \<or> sint num = - (2 ^ 63) \<or> sint den = - (2 ^ 63)")
  case True
  then show ?thesis
    by (cases "i64_neg True num") (auto simp: rational_new_def i64_neg_min rat_gcd_def i64_abs_cases)
next
  case False
  have "\<exists>num'. (if sint den < 0 then i64_neg True num else Returns num) = Returns num'
      \<and> sint num' \<noteq> - (2 ^ 63)"
    using False i64_neg_returns [of num] sint_i64_neg [of num] in_i64_sint [of num]
    by (cases "sint den < 0") (force simp: in_i64_def)+
  then obtain num' where n: "(if sint den < 0 then i64_neg True num else Returns num) = Returns num'"
    "sint num' \<noteq> - (2 ^ 63)" by blast
  have "\<exists>den'. (if sint den < 0 then i64_neg True den else Returns den) = Returns den' \<and> 0 < sint den'"
    using False i64_neg_returns [of den] sint_i64_neg [of den] sint_eq_0 [of den]
    by (cases "sint den < 0") force+
  then obtain den' where d: "(if sint den < 0 then i64_neg True den else Returns den) = Returns den'"
    "0 < sint den'" by blast
  obtain g where g: "rat_gcd True num' den' = Returns g" "0 < sint g"
    using rat_gcd_returns n(2) d(2) by blast
  obtain x y where "i64_div num' g = Returns x" "i64_div den' g = Returns y"
    using i64_div_returns [OF g(2)] by blast
  with False n(1) d(1) g(1) show ?thesis by (simp add: rational_new_def)
qed

lemma sdiv_gcd:
  assumes "0 < d"
  shows "(n :: int) sdiv gcd n d = n div gcd n d" "d sdiv gcd n d = d div gcd n d"
proof -
  have "gcd n d \<noteq> 0" using assms by simp
  then show "n sdiv gcd n d = n div gcd n d" "d sdiv gcd n d = d div gcd n d"
    by (simp_all add: signed_divide_int_eq_divide_int)
qed

lemma frac_compare:
  assumes "0 < (b :: int)" "0 < (d :: int)"
  shows "real_of_int a / b < real_of_int c / d \<longleftrightarrow> a * d < c * b"
    and "real_of_int a / b = real_of_int c / d \<longleftrightarrow> a * d = c * b"
proof -
  have "real_of_int a / b < real_of_int c / d \<longleftrightarrow> real_of_int (a * d) < real_of_int (c * b)"
    "real_of_int a / b = real_of_int c / d \<longleftrightarrow> real_of_int (a * d) = real_of_int (c * b)"
    using assms by (auto simp: divide_simps mult.commute)
  then show "real_of_int a / b < real_of_int c / d \<longleftrightarrow> a * d < c * b"
    "real_of_int a / b = real_of_int c / d \<longleftrightarrow> a * d = c * b"
    by (simp_all only: of_int_less_iff of_int_eq_iff)
qed

text \<open>
  \<open>Rational::new\<close> on a checked build.  It panics exactly for a zero denominator and for
  \<open>i64::MIN\<close> in either argument; otherwise the result has a positive denominator, is in lowest
  terms and denotes the quotient of the arguments.
\<close>

theorem rational_new_correct:
  "case rational_new True num den of
     Panics \<Rightarrow> den = 0 \<or> sint num = - (2 ^ 63) \<or> sint den = - (2 ^ 63)
   | Returns q \<Rightarrow> den \<noteq> 0 \<and> sint num \<noteq> - (2 ^ 63) \<and> sint den \<noteq> - (2 ^ 63)
       \<and> 0 < sint (rat_den q) \<and> coprime (sint (rat_num q)) (sint (rat_den q))
       \<and> rational_value q = sint num / sint den"
proof (cases "rational_new True num den")
  case Panics
  then show ?thesis using rational_new_panics [of num den] by simp
next
  case (Returns q)
  then obtain num' den' g :: i64 where p: "sint num' = sgn (sint den) * sint num"
    "sint den' = \<bar>sint den\<bar>" "sint den \<noteq> 0" "sint g = gcd (sint num') (sint den')"
    "sint (rat_num q) = sint num' sdiv sint g" "sint (rat_den q) = sint den' sdiv sint g"
    by (rule rational_new_parts)
  define n d where "n = sint num'" and "d = sint den'"
  have d: "0 < d" and q: "sint (rat_num q) = n div gcd n d" "sint (rat_den q) = d div gcd n d"
    using p sdiv_gcd [of d n] by (simp_all add: n_def d_def)
  have "0 < sint (rat_den q)" using d q(2) by (simp add: pos_imp_zdiv_pos_iff zdvd_imp_le)
  moreover have "coprime (sint (rat_num q)) (sint (rat_den q))"
    using d unfolding q by (intro div_gcd_coprime) simp
  moreover have "rational_value q = n / d"
    unfolding rational_value_def q using d by (simp add: real_of_int_div)
  moreover have "real_of_int n / real_of_int d = sint num / sint den"
    using p(1-3) by (simp add: n_def d_def abs_if sgn_if)
  ultimately show ?thesis using Returns rational_new_panics [of num den] by simp
qed

text \<open>
  the order of rationals.  When the two cross products fit, \<open>cmp\<close> answers as the numbers
  denoted compare.
\<close>

theorem rational_cmp_correct:
  assumes "rational_cmp True p q = Returns ord"
    and "0 < sint (rat_den p)" "0 < sint (rat_den q)"
  shows "ord = (if rational_value p < rational_value q then Less
    else if rational_value p = rational_value q then Equal else Greater)"
proof -
  have "ord = (if sint (rat_num p) * sint (rat_den q) < sint (rat_num q) * sint (rat_den p) then Less
    else if sint (rat_num p) * sint (rat_den q) = sint (rat_num q) * sint (rat_den p) then Equal
    else Greater)"
    using assms(1) by (auto simp: rational_cmp_def obind_eq_Returns dest!: sint_i64_mul)
  then show ?thesis
    unfolding rational_value_def frac_compare [OF assms(2,3)] .
qed

theorem rational_cmp_witness:
  "Less = (if rational_value \<lparr>rat_num = 1, rat_den = 3\<rparr> < rational_value \<lparr>rat_num = 1, rat_den = 2\<rparr>
     then Less
     else if rational_value \<lparr>rat_num = 1, rat_den = 3\<rparr> = rational_value \<lparr>rat_num = 1, rat_den = 2\<rparr>
     then Equal else Greater)"
  by (rule rational_cmp_correct)
    (simp_all add: rational_cmp_def i64_mul_def i64_result_def in_i64_def)

section \<open>Smart constructors, sorts, folding\<close>

text \<open>
  the smart constructors and \<open>simplify\<close> never change the meaning of a formula.
\<close>

theorem connectives_keep_meaning:
  "(eval_formula s (simplify f) \<longleftrightarrow> eval_formula s f)
    \<and> (eval_formula s (f_not f) \<longleftrightarrow> \<not> eval_formula s f)
    \<and> (eval_formula s (f_and f g) \<longleftrightarrow> eval_formula s f \<and> eval_formula s g)
    \<and> (eval_formula s (f_or f g) \<longleftrightarrow> eval_formula s f \<or> eval_formula s g)
    \<and> (eval_formula s (f_implies f g) \<longleftrightarrow> (if eval_formula s f then eval_formula s g else True))
    \<and> (eval_formula s (f_iff f g) \<longleftrightarrow> eval_formula s f = eval_formula s g)
    \<and> (eval_formula s (f_and_many fs) \<longleftrightarrow> list_all (eval_formula s) fs)
    \<and> (eval_formula s (f_or_many fs) \<longleftrightarrow> list_ex (eval_formula s) fs)"
  by (simp add: eval_simplify list_all_iff list_ex_iff)

lemma value_sort_trichotomy:
  assumes "value_sort x = Some k" "value_sort y = Some k"
  shows "compare_values (<) (<) x y \<longleftrightarrow> \<not> compare_values (\<ge>) (\<ge>) x y"
    and "compare_values (\<le>) (\<le>) x y \<longleftrightarrow> \<not> compare_values (>) (>) x y"
    and "compare_values (=) (=) x y \<longleftrightarrow>
      compare_values (\<le>) (\<le>) x y \<and> compare_values (\<ge>) (\<ge>) x y"
    and "x = y \<Longrightarrow> compare_values (=) (=) x y"
  using assms by (cases x; cases y; auto)+

lemma validated_comparison:
  assumes "well_sorted s" "no_real_rem a" "no_real_rem b"
    and "arith_sort (term_sort a) (term_sort b) = Inr k"
  shows "value_sort (eval_term s a) = Some k" "value_sort (eval_term s b) = Some k"
  using assms eval_term_sorted by (auto simp: arith_sort_Inr)

text \<open>
  C22: the operands of a comparison or equation that \<open>validate\<close> accepts, without remainders of reals, evaluate
  to values of one sort in every sorted state, and comparing them is two-valued: the negation of a comparison
  is the opposite one, and equality is both inequalities.
\<close>

theorem sort_checker_sound:
  assumes "well_sorted s" "no_real_rem a" "no_real_rem b"
    and "validate f = Inr ()" "f \<in> {FLt a b, FLe a b, FGt a b, FGe a b, FEq a b}"
  shows "(\<exists>k. value_sort (eval_term s a) = Some k \<and> value_sort (eval_term s b) = Some k)
    \<and> (eval_formula s (FNot (FLt a b)) \<longleftrightarrow> eval_formula s (FGe a b))
    \<and> (eval_formula s (FNot (FLe a b)) \<longleftrightarrow> eval_formula s (FGt a b))
    \<and> (eval_formula s (FEq a b) \<longleftrightarrow> eval_formula s (FLe a b) \<and> eval_formula s (FGe a b))"
proof -
  obtain k where k: "arith_sort (term_sort a) (term_sort b) = Inr k"
    using assms(4,5) by (auto simp: rbind_eq_Inr)
  note v = validated_comparison [OF assms(1-3) k]
  show ?thesis using v value_sort_trichotomy [OF v] by auto
qed

theorem sort_checker_witness:
  "(\<exists>k. value_sort (eval_term sample_state (TVar (var_int ''x''))) = Some k
      \<and> value_sort (eval_term sample_state (TInt 3)) = Some k)
    \<and> (eval_formula sample_state (FNot (FLt (TVar (var_int ''x'')) (TInt 3)))
        \<longleftrightarrow> eval_formula sample_state (FGe (TVar (var_int ''x'')) (TInt 3)))
    \<and> (eval_formula sample_state (FNot (FLe (TVar (var_int ''x'')) (TInt 3)))
        \<longleftrightarrow> eval_formula sample_state (FGt (TVar (var_int ''x'')) (TInt 3)))
    \<and> (eval_formula sample_state (FEq (TVar (var_int ''x'')) (TInt 3))
        \<longleftrightarrow> eval_formula sample_state (FLe (TVar (var_int ''x'')) (TInt 3))
          \<and> eval_formula sample_state (FGe (TVar (var_int ''x'')) (TInt 3)))"
  using sample_state_admissible
  by (intro sort_checker_sound [where f = "FLt (TVar (var_int ''x'')) (TInt 3)"])
    (simp_all add: admissible_def arith_sort_def var_int_def var_new_def)

text \<open>
  The folding of \<open>try_as_constant_int\<close> truncates divisions towards zero, the solver's division
  is Euclidean; the terms below are those on which they cannot differ.
\<close>

fun division_free :: "fterm \<Rightarrow> bool" where
  "division_free (TAdd l r) = (division_free l \<and> division_free r)"
| "division_free (TSub l r) = (division_free l \<and> division_free r)"
| "division_free (TMul l r) = (division_free l \<and> division_free r)"
| "division_free (TNeg t) = division_free t"
| "division_free (TDiv l r) = False"
| "division_free (TRem l r) = False"
| "division_free t = True"

lemma const_binop_Some:
  "const_binop l r f = Returns (Some n) \<longleftrightarrow>
    (\<exists>a b. l = Returns (Some a) \<and> r = Returns (Some b) \<and> f a b = Returns n)"
  by (auto simp: const_binop_def obind_eq_Returns split: option.splits)

text \<open>
  on a checked build the value folded for a term without divisions is the value of the term
  in every state.
\<close>

theorem constant_folding_sound:
  "try_as_constant_int True t = Returns (Some n) \<Longrightarrow> division_free t \<Longrightarrow>
    eval_term s t = IntV (sint n)"
proof (induction t arbitrary: n rule: division_free.induct)
  case (4 t)
  then show ?case
    by (auto simp: obind_eq_Returns dest!: sint_i64_neg split: option.splits)
qed (auto simp: const_binop_Some dest!: sint_i64_add sint_i64_sub sint_i64_mul)

theorem constant_folding_witness:
  "eval_term sample_state (TSub (TMul (TInt 6) (TInt 7)) (TNeg (TInt 1))) = IntV (sint (43 :: i64))"
  by (rule constant_folding_sound)
    (simp_all add: const_binop_def i64_mul_def i64_neg_def i64_sub_def i64_result_def in_i64_def)

text \<open>With a division the two readings part: \<open>-7 / 2\<close> folds to \<open>-3\<close> and denotes \<open>-4\<close>.\<close>

lemma constant_folding_differs_on_division:
  "try_as_constant_int True (TDiv (TInt (-7)) (TInt 2)) = Returns (Some (-3))"
  "smtlib_division s \<Longrightarrow> eval_term s (TDiv (TInt (-7)) (TInt 2)) = IntV (-4)"
  by (simp_all add: const_divop_def i64_div_def signed_divide_int_def smtlib_division_def)

section \<open>Substitution\<close>

text \<open>The state read through a map of variables.\<close>

definition read_through :: "(var \<rightharpoonup> var) \<Rightarrow> valuation \<Rightarrow> valuation" where
  "read_through mapping s = s\<lparr>scalar_of := (\<lambda>v. scalar_of s (map_var mapping v)),
     bool_of := (\<lambda>v. bool_of s (map_var mapping v))\<rparr>"

lemma read_through_selectors [simp]:
  "scalar_of (read_through g s) v = scalar_of s (map_var g v)"
  "bool_of (read_through g s) v = bool_of s (map_var g v)"
  "cells_of (read_through g s) = cells_of s"
  "int_div_of (read_through g s) = int_div_of s"
  "int_rem_of (read_through g s) = int_rem_of s"
  "real_div_of (read_through g s) = real_div_of s"
  by (simp_all add: read_through_def)

lemma substitute_vars_sem:
  shows "eval_memory s (substitute_memory_vars g m) = eval_memory (read_through g s) m"
    and "eval_term s (substitute_term_vars g e) = eval_term (read_through g s) e"
    and eval_substitute_formula_vars:
      "eval_formula s (substitute_formula_vars g f) = eval_formula (read_through g s) f"
  by (induction m and e and f) auto

text \<open>
  Substitution is assignment.  Replacing a scalar by a term, or a region by a memory, gives
  a formula that holds before an assignment exactly when the original holds after it;
  \<open>Formula::substitute\<close> reads every variable through the map.
\<close>

theorem substitution_is_assignment:
  "eval_formula s (substitute_var_in_formula x t f)
      = eval_formula (set_scalar x (eval_term s t) s) f
    \<and> eval_formula s (substitute_memory_var_in_formula r m f)
      = eval_formula (set_cells r (eval_memory s m) s) f
    \<and> eval_formula s (substitute f g) = eval_formula (read_through g s) f"
  by (simp add: eval_substitute_var_in_formula eval_substitute_memory_var_in_formula
      eval_substitute_formula_vars substitute_def)

text \<open>
  the Boolean substitution is assignment for a formula in which the variable is read at
  formula level only.
\<close>

theorem bool_substitution_is_assignment:
  assumes "x \<notin> bools_under_terms f"
  shows "eval_formula s (substitute_bool_var_in_formula x p f)
    = eval_formula (set_bool x (eval_formula s p) s) f"
  by (rule eval_substitute_bool_var_in_formula) (rule assms)

theorem bool_substitution_witness:
  "eval_formula sample_state (substitute_bool_var_in_formula (var_bool ''b'') FTrue
      (FNot (FVar (var_bool ''b''))))
    = eval_formula (set_bool (var_bool ''b'') (eval_formula sample_state FTrue) sample_state)
        (FNot (FVar (var_bool ''b'')))"
  by (rule bool_substitution_is_assignment) simp

text \<open>
  Below a term it is not: the assignment \<open>b := true\<close> makes \<open>(b as int) = 1\<close> true, the
  substituted formula still reads the old \<open>b\<close>.
\<close>

lemma bool_substitution_misses_terms:
  fixes b defines "b \<equiv> var_bool ''b''"
  defines "post \<equiv> FEq (TBoolToInt (FVar b)) (TInt 1)"
  shows "substitute_bool_var_in_formula b FTrue post = post"
    and "\<not> eval_formula sample_state (substitute_bool_var_in_formula b FTrue post)"
    and "eval_formula (set_bool b True sample_state) post"
  by (simp_all add: post_def sample_state_def)

section \<open>Tautologies\<close>

primrec atoms_sorted :: "formula \<Rightarrow> bool" where
  "atoms_sorted FTrue = True"
| "atoms_sorted FFalse = True"
| "atoms_sorted (FVar v) = True"
| "atoms_sorted (FNot f) = True"
| "atoms_sorted (FAnd fs) = list_all (\<lambda>b. b) (map atoms_sorted fs)"
| "atoms_sorted (FOr fs) = list_all (\<lambda>b. b) (map atoms_sorted fs)"
| "atoms_sorted (FImplies l r) = True"
| "atoms_sorted (FEq l r) = (no_real_rem l \<and> no_real_rem r)"
| "atoms_sorted (FMemoryEq l r) = True"
| "atoms_sorted (FLt l r) = (no_real_rem l \<and> no_real_rem r)"
| "atoms_sorted (FLe l r) = (no_real_rem l \<and> no_real_rem r)"
| "atoms_sorted (FGt l r) = (no_real_rem l \<and> no_real_rem r)"
| "atoms_sorted (FGe l r) = (no_real_rem l \<and> no_real_rem r)"

lemma some_pair_in: "some_pair P xs \<Longrightarrow> \<exists>x \<in> set xs. \<exists>y \<in> set xs. P x y"
  by (induction xs) (auto simp: list_ex_iff)

lemma comparisons_total:
  assumes "well_sorted s" "no_real_rem a" "no_real_rem b"
    and "arith_sort (term_sort a) (term_sort b) = Inr k"
  shows "eval_formula s (FLt a b) \<or> eval_formula s (FGe a b)"
    and "eval_formula s (FLe a b) \<or> eval_formula s (FGt a b)"
    and "eval_formula s (FLe a b) \<or> eval_formula s (FLe b a)"
    and "eval_formula s (FGe a b) \<or> eval_formula s (FGe b a)"
    and "a = b \<Longrightarrow> eval_formula s (FEq a b) \<and> eval_formula s (FLe a b) \<and> eval_formula s (FGe a b)"
  using validated_comparison [OF assms] by (cases "eval_term s a"; cases "eval_term s b"; auto)+

lemma covering_atoms:
  assumes "atoms_cover_all_integers f g" "well_sorted s" "atoms_sorted f" "validate f = Inr ()"
  shows "eval_formula s f \<or> eval_formula s g"
proof -
  note t = comparisons_total [OF assms(2)]
  show ?thesis
  proof (cases "(f, g)" rule: atoms_cover_all_integers.cases)
    case (1 a b a' b')
    then show ?thesis using assms t(1) [of a b] by (auto simp: rbind_eq_Inr simp del: eval_formula.simps)
  next
    case (2 a b a' b')
    then show ?thesis using assms t(1) [of a b] by (auto simp: rbind_eq_Inr simp del: eval_formula.simps)
  next
    case (3 a b a' b')
    then show ?thesis using assms t(2) [of a b] by (auto simp: rbind_eq_Inr simp del: eval_formula.simps)
  next
    case (4 a b a' b')
    then show ?thesis using assms t(2) [of a b] by (auto simp: rbind_eq_Inr simp del: eval_formula.simps)
  next
    case (5 a b a' b')
    then show ?thesis using assms t(3) [of a b] by (auto simp: rbind_eq_Inr simp del: eval_formula.simps)
  next
    case (6 a b a' b')
    then show ?thesis using assms t(4) [of a b] by (auto simp: rbind_eq_Inr simp del: eval_formula.simps)
  qed (use assms(1) in auto)
qed

text \<open>
  a well-sorted formula that \<open>is_tautology\<close> accepts holds in every sorted state.
\<close>

theorem is_tautology_sound:
  "is_tautology f \<Longrightarrow> well_sorted s \<Longrightarrow> atoms_sorted f \<Longrightarrow> validate f = Inr () \<Longrightarrow> eval_formula s f"
proof (induction f rule: is_tautology.induct)
  case (1 a b)
  then show ?case using comparisons_total(5) [of s a b]
    by (auto simp: rbind_eq_Inr simp del: eval_formula.simps)
next
  case (2 a b)
  then show ?case using comparisons_total(5) [of s a b]
    by (auto simp: rbind_eq_Inr simp del: eval_formula.simps)
next
  case (3 a b)
  then show ?case using comparisons_total(5) [of s a b]
    by (auto simp: rbind_eq_Inr simp del: eval_formula.simps)
next
  case (4 items)
  then show ?case by (auto simp: list_all_iff)
next
  case (5 items)
  then have each: "atoms_sorted f" "validate f = Inr ()" if "f \<in> set items" for f
    using that by (auto simp: list_all_iff)
  from 5 consider f where "f \<in> set items" "is_tautology f"
    | f g where "f \<in> set items" "g \<in> set items" "atoms_cover_all_integers f g"
    by (auto simp: list_ex_iff dest: some_pair_in)
  then show ?case
  proof cases
    case 1
    then show ?thesis using 5(1) [OF 1(1) 1(2) 5(3)] each by auto
  next
    case 2
    then show ?thesis using covering_atoms [OF 2(3) 5(3)] each by auto
  qed
qed simp_all

theorem is_tautology_witness:
  "eval_formula sample_state (FOr [FLe (TVar (var_int ''x'')) (TInt 3), FGt (TVar (var_int ''x'')) (TInt 3)])"
  using sample_state_admissible
  by (intro is_tautology_sound)
    (simp_all add: admissible_def arith_sort_def var_int_def var_new_def)

section \<open>Regions and array indices\<close>

text \<open>
  havocking a region weakens the formula and leaves nothing that depends on the region.
\<close>

theorem havoc_region_forgets:
  assumes "eval_formula s f"
  shows "eval_formula (set_cells r m s) (havoc_region_in_formula r f)
    \<and> r \<notin> collect_memory_region_names (havoc_region_in_formula r f)"
proof -
  have "r \<notin> region_names_formula (havoc_region_in_formula r f)"
    using havoc_keeps [of r f] by auto
  with havoc_weaker [OF assms, of r] show ?thesis
    by (simp add: eval_set_cells_unmentioned collect_memory_region_names_def)
qed

theorem havoc_region_witness:
  fixes s f
  defines "f \<equiv> FAnd [FTrue, FEq (TSelect (MVar ''a'') (TInt 0)) (TInt 0), FLe (TInt 1) (TInt 2)]"
  shows "eval_formula (set_cells ''a'' (\<lambda>_. 9) sample_state) (havoc_region_in_formula ''a'' f)
    \<and> ''a'' \<notin> collect_memory_region_names (havoc_region_in_formula ''a'' f)"
  by (rule havoc_region_forgets) (simp add: f_def sample_state_def select_cell_def)

text \<open>
  the two region traversals agree, and a formula depends on the cells of the collected
  regions only.
\<close>

theorem collected_regions_determine:
  assumes "\<forall>r \<in> collect_memory_region_names f. cells r = cells_of s r"
  shows "eval_formula (s\<lparr>cells_of := cells\<rparr>) f = eval_formula s f
    \<and> (formula_mentions_region r f \<longleftrightarrow> r \<in> collect_memory_region_names f)"
proof -
  have "eval_formula (s\<lparr>cells_of := cells\<rparr>) f = eval_formula s f"
    using assms by (intro eval_formula_agree)
      (auto simp: agree_def same_arith_def collect_memory_region_names_def)
  then show ?thesis by (simp add: formula_mentions_region_iff collect_memory_region_names_def)
qed

theorem collected_regions_witness:
  "eval_formula (sample_state\<lparr>cells_of := (\<lambda>r. if r = ''a'' then (\<lambda>_. 0) else (\<lambda>_. 7))\<rparr>)
      (FEq (TSelect (MVar ''a'') (TInt 0)) (TInt 0))
    = eval_formula sample_state (FEq (TSelect (MVar ''a'') (TInt 0)) (TInt 0))
    \<and> (formula_mentions_region ''b'' (FEq (TSelect (MVar ''a'') (TInt 0)) (TInt 0))
        \<longleftrightarrow> ''b'' \<in> collect_memory_region_names (FEq (TSelect (MVar ''a'') (TInt 0)) (TInt 0)))"
  by (rule collected_regions_determine)
    (simp add: collect_memory_region_names_def sample_state_def)

text \<open>The reads of a formula: every \<open>Select\<close> node with its memory and index.\<close>

primrec reads_memory :: "memory \<Rightarrow> (memory \<times> fterm) set"
  and reads_term :: "fterm \<Rightarrow> (memory \<times> fterm) set"
  and reads_formula :: "formula \<Rightarrow> (memory \<times> fterm) set" where
  "reads_memory (MVar r) = {}"
| "reads_memory (MStore m i v) = reads_memory m \<union> reads_term i \<union> reads_term v"
| "reads_term (TVar v) = {}"
| "reads_term (TInt n) = {}"
| "reads_term (TReal q) = {}"
| "reads_term (TBoolToInt f) = reads_formula f"
| "reads_term (TSelect m i) = insert (m, i) (reads_memory m \<union> reads_term i)"
| "reads_term (TAdd l r) = reads_term l \<union> reads_term r"
| "reads_term (TSub l r) = reads_term l \<union> reads_term r"
| "reads_term (TMul l r) = reads_term l \<union> reads_term r"
| "reads_term (TDiv l r) = reads_term l \<union> reads_term r"
| "reads_term (TRem l r) = reads_term l \<union> reads_term r"
| "reads_term (TNeg t) = reads_term t"
| "reads_formula FTrue = {}"
| "reads_formula FFalse = {}"
| "reads_formula (FVar v) = {}"
| "reads_formula (FNot f) = reads_formula f"
| "reads_formula (FAnd fs) = \<Union> (set (map reads_formula fs))"
| "reads_formula (FOr fs) = \<Union> (set (map reads_formula fs))"
| "reads_formula (FImplies l r) = reads_formula l \<union> reads_formula r"
| "reads_formula (FEq l r) = reads_term l \<union> reads_term r"
| "reads_formula (FMemoryEq l r) = reads_memory l \<union> reads_memory r"
| "reads_formula (FLt l r) = reads_term l \<union> reads_term r"
| "reads_formula (FLe l r) = reads_term l \<union> reads_term r"
| "reads_formula (FGt l r) = reads_term l \<union> reads_term r"
| "reads_formula (FGe l r) = reads_term l \<union> reads_term r"

lemma select_indices_reads:
  shows "set (select_indices_memory m) = {n. TInt n \<in> snd ` reads_memory m}"
    and "set (select_indices_term e) = {n. TInt n \<in> snd ` reads_term e}"
    and select_indices_formula_reads:
      "set (select_indices_formula f) = {n. TInt n \<in> snd ` reads_formula f}"
  by (induction m and e and f) (auto simp: image_Un split: fterm.splits)

lemma strictly_sorted_remdups_adj:
  "sorted (map f xs) \<Longrightarrow> inj f \<Longrightarrow> sorted_wrt (<) (map f (remdups_adj xs))"
proof (induction xs rule: remdups_adj.induct)
  case (3 x y xs)
  then have *: "sorted_wrt (<) (map f (remdups_adj (y # xs)))" by (cases "x = y") auto
  show ?case
  proof (cases "x = y")
    case False
    with 3 have "f x < f z" if "z \<in> set (y # xs)" for z
      using that by (auto simp: inj_eq less_le)
    with * False show ?thesis by auto
  qed (use * in simp)
qed simp_all

text \<open>
  the indices requested from a model are the literal indices that the formula reads,
  strictly increasing (so each once).
\<close>

theorem collect_select_indices_correct:
  "sorted_wrt (<) (map sint (collect_select_indices f))
    \<and> set (collect_select_indices f) = {n. TInt n \<in> snd ` reads_formula f}"
proof
  have "inj (sint :: i64 \<Rightarrow> int)" by (rule inj_on_inverseI [of _ word_of_int]) simp
  then show "sorted_wrt (<) (map sint (collect_select_indices f))"
    unfolding collect_select_indices_def by (intro strictly_sorted_remdups_adj) simp
qed (simp add: collect_select_indices_def select_indices_formula_reads)

end
