(* ===== verification/Transfer_Claims.thy ===== *)
theory Transfer_Claims
  imports Oracle
begin

text \<open>
  The contracts of \<open>TransferFn\<close> and of the oracle.  \<open>wp\<close> never loses a state from which the
  block can reach the postcondition, and is the exact pre-image when no effect forgets
  anything; \<open>wp_inductive\<close> guarantees the postcondition; \<open>sp\<close> covers the reached states as long
  as nothing the block overwrites was constrained before.  The last section shows what happens
  at the limits of these contracts.
\<close>

section \<open>Contracts\<close>

definition sample_block :: transfer_fn where
  "sample_block = transfer_fn_new
     [Assume (FGe (TVar (var_int ''n'')) (TInt 0)),
      Assign (var_int ''x'') (AssignTerm (TAdd (TVar (var_int ''n'')) (TInt 1))),
      MemoryStore ''a'' (TInt 0) (TVar (var_int ''x'')), Obligation (FGt (TVar (var_int ''x'')) (TInt 0))]"

definition sample_reached :: valuation where
  "sample_reached = set_cells ''a'' (store_cells (\<lambda>_. 0) (IntV 0) (IntV 1))
     (set_scalar (var_int ''x'') (IntV 1) sample_state)"

definition sample_post :: formula where
  "sample_post = FEq (TSelect (MVar ''a'') (TInt 0)) (TInt 1)"

lemma sample_block_runs: "transfer_runs sample_state sample_block sample_reached"
  by (simp add: sample_block_def transfer_fn_new_def effect_step_simps sample_reached_def)
    (simp add: sample_state_def var_int_def var_new_def)

lemma sample_block_ok: "transfer_ok {} sample_block" "transfer_exact sample_block"
  "wp_good {} sample_post" "eval_formula sample_reached sample_post"
  by (simp_all add: transfer_ok_def transfer_exact_def sample_block_def transfer_fn_new_def wp_ok_def
      wp_good_def sample_post_def sample_reached_def select_cell_def store_cells_def)

text \<open>
  C18: \<open>wp\<close> covers the pre-image: a state from which the block runs into the postcondition
  satisfies \<open>wp\<close>, provided no unresolved call havocs memory and no assigned Boolean is coerced.
\<close>

theorem wp_covers_preimage:
  assumes "transfer_ok B f" "wp_good B post" "transfer_runs s f t" "eval_formula t post"
  shows "eval_formula s (wp f post)"
  using assms by (rule wp_covers)

theorem wp_covers_witness: "eval_formula sample_state (wp sample_block sample_post)"
  using sample_block_ok sample_block_runs by (intro wp_covers_preimage [of "{}"])

text \<open>
  C19: \<open>wp\<close> is the exact pre-image of a block without \<open>HavocRegions\<close> and \<open>TypeBound\<close>, provided no
  unresolved call havocs memory and no assigned Boolean is coerced: it holds in the states from which some
  run of the block ends in the postcondition, and in no others.
\<close>

theorem wp_exact_preimage:
  assumes "transfer_ok B f" "transfer_exact f" "wp_good B post"
  shows "eval_formula s (wp f post) \<longleftrightarrow> (\<exists>t. transfer_runs s f t \<and> eval_formula t post)"
  using assms by (rule wp_is_preimage)

theorem wp_exact_witness:
  "eval_formula sample_state (wp sample_block sample_post)
    \<longleftrightarrow> (\<exists>t. transfer_runs sample_state sample_block t \<and> eval_formula t sample_post)"
  using sample_block_ok by (intro wp_exact_preimage [of "{}"])

text \<open>
  \<open>wp_inductive\<close>, the check of loop invariants, establishes its postcondition on every run
  of the block from a state satisfying it, as long as nothing is havocked.
\<close>

theorem wp_inductive_sound:
  assumes "transfer_ok B f" "list_all (\<lambda>e. \<not> havocs e) (effects f)" "wp_good B post"
    and "transfer_runs s f t" "eval_formula s (wp_inductive f post)"
  shows "eval_formula t post"
  using assms by (rule wp_inductive_establishes)

theorem wp_inductive_witness: "eval_formula sample_reached sample_post"
proof (rule wp_inductive_sound [of "{}" sample_block])
  show "eval_formula sample_state (wp_inductive sample_block sample_post)"
    by (simp add: wp_inductive_def sample_block_def transfer_fn_new_def sample_post_def
        eval_substitute_var_in_formula eval_substitute_memory_var_in_formula)
      (simp add: sample_state_def select_cell_def store_cells_def var_int_def var_new_def)
qed (use sample_block_ok sample_block_runs in \<open>simp_all add: sample_block_def transfer_fn_new_def\<close>)

text \<open>
  \<open>sp\<close> covers the states a block reaches when the locations it writes are unconstrained
  before and its assignments are well sorted.
\<close>

theorem sp_covers_postimage:
  assumes "transfer_runs s f t" "all_fresh (effects f) pre" "list_all sorted_effect (effects f)"
    and "well_sorted s" "eval_formula s pre"
  shows "eval_formula t (sp f pre) \<and> well_sorted t"
  using assms sp_sound transfer_runs_sorted by blast

theorem sp_covers_witness:
  "eval_formula sample_reached (sp sample_block (FLe (TVar (var_int ''n'')) (TInt 9)))
    \<and> well_sorted sample_reached"
proof (rule sp_covers_postimage)
  show "well_sorted sample_state" using sample_state_admissible by (simp add: admissible_def)
  show "transfer_runs sample_state sample_block sample_reached" by (rule sample_block_runs)
qed (simp_all add: sample_block_def transfer_fn_new_def sample_state_def f_and_def push_new_def var_int_def
    var_new_def arith_sort_def)

text \<open>
  The oracle over a sound solver.  \<open>Valid\<close> means that every admissible state of the
  assumptions satisfies the conclusion, \<open>Invalid\<close> that some state refutes it, and a
  contradiction holds in no admissible state.
\<close>

theorem oracle_answers_sound:
  assumes "sound_solver z"
  shows "(case oracle_implies z f g of
      Inr Valid \<Rightarrow> \<nexists>s. admissible s \<and> eval_formula s f \<and> \<not> eval_formula s g
    | Inr Invalid \<Rightarrow> \<exists>s. admissible s \<and> eval_formula s f \<and> \<not> eval_formula s g
    | _ \<Rightarrow> True)
    \<and> (case is_contradiction z f of Inr True \<Rightarrow> \<nexists>s. admissible s \<and> eval_formula s f | _ \<Rightarrow> True)"
proof -
  note o = oracle_laws [OF assms]
  show ?thesis
    using query_oracle.entails_valid [OF o, of f g] query_oracle.entails_invalid [OF o, of f g]
      query_oracle.ask_infeasible [OF o, of f]
    by (auto simp: is_contradiction_def rbind_eq_Inr split: sum.splits validity.splits bool.splits)
qed

theorem oracle_answers_witness:
  "(case oracle_implies folding_solver (FLe (TInt 1) (TInt 2)) FTrue of
      Inr Valid \<Rightarrow> \<nexists>s. admissible s \<and> eval_formula s (FLe (TInt 1) (TInt 2)) \<and> \<not> eval_formula s FTrue
    | Inr Invalid \<Rightarrow> \<exists>s. admissible s \<and> eval_formula s (FLe (TInt 1) (TInt 2)) \<and> \<not> eval_formula s FTrue
    | _ \<Rightarrow> True)
    \<and> (case is_contradiction folding_solver (FLe (TInt 1) (TInt 2)) of
        Inr True \<Rightarrow> \<nexists>s. admissible s \<and> eval_formula s (FLe (TInt 1) (TInt 2)) | _ \<Rightarrow> True)"
  by (rule oracle_answers_sound) (rule folding_solver_sound)

section \<open>Limits\<close>

lemma havoc_call_step: "effect_step s (Call f HavocMemory) (s\<lparr>cells_of := c\<rparr>)"
  by (rule effect_step.havoc_call) (auto simp: same_but_memory_def)

text \<open>
  An opaque call that havocs memory is transparent to \<open>wp\<close>: a run may reach the postcondition
  from a state that \<open>wp\<close> excludes.
\<close>

lemma wp_ignores_havoc_memory:
  fixes block post
  defines "block \<equiv> transfer_fn_new [Call ''f'' HavocMemory]"
    and "post \<equiv> FEq (TSelect (MVar ''a'') (TInt 0)) (TInt 5)"
  shows "wp block post = post" and "\<not> eval_formula sample_state (wp block post)"
    and "\<exists>t. transfer_runs sample_state block t \<and> eval_formula t post"
proof -
  define t where "t = sample_state\<lparr>cells_of := (\<lambda>_ _. 5)\<rparr>"
  have "transfer_runs sample_state block t"
    by (simp add: block_def transfer_fn_new_def t_def havoc_call_step)
  moreover have "eval_formula t post" by (simp add: t_def post_def select_cell_def)
  ultimately show "\<exists>t. transfer_runs sample_state block t \<and> eval_formula t post" by blast
qed (simp_all add: block_def post_def transfer_fn_new_def wp_def sample_state_def select_cell_def)

text \<open>
  A store is transparent to \<open>sp\<close>, which keeps the old fact about the overwritten cell.
\<close>

lemma sp_keeps_overwritten_cells:
  fixes block pre
  defines "block \<equiv> transfer_fn_new [MemoryStore ''a'' (TInt 0) (TInt 1)]"
    and "pre \<equiv> FEq (TSelect (MVar ''a'') (TInt 0)) (TInt 0)"
  shows "eval_formula sample_state pre" and "sp block pre = pre"
    and "\<exists>t. transfer_runs sample_state block t \<and> \<not> eval_formula t (sp block pre)"
  by (simp_all add: block_def pre_def transfer_fn_new_def sp_def sample_state_def select_cell_def
      store_cells_def effect_step_simps)

end
