(* ===== verification/Renaming.thy ===== *)
theory Renaming
  imports Effects_Correct
begin

text \<open>
  Alpha-renaming of effects and transfer functions (\<open>src/formula/alpha_rename.rs\<close>).  An
  injective renaming commutes, syntactically, with the smart constructors, with every
  substitution and with \<open>wp\<close>: a copied block has the weakest precondition of the original,
  renamed.  \<open>HavocRegions\<close> is copied verbatim by the code, so the law needs its regions to be
  fixed by the region renaming.
\<close>

section \<open>Effects\<close>

fun rename_effect :: "(string \<Rightarrow> string) \<Rightarrow> (string \<Rightarrow> string) \<Rightarrow> transfer_effect \<Rightarrow> transfer_effect"
where
  "rename_effect var_rename region_rename (Assign target val) =
     Assign (rename_var var_rename target)
       (case val of
          AssignTerm t \<Rightarrow> AssignTerm (rename_term var_rename region_rename t)
        | AssignPredicate f \<Rightarrow> AssignPredicate (rename_formula var_rename region_rename f))"
| "rename_effect var_rename region_rename (MemoryStore r off val) =
     MemoryStore (region_rename r) (rename_term var_rename region_rename off)
       (rename_term var_rename region_rename val)"
| "rename_effect var_rename region_rename (Assume f) =
     Assume (rename_formula var_rename region_rename f)"
| "rename_effect var_rename region_rename (TypeBound f) =
     TypeBound (rename_formula var_rename region_rename f)"
| "rename_effect var_rename region_rename (Obligation f) =
     Obligation (rename_formula var_rename region_rename f)"
| "rename_effect var_rename region_rename other = other"

definition rename_transfer_fn ::
  "(string \<Rightarrow> string) \<Rightarrow> (string \<Rightarrow> string) \<Rightarrow> transfer_fn \<Rightarrow> transfer_fn" where
  "rename_transfer_fn var_rename region_rename tf =
     \<lparr>effects = map (rename_effect var_rename region_rename) (effects tf)\<rparr>"

section \<open>Injective renamings\<close>

fun keeps_havoc :: "(string \<Rightarrow> string) \<Rightarrow> transfer_effect \<Rightarrow> bool" where
  "keeps_havoc region_rename (HavocRegions rs) = list_all (\<lambda>r. region_rename r = r) rs"
| "keeps_havoc region_rename _ = True"

locale renaming =
  fixes vr rr :: "string \<Rightarrow> string"
  assumes inj_vr: "inj vr" and inj_rr: "inj rr"
begin

lemma rename_back:
  "rename_formula (inv vr) (inv rr) (rename_formula vr rr f) = f"
  using inj_vr inj_rr by (simp add: rename_formula_comp inv_o_cancel rename_formula_same [unfolded id_def [symmetric]])

lemma rename_eq [simp]: "rename_formula vr rr f = rename_formula vr rr g \<longleftrightarrow> f = g"
  using rename_back by metis

lemma rename_literals [simp]:
  "rename_formula vr rr f = FTrue \<longleftrightarrow> f = FTrue"
  "rename_formula vr rr f = FFalse \<longleftrightarrow> f = FFalse"
  by (cases f; simp)+

lemma rename_var_eq [simp]: "rename_var vr v = rename_var vr w \<longleftrightarrow> v = w"
  using inj_vr by (auto simp: rename_var_def var_new_def inj_eq)

lemma rename_push_new:
  "map (rename_formula vr rr) (push_new fs f) = push_new (map (rename_formula vr rr) fs) (rename_formula vr rr f)"
  by (auto simp: push_new_def)

lemma rename_foldl_push_new:
  "map (rename_formula vr rr) (foldl push_new fs gs)
    = foldl push_new (map (rename_formula vr rr) fs) (map (rename_formula vr rr) gs)"
  by (induction gs arbitrary: fs) (simp_all add: rename_push_new)

lemma rename_flatten_and:
  "flatten_and (map (rename_formula vr rr) flat) (map (rename_formula vr rr) items)
    = map_option (map (rename_formula vr rr)) (flatten_and flat items)"
  by (induction flat items rule: flatten_and.induct)
    (auto simp: rename_push_new rename_foldl_push_new split: formula.splits)

lemma rename_flatten_or:
  "flatten_or (map (rename_formula vr rr) flat) (map (rename_formula vr rr) items)
    = map_option (map (rename_formula vr rr)) (flatten_or flat items)"
  by (induction flat items rule: flatten_or.induct)
    (auto simp: rename_push_new rename_foldl_push_new split: formula.splits)

lemma rename_simplify: "simplify (rename_formula vr rr f) = rename_formula vr rr (simplify f)"
proof (cases f)
  case (FAnd fs)
  then show ?thesis using rename_flatten_and [of "[]" fs]
    by (auto split: option.splits list.splits)
next
  case (FOr fs)
  then show ?thesis using rename_flatten_or [of "[]" fs]
    by (auto split: option.splits list.splits)
qed auto

lemma rename_connectives [simp]:
  "f_not (rename_formula vr rr f) = rename_formula vr rr (f_not f)"
  "f_and (rename_formula vr rr f) (rename_formula vr rr g) = rename_formula vr rr (f_and f g)"
  "f_or (rename_formula vr rr f) (rename_formula vr rr g) = rename_formula vr rr (f_or f g)"
  "f_implies (rename_formula vr rr f) (rename_formula vr rr g) = rename_formula vr rr (f_implies f g)"
  "f_and_many (map (rename_formula vr rr) fs) = rename_formula vr rr (f_and_many fs)"
  "f_or_many (map (rename_formula vr rr) fs) = rename_formula vr rr (f_or_many fs)"
  using rename_simplify [of "FAnd [f, g]"] rename_simplify [of "FOr [f, g]"]
    rename_simplify [of "FImplies f g"] rename_simplify [of "FAnd fs"] rename_simplify [of "FOr fs"]
  unfolding f_not_def f_and_def f_or_def f_implies_def f_and_many_def f_or_many_def by simp_all

lemma rename_many [simp]:
  "(\<And>f. f \<in> set fs \<Longrightarrow> h (rename_formula vr rr f) = rename_formula vr rr (k f)) \<Longrightarrow>
    f_and_many (map (h \<circ> rename_formula vr rr) fs) = rename_formula vr rr (f_and_many (map k fs))"
  "(\<And>f. f \<in> set fs \<Longrightarrow> h (rename_formula vr rr f) = rename_formula vr rr (k f)) \<Longrightarrow>
    f_or_many (map (h \<circ> rename_formula vr rr) fs) = rename_formula vr rr (f_or_many (map k fs))"
proof -
  assume "\<And>f. f \<in> set fs \<Longrightarrow> h (rename_formula vr rr f) = rename_formula vr rr (k f)"
  then have *: "map (h \<circ> rename_formula vr rr) fs = map (rename_formula vr rr) (map k fs)" by simp
  show "f_and_many (map (h \<circ> rename_formula vr rr) fs) = rename_formula vr rr (f_and_many (map k fs))"
    "f_or_many (map (h \<circ> rename_formula vr rr) fs) = rename_formula vr rr (f_or_many (map k fs))"
    unfolding * by (rule rename_connectives)+
qed

lemma rename_substitute_var:
  shows "substitute_var_in_memory (rename_var vr x) (rename_term vr rr t) (rename_memory vr rr m)
      = rename_memory vr rr (substitute_var_in_memory x t m)"
    and "substitute_var_in_term (rename_var vr x) (rename_term vr rr t) (rename_term vr rr e)
      = rename_term vr rr (substitute_var_in_term x t e)"
    and rename_substitute_var_in_formula:
      "substitute_var_in_formula (rename_var vr x) (rename_term vr rr t) (rename_formula vr rr f)
      = rename_formula vr rr (substitute_var_in_formula x t f)"
  by (induction m and e and f) simp_all

lemma rename_substitute_memory_var:
  shows "substitute_memory_var_in_memory (rr r) (rename_memory vr rr p) (rename_memory vr rr m)
      = rename_memory vr rr (substitute_memory_var_in_memory r p m)"
    and "substitute_memory_var_in_term (rr r) (rename_memory vr rr p) (rename_term vr rr e)
      = rename_term vr rr (substitute_memory_var_in_term r p e)"
    and rename_substitute_memory_var_in_formula:
      "substitute_memory_var_in_formula (rr r) (rename_memory vr rr p) (rename_formula vr rr f)
      = rename_formula vr rr (substitute_memory_var_in_formula r p f)"
  using inj_rr by (induction m and e and f) (simp_all add: inj_eq)

lemma rename_substitute_bool_var:
  "substitute_bool_var_in_formula (rename_var vr x) (rename_formula vr rr p) (rename_formula vr rr f)
    = rename_formula vr rr (substitute_bool_var_in_formula x p f)"
  by (induction f rule: formula_only_induct) simp_all

lemma rename_mentions_region:
  shows "memory_mentions_region (rr r) (rename_memory vr rr m) = memory_mentions_region r m"
    and "term_mentions_region (rr r) (rename_term vr rr e) = term_mentions_region r e"
    and rename_formula_mentions_region:
      "formula_mentions_region (rr r) (rename_formula vr rr f) = formula_mentions_region r f"
  using inj_rr by (induction m and e and f) (simp_all add: inj_eq list_ex_iff)

lemma rename_filter_unmentioned:
  "filter (\<lambda>f. \<not> formula_mentions_region (rr r) f) (map (rename_formula vr rr) fs)
    = map (rename_formula vr rr) (filter (\<lambda>f. \<not> formula_mentions_region r f) fs)"
  by (induction fs) (simp_all add: rename_formula_mentions_region)

lemma rename_havoc_region:
  "havoc_region_in_formula (rr r) (rename_formula vr rr f)
    = rename_formula vr rr (havoc_region_in_formula r f)"
proof (cases "formula_mentions_region r f")
  case True
  then have m: "formula_mentions_region (rr r) (rename_formula vr rr f)"
    by (simp only: rename_formula_mentions_region)
  show ?thesis
  proof (cases f)
    case (FAnd fs)
    then show ?thesis using True m unfolding havoc_region_in_formula_def
      by (simp add: rename_filter_unmentioned del: formula_mentions_region.simps filter_map)
  qed (use True m in \<open>simp_all add: havoc_region_in_formula_def del: formula_mentions_region.simps\<close>)
qed (simp add: havoc_region_in_formula_def rename_formula_mentions_region)

lemma rename_fold_havoc:
  "\<forall>r \<in> set rs. rr r = r \<Longrightarrow> fold havoc_region_in_formula rs (rename_formula vr rr f)
    = rename_formula vr rr (fold havoc_region_in_formula rs f)"
  by (induction rs arbitrary: f) (simp_all, metis rename_havoc_region)

lemma rename_wp_one:
  assumes "keeps_havoc rr e"
  shows "wp_one (rename_effect vr rr e) (rename_formula vr rr f) = rename_formula vr rr (wp_one e f)"
proof (cases e)
  case (Assign x a)
  then show ?thesis
    by (cases a) (simp_all add: rename_substitute_var_in_formula rename_substitute_bool_var)
next
  case (MemoryStore r i v)
  then show ?thesis
    using rename_substitute_memory_var_in_formula [of r "MStore (MVar r) i v" f] by simp
next
  case (HavocRegions rs)
  with assms show ?thesis by (simp add: rename_fold_havoc list_all_iff)
qed simp_all

lemma rename_wp_fold:
  "list_all (keeps_havoc rr) es \<Longrightarrow>
    fold wp_one (rev (map (rename_effect vr rr) es)) (rename_formula vr rr f)
      = rename_formula vr rr (fold wp_one (rev es) f)"
  by (induction es) (simp_all add: rename_wp_one)

end

text \<open>The renamings the module is written for: a suffix on every copied local.\<close>

interpretation suffixed: renaming "\<lambda>name. name @ suffix" "\<lambda>region. region" for suffix
  by unfold_locales (auto intro: injI)

section \<open>Renamed blocks\<close>

text \<open>
  C20: an injective renaming commutes with weakest preconditions and is undone by its inverse,
  whenever it fixes the regions of the \<open>HavocRegions\<close> effects.
\<close>

theorem rename_commutes_with_wp:
  assumes "inj vr" "inj rr" "list_all (keeps_havoc rr) (effects f)"
  shows "wp (rename_transfer_fn vr rr f) (rename_formula vr rr post) = rename_formula vr rr (wp f post)
    \<and> rename_formula (inv vr) (inv rr) (rename_formula vr rr post) = post"
proof -
  have r: "renaming vr rr" using assms(1,2) by (rule renaming.intro)
  show ?thesis
    using renaming.rename_wp_fold [OF r assms(3)] renaming.rename_back [OF r]
    by (simp add: wp_def rename_transfer_fn_def)
qed

definition copied_block :: transfer_fn where
  "copied_block = transfer_fn_new [Assign (var_int ''x'') (AssignTerm (TAdd (TVar (var_int ''y'')) (TInt 1))),
     MemoryStore ''a'' (TInt 0) (TVar (var_int ''x'')), HavocRegions [''b'']]"

theorem rename_commutes_witness:
  "wp (rename_transfer_fn (\<lambda>n. n @ ''_bmc1'') (\<lambda>r. r) copied_block)
      (rename_formula (\<lambda>n. n @ ''_bmc1'') (\<lambda>r. r) (FEq (TVar (var_int ''x'')) (TInt 2)))
    = rename_formula (\<lambda>n. n @ ''_bmc1'') (\<lambda>r. r) (wp copied_block (FEq (TVar (var_int ''x'')) (TInt 2)))
    \<and> rename_formula (inv (\<lambda>n. n @ ''_bmc1'')) (inv (\<lambda>r. r))
        (rename_formula (\<lambda>n. n @ ''_bmc1'') (\<lambda>r. r) (FEq (TVar (var_int ''x'')) (TInt 2)))
      = FEq (TVar (var_int ''x'')) (TInt 2)"
  by (rule rename_commutes_with_wp) (auto simp: copied_block_def transfer_fn_new_def intro: injI)

text \<open>
  Without that condition the law fails: the copied \<open>HavocRegions\<close> still names the old region,
  so the renamed block keeps a fact the original forgets.
\<close>

lemma rename_skips_havoc:
  fixes block post rr
  defines "block \<equiv> transfer_fn_new [HavocRegions [''a'']]"
    and "post \<equiv> FEq (TSelect (MVar ''a'') (TInt 0)) (TInt 5)"
    and "rr \<equiv> (\<lambda>r. r @ ''1'')"
  shows "wp block post = FTrue"
    and "wp (rename_transfer_fn rr rr block) (rename_formula rr rr post) = rename_formula rr rr post"
  by (simp_all add: block_def post_def rr_def rename_transfer_fn_def transfer_fn_new_def wp_def
      havoc_region_in_formula_def)

end
