(* ===== verification/Flat_Layout.thy ===== *)
theory Flat_Layout
  imports Formula_Sem
begin

text \<open>
  The flat address layout behind \<open>ptrtoint\<close> and \<open>inttoptr\<close> (\<open>src/cfg/flat_layout.rs\<close>): every
  region gets a base address, \<open>FLAT_STRIDE\<close> apart, in registration order.  Addresses are \<open>i64\<close>;
  \<open>layout_wf\<close> is the invariant of the layouts \<open>add_region\<close> builds and bounds their number so
  that no base overflows (\<open>2 ^ 51 - 1\<close> regions).
\<close>

section \<open>The layout\<close>

definition FLAT_STRIDE :: i64 where
  "FLAT_STRIDE = 4096"

record flat_layout =
  layout_ordered :: "(string \<times> i64) list"
  layout_index :: "string \<rightharpoonup> i64"

definition layout_new :: flat_layout where
  "layout_new = \<lparr>layout_ordered = [], layout_index = Map.empty\<rparr>"

definition add_region :: "bool \<Rightarrow> string \<Rightarrow> flat_layout \<Rightarrow> flat_layout outcome" where
  "add_region oc r self =
     (if layout_index self r \<noteq> None then Returns self
      else obind (i64_mul oc (of_nat (length (layout_ordered self))) FLAT_STRIDE) (\<lambda>base.
        Returns (self\<lparr>layout_index := (layout_index self)(r \<mapsto> base),
          layout_ordered := layout_ordered self @ [(r, base)]\<rparr>)))"

definition base_of :: "flat_layout \<Rightarrow> string \<Rightarrow> i64 option" where
  "base_of self r = layout_index self r"

definition flat_addr :: "bool \<Rightarrow> flat_layout \<Rightarrow> string \<Rightarrow> i64 \<Rightarrow> i64 option outcome" where
  "flat_addr oc self r off =
     (case base_of self r of
        None \<Rightarrow> Returns None
      | Some b \<Rightarrow> obind (i64_add oc b off) (\<lambda>a. Returns (Some a)))"

text \<open>The \<open>find\<close> of \<open>region_at\<close>: the upper bound is computed only when the lower one holds.\<close>

fun find_base :: "bool \<Rightarrow> i64 \<Rightarrow> (string \<times> i64) list \<Rightarrow> (string \<times> i64) option outcome" where
  "find_base oc addr [] = Returns None"
| "find_base oc addr ((name, base) # rest) =
     (if sint base \<le> sint addr
      then obind (i64_add oc base FLAT_STRIDE) (\<lambda>limit.
        if sint addr < sint limit then Returns (Some (name, base)) else find_base oc addr rest)
      else find_base oc addr rest)"

definition region_at :: "bool \<Rightarrow> flat_layout \<Rightarrow> i64 \<Rightarrow> (string \<times> i64) option outcome" where
  "region_at oc self addr =
     obind (find_base oc addr (layout_ordered self)) (\<lambda>found.
       case found of
         None \<Rightarrow> Returns None
       | Some (name, base) \<Rightarrow> obind (i64_sub oc addr base) (\<lambda>off. Returns (Some (name, off))))"

fun eval_flat_addr :: "bool \<Rightarrow> (string \<rightharpoonup> i64) \<Rightarrow> fterm \<Rightarrow> i64 option outcome" where
  "eval_flat_addr oc flat_vars (TInt n) = Returns (Some n)"
| "eval_flat_addr oc flat_vars (TVar v) = Returns (flat_vars (var_name v))"
| "eval_flat_addr oc flat_vars (TAdd a b) =
     const_binop (eval_flat_addr oc flat_vars a) (eval_flat_addr oc flat_vars b) (i64_add oc)"
| "eval_flat_addr oc flat_vars (TSub a b) =
     const_binop (eval_flat_addr oc flat_vars a) (eval_flat_addr oc flat_vars b) (i64_sub oc)"
| "eval_flat_addr oc flat_vars (TMul a b) =
     const_binop (eval_flat_addr oc flat_vars a) (eval_flat_addr oc flat_vars b) (i64_mul oc)"
| "eval_flat_addr oc flat_vars _ = Returns None"

section \<open>The invariant\<close>

definition layout_wf :: "flat_layout \<Rightarrow> bool" where
  "layout_wf l \<longleftrightarrow> layout_index l = map_of (layout_ordered l)
     \<and> distinct (map fst (layout_ordered l)) \<and> length (layout_ordered l) < 2 ^ 51
     \<and> (\<forall>i < length (layout_ordered l). sint (snd (layout_ordered l ! i)) = int i * 4096)"

lemma sint_stride [simp]: "sint FLAT_STRIDE = 4096"
  by (simp add: FLAT_STRIDE_def)

lemma i64_result_in: "in_i64 x \<Longrightarrow> i64_result oc x = Returns (word_of_int x)"
  by (simp add: i64_result_def)

lemma layout_wf_new: "layout_wf layout_new"
  by (simp add: layout_wf_def layout_new_def)

lemma sint_of_nat: "n < 2 ^ 63 \<Longrightarrow> sint (of_nat n :: i64) = int n"
  using sint_word_of_int_i64 [of "int n"] by (simp add: in_i64_def)

text \<open>The base of a new region: no overflow below \<open>2 ^ 51\<close> regions.\<close>

lemma next_base:
  assumes "n < 2 ^ 51"
  obtains b where "i64_mul oc (of_nat n) FLAT_STRIDE = Returns b" "sint b = int n * 4096"
proof -
  have "int n < 2 ^ 51" using assms by simp
  then have "in_i64 (int n * 4096)" by (simp add: in_i64_def)
  moreover have "sint (of_nat n :: i64) = int n" using assms by (intro sint_of_nat) simp
  moreover note that [of "word_of_int (int n * 4096)"]
  ultimately show thesis
    by (simp add: i64_mul_def i64_result_in sint_word_of_int_i64 del: of_int_mult)
qed

lemma map_of_snoc: "map_of xs r = None \<Longrightarrow> map_of (xs @ [(r, b)]) = (map_of xs)(r \<mapsto> b)"
  by (rule ext) (auto simp: map_add_def split: option.split)

lemma add_region_wf:
  assumes wf: "layout_wf l" and len: "Suc (length (layout_ordered l)) < 2 ^ 51"
  shows "\<exists>k. add_region oc r l = Returns k \<and> layout_wf k \<and> layout_index k r \<noteq> None
    \<and> (\<forall>r'. layout_index l r' \<noteq> None \<longrightarrow> layout_index k r' = layout_index l r')"
proof (cases "layout_index l r")
  case None
  let ?xs = "layout_ordered l"
  have "length ?xs < 2 ^ 51" using len by simp
  then obtain b where b: "i64_mul oc (of_nat (length ?xs)) FLAT_STRIDE = Returns b"
    "sint b = int (length ?xs) * 4096" by (rule next_base)
  define k where "k = l\<lparr>layout_index := (layout_index l)(r \<mapsto> b), layout_ordered := ?xs @ [(r, b)]\<rparr>"
  have i: "layout_index l = map_of ?xs" using wf by (simp add: layout_wf_def)
  then have "layout_index k = map_of (layout_ordered k)"
    using None map_of_snoc [of ?xs r b] by (simp add: k_def)
  moreover have "distinct (map fst (layout_ordered k))"
    using wf None i by (auto simp: layout_wf_def k_def map_of_eq_None_iff)
  moreover have "sint (snd (layout_ordered k ! j)) = int j * 4096" if "j < length (layout_ordered k)" for j
    using that wf b(2) by (auto simp: layout_wf_def k_def nth_append less_Suc_eq)
  ultimately have "layout_wf k" using len by (simp add: layout_wf_def k_def)
  moreover have "add_region oc r l = Returns k" using None b(1) by (simp add: add_region_def k_def)
  ultimately show ?thesis using None by (auto simp: k_def)
qed (use assms in \<open>auto simp: add_region_def\<close>)

lemma base_of_nth:
  assumes "layout_wf l" "base_of l r = Some b"
  obtains i where "i < length (layout_ordered l)" "layout_ordered l ! i = (r, b)" "sint b = int i * 4096"
proof -
  have "(r, b) \<in> set (layout_ordered l)"
    using assms by (intro map_of_SomeD) (simp add: layout_wf_def base_of_def)
  then obtain i where i: "i < length (layout_ordered l)" "layout_ordered l ! i = (r, b)"
    by (auto simp: in_set_conv_nth)
  moreover have "sint (snd (layout_ordered l ! i)) = int i * 4096"
    using assms(1) i(1) by (simp add: layout_wf_def)
  ultimately show thesis using that by simp
qed

text \<open>An address in the window of the \<open>i\<close>-th region is found there and nowhere else.\<close>

lemma find_base_window:
  assumes "\<forall>j < length xs. sint (snd (xs ! j)) = (int j + k) * 4096" "0 \<le> k"
    and "int (length xs) + k < 2 ^ 51" "i < length xs"
    and "(int i + k) * 4096 \<le> sint addr" "sint addr < (int i + k) * 4096 + 4096"
  shows "find_base oc addr xs = Returns (Some (xs ! i))"
  using assms
proof (induction xs arbitrary: i k)
  case (Cons x xs)
  obtain name base where x: "x = (name, base)" by fastforce
  have base: "sint base = k * 4096" using Cons.prems(1) by (force simp: x)
  have limit: "i64_add oc base FLAT_STRIDE = Returns (word_of_int (k * 4096 + 4096))"
    and limit': "sint (word_of_int (k * 4096 + 4096) :: i64) = k * 4096 + 4096"
  proof -
    have "in_i64 (k * 4096 + 4096)" using Cons.prems(2,3) by (simp add: in_i64_def)
    then show "i64_add oc base FLAT_STRIDE = Returns (word_of_int (k * 4096 + 4096))"
      "sint (word_of_int (k * 4096 + 4096) :: i64) = k * 4096 + 4096"
      by (simp_all add: i64_add_def i64_result_in base sint_word_of_int_i64 del: of_int_add of_int_mult)
  qed
  show ?case
  proof (cases i)
    case 0
    then show ?thesis using Cons.prems(5,6) by (simp add: x base limit limit' del: of_int_add of_int_mult)
  next
    case (Suc j)
    have "find_base oc addr xs = Returns (Some (xs ! j))"
    proof (rule Cons.IH)
      show "\<forall>j < length xs. sint (snd (xs ! j)) = (int j + (k + 1)) * 4096"
      proof (intro allI impI)
        fix j assume "j < length xs"
        then have "sint (snd ((x # xs) ! Suc j)) = (int (Suc j) + k) * 4096"
          using Cons.prems(1) by (metis length_Cons Suc_less_eq)
        then show "sint (snd (xs ! j)) = (int j + (k + 1)) * 4096" by (simp add: algebra_simps)
      qed
    qed (use Cons.prems Suc in \<open>simp_all add: algebra_simps\<close>)
    moreover have "k * 4096 + 4096 \<le> sint addr" using Cons.prems(5) Suc by (simp add: algebra_simps)
    ultimately show ?thesis
      by (simp add: x base limit limit' Suc del: of_int_add of_int_mult)
  qed
qed simp

section \<open>Properties\<close>

text \<open>
  Registering a region succeeds below the bound, gives it a base, moves no other base, keeps
  the layout well formed, and does nothing the second time.
\<close>

theorem add_region_correct:
  assumes "layout_wf l" and "Suc (length (layout_ordered l)) < 2 ^ 51"
  shows "\<exists>k. add_region oc r l = Returns k \<and> layout_wf k \<and> base_of k r \<noteq> None
    \<and> add_region oc r k = Returns k
    \<and> (\<forall>r'. base_of l r' \<noteq> None \<longrightarrow> base_of k r' = base_of l r')"
  using add_region_wf [OF assms, of oc r] by (fastforce simp: base_of_def add_region_def)

theorem add_region_witness:
  "\<exists>k. add_region True ''a'' layout_new = Returns k \<and> layout_wf k \<and> base_of k ''a'' \<noteq> None
    \<and> add_region True ''a'' k = Returns k"
  using add_region_correct [OF layout_wf_new, of True "''a''"] by (auto simp: layout_new_def)

lemma flat_addr_window:
  assumes "layout_wf l" "base_of l r = Some b" "0 \<le> sint off" "sint off < 4096"
  obtains a i where "flat_addr oc l r off = Returns (Some a)" "i < length (layout_ordered l)"
    "layout_ordered l ! i = (r, b)" "sint b = int i * 4096" "sint a = int i * 4096 + sint off"
proof -
  obtain i where i: "i < length (layout_ordered l)" "layout_ordered l ! i = (r, b)" "sint b = int i * 4096"
    using base_of_nth assms(1,2) by blast
  have len: "length (layout_ordered l) < 2 ^ 51" using assms(1) by (simp add: layout_wf_def)
  then have "int i + 1 \<le> 2 ^ 51" using i(1) by simp
  then have "in_i64 (int i * 4096 + sint off)" using assms(3,4) by (simp add: in_i64_def)
  then have "i64_add oc b off = Returns (word_of_int (int i * 4096 + sint off))"
    and "sint (word_of_int (int i * 4096 + sint off) :: i64) = int i * 4096 + sint off"
    by (simp_all add: i64_add_def i(3) i64_result_in sint_word_of_int_i64 del: of_int_add of_int_mult)
  with i that show thesis by (simp add: flat_addr_def assms(2) del: of_int_add of_int_mult)
qed

lemma region_at_window:
  assumes "layout_wf l" "i < length (layout_ordered l)" "layout_ordered l ! i = (r, b)"
    and "sint b = int i * 4096" "sint a = int i * 4096 + sint off" "0 \<le> sint off" "sint off < 4096"
  shows "region_at oc l a = Returns (Some (r, off))"
proof -
  have "find_base oc a (layout_ordered l) = Returns (Some (layout_ordered l ! i))"
    using assms by (intro find_base_window [of _ 0]) (simp_all add: layout_wf_def)
  moreover have "i64_sub oc a b = Returns off"
    by (simp add: i64_sub_def assms(4,5) i64_result_in)
  ultimately show ?thesis by (simp add: region_at_def assms(3))
qed

text \<open>
  C23: an in-range address of a registered region resolves back to that region and offset, and
  two in-range addresses are equal only for the same region and offset.
\<close>

theorem flat_layout_roundtrip:
  assumes "layout_wf l" and "base_of l r \<noteq> None" "base_of l r' \<noteq> None"
    and "0 \<le> sint off" "sint off < 4096" "0 \<le> sint off'" "sint off' < 4096"
  shows "\<exists>a a'. flat_addr oc l r off = Returns (Some a) \<and> flat_addr oc l r' off' = Returns (Some a')
    \<and> region_at oc l a = Returns (Some (r, off)) \<and> (a = a' \<longleftrightarrow> r = r' \<and> off = off')"
proof -
  obtain b b' where b: "base_of l r = Some b" and b': "base_of l r' = Some b'" using assms(2,3) by auto
  obtain a i where a: "flat_addr oc l r off = Returns (Some a)" "i < length (layout_ordered l)"
    "layout_ordered l ! i = (r, b)" "sint b = int i * 4096" "sint a = int i * 4096 + sint off"
    by (rule flat_addr_window [OF assms(1) b assms(4,5)])
  obtain a' j where a': "flat_addr oc l r' off' = Returns (Some a')" "j < length (layout_ordered l)"
    "layout_ordered l ! j = (r', b')" "sint b' = int j * 4096" "sint a' = int j * 4096 + sint off'"
    by (rule flat_addr_window [OF assms(1) b' assms(6,7)])
  have "region_at oc l a = Returns (Some (r, off))" "region_at oc l a' = Returns (Some (r', off'))"
    using region_at_window [OF assms(1) a(2-5) assms(4,5)] region_at_window [OF assms(1) a'(2-5) assms(6,7)]
    by blast+
  moreover from this have "a = a' \<longleftrightarrow> r = r' \<and> off = off'" using a(1) a'(1) by auto
  ultimately show ?thesis using a(1) a'(1) by blast
qed

definition two_regions :: flat_layout where
  "two_regions = \<lparr>layout_ordered = [(''s0'', 0), (''s1'', 4096)],
     layout_index = map_of [(''s0'', 0), (''s1'', 4096)]\<rparr>"

lemma two_regions_built:
  "obind (add_region True ''s0'' layout_new) (add_region True ''s1'') = Returns two_regions"
  by (simp add: add_region_def layout_new_def two_regions_def i64_mul_def i64_result_def in_i64_def
      FLAT_STRIDE_def fun_upd_twist)

lemma two_regions_wf: "layout_wf two_regions"
  by (simp add: layout_wf_def two_regions_def less_Suc_eq)

theorem flat_layout_witness:
  "\<exists>a a'. flat_addr True two_regions ''s0'' 3 = Returns (Some a)
    \<and> flat_addr True two_regions ''s1'' 1 = Returns (Some a')
    \<and> region_at True two_regions a = Returns (Some (''s0'', 3)) \<and> (a = a' \<longleftrightarrow> ''s0'' = ''s1'' \<and> (3 :: i64) = 1)"
  by (rule flat_layout_roundtrip [OF two_regions_wf]) (simp_all add: two_regions_def base_of_def)

text \<open>
  on a checked build an address folded from known integer variables is the value of the
  term in every state with those values.
\<close>

theorem eval_flat_addr_sound:
  "eval_flat_addr True flat_vars t = Returns (Some n) \<Longrightarrow>
    \<forall>v k. flat_vars (var_name v) = Some k \<longrightarrow> scalar_of s v = IntV (sint k) \<Longrightarrow>
    eval_term s t = IntV (sint n)"
proof (induction "True" flat_vars t arbitrary: n rule: eval_flat_addr.induct)
  case (3 flat_vars a b)
  then show ?case by (fastforce simp: const_binop_def obind_eq_Returns dest: sint_i64_add split: option.splits)
next
  case (4 flat_vars a b)
  then show ?case by (fastforce simp: const_binop_def obind_eq_Returns dest: sint_i64_sub split: option.splits)
next
  case (5 flat_vars a b)
  then show ?case by (fastforce simp: const_binop_def obind_eq_Returns dest: sint_i64_mul split: option.splits)
qed auto

theorem eval_flat_addr_witness:
  fixes s p
  defines "p \<equiv> var_int ''p''" and "s \<equiv> \<lparr>scalar_of = (\<lambda>_. IntV 4096), bool_of = (\<lambda>_. False),
    cells_of = (\<lambda>_ _. 0), int_div_of = (\<lambda>_ _. 0), int_rem_of = (\<lambda>_ _. 0), real_div_of = (\<lambda>_ _. 0)\<rparr>"
  shows "eval_term s (TAdd (TVar p) (TInt 8)) = IntV (sint (4104 :: i64))"
  by (rule eval_flat_addr_sound [of "[''p'' \<mapsto> 4096]"])
    (simp_all add: p_def s_def var_int_def var_new_def const_binop_def i64_add_def i64_result_def in_i64_def)

end
