(* ===== verification/Cfg_Claims.thy ===== *)
theory Cfg_Claims
  imports Cfg_Ops
begin

text \<open>
  The control-flow graph as its builders use it: every sequence of the operations of
  \<open>AbstractCfg\<close> from \<open>AbstractCfg::new\<close> yields a well-formed graph with consistent adjacency,
  and \<open>ensure_single_exit\<close> produces one exit that every concrete exit flows into.
\<close>

section \<open>Building graphs\<close>

inductive built :: "abstract_cfg \<Rightarrow> bool" where
  new: "built (cfg_new label)"
| add_node: "built g \<Longrightarrow> built (snd (add_node label tr g))"
| set_entry_transfer: "built g \<Longrightarrow> built (set_entry_transfer tr g)"
| set_source_location: "built g \<Longrightarrow> set_source_location n l g = Inr h \<Longrightarrow> built h"
| update_transfer: "built g \<Longrightarrow> node_mut n (\<lambda>x. x\<lparr>node_transfer := tr\<rparr>) g = Inr h \<Longrightarrow> built h"
| mark_exit: "built g \<Longrightarrow> mark_exit n g = Inr h \<Longrightarrow> built h"
| add_edge: "built g \<Longrightarrow> add_edge s t guard es g = Inr (e, h) \<Longrightarrow> built h"
| append_edge_effects: "built g \<Longrightarrow> append_edge_effects e es g = Inr h \<Longrightarrow> built h"
| remove_edge: "built g \<Longrightarrow> built (remove_edge e g)"
| ensure_single_exit: "built g \<Longrightarrow> ensure_single_exit g = Inr (x, h) \<Longrightarrow> built h"

lemma single_exit_cases:
  assumes "cfg_wf g"
  obtains (kept) x where "cfg_exit g = Some x" "ensure_single_exit g = Inr (x, g)"
  | (missing) "cfg_exit g = None" "concrete_exits g = []" "ensure_single_exit g = Inl MissingExit"
  | (only) x where "cfg_exit g = None" "concrete_exits g = [x]"
      "ensure_single_exit g = Inr (x, g\<lparr>cfg_exit := Some x\<rparr>)" "cfg_wf (g\<lparr>cfg_exit := Some x\<rparr>)"
  | (joined) x h where "cfg_exit g = None" "ensure_single_exit g = Inr (x, h)" "cfg_wf h"
      "cfg_exit h = Some x" "\<forall>c \<in> set (concrete_exits g). connected_to x h c"
      "set (all_edges g) \<subseteq> set (all_edges h)"
proof (cases "cfg_exit g")
  case None
  note none = this
  show ?thesis
  proof (cases "concrete_exits g")
    case Nil
    with none missing show ?thesis by (simp add: ensure_single_exit_def)
  next
    case (Cons a rest)
    show ?thesis
    proof (cases rest)
      case Nil
      with Cons none ensure_single_exit_one [OF assms none] only show ?thesis by simp
    next
      case (Cons b more)
      with \<open>concrete_exits g = a # rest\<close> ensure_single_exit_many [OF assms none] joined none
      show ?thesis by metis
    qed
  qed
qed (use kept in \<open>simp add: ensure_single_exit_def\<close>)

lemma ensure_single_exit_wf: "cfg_wf g \<Longrightarrow> ensure_single_exit g = Inr (x, h) \<Longrightarrow> cfg_wf h"
  by (cases rule: single_exit_cases [of g]) auto

lemma built_wf: "built g \<Longrightarrow> cfg_wf g"
proof (induction rule: built.induct)
  case (update_transfer g n tr h)
  then show ?case by (auto intro: node_mut_wf)
qed (auto intro: cfg_wf_new cfg_wf_add_node set_entry_transfer_wf set_source_location_wf mark_exit_wf
    add_edge_wf append_edge_effects_wf remove_edge_wf ensure_single_exit_wf)

text \<open>
  C21: every graph built with the operations is well formed (ids are keys and below the
  counters, edges join existing nodes, exits are nodes other than the entry) and its adjacency
  views agree.
\<close>

theorem built_graphs_consistent:
  assumes "built g"
  shows "cfg_wf g
    \<and> (t \<in> set (successors g s) \<longleftrightarrow> s \<in> set (predecessors g t))
    \<and> (e \<in> set (outgoing_edges g s) \<longleftrightarrow> (\<exists>d. cfg_edge g e = Inr d \<and> edge_source d = s))
    \<and> (e \<in> set (incoming_edges g t) \<longleftrightarrow> (\<exists>d. cfg_edge g e = Inr d \<and> edge_target d = t))"
  using built_wf [OF assms] outgoing_edges_iff [OF built_wf [OF assms]]
    incoming_edges_iff [OF built_wf [OF assms]]
  by (auto simp: successors_def predecessors_def image_iff)

text \<open>An example with two exits; a failed step leaves the graph as it is.\<close>

definition attempt :: "(abstract_cfg \<Rightarrow> cfg_error + abstract_cfg) \<Rightarrow> abstract_cfg \<Rightarrow> abstract_cfg" where
  "attempt op g = (case op g of Inl _ \<Rightarrow> g | Inr h \<Rightarrow> h)"

lemma built_attempts:
  "built g \<Longrightarrow> built (attempt (mark_exit n) g)"
  "built g \<Longrightarrow> built (attempt (join_exit t s) g)"
  by (auto simp: attempt_def rbind_eq_Inr intro: built.mark_exit built.add_edge split: sum.split)

definition two_exits :: abstract_cfg where
  "two_exits = attempt (mark_exit 2) (attempt (mark_exit 1) (attempt (join_exit 2 0)
     (attempt (join_exit 1 0) (snd (add_node ''b'' transfer_identity
       (snd (add_node ''a'' transfer_identity (cfg_new ''entry''))))))))"

lemma two_exits_built: "built two_exits"
  unfolding two_exits_def
  by (intro built_attempts built.new built.add_node)

theorem built_graphs_witness:
  "cfg_wf two_exits
    \<and> (1 \<in> set (successors two_exits 0) \<longleftrightarrow> 0 \<in> set (predecessors two_exits 1))
    \<and> (0 \<in> set (outgoing_edges two_exits 0)
        \<longleftrightarrow> (\<exists>d. cfg_edge two_exits 0 = Inr d \<and> edge_source d = 0))
    \<and> (0 \<in> set (incoming_edges two_exits 1)
        \<longleftrightarrow> (\<exists>d. cfg_edge two_exits 0 = Inr d \<and> edge_target d = 1))"
  by (rule built_graphs_consistent) (rule two_exits_built)

text \<open>
  \<open>ensure_single_exit\<close> fails only on a graph without exits; otherwise it returns a node that
  is the recorded exit, keeps every edge and the invariant, makes every concrete exit flow into
  it unguarded and without effects, and is idempotent.
\<close>

theorem ensure_single_exit_correct:
  assumes "cfg_wf g"
  shows "case ensure_single_exit g of
      Inl err \<Rightarrow> err = MissingExit \<and> cfg_exit g = None \<and> concrete_exits g = []
    | Inr (x, h) \<Rightarrow> cfg_wf h \<and> cfg_exit h = Some x \<and> set (all_edges g) \<subseteq> set (all_edges h)
        \<and> (if cfg_exit g = None then \<forall>c \<in> set (concrete_exits g). connected_to x h c else h = g)
        \<and> ensure_single_exit h = Inr (x, h)"
  using assms
proof (cases rule: single_exit_cases)
  case (only x)
  then show ?thesis by (simp add: connected_to_def ensure_single_exit_def)
next
  case (joined x h)
  then show ?thesis by (simp add: ensure_single_exit_def [of h])
qed (use assms in auto)

theorem ensure_single_exit_witness:
  "\<exists>x h. ensure_single_exit two_exits = Inr (x, h) \<and> cfg_wf h \<and> connected_to x h 1 \<and> connected_to x h 2
    \<and> ensure_single_exit h = Inr (x, h)"
proof -
  have e: "cfg_exit two_exits = None" "concrete_exits two_exits = [1, 2]" by code_simp+
  show ?thesis
    using ensure_single_exit_correct [OF built_wf [OF two_exits_built]]
    by (auto simp: e split: sum.splits prod.splits)
qed

end
