(* ===== verification/Summaries_Correct.thy ===== *)
theory Summaries_Correct
  imports Summaries
begin

text \<open>
  The summary table keeps its claims: merging and extending keep every entry valid and lose no
  coverage, and a lookup answers its query.  A procedure is represented by its behaviour, the
  pairs of an entry state and an exit (or violation) state.
\<close>

sublocale sound_oracle \<subseteq> nm: covering "\<lambda>s q. notmay_covers z s (notmay_as_query q)" notmay_below
proof unfold_locales
  show "notmay_below q s" if "notmay_covers z s (notmay_as_query q) = Inr Covers" for q s
    using that implies_with_shortcuts_sound [OF sound]
    by (auto simp: notmay_covers_def notmay_as_query_def query_new_def notmay_below_def
        rbind_eq_Inr split: if_splits)
qed (auto simp: notmay_below_def entails_on_def)

sublocale sound_oracle \<subseteq> mu: covering "\<lambda>s q. must_covers z s (must_as_query q)" must_below
proof unfold_locales
  show "must_below q s" if "must_covers z s (must_as_query q) = Inr Covers" for q s
    using that implies_with_shortcuts_sound [OF sound]
    by (auto simp: must_covers_def must_as_query_def query_new_def must_below_def
        rbind_eq_Inr split: if_splits)
qed (auto simp: must_below_def entails_on_def)

section \<open>Claims of summaries\<close>

type_synonym behaviour = "valuation \<Rightarrow> valuation \<Rightarrow> bool"

definition unreachable :: "behaviour \<Rightarrow> formula \<Rightarrow> formula \<Rightarrow> bool" where
  "unreachable R pre post \<longleftrightarrow> (\<forall>a b. admissible a \<longrightarrow> admissible b \<longrightarrow> R a b \<longrightarrow>
     eval_formula a pre \<longrightarrow> \<not> eval_formula b post)"

definition witnessed :: "behaviour \<Rightarrow> formula \<Rightarrow> formula \<Rightarrow> bool" where
  "witnessed R pre post \<longleftrightarrow> (\<exists>a b. admissible a \<and> admissible b \<and> R a b \<and>
     eval_formula a pre \<and> eval_formula b post)"

definition table_valid :: "(procedure_name \<Rightarrow> behaviour) \<Rightarrow> summary_table \<Rightarrow> bool" where
  "table_valid R t \<longleftrightarrow>
     (\<forall>p. \<forall>s \<in> set (notmay t p). unreachable (R p) (notmay_precondition s) (notmay_postcondition s)) \<and>
     (\<forall>p. \<forall>s \<in> set (must t p). witnessed (R p) (must_precondition s) (must_postcondition s))"

lemma get_or_empty_insert [simp]:
  "get_or_empty (bt_insert k v m) j = (if j = k then v else get_or_empty m j)"
  by (simp add: get_or_empty_def)

lemma unreachable_mono:
  "unreachable R p q \<Longrightarrow> entails_on p' p \<Longrightarrow> entails_on q' q \<Longrightarrow> unreachable R p' q'"
  by (auto simp: unreachable_def entails_on_def)

lemma witnessed_mono:
  "witnessed R p q \<Longrightarrow> entails_on p p' \<Longrightarrow> entails_on q q' \<Longrightarrow> witnessed R p' q'"
  by (auto simp: witnessed_def entails_on_def)

lemma merge_notmay_parts:
  assumes "merge_notmay z p new t = (r, t')"
  shows "merge_entries (\<lambda>s q. notmay_covers z s (notmay_as_query q)) new (notmay t p) = (r, notmay t' p)"
    and "q \<noteq> p \<Longrightarrow> notmay t' q = notmay t q" and "must t' = must t"
    and "forward_may t' = forward_may t" and "get_loop_invariants t' = get_loop_invariants t"
  using assms by (auto simp: merge_notmay_def notmay_def must_def forward_may_def
      get_loop_invariants_def fun_eq_iff split: prod.splits)

lemma merge_must_parts:
  assumes "merge_must z p new t = (r, t')"
  shows "merge_entries (\<lambda>s q. must_covers z s (must_as_query q)) new (must t p) = (r, must t' p)"
    and "q \<noteq> p \<Longrightarrow> must t' q = must t q" and "notmay t' = notmay t"
    and "forward_may t' = forward_may t" and "get_loop_invariants t' = get_loop_invariants t"
  using assms by (auto simp: merge_must_def notmay_def must_def forward_may_def
      get_loop_invariants_def fun_eq_iff split: prod.splits)

context sound_oracle begin

lemma merge_notmay_subset:
  "merge_notmay z p new t = (r, t') \<Longrightarrow> set (notmay t' p) \<subseteq> insert new (set (notmay t p))"
  using nm.merge_set merge_notmay_parts(1) by metis

lemma merge_notmay_covers:
  "merge_notmay z p new t = (Inr b, t') \<Longrightarrow> s \<in> insert new (set (notmay t p)) \<Longrightarrow>
    \<exists>u \<in> set (notmay t' p). notmay_below s u"
  using nm.merge_covers merge_notmay_parts(1) by metis

lemma merge_must_subset:
  "merge_must z p new t = (r, t') \<Longrightarrow> set (must t' p) \<subseteq> insert new (set (must t p))"
  using mu.merge_set merge_must_parts(1) by metis

lemma merge_must_covers:
  "merge_must z p new t = (Inr b, t') \<Longrightarrow> s \<in> insert new (set (must t p)) \<Longrightarrow>
    \<exists>u \<in> set (must t' p). must_below s u"
  using mu.merge_covers merge_must_parts(1) by metis

lemma notmay_covers_entails:
  "notmay_covers z s q = Inr Covers \<Longrightarrow> entails_on (query_pre q) (notmay_precondition s)
    \<and> entails_on (query_post q) (notmay_postcondition s)"
  using implies_with_shortcuts_sound [OF sound]
  by (auto simp: notmay_covers_def rbind_eq_Inr split: if_splits)

lemma must_covers_entails:
  "must_covers z s q = Inr Covers \<Longrightarrow> entails_on (must_precondition s) (query_pre q)
    \<and> entails_on (must_postcondition s) (query_post q)"
  using implies_with_shortcuts_sound [OF sound]
  by (auto simp: must_covers_def rbind_eq_Inr split: if_splits)

lemma merge_notmay_valid:
  assumes "table_valid R t" "unreachable (R p) (notmay_precondition new) (notmay_postcondition new)"
    and "merge_notmay z p new t = (r, t')"
  shows "table_valid R t'"
proof -
  have "\<forall>s \<in> set (notmay t' q). unreachable (R q) (notmay_precondition s) (notmay_postcondition s)" for q
    using assms(1,2) merge_notmay_subset [OF assms(3)] merge_notmay_parts(2) [OF assms(3), of q]
    by (cases "q = p") (auto simp: table_valid_def)
  then show ?thesis using assms(1) merge_notmay_parts(3) [OF assms(3)] by (simp add: table_valid_def)
qed

lemma merge_must_valid:
  assumes "table_valid R t" "witnessed (R p) (must_precondition new) (must_postcondition new)"
    and "merge_must z p new t = (r, t')"
  shows "table_valid R t'"
proof -
  have "\<forall>s \<in> set (must t' q). witnessed (R q) (must_precondition s) (must_postcondition s)" for q
    using assms(1,2) merge_must_subset [OF assms(3)] merge_must_parts(2) [OF assms(3), of q]
    by (cases "q = p") (auto simp: table_valid_def)
  then show ?thesis using assms(1) merge_must_parts(3) [OF assms(3)] by (simp add: table_valid_def)
qed

lemma lookup_notmay_answers:
  assumes "table_valid R t" "lookup_notmay_covering z q t = Inr (Some s)"
  shows "unreachable (R (query_procedure q)) (query_pre q) (query_post q)"
proof -
  have "s \<in> set (notmay t (query_procedure q))" "notmay_covers z s q = Inr Covers"
    using first_covering_Some assms(2) unfolding lookup_notmay_covering_def by metis+
  with assms(1) notmay_covers_entails show ?thesis
    unfolding table_valid_def by (meson unreachable_mono)
qed

lemma lookup_must_answers:
  assumes "table_valid R t" "lookup_must_covering z q t = Inr (Some s)"
  shows "witnessed (R (query_procedure q)) (query_pre q) (query_post q)"
proof -
  have "s \<in> set (must t (query_procedure q))" "must_covers z s q = Inr Covers"
    using first_covering_Some assms(2) unfolding lookup_must_covering_def by metis+
  with assms(1) must_covers_entails show ?thesis
    unfolding table_valid_def by (meson witnessed_mono)
qed

end

section \<open>Extending a table\<close>

lemma push_entry_get:
  "set (get_or_empty (snd (push_entry k s m)) j)
    = set (get_or_empty m j) \<union> (if j = k then {s} else {})"
  by (auto simp: push_entry_def Let_def)

lemma push_entries_get:
  "set (get_or_empty (fold (\<lambda>s m. snd (push_entry k s m)) ss m) j)
    = set (get_or_empty m j) \<union> (if j = k then set ss else {})"
  by (induction ss arbitrary: m) (auto simp: push_entry_get)

lemma or_default_get [simp]: "get_or_empty (or_default k m) j = get_or_empty m j"
  by (simp add: or_default_def)

definition union_into :: "('k::linorder \<times> 'v list) list \<Rightarrow> ('k, 'v list) btree \<Rightarrow> ('k, 'v list) btree"
where
  "union_into other m = fold (\<lambda>(k, ss) m. fold (\<lambda>s m. snd (push_entry k s m)) ss m) other m"

lemma union_into_get:
  "set (get_or_empty (union_into other m) j)
    = set (get_or_empty m j) \<union> (\<Union>(k, ss) \<in> set other. if j = k then set ss else {})"
  unfolding union_into_def by (induction other arbitrary: m) (auto simp: push_entries_get split: if_splits)

lemma entries_at:
  assumes "bt_wf m"
  shows "(\<Union>(k, ss) \<in> set m. if j = k then set ss else {}) = set (get_or_empty m j)"
proof -
  have "(\<Union>(k, ss) \<in> set m. if j = k then set ss else {}) = (\<Union>ss \<in> {ss. bt_get m j = Some ss}. set ss)"
    using assms by (auto simp: bt_get_in split: if_splits)
  then show ?thesis by (auto simp: get_or_empty_def split: option.split)
qed

definition union_into_default :: "('k::linorder \<times> 'v list) list \<Rightarrow> ('k, 'v list) btree \<Rightarrow> ('k, 'v list) btree"
where
  "union_into_default other m =
     fold (\<lambda>(k, ss) m. fold (\<lambda>s m. snd (push_entry k s m)) ss (or_default k m)) other m"

lemma union_into_default_get:
  "set (get_or_empty (union_into_default other m) j)
    = set (get_or_empty m j) \<union> (\<Union>(k, ss) \<in> set other. if j = k then set ss else {})"
  unfolding union_into_default_def
  by (induction other arbitrary: m) (auto simp: push_entries_get split: if_splits)

definition fill_missing :: "('k::linorder \<times> 'v) list \<Rightarrow> ('k, 'v) btree \<Rightarrow> ('k, 'v) btree" where
  "fill_missing other m = fold (\<lambda>(k, v) m. if bt_get m k = None then bt_insert k v m else m) other m"

lemma bt_get_Cons: "bt_get ((k, v) # m) j = (if j = k then Some v else bt_get m j)"
  by (simp add: bt_get_def)

lemma fill_missing_get:
  "bt_get (fill_missing other m) j = (case bt_get m j of None \<Rightarrow> bt_get other j | Some v \<Rightarrow> Some v)"
  unfolding fill_missing_def
proof (induction other arbitrary: m)
  case Nil
  then show ?case by (simp split: option.split)
next
  case (Cons p other)
  then show ?case by (cases p) (auto simp: bt_get_Cons split: option.splits)
qed

lemma add_notmay_entries:
  "fold (\<lambda>s t. snd (add_notmay p s t)) ss t
    = t\<lparr>notmay_entries := fold (\<lambda>s m. snd (push_entry p s m)) ss (notmay_entries t)\<rparr>"
  by (induction ss arbitrary: t) (auto simp: add_notmay_def split: prod.splits)

lemma add_forward_may_entries:
  "fold (\<lambda>s t. snd (add_forward_may p s t)) ss t
    = t\<lparr>forward_may_entries := fold (\<lambda>s m. snd (push_entry p s m)) ss (forward_may_entries t)\<rparr>"
  by (induction ss arbitrary: t) (auto simp: add_forward_may_def split: prod.splits)

lemma fold_notmay:
  "fold (\<lambda>(p, ss) t. fold (\<lambda>s t. snd (add_notmay p s t)) ss t) ps t
    = t\<lparr>notmay_entries := union_into ps (notmay_entries t)\<rparr>"
  by (induction ps arbitrary: t) (auto simp: union_into_def add_notmay_entries)

lemma fold_forward_may:
  "fold (\<lambda>(p, ss) t. fold (\<lambda>s t. snd (add_forward_may p s t)) ss t) ps t
    = t\<lparr>forward_may_entries := union_into ps (forward_may_entries t)\<rparr>"
  by (induction ps arbitrary: t) (auto simp: union_into_def add_forward_may_entries)

lemma fold_must:
  "fold (\<lambda>(p, ss) t. t\<lparr>must_entries :=
      fold (\<lambda>s m. snd (push_entry p s m)) ss (or_default p (must_entries t))\<rparr>) ps t
    = t\<lparr>must_entries := union_into_default ps (must_entries t)\<rparr>"
  by (induction ps arbitrary: t) (auto simp: union_into_default_def)

lemma fold_invariants:
  "fold (\<lambda>(p, v) t. if bt_get (invariant_entries t) p = None
      then t\<lparr>invariant_entries := bt_insert p v (invariant_entries t)\<rparr> else t) ps t
    = t\<lparr>invariant_entries := fill_missing ps (invariant_entries t)\<rparr>"
  by (induction ps arbitrary: t) (auto simp: fill_missing_def)

lemma extend_from_eq:
  "extend_from other t = t\<lparr>
     notmay_entries := union_into (notmay_entries other) (notmay_entries t),
     must_entries := union_into_default (must_entries other) (must_entries t),
     forward_may_entries := union_into (forward_may_entries other) (forward_may_entries t),
     invariant_entries := fill_missing (invariant_entries other) (invariant_entries t)\<rparr>"
  by (simp add: extend_from_def fold_notmay fold_forward_may fold_must fold_invariants)

definition table_wf :: "summary_table \<Rightarrow> bool" where
  "table_wf t \<longleftrightarrow> bt_wf (notmay_entries t) \<and> bt_wf (must_entries t) \<and>
     bt_wf (forward_may_entries t) \<and> bt_wf (invariant_entries t)"

lemma extend_from_get:
  assumes "table_wf other"
  shows "set (notmay (extend_from other t) p) = set (notmay t p) \<union> set (notmay other p)"
    and "set (must (extend_from other t) p) = set (must t p) \<union> set (must other p)"
    and "set (forward_may (extend_from other t) p) = set (forward_may t p) \<union> set (forward_may other p)"
    and "bt_get (invariant_entries (extend_from other t)) p
      = (case bt_get (invariant_entries t) p of
           None \<Rightarrow> bt_get (invariant_entries other) p | Some v \<Rightarrow> Some v)"
  using assms by (simp_all add: extend_from_eq notmay_def must_def forward_may_def table_wf_def
      union_into_get union_into_default_get entries_at fill_missing_get)

section \<open>An example\<close>

text \<open>A procedure that returns its entry state, and what is known about it.\<close>

definition example_x :: "int \<Rightarrow> formula" where
  "example_x n = FEq (TVar (var_int ''x'')) (TInt (word_of_int n))"

definition example_weak :: notmay_summary where
  "example_weak = \<lparr>notmay_precondition = example_x 1, notmay_postcondition = FFalse\<rparr>"

definition example_strong :: notmay_summary where
  "example_strong = \<lparr>notmay_precondition = example_x 1, notmay_postcondition = example_x 2\<rparr>"

definition example_must :: must_summary where
  "example_must = \<lparr>must_precondition = FTrue, must_postcondition = example_x 0\<rparr>"

definition example_table :: summary_table where
  "example_table = table_new\<lparr>notmay_entries := [(''p'', [example_weak])]\<rparr>"

definition example_merged :: summary_table where
  "example_merged = table_new\<lparr>notmay_entries := [(''p'', [example_strong])]\<rparr>"

definition example_behaviour :: "procedure_name \<Rightarrow> behaviour" where
  "example_behaviour p a b \<longleftrightarrow> b = a"

lemma compare_eq_Int: "compare_values (=) d v (IntV n) \<longleftrightarrow> v = IntV n"
  by (cases v) auto

lemma example_strong_valid:
  "unreachable (example_behaviour p) (notmay_precondition example_strong)
     (notmay_postcondition example_strong)"
  by (auto simp: unreachable_def example_behaviour_def example_strong_def example_x_def compare_eq_Int)

lemma example_table_valid: "table_valid example_behaviour example_table"
  by (auto simp: table_valid_def example_table_def table_new_def notmay_def must_def
      get_or_empty_def bt_get_def unreachable_def example_weak_def)

lemma example_merged_valid: "table_valid example_behaviour example_merged"
  using example_strong_valid
  by (auto simp: table_valid_def example_merged_def table_new_def notmay_def must_def
      get_or_empty_def bt_get_def)

lemma example_merge:
  "merge_notmay folding_solver ''p'' example_strong example_table = (Inr True, example_merged)"
  by code_simp

definition example_must_table :: summary_table where
  "example_must_table = table_new\<lparr>must_entries := [(''p'', [example_must])]\<rparr>"

lemma example_must_valid:
  "witnessed (example_behaviour p) (must_precondition example_must) (must_postcondition example_must)"
proof -
  have "eval_formula sample_state (example_x 0)"
    by (simp add: example_x_def sample_state_def var_int_def var_new_def)
  then show ?thesis using sample_state_admissible
    by (auto simp: witnessed_def example_behaviour_def example_must_def)
qed

section \<open>Properties\<close>

text \<open>
  C14: merging a safety summary under a sound solver keeps the table valid whatever the outcome,
  and when the merge succeeds every summary the table held, and the new one, is covered by an
  entry that remains; nothing else in the table changes.
\<close>

theorem merge_notmay_correct:
  assumes "sound_solver z" and "table_valid R t"
    and "unreachable (R p) (notmay_precondition new) (notmay_postcondition new)"
    and "merge_notmay z p new t = (r, t')"
  shows "table_valid R t'
    \<and> (r \<in> range Inr \<longrightarrow> (\<forall>s \<in> insert new (set (notmay t p)). \<exists>u \<in> set (notmay t' p). notmay_below s u))
    \<and> (\<forall>q. q \<noteq> p \<longrightarrow> notmay t' q = notmay t q) \<and> must t' = must t"
proof -
  have z: "sound_oracle z" using assms(1) by (rule sound_oracle.intro)
  note parts = merge_notmay_parts [OF assms(4)]
  show ?thesis
    using sound_oracle.merge_notmay_valid [OF z assms(2,3,4)] sound_oracle.merge_notmay_covers [OF z]
      assms(4) parts(2,3) by blast
qed

theorem merge_notmay_witness:
  "table_valid example_behaviour example_merged \<and>
    (\<exists>u \<in> set (notmay example_merged ''p''). notmay_below example_weak u)"
  using merge_notmay_correct [OF folding_solver_sound example_table_valid example_strong_valid example_merge]
  by (auto simp: example_table_def table_new_def notmay_def get_or_empty_def bt_get_def)

text \<open>
  Merging a witness summary keeps the table valid, and a successful merge keeps the coverage
  of every witness; the direction of the implications is the reverse of the safety case.
\<close>

theorem merge_must_correct:
  assumes "sound_solver z" and "table_valid R t"
    and "witnessed (R p) (must_precondition new) (must_postcondition new)"
    and "merge_must z p new t = (r, t')"
  shows "table_valid R t'
    \<and> (r \<in> range Inr \<longrightarrow> (\<forall>s \<in> insert new (set (must t p)). \<exists>u \<in> set (must t' p). must_below s u))
    \<and> (\<forall>q. q \<noteq> p \<longrightarrow> must t' q = must t q) \<and> notmay t' = notmay t"
proof -
  have z: "sound_oracle z" using assms(1) by (rule sound_oracle.intro)
  note parts = merge_must_parts [OF assms(4)]
  show ?thesis
    using sound_oracle.merge_must_valid [OF z assms(2,3,4)] sound_oracle.merge_must_covers [OF z]
      assms(4) parts(2,3) by blast
qed

theorem merge_must_witness:
  "table_valid example_behaviour example_must_table \<and> notmay example_must_table = notmay table_new"
proof -
  have "table_valid example_behaviour table_new"
    by (simp add: table_valid_def table_new_def notmay_def must_def get_or_empty_def)
  moreover have "merge_must folding_solver ''p'' example_must table_new = (Inr True, example_must_table)"
    by (simp add: merge_must_def merge_entries_def table_new_def example_must_table_def
        get_or_empty_def)
  ultimately show ?thesis
    using merge_must_correct [where R = example_behaviour, OF folding_solver_sound _ example_must_valid]
    by blast
qed

text \<open>
  A lookup in a valid table answers its query: a covering safety summary proves the bad
  states of the query unreachable, a covering witness summary proves them reached.
\<close>

theorem lookup_covering_sound:
  assumes "sound_solver z" and "table_valid R t"
  shows "(lookup_notmay_covering z q t = Inr (Some s) \<longrightarrow>
      unreachable (R (query_procedure q)) (query_pre q) (query_post q)) \<and>
    (lookup_must_covering z q t = Inr (Some w) \<longrightarrow>
      witnessed (R (query_procedure q)) (query_pre q) (query_post q))"
  using sound_oracle.lookup_notmay_answers sound_oracle.lookup_must_answers
    sound_oracle.intro [OF assms(1)] assms(2) by blast+

theorem lookup_covering_witness:
  "unreachable (example_behaviour ''p'') (example_x 1) (example_x 2)"
proof -
  let ?q = "query_new ''p'' (example_x 1) (example_x 2)"
  have "lookup_notmay_covering folding_solver ?q example_merged = Inr (Some example_strong)"
    by code_simp
  with lookup_covering_sound [OF folding_solver_sound example_merged_valid, of ?q example_strong]
  show ?thesis by (simp add: query_new_def)
qed

text \<open>
  extending a table by another keeps exactly the summaries of both, prefers the invariants
  it already has, and keeps validity.
\<close>

theorem extend_from_union:
  assumes "table_wf other"
  shows "set (notmay (extend_from other t) p) = set (notmay t p) \<union> set (notmay other p) \<and>
    set (must (extend_from other t) p) = set (must t p) \<union> set (must other p) \<and>
    set (forward_may (extend_from other t) p) = set (forward_may t p) \<union> set (forward_may other p) \<and>
    bt_get (invariant_entries (extend_from other t)) p
      = (case bt_get (invariant_entries t) p of
           None \<Rightarrow> bt_get (invariant_entries other) p | Some v \<Rightarrow> Some v) \<and>
    (table_valid R t \<and> table_valid R other \<longrightarrow> table_valid R (extend_from other t))"
  using extend_from_get [OF assms] by (auto simp: table_valid_def)

theorem extend_from_witness:
  "set (notmay (extend_from example_merged example_table) ''p'') = {example_weak, example_strong}"
  using extend_from_union [of example_merged example_table "''p''"]
  by (auto simp: table_wf_def bt_wf_def example_merged_def example_table_def table_new_def notmay_def
      get_or_empty_def bt_get_def)

end
