(* ===== verification/Projection.thy ===== *)
theory Projection
  imports Summaries
begin

text \<open>
  Projection of a query to the interface of its procedure (\<open>src/analysis/interproc/query.rs\<close>,
  second half): local scalars are eliminated through the equalities that define them, and the
  summary is discarded when one survives.  \<open>BTreeMap<String, Term>\<close> is the ordered map of the
  prelude, a \<open>BTreeSet<String>\<close> a set.  The log messages are not modelled; the source compares
  terms by their \<open>Debug\<close> rendering, here they are compared as terms.
\<close>

section \<open>The interface\<close>

record procedure_interface =
  iface_procedure :: procedure_name
  iface_formals :: "string set"

definition procedure_interface_new :: "procedure_name \<Rightarrow> string list \<Rightarrow> procedure_interface" where
  "procedure_interface_new procedure formals =
     \<lparr>iface_procedure = procedure, iface_formals = set formals\<rparr>"

definition is_interface_scalar :: "procedure_interface \<Rightarrow> string \<Rightarrow> bool" where
  "is_interface_scalar self name =
     (if name \<in> iface_formals self then True
      else if name = iface_procedure self @ ''$__retval'' then True
      else if starts_with (iface_procedure self @ ''$%'') name then False
      else if starts_with (iface_procedure self @ ''$stack'') name
          \<or> starts_with (iface_procedure self @ ''$call'') name then True
      else True)"

section \<open>Local definitions\<close>

definition local_equality_pair ::
  "fterm \<Rightarrow> fterm \<Rightarrow> procedure_interface \<Rightarrow> (string \<times> fterm) option" where
  "local_equality_pair lhs rhs interface =
     (case lhs of
        TVar v \<Rightarrow> if is_interface_scalar interface (var_name v) then None
          else Some (var_name v, rhs)
      | _ \<Rightarrow> None)"

definition or_insert :: "'k::linorder \<Rightarrow> 'v \<Rightarrow> ('k, 'v) btree \<Rightarrow> ('k, 'v) btree" where
  "or_insert k v m = (if bt_get m k = None then bt_insert k v m else m)"

fun collect_local_definitions ::
  "formula \<Rightarrow> procedure_interface \<Rightarrow> (string, fterm) btree \<Rightarrow> (string, fterm) btree" where
  "collect_local_definitions (FEq lhs rhs) interface out =
     (case local_equality_pair lhs rhs interface of
        Some (name, replacement) \<Rightarrow> or_insert name replacement out
      | None \<Rightarrow> (case local_equality_pair rhs lhs interface of
          Some (name, replacement) \<Rightarrow> or_insert name replacement out
        | None \<Rightarrow> out))"
| "collect_local_definitions (FAnd parts) interface out =
     fold (\<lambda>p. collect_local_definitions p interface) parts out"
| "collect_local_definitions _ interface out = out"

section \<open>Simultaneous substitution by name\<close>

fun apply_subst_to_term :: "fterm \<Rightarrow> (string, fterm) btree \<Rightarrow> fterm"
  and apply_subst_to_formula :: "formula \<Rightarrow> (string, fterm) btree \<Rightarrow> formula" where
  "apply_subst_to_term (TVar v) subst =
     (case bt_get subst (var_name v) of None \<Rightarrow> TVar v | Some t \<Rightarrow> t)"
| "apply_subst_to_term (TInt n) subst = TInt n"
| "apply_subst_to_term (TReal q) subst = TReal q"
| "apply_subst_to_term (TBoolToInt inner) subst = TBoolToInt (apply_subst_to_formula inner subst)"
| "apply_subst_to_term (TSelect mem idx) subst = TSelect mem (apply_subst_to_term idx subst)"
| "apply_subst_to_term (TAdd a b) subst = TAdd (apply_subst_to_term a subst) (apply_subst_to_term b subst)"
| "apply_subst_to_term (TSub a b) subst = TSub (apply_subst_to_term a subst) (apply_subst_to_term b subst)"
| "apply_subst_to_term (TMul a b) subst = TMul (apply_subst_to_term a subst) (apply_subst_to_term b subst)"
| "apply_subst_to_term (TDiv a b) subst = TDiv (apply_subst_to_term a subst) (apply_subst_to_term b subst)"
| "apply_subst_to_term (TRem a b) subst = TRem (apply_subst_to_term a subst) (apply_subst_to_term b subst)"
| "apply_subst_to_term (TNeg inner) subst = TNeg (apply_subst_to_term inner subst)"
| "apply_subst_to_formula FTrue subst = FTrue"
| "apply_subst_to_formula FFalse subst = FFalse"
| "apply_subst_to_formula (FVar v) subst = FVar v"
| "apply_subst_to_formula (FMemoryEq a b) subst = FMemoryEq a b"
| "apply_subst_to_formula (FNot inner) subst = f_not (apply_subst_to_formula inner subst)"
| "apply_subst_to_formula (FAnd parts) subst =
     f_and_many (map (\<lambda>p. apply_subst_to_formula p subst) parts)"
| "apply_subst_to_formula (FOr parts) subst =
     f_or_many (map (\<lambda>p. apply_subst_to_formula p subst) parts)"
| "apply_subst_to_formula (FImplies lhs rhs) subst =
     f_implies (apply_subst_to_formula lhs subst) (apply_subst_to_formula rhs subst)"
| "apply_subst_to_formula (FEq a b) subst = FEq (apply_subst_to_term a subst) (apply_subst_to_term b subst)"
| "apply_subst_to_formula (FLt a b) subst = FLt (apply_subst_to_term a subst) (apply_subst_to_term b subst)"
| "apply_subst_to_formula (FLe a b) subst = FLe (apply_subst_to_term a subst) (apply_subst_to_term b subst)"
| "apply_subst_to_formula (FGt a b) subst = FGt (apply_subst_to_term a subst) (apply_subst_to_term b subst)"
| "apply_subst_to_formula (FGe a b) subst = FGe (apply_subst_to_term a subst) (apply_subst_to_term b subst)"

text \<open>
  The loop of \<open>resolve_substitution_chain\<close>: each round rewrites every value with a snapshot of
  the map, at most 8 rounds, stopping when nothing changed.
\<close>

fun resolve_rounds :: "nat \<Rightarrow> (string, fterm) btree \<Rightarrow> (string, fterm) btree" where
  "resolve_rounds 0 subst = subst"
| "resolve_rounds (Suc rounds) subst =
     (let rewritten = map (\<lambda>(name, val). (name, apply_subst_to_term val subst)) subst in
      if rewritten = subst then subst else resolve_rounds rounds rewritten)"

definition resolve_substitution_chain :: "(string, fterm) btree \<Rightarrow> (string, fterm) btree" where
  "resolve_substitution_chain subst = resolve_rounds 8 subst"

definition guess_sort_of :: "fterm \<Rightarrow> sort" where
  "guess_sort_of t = (case t of TReal _ \<Rightarrow> SReal | _ \<Rightarrow> SInt)"

section \<open>Surviving locals\<close>

definition name_if_local :: "procedure_interface \<Rightarrow> var \<Rightarrow> string set" where
  "name_if_local interface v = (if is_interface_scalar interface (var_name v) then {} else {var_name v})"

primrec walk_memory_collect_non_interface :: "procedure_interface \<Rightarrow> memory \<Rightarrow> string set"
  and walk_term_collect_non_interface :: "procedure_interface \<Rightarrow> fterm \<Rightarrow> string set"
  and walk_formula_collect_non_interface :: "procedure_interface \<Rightarrow> formula \<Rightarrow> string set" where
  "walk_memory_collect_non_interface interface (MVar r) = {}"
| "walk_memory_collect_non_interface interface (MStore mem idx val) =
     walk_memory_collect_non_interface interface mem
       \<union> walk_term_collect_non_interface interface idx \<union> walk_term_collect_non_interface interface val"
| "walk_term_collect_non_interface interface (TVar v) = name_if_local interface v"
| "walk_term_collect_non_interface interface (TInt n) = {}"
| "walk_term_collect_non_interface interface (TReal q) = {}"
| "walk_term_collect_non_interface interface (TBoolToInt inner) =
     walk_formula_collect_non_interface interface inner"
| "walk_term_collect_non_interface interface (TSelect mem idx) =
     walk_term_collect_non_interface interface idx"
| "walk_term_collect_non_interface interface (TAdd a b) =
     walk_term_collect_non_interface interface a \<union> walk_term_collect_non_interface interface b"
| "walk_term_collect_non_interface interface (TSub a b) =
     walk_term_collect_non_interface interface a \<union> walk_term_collect_non_interface interface b"
| "walk_term_collect_non_interface interface (TMul a b) =
     walk_term_collect_non_interface interface a \<union> walk_term_collect_non_interface interface b"
| "walk_term_collect_non_interface interface (TDiv a b) =
     walk_term_collect_non_interface interface a \<union> walk_term_collect_non_interface interface b"
| "walk_term_collect_non_interface interface (TRem a b) =
     walk_term_collect_non_interface interface a \<union> walk_term_collect_non_interface interface b"
| "walk_term_collect_non_interface interface (TNeg inner) =
     walk_term_collect_non_interface interface inner"
| "walk_formula_collect_non_interface interface FTrue = {}"
| "walk_formula_collect_non_interface interface FFalse = {}"
| "walk_formula_collect_non_interface interface (FVar v) = name_if_local interface v"
| "walk_formula_collect_non_interface interface (FNot inner) =
     walk_formula_collect_non_interface interface inner"
| "walk_formula_collect_non_interface interface (FAnd parts) =
     \<Union> (set (map (walk_formula_collect_non_interface interface) parts))"
| "walk_formula_collect_non_interface interface (FOr parts) =
     \<Union> (set (map (walk_formula_collect_non_interface interface) parts))"
| "walk_formula_collect_non_interface interface (FImplies lhs rhs) =
     walk_formula_collect_non_interface interface lhs \<union> walk_formula_collect_non_interface interface rhs"
| "walk_formula_collect_non_interface interface (FEq a b) =
     walk_term_collect_non_interface interface a \<union> walk_term_collect_non_interface interface b"
| "walk_formula_collect_non_interface interface (FMemoryEq a b) =
     walk_memory_collect_non_interface interface a \<union> walk_memory_collect_non_interface interface b"
| "walk_formula_collect_non_interface interface (FLt a b) =
     walk_term_collect_non_interface interface a \<union> walk_term_collect_non_interface interface b"
| "walk_formula_collect_non_interface interface (FLe a b) =
     walk_term_collect_non_interface interface a \<union> walk_term_collect_non_interface interface b"
| "walk_formula_collect_non_interface interface (FGt a b) =
     walk_term_collect_non_interface interface a \<union> walk_term_collect_non_interface interface b"
| "walk_formula_collect_non_interface interface (FGe a b) =
     walk_term_collect_non_interface interface a \<union> walk_term_collect_non_interface interface b"

definition find_non_interface_scalars :: "formula \<Rightarrow> procedure_interface \<Rightarrow> string set" where
  "find_non_interface_scalars f interface = walk_formula_collect_non_interface interface f"

primrec memory_mentions_non_interface_scalar :: "procedure_interface \<Rightarrow> memory \<Rightarrow> bool"
  and term_mentions_non_interface_scalar :: "procedure_interface \<Rightarrow> fterm \<Rightarrow> bool"
  and formula_mentions_non_interface_scalar :: "procedure_interface \<Rightarrow> formula \<Rightarrow> bool" where
  "memory_mentions_non_interface_scalar interface (MVar r) = False"
| "memory_mentions_non_interface_scalar interface (MStore mem idx val) =
     (memory_mentions_non_interface_scalar interface mem
       \<or> term_mentions_non_interface_scalar interface idx \<or> term_mentions_non_interface_scalar interface val)"
| "term_mentions_non_interface_scalar interface (TVar v) =
     (\<not> is_interface_scalar interface (var_name v))"
| "term_mentions_non_interface_scalar interface (TInt n) = False"
| "term_mentions_non_interface_scalar interface (TReal q) = False"
| "term_mentions_non_interface_scalar interface (TBoolToInt inner) =
     formula_mentions_non_interface_scalar interface inner"
| "term_mentions_non_interface_scalar interface (TSelect mem idx) =
     term_mentions_non_interface_scalar interface idx"
| "term_mentions_non_interface_scalar interface (TAdd a b) =
     (term_mentions_non_interface_scalar interface a \<or> term_mentions_non_interface_scalar interface b)"
| "term_mentions_non_interface_scalar interface (TSub a b) =
     (term_mentions_non_interface_scalar interface a \<or> term_mentions_non_interface_scalar interface b)"
| "term_mentions_non_interface_scalar interface (TMul a b) =
     (term_mentions_non_interface_scalar interface a \<or> term_mentions_non_interface_scalar interface b)"
| "term_mentions_non_interface_scalar interface (TDiv a b) =
     (term_mentions_non_interface_scalar interface a \<or> term_mentions_non_interface_scalar interface b)"
| "term_mentions_non_interface_scalar interface (TRem a b) =
     (term_mentions_non_interface_scalar interface a \<or> term_mentions_non_interface_scalar interface b)"
| "term_mentions_non_interface_scalar interface (TNeg inner) =
     term_mentions_non_interface_scalar interface inner"
| "formula_mentions_non_interface_scalar interface FTrue = False"
| "formula_mentions_non_interface_scalar interface FFalse = False"
| "formula_mentions_non_interface_scalar interface (FVar v) =
     (\<not> is_interface_scalar interface (var_name v))"
| "formula_mentions_non_interface_scalar interface (FNot inner) =
     formula_mentions_non_interface_scalar interface inner"
| "formula_mentions_non_interface_scalar interface (FAnd parts) =
     list_ex (\<lambda>b. b) (map (formula_mentions_non_interface_scalar interface) parts)"
| "formula_mentions_non_interface_scalar interface (FOr parts) =
     list_ex (\<lambda>b. b) (map (formula_mentions_non_interface_scalar interface) parts)"
| "formula_mentions_non_interface_scalar interface (FImplies lhs rhs) =
     (formula_mentions_non_interface_scalar interface lhs
       \<or> formula_mentions_non_interface_scalar interface rhs)"
| "formula_mentions_non_interface_scalar interface (FEq a b) =
     (term_mentions_non_interface_scalar interface a \<or> term_mentions_non_interface_scalar interface b)"
| "formula_mentions_non_interface_scalar interface (FMemoryEq a b) =
     (memory_mentions_non_interface_scalar interface a
       \<or> memory_mentions_non_interface_scalar interface b)"
| "formula_mentions_non_interface_scalar interface (FLt a b) =
     (term_mentions_non_interface_scalar interface a \<or> term_mentions_non_interface_scalar interface b)"
| "formula_mentions_non_interface_scalar interface (FLe a b) =
     (term_mentions_non_interface_scalar interface a \<or> term_mentions_non_interface_scalar interface b)"
| "formula_mentions_non_interface_scalar interface (FGt a b) =
     (term_mentions_non_interface_scalar interface a \<or> term_mentions_non_interface_scalar interface b)"
| "formula_mentions_non_interface_scalar interface (FGe a b) =
     (term_mentions_non_interface_scalar interface a \<or> term_mentions_non_interface_scalar interface b)"

section \<open>Projection and the summaries built from it\<close>

text \<open>The body of the loop that applies the resolved substitutions, in key order.\<close>

definition substitute_local :: "string \<times> fterm \<Rightarrow> formula \<Rightarrow> formula" where
  "substitute_local = (\<lambda>(name, replacement) projected.
     substitute_var_in_formula (var_new name (guess_sort_of replacement)) replacement projected)"

definition project_to_interface_with_debug_names ::
  "formula \<Rightarrow> procedure_interface \<Rightarrow> (string \<rightharpoonup> string) option \<Rightarrow> formula option" where
  "project_to_interface_with_debug_names f interface debug_names =
     (let substitutions = collect_local_definitions f interface [];
          resolved = resolve_substitution_chain substitutions;
          projected = fold substitute_local resolved f in
      if find_non_interface_scalars projected interface \<noteq> {} then None else Some projected)"

definition project_to_interface :: "formula \<Rightarrow> procedure_interface \<Rightarrow> formula option" where
  "project_to_interface f interface = project_to_interface_with_debug_names f interface None"

text \<open>The rendering used in the diagnostic, over the sorted list of the set.\<close>

definition render_locals_with_debug_names :: "string list \<Rightarrow> (string \<rightharpoonup> string) option \<Rightarrow> string" where
  "render_locals_with_debug_names locals debug_names =
     ''{'' @ join_strings '', '' (map (\<lambda>name.
        case Option.bind debug_names (\<lambda>m. m name) of
          Some src \<Rightarrow> if src \<noteq> name then name @ '' ('' @ src @ '')'' else name
        | None \<Rightarrow> name) locals) @ ''}''"

definition create_notmay_summary_with_debug_names ::
  "query \<Rightarrow> procedure_interface \<Rightarrow> (string \<rightharpoonup> string) option \<Rightarrow> notmay_summary option" where
  "create_notmay_summary_with_debug_names q interface debug_names =
     Option.bind (project_to_interface_with_debug_names (query_pre q) interface debug_names) (\<lambda>pre.
     Option.bind (project_to_interface_with_debug_names (query_post q) interface debug_names) (\<lambda>post.
       Some \<lparr>notmay_precondition = pre, notmay_postcondition = post\<rparr>))"

definition create_notmay_summary :: "query \<Rightarrow> procedure_interface \<Rightarrow> notmay_summary option" where
  "create_notmay_summary q interface = create_notmay_summary_with_debug_names q interface None"

definition create_must_summary_with_debug_names ::
  "formula \<Rightarrow> formula \<Rightarrow> procedure_interface \<Rightarrow> (string \<rightharpoonup> string) option \<Rightarrow> must_summary option"
where
  "create_must_summary_with_debug_names concrete_entry concrete_post interface debug_names =
     Option.bind (project_to_interface_with_debug_names concrete_entry interface debug_names) (\<lambda>pre.
     Option.bind (project_to_interface_with_debug_names concrete_post interface debug_names) (\<lambda>post.
       Some \<lparr>must_precondition = pre, must_postcondition = post\<rparr>))"

definition create_must_summary :: "formula \<Rightarrow> formula \<Rightarrow> procedure_interface \<Rightarrow> must_summary option" where
  "create_must_summary concrete_entry concrete_post interface =
     create_must_summary_with_debug_names concrete_entry concrete_post interface None"

end
