(* ===== verification/Projection_Correct.thy ===== *)
theory Projection_Correct
  imports Projection Summaries_Correct
begin

text \<open>
  Projection to the interface is existential quantification of the local scalars.  A model of
  the formula is a model of the projection because the substituted equalities hold in it
  (\<open>tied\<close>); a model of the projection becomes a model of the formula by assigning the locals
  the values of their definitions.
\<close>

section \<open>States up to locals\<close>

definition same_but_locals :: "procedure_interface \<Rightarrow> valuation \<Rightarrow> valuation \<Rightarrow> bool" where
  "same_but_locals interface s t \<longleftrightarrow> (\<exists>g. t = s\<lparr>scalar_of := g\<rparr> \<and>
     (\<forall>v. is_interface_scalar interface (var_name v) \<longrightarrow> g v = scalar_of s v))"

lemma same_but_locals_refl [simp]: "same_but_locals interface s s"
  by (auto simp: same_but_locals_def intro: exI [of _ "scalar_of s"])

lemma same_but_locals_set_scalar:
  assumes "same_but_locals interface s t" "\<not> is_interface_scalar interface (var_name v)"
  shows "same_but_locals interface s (set_scalar v x t)"
proof -
  obtain g where "t = s\<lparr>scalar_of := g\<rparr>"
    "\<forall>v. is_interface_scalar interface (var_name v) \<longrightarrow> g v = scalar_of s v"
    using assms(1) by (auto simp: same_but_locals_def)
  with assms(2) show ?thesis
    by (auto simp: same_but_locals_def set_scalar_def intro!: exI [of _ "g(v := x)"])
qed

lemma same_but_localsD:
  "same_but_locals interface s t \<Longrightarrow> is_interface_scalar interface (var_name v) \<Longrightarrow>
    scalar_of t v = scalar_of s v"
  by (auto simp: same_but_locals_def)

text \<open>Locals are integers, and a map of definitions binds locals to terms over \<open>V\<close>.\<close>

definition int_locals :: "procedure_interface \<Rightarrow> var set \<Rightarrow> bool" where
  "int_locals interface V \<longleftrightarrow>
     (\<forall>v \<in> V. \<not> is_interface_scalar interface (var_name v) \<longrightarrow> var_sort v = SInt)"

definition binds_locals :: "procedure_interface \<Rightarrow> var set \<Rightarrow> (string \<times> fterm) list \<Rightarrow> bool" where
  "binds_locals interface V subst \<longleftrightarrow>
     (\<forall>(x, t) \<in> set subst. \<not> is_interface_scalar interface x \<and> scalars_term t \<subseteq> V)"

definition tied :: "valuation \<Rightarrow> (string \<times> fterm) list \<Rightarrow> bool" where
  "tied s subst \<longleftrightarrow> (\<forall>(x, t) \<in> set subst. scalar_of s (var_int x) = eval_term s t)"

lemma binds_localsD:
  "binds_locals interface V subst \<Longrightarrow> (x, t) \<in> set subst \<Longrightarrow> scalars_term t \<subseteq> V"
  by (auto simp: binds_locals_def)

lemma int_locals_mono: "int_locals interface V \<Longrightarrow> W \<subseteq> V \<Longrightarrow> int_locals interface W"
  by (auto simp: int_locals_def)

lemma int_local: "int_locals interface V \<Longrightarrow> v \<in> V \<Longrightarrow> \<not> is_interface_scalar interface (var_name v)
  \<Longrightarrow> v = var_int (var_name v)"
  by (cases v) (auto simp: int_locals_def var_int_def var_new_def)

section \<open>Collecting definitions\<close>

lemma or_insert_mem: "p \<in> set (or_insert k v m) \<Longrightarrow> p = (k, v) \<or> p \<in> set m"
proof -
  have "p \<in> set (bt_insert k v m) \<Longrightarrow> p = (k, v) \<or> p \<in> set m"
    by (induction m rule: bt_insert.induct [of _ k v]) (auto split: if_splits)
  then show "p \<in> set (or_insert k v m) \<Longrightarrow> p = (k, v) \<or> p \<in> set m"
    by (auto simp: or_insert_def split: if_splits)
qed

lemma or_insert_all: "(\<forall>p \<in> set m. P p) \<Longrightarrow> P (k, v) \<Longrightarrow> \<forall>p \<in> set (or_insert k v m). P p"
  using or_insert_mem by metis

lemma local_equality_pair_Some:
  "local_equality_pair lhs rhs interface = Some (x, t) \<longleftrightarrow>
    (\<exists>v. lhs = TVar v \<and> var_name v = x \<and> t = rhs \<and> \<not> is_interface_scalar interface x)"
  by (auto simp: local_equality_pair_def split: fterm.splits)

lemma equal_values: "compare_values (=) (=) x y \<Longrightarrow> x = y"
  by (cases x; cases y) auto

lemma collect_local_definitions_props:
  "binds_locals interface V out \<Longrightarrow> scalars_formula f \<subseteq> V \<Longrightarrow>
    binds_locals interface V (collect_local_definitions f interface out)"
proof (induction f interface out rule: collect_local_definitions.induct)
  case (1 lhs rhs interface out)
  then show ?case unfolding binds_locals_def
    by (auto simp: local_equality_pair_Some split: option.splits dest!: or_insert_mem)
next
  case (2 parts interface out)
  have "binds_locals interface V (fold (\<lambda>p. collect_local_definitions p interface) ps out)"
    if "set ps \<subseteq> set parts" for ps
    using that 2 by (induction ps rule: rev_induct) auto
  then show ?case by simp
qed simp_all

lemma collect_local_definitions_tied:
  "tied s out \<Longrightarrow> int_locals interface (scalars_formula f) \<Longrightarrow> eval_formula s f \<Longrightarrow>
    tied s (collect_local_definitions f interface out)"
proof (induction f interface out rule: collect_local_definitions.induct)
  case (1 lhs rhs interface out)
  have eq: "eval_term s lhs = eval_term s rhs" using 1(3) by (auto intro: equal_values)
  have "scalar_of s (var_int x) = eval_term s t"
    if "local_equality_pair lhs rhs interface = Some (x, t) \<or> local_equality_pair rhs lhs interface = Some (x, t)"
    for x t
    using that 1(2) eq int_local [of interface "scalars_formula (FEq lhs rhs)"]
    by (auto simp: local_equality_pair_Some)
  then show ?case using 1(1) unfolding tied_def
    by (auto split: option.splits dest!: or_insert_mem)
next
  case (2 parts interface out)
  have "tied s (fold (\<lambda>p. collect_local_definitions p interface) ps out)"
    if "set ps \<subseteq> set parts" for ps
    using that
  proof (induction ps rule: rev_induct)
    case (snoc p ps)
    then show ?case using 2 by (auto simp: int_locals_def)
  qed (use 2 in simp)
  then show ?case by simp
qed simp_all

section \<open>Resolving chains\<close>

lemma scalars_apply_subst:
  shows "binds_locals interface V subst \<Longrightarrow>
      scalars_term (apply_subst_to_term e subst) \<subseteq> scalars_term e \<union> V"
    and "binds_locals interface V subst \<Longrightarrow>
      scalars_formula (apply_subst_to_formula f subst) \<subseteq> scalars_formula f \<union> V"
proof (induction e subst and f subst rule: apply_subst_to_term_apply_subst_to_formula.induct)
  case (1 v subst)
  then show ?case by (auto simp: binds_locals_def dest!: bt_get_SomeD split: option.split)
next
  case (16 inner subst)
  then show ?case using scalar_syms.sym_f_not by fastforce
next
  case (17 parts subst)
  then show ?case
    using scalar_syms.sym_f_and_many [of "map (\<lambda>p. apply_subst_to_formula p subst) parts"] by fastforce
next
  case (18 parts subst)
  then show ?case
    using scalar_syms.sym_f_or_many [of "map (\<lambda>p. apply_subst_to_formula p subst) parts"] by fastforce
next
  case (19 lhs rhs subst)
  then show ?case
    using scalar_syms.sym_f_implies [of "apply_subst_to_formula lhs subst" "apply_subst_to_formula rhs subst"]
    by fastforce
qed auto

lemma eval_apply_subst:
  shows "tied s subst \<Longrightarrow> binds_locals interface V subst \<Longrightarrow> int_locals interface (scalars_term e) \<Longrightarrow>
      eval_term s (apply_subst_to_term e subst) = eval_term s e"
    and "tied s subst \<Longrightarrow> binds_locals interface V subst \<Longrightarrow> int_locals interface (scalars_formula f) \<Longrightarrow>
      eval_formula s (apply_subst_to_formula f subst) = eval_formula s f"
proof (induction e subst and f subst rule: apply_subst_to_term_apply_subst_to_formula.induct)
  case (1 v subst)
  show ?case
  proof (cases "bt_get subst (var_name v)")
    case (Some t)
    then have mem: "(var_name v, t) \<in> set subst" by (rule bt_get_SomeD)
    with 1(2) have "\<not> is_interface_scalar interface (var_name v)" by (auto simp: binds_locals_def)
    with 1(3) have "v = var_int (var_name v)" by (intro int_local) auto
    with mem 1(1) have "scalar_of s v = eval_term s t" by (auto simp: tied_def)
    with Some show ?thesis by simp
  qed simp
qed (auto simp: int_locals_def)

lemma resolve_rounds_props:
  "binds_locals interface V subst \<Longrightarrow> binds_locals interface V (resolve_rounds n subst)"
proof (induction n subst rule: resolve_rounds.induct)
  case (2 n subst)
  have "binds_locals interface V (map (\<lambda>(name, val). (name, apply_subst_to_term val subst)) subst)"
    using 2(2) scalars_apply_subst(1) [OF 2(2)] by (fastforce simp: binds_locals_def)
  with 2 show ?case by (simp add: Let_def)
qed simp

lemma resolve_rounds_tied:
  "binds_locals interface V subst \<Longrightarrow> int_locals interface V \<Longrightarrow> tied s subst \<Longrightarrow>
    tied s (resolve_rounds n subst)"
proof (induction n subst rule: resolve_rounds.induct)
  case (2 n subst)
  let ?new = "map (\<lambda>(name, val). (name, apply_subst_to_term val subst)) subst"
  have "binds_locals interface V ?new"
    using 2(2) scalars_apply_subst(1) [OF 2(2)] by (fastforce simp: binds_locals_def)
  moreover have "tied s ?new"
  proof -
    have "eval_term s (apply_subst_to_term t subst) = eval_term s t" if "(x, t) \<in> set subst" for x t
      by (rule eval_apply_subst(1) [OF 2(4,2)]) (rule int_locals_mono [OF 2(3) binds_localsD [OF 2(2) that]])
    then show ?thesis using 2(4) by (auto simp: tied_def)
  qed
  ultimately show ?case using 2 by (simp add: Let_def)
qed simp

section \<open>Eliminating the locals\<close>

lemma scalars_substitute_var:
  shows "scalars_memory (substitute_var_in_memory x t m) \<subseteq> scalars_memory m \<union> scalars_term t"
    and "scalars_term (substitute_var_in_term x t e) \<subseteq> scalars_term e \<union> scalars_term t"
    and scalars_substitute_var_in_formula:
      "scalars_formula (substitute_var_in_formula x t f) \<subseteq> scalars_formula f \<union> scalars_term t"
proof (induction m and e and f)
  case (FNot f)
  then show ?case using scalar_syms.sym_f_not [of "substitute_var_in_formula x t f"] by auto
next
  case (FAnd fs)
  then show ?case
    using scalar_syms.sym_f_and_many [of "map (substitute_var_in_formula x t) fs"] by fastforce
next
  case (FOr fs)
  then show ?case
    using scalar_syms.sym_f_or_many [of "map (substitute_var_in_formula x t) fs"] by fastforce
next
  case (FImplies f g)
  then show ?case
    using scalar_syms.sym_f_implies [of "substitute_var_in_formula x t f" "substitute_var_in_formula x t g"]
    by auto
qed auto

lemma set_scalar_same: "scalar_of s v = x \<Longrightarrow> set_scalar v x s = s"
  by (auto simp: set_scalar_def)

lemma substitute_local_tied:
  assumes "int_locals interface (scalars_formula f)" "\<not> is_interface_scalar interface x"
    and "scalar_of s (var_int x) = eval_term s t"
  shows "eval_formula s (substitute_local (x, t) f) = eval_formula s f"
proof (cases "guess_sort_of t = SInt")
  case True
  with assms(3) show ?thesis
    by (simp add: substitute_local_def eval_substitute_var_in_formula set_scalar_same flip: var_int_def)
next
  case False
  then have "guess_sort_of t = SReal" by (auto simp: guess_sort_of_def split: fterm.splits)
  moreover have "var_new x SReal \<notin> scalars_formula f"
    using assms(1,2) by (force simp: int_locals_def var_new_def)
  ultimately show ?thesis
    by (simp add: substitute_local_def eval_substitute_var_in_formula eval_set_scalar_unused)
qed

lemma fold_substitute_local_tied:
  "binds_locals interface V subst \<Longrightarrow> int_locals interface V \<Longrightarrow> tied s subst \<Longrightarrow> scalars_formula f \<subseteq> V \<Longrightarrow>
    eval_formula s (fold substitute_local subst f) = eval_formula s f"
proof (induction subst arbitrary: f)
  case (Cons p subst)
  obtain x t where p: "p = (x, t)" by fastforce
  have x: "\<not> is_interface_scalar interface x" "scalars_term t \<subseteq> V" "scalar_of s (var_int x) = eval_term s t"
    using Cons.prems(1,3) by (auto simp: p binds_locals_def tied_def)
  have "scalars_formula (substitute_local p f) \<subseteq> V"
    using scalars_substitute_var_in_formula Cons.prems(4) x(2) by (fastforce simp: p substitute_local_def)
  then have "eval_formula s (fold substitute_local subst (substitute_local p f))
      = eval_formula s (substitute_local p f)"
    using Cons.prems by (intro Cons.IH) (auto simp: binds_locals_def tied_def)
  moreover have "int_locals interface (scalars_formula f)"
    using Cons.prems(2,4) by (auto simp: int_locals_def)
  ultimately show ?case using substitute_local_tied [OF _ x(1,3)] by (simp add: p)
qed simp

lemma fold_substitute_local_lift:
  "binds_locals interface V subst \<Longrightarrow> eval_formula s (fold substitute_local subst f) \<Longrightarrow>
    \<exists>t. same_but_locals interface s t \<and> eval_formula t f"
proof (induction subst arbitrary: f)
  case (Cons p subst)
  obtain x e where p: "p = (x, e)" by fastforce
  obtain t where t: "same_but_locals interface s t" "eval_formula t (substitute_local p f)"
    using Cons by (force simp: binds_locals_def)
  let ?v = "var_new x (guess_sort_of e)"
  have "eval_formula (set_scalar ?v (eval_term t e) t) f"
    using t(2) by (simp add: p substitute_local_def eval_substitute_var_in_formula)
  moreover have "same_but_locals interface s (set_scalar ?v (eval_term t e) t)"
    using Cons.prems(1) t(1) by (intro same_but_locals_set_scalar) (auto simp: p binds_locals_def var_new_def)
  ultimately show ?case by blast
qed (metis fold_Nil id_apply same_but_locals_refl)

section \<open>Projection and summaries\<close>

lemma project_Some:
  "project_to_interface f interface = Some p \<longleftrightarrow>
    p = fold substitute_local (resolve_substitution_chain (collect_local_definitions f interface [])) f
    \<and> find_non_interface_scalars p interface = {}"
  by (auto simp: project_to_interface_def project_to_interface_with_debug_names_def Let_def)

lemma resolved_definitions:
  fixes f interface
  defines "subst \<equiv> resolve_substitution_chain (collect_local_definitions f interface [])"
  shows "binds_locals interface (scalars_formula f) subst"
    and "int_locals interface (scalars_formula f) \<Longrightarrow> eval_formula s f \<Longrightarrow> tied s subst"
proof -
  have b: "binds_locals interface (scalars_formula f) (collect_local_definitions f interface [])"
    by (intro collect_local_definitions_props) (simp_all add: binds_locals_def)
  then show "binds_locals interface (scalars_formula f) subst"
    unfolding subst_def resolve_substitution_chain_def by (rule resolve_rounds_props)
  show "tied s subst" if i: "int_locals interface (scalars_formula f)" and "eval_formula s f"
    unfolding subst_def resolve_substitution_chain_def using that
    by (intro resolve_rounds_tied [OF b i] collect_local_definitions_tied) (simp_all add: tied_def)
qed

lemma project_forward:
  assumes "project_to_interface f interface = Some p" "int_locals interface (scalars_formula f)"
    and "eval_formula s f"
  shows "eval_formula s p"
  using assms fold_substitute_local_tied [OF resolved_definitions(1) assms(2)
      resolved_definitions(2) [OF assms(2,3)] subset_refl]
  by (simp add: project_Some)

lemma project_backward:
  assumes "project_to_interface f interface = Some p" "eval_formula s p"
  shows "\<exists>t. same_but_locals interface s t \<and> eval_formula t f"
  using assms by (intro fold_substitute_local_lift [OF resolved_definitions(1)]) (simp add: project_Some)

lemma eval_same_but_locals:
  assumes "same_but_locals interface s t" "\<forall>v \<in> scalars_formula p. is_interface_scalar interface (var_name v)"
  shows "eval_formula t p = eval_formula s p"
  using assms by (intro eval_formula_agree) (auto simp: same_but_locals_def agree_def same_arith_def)

text \<open>
  C17: a successful projection over integer locals is the quantified formula.  It holds in every
  model of the formula, each of its models becomes one of the formula by changing locals only,
  and when no local is left it is equivalent to the existence of such a model.
\<close>

theorem projection_is_quantification:
  assumes "project_to_interface f interface = Some p" "int_locals interface (scalars_formula f)"
  shows "(eval_formula s f \<longrightarrow> eval_formula s p)
    \<and> (eval_formula s p \<longrightarrow> (\<exists>t. same_but_locals interface s t \<and> eval_formula t f))
    \<and> ((\<forall>v \<in> scalars_formula p. is_interface_scalar interface (var_name v)) \<longrightarrow>
        (eval_formula s p \<longleftrightarrow> (\<exists>t. same_but_locals interface s t \<and> eval_formula t f)))"
  using project_forward [OF assms] project_backward [OF assms(1)] eval_same_but_locals by blast

definition sample_interface :: procedure_interface where
  "sample_interface = procedure_interface_new ''p'' [''p$%0'']"

definition sample_chain :: formula where
  "sample_chain = FAnd
     [FEq (TVar (var_int ''p$%3'')) (TAdd (TVar (var_int ''p$%2'')) (TInt 1)),
      FEq (TVar (var_int ''p$%2'')) (TMul (TVar (var_int ''p$%0'')) (TInt 2)),
      FGt (TVar (var_int ''p$%3'')) (TInt 0)]"

definition sample_projection :: formula where
  "sample_projection =
     (let d = TMul (TVar (var_int ''p$%0'')) (TInt 2); e = TAdd d (TInt 1) in
      FAnd [FEq e e, FEq d d, FGt e (TInt 0)])"

lemma sample_chain_projects: "project_to_interface sample_chain sample_interface = Some sample_projection"
  by code_simp

lemma sample_chain_ints: "int_locals sample_interface (scalars_formula sample_chain)"
  by (simp add: int_locals_def sample_chain_def var_int_def var_new_def)

definition sample_caller :: valuation where
  "sample_caller = set_scalar (var_int ''p$%0'') (IntV 1) sample_state"

theorem projection_witness:
  "eval_formula sample_caller sample_projection
    \<and> (\<exists>t. same_but_locals sample_interface sample_caller t \<and> eval_formula t sample_chain)"
proof -
  have "eval_formula sample_caller sample_projection"
    by (simp add: sample_caller_def sample_projection_def Let_def)
  with projection_is_quantification [OF sample_chain_projects sample_chain_ints, of sample_caller]
  show ?thesis by blast
qed

text \<open>
  A behaviour whose locals are its own: changing the locals of the callee in the entry or the
  exit state does not matter to it.
\<close>

definition local_to :: "procedure_interface \<Rightarrow> behaviour \<Rightarrow> bool" where
  "local_to interface R \<longleftrightarrow> (\<forall>a b a' b'. R a b \<longrightarrow> same_but_locals interface a a' \<longrightarrow>
     same_but_locals interface b b' \<longrightarrow> R a' b')"

text \<open>
  A summary created from a verified query inherits its verdict: if no execution leads from
  the precondition to the postcondition of the query, none does for the projected pair.
\<close>

theorem create_notmay_summary_sound:
  assumes "create_notmay_summary q interface = Some summary" "local_to interface R"
    and "\<forall>a b. R a b \<longrightarrow> eval_formula a (query_pre q) \<longrightarrow> \<not> eval_formula b (query_post q)"
  shows "\<forall>a b. R a b \<longrightarrow> eval_formula a (notmay_precondition summary) \<longrightarrow>
    \<not> eval_formula b (notmay_postcondition summary)"
proof (intro allI impI notI)
  fix a b
  assume run: "R a b" and pre: "eval_formula a (notmay_precondition summary)"
    and post: "eval_formula b (notmay_postcondition summary)"
  have "project_to_interface (query_pre q) interface = Some (notmay_precondition summary)"
    "project_to_interface (query_post q) interface = Some (notmay_postcondition summary)"
    using assms(1) by (auto simp: create_notmay_summary_def create_notmay_summary_with_debug_names_def
        project_to_interface_def bind_eq_Some_conv)
  then obtain a' b' where "same_but_locals interface a a'" "eval_formula a' (query_pre q)"
    "same_but_locals interface b b'" "eval_formula b' (query_post q)"
    using project_backward pre post by metis
  moreover from this have "R a' b'" using assms(2) run unfolding local_to_def by blast
  ultimately show False using assms(3) by blast
qed

definition sample_query :: query where
  "sample_query = query_new ''p'' sample_chain (FLe (TVar (var_int ''p$%0'')) (TInt 0))"

lemma sample_query_summary:
  "create_notmay_summary sample_query sample_interface = Some
     \<lparr>notmay_precondition = sample_projection,
      notmay_postcondition = FLe (TVar (var_int ''p$%0'')) (TInt 0)\<rparr>"
  by code_simp

theorem create_notmay_witness:
  "eval_formula sample_caller sample_projection
    \<and> \<not> eval_formula sample_caller (FLe (TVar (var_int ''p$%0'')) (TInt 0))"
proof -
  let ?x = "var_int ''p$%0''"
  define R :: behaviour where "R = (\<lambda>a b. \<exists>n > 0. scalar_of a ?x = IntV n \<and> scalar_of b ?x = IntV n)"
  have x: "is_interface_scalar sample_interface (var_name ?x)" by code_simp
  have "local_to sample_interface R"
    using same_but_localsD [OF _ x] unfolding local_to_def R_def by metis
  moreover have "\<forall>a b. R a b \<longrightarrow> eval_formula a (query_pre sample_query)
      \<longrightarrow> \<not> eval_formula b (query_post sample_query)"
    by (auto simp: R_def sample_query_def query_new_def)
  moreover have "R sample_caller sample_caller" "eval_formula sample_caller sample_projection"
    by (simp_all add: R_def sample_caller_def sample_projection_def Let_def)
  ultimately show ?thesis
    using create_notmay_summary_sound [OF sample_query_summary] by (metis notmay_summary.select_convs)
qed

text \<open>
  A must summary created from a witness is witnessed by it.
\<close>

theorem create_must_summary_sound:
  assumes "create_must_summary entry post interface = Some summary"
    and "int_locals interface (scalars_formula entry)" "int_locals interface (scalars_formula post)"
    and "witnessed R entry post"
  shows "witnessed R (must_precondition summary) (must_postcondition summary)"
proof -
  have "project_to_interface entry interface = Some (must_precondition summary)"
    "project_to_interface post interface = Some (must_postcondition summary)"
    using assms(1) by (auto simp: create_must_summary_def create_must_summary_with_debug_names_def
        project_to_interface_def bind_eq_Some_conv)
  with assms(2-4) show ?thesis unfolding witnessed_def using project_forward by blast
qed

theorem create_must_witness:
  "witnessed (\<lambda>a b. a = b) sample_projection (FLe (TVar (var_int ''p$%0'')) (TInt 9))"
proof -
  define s where "s = set_scalar (var_int ''p$%3'') (IntV 3) (set_scalar (var_int ''p$%2'') (IntV 2)
    (set_scalar (var_int ''p$%0'') (IntV 1) sample_state))"
  have "admissible s" using sample_state_admissible
    by (simp add: s_def admissible_def well_sorted_def smtlib_division_def var_int_def var_new_def)
  moreover have "eval_formula s sample_chain" "eval_formula s (FLe (TVar (var_int ''p$%0'')) (TInt 9))"
    by (simp_all add: s_def sample_chain_def var_int_def var_new_def)
  ultimately have "witnessed (\<lambda>a b. a = b) sample_chain (FLe (TVar (var_int ''p$%0'')) (TInt 9))"
    unfolding witnessed_def by blast
  moreover have "create_must_summary sample_chain (FLe (TVar (var_int ''p$%0'')) (TInt 9)) sample_interface
    = Some \<lparr>must_precondition = sample_projection, must_postcondition = FLe (TVar (var_int ''p$%0'')) (TInt 9)\<rparr>"
    by code_simp
  ultimately show ?thesis
    using create_must_summary_sound sample_chain_ints
    by (fastforce simp: int_locals_def var_int_def var_new_def)
qed

text \<open>
  The search for surviving locals does not enter the memory of a \<open>Select\<close>: this projection
  succeeds and still mentions the local \<open>p$%1\<close>.
\<close>

lemma projection_misses_stored_locals:
  fixes f
  defines "f \<equiv> FGt (TSelect (MStore (MVar ''g'') (TInt 0) (TVar (var_int ''p$%1''))) (TInt 0)) (TInt 0)"
  shows "project_to_interface f sample_interface = Some f"
    and "var_int ''p$%1'' \<in> scalars_formula f" and "\<not> is_interface_scalar sample_interface ''p$%1''"
  unfolding f_def by code_simp+

end
