(* ===== verification/Runs.thy ===== *)
theory Runs
  imports Backward
begin

text \<open>
  The executions of an abstract control-flow graph, against which the verdicts of the analysis
  are judged: \<open>cfg_run\<close> is what the entry reaches, \<open>violates\<close> what ends in a failed assertion.
  \<open>analysable\<close> and \<open>stable_guards\<close> are the side conditions of the two verdicts.
\<close>

section \<open>Symbols that effects write\<close>

datatype symbol = ScalarSym var | BoolSym var | RegionSym string

definition symbols :: "formula \<Rightarrow> symbol set" where
  "symbols f = ScalarSym ` scalars_formula f \<union> BoolSym ` bools_formula f
     \<union> RegionSym ` region_names_formula f"

interpretation syms: formula_symbols symbols
  by unfold_locales (auto simp: symbols_def)

fun writes :: "transfer_effect \<Rightarrow> symbol set" where
  "writes (Assign x (AssignTerm _)) = {ScalarSym x}"
| "writes (Assign x (AssignPredicate _)) = {BoolSym x}"
| "writes (MemoryStore r _ _) = {RegionSym r}"
| "writes (HavocRegions rs) = RegionSym ` set rs"
| "writes (Call _ HavocMemory) = range RegionSym"
| "writes (IndirectCall _ HavocMemory) = range RegionSym"
| "writes _ = {}"

definition writes_all :: "transfer_effect list \<Rightarrow> symbol set" where
  "writes_all es = (\<Union>e \<in> set es. writes e)"

lemma eval_unwritten_step:
  assumes "effect_step s e t" "writes e \<inter> symbols f = {}"
  shows "eval_formula t f = eval_formula s f"
proof -
  have unwritten: "\<And>x. x \<in> scalars_formula f \<Longrightarrow> ScalarSym x \<notin> writes e"
    "\<And>x. x \<in> bools_formula f \<Longrightarrow> BoolSym x \<notin> writes e"
    "\<And>r. r \<in> region_names_formula f \<Longrightarrow> RegionSym r \<notin> writes e"
    using assms(2) unfolding symbols_def by blast+
  have "agree (scalars_formula f) (bools_formula f) (region_names_formula f) t s"
    using assms(1)
    by (cases rule: effect_step_cases)
      (use unwritten in \<open>auto simp: agree_def same_arith_def same_but_memory_def image_iff\<close>)
  then show ?thesis by (rule eval_formula_agree)
qed

lemma eval_unwritten:
  "steps effect_step s es t \<Longrightarrow> writes_all es \<inter> symbols f = {} \<Longrightarrow>
    eval_formula t f = eval_formula s f"
proof (induction es arbitrary: s)
  case (Cons e es)
  then obtain u where u: "effect_step s e u" "steps effect_step u es t" by auto
  have "writes e \<inter> symbols f = {}" "writes_all es \<inter> symbols f = {}"
    using Cons.prems(2) by (auto simp: writes_all_def)
  with u Cons.IH eval_unwritten_step show ?case by metis
qed simp

lemma effect_step_admissible:
  assumes "effect_step s e t" "sorted_effect e" "admissible s"
  shows "admissible t"
proof -
  have "well_sorted t" using effect_step_sorted assms by (auto simp: admissible_def)
  moreover have "same_arith s t"
    using assms(1) by (cases rule: effect_step_cases) (auto simp: same_arith_def same_but_memory_def)
  ultimately show ?thesis using assms(3) by (auto simp: admissible_def smtlib_division_def same_arith_def)
qed

lemma steps_admissible:
  "steps effect_step s es t \<Longrightarrow> list_all sorted_effect es \<Longrightarrow> admissible s \<Longrightarrow> admissible t"
  by (induction es arbitrary: s) (auto intro: effect_step_admissible)

section \<open>Executions\<close>

definition edge_step :: "abstract_cfg \<Rightarrow> abstract_edge \<Rightarrow> valuation \<Rightarrow> valuation \<Rightarrow> bool" where
  "edge_step cfg e s t \<longleftrightarrow> (\<exists>n u. bt_get (cfg_nodes cfg) (edge_source e) = Some n \<and>
     transfer_runs s (node_transfer n) u \<and> eval_formula u (edge_guard e) \<and>
     steps effect_step u (edge_effects e) t)"

inductive cfg_run :: "abstract_cfg \<Rightarrow> valuation \<Rightarrow> cfg_node_id \<Rightarrow> valuation \<Rightarrow> bool"
  for cfg s0 where
  start: "admissible s0 \<Longrightarrow> cfg_run cfg s0 (cfg_entry cfg) s0"
| along: "cfg_run cfg s0 (edge_source e) s \<Longrightarrow> e \<in> set (all_edges cfg) \<Longrightarrow> edge_step cfg e s t \<Longrightarrow>
    cfg_run cfg s0 (edge_target e) t"

definition fails_here :: "abstract_cfg \<Rightarrow> assertion_site \<Rightarrow> cfg_node_id \<Rightarrow> valuation \<Rightarrow> bool" where
  "fails_here cfg site n s \<longleftrightarrow> n = site_node site \<and> (\<exists>nd u. bt_get (cfg_nodes cfg) n = Some nd \<and>
     transfer_runs s (node_transfer nd) u \<and> \<not> eval_formula u (site_obligation site))"

inductive violates :: "abstract_cfg \<Rightarrow> assertion_site \<Rightarrow> cfg_node_id \<Rightarrow> valuation \<Rightarrow> bool"
  for cfg site where
  here: "fails_here cfg site n s \<Longrightarrow> violates cfg site n s"
| later: "e \<in> set (all_edges cfg) \<Longrightarrow> edge_source e = n \<Longrightarrow> edge_step cfg e s t \<Longrightarrow>
    violates cfg site (edge_target e) t \<Longrightarrow> violates cfg site n s"

lemma violates_reached:
  "violates cfg site n s \<Longrightarrow> cfg_run cfg s0 n s \<Longrightarrow>
    \<exists>m t. cfg_run cfg s0 m t \<and> fails_here cfg site m t"
  by (induction rule: violates.induct) (auto intro: along)

lemma reached_violates:
  "cfg_run cfg s0 m t \<Longrightarrow> violates cfg site m t \<Longrightarrow> violates cfg site (cfg_entry cfg) s0"
  by (induction rule: cfg_run.induct) (auto intro: later)

text \<open>The assertion can fail exactly when the entry can run into a violation.\<close>

lemma violates_iff:
  "admissible s0 \<Longrightarrow> violates cfg site (cfg_entry cfg) s0
    \<longleftrightarrow> (\<exists>m t. cfg_run cfg s0 m t \<and> fails_here cfg site m t)"
  using violates_reached reached_violates start here by metis

section \<open>Side conditions\<close>

definition all_effects :: "abstract_cfg \<Rightarrow> transfer_effect list" where
  "all_effects cfg = concat (map (\<lambda>n. effects (node_transfer n)) (bt_values (cfg_nodes cfg)))
     @ concat (map edge_effects (all_edges cfg))"

definition assigned :: "abstract_cfg \<Rightarrow> var set" where
  "assigned cfg = (\<Union>e \<in> set (all_effects cfg). assigned_bools e)"

text \<open>
  No opaque call that havocs memory, well-sorted assignments, and no assigned Boolean that is
  read inside a term (\<open>BoolToInt\<close>), where the substitution of the source does not look.
\<close>

definition analysable :: "abstract_cfg \<Rightarrow> assertion_site \<Rightarrow> bool" where
  "analysable cfg site \<longleftrightarrow>
     (\<forall>e \<in> set (all_effects cfg). \<not> havocs_memory e \<and> coerced_in e \<inter> assigned cfg = {} \<and>
        sorted_effect e) \<and>
     (\<forall>e \<in> set (all_edges cfg). bools_under_terms (edge_guard e) \<inter> assigned cfg = {}) \<and>
     bools_under_terms (site_obligation site) \<inter> assigned cfg = {}"

definition exact_effects :: "abstract_cfg \<Rightarrow> bool" where
  "exact_effects cfg \<longleftrightarrow> (\<forall>e \<in> set (all_effects cfg). \<not> forgets e)"

definition edge_writes :: "abstract_cfg \<Rightarrow> abstract_edge \<Rightarrow> symbol set" where
  "edge_writes cfg e = writes_all (edge_effects e) \<union>
     (case bt_get (cfg_nodes cfg) (edge_source e) of
        None \<Rightarrow> {} | Some n \<Rightarrow> writes_all (effects (node_transfer n)))"

text \<open>What a guard reads is not written once the guard has been passed.\<close>

definition stable_guards :: "abstract_cfg \<Rightarrow> bool" where
  "stable_guards cfg \<longleftrightarrow> (\<forall>g \<in> set (all_edges cfg).
     writes_all (edge_effects g) \<inter> symbols (edge_guard g) = {} \<and>
     (\<forall>e \<in> set (all_edges cfg). (edge_target g, edge_source e) \<in> (graph cfg)\<^sup>* \<longrightarrow>
        edge_writes cfg e \<inter> symbols (edge_guard g) = {}))"

lemma node_effects:
  assumes "bt_get (cfg_nodes cfg) i = Some n"
  shows "set (effects (node_transfer n)) \<subseteq> set (all_effects cfg)"
  using bt_get_SomeD [OF assms] by (force simp: all_effects_def bt_values_def)

lemma edge_effects_subset:
  "e \<in> set (all_edges cfg) \<Longrightarrow> set (edge_effects e) \<subseteq> set (all_effects cfg)"
  by (auto simp: all_effects_def)

lemma analysable_effects:
  "analysable cfg site \<Longrightarrow> set es \<subseteq> set (all_effects cfg) \<Longrightarrow>
    list_all (wp_ok (assigned cfg)) es \<and> list_all sorted_effect es"
  by (auto simp: analysable_def list_all_iff wp_ok_def assigned_def)

lemma edge_step_admissible:
  assumes "analysable cfg site" "e \<in> set (all_edges cfg)" "edge_step cfg e s t" "admissible s"
  shows "admissible t"
proof -
  from assms(3) obtain n u where n: "bt_get (cfg_nodes cfg) (edge_source e) = Some n"
    "transfer_runs s (node_transfer n) u" "steps effect_step u (edge_effects e) t"
    by (auto simp: edge_step_def)
  have "list_all sorted_effect (effects (node_transfer n))" "list_all sorted_effect (edge_effects e)"
    using analysable_effects [OF assms(1)] node_effects [OF n(1)] edge_effects_subset [OF assms(2)]
    by blast+
  with n(2,3) assms(4) show ?thesis by (meson steps_admissible)
qed

lemma cfg_run_admissible: "cfg_run cfg s0 n s \<Longrightarrow> analysable cfg site \<Longrightarrow> admissible s"
  by (induction rule: cfg_run.induct) (auto intro: edge_step_admissible)

section \<open>The precondition an edge propagates\<close>

definition edge_pre :: "abstract_cfg \<Rightarrow> abstract_edge \<Rightarrow> formula \<Rightarrow> formula" where
  "edge_pre cfg e f = (case bt_get (cfg_nodes cfg) (edge_source e) of
     None \<Rightarrow> FFalse
   | Some n \<Rightarrow> wp (node_transfer n) (f_and (edge_guard e) (wp (edge_transfer e) f)))"

lemma edge_transfer_effects [simp]: "effects (edge_transfer e) = edge_effects e"
  by (simp add: edge_transfer_def transfer_fn_new_def)

lemma edge_ok:
  assumes "analysable cfg site" "e \<in> set (all_edges cfg)"
  shows "transfer_ok (assigned cfg) (edge_transfer e)" "wp_good (assigned cfg) (edge_guard e)"
    and "bt_get (cfg_nodes cfg) i = Some n \<Longrightarrow> transfer_ok (assigned cfg) (node_transfer n)"
  using analysable_effects [OF assms(1)] edge_effects_subset [OF assms(2)] node_effects [of cfg i n]
    assms by (auto simp: transfer_ok_def wp_good_def analysable_def)

lemma edge_pre_good:
  assumes "analysable cfg site" "e \<in> set (all_edges cfg)" "wp_good (assigned cfg) f"
  shows "wp_good (assigned cfg) (edge_pre cfg e f)"
  using edge_ok [OF assms(1,2)] assms(3)
  by (auto simp: edge_pre_def split: option.split intro!: wp_good_wp wp_good_connectives)

lemma edge_pre_covers:
  assumes "analysable cfg site" "e \<in> set (all_edges cfg)" "wp_good (assigned cfg) f"
    and "edge_step cfg e s t" "eval_formula t f"
  shows "eval_formula s (edge_pre cfg e f)"
proof -
  from assms(4) obtain n u where n: "bt_get (cfg_nodes cfg) (edge_source e) = Some n"
    "transfer_runs s (node_transfer n) u" "eval_formula u (edge_guard e)"
    "transfer_runs u (edge_transfer e) t"
    by (auto simp: edge_step_def)
  note ok = edge_ok(1,2) [OF assms(1,2)] edge_ok(3) [OF assms(1,2) n(1)]
  have "eval_formula u (wp (edge_transfer e) f)" by (rule wp_covers [OF ok(1) assms(3) n(4) assms(5)])
  then have "eval_formula u (f_and (edge_guard e) (wp (edge_transfer e) f))" using n(3) by simp
  moreover have "wp_good (assigned cfg) (f_and (edge_guard e) (wp (edge_transfer e) f))"
    using ok assms(3) by (intro wp_good_connectives wp_good_wp)
  ultimately show ?thesis using n(1) wp_covers [OF ok(3) _ n(2)] by (simp add: edge_pre_def)
qed

lemma exact_list:
  "exact_effects cfg \<Longrightarrow> set (effects f) \<subseteq> set (all_effects cfg) \<Longrightarrow> transfer_exact f"
  by (auto simp: exact_effects_def transfer_exact_def list_all_iff)

lemma edge_pre_exact:
  assumes "analysable cfg site" "exact_effects cfg" "e \<in> set (all_edges cfg)"
    and "wp_good (assigned cfg) f" "eval_formula s (edge_pre cfg e f)"
  shows "\<exists>t. edge_step cfg e s t \<and> eval_formula t f"
proof -
  from assms(5) obtain n where n: "bt_get (cfg_nodes cfg) (edge_source e) = Some n"
    by (auto simp: edge_pre_def split: option.splits)
  note ok = edge_ok(1,2) [OF assms(1,3)] edge_ok(3) [OF assms(1,3) n]
  have good: "wp_good (assigned cfg) (f_and (edge_guard e) (wp (edge_transfer e) f))"
    using ok assms(4) by (intro wp_good_connectives wp_good_wp)
  have ex: "transfer_exact (node_transfer n)" "transfer_exact (edge_transfer e)"
    using exact_list [OF assms(2)] node_effects [OF n] edge_effects_subset [OF assms(3)] by simp_all
  obtain u where u: "transfer_runs s (node_transfer n) u"
    "eval_formula u (f_and (edge_guard e) (wp (edge_transfer e) f))"
    using assms(5) n wp_is_preimage [OF ok(3) ex(1) good] by (auto simp: edge_pre_def)
  then obtain t where "transfer_runs u (edge_transfer e) t" "eval_formula t f"
    using wp_is_preimage [OF ok(1) ex(2) assms(4)] by auto
  with n u show ?thesis by (auto simp: edge_step_def)
qed

end
