(* ===== verification/Engine.thy ===== *)
theory Engine
  imports Runs
begin

text \<open>
  What each rule does to the engine on a well-formed graph, and the invariants of the two
  passes: \<open>exact_inv\<close> (a state formula holds only where a violation is ahead) and
  \<open>cover_inv\<close> (it holds wherever an execution of the program has a violation ahead).
\<close>

section \<open>The engine as two functions\<close>

definition reach_at :: "rule_engine \<Rightarrow> cfg_node_id \<Rightarrow> formula" where
  "reach_at E n = (case bt_get (summaries E) n of None \<Rightarrow> FFalse | Some s \<Rightarrow> reach s)"

definition state_at :: "rule_engine \<Rightarrow> cfg_node_id \<Rightarrow> formula" where
  "state_at E n = (case bt_get (summaries E) n of None \<Rightarrow> FFalse | Some s \<Rightarrow> state s)"

definition engine_wf :: "abstract_cfg \<Rightarrow> rule_engine \<Rightarrow> bool" where
  "engine_wf cfg E \<longleftrightarrow> engine_cfg E = cfg \<and> set (bt_keys (summaries E)) = set (node_ids cfg)"

definition with_summary :: "cfg_node_id \<Rightarrow> (node_summary \<Rightarrow> node_summary) \<Rightarrow> rule_engine \<Rightarrow> rule_engine"
where
  "with_summary n w E =
     E\<lparr>summaries := bt_insert n (w (the (bt_get (summaries E) n))) (summaries E)\<rparr>"

lemma engine_wf_get:
  "engine_wf cfg E \<Longrightarrow> n \<in> set (node_ids cfg) \<longleftrightarrow> (\<exists>s. bt_get (summaries E) n = Some s)"
  unfolding engine_wf_def by (metis bt_keys_iff)

lemma summary_mut_eq:
  "engine_wf cfg E \<Longrightarrow> n \<in> set (node_ids cfg) \<Longrightarrow> summary_mut n w E = Inr (with_summary n w E)"
  using engine_wf_get [of cfg E n] by (auto simp: summary_mut_def with_summary_def)

lemma summary_eq:
  "engine_wf cfg E \<Longrightarrow> n \<in> set (node_ids cfg) \<Longrightarrow> summary E n = Inr (the (bt_get (summaries E) n))"
  using engine_wf_get [of cfg E n] by (auto simp: summary_def)

lemma summary_parts:
  "engine_wf cfg E \<Longrightarrow> n \<in> set (node_ids cfg) \<Longrightarrow>
    reach (the (bt_get (summaries E) n)) = reach_at E n \<and>
    state (the (bt_get (summaries E) n)) = state_at E n"
  using engine_wf_get [of cfg E n] by (auto simp: reach_at_def state_at_def)

lemma with_summary_wf [simp]:
  "engine_wf cfg E \<Longrightarrow> n \<in> set (node_ids cfg) \<Longrightarrow> engine_wf cfg (with_summary n w E)"
  by (auto simp: engine_wf_def with_summary_def)

lemma with_summary_other [simp]:
  "engine_cfg (with_summary n w E) = engine_cfg E"
  "blocked_edges (with_summary n w E) = blocked_edges E"
  by (simp_all add: with_summary_def)

lemma join_reach_at:
  assumes "engine_wf cfg E" "n \<in> set (node_ids cfg)"
  shows "reach_at (with_summary n (join_reach f) E) = (reach_at E)(n := f_or (reach_at E n) f)"
    and "state_at (with_summary n (join_reach f) E) = state_at E"
  using engine_wf_get [OF assms(1), of n] assms(2)
  by (auto simp: with_summary_def reach_at_def state_at_def join_reach_def fun_eq_iff)

lemma join_state_at:
  assumes "engine_wf cfg E" "n \<in> set (node_ids cfg)"
  shows "state_at (with_summary n (join_state f) E) = (state_at E)(n := f_or (state_at E n) f)"
    and "reach_at (with_summary n (join_state f) E) = reach_at E"
  using engine_wf_get [OF assms(1), of n] assms(2)
  by (auto simp: with_summary_def reach_at_def state_at_def join_state_def fun_eq_iff)

lemma put_state_at:
  assumes "engine_wf cfg E" "n \<in> set (node_ids cfg)"
  shows "state_at (with_summary n (\<lambda>s. s\<lparr>state := f\<rparr>) E) = (state_at E)(n := f)"
    and "reach_at (with_summary n (\<lambda>s. s\<lparr>state := f\<rparr>) E) = reach_at E"
  using engine_wf_get [OF assms(1), of n] assms(2)
  by (auto simp: with_summary_def reach_at_def state_at_def fun_eq_iff)

lemma block_edge_other [simp]:
  "reach_at (block_edge i E) = reach_at E" "state_at (block_edge i E) = state_at E"
  "engine_wf cfg (block_edge i E) \<longleftrightarrow> engine_wf cfg E"
  "set (blocked_edges (block_edge i E)) = insert i (set (blocked_edges E))"
  by (auto simp: block_edge_def reach_at_def state_at_def engine_wf_def set_insort_insert fun_eq_iff)

section \<open>The rules on an edge of the graph\<close>

lemma edge_nodes:
  assumes "cfg_wf cfg" "e \<in> set (all_edges cfg)"
  shows "bt_get (cfg_edges cfg) (edge_id e) = Some e"
    and "edge_source e \<in> set (node_ids cfg)" "edge_target e \<in> set (node_ids cfg)"
    and "\<exists>n. bt_get (cfg_nodes cfg) (edge_source e) = Some n"
    and "\<exists>n. bt_get (cfg_nodes cfg) (edge_target e) = Some n"
proof -
  show "bt_get (cfg_edges cfg) (edge_id e) = Some e" using assms by (simp add: all_edges_iff)
  show st: "edge_source e \<in> set (node_ids cfg)" "edge_target e \<in> set (node_ids cfg)"
    using all_edges_nodes [OF assms] by simp_all
  show "\<exists>n. bt_get (cfg_nodes cfg) (edge_source e) = Some n"
    "\<exists>n. bt_get (cfg_nodes cfg) (edge_target e) = Some n" using st by (simp_all add: node_ids_get)
qed

lemma engine_edge_eq:
  "engine_wf cfg E \<Longrightarrow> cfg_wf cfg \<Longrightarrow> e \<in> set (all_edges cfg) \<Longrightarrow> engine_edge E (edge_id e) = Inr e"
  using edge_nodes(1) by (simp add: engine_edge_def engine_wf_def cfg_edge_def)

definition forwarded :: "abstract_edge \<Rightarrow> rule_engine \<Rightarrow> rule_engine" where
  "forwarded e E = (if is_blocked E (edge_id e) then E
     else with_summary (edge_target e) (join_reach (f_and (reach_at E (edge_source e)) (edge_guard e))) E)"

definition pulled :: "abstract_edge \<Rightarrow> rule_engine \<Rightarrow> rule_engine" where
  "pulled e E = (if is_blocked E (edge_id e) then E
     else with_summary (edge_source e)
       (join_state (edge_pre (engine_cfg E) e (state_at E (edge_target e)))) E)"

definition pruned :: "abstract_edge \<Rightarrow> rule_engine \<Rightarrow> rule_engine" where
  "pruned e E = with_summary (edge_source e) (\<lambda>s. s\<lparr>state := FFalse\<rparr>) (block_edge (edge_id e) E)"

lemma forward_may_post_eq:
  assumes "engine_wf cfg E" "cfg_wf cfg" "e \<in> set (all_edges cfg)"
  shows "forward_may_post (edge_id e) E = Inr (forwarded e E)"
  using assms engine_edge_eq [OF assms] edge_nodes(2,3) [OF assms(2,3)]
  by (simp add: forward_may_post_def forwarded_def summary_eq summary_parts summary_mut_eq Let_def)

lemma notmay_pre_eq:
  assumes "engine_wf cfg E" "cfg_wf cfg" "e \<in> set (all_edges cfg)"
  shows "notmay_pre (edge_id e) E = Inr (pulled e E)"
proof -
  obtain n where n: "bt_get (cfg_nodes cfg) (edge_source e) = Some n"
    using edge_nodes(4) [OF assms(2,3)] by blast
  moreover from this have "engine_node E (edge_source e) = Inr n"
    using assms(1) by (simp add: engine_node_def engine_wf_def cfg_node_def)
  ultimately show ?thesis
    using engine_edge_eq [OF assms] edge_nodes(2,3) [OF assms(2,3)] summary_eq [OF assms(1)]
      summary_parts [OF assms(1)] summary_mut_eq [OF assms(1)]
    by (simp add: notmay_pre_def pulled_def Let_def edge_pre_def
        assms(1) [unfolded engine_wf_def, THEN conjunct1])
qed

lemma forwarded_wf [simp]:
  "engine_wf cfg E \<Longrightarrow> cfg_wf cfg \<Longrightarrow> e \<in> set (all_edges cfg) \<Longrightarrow> engine_wf cfg (forwarded e E)"
  by (simp add: forwarded_def edge_nodes)

lemma pulled_wf [simp]:
  "engine_wf cfg E \<Longrightarrow> cfg_wf cfg \<Longrightarrow> e \<in> set (all_edges cfg) \<Longrightarrow> engine_wf cfg (pulled e E)"
  by (simp add: pulled_def edge_nodes)

lemma pruned_wf [simp]:
  "engine_wf cfg E \<Longrightarrow> cfg_wf cfg \<Longrightarrow> e \<in> set (all_edges cfg) \<Longrightarrow> engine_wf cfg (pruned e E)"
  by (simp add: pruned_def edge_nodes)

text \<open>Without callee summaries the two summary rules do nothing.\<close>

definition unused_summaries :: "abstract_cfg \<Rightarrow> summary_table \<Rightarrow> bool" where
  "unused_summaries cfg tables \<longleftrightarrow> (\<forall>i n p. bt_get (cfg_nodes cfg) i = Some n \<longrightarrow> callee_of n = Some p \<longrightarrow>
     notmay tables p = [] \<and> forward_may tables p = [])"

lemma unused_new: "unused_summaries cfg table_new"
  by (simp add: unused_summaries_def table_new_def notmay_def forward_may_def get_or_empty_def)

lemma unused_without_calls:
  "(\<And>i n. bt_get (cfg_nodes cfg) i = Some n \<Longrightarrow> callee_of n = None) \<Longrightarrow> unused_summaries cfg tables"
  by (auto simp: unused_summaries_def)

lemma usesummary_nothing:
  assumes "unused_summaries cfg tables" "engine_wf cfg E" "cfg_wf cfg" "e \<in> set (all_edges cfg)"
  shows "notmay_pre_usesummary z tables (edge_id e) E = Inr E"
    and "forward_may_usesummary z tables (edge_id e) E = Inr E"
proof -
  obtain n m where nodes: "bt_get (cfg_nodes cfg) (edge_source e) = Some n"
    "bt_get (cfg_nodes cfg) (edge_target e) = Some m"
    using edge_nodes(4,5) [OF assms(3,4)] by blast
  have none: "callee_of n = Some p \<Longrightarrow> forward_may tables p = []"
    "callee_of m = Some p \<Longrightarrow> notmay tables p = []" for p
    using assms(1) nodes unfolding unused_summaries_def by blast+
  from nodes have "engine_node E (edge_source e) = Inr n" "engine_node E (edge_target e) = Inr m"
    using assms(2) by (simp_all add: engine_node_def engine_wf_def cfg_node_def)
  with assms(2-4) none engine_edge_eq [OF assms(2-4)] edge_nodes(2) [OF assms(3,4)]
  show "notmay_pre_usesummary z tables (edge_id e) E = Inr E"
    "forward_may_usesummary z tables (edge_id e) E = Inr E"
    by (auto simp: notmay_pre_usesummary_def forward_may_usesummary_def
        summary_eq split: option.split)
qed

lemma forward_edge_eq:
  assumes "unused_summaries cfg tables" "engine_wf cfg E" "cfg_wf cfg" "e \<in> set (all_edges cfg)"
  shows "forward_edge z tables (edge_id e) E = Inr (forwarded e E)"
  using usesummary_nothing(2) [OF assms(1) forwarded_wf [OF assms(2-4)] assms(3,4)]
  by (simp add: forward_edge_def forward_may_post_eq [OF assms(2-4)])

text \<open>One backward step: two pulls, and a reset when the solver refutes the source.\<close>

definition unrealised :: "formula \<Rightarrow> formula \<Rightarrow> bool" where
  "unrealised f g \<longleftrightarrow> (\<forall>s. admissible s \<longrightarrow> eval_formula s f \<longrightarrow> \<not> eval_formula s g)"

lemma backward_edge_cases:
  assumes "unused_summaries cfg tables" "engine_wf cfg E" "cfg_wf cfg" "e \<in> set (all_edges cfg)"
    and "sound_solver z" "backward_edge z tables (edge_id e) E = Inr E'"
  shows "E' = pulled e (pulled e E) \<or>
    (E' = pruned e (pulled e (pulled e E)) \<and>
     unrealised (reach_at (pulled e (pulled e E)) (edge_source e))
       (state_at (pulled e (pulled e E)) (edge_source e)))"
proof -
  let ?E = "pulled e (pulled e E)"
  have wf: "engine_wf cfg (pulled e E)" "engine_wf cfg ?E" using assms(2-4) by simp_all
  note src = edge_nodes(2) [OF assms(3,4)]
  have "notmay_pre_pruned z (edge_id e) (pulled e E) = Inr E'"
    using assms(6) usesummary_nothing(1) [OF assms(1) wf(1) assms(3,4)]
    by (simp add: backward_edge_def notmay_pre_eq [OF assms(2-4)])
  then obtain a where a: "feasibility z (combined (the (bt_get (summaries ?E) (edge_source e)))) = Inr a"
    and E': "(if a = Infeasible then summary_mut (edge_source e) (\<lambda>s. s\<lparr>state := FFalse\<rparr>)
      (block_edge (edge_id e) ?E) else Inr ?E) = Inr E'"
    using wf src by (auto simp: notmay_pre_pruned_def notmay_pre_eq [OF wf(1) assms(3,4)]
        engine_edge_eq [OF wf(2) assms(3,4)] summary_eq rbind_eq_Inr lift_oracle_def
        split: sum.splits)
  show ?thesis
  proof (cases "a = Infeasible")
    case True
    then have "E' = pruned e ?E" using E' wf(2) src by (simp add: summary_mut_eq pruned_def)
    moreover have "unrealised (reach_at ?E (edge_source e)) (state_at ?E (edge_source e))"
      unfolding unrealised_def
    proof (intro allI impI)
      fix s
      assume s: "admissible s" "eval_formula s (reach_at ?E (edge_source e))"
      have "\<not> eval_formula s (combined (the (bt_get (summaries ?E) (edge_source e))))"
        using query_oracle.ask_infeasible [OF oracle_laws [OF assms(5)] _ s(1)] a True by blast
      with s(2) summary_parts [OF wf(2) src]
      show "\<not> eval_formula s (state_at ?E (edge_source e))" by simp
    qed
    ultimately show ?thesis by simp
  qed (use E' in simp)
qed

section \<open>Loops over edges and nodes\<close>

lemma edge_loop:
  assumes step: "\<And>e E E'. e \<in> set (all_edges cfg) \<Longrightarrow> I E \<Longrightarrow> f (edge_id e) E = Inr E' \<Longrightarrow> I E'"
    and run: "rfold f (map edge_id es) E = Inr E'" "I E" "set es \<subseteq> set (all_edges cfg)"
  shows "I E'"
  using run
proof (induction es arbitrary: E)
  case (Cons e es)
  then obtain U where "f (edge_id e) E = Inr U" "rfold f (map edge_id es) U = Inr E'"
    by (auto simp: rbind_eq_Inr)
  with Cons step show ?case by auto
qed simp

abbreviation out_of :: "abstract_cfg \<Rightarrow> cfg_node_id \<Rightarrow> abstract_edge list" where
  "out_of cfg n \<equiv> filter (\<lambda>e. edge_source e = n) (all_edges cfg)"

abbreviation in_to :: "abstract_cfg \<Rightarrow> cfg_node_id \<Rightarrow> abstract_edge list" where
  "in_to cfg n \<equiv> filter (\<lambda>e. edge_target e = n) (all_edges cfg)"

lemma outgoing_incoming: "outgoing_edges cfg n = map edge_id (out_of cfg n)"
  "incoming_edges cfg n = map edge_id (in_to cfg n)"
  by (simp_all add: outgoing_edges_def incoming_edges_def)

text \<open>An invariant that every step of both kinds keeps survives all the rounds.\<close>

lemma rounds_invariant:
  assumes fwd: "\<And>E E'. I E \<Longrightarrow> forward_pass z tables order E = Inr E' \<Longrightarrow> I E'"
    and bwd: "\<And>E E'. I E \<Longrightarrow> backward_pass z tables order E = Inr E' \<Longrightarrow> I E'"
    and run: "fixpoint_rounds k z tables order E = Inr E'" "I E"
  shows "I E'"
  using run
proof (induction k arbitrary: E)
  case (Suc k)
  then obtain U V where uv: "forward_pass z tables order E = Inr U"
    "backward_pass z tables order U = Inr V"
    "(if blocked_count E = blocked_count V then Inr V else fixpoint_rounds k z tables order V) = Inr E'"
    by (auto simp: rbind_eq_Inr Let_def)
  then have "I V" using fwd bwd Suc.prems(2) by blast
  with uv(3) Suc.IH show ?case by (auto split: if_splits)
qed simp

lemma pass_invariant:
  assumes cfg: "\<And>E. I E \<Longrightarrow> engine_cfg E = cfg"
    and step: "\<And>e E E'. e \<in> set (all_edges cfg) \<Longrightarrow> I E \<Longrightarrow> f (edge_id e) E = Inr E' \<Longrightarrow> I E'"
    and out: "\<And>n. \<exists>es. sel cfg n = map edge_id es \<and> set es \<subseteq> set (all_edges cfg)"
    and run: "rfold (\<lambda>node E. rfold f (sel (engine_cfg E) node) E) ns E = Inr E'" "I E"
  shows "I E'"
  using run
proof (induction ns arbitrary: E)
  case (Cons n ns)
  then obtain U where u: "rfold f (sel cfg n) E = Inr U"
    "rfold (\<lambda>node E. rfold f (sel (engine_cfg E) node) E) ns U = Inr E'"
    by (auto simp: rbind_eq_Inr cfg)
  obtain es where es: "sel cfg n = map edge_id es" "set es \<subseteq> set (all_edges cfg)" using out by blast
  have "I U" by (rule edge_loop [of cfg I f es E U]) (use step u(1) es Cons.prems(2) in auto)
  with u(2) Cons.IH show ?case by blast
qed simp

end
