(* ===== verification/Backward_Sound.thy ===== *)
theory Backward_Sound
  imports Engine
begin

text \<open>
  The verdicts of the checker on acyclic graphs without callee summaries: \<open>Verified\<close> excludes
  every violating execution, \<open>BugFound\<close> exhibits one, and the analysis ends without an error
  unless the solver refuses a formula.
\<close>

section \<open>Every state formula is a real violation ahead\<close>

definition states_good :: "abstract_cfg \<Rightarrow> rule_engine \<Rightarrow> bool" where
  "states_good cfg E \<longleftrightarrow> (\<forall>n. wp_good (assigned cfg) (state_at E n))"

definition exact_inv :: "abstract_cfg \<Rightarrow> assertion_site \<Rightarrow> rule_engine \<Rightarrow> bool" where
  "exact_inv cfg site E \<longleftrightarrow> engine_wf cfg E \<and> states_good cfg E \<and>
     (\<forall>n s. admissible s \<longrightarrow> eval_formula s (state_at E n) \<longrightarrow> violates cfg site n s)"

lemma forwarded_state [simp]:
  "engine_wf cfg E \<Longrightarrow> cfg_wf cfg \<Longrightarrow> e \<in> set (all_edges cfg) \<Longrightarrow> state_at (forwarded e E) = state_at E"
  by (simp add: forwarded_def join_reach_at [OF _ edge_nodes(3)])

lemma pulled_state:
  assumes "engine_wf cfg E" "cfg_wf cfg" "e \<in> set (all_edges cfg)"
  shows "state_at (pulled e E) n =
    (if is_blocked E (edge_id e) \<or> n \<noteq> edge_source e then state_at E n
     else f_or (state_at E n) (edge_pre cfg e (state_at E (edge_target e))))"
  using assms join_state_at [OF assms(1) edge_nodes(2) [OF assms(2,3)]]
  by (auto simp: pulled_def engine_wf_def)

lemma pulled_other [simp]:
  assumes "engine_wf cfg E" "cfg_wf cfg" "e \<in> set (all_edges cfg)"
  shows "reach_at (pulled e E) = reach_at E" "blocked_edges (pulled e E) = blocked_edges E"
  using join_state_at(2) [OF assms(1) edge_nodes(2) [OF assms(2,3)]] by (auto simp: pulled_def)

lemma pruned_state:
  assumes "engine_wf cfg E" "cfg_wf cfg" "e \<in> set (all_edges cfg)"
  shows "state_at (pruned e E) = (state_at E)(edge_source e := FFalse)"
    and "reach_at (pruned e E) = reach_at E"
    and "set (blocked_edges (pruned e E)) = insert (edge_id e) (set (blocked_edges E))"
  using put_state_at [of cfg "block_edge (edge_id e) E" "edge_source e"] assms(1)
    edge_nodes(2) [OF assms(2,3)]
  by (simp_all add: pruned_def)

lemma exact_pulled:
  assumes wf: "cfg_wf cfg" and an: "analysable cfg site" and ex: "exact_effects cfg"
    and e: "e \<in> set (all_edges cfg)" and inv: "exact_inv cfg site E"
  shows "exact_inv cfg site (pulled e E)"
proof -
  have E: "engine_wf cfg E" using inv by (simp add: exact_inv_def)
  let ?t = "state_at E (edge_target e)"
  have good: "wp_good (assigned cfg) ?t" using inv by (simp add: exact_inv_def states_good_def)
  have "violates cfg site (edge_source e) s"
    if s: "admissible s" "eval_formula s (edge_pre cfg e ?t)" for s
  proof -
    obtain t where t: "edge_step cfg e s t" "eval_formula t ?t"
      using edge_pre_exact [OF an ex e good s(2)] by blast
    have "admissible t" by (rule edge_step_admissible [OF an e t(1) s(1)])
    with inv t(2) have "violates cfg site (edge_target e) t" by (simp add: exact_inv_def)
    with e t(1) show ?thesis by (auto intro: later)
  qed
  moreover have "states_good cfg (pulled e E)"
    using inv edge_pre_good [OF an e good]
    by (auto simp: states_good_def exact_inv_def pulled_state [OF E wf e])
  ultimately show ?thesis
    using inv E wf e by (auto simp: exact_inv_def pulled_state [OF E wf e])
qed

lemma exact_pruned:
  "cfg_wf cfg \<Longrightarrow> e \<in> set (all_edges cfg) \<Longrightarrow> exact_inv cfg site E \<Longrightarrow> exact_inv cfg site (pruned e E)"
  by (auto simp: exact_inv_def states_good_def pruned_state split: if_splits)

lemma exact_backward_edge:
  assumes "cfg_wf cfg" "analysable cfg site" "exact_effects cfg" "unused_summaries cfg tables"
    "sound_solver z" "e \<in> set (all_edges cfg)" "exact_inv cfg site E"
    "backward_edge z tables (edge_id e) E = Inr E'"
  shows "exact_inv cfg site E'"
proof -
  have E: "engine_wf cfg E" using assms(7) by (simp add: exact_inv_def)
  have "exact_inv cfg site (pulled e (pulled e E))"
    using exact_pulled [OF assms(1-3) assms(6)] assms(7) by blast
  with backward_edge_cases [OF assms(4) E assms(1,6,5,8)] exact_pruned [OF assms(1,6)]
  show ?thesis by blast
qed

lemma exact_forward_edge:
  assumes "cfg_wf cfg" "unused_summaries cfg tables" "e \<in> set (all_edges cfg)" "exact_inv cfg site E"
    "forward_edge z tables (edge_id e) E = Inr E'"
  shows "exact_inv cfg site E'"
proof -
  have E: "engine_wf cfg E" using assms(4) by (simp add: exact_inv_def)
  then have "E' = forwarded e E" using forward_edge_eq [OF assms(2) E assms(1,3)] assms(5) by simp
  with assms E show ?thesis by (simp add: exact_inv_def states_good_def)
qed

lemma pass_edges:
  "\<exists>es. outgoing_edges cfg n = map edge_id es \<and> set es \<subseteq> set (all_edges cfg)"
  "\<exists>es. incoming_edges cfg n = map edge_id es \<and> set es \<subseteq> set (all_edges cfg)"
  unfolding outgoing_incoming by (rule exI, rule conjI [OF refl], simp)+

lemma forward_pass_invariant:
  assumes "\<And>E. I E \<Longrightarrow> engine_cfg E = cfg"
    and "\<And>e E E'. e \<in> set (all_edges cfg) \<Longrightarrow> I E \<Longrightarrow> forward_edge z tables (edge_id e) E = Inr E' \<Longrightarrow> I E'"
    and "forward_pass z tables order E = Inr E'" "I E"
  shows "I E'"
  by (rule pass_invariant [where I = I and cfg = cfg and sel = outgoing_edges
        and f = "forward_edge z tables", OF assms(1,2) pass_edges(1) assms(3) [unfolded forward_pass_def] assms(4)])

lemma backward_pass_invariant:
  assumes "\<And>E. I E \<Longrightarrow> engine_cfg E = cfg"
    and "\<And>e E E'. e \<in> set (all_edges cfg) \<Longrightarrow> I E \<Longrightarrow> backward_edge z tables (edge_id e) E = Inr E' \<Longrightarrow> I E'"
    and "backward_pass z tables order E = Inr E'" "I E"
  shows "I E'"
  by (rule pass_invariant [where I = I and cfg = cfg and sel = incoming_edges
        and f = "backward_edge z tables", OF assms(1,2) pass_edges(2) assms(3) [unfolded backward_pass_def] assms(4)])

lemma exact_inv_cfg: "exact_inv cfg site E \<Longrightarrow> engine_cfg E = cfg"
  by (simp add: exact_inv_def engine_wf_def)

lemma exact_rounds:
  assumes "cfg_wf cfg" "analysable cfg site" "exact_effects cfg" "unused_summaries cfg tables" "sound_solver z"
    and "exact_inv cfg site E" "run_to_fixpoint z tables order E = Inr E'"
  shows "exact_inv cfg site E'"
proof (rule rounds_invariant [of "exact_inv cfg site"])
  show "fixpoint_rounds (length (cfg_edges (engine_cfg E)) + 1 + 1) z tables order E = Inr E'"
    using assms(7) by (simp add: run_to_fixpoint_def Let_def)
  fix E E'
  assume inv: "exact_inv cfg site E"
  show "exact_inv cfg site E'" if "forward_pass z tables order E = Inr E'"
    using exact_inv_cfg exact_forward_edge [OF assms(1,4)] that inv
    by (rule forward_pass_invariant)
  show "exact_inv cfg site E'" if "backward_pass z tables order E = Inr E'"
    using exact_inv_cfg exact_backward_edge [OF assms(1-5)] that inv
    by (rule backward_pass_invariant)
qed (rule assms(6))

section \<open>The start of a run\<close>

lemma init_summaries:
  assumes "cfg_wf cfg"
  shows "engine_wf cfg (engine_init (engine_new cfg))"
    and "state_at (engine_init (engine_new cfg)) n = FFalse"
    and "reach_at (engine_init (engine_new cfg)) n = (if n = cfg_entry cfg then FTrue else FFalse)"
    and "blocked_edges (engine_init (engine_new cfg)) = []"
proof -
  let ?f = "\<lambda>i. if i = cfg_entry cfg then summary_entry i else summary_unreachable i"
  have s: "summaries (engine_init (engine_new cfg)) = foldl (\<lambda>m i. bt_insert i (?f i) m) [] (node_ids cfg)"
    by (simp add: engine_init_def engine_new_def)
  have get: "bt_get (summaries (engine_init (engine_new cfg))) n
      = (if n \<in> set (node_ids cfg) then Some (?f n) else None)" for n
    unfolding s bt.get_fill by simp
  show "engine_wf cfg (engine_init (engine_new cfg))"
    by (auto simp: engine_wf_def bt_keys_iff get engine_init_def engine_new_def split: if_splits)
  have "cfg_entry cfg \<in> set (node_ids cfg)" using assms by (simp add: cfg_wf_defs)
  then show "state_at (engine_init (engine_new cfg)) n = FFalse"
    "reach_at (engine_init (engine_new cfg)) n = (if n = cfg_entry cfg then FTrue else FFalse)"
    by (auto simp: state_at_def reach_at_def get summary_entry_def summary_unreachable_def)
  show "blocked_edges (engine_init (engine_new cfg)) = []"
    by (simp add: engine_init_def engine_new_def)
qed

lemma fold_block_edge:
  "reach_at (fold block_edge is E) = reach_at E" "state_at (fold block_edge is E) = state_at E"
  "engine_wf cfg (fold block_edge is E) \<longleftrightarrow> engine_wf cfg E"
  "set (blocked_edges (fold block_edge is E)) = set is \<union> set (blocked_edges E)"
  by (induction "is" arbitrary: E) auto

definition seed :: "abstract_cfg \<Rightarrow> assertion_site \<Rightarrow> formula" where
  "seed cfg site = (case bt_get (cfg_nodes cfg) (site_node site) of None \<Rightarrow> FFalse
     | Some n \<Rightarrow> wp (node_transfer n) (f_not (site_obligation site)))"

lemma seed_assertion_eq:
  assumes "engine_wf cfg E" "site_node site \<in> set (node_ids cfg)"
  shows "seed_assertion site E
    = Inr (with_summary (site_node site) (\<lambda>s. s\<lparr>state := seed cfg site\<rparr>) E)"
proof -
  obtain n where n: "bt_get (cfg_nodes cfg) (site_node site) = Some n"
    using assms(2) by (auto simp: node_ids_get)
  then have "engine_node E (site_node site) = Inr n"
    using assms(1) by (simp add: engine_node_def engine_wf_def cfg_node_def)
  with n summary_mut_eq [OF assms] show ?thesis
    by (simp add: seed_assertion_def set_state_def seed_def Let_def)
qed

lemma seed_good:
  assumes "analysable cfg site"
  shows "wp_good (assigned cfg) (seed cfg site)"
proof (cases "bt_get (cfg_nodes cfg) (site_node site)")
  case (Some n)
  have "transfer_ok (assigned cfg) (node_transfer n)"
    using analysable_effects [OF assms node_effects [OF Some]] by (simp add: transfer_ok_def)
  moreover have "wp_good (assigned cfg) (f_not (site_obligation site))"
    using assms by (intro wp_good_connectives) (simp add: wp_good_def analysable_def)
  ultimately show ?thesis using Some by (simp add: seed_def wp_good_wp)
qed (simp add: seed_def)

lemma seed_covers:
  assumes "analysable cfg site" "fails_here cfg site n s"
  shows "eval_formula s (seed cfg site)"
proof -
  from assms(2) obtain nd u where nd: "n = site_node site" "bt_get (cfg_nodes cfg) n = Some nd"
    "transfer_runs s (node_transfer nd) u" "\<not> eval_formula u (site_obligation site)"
    by (auto simp: fails_here_def)
  have "transfer_ok (assigned cfg) (node_transfer nd)"
    using analysable_effects [OF assms(1) node_effects [OF nd(2)]] by (simp add: transfer_ok_def)
  moreover have "wp_good (assigned cfg) (f_not (site_obligation site))"
    using assms(1) by (intro wp_good_connectives) (simp add: wp_good_def analysable_def)
  ultimately show ?thesis using wp_covers [OF _ _ nd(3)] nd by (simp add: seed_def)
qed

lemma seed_exact:
  assumes "analysable cfg site" "exact_effects cfg" "eval_formula s (seed cfg site)"
  shows "fails_here cfg site (site_node site) s"
proof -
  from assms(3) obtain nd where nd: "bt_get (cfg_nodes cfg) (site_node site) = Some nd"
    "eval_formula s (wp (node_transfer nd) (f_not (site_obligation site)))"
    by (auto simp: seed_def split: option.splits)
  have "transfer_ok (assigned cfg) (node_transfer nd)" "transfer_exact (node_transfer nd)"
    using analysable_effects [OF assms(1) node_effects [OF nd(1)]]
      exact_list [OF assms(2) node_effects [OF nd(1)]] by (simp_all add: transfer_ok_def)
  moreover have "wp_good (assigned cfg) (f_not (site_obligation site))"
    using assms(1) by (intro wp_good_connectives) (simp add: wp_good_def analysable_def)
  ultimately obtain u where "transfer_runs s (node_transfer nd) u"
    "eval_formula u (f_not (site_obligation site))"
    using wp_is_preimage nd(2) by blast
  with nd(1) show ?thesis by (auto simp: fails_here_def)
qed

definition seeded :: "abstract_cfg \<Rightarrow> assertion_site \<Rightarrow> rule_engine" where
  "seeded cfg site = with_summary (site_node site) (\<lambda>s. s\<lparr>state := seed cfg site\<rparr>) (start_engine cfg [])"

lemma seeded_parts:
  assumes "cfg_wf cfg" "site_node site \<in> set (node_ids cfg)"
  shows "engine_wf cfg (seeded cfg site)"
    and "state_at (seeded cfg site) n = (if n = site_node site then seed cfg site else FFalse)"
    and "reach_at (seeded cfg site) n = (if n = cfg_entry cfg then FTrue else FFalse)"
    and "blocked_edges (seeded cfg site) = []"
  using init_summaries [OF assms(1)] put_state_at [OF init_summaries(1) [OF assms(1)] assms(2)] assms(2)
  by (auto simp: seeded_def start_engine_def)

lemma seeded_exact:
  assumes "cfg_wf cfg" "site_node site \<in> set (node_ids cfg)" "analysable cfg site" "exact_effects cfg"
  shows "exact_inv cfg site (seeded cfg site)"
  using seeded_parts [OF assms(1,2)] seed_good [OF assms(3)] seed_exact [OF assms(3,4)]
  by (auto simp: exact_inv_def states_good_def intro: here)

end
