(* ===== verification/Skeleton.thy ===== *)
theory Skeleton
  imports Runs
begin

text \<open>
  Executions that follow no excluded edge.  The engine blocks the back edges, so what its passes
  establish is about these: the runs up to a node, the violations ahead of it, and the guards that
  stay true on the way.  With nothing excluded they are all executions.
\<close>

inductive skeleton_run :: "abstract_cfg \<Rightarrow> cfg_edge_id set \<Rightarrow> valuation \<Rightarrow> cfg_node_id \<Rightarrow> valuation \<Rightarrow> bool"
  for cfg ex s0 where
  start: "admissible s0 \<Longrightarrow> skeleton_run cfg ex s0 (cfg_entry cfg) s0"
| along: "skeleton_run cfg ex s0 (edge_source e) s \<Longrightarrow> e \<in> set (kept_edges ex cfg) \<Longrightarrow> edge_step cfg e s t \<Longrightarrow>
    skeleton_run cfg ex s0 (edge_target e) t"

inductive violates_by :: "abstract_cfg \<Rightarrow> cfg_edge_id set \<Rightarrow> assertion_site \<Rightarrow> cfg_node_id \<Rightarrow> valuation \<Rightarrow> bool"
  for cfg ex site where
  here: "fails_here cfg site n s \<Longrightarrow> violates_by cfg ex site n s"
| later: "e \<in> set (kept_edges ex cfg) \<Longrightarrow> edge_source e = n \<Longrightarrow> edge_step cfg e s t \<Longrightarrow>
    violates_by cfg ex site (edge_target e) t \<Longrightarrow> violates_by cfg ex site n s"

definition stable_on :: "abstract_cfg \<Rightarrow> cfg_edge_id set \<Rightarrow> bool" where
  "stable_on cfg ex \<longleftrightarrow> (\<forall>g \<in> set (kept_edges ex cfg).
     writes_all (edge_effects g) \<inter> symbols (edge_guard g) = {} \<and>
     (\<forall>e \<in> set (kept_edges ex cfg). (edge_target g, edge_source e) \<in> (flow (kept_edges ex cfg))\<^sup>* \<longrightarrow>
        edge_writes cfg e \<inter> symbols (edge_guard g) = {}))"

lemma kept_none [simp]: "kept_edges {} cfg = all_edges cfg"
  by (simp add: kept_edges_def)

lemma kept_all: "e \<in> set (kept_edges ex cfg) \<Longrightarrow> e \<in> set (all_edges cfg)"
  by (simp add: kept_edges_def)

lemma skeleton_cfg_run: "skeleton_run cfg ex s0 n s \<Longrightarrow> cfg_run cfg s0 n s"
  by (induction rule: skeleton_run.induct) (auto intro: cfg_run.intros dest: kept_all)

lemma skeleton_run_none: "skeleton_run cfg {} s0 n s \<longleftrightarrow> cfg_run cfg s0 n s"
proof
  show "cfg_run cfg s0 n s \<Longrightarrow> skeleton_run cfg {} s0 n s"
    by (induction rule: cfg_run.induct) (auto intro: skeleton_run.intros)
qed (rule skeleton_cfg_run)

lemma violates_by_none: "violates_by cfg {} site n s \<longleftrightarrow> violates cfg site n s"
proof
  show "violates_by cfg {} site n s \<Longrightarrow> violates cfg site n s"
    by (induction rule: violates_by.induct) (auto intro: violates.intros)
  show "violates cfg site n s \<Longrightarrow> violates_by cfg {} site n s"
    by (induction rule: violates.induct) (auto intro: violates_by.intros)
qed

lemma stable_on_none: "stable_on cfg {} \<longleftrightarrow> stable_guards cfg"
  by (simp add: stable_on_def stable_guards_def)

lemma skeleton_run_admissible: "skeleton_run cfg ex s0 n s \<Longrightarrow> analysable cfg site \<Longrightarrow> admissible s"
  using skeleton_cfg_run cfg_run_admissible by blast

end
