(* ===== verification/Verified_Sound.thy ===== *)
theory Verified_Sound
  imports Backward_Sound Skeleton
begin

text \<open>
  The invariants behind the verdict \<open>Verified\<close>: after the forward pass the reach formula of a
  node holds in every state the program brings there, and after the backward pass its state
  formula holds in each of those that has a violation ahead.
\<close>

section \<open>The forward pass\<close>

definition upstream :: "abstract_cfg \<Rightarrow> cfg_edge_id set \<Rightarrow> cfg_node_id \<Rightarrow> symbol set" where
  "upstream cfg ex n = (\<Union>g \<in> {g \<in> set (kept_edges ex cfg). (edge_target g, n) \<in> (flow (kept_edges ex cfg))\<^sup>*}.
     symbols (edge_guard g))"

text \<open>
  The reach formulas without the injected invariants: they are as strong as those of the engine,
  and read nothing that the guards upstream do not read.
\<close>

definition forward_ghost ::
  "abstract_cfg \<Rightarrow> cfg_edge_id set \<Rightarrow> abstract_edge set \<Rightarrow> (cfg_node_id \<Rightarrow> formula) \<Rightarrow> bool" where
  "forward_ghost cfg ex F R \<longleftrightarrow> (\<forall>n. symbols (R n) \<subseteq> upstream cfg ex n) \<and> (\<forall>s. eval_formula s (R (cfg_entry cfg))) \<and>
     (\<forall>e \<in> F. \<forall>s0 s t. skeleton_run cfg ex s0 (edge_source e) s \<longrightarrow> edge_step cfg e s t \<longrightarrow>
        eval_formula t (R (edge_target e)))"

definition forward_inv ::
  "abstract_cfg \<Rightarrow> cfg_edge_id set \<Rightarrow> (cfg_node_id \<Rightarrow> formula) \<Rightarrow> abstract_edge set \<Rightarrow> rule_engine \<Rightarrow> bool" where
  "forward_inv cfg ex S F E \<longleftrightarrow> engine_wf cfg E \<and> set (blocked_edges E) = ex \<and> state_at E = S \<and>
     (\<exists>R. forward_ghost cfg ex F R \<and> (\<forall>n s. eval_formula s (R n) \<longrightarrow> eval_formula s (reach_at E n)))"

lemma upstream_edge:
  assumes "e \<in> set (kept_edges ex cfg)"
  shows "upstream cfg ex (edge_source e) \<subseteq> upstream cfg ex (edge_target e)"
    and "symbols (edge_guard e) \<subseteq> upstream cfg ex (edge_target e)"
proof -
  have "(edge_source e, edge_target e) \<in> flow (kept_edges ex cfg)" using assms by (auto simp: flow_def)
  then show "upstream cfg ex (edge_source e) \<subseteq> upstream cfg ex (edge_target e)"
    unfolding upstream_def by (blast intro: rtrancl_into_rtrancl)
  show "symbols (edge_guard e) \<subseteq> upstream cfg ex (edge_target e)"
    using assms unfolding upstream_def by blast
qed

lemma stable_along:
  assumes "stable_on cfg ex" "e \<in> set (kept_edges ex cfg)" "edge_step cfg e s t"
  shows "symbols f \<subseteq> upstream cfg ex (edge_source e) \<Longrightarrow> eval_formula t f = eval_formula s f"
    and "eval_formula t (edge_guard e)"
proof -
  from assms(3) obtain n u where n: "bt_get (cfg_nodes cfg) (edge_source e) = Some n"
    "transfer_runs s (node_transfer n) u" "eval_formula u (edge_guard e)"
    "steps effect_step u (edge_effects e) t"
    by (auto simp: edge_step_def)
  have "writes_all (edge_effects e) \<inter> symbols (edge_guard e) = {}"
    using assms(1,2) by (simp add: stable_on_def)
  with n(3) eval_unwritten [OF n(4)] show "eval_formula t (edge_guard e)" by simp
  assume "symbols f \<subseteq> upstream cfg ex (edge_source e)"
  then have "edge_writes cfg e \<inter> symbols f = {}"
    using assms(1,2) unfolding stable_on_def upstream_def by blast
  then have "writes_all (effects (node_transfer n)) \<inter> symbols f = {}"
    "writes_all (edge_effects e) \<inter> symbols f = {}"
    using n(1) by (auto simp: edge_writes_def)
  with eval_unwritten n(2,4) show "eval_formula t f = eval_formula s f" by metis
qed

lemma run_arrives:
  assumes "skeleton_run cfg ex s0 n s"
  shows "n = cfg_entry cfg \<or> (\<exists>e \<in> set (kept_edges ex cfg). edge_target e = n \<and>
    (\<exists>r. skeleton_run cfg ex s0 (edge_source e) r \<and> edge_step cfg e r s))"
  using assms by (cases rule: skeleton_run.cases) auto

lemma ghost_complete:
  assumes "forward_ghost cfg ex F R" "{e \<in> set (kept_edges ex cfg). edge_target e = n} \<subseteq> F"
    and "skeleton_run cfg ex s0 n s"
  shows "eval_formula s (R n)"
  using run_arrives [OF assms(3)]
proof
  assume "\<exists>e \<in> set (kept_edges ex cfg). edge_target e = n \<and>
    (\<exists>r. skeleton_run cfg ex s0 (edge_source e) r \<and> edge_step cfg e r s)"
  then obtain e r where "e \<in> F" "edge_target e = n" "skeleton_run cfg ex s0 (edge_source e) r"
    "edge_step cfg e r s" using assms(2) by blast
  with assms(1) show ?thesis unfolding forward_ghost_def by blast
qed (use assms(1) in \<open>simp add: forward_ghost_def\<close>)

lemma forward_complete:
  assumes "forward_inv cfg ex S F E" "{e \<in> set (kept_edges ex cfg). edge_target e = n} \<subseteq> F"
    and "skeleton_run cfg ex s0 n s"
  shows "eval_formula s (reach_at E n)"
  using assms ghost_complete unfolding forward_inv_def by blast

lemma forwarded_reach:
  assumes "engine_wf cfg E" "cfg_wf cfg" "e \<in> set (all_edges cfg)"
  shows "reach_at (forwarded e E) = (if edge_id e \<in> set (blocked_edges E) then reach_at E else (reach_at E)(edge_target e :=
    f_or (reach_at E (edge_target e)) (f_and (reach_at E (edge_source e)) (edge_guard e))))"
    and "blocked_edges (forwarded e E) = blocked_edges E"
  using join_reach_at(1) [OF assms(1) edge_nodes(3) [OF assms(2,3)]]
  by (simp_all add: forwarded_def is_blocked_def)

lemma ghost_step:
  assumes stable: "stable_on cfg ex" and e: "e \<in> set (kept_edges ex cfg)"
    and ghost: "forward_ghost cfg ex F R" and preds: "{g \<in> set (kept_edges ex cfg). edge_target g = edge_source e} \<subseteq> F"
  shows "forward_ghost cfg ex (insert e F)
    (R(edge_target e := f_or (R (edge_target e)) (f_and (R (edge_source e)) (edge_guard e))))"
proof -
  let ?new = "f_or (R (edge_target e)) (f_and (R (edge_source e)) (edge_guard e))"
  have "symbols ?new \<subseteq> upstream cfg ex (edge_target e)"
  proof -
    have "symbols ?new \<subseteq> symbols (R (edge_target e)) \<union> (symbols (R (edge_source e)) \<union> symbols (edge_guard e))"
      using syms.sym_f_or syms.sym_f_and by blast
    also have "\<dots> \<subseteq> upstream cfg ex (edge_target e)"
      using ghost upstream_edge [OF e] unfolding forward_ghost_def by blast
    finally show ?thesis .
  qed
  moreover have "eval_formula t ?new"
    if "skeleton_run cfg ex s0 (edge_source e) s" "edge_step cfg e s t" for s0 s t
  proof -
    have "eval_formula s (R (edge_source e))" by (rule ghost_complete [OF ghost preds that(1)])
    moreover have "symbols (R (edge_source e)) \<subseteq> upstream cfg ex (edge_source e)"
      using ghost by (simp add: forward_ghost_def)
    ultimately show ?thesis using stable_along [OF stable e that(2)] by simp
  qed
  ultimately show ?thesis using ghost by (auto simp: forward_ghost_def)
qed

lemma forward_step:
  assumes wf: "cfg_wf cfg" and stable: "stable_on cfg ex" and e: "e \<in> set (all_edges cfg)"
    and inv: "forward_inv cfg ex S F E" and preds: "{g \<in> set (kept_edges ex cfg). edge_target g = edge_source e} \<subseteq> F"
  shows "forward_inv cfg ex S (F \<union> ({e} \<inter> set (kept_edges ex cfg))) (forwarded e E)"
proof -
  have E: "engine_wf cfg E" "set (blocked_edges E) = ex" using inv by (simp_all add: forward_inv_def)
  note reach = forwarded_reach [OF E(1) wf e]
  obtain R where R: "forward_ghost cfg ex F R" "\<forall>n s. eval_formula s (R n) \<longrightarrow> eval_formula s (reach_at E n)"
    using inv by (auto simp: forward_inv_def)
  show ?thesis
  proof (cases "e \<in> set (kept_edges ex cfg)")
    case True
    let ?R = "R(edge_target e := f_or (R (edge_target e)) (f_and (R (edge_source e)) (edge_guard e)))"
    have "forward_ghost cfg ex (F \<union> ({e} \<inter> set (kept_edges ex cfg))) ?R"
      using ghost_step [OF stable True R(1) preds] True by simp
    moreover have "\<forall>n s. eval_formula s (?R n) \<longrightarrow> eval_formula s (reach_at (forwarded e E) n)"
      using R(2) True E(2) by (auto simp: reach kept_edges_def)
    ultimately show ?thesis using inv E wf e unfolding forward_inv_def by (auto simp: reach(2))
  next
    case False
    then have "edge_id e \<in> set (blocked_edges E)" using e E(2) by (simp add: kept_edges_def)
    then have "forwarded e E = E" by (simp add: forwarded_def is_blocked_def)
    then show ?thesis using inv False by simp
  qed
qed

lemma forward_out_loop:
  assumes "cfg_wf cfg" "stable_on cfg ex" "unused_summaries cfg tables"
    and "{g \<in> set (kept_edges ex cfg). edge_target g = n} \<subseteq> F"
    and "set es \<subseteq> set (out_of cfg n)" "forward_inv cfg ex S F E"
  shows "\<exists>E'. rfold (forward_edge z tables) (map edge_id es) E = Inr E' \<and>
    forward_inv cfg ex S (F \<union> (set es \<inter> set (kept_edges ex cfg))) E'"
  using assms(4-6)
proof (induction es arbitrary: E F)
  case (Cons e es)
  have e: "e \<in> set (all_edges cfg)" "edge_source e = n" using Cons.prems by auto
  have E: "engine_wf cfg E" using Cons.prems(3) by (simp add: forward_inv_def)
  let ?F = "F \<union> ({e} \<inter> set (kept_edges ex cfg))"
  have "forward_inv cfg ex S ?F (forwarded e E)"
    using forward_step [OF assms(1,2) e(1) Cons.prems(3)] Cons.prems(1) e(2) by blast
  moreover have "forward_edge z tables (edge_id e) E = Inr (forwarded e E)"
    by (rule forward_edge_eq [OF assms(3) E assms(1) e(1)])
  moreover have "?F \<union> (set es \<inter> set (kept_edges ex cfg)) = F \<union> (set (e # es) \<inter> set (kept_edges ex cfg))" by auto
  ultimately show ?case using Cons.IH [of ?F "forwarded e E"] Cons.prems(1,2) by auto
qed auto

text \<open>Positions in a topological order: sources come before, targets after.\<close>

lemma topological_split:
  assumes "topological ids es (ys @ n # zs)" "e \<in> set es"
  shows "edge_target e = n \<Longrightarrow> edge_source e \<in> set ys"
    and "edge_source e = n \<Longrightarrow> edge_target e \<in> set ids \<Longrightarrow> edge_target e \<in> set zs"
proof -
  let ?o = "ys @ n # zs"
  have ord: "\<And>i. i < length ?o \<Longrightarrow> edge_target e = ?o ! i \<Longrightarrow> edge_source e \<in> set (take i ?o)"
    using assms by (auto simp: topological_def in_order_def)
  have dist: "distinct ?o" and all: "set ?o = set ids" using assms by (simp_all add: topological_def)
  show "edge_source e \<in> set ys" if "edge_target e = n" using ord [of "length ys"] that by simp
  show "edge_target e \<in> set zs" if src: "edge_source e = n" and t: "edge_target e \<in> set ids"
  proof (rule ccontr)
    assume "edge_target e \<notin> set zs"
    then have "edge_target e \<in> set (ys @ [n])" using t all by auto
    then obtain i where "i < length (ys @ [n])" "(ys @ [n]) ! i = edge_target e"
      unfolding in_set_conv_nth by blast
    then have i: "i \<le> length ys" "?o ! i = edge_target e" by (auto simp: nth_append split: if_splits)
    then have "n \<in> set (take i ?o)" using ord [of i] src by simp
    then have "n \<in> set ys" using i(1) by (auto dest: in_set_takeD)
    with dist show False by simp
  qed
qed

lemma forward_pass_complete:
  assumes wf: "cfg_wf cfg" and stable: "stable_on cfg ex" and tab: "unused_summaries cfg tables"
    and topo: "topological (node_ids cfg) (kept_edges ex cfg) order" and inv: "forward_inv cfg ex S {} E"
  shows "\<exists>E'. forward_pass z tables order E = Inr E' \<and> forward_inv cfg ex S (set (kept_edges ex cfg)) E'"
proof -
  let ?F = "\<lambda>ys. {e \<in> set (kept_edges ex cfg). edge_source e \<in> set ys}"
  let ?f = "\<lambda>node E. rfold (forward_edge z tables) (outgoing_edges (engine_cfg E) node) E"
  have "\<exists>E'. rfold ?f zs E = Inr E' \<and> forward_inv cfg ex S (?F (ys @ zs)) E'"
    if "order = ys @ zs" "forward_inv cfg ex S (?F ys) E" for ys zs E
    using that
  proof (induction zs arbitrary: ys E)
    case (Cons n zs)
    have "{g \<in> set (kept_edges ex cfg). edge_target g = n} \<subseteq> ?F ys"
      using topological_split(1) [OF topo [unfolded Cons.prems(1)]] by auto
    then obtain U where U: "rfold (forward_edge z tables) (map edge_id (out_of cfg n)) E = Inr U"
      "forward_inv cfg ex S (?F ys \<union> (set (out_of cfg n) \<inter> set (kept_edges ex cfg))) U"
      using forward_out_loop [OF wf stable tab _ _ Cons.prems(2)] by blast
    have "?F ys \<union> (set (out_of cfg n) \<inter> set (kept_edges ex cfg)) = ?F (ys @ [n])" using kept_all by auto
    then have inv: "forward_inv cfg ex S (?F (ys @ [n])) U" using U(2) by simp
    have "engine_cfg E = cfg" using Cons.prems(2) by (simp add: forward_inv_def engine_wf_def)
    then have "?f n E = Inr U" using U(1) by (simp add: outgoing_incoming)
    moreover obtain E' where "rfold ?f zs U = Inr E'" "forward_inv cfg ex S (?F ((ys @ [n]) @ zs)) E'"
      using Cons.IH [of "ys @ [n]" U] Cons.prems(1) inv by auto
    ultimately show ?case by auto
  qed auto
  from this [of "[]" order E] inv obtain E' where
    E': "forward_pass z tables order E = Inr E'" "forward_inv cfg ex S (?F order) E'"
    by (auto simp: forward_pass_def)
  have "?F order = set (kept_edges ex cfg)"
    using topo all_edges_nodes [OF wf] by (auto simp: topological_def dest: kept_all)
  with E' show ?thesis by simp
qed

section \<open>The backward pass\<close>

definition violation_via ::
  "abstract_cfg \<Rightarrow> cfg_edge_id set \<Rightarrow> assertion_site \<Rightarrow> abstract_edge set \<Rightarrow> cfg_node_id \<Rightarrow> valuation \<Rightarrow> bool" where
  "violation_via cfg ex site D n s \<longleftrightarrow> fails_here cfg site n s \<or>
     (\<exists>e \<in> D. edge_source e = n \<and> (\<exists>t. edge_step cfg e s t \<and> violates_by cfg ex site (edge_target e) t))"

definition cover_inv ::
  "abstract_cfg \<Rightarrow> cfg_edge_id set \<Rightarrow> assertion_site \<Rightarrow> abstract_edge set \<Rightarrow> rule_engine \<Rightarrow> bool" where
  "cover_inv cfg ex site D E \<longleftrightarrow> engine_wf cfg E \<and> states_good cfg E \<and> D \<subseteq> set (kept_edges ex cfg) \<and>
     ex \<subseteq> set (blocked_edges E) \<and> set (blocked_edges E) \<subseteq> edge_id ` D \<union> ex \<and>
     (\<forall>s0 n s. skeleton_run cfg ex s0 n s \<longrightarrow> eval_formula s (reach_at E n)) \<and>
     (\<forall>s0 n s. skeleton_run cfg ex s0 n s \<longrightarrow> violation_via cfg ex site D n s \<longrightarrow> eval_formula s (state_at E n))"

lemma cover_violates:
  assumes "cover_inv cfg ex site D E" "{g \<in> set (kept_edges ex cfg). edge_source g = n} \<subseteq> D"
    and "skeleton_run cfg ex s0 n s" "violates_by cfg ex site n s"
  shows "eval_formula s (state_at E n)"
proof -
  have "violation_via cfg ex site D n s"
    using assms(4)
  proof (cases rule: violates_by.cases)
    case (later e t)
    with assms(2) show ?thesis by (auto simp: violation_via_def)
  qed (simp add: violation_via_def)
  with assms(1,3) show ?thesis by (auto simp: cover_inv_def)
qed

text \<open>The edges that are followed, of those a step touches.\<close>

abbreviation followed :: "abstract_cfg \<Rightarrow> cfg_edge_id set \<Rightarrow> abstract_edge list \<Rightarrow> abstract_edge set" where
  "followed cfg ex es \<equiv> set es \<inter> set (kept_edges ex cfg)"

lemma cover_pulled:
  assumes wf: "cfg_wf cfg" and an: "analysable cfg site" and e: "e \<in> set (all_edges cfg)"
    and inv: "cover_inv cfg ex site D E" and succ: "{g \<in> set (kept_edges ex cfg). edge_source g = edge_target e} \<subseteq> D"
  shows "cover_inv cfg ex site (D \<union> followed cfg ex [e]) (pulled e E)"
proof (cases "is_blocked E (edge_id e)")
  case True
  then have "edge_id e \<in> edge_id ` D \<union> ex" using inv by (auto simp: cover_inv_def is_blocked_def)
  moreover have "e \<in> D" if "edge_id e \<in> edge_id ` D"
    using that edge_id_inj [OF wf e] inv kept_all by (fastforce simp: cover_inv_def)
  ultimately have "D \<union> followed cfg ex [e] = D" by (auto simp: kept_edges_def)
  moreover have "pulled e E = E" using True by (simp add: pulled_def)
  ultimately show ?thesis using inv by simp
next
  case False
  then have "edge_id e \<notin> ex" using inv by (auto simp: cover_inv_def is_blocked_def)
  then have kept: "e \<in> set (kept_edges ex cfg)" using e by (simp add: kept_edges_def)
  have E: "engine_wf cfg E" using inv by (simp add: cover_inv_def)
  let ?t = "state_at E (edge_target e)"
  have good: "wp_good (assigned cfg) ?t" using inv by (simp add: cover_inv_def states_good_def)
  note st = pulled_state [OF E wf e]
  have "states_good cfg (pulled e E)"
    using inv edge_pre_good [OF an e good] by (auto simp: states_good_def cover_inv_def st)
  moreover have "eval_formula s (state_at (pulled e E) n)"
    if run: "skeleton_run cfg ex s0 n s" and v: "violation_via cfg ex site (D \<union> followed cfg ex [e]) n s" for s0 n s
  proof (cases "violation_via cfg ex site D n s")
    case True
    then have "eval_formula s (state_at E n)" using inv run by (auto simp: cover_inv_def)
    then show ?thesis by (auto simp: st)
  next
    case no: False
    with v obtain t where t: "n = edge_source e" "edge_step cfg e s t"
      "violates_by cfg ex site (edge_target e) t" by (auto simp: violation_via_def)
    have "skeleton_run cfg ex s0 (edge_target e) t" using run t kept by (auto intro: skeleton_run.along)
    then have "eval_formula t ?t" using cover_violates [OF inv succ] t(3) by blast
    then have "eval_formula s (edge_pre cfg e ?t)" by (rule edge_pre_covers [OF an e good t(2)])
    then show ?thesis using False t(1) by (simp add: st)
  qed
  ultimately show ?thesis
    using inv E wf e by (auto simp: cover_inv_def)
qed

lemma cover_pruned:
  assumes wf: "cfg_wf cfg" and an: "analysable cfg site" and e: "e \<in> set (all_edges cfg)" "e \<in> D \<or> e \<notin> set (kept_edges ex cfg)"
    and inv: "cover_inv cfg ex site D E"
    and un: "unrealised (reach_at E (edge_source e)) (state_at E (edge_source e))"
  shows "cover_inv cfg ex site D (pruned e E)"
proof -
  have E: "engine_wf cfg E" using inv by (simp add: cover_inv_def)
  note st = pruned_state [OF E wf e(1)]
  have "eval_formula s (state_at (pruned e E) n)"
    if run: "skeleton_run cfg ex s0 n s" and v: "violation_via cfg ex site D n s" for s0 n s
  proof -
    have "admissible s" "eval_formula s (reach_at E n)" "eval_formula s (state_at E n)"
      using skeleton_run_admissible [OF run an] inv run v by (auto simp: cover_inv_def)
    with un have "n \<noteq> edge_source e" by (auto simp: unrealised_def)
    with \<open>eval_formula s (state_at E n)\<close> show ?thesis by (simp add: st)
  qed
  moreover have "states_good cfg (pruned e E)" using inv by (auto simp: cover_inv_def states_good_def st)
  moreover have "edge_id e \<in> edge_id ` D \<union> ex" using e by (auto simp: kept_edges_def)
  ultimately show ?thesis using inv E wf e(1) by (auto simp: cover_inv_def st)
qed

lemma cover_backward_edge:
  assumes "cfg_wf cfg" "analysable cfg site" "unused_summaries cfg tables" "sound_solver z"
    and "e \<in> set (all_edges cfg)" "cover_inv cfg ex site D E"
    and "{g \<in> set (kept_edges ex cfg). edge_source g = edge_target e} \<subseteq> D"
    and "backward_edge z tables (edge_id e) E = Inr E'"
  shows "cover_inv cfg ex site (D \<union> followed cfg ex [e]) E'"
proof -
  have E: "engine_wf cfg E" using assms(6) by (simp add: cover_inv_def)
  note step = cover_pulled [OF assms(1,2,5)]
  have two: "cover_inv cfg ex site (D \<union> followed cfg ex [e]) (pulled e (pulled e E))"
    using step [OF step [OF assms(6,7)]] assms(7) by (simp add: Un_assoc le_supI1)
  from backward_edge_cases [OF assms(3) E assms(1,5,4,8)] cover_pruned [OF assms(1,2,5) _ two] two
  show ?thesis by auto
qed

lemma cover_in_loop:
  assumes "cfg_wf cfg" "analysable cfg site" "unused_summaries cfg tables" "sound_solver z"
    and "{g \<in> set (kept_edges ex cfg). edge_source g = n} \<subseteq> D"
    and "set es \<subseteq> set (in_to cfg n)" "cover_inv cfg ex site D E"
    and "rfold (backward_edge z tables) (map edge_id es) E = Inr E'"
  shows "cover_inv cfg ex site (D \<union> followed cfg ex es) E'"
  using assms(5-8)
proof (induction es arbitrary: E D)
  case (Cons e es)
  then obtain U where U: "backward_edge z tables (edge_id e) E = Inr U"
    "rfold (backward_edge z tables) (map edge_id es) U = Inr E'" by (auto simp: rbind_eq_Inr)
  have e: "e \<in> set (all_edges cfg)" "edge_target e = n" using Cons.prems by auto
  let ?D = "D \<union> followed cfg ex [e]"
  have "cover_inv cfg ex site ?D U"
    using cover_backward_edge [OF assms(1-4) e(1) Cons.prems(3) _ U(1)] Cons.prems(1) e(2) by blast
  then have "cover_inv cfg ex site (?D \<union> followed cfg ex es) E'"
    using Cons.IH [of ?D U] Cons.prems(1,2) U(2) by auto
  moreover have "?D \<union> followed cfg ex es = D \<union> followed cfg ex (e # es)" by auto
  ultimately show ?case by simp
qed simp

lemma backward_pass_complete:
  assumes wf: "cfg_wf cfg" and an: "analysable cfg site" and tab: "unused_summaries cfg tables"
    and z: "sound_solver z" and topo: "topological (node_ids cfg) (kept_edges ex cfg) order"
    and inv: "cover_inv cfg ex site {} E" and run: "backward_pass z tables order E = Inr E'"
  shows "cover_inv cfg ex site (set (kept_edges ex cfg)) E'"
proof -
  let ?D = "\<lambda>zs. {e \<in> set (kept_edges ex cfg). edge_target e \<in> set zs}"
  let ?f = "\<lambda>node E. rfold (backward_edge z tables) (incoming_edges (engine_cfg E) node) E"
  have "cover_inv cfg ex site (?D (ys @ zs)) E'"
    if "order = ys @ zs" "cover_inv cfg ex site (?D zs) E" "rfold ?f (rev ys) E = Inr E'" for ys zs E
    using that
  proof (induction ys arbitrary: zs E rule: rev_induct)
    case (snoc n ys)
    have cfg: "engine_cfg E = cfg" using snoc.prems(2) by (simp add: cover_inv_def engine_wf_def)
    then obtain U where U: "rfold (backward_edge z tables) (map edge_id (in_to cfg n)) E = Inr U"
      "rfold ?f (rev ys) U = Inr E'"
      using snoc.prems(3) by (auto simp: rbind_eq_Inr outgoing_incoming)
    have order: "order = ys @ n # zs" using snoc.prems(1) by simp
    have "{g \<in> set (kept_edges ex cfg). edge_source g = n} \<subseteq> ?D zs"
      using topological_split(2) [OF topo [unfolded order]] all_edges_nodes [OF wf] kept_all by blast
    then have "cover_inv cfg ex site (?D zs \<union> followed cfg ex (in_to cfg n)) U"
      using cover_in_loop [OF wf an tab z _ _ snoc.prems(2) U(1)] by blast
    moreover have "?D zs \<union> followed cfg ex (in_to cfg n) = ?D (n # zs)" using kept_all by auto
    ultimately have "cover_inv cfg ex site (?D (n # zs)) U" by simp
    from snoc.IH [OF order this U(2)] show ?case by simp
  qed simp
  from this [of order "[]" E] inv run have "cover_inv cfg ex site (?D order) E'"
    by (simp add: backward_pass_def)
  moreover have "?D order = set (kept_edges ex cfg)"
    using topo all_edges_nodes [OF wf] by (auto simp: topological_def dest: kept_all)
  ultimately show ?thesis by simp
qed

section \<open>All rounds\<close>

lemma cover_forward_edge:
  assumes "cfg_wf cfg" "unused_summaries cfg tables" "e \<in> set (all_edges cfg)" "cover_inv cfg ex site D E"
    "forward_edge z tables (edge_id e) E = Inr E'"
  shows "cover_inv cfg ex site D E'"
proof -
  have E: "engine_wf cfg E" using assms(4) by (simp add: cover_inv_def)
  then have E': "E' = forwarded e E" using forward_edge_eq [OF assms(2) E assms(1,3)] assms(5) by simp
  have "eval_formula s (reach_at E n) \<Longrightarrow> eval_formula s (reach_at E' n)" for s n
    using join_reach_at(1) [OF E edge_nodes(3) [OF assms(1,3)]] by (auto simp: E' forwarded_def)
  moreover have "blocked_edges E' = blocked_edges E" by (simp add: E' forwarded_def)
  ultimately show ?thesis using assms(1,3,4) E unfolding cover_inv_def E'
    by (auto simp: states_good_def)
qed

lemma cover_all_backward_edge:
  assumes "cfg_wf cfg" "analysable cfg site" "unused_summaries cfg tables" "sound_solver z"
    and "e \<in> set (all_edges cfg)" "cover_inv cfg ex site (set (kept_edges ex cfg)) E"
    and "backward_edge z tables (edge_id e) E = Inr E'"
  shows "cover_inv cfg ex site (set (kept_edges ex cfg)) E'"
proof -
  have "set (kept_edges ex cfg) \<union> followed cfg ex [e] = set (kept_edges ex cfg)" by blast
  then show ?thesis using cover_backward_edge [OF assms(1-6) _ assms(7)] by simp
qed

lemma cover_inv_cfg: "cover_inv cfg ex site D E \<Longrightarrow> engine_cfg E = cfg"
  by (simp add: cover_inv_def engine_wf_def)

lemma cover_rounds:
  assumes "cfg_wf cfg" "analysable cfg site" "unused_summaries cfg tables" "sound_solver z"
    and "cover_inv cfg ex site (set (kept_edges ex cfg)) E" "fixpoint_rounds k z tables order E = Inr E'"
  shows "cover_inv cfg ex site (set (kept_edges ex cfg)) E'"
proof (rule rounds_invariant [of "cover_inv cfg ex site (set (kept_edges ex cfg))"])
  fix E E'
  assume inv: "cover_inv cfg ex site (set (kept_edges ex cfg)) E"
  show "cover_inv cfg ex site (set (kept_edges ex cfg)) E'" if "forward_pass z tables order E = Inr E'"
    using cover_inv_cfg cover_forward_edge [OF assms(1,3)] that inv by (rule forward_pass_invariant)
  show "cover_inv cfg ex site (set (kept_edges ex cfg)) E'" if "backward_pass z tables order E = Inr E'"
    using cover_inv_cfg cover_all_backward_edge [OF assms(1-4)] that inv by (rule backward_pass_invariant)
qed (rule assms)+

text \<open>
  The run from any start: the excluded edges blocked, the assertion seeded, and the entry
  reached; whatever else the reach formulas hold at the start is joined with.
\<close>

definition ready :: "abstract_cfg \<Rightarrow> cfg_edge_id set \<Rightarrow> assertion_site \<Rightarrow> rule_engine \<Rightarrow> bool" where
  "ready cfg ex site E \<longleftrightarrow> engine_wf cfg E \<and> set (blocked_edges E) = ex \<and>
     (\<forall>n. state_at E n = (if n = site_node site then seed cfg site else FFalse)) \<and>
     (\<forall>s. eval_formula s (reach_at E (cfg_entry cfg)))"

lemma fixpoint_covers:
  assumes wf: "cfg_wf cfg" and an: "analysable cfg site" and stable: "stable_on cfg ex"
    and tab: "unused_summaries cfg tables" and z: "sound_solver z"
    and topo: "topological (node_ids cfg) (kept_edges ex cfg) order"
    and start: "ready cfg ex site E0"
    and run: "run_to_fixpoint z tables order E0 = Inr E'"
  shows "cover_inv cfg ex site (set (kept_edges ex cfg)) E'"
proof -
  have "forward_ghost cfg ex {} (\<lambda>n. if n = cfg_entry cfg then FTrue else FFalse)"
    by (auto simp: forward_ghost_def syms.sym_FTrue syms.sym_FFalse)
  moreover have "\<forall>n s. eval_formula s (if n = cfg_entry cfg then FTrue else FFalse) \<longrightarrow> eval_formula s (reach_at E0 n)"
    using start by (simp add: ready_def)
  ultimately have "forward_inv cfg ex (state_at E0) {} E0"
    using start unfolding forward_inv_def ready_def by blast
  then obtain U where U: "forward_pass z tables order E0 = Inr U"
    "forward_inv cfg ex (state_at E0) (set (kept_edges ex cfg)) U"
    using forward_pass_complete [OF wf stable tab topo] by blast
  have "states_good cfg U" using U(2) start seed_good [OF an] by (auto simp: states_good_def forward_inv_def ready_def)
  moreover have "eval_formula s (state_at U n)" if "violation_via cfg ex site {} n s" for n s
    using that U(2) start seed_covers [OF an]
    by (auto simp: forward_inv_def ready_def violation_via_def fails_here_def)
  moreover have "engine_wf cfg U" "set (blocked_edges U) = ex" using U(2) by (simp_all add: forward_inv_def)
  ultimately have "cover_inv cfg ex site {} U"
    using forward_complete [OF U(2)] by (auto simp: cover_inv_def)
  moreover from run U(1) obtain V where V: "backward_pass z tables order U = Inr V"
    "(if blocked_count E0 = blocked_count V then Inr V
      else fixpoint_rounds (Suc (length (cfg_edges (engine_cfg E0)))) z tables order V) = Inr E'"
    by (auto simp: run_to_fixpoint_def Let_def rbind_eq_Inr)
  ultimately have "cover_inv cfg ex site (set (kept_edges ex cfg)) V"
    using backward_pass_complete [OF wf an tab z topo] by blast
  note V_inv = this
  show ?thesis
  proof (cases "blocked_count E0 = blocked_count V")
    case True
    then have "E' = V" using V(2) by simp
    with V_inv show ?thesis by simp
  next
    case False
    then have "fixpoint_rounds (Suc (length (cfg_edges (engine_cfg E0)))) z tables order V = Inr E'"
      using V(2) by (simp only: if_False)
    then show ?thesis by (rule cover_rounds [OF wf an tab z V_inv])
  qed
qed

text \<open>An entry whose summary is refuted has no violation ahead.\<close>

lemma covered_entry_safe:
  assumes "cover_inv cfg ex site (set (kept_edges ex cfg)) E" "admissible s0"
    and "unrealised (reach_at E (cfg_entry cfg)) (state_at E (cfg_entry cfg))"
  shows "\<not> violates_by cfg ex site (cfg_entry cfg) s0"
proof
  assume v: "violates_by cfg ex site (cfg_entry cfg) s0"
  have run: "skeleton_run cfg ex s0 (cfg_entry cfg) s0" using assms(2) by (rule skeleton_run.start)
  have "eval_formula s0 (state_at E (cfg_entry cfg))" using cover_violates [OF assms(1) _ run v] by blast
  moreover have "eval_formula s0 (reach_at E (cfg_entry cfg))" using assms(1) run by (auto simp: cover_inv_def)
  ultimately show False using assms(2,3) by (auto simp: unrealised_def)
qed

lemma seeded_ready:
  "cfg_wf cfg \<Longrightarrow> site_node site \<in> set (node_ids cfg) \<Longrightarrow> ready cfg {} site (seeded cfg site)"
  using seeded_parts by (auto simp: ready_def)

section \<open>The verdicts\<close>

lemma start_all_edges [simp]: "filter (\<lambda>e. edge_id e \<notin> {}) es = es"
  by simp

lemma analyze_acyclic:
  assumes wf: "cfg_wf cfg" and site: "site_node site \<in> set (node_ids cfg)"
    and acyclic: "acyclic (graph cfg)"
    and run: "analyze_with_tables cfg site z tables names synth = Returns (Inr r)"
  shows "\<exists>order E. topological (node_ids cfg) (all_edges cfg) order \<and>
    run_to_fixpoint z tables order (seeded cfg site) = Inr E \<and>
    judge z (cfg_entry cfg) (detect_back_edges cfg = Some []) E = Inr (result_judgement r)"
proof -
  have kept: "kept_edges {} cfg = all_edges cfg" by (simp add: kept_edges_def)
  obtain order where o: "topological_order_excluding {} cfg = Returns (Some order)"
    "topological (node_ids cfg) (all_edges cfg) order"
    using order_cases [OF wf, of "{}"] acyclic by (auto simp: kept)
  then have "topological_order cfg = Returns (Some order)"
    by (simp add: topological_order_def topological_order_excluding_def)
  then have "run_backward cfg site z [] [] tables names = Returns (Inr r)"
    using run by (simp add: analyze_with_tables_def)
  moreover have "seed_assertion site (start_engine cfg []) = Inr (seeded cfg site)"
    using seed_assertion_eq [OF _ site] init_summaries(1) [OF wf]
    by (simp add: seeded_def start_engine_def)
  ultimately have "\<exists>E. run_to_fixpoint z tables order (seeded cfg site) = Inr E \<and>
    judge z (cfg_entry cfg) (detect_back_edges cfg = Some []) E = Inr (result_judgement r)"
    using o(1) by (auto simp: run_backward_def conjunct_loop_invariants_def lift_rule_def Let_def
        rbind_eq_Inr split: sum.splits)
  with o(2) show ?thesis by blast
qed

lemma judge_Verified:
  assumes "judge z n acyc E = Inr Verified" "engine_wf cfg E" "n \<in> set (node_ids cfg)" "sound_solver z"
  shows "unrealised (reach_at E n) (state_at E n)"
proof -
  let ?s = "the (bt_get (summaries E) n)"
  have "verified z n E = Inr True"
    using assms(1) by (auto simp: judge_def rbind_eq_Inr split: option.splits if_splits)
  then obtain report where "feasibility_with_model z (combined ?s) = Inr report"
    "report_feasibility report = Infeasible"
    using summary_eq [OF assms(2,3)]
    by (auto simp: verified_def rbind_eq_Inr lift_oracle_def check_summary_def split: sum.splits)
  from report_sound(1) [OF assms(4) this] summary_parts [OF assms(2,3)]
  show ?thesis by (auto simp: unrealised_def)
qed

lemma judge_BugFound:
  assumes "judge z n acyc E = Inr (BugFound m)" "engine_wf cfg E" "n \<in> set (node_ids cfg)"
    "sound_solver z"
  shows "\<exists>s. admissible s \<and> eval_formula s (reach_at E n) \<and> eval_formula s (state_at E n)"
proof -
  let ?s = "the (bt_get (summaries E) n)"
  have "bugfound z n acyc E = Inr (Some m)"
    using assms(1) by (auto simp: judge_def rbind_eq_Inr split: option.splits if_splits)
  then obtain report where "feasibility_with_model z (combined ?s) = Inr report"
    "report_feasibility report = Feasible"
    using summary_eq [OF assms(2,3)]
    by (auto simp: bugfound_def rbind_eq_Inr lift_oracle_def check_summary_def
        split: sum.splits if_splits feasibility.splits)
  from report_sound(2) [OF assms(4) this] summary_parts [OF assms(2,3)]
  show ?thesis by auto
qed

end
