(* ===== verification/Backward_Claims.thy ===== *)
theory Backward_Claims
  imports Verified_Sound
begin

text \<open>
  The checker always ends on an acyclic graph whose formulas the solver accepts, and its two
  verdicts are right.  The examples run it with the constant-folding solver.
\<close>

section \<open>No error but the solver's\<close>

definition accepts_all :: "solver \<Rightarrow> bool" where
  "accepts_all z \<longleftrightarrow> (\<forall>f. assert_formula z f = Inr ())"

lemma accepted_answers:
  assumes "accepts_all z"
  shows "\<exists>r. feasibility_with_model z f = Inr r" "\<exists>a. feasibility z f = Inr a"
  using assms by (simp_all add: accepts_all_def feasibility_def feasibility_with_model_def Let_def)

lemma backward_edge_total:
  assumes "accepts_all z" "unused_summaries cfg tables" "engine_wf cfg E" "cfg_wf cfg"
    and "e \<in> set (all_edges cfg)"
  shows "\<exists>E'. backward_edge z tables (edge_id e) E = Inr E' \<and> engine_wf cfg E'"
proof -
  let ?E = "pulled e (pulled e E)"
  have wf: "engine_wf cfg (pulled e E)" "engine_wf cfg ?E" using assms(3-5) by simp_all
  note src = edge_nodes(2) [OF assms(4,5)]
  obtain a where a: "feasibility z (combined (the (bt_get (summaries ?E) (edge_source e)))) = Inr a"
    using accepted_answers(2) [OF assms(1)] by blast
  have "notmay_pre_pruned z (edge_id e) (pulled e E) = Inr (if a = Infeasible then pruned e ?E else ?E)"
    using a wf src by (simp add: notmay_pre_pruned_def notmay_pre_eq [OF wf(1) assms(4,5)]
        engine_edge_eq [OF wf(2) assms(4,5)] summary_eq [OF wf(2)] lift_oracle_def
        summary_mut_eq [of cfg] pruned_def)
  then show ?thesis
    using usesummary_nothing(1) [OF assms(2) wf(1) assms(4,5)] wf pruned_wf [OF wf(2) assms(4,5)]
    by (simp add: backward_edge_def notmay_pre_eq [OF assms(3-5)])
qed

lemma forward_edge_total:
  assumes "unused_summaries cfg tables" "engine_wf cfg E" "cfg_wf cfg" "e \<in> set (all_edges cfg)"
  shows "\<exists>E'. forward_edge z tables (edge_id e) E = Inr E' \<and> engine_wf cfg E'"
  using forward_edge_eq [OF assms] forwarded_wf [OF assms(2-4)] by blast

lemma pass_total:
  assumes "\<And>e E. e \<in> set (all_edges cfg) \<Longrightarrow> engine_wf cfg E \<Longrightarrow>
      \<exists>E'. f (edge_id e) E = Inr E' \<and> engine_wf cfg E'"
    and "\<And>n. \<exists>es. sel cfg n = map edge_id es \<and> set es \<subseteq> set (all_edges cfg)" and "engine_wf cfg E"
  shows "\<exists>E'. rfold (\<lambda>node E. rfold f (sel (engine_cfg E) node) E) ns E = Inr E' \<and> engine_wf cfg E'"
proof (rule rfold_total [where I = "engine_wf cfg"])
  show "engine_wf cfg E" by (rule assms(3))
  fix n E
  assume E: "engine_wf cfg E"
  obtain es where es: "sel cfg n = map edge_id es" "set es \<subseteq> set (all_edges cfg)"
    using assms(2) by blast
  have "\<exists>E'. rfold f (map edge_id es) E = Inr E' \<and> engine_wf cfg E'"
    using assms(1) es(2) by (intro rfold_total [where I = "engine_wf cfg"] E) auto
  with E es(1) show "\<exists>E'. rfold f (sel (engine_cfg E) n) E = Inr E' \<and> engine_wf cfg E'"
    by (simp add: engine_wf_def)
qed

lemma rounds_total:
  assumes "accepts_all z" "unused_summaries cfg tables" "cfg_wf cfg" "engine_wf cfg E"
  shows "\<exists>E'. fixpoint_rounds k z tables order E = Inr E' \<and> engine_wf cfg E'"
  using assms(4)
proof (induction k arbitrary: E)
  case (Suc k)
  obtain U where U: "forward_pass z tables order E = Inr U" "engine_wf cfg U"
    using pass_total [of cfg "forward_edge z tables" outgoing_edges, OF forward_edge_total
        pass_edges(1) Suc.prems] assms(2,3) unfolding forward_pass_def by blast
  obtain V where V: "backward_pass z tables order U = Inr V" "engine_wf cfg V"
    using pass_total [of cfg "backward_edge z tables" incoming_edges, OF backward_edge_total
        pass_edges(2) U(2)] assms(1-3) unfolding backward_pass_def by blast
  show ?case using U V Suc.IH [OF V(2)] by (simp add: Let_def)
qed simp

lemma judge_total:
  assumes "accepts_all z" "engine_wf cfg E" "n \<in> set (node_ids cfg)"
  shows "\<exists>j. judge z n acyc E = Inr j"
proof -
  obtain r where "feasibility_with_model z (combined (the (bt_get (summaries E) n))) = Inr r"
    using accepted_answers(1) [OF assms(1)] by blast
  then have "check_summary z (the (bt_get (summaries E) n)) = Inr r" by (simp add: check_summary_def)
  then have "\<exists>b. bugfound z n acyc E = Inr b" "\<exists>v. verified z n E = Inr v"
    using summary_eq [OF assms(2,3)] by (simp_all add: bugfound_def verified_def lift_oracle_def)
  then show ?thesis by (auto simp: judge_def split: option.split)
qed

section \<open>A program with one branch\<close>

text \<open>\<open>x := 1; if (c) assert (x == n)\<close>\<close>

definition branch_cfg :: "formula \<Rightarrow> abstract_cfg" where
  "branch_cfg c = \<lparr>cfg_nodes = [
       (0, (example_node 0)\<lparr>node_transfer := transfer_fn_new [Assign (var_int ''x'') (AssignTerm (TInt 1))]\<rparr>),
       (1, example_node 1), (2, example_node 2)],
     cfg_edges = [(0, (example_edge 0 0 1)\<lparr>edge_guard := c\<rparr>),
       (1, (example_edge 1 0 2)\<lparr>edge_guard := f_not c\<rparr>)],
     cfg_entry = 0, concrete_exits = [1, 2], cfg_exit = None, next_node = 3, next_edge = 2\<rparr>"

definition branch_site :: "int \<Rightarrow> assertion_site" where
  "branch_site n = \<lparr>site_id = 1, site_node = 1, site_source_location = source_location_new [] 0 0,
     site_location = [], site_obligation = FEq (TVar (var_int ''x'')) (TInt (word_of_int n))\<rparr>"

lemmas branch_defs = branch_cfg_def branch_site_def example_node_def example_edge_def
  transfer_fn_new_def transfer_identity_def var_int_def var_new_def var_bool_def

lemma branch_wf: "cfg_wf (branch_cfg c)"
  by (auto simp: cfg_wf_defs branch_defs bt_wf_def node_ids_def bt_keys_def)

lemma branch_site_node: "site_node (branch_site n) \<in> set (node_ids (branch_cfg c))"
  by (simp add: branch_defs node_ids_def bt_keys_def)

lemma branch_graph: "graph (branch_cfg c) = {(0, 1), (0, 2)}"
  by (auto simp: flow_def branch_defs bt_values_def)

lemma branch_acyclic: "acyclic (graph (branch_cfg c))"
proof -
  have "graph (branch_cfg c) \<subseteq> measure id" by (auto simp: branch_graph)
  then show ?thesis by (rule acyclic_subset [OF wf_acyclic [OF wf_measure]])
qed

lemma branch_analysable: "bools_under_terms c = {} \<Longrightarrow> analysable (branch_cfg c) (branch_site n)"
  by (auto simp: analysable_def assigned_def all_effects_def branch_defs bt_values_def f_not_def)

lemma branch_exact: "exact_effects (branch_cfg c)"
  by (auto simp: exact_effects_def all_effects_def branch_defs bt_values_def)

lemma branch_stable: "stable_guards (branch_cfg c)"
proof -
  have "(i, 0) \<in> (graph (branch_cfg c))\<^sup>* \<Longrightarrow> i = 0" for i
    by (auto simp: branch_graph elim: rtranclE)
  moreover have "\<forall>g \<in> set (all_edges (branch_cfg c)).
      edge_source g = 0 \<and> edge_target g \<noteq> 0 \<and> edge_effects g = []"
    by (auto simp: branch_defs bt_values_def)
  ultimately show ?thesis unfolding stable_guards_def writes_all_def
    by (metis Int_empty_left SUP_empty empty_set less_numeral_extra(3) not_gr_zero)
qed

definition no_synthesis :: "(cfg_node_id, formula) btree \<Rightarrow> (backward_error + verified_loop_invariant list) outcome"
where
  "no_synthesis states = Returns (Inl CyclicCfgUnsupported)"

section \<open>Soundness with unused summaries\<close>

lemma tables_verified_sound:
  assumes "cfg_wf cfg" and "site_node site \<in> set (node_ids cfg)" and "acyclic (graph cfg)"
    and "sound_solver z" and "analysable cfg site" and "stable_guards cfg"
    and "analyze_with_tables cfg site z tables names synth = Returns (Inr r)" and "result_judgement r = Verified"
    and "unused_summaries cfg tables"
  shows "\<not> (\<exists>s0 m s. cfg_run cfg s0 m s \<and> fails_here cfg site m s)"
proof -
  obtain order E where E: "topological (node_ids cfg) (all_edges cfg) order"
    "run_to_fixpoint z tables order (seeded cfg site) = Inr E"
    "judge z (cfg_entry cfg) (detect_back_edges cfg = Some []) E = Inr Verified"
    using analyze_acyclic [OF assms(1-3,7)] assms(8) by auto
  have inv: "cover_inv cfg {} site (set (kept_edges {} cfg)) E"
    using fixpoint_covers [OF assms(1,5) _ assms(9,4) _ seeded_ready [OF assms(1,2)] E(2)] E(1) assms(6)
    by (simp add: stable_on_none)
  have entry: "cfg_entry cfg \<in> set (node_ids cfg)" using assms(1) by (simp add: cfg_wf_defs)
  have "unrealised (reach_at E (cfg_entry cfg)) (state_at E (cfg_entry cfg))"
    using judge_Verified [OF E(3) _ entry assms(4)] inv by (simp add: cover_inv_def)
  then have "\<not> violates cfg site (cfg_entry cfg) s0" if "admissible s0" for s0
    using covered_entry_safe [OF inv that] by (simp add: violates_by_none)
  moreover have "admissible s0" if "cfg_run cfg s0 m s" for s0 m s
    using that by (induction rule: cfg_run.induct) auto
  ultimately show ?thesis using violates_iff by blast
qed

lemma tables_bugfound_real:
  assumes "cfg_wf cfg" and "site_node site \<in> set (node_ids cfg)" and "acyclic (graph cfg)"
    and "sound_solver z" and "analysable cfg site" and "exact_effects cfg"
    and "analyze_with_tables cfg site z tables names synth = Returns (Inr r)" and "result_judgement r = BugFound m"
    and "unused_summaries cfg tables"
  shows "\<exists>s0 m s. cfg_run cfg s0 m s \<and> fails_here cfg site m s"
proof -
  obtain order E where E: "run_to_fixpoint z tables order (seeded cfg site) = Inr E"
    "judge z (cfg_entry cfg) (detect_back_edges cfg = Some []) E = Inr (BugFound m)"
    using analyze_acyclic [OF assms(1-3,7)] assms(8) by auto
  have inv: "exact_inv cfg site E"
    by (rule exact_rounds [OF assms(1,5,6) assms(9) assms(4)
          seeded_exact [OF assms(1,2,5,6)] E(1)])
  have entry: "cfg_entry cfg \<in> set (node_ids cfg)" using assms(1) by (simp add: cfg_wf_defs)
  have "engine_wf cfg E" using inv by (simp add: exact_inv_def)
  then obtain s where "admissible s" "eval_formula s (state_at E (cfg_entry cfg))"
    using judge_BugFound [OF E(2) _ entry assms(4)] by blast
  with inv have "admissible s" "violates cfg site (cfg_entry cfg) s" by (auto simp: exact_inv_def)
  then show ?thesis using violates_iff by blast
qed

section \<open>Properties\<close>

text \<open>
  C1: soundness of \<open>Verified\<close>.  On an acyclic graph, with a sound solver, well-sorted effects
  that havoc no memory and guards that are not overwritten once passed, an assertion judged
  \<open>Verified\<close> fails in no execution, from any initial state.
\<close>

theorem analyze_verified_sound:
  assumes "cfg_wf cfg" and "site_node site \<in> set (node_ids cfg)" and "acyclic (graph cfg)"
    and "sound_solver z" and "analysable cfg site" and "stable_guards cfg"
    and "analyze cfg site z synth = Returns (Inr r)" and "result_judgement r = Verified"
  shows "\<not> (\<exists>s0 m s. cfg_run cfg s0 m s \<and> fails_here cfg site m s)"
  using tables_verified_sound [OF assms(1-6) assms(7) [unfolded analyze_def] assms(8) unused_new] .

theorem analyze_verified_witness:
  "\<not> (\<exists>s0 m s. cfg_run (branch_cfg (f_bool_var ''c'')) s0 m s \<and>
    fails_here (branch_cfg (f_bool_var ''c'')) (branch_site 1) m s)"
proof -
  let ?c = "f_bool_var ''c''"
  have "case analyze (branch_cfg ?c) (branch_site 1) folding_solver no_synthesis of
      Returns (Inr r) \<Rightarrow> result_judgement r = Verified | _ \<Rightarrow> False"
    by code_simp
  then obtain r where "analyze (branch_cfg ?c) (branch_site 1) folding_solver no_synthesis = Returns (Inr r)"
    "result_judgement r = Verified"
    by (auto split: outcome.splits sum.splits)
  then show ?thesis
    by (intro analyze_verified_sound [OF branch_wf branch_site_node branch_acyclic folding_solver_sound
          branch_analysable branch_stable]) (simp_all add: f_bool_var_def)
qed

text \<open>
  C2: soundness of \<open>BugFound\<close>.  On an acyclic graph whose effects forget nothing, a reported bug
  is an execution from some initial state that ends in a failed assertion.
\<close>

theorem analyze_bugfound_real:
  assumes "cfg_wf cfg" and "site_node site \<in> set (node_ids cfg)" and "acyclic (graph cfg)"
    and "sound_solver z" and "analysable cfg site" and "exact_effects cfg"
    and "analyze cfg site z synth = Returns (Inr r)" and "result_judgement r = BugFound m"
  shows "\<exists>s0 m s. cfg_run cfg s0 m s \<and> fails_here cfg site m s"
  using tables_bugfound_real [OF assms(1-6) assms(7) [unfolded analyze_def] assms(8) unused_new] .

theorem analyze_bugfound_witness:
  "\<exists>s0 m s. cfg_run (branch_cfg FTrue) s0 m s \<and> fails_here (branch_cfg FTrue) (branch_site 2) m s"
proof -
  have "case analyze (branch_cfg FTrue) (branch_site 2) folding_solver no_synthesis of
      Returns (Inr r) \<Rightarrow> result_judgement r = BugFound None | _ \<Rightarrow> False"
    by code_simp
  then obtain r where "analyze (branch_cfg FTrue) (branch_site 2) folding_solver no_synthesis = Returns (Inr r)"
    "result_judgement r = BugFound None"
    by (auto split: outcome.splits sum.splits)
  then show ?thesis
    by (intro analyze_bugfound_real [OF branch_wf branch_site_node branch_acyclic folding_solver_sound
          branch_analysable branch_exact]) simp_all
qed

text \<open>
  C9: the analysis of an acyclic graph never fails for a reason of its own: when the solver
  accepts the formulas it is asked about, it returns a result, without an unknown node or edge,
  without an exhausted fuel and without a panic.
\<close>

theorem analyze_total:
  assumes "cfg_wf cfg" and "site_node site \<in> set (node_ids cfg)" and "acyclic (graph cfg)"
    and "accepts_all z"
  shows "\<exists>r. analyze cfg site z synth = Returns (Inr r)"
proof -
  have kept: "kept_edges {} cfg = all_edges cfg" by (simp add: kept_edges_def)
  obtain order where o: "topological_order_excluding {} cfg = Returns (Some order)"
    using order_cases [OF assms(1), of "{}"] assms(3) by (auto simp: kept)
  then have "topological_order cfg = Returns (Some order)"
    by (simp add: topological_order_def topological_order_excluding_def)
  moreover have "seed_assertion site (start_engine cfg []) = Inr (seeded cfg site)"
    using seed_assertion_eq [OF _ assms(2)] init_summaries(1) [OF assms(1)]
    by (simp add: seeded_def start_engine_def)
  moreover obtain E where E: "run_to_fixpoint z table_new order (seeded cfg site) = Inr E"
    "engine_wf cfg E"
    using rounds_total [OF assms(4) unused_new assms(1) seeded_parts(1) [OF assms(1,2)]]
    unfolding run_to_fixpoint_def Let_def by blast
  moreover have entry: "cfg_entry cfg \<in> set (node_ids cfg)" using assms(1) by (simp add: cfg_wf_defs)
  moreover obtain j where "judge z (cfg_entry cfg) (detect_back_edges cfg = Some []) E = Inr j"
    using judge_total [OF assms(4) E(2) entry] by blast
  ultimately show ?thesis
    using o summary_eq [OF E(2)] assms(2)
    by (simp add: analyze_def analyze_with_tables_def run_backward_def conjunct_loop_invariants_def
        lift_rule_def Let_def)
qed

theorem analyze_total_witness:
  "\<exists>r. analyze (branch_cfg (f_bool_var ''c'')) (branch_site 3) folding_solver no_synthesis
    = Returns (Inr r)"
  by (rule analyze_total [OF branch_wf branch_site_node branch_acyclic])
    (simp add: accepts_all_def folding_solver_def)

end
