(* ===== verification/Dart.thy ===== *)
theory Dart
  imports Backward
begin

text \<open>
  The bug-finding pillar (\<open>src/analysis/dart/mod.rs\<close>): bounded enumeration of the paths from the
  entry to the assertion, the path condition of each, and one feasibility query per path.  A
  \<open>HashMap\<close> is the ordered map of the prelude, iterated in the order \<open>hash_order\<close> gives to its
  keys: the iteration order of the standard library's map is unspecified, so \<open>hash_order\<close> is an
  argument.  The mutable state of the walk over a path is the record \<open>path_state\<close>; visit counts
  (\<open>u32\<close>) are natural numbers, they are bounded by the length of a path.
\<close>

section \<open>Configuration\<close>

record dart_config =
  config_max_depth :: nat
  config_max_loop_iters :: nat
  config_max_paths :: nat

definition dart_config_default :: dart_config where
  "dart_config_default = \<lparr>config_max_depth = 200, config_max_loop_iters = 4, config_max_paths = 256\<rparr>"

section \<open>Path enumeration\<close>

text \<open>
  \<open>dfs\<close> with its loop over the outgoing edges; \<open>visit_count\<close> is read through \<open>or_insert(0)\<close>, so
  it is a total function.  The result is the pair of the two \<open>&mut\<close> arguments it leaves changed;
  \<open>current\<close> is restored by the \<open>pop\<close> after each call.
\<close>

type_synonym dart_search = "(cfg_node_id \<Rightarrow> nat) \<times> cfg_edge_id list list"

function dfs ::
  "abstract_cfg \<Rightarrow> cfg_node_id \<Rightarrow> nat \<Rightarrow> nat \<Rightarrow> cfg_node_id \<Rightarrow> nat \<Rightarrow> cfg_edge_id list \<Rightarrow> dart_search \<Rightarrow> dart_search"
  and dfs_edges ::
  "abstract_cfg \<Rightarrow> cfg_node_id \<Rightarrow> nat \<Rightarrow> nat \<Rightarrow> cfg_edge_id list \<Rightarrow> nat \<Rightarrow> cfg_edge_id list \<Rightarrow> dart_search \<Rightarrow> dart_search"
where
  "dfs cfg target max_iters max_paths node remaining_depth current (visit_count, out) =
     (if max_paths \<le> length out then (visit_count, out)
      else if node = target then (visit_count, out @ [current])
      else if remaining_depth = 0 then (visit_count, out)
      else if max_iters \<le> visit_count node then (visit_count, out)
      else
        let (visit_count, out) =
          dfs_edges cfg target max_iters max_paths (outgoing_edges cfg node) (remaining_depth - 1) current
            (visit_count(node := visit_count node + 1), out) in
        (visit_count(node := visit_count node - 1), out))"
| "dfs_edges cfg target max_iters max_paths [] remaining_depth current (visit_count, out) =
     (visit_count, out)"
| "dfs_edges cfg target max_iters max_paths (eid # edges) remaining_depth current (visit_count, out) =
     (if max_paths \<le> length out then (visit_count, out)
      else case cfg_edge cfg eid of
        Inl _ \<Rightarrow> dfs_edges cfg target max_iters max_paths edges remaining_depth current (visit_count, out)
      | Inr edge \<Rightarrow>
          dfs_edges cfg target max_iters max_paths edges remaining_depth current
            (dfs cfg target max_iters max_paths (edge_target edge) remaining_depth (current @ [eid])
              (visit_count, out)))"
  by pat_completeness auto
termination
  by (relation "inv_image (less_than <*lex*> less_than <*lex*> less_than)
      (\<lambda>x. case x of Inl (_, _, _, _, _, d, _, _) \<Rightarrow> (d, 0, 0)
        | Inr (_, _, _, _, es, d, _, _) \<Rightarrow> (d, 1, length es))") auto

declare dfs.simps [simp del] dfs_edges.simps [simp del]

definition enumerate_paths ::
  "abstract_cfg \<Rightarrow> cfg_node_id \<Rightarrow> cfg_node_id \<Rightarrow> dart_config \<Rightarrow> cfg_edge_id list list" where
  "enumerate_paths cfg start target config =
     snd (dfs cfg target (config_max_loop_iters config) (config_max_paths config) start
       (config_max_depth config) []
       (\<lambda>_. 0, []))"

section \<open>Substitution of the current names\<close>

definition hash_iter :: "(string list \<Rightarrow> string list) \<Rightarrow> (string, 'v) btree \<Rightarrow> (string \<times> 'v) list" where
  "hash_iter hash_order m = map (\<lambda>k. (k, the (bt_get m k))) (hash_order (bt_keys m))"

definition subst_formula_walk ::
  "(string list \<Rightarrow> string list) \<Rightarrow> formula \<Rightarrow> (string, string) btree \<Rightarrow> (string, memory) btree \<Rightarrow> formula"
where
  "subst_formula_walk hash_order f current_version memory_state =
     (let f = fold (\<lambda>(orig, fresh) f.
          let int_target = var_new orig SInt; int_replacement = TVar (var_new fresh SInt);
              f = substitute_var_in_formula int_target int_replacement f;
              bool_target = var_new orig SBool; bool_replacement = FVar (var_new fresh SBool) in
          substitute_bool_var_in_formula bool_target bool_replacement f)
        (hash_iter hash_order current_version) f in
      fold (\<lambda>(region, mem) f. substitute_memory_var_in_formula region mem f)
        (hash_iter hash_order memory_state) f)"

definition subst_term_walk ::
  "(string list \<Rightarrow> string list) \<Rightarrow> fterm \<Rightarrow> (string, string) btree \<Rightarrow> (string, memory) btree \<Rightarrow> fterm"
where
  "subst_term_walk hash_order t current_version memory_state =
     (let t = fold (\<lambda>(orig, fresh) t.
          let int_target = var_new orig SInt; int_replacement = TVar (var_new fresh SInt) in
          substitute_var_in_term int_target int_replacement t)
        (hash_iter hash_order current_version) t in
      fold (\<lambda>(region, mem) t. substitute_memory_var_in_term region mem t)
        (hash_iter hash_order memory_state) t)"

definition conjoin :: "formula \<Rightarrow> formula \<Rightarrow> formula" where
  "conjoin lhs rhs = f_and lhs rhs"

section \<open>Path conditions\<close>

record path_state =
  ps_formula :: formula
  ps_version :: "(string, string) btree"
  ps_memory :: "(string, memory) btree"
  ps_defined :: "string set"

definition version_var :: "var \<Rightarrow> cfg_node_id \<Rightarrow> nat \<Rightarrow> path_state \<Rightarrow> var \<times> path_state" where
  "version_var target nid visit_count st =
     (let orig = var_name target in
      if visit_count = 1 \<and> orig \<notin> ps_defined st then
        (target, st\<lparr>ps_defined := insert orig (ps_defined st),
          ps_version := bt_remove orig (ps_version st)\<rparr>)
      else
        let fresh_name = orig @ ''$n'' @ nat_str nid @ ''v'' @ nat_str visit_count in
        (var_new fresh_name (var_sort target),
         st\<lparr>ps_defined := insert fresh_name (ps_defined st),
          ps_version := bt_insert orig fresh_name (ps_version st)\<rparr>))"

fun apply_path_effect ::
  "(string list \<Rightarrow> string list) \<Rightarrow> cfg_node_id \<Rightarrow> nat \<Rightarrow> transfer_effect \<Rightarrow> path_state \<Rightarrow> path_state" where
  "apply_path_effect hash_order nid visit_count (Assign target (AssignTerm t)) st =
     (let t_subst = subst_term_walk hash_order t (ps_version st) (ps_memory st);
          (versioned, st) = version_var target nid visit_count st in
      st\<lparr>ps_formula := conjoin (ps_formula st) (FEq (TVar versioned) t_subst)\<rparr>)"
| "apply_path_effect hash_order nid visit_count (Assign target (AssignPredicate p)) st =
     (let p_subst = subst_formula_walk hash_order p (ps_version st) (ps_memory st);
          (versioned, st) = version_var target nid visit_count st in
      st\<lparr>ps_formula := conjoin (ps_formula st) (f_iff (FVar versioned) p_subst)\<rparr>)"
| "apply_path_effect hash_order nid visit_count (Assume c) st =
     st\<lparr>ps_formula := conjoin (ps_formula st) (subst_formula_walk hash_order c (ps_version st) (ps_memory st))\<rparr>"
| "apply_path_effect hash_order nid visit_count (Obligation c) st =
     st\<lparr>ps_formula := conjoin (ps_formula st) (subst_formula_walk hash_order c (ps_version st) (ps_memory st))\<rparr>"
| "apply_path_effect hash_order nid visit_count (TypeBound c) st =
     st\<lparr>ps_formula := conjoin (ps_formula st) (subst_formula_walk hash_order c (ps_version st) (ps_memory st))\<rparr>"
| "apply_path_effect hash_order nid visit_count (MemoryStore r off val) st =
     (let offset_subst = subst_term_walk hash_order off (ps_version st) (ps_memory st);
          value_subst = subst_term_walk hash_order val (ps_version st) (ps_memory st);
          prev = (case bt_get (ps_memory st) r of None \<Rightarrow> MVar r | Some m \<Rightarrow> m) in
      st\<lparr>ps_memory := bt_insert r (MStore prev offset_subst value_subst) (ps_memory st)\<rparr>)"
| "apply_path_effect hash_order nid visit_count _ st = st"

text \<open>One iteration of the loop over the path: source effects, guard, edge effects.\<close>

definition path_edge ::
  "(string list \<Rightarrow> string list) \<Rightarrow> abstract_cfg \<Rightarrow> cfg_edge_id \<Rightarrow> (cfg_node_id \<Rightarrow> nat) \<times> path_state
    \<Rightarrow> (cfg_node_id \<Rightarrow> nat) \<times> path_state" where
  "path_edge hash_order cfg eid = (\<lambda>(visits, st).
     case cfg_edge cfg eid of
       Inl _ \<Rightarrow> (visits, st)
     | Inr edge \<Rightarrow>
         let visits = visits(edge_source edge := visits (edge_source edge) + 1);
             src_visit = visits (edge_source edge);
             st = (case cfg_node cfg (edge_source edge) of
                 Inl _ \<Rightarrow> st
               | Inr src_node \<Rightarrow>
                   fold (apply_path_effect hash_order (edge_source edge) src_visit)
                     (effects (node_transfer src_node)) st);
             guard_subst = subst_formula_walk hash_order (edge_guard edge) (ps_version st) (ps_memory st);
             st = st\<lparr>ps_formula := conjoin (ps_formula st) guard_subst\<rparr>;
             tgt_visit = visits (edge_target edge) + 1 in
         (visits, fold (apply_path_effect hash_order (edge_target edge) tgt_visit) (edge_effects edge) st))"

definition path_start :: "formula \<Rightarrow> path_state" where
  "path_start phi1 = \<lparr>ps_formula = phi1, ps_version = [], ps_memory = [], ps_defined = {}\<rparr>"

definition compute_path_condition_with_state ::
  "(string list \<Rightarrow> string list) \<Rightarrow> abstract_cfg \<Rightarrow> cfg_edge_id list \<Rightarrow> formula
    \<Rightarrow> formula \<times> (string, string) btree \<times> (string, memory) btree" where
  "compute_path_condition_with_state hash_order cfg path phi1 =
     (let st = snd (fold (path_edge hash_order cfg) path (\<lambda>_. 0, path_start phi1)) in
      (ps_formula st, ps_version st, ps_memory st))"

definition compute_path_condition ::
  "(string list \<Rightarrow> string list) \<Rightarrow> abstract_cfg \<Rightarrow> cfg_edge_id list \<Rightarrow> formula \<Rightarrow> formula" where
  "compute_path_condition hash_order cfg path phi1 =
     fst (compute_path_condition_with_state hash_order cfg path phi1)"

section \<open>Exploration\<close>

definition dart_result ::
  "abstract_cfg \<Rightarrow> assertion_site \<Rightarrow> smt_model option \<Rightarrow> formula \<Rightarrow> formula \<Rightarrow> (string \<rightharpoonup> string) \<Rightarrow> assertion_result"
where
  "dart_result cfg site model pc phi2_subst debug_names =
     \<lparr>result_site_id = site_id site, result_site_label = site_location site,
      result_source_location = site_source_location site, result_judgement = BugFound model,
      result_entry_summary = \<lparr>summary_node = cfg_entry cfg, reach = FTrue, state = pc\<rparr>,
      result_assertion_summary = \<lparr>summary_node = site_node site, reach = FTrue, state = phi2_subst\<rparr>,
      result_debug_names = debug_names\<rparr>"

text \<open>The loop over the paths; an oracle error ends it with \<open>None\<close> (the \<open>.ok()?\<close>).\<close>

fun explore_paths ::
  "(string list \<Rightarrow> string list) \<Rightarrow> abstract_cfg \<Rightarrow> assertion_site \<Rightarrow> solver \<Rightarrow> (string \<rightharpoonup> string) \<Rightarrow> formula
    \<Rightarrow> cfg_edge_id list list \<Rightarrow> assertion_result option" where
  "explore_paths hash_order cfg site z debug_names phi2 [] = None"
| "explore_paths hash_order cfg site z debug_names phi2 (path # paths) =
     (let (pc, current_version, memory_state) =
            compute_path_condition_with_state hash_order cfg path FTrue;
          phi2_subst = subst_formula_walk hash_order phi2 current_version memory_state;
          combined = f_and pc phi2_subst in
      case feasibility_with_model z combined of
        Inl _ \<Rightarrow> None
      | Inr report \<Rightarrow>
          if report_feasibility report = Feasible
          then Some (dart_result cfg site (report_model report) pc phi2_subst debug_names)
          else explore_paths hash_order cfg site z debug_names phi2 paths)"

definition dart_explore ::
  "(string list \<Rightarrow> string list) \<Rightarrow> abstract_cfg \<Rightarrow> assertion_site \<Rightarrow> solver \<Rightarrow> dart_config
    \<Rightarrow> (string \<rightharpoonup> string) \<Rightarrow> assertion_result option" where
  "dart_explore hash_order cfg site z config debug_names =
     (case cfg_node cfg (site_node site) of
        Inl _ \<Rightarrow> None
      | Inr n \<Rightarrow>
          let phi2 = wp (node_transfer n) (f_not (site_obligation site)) in
          explore_paths hash_order cfg site z debug_names phi2
            (enumerate_paths cfg (cfg_entry cfg) (site_node site) config))"

end
