(* ===== verification/Dart_Paths.thy ===== *)
theory Dart_Paths
  imports Dart Cfg_Ops
begin

text \<open>
  The path enumeration of the bug-finding pillar: it returns only paths from the start to the
  target within the three bounds, never more than the cap, and all of them when the cap is not
  reached; the visit counters are restored on backtracking.
\<close>

section \<open>Paths\<close>

fun path_from :: "abstract_cfg \<Rightarrow> cfg_node_id \<Rightarrow> cfg_edge_id list \<Rightarrow> cfg_node_id \<Rightarrow> bool" where
  "path_from cfg n [] m = (n = m)"
| "path_from cfg n (e # es) m =
     (case bt_get (cfg_edges cfg) e of None \<Rightarrow> False
      | Some d \<Rightarrow> edge_source d = n \<and> path_from cfg (edge_target d) es m)"

definition sources :: "abstract_cfg \<Rightarrow> cfg_edge_id list \<Rightarrow> cfg_node_id list" where
  "sources cfg es = concat (map (\<lambda>e. case bt_get (cfg_edges cfg) e of None \<Rightarrow> [] | Some d \<Rightarrow> [edge_source d]) es)"

text \<open>A path to the first visit of the target, within the depth and the revisit bound.\<close>

definition bounded_path :: "abstract_cfg \<Rightarrow> dart_config \<Rightarrow> cfg_node_id \<Rightarrow> cfg_node_id \<Rightarrow> cfg_edge_id list \<Rightarrow> bool"
where
  "bounded_path cfg config start target p \<longleftrightarrow> path_from cfg start p target
     \<and> target \<notin> set (sources cfg p) \<and> length p \<le> config_max_depth config
     \<and> (\<forall>n. count_list (sources cfg p) n \<le> config_max_loop_iters config)"

text \<open>The same with what is left of the bounds, step by step.\<close>

fun follows ::
  "abstract_cfg \<Rightarrow> cfg_node_id \<Rightarrow> nat \<Rightarrow> cfg_node_id \<Rightarrow> nat \<Rightarrow> (cfg_node_id \<Rightarrow> nat) \<Rightarrow> cfg_edge_id list \<Rightarrow> bool"
where
  "follows cfg target k n d v [] = (n = target)"
| "follows cfg target k n d v (e # es) =
     (n \<noteq> target \<and> 0 < d \<and> v n < k \<and> (case bt_get (cfg_edges cfg) e of None \<Rightarrow> False
        | Some x \<Rightarrow> edge_source x = n \<and> follows cfg target k (edge_target x) (d - 1) (v(n := v n + 1)) es))"

lemma sources_Cons:
  "bt_get (cfg_edges cfg) e = Some d \<Longrightarrow> sources cfg (e # es) = edge_source d # sources cfg es"
  by (simp add: sources_def)

lemma follows_iff:
  "follows cfg target k n d v p \<longleftrightarrow> path_from cfg n p target \<and> target \<notin> set (sources cfg p) \<and> length p \<le> d
    \<and> (\<forall>m \<in> set (sources cfg p). v m + count_list (sources cfg p) m \<le> k)"
proof (induction p arbitrary: n d v)
  case Nil
  then show ?case by (auto simp: sources_def)
next
  case (Cons e es)
  show ?case
  proof (cases "bt_get (cfg_edges cfg) e")
    case (Some x)
    let ?v = "v(n := v n + 1)" and ?s = "sources cfg es"
    have "(\<forall>m \<in> set (n # ?s). v m + count_list (n # ?s) m \<le> k)
        \<longleftrightarrow> v n < k \<and> (\<forall>m \<in> set ?s. ?v m + count_list ?s m \<le> k)"
    proof (cases "n \<in> set ?s")
      case False
      then have "count_list ?s n = 0" by (simp add: count_list_0_iff)
      with False show ?thesis by (auto simp: fun_upd_def)
    qed fastforce
    then show ?thesis using Cons.IH Some by (cases d) (auto simp: sources_Cons)
  qed simp
qed

lemma bounded_path_follows:
  "bounded_path cfg config start target p \<longleftrightarrow>
    follows cfg target (config_max_loop_iters config) start (config_max_depth config) (\<lambda>_. 0) p"
proof -
  have "(\<forall>n. count_list (sources cfg p) n \<le> k) \<longleftrightarrow> (\<forall>n \<in> set (sources cfg p). count_list (sources cfg p) n \<le> k)"
    for k by (metis count_list_0_iff le0)
  then show ?thesis by (auto simp: bounded_path_def follows_iff)
qed

section \<open>The search\<close>

text \<open>What a call adds to the list of paths: extensions of \<open>current\<close> drawn from \<open>P\<close>.\<close>

definition adds ::
  "nat \<Rightarrow> cfg_edge_id list \<Rightarrow> (cfg_edge_id list \<Rightarrow> bool) \<Rightarrow> dart_search \<Rightarrow> dart_search \<Rightarrow> bool" where
  "adds cap current P before after \<longleftrightarrow> fst after = fst before \<and>
     (\<exists>new. snd after = snd before @ map (\<lambda>p. current @ p) new \<and> (\<forall>p \<in> set new. P p) \<and>
        length (snd after) \<le> max cap (length (snd before)) \<and>
        (length (snd after) < cap \<longrightarrow> (\<forall>p. P p \<longrightarrow> p \<in> set new)))"

lemma adds_none: "(\<And>p. length out < cap \<Longrightarrow> \<not> P p) \<Longrightarrow> adds cap current P (v, out) (v, out)"
  by (auto simp: adds_def)

lemma adds_cong: "adds cap current P a b \<Longrightarrow> (\<And>p. P p \<longleftrightarrow> Q p) \<Longrightarrow> adds cap current Q a b"
  using ext [of P Q] by simp

lemma adds_trans:
  assumes "adds cap current P a b" "adds cap current Q b c" "\<And>p. R p \<longleftrightarrow> P p \<or> Q p"
  shows "adds cap current R a c"
proof -
  obtain xs where xs: "snd b = snd a @ map ((@) current) xs" "\<forall>p \<in> set xs. P p"
    "length (snd b) \<le> max cap (length (snd a))" "length (snd b) < cap \<longrightarrow> (\<forall>p. P p \<longrightarrow> p \<in> set xs)"
    using assms(1) unfolding adds_def by blast
  obtain ys where ys: "snd c = snd b @ map ((@) current) ys" "\<forall>p \<in> set ys. Q p"
    "length (snd c) \<le> max cap (length (snd b))" "length (snd c) < cap \<longrightarrow> (\<forall>p. Q p \<longrightarrow> p \<in> set ys)"
    using assms(2) unfolding adds_def by blast
  have eq: "snd c = snd a @ map ((@) current) (xs @ ys)" using xs(1) ys(1) by simp
  have all: "\<forall>p \<in> set (xs @ ys). R p" using xs(2) ys(2) assms(3) by auto
  have len: "length (snd c) \<le> max cap (length (snd a))" using xs(3) ys(3) by linarith
  have "length (snd b) \<le> length (snd c)" using ys(1) by simp
  then have "length (snd c) < cap \<longrightarrow> (\<forall>p. R p \<longrightarrow> p \<in> set (xs @ ys))"
    using xs(4) ys(4) assms(3) by auto
  moreover have "fst c = fst a" using assms(1,2) by (simp add: adds_def)
  ultimately show ?thesis unfolding adds_def using eq all len by blast
qed

lemma adds_edge:
  assumes "adds cap (current @ [e]) P a b"
  shows "adds cap current (\<lambda>p. \<exists>q. p = e # q \<and> P q) a b"
proof -
  have "fst b = fst a" using assms by (simp add: adds_def)
  obtain new where "snd b = snd a @ map ((@) (current @ [e])) new" "\<forall>p \<in> set new. P p"
    "length (snd b) \<le> max cap (length (snd a))" "length (snd b) < cap \<longrightarrow> (\<forall>p. P p \<longrightarrow> p \<in> set new)"
    using assms unfolding adds_def by blast
  then have "snd b = snd a @ map ((@) current) (map ((#) e) new)" "length (snd b) \<le> max cap (length (snd a))"
    "\<forall>p \<in> set (map ((#) e) new). \<exists>q. p = e # q \<and> P q"
    "length (snd b) < cap \<longrightarrow> (\<forall>p. (\<exists>q. p = e # q \<and> P q) \<longrightarrow> p \<in> set (map ((#) e) new))"
    by auto
  with \<open>fst b = fst a\<close> show ?thesis unfolding adds_def by blast
qed

lemma dfs_adds:
  shows "cfg_wf cfg \<Longrightarrow> adds cap current (follows cfg target k n d (fst st)) st
      (dfs cfg target k cap n d current st)"
    and "cfg_wf cfg \<Longrightarrow> adds cap current
      (\<lambda>p. \<exists>e q x. p = e # q \<and> e \<in> set es \<and> bt_get (cfg_edges cfg) e = Some x \<and>
         follows cfg target k (edge_target x) d (fst st) q) st
      (dfs_edges cfg target k cap es d current st)"
proof (induction cfg target k cap n d current st and cfg target k cap es d current st
    rule: dfs_dfs_edges.induct)
  case (1 cfg target k cap n d current v out)
  have stop: "follows cfg target k n d v p \<longleftrightarrow> p = [] \<and> n = target" if "n = target \<or> d = 0 \<or> k \<le> v n" for p
    using that by (cases p) auto
  consider "cap \<le> length out" | "length out < cap" "n = target"
    | "length out < cap" "n \<noteq> target" "d = 0 \<or> k \<le> v n"
    | "length out < cap" "n \<noteq> target" "0 < d" "v n < k" by linarith
  then show ?case
  proof cases
    case 1
    then show ?thesis by (simp add: dfs.simps adds_none)
  next
    case 2
    then show ?thesis using stop unfolding adds_def by (intro conjI exI [of _ "[[]]"]) (auto simp: dfs.simps)
  next
    case 3
    then have "dfs cfg target k cap n d current (v, out) = (v, out)" by (auto simp: dfs.simps)
    then show ?thesis using 3 stop by (auto intro: adds_none)
  next
    case search: 4
    then have False: "\<not> (cap \<le> length out)" "n \<noteq> target" "d \<noteq> 0" "\<not> k \<le> v n" by simp_all
    let ?v = "v(n := v n + 1)" and ?es = "outgoing_edges cfg n"
    obtain v' out' where r: "dfs_edges cfg target k cap ?es (d - 1) current (?v, out) = (v', out')"
      by fastforce
    have "adds cap current (\<lambda>p. \<exists>e q x. p = e # q \<and> e \<in> set ?es \<and> bt_get (cfg_edges cfg) e = Some x \<and>
        follows cfg target k (edge_target x) (d - 1) ?v q) (?v, out) (v', out')"
      using 1 False r by (simp add: fun_upd_def)
    moreover have "(\<exists>e q x. p = e # q \<and> e \<in> set ?es \<and> bt_get (cfg_edges cfg) e = Some x \<and>
        follows cfg target k (edge_target x) (d - 1) ?v q) \<longleftrightarrow> follows cfg target k n d v p" for p
      using False by (cases p) (auto simp: outgoing_edges_iff [OF 1(2)] split: option.splits)
    moreover have "dfs cfg target k cap n d current (v, out) = (v'(n := v' n - 1), out')"
      using False r by (simp add: dfs.simps)
    ultimately show ?thesis by (auto simp: adds_def)
  qed
next
  case (2 cfg target k cap d current v out)
  then show ?case by (auto simp: dfs_edges.simps intro!: adds_none)
next
  case (3 cfg target k cap e es d current v out)
  show ?case
  proof (cases "cap \<le> length out")
    case True
    then show ?thesis by (auto simp: dfs_edges.simps intro!: adds_none)
  next
    case False
    show ?thesis
    proof (cases "bt_get (cfg_edges cfg) e")
      case None
      then have "cfg_edge cfg e = Inl (UnknownEdge e)" by (simp add: cfg_edge_def)
      with False have "dfs_edges cfg target k cap (e # es) d current (v, out)
          = dfs_edges cfg target k cap es d current (v, out)" by (simp add: dfs_edges.simps)
      moreover have "adds cap current (\<lambda>p. \<exists>e' q x. p = e' # q \<and> e' \<in> set (e # es) \<and>
          bt_get (cfg_edges cfg) e' = Some x \<and> follows cfg target k (edge_target x) d v q) (v, out)
          (dfs_edges cfg target k cap es d current (v, out))"
        by (rule adds_cong [OF 3(1) [OF False \<open>cfg_edge cfg e = _\<close> 3(4)]]) (use None in auto)
      ultimately show ?thesis by simp
    next
      case (Some x)
      then have x: "cfg_edge cfg e = Inr x" by simp
      let ?st = "dfs cfg target k cap (edge_target x) d (current @ [e]) (v, out)"
      have a: "adds cap current (\<lambda>p. \<exists>q. p = e # q \<and> follows cfg target k (edge_target x) d v q) (v, out) ?st"
        using adds_edge [OF 3(2) [OF False x 3(4)]] by simp
      have v: "fst ?st = v" using a by (simp add: adds_def)
      have "adds cap current (\<lambda>p. \<exists>e q x. p = e # q \<and> e \<in> set es \<and> bt_get (cfg_edges cfg) e = Some x \<and>
          follows cfg target k (edge_target x) d v q) ?st (dfs_edges cfg target k cap es d current ?st)"
        using 3(3) [OF False x 3(4)] v by simp
      note rest = this
      have "adds cap current (\<lambda>p. \<exists>e' q x. p = e' # q \<and> e' \<in> set (e # es) \<and>
          bt_get (cfg_edges cfg) e' = Some x \<and> follows cfg target k (edge_target x) d v q) (v, out)
          (dfs_edges cfg target k cap es d current ?st)"
        by (rule adds_trans [OF a rest]) (use Some in auto)
      then show ?thesis using False x by (simp add: dfs_edges.simps del: cfg_edge_Inr)
    qed
  qed
qed

section \<open>Properties\<close>

lemma enumerate_adds:
  assumes "cfg_wf cfg"
  shows "adds (config_max_paths config) [] (bounded_path cfg config start target)
    (\<lambda>_. 0, []) (\<lambda>_. 0, enumerate_paths cfg start target config)"
proof -
  have "adds (config_max_paths config) [] (bounded_path cfg config start target) (\<lambda>_. 0, [])
      (dfs cfg target (config_max_loop_iters config) (config_max_paths config) start
        (config_max_depth config) [] (\<lambda>_. 0, []))"
    using dfs_adds(1) [OF assms, of "config_max_paths config" "[]" target
        "config_max_loop_iters config" start "config_max_depth config" "(\<lambda>_. 0, [])"]
    by (simp add: bounded_path_follows [abs_def])
  then show ?thesis by (simp add: enumerate_paths_def adds_def)
qed

text \<open>
  C27: the paths tried by the bug finder: at most \<open>max_paths\<close>, each a path of the graph to the
  first visit of the target, within the depth and the revisit bound; when the cap is not
  reached, every such path is among them.
\<close>

theorem enumerate_paths_correct:
  assumes "cfg_wf cfg"
  shows "length (enumerate_paths cfg start target config) \<le> config_max_paths config
    \<and> (\<forall>p \<in> set (enumerate_paths cfg start target config). bounded_path cfg config start target p)
    \<and> (length (enumerate_paths cfg start target config) < config_max_paths config \<longrightarrow>
        (\<forall>p. bounded_path cfg config start target p \<longrightarrow> p \<in> set (enumerate_paths cfg start target config)))"
  using enumerate_adds [OF assms, of config start target] by (auto simp: adds_def)

end
