(* ===== verification/Dart_Sound.thy ===== *)
theory Dart_Sound
  imports Dart_Paths Runs
begin

text \<open>
  A model of the path condition is a run of the path.  \<open>view\<close> reads the program state at a point
  of the path out of the model through the current names and the symbolic memories; every
  conjunct the walk appends makes the next view a successor of the previous one.  \<open>tidy\<close> and
  \<open>dart_ready\<close> are the conditions under which the sequential substitutions of the source act
  like a simultaneous one.
\<close>

section \<open>Conditions\<close>

text \<open>
  \<open>B\<close> holds the names of the Boolean variables: a name has one sort, scalars the program assigns
  are integers, and Booleans it assigns are not read inside terms.
\<close>

definition tidy_term :: "string set \<Rightarrow> fterm \<Rightarrow> bool" where
  "tidy_term B t \<longleftrightarrow> (\<forall>v \<in> scalars_term t. var_name v \<notin> B) \<and> bools_term t = {}"

definition tidy :: "string set \<Rightarrow> formula \<Rightarrow> bool" where
  "tidy B f \<longleftrightarrow> (\<forall>v \<in> scalars_formula f. var_name v \<notin> B) \<and>
     (\<forall>v \<in> bools_formula f. var_sort v = SBool \<and> var_name v \<in> B) \<and> bools_under_terms f = {}"

fun tidy_effect :: "string set \<Rightarrow> transfer_effect \<Rightarrow> bool" where
  "tidy_effect B (Assign x (AssignTerm t)) = (var_sort x = SInt \<and> var_name x \<notin> B \<and> tidy_term B t)"
| "tidy_effect B (Assign x (AssignPredicate p)) = (var_sort x = SBool \<and> var_name x \<in> B \<and> tidy B p)"
| "tidy_effect B (MemoryStore r i v) = (tidy_term B i \<and> tidy_term B v \<and>
     region_names_term i \<union> region_names_term v \<subseteq> {r})"
| "tidy_effect B (Assume c) = tidy B c"
| "tidy_effect B (Obligation c) = tidy B c"
| "tidy_effect B (TypeBound c) = tidy B c"
| "tidy_effect B _ = True"

fun assigned_names :: "transfer_effect \<Rightarrow> string set" where
  "assigned_names (Assign x _) = {var_name x}"
| "assigned_names _ = {}"

text \<open>No assigned name looks like a version of an assigned name.\<close>

definition apart :: "string set \<Rightarrow> bool" where
  "apart A \<longleftrightarrow> (\<forall>x \<in> A. \<forall>n k. x @ ''$n'' @ nat_str n @ ''v'' @ nat_str k \<notin> A)"

definition iterates :: "(string list \<Rightarrow> string list) \<Rightarrow> bool" where
  "iterates hash_order \<longleftrightarrow> (\<forall>ks. set (hash_order ks) = set ks \<and> (distinct ks \<longrightarrow> distinct (hash_order ks)))"

section \<open>The state a point of the path stands for\<close>

definition cur :: "path_state \<Rightarrow> string \<Rightarrow> string" where
  "cur st x = (case bt_get (ps_version st) x of None \<Rightarrow> x | Some y \<Rightarrow> y)"

definition chain :: "path_state \<Rightarrow> string \<Rightarrow> memory" where
  "chain st r = (case bt_get (ps_memory st) r of None \<Rightarrow> MVar r | Some m \<Rightarrow> m)"

definition view :: "string set \<Rightarrow> valuation \<Rightarrow> path_state \<Rightarrow> valuation" where
  "view B m st = m\<lparr>
     scalar_of := (\<lambda>v. if var_sort v = SInt \<and> var_name v \<notin> B
       then scalar_of m (var_new (cur st (var_name v)) SInt) else scalar_of m v),
     bool_of := (\<lambda>v. if var_sort v = SBool \<and> var_name v \<in> B
       then bool_of m (var_new (cur st (var_name v)) SBool) else bool_of m v),
     cells_of := (\<lambda>r. eval_memory m (chain st r))\<rparr>"

definition path_wf :: "string set \<Rightarrow> path_state \<Rightarrow> bool" where
  "path_wf A st \<longleftrightarrow> bt_wf (ps_version st) \<and> bt_wf (ps_memory st) \<and>
     (\<forall>x y. bt_get (ps_version st) x = Some y \<longrightarrow> x \<in> A \<and> y \<notin> A) \<and>
     (\<forall>r. region_names_memory (chain st r) \<subseteq> {r})"

lemma path_wf_start: "path_wf A (path_start f)"
  by (simp add: path_wf_def path_start_def chain_def bt_wf_def bt_get_def)

lemma view_start: "view B m (path_start f) = m"
proof -
  have "var_new (var_name v) (var_sort v) = v" for v by (simp add: var_new_def)
  then show ?thesis
    by (auto simp: view_def path_start_def cur_def chain_def bt_get_def fun_eq_iff intro!: valuation.equality)
      metis+
qed

section \<open>Sequential substitution is simultaneous\<close>

text \<open>The state in which each listed name has the value of its version.\<close>

fun renamed :: "(string \<times> string) list \<Rightarrow> valuation \<Rightarrow> valuation" where
  "renamed [] s = s"
| "renamed ((x, y) # ps) s = (let t = renamed ps s in
     set_scalar (var_new x SInt) (scalar_of s (var_new y SInt))
       (set_bool (var_new x SBool) (bool_of s (var_new y SBool)) t))"

lemma renamed_other:
  "y \<notin> fst ` set ps \<Longrightarrow> scalar_of (renamed ps s) (var_new y SInt) = scalar_of s (var_new y SInt)"
  "y \<notin> fst ` set ps \<Longrightarrow> bool_of (renamed ps s) (var_new y SBool) = bool_of s (var_new y SBool)"
  by (induction ps) (auto simp: Let_def var_new_def)

lemma renamed_get:
  assumes "distinct (map fst ps)"
  shows "scalar_of (renamed ps s) v = (if var_sort v = SInt then
      scalar_of s (var_new (case map_of ps (var_name v) of None \<Rightarrow> var_name v | Some y \<Rightarrow> y) SInt)
      else scalar_of s v)"
    and "bool_of (renamed ps s) v = (if var_sort v = SBool then
      bool_of s (var_new (case map_of ps (var_name v) of None \<Rightarrow> var_name v | Some y \<Rightarrow> y) SBool)
      else bool_of s v)"
  using assms by (induction ps) (cases v; auto simp: Let_def var_new_def)+

lemma renamed_frame [simp]:
  "cells_of (renamed ps s) = cells_of s" "int_div_of (renamed ps s) = int_div_of s"
  "int_rem_of (renamed ps s) = int_rem_of s" "real_div_of (renamed ps s) = real_div_of s"
  by (induction ps s rule: renamed.induct) (simp_all add: Let_def)

definition rename_step :: "string \<times> string \<Rightarrow> formula \<Rightarrow> formula" where
  "rename_step p f = substitute_bool_var_in_formula (var_new (fst p) SBool) (FVar (var_new (snd p) SBool))
     (substitute_var_in_formula (var_new (fst p) SInt) (TVar (var_new (snd p) SInt)) f)"

definition rename_step_term :: "string \<times> string \<Rightarrow> fterm \<Rightarrow> fterm" where
  "rename_step_term p t = substitute_var_in_term (var_new (fst p) SInt) (TVar (var_new (snd p) SInt)) t"

lemma rename_step_coerced: "bools_under_terms f = {} \<Longrightarrow> bools_under_terms (rename_step p f) = {}"
  using coerced_substitute_var [of "var_new (fst p) SInt" "TVar (var_new (snd p) SInt)" f]
    coerced_substitute_bool_var [of "var_new (fst p) SBool" "FVar (var_new (snd p) SBool)"
      "substitute_var_in_formula (var_new (fst p) SInt) (TVar (var_new (snd p) SInt)) f"]
  by (auto simp: rename_step_def)

lemma eval_rename_fold:
  assumes "fst ` set ps \<inter> Y = {}" "snd ` set ps \<subseteq> Y" "bools_under_terms f = {}"
  shows "eval_formula s (fold rename_step ps f) = eval_formula (renamed ps s) f"
  using assms
proof (induction ps arbitrary: f)
  case (Cons p ps)
  obtain x y where p: "p = (x, y)" by (cases p)
  let ?g = "substitute_var_in_formula (var_new x SInt) (TVar (var_new y SInt)) f"
  have c: "bools_under_terms ?g = {}"
    using coerced_substitute_var [of "var_new x SInt" "TVar (var_new y SInt)" f] Cons.prems(3) by auto
  have y: "y \<notin> fst ` set ps" using Cons.prems(1,2) p by auto
  have "eval_formula s (fold rename_step (p # ps) f) = eval_formula (renamed ps s) (rename_step p f)"
    using Cons.IH [of "rename_step p f"] Cons.prems rename_step_coerced by auto
  also have "\<dots> = eval_formula (renamed (p # ps) s) f"
    using c renamed_other [OF y]
    by (simp add: rename_step_def p eval_substitute_bool_var_in_formula eval_substitute_var_in_formula Let_def)
  finally show ?case .
qed simp

lemma eval_rename_fold_term:
  assumes "fst ` set ps \<inter> Y = {}" "snd ` set ps \<subseteq> Y" "bools_term t = {}"
  shows "eval_term s (fold rename_step_term ps t) = eval_term (renamed ps s) t"
  using assms
proof (induction ps arbitrary: t)
  case (Cons p ps)
  obtain x y where p: "p = (x, y)" by (cases p)
  have c: "bools_term (rename_step_term p t) = {}"
    using bools_substitute_var_in_term [of "var_new x SInt" "TVar (var_new y SInt)" t] Cons.prems(3)
    by (auto simp: rename_step_term_def p)
  have y: "y \<notin> fst ` set ps" using Cons.prems(1,2) p by auto
  have "eval_term s (fold rename_step_term (p # ps) t) = eval_term (renamed ps s) (rename_step_term p t)"
    using Cons.IH [of "rename_step_term p t"] Cons.prems c by auto
  also have "\<dots> = eval_term (set_scalar (var_new x SInt) (scalar_of s (var_new y SInt)) (renamed ps s)) t"
    using renamed_other [OF y] by (simp add: rename_step_term_def p eval_substitute_var_in_term)
  also have "\<dots> = eval_term (renamed (p # ps) s) t"
    by (rule eval_term_agree) (simp add: p agree_def same_arith_def Let_def Cons.prems(3))
  finally show ?case .
qed simp

text \<open>The same for the symbolic memories, each of which reads its own region only.\<close>

fun stored :: "(string \<times> memory) list \<Rightarrow> valuation \<Rightarrow> valuation" where
  "stored [] s = s"
| "stored ((r, p) # ms) s = set_cells r (eval_memory s p) (stored ms s)"

definition own_region :: "(string \<times> memory) list \<Rightarrow> bool" where
  "own_region ms \<longleftrightarrow> (\<forall>(r, p) \<in> set ms. region_names_memory p \<subseteq> {r})"

lemma stored_other: "agree UNIV UNIV (- fst ` set ms) (stored ms s) s"
  by (induction ms s rule: stored.induct) (auto simp: agree_def same_arith_def)

lemma eval_memory_stored:
  assumes "r \<notin> fst ` set ms" "region_names_memory p \<subseteq> {r}"
  shows "eval_memory (stored ms s) p = eval_memory s p"
  using stored_other [of ms s] assms by (intro eval_memory_agree) (auto simp: agree_def)

lemma eval_store_fold:
  assumes "distinct (map fst ms)" "own_region ms"
  shows "eval_formula s (fold (\<lambda>(r, p). substitute_memory_var_in_formula r p) ms f)
      = eval_formula (stored ms s) f"
    and "eval_term s (fold (\<lambda>(r, p). substitute_memory_var_in_term r p) ms t)
      = eval_term (stored ms s) t"
  using assms by (induction ms arbitrary: f t)
    (auto simp: own_region_def eval_substitute_memory_var_in_formula eval_substitute_memory_var_in_term
      eval_memory_stored)

lemma stored_get:
  assumes "distinct (map fst ms)"
  shows "cells_of (stored ms s) r = (case map_of ms r of None \<Rightarrow> cells_of s r | Some p \<Rightarrow> eval_memory s p)"
    and "scalar_of (stored ms s) = scalar_of s" "bool_of (stored ms s) = bool_of s"
    and "same_arith (stored ms s) s"
  using assms by (induction ms s rule: stored.induct) (auto simp: same_arith_def)

section \<open>What the walks compute\<close>

lemma map_of_hash_iter:
  assumes "iterates hash_order" "bt_wf m"
  shows "map_of (hash_iter hash_order m) k = bt_get m k"
    and "distinct (map fst (hash_iter hash_order m))"
proof -
  have "map_of (map (\<lambda>k. (k, the (bt_get m k))) ks) k = (if k \<in> set ks then Some (the (bt_get m k)) else None)"
    for ks by (induction ks) auto
  moreover have "k \<in> set (hash_order (bt_keys m)) \<longleftrightarrow> (\<exists>v. bt_get m k = Some v)"
    using assms(1) by (simp add: iterates_def bt_keys_iff)
  ultimately show "map_of (hash_iter hash_order m) k = bt_get m k"
    by (auto simp: hash_iter_def)
  have "distinct (bt_keys m)" using assms(2) by (auto simp: bt_wf_def bt_keys_def strict_sorted_iff)
  then show "distinct (map fst (hash_iter hash_order m))"
    using assms(1) by (simp add: hash_iter_def iterates_def comp_def)
qed

lemma set_hash_iter:
  assumes "iterates hash_order" "bt_wf m"
  shows "set (hash_iter hash_order m) = {(k, v). bt_get m k = Some v}"
  using map_of_hash_iter [OF assms] map_of_eq_Some_iff by fastforce

lemma walk_state:
  fixes m :: valuation
  assumes "iterates hash_order" "path_wf A st"
  defines "s \<equiv> renamed (hash_iter hash_order (ps_version st)) (stored (hash_iter hash_order (ps_memory st)) m)"
  shows "agree {v. var_name v \<notin> B} {v. var_sort v = SBool \<and> var_name v \<in> B} UNIV s (view B m st)"
proof -
  have wf: "bt_wf (ps_version st)" "bt_wf (ps_memory st)" using assms(2) by (simp_all add: path_wf_def)
  note v = map_of_hash_iter [OF assms(1) wf(1)] and c = map_of_hash_iter [OF assms(1) wf(2)]
  have "same_arith s (view B m st)"
    using stored_get(4) [OF c(2), of m] by (simp add: s_def same_arith_def view_def)
  moreover have "scalar_of s x = scalar_of (view B m st) x" if "var_name x \<notin> B" for x
    using that by (cases x) (auto simp: s_def view_def cur_def renamed_get(1) [OF v(2)] v(1)
        stored_get(2) [OF c(2)] var_new_def split: option.split)
  moreover have "bool_of s x = bool_of (view B m st) x" if "var_sort x = SBool" "var_name x \<in> B" for x
    using that by (cases x) (auto simp: s_def view_def cur_def renamed_get(2) [OF v(2)] v(1)
        stored_get(3) [OF c(2)] var_new_def split: option.split)
  moreover have "cells_of s r = cells_of (view B m st) r" for r
    by (auto simp: s_def view_def chain_def stored_get(1) [OF c(2)] c(1) split: option.split)
  ultimately show ?thesis by (simp add: agree_def)
qed

lemma walk_folds:
  "subst_formula_walk hash_order f V M = fold (\<lambda>(r, p). substitute_memory_var_in_formula r p)
     (hash_iter hash_order M) (fold rename_step (hash_iter hash_order V) f)"
  "subst_term_walk hash_order t V M = fold (\<lambda>(r, p). substitute_memory_var_in_term r p)
     (hash_iter hash_order M) (fold rename_step_term (hash_iter hash_order V) t)"
  by (simp_all add: subst_formula_walk_def subst_term_walk_def rename_step_def [abs_def]
      rename_step_term_def [abs_def] Let_def split_def)

lemma walk_names:
  assumes "iterates hash_order" "path_wf A st"
  shows "fst ` set (hash_iter hash_order (ps_version st)) \<inter> - A = {}"
    and "snd ` set (hash_iter hash_order (ps_version st)) \<subseteq> - A"
    and "own_region (hash_iter hash_order (ps_memory st))"
proof -
  have wf: "bt_wf (ps_version st)" "bt_wf (ps_memory st)"
    "\<And>x y. bt_get (ps_version st) x = Some y \<Longrightarrow> x \<in> A \<and> y \<notin> A"
    "\<And>r. region_names_memory (chain st r) \<subseteq> {r}"
    using assms(2) by (auto simp: path_wf_def)
  show "fst ` set (hash_iter hash_order (ps_version st)) \<inter> - A = {}"
    "snd ` set (hash_iter hash_order (ps_version st)) \<subseteq> - A"
    using wf(3) by (auto simp: set_hash_iter [OF assms(1) wf(1)])
  show "own_region (hash_iter hash_order (ps_memory st))"
    unfolding own_region_def
  proof clarify
    fix r p x
    assume "(r, p) \<in> set (hash_iter hash_order (ps_memory st))" and x: "x \<in> region_names_memory p"
    then have "bt_get (ps_memory st) r = Some p" by (simp add: set_hash_iter [OF assms(1) wf(2)])
    with wf(4) [of r] x show "x = r" by (auto simp: chain_def)
  qed
qed

lemma eval_walk_formula:
  assumes "iterates hash_order" "path_wf A st" "tidy B f"
  shows "eval_formula m (subst_formula_walk hash_order f (ps_version st) (ps_memory st))
    = eval_formula (view B m st) f"
proof -
  let ?V = "hash_iter hash_order (ps_version st)" and ?M = "hash_iter hash_order (ps_memory st)"
  have d: "distinct (map fst ?M)" using map_of_hash_iter(2) [OF assms(1)] assms(2) by (auto simp: path_wf_def)
  note n = walk_names [OF assms(1,2)]
  have "eval_formula m (subst_formula_walk hash_order f (ps_version st) (ps_memory st))
      = eval_formula (renamed ?V (stored ?M m)) f"
    unfolding walk_folds eval_store_fold(1) [OF d n(3)]
    by (rule eval_rename_fold [OF n(1,2)]) (use assms(3) in \<open>simp add: tidy_def\<close>)
  also have "\<dots> = eval_formula (view B m st) f"
    by (rule eval_formula_agree)
      (use walk_state [OF assms(1,2)] assms(3) in \<open>auto simp: tidy_def agree_def\<close>)
  finally show ?thesis .
qed

lemma eval_walk_term:
  assumes "iterates hash_order" "path_wf A st" "tidy_term B t"
  shows "eval_term m (subst_term_walk hash_order t (ps_version st) (ps_memory st))
    = eval_term (view B m st) t"
proof -
  let ?V = "hash_iter hash_order (ps_version st)" and ?M = "hash_iter hash_order (ps_memory st)"
  have d: "distinct (map fst ?M)" using map_of_hash_iter(2) [OF assms(1)] assms(2) by (auto simp: path_wf_def)
  note n = walk_names [OF assms(1,2)]
  have "eval_term m (subst_term_walk hash_order t (ps_version st) (ps_memory st))
      = eval_term (renamed ?V (stored ?M m)) t"
    unfolding walk_folds eval_store_fold(2) [OF d n(3)]
    by (rule eval_rename_fold_term [OF n(1,2)]) (use assms(3) in \<open>simp add: tidy_term_def\<close>)
  also have "\<dots> = eval_term (view B m st) t"
    by (rule eval_term_agree)
      (use walk_state [OF assms(1,2)] assms(3) in \<open>auto simp: tidy_term_def agree_def\<close>)
  finally show ?thesis .
qed

lemma regions_rename:
  shows "region_names_memory (substitute_var_in_memory x (TVar y) mem) \<subseteq> region_names_memory mem"
    and regions_rename_term:
      "region_names_term (substitute_var_in_term x (TVar y) t) \<subseteq> region_names_term t"
    and "region_names_formula (substitute_var_in_formula x (TVar y) f) \<subseteq> region_names_formula f"
proof (induction mem and t and f)
  case (FAnd fs)
  then show ?case
    using region_syms.sym_f_and_many [of "map (substitute_var_in_formula x (TVar y)) fs"] by fastforce
next
  case (FOr fs)
  then show ?case
    using region_syms.sym_f_or_many [of "map (substitute_var_in_formula x (TVar y)) fs"] by fastforce
next
  case (FImplies f g)
  then show ?case using region_syms.sym_f_implies
      [of "substitute_var_in_formula x (TVar y) f" "substitute_var_in_formula x (TVar y) g"] by auto
qed (auto simp: f_not_def)

lemma regions_own:
  assumes "region_names_memory p \<subseteq> {r}"
  shows "region_names_memory (substitute_memory_var_in_memory r p mem) \<subseteq> region_names_memory mem"
    and regions_own_term:
      "region_names_term (substitute_memory_var_in_term r p t) \<subseteq> region_names_term t"
    and "region_names_formula (substitute_memory_var_in_formula r p f) \<subseteq> region_names_formula f"
proof (induction mem and t and f)
  case (FAnd fs)
  then show ?case
    using region_syms.sym_f_and_many [of "map (substitute_memory_var_in_formula r p) fs"] by fastforce
next
  case (FOr fs)
  then show ?case
    using region_syms.sym_f_or_many [of "map (substitute_memory_var_in_formula r p) fs"] by fastforce
next
  case (FImplies f g)
  then show ?case using region_syms.sym_f_implies
      [of "substitute_memory_var_in_formula r p f" "substitute_memory_var_in_formula r p g"] by auto
qed (use assms in \<open>auto simp: f_not_def\<close>)

text \<open>The walk puts no other region into a term that reads one region.\<close>

lemma regions_walk_term:
  assumes "iterates hash_order" "path_wf A st" "region_names_term t \<subseteq> {r}"
  shows "region_names_term (subst_term_walk hash_order t (ps_version st) (ps_memory st)) \<subseteq> {r}"
proof -
  have "region_names_term (fold rename_step_term ps t) \<subseteq> {r}" if "region_names_term t \<subseteq> {r}" for ps t
    using that
  proof (induction ps arbitrary: t)
    case (Cons p ps)
    have "region_names_term (rename_step_term p t) \<subseteq> {r}"
      unfolding rename_step_term_def by (rule subset_trans [OF regions_rename_term Cons.prems])
    then show ?case by (simp add: Cons.IH)
  qed simp
  moreover have "region_names_term (fold (\<lambda>(r, p). substitute_memory_var_in_term r p) ms t) \<subseteq> {r}"
    if "region_names_term t \<subseteq> {r}" "own_region ms" for ms t
    using that
  proof (induction ms arbitrary: t)
    case (Cons q ms)
    obtain r' p where q: "q = (r', p)" by (cases q)
    with Cons.prems have p: "region_names_memory p \<subseteq> {r'}" "own_region ms" by (auto simp: own_region_def)
    have "region_names_term (substitute_memory_var_in_term r' p t) \<subseteq> {r}"
      by (rule subset_trans [OF regions_own_term [OF p(1)] Cons.prems(1)])
    then show ?case by (simp add: q Cons.IH [OF _ p(2)])
  qed simp
  ultimately show ?thesis using assms(3) walk_names(3) [OF assms(1,2)] unfolding walk_folds by blast
qed

section \<open>One effect is one step\<close>

lemma version_var_facts:
  assumes "version_var x nid k st = (y, st')" "path_wf A st" "apart A" "var_name x \<in> A"
  shows "path_wf A st'" "ps_formula st' = ps_formula st" "ps_memory st' = ps_memory st"
    and "cur st' z = (if z = var_name x then var_name y else cur st z)" "var_sort y = var_sort x"
proof -
  have fresh: "var_name x @ ''$n'' @ nat_str nid @ ''v'' @ nat_str k \<notin> A"
    using assms(3,4) unfolding apart_def by blast
  have wf: "bt_wf (ps_version st)" "bt_wf (ps_memory st)"
    "\<And>x y. bt_get (ps_version st) x = Some y \<Longrightarrow> x \<in> A \<and> y \<notin> A"
    "\<And>r. region_names_memory (chain st r) \<subseteq> {r}"
    using assms(2) by (auto simp: path_wf_def)
  have chain: "chain st' r = chain st r" for r
    using assms(1) by (auto simp: version_var_def Let_def chain_def split: if_splits)
  show "path_wf A st'"
    using assms(1,4) fresh wf unfolding path_wf_def chain
    by (auto simp: version_var_def Let_def bt_get_insert bt_get_remove bt_wf_insert bt_wf_remove split: if_splits)
  show "ps_formula st' = ps_formula st" "ps_memory st' = ps_memory st" "var_sort y = var_sort x"
    "cur st' z = (if z = var_name x then var_name y else cur st z)"
    using assms(1) by (auto simp: version_var_def Let_def cur_def bt_get_insert bt_get_remove var_new_def
        split: if_splits)
qed

lemma view_assign:
  assumes "version_var x nid k st = (y, st')" "path_wf A st" "apart A" "var_name x \<in> A"
  shows "var_sort x = SInt \<Longrightarrow> var_name x \<notin> B \<Longrightarrow> view B m st' = set_scalar x (scalar_of m y) (view B m st)"
    and "var_sort x = SBool \<Longrightarrow> var_name x \<in> B \<Longrightarrow> view B m st' = set_bool x (bool_of m y) (view B m st)"
proof -
  note v = version_var_facts [OF assms]
  have c: "chain st' = chain st" using v(3) by (simp add: chain_def fun_eq_iff)
  have y: "y = var_new (var_name y) (var_sort x)" using v(5) by (cases y) (simp add: var_new_def)
  have eq: "z = x \<longleftrightarrow> var_name z = var_name x \<and> var_sort z = var_sort x" for z by (cases x; cases z) auto
  show "view B m st' = set_scalar x (scalar_of m y) (view B m st)" if "var_sort x = SInt" "var_name x \<notin> B"
    using that y by (intro valuation.equality) (auto simp: view_def c v(4) eq fun_eq_iff)
  show "view B m st' = set_bool x (bool_of m y) (view B m st)" if "var_sort x = SBool" "var_name x \<in> B"
    using that y by (intro valuation.equality) (auto simp: view_def c v(4) eq fun_eq_iff)
qed

lemma cur_chain_updates:
  "cur (st\<lparr>ps_formula := f\<rparr>) = cur st" "chain (st\<lparr>ps_formula := f\<rparr>) = chain st"
  "cur (st\<lparr>ps_memory := M\<rparr>) = cur st"
  "chain (st\<lparr>ps_memory := bt_insert r p (ps_memory st)\<rparr>) = (chain st)(r := p)"
  by (auto simp: cur_def chain_def fun_eq_iff bt_get_insert)

lemma view_formula [simp]: "view B m (st\<lparr>ps_formula := f\<rparr>) = view B m st"
  unfolding view_def cur_chain_updates ..

lemma view_store:
  "view B m (st\<lparr>ps_memory := bt_insert r p (ps_memory st)\<rparr>) = set_cells r (eval_memory m p) (view B m st)"
  by (intro valuation.equality) (auto simp: view_def cur_chain_updates fun_eq_iff)

lemma view_cells: "cells_of (view B m st) r = eval_memory m (chain st r)"
  by (simp add: view_def)

lemma path_wf_formula [simp]: "path_wf A (st\<lparr>ps_formula := f\<rparr>) = path_wf A st"
  by (simp add: path_wf_def chain_def)

lemma equated_terms_agree: "eval_formula s (FEq a b) \<Longrightarrow> eval_term s a = eval_term s b"
  by (cases "eval_term s a"; cases "eval_term s b") auto

lemma path_effect:
  fixes nid k :: nat
  assumes "iterates hash_order" "apart A" "path_wf A st" "tidy_effect B e" "assigned_names e \<subseteq> A"
  defines "st' \<equiv> apply_path_effect hash_order nid k e st"
  shows "path_wf A st'"
    and "eval_formula m (ps_formula st') \<Longrightarrow>
      eval_formula m (ps_formula st) \<and> effect_step (view B m st) e (view B m st')"
proof -
  note walk = eval_walk_formula [OF assms(1,3)] eval_walk_term [OF assms(1,3)]
  have "path_wf A st' \<and> (eval_formula m (ps_formula st') \<longrightarrow>
      eval_formula m (ps_formula st) \<and> effect_step (view B m st) e (view B m st'))"
  proof (cases e)
    case (Assign x v)
    obtain y st1 where y: "version_var x nid k st = (y, st1)" by (cases "version_var x nid k st")
    have x: "var_name x \<in> A" using assms(5) Assign by simp
    note f = version_var_facts [OF y assms(3,2) x] and view = view_assign [OF y assms(3,2) x, of B m]
    show ?thesis
    proof (cases v)
      case (AssignTerm t)
      let ?t = "subst_term_walk hash_order t (ps_version st) (ps_memory st)"
      have st': "st' = st1\<lparr>ps_formula := f_and (ps_formula st) (FEq (TVar y) ?t)\<rparr>"
        using y f(2) Assign AssignTerm by (simp add: st'_def conjoin_def)
      have "scalar_of m y = eval_term (view B m st) t"
        if "eval_formula m (FEq (TVar y) ?t)"
        using equated_terms_agree [OF that] walk(2) assms(4) Assign AssignTerm by simp
      moreover have "view B m st' = set_scalar x (scalar_of m y) (view B m st)"
        using view(1) assms(4) Assign AssignTerm by (simp add: st')
      ultimately show ?thesis using f(1) Assign AssignTerm
        by (simp add: st' effect_step_simps del: eval_formula.simps)
    next
      case (AssignPredicate p)
      let ?p = "subst_formula_walk hash_order p (ps_version st) (ps_memory st)"
      have st': "st' = st1\<lparr>ps_formula := f_and (ps_formula st) (f_iff (FVar y) ?p)\<rparr>"
        using y f(2) Assign AssignPredicate by (simp add: st'_def conjoin_def)
      have "eval_formula m ?p = eval_formula (view B m st) p"
        using walk(1) assms(4) Assign AssignPredicate by simp
      moreover have "view B m st' = set_bool x (bool_of m y) (view B m st)"
        using view(2) assms(4) Assign AssignPredicate by (simp add: st')
      ultimately show ?thesis using f(1) Assign AssignPredicate by (simp add: st' effect_step_simps)
    qed
  next
    case (MemoryStore r i v)
    let ?i = "subst_term_walk hash_order i (ps_version st) (ps_memory st)"
    let ?v = "subst_term_walk hash_order v (ps_version st) (ps_memory st)"
    have st': "st' = st\<lparr>ps_memory := bt_insert r (MStore (chain st r) ?i ?v) (ps_memory st)\<rparr>"
      using MemoryStore by (simp add: st'_def chain_def Let_def)
    have tidy: "tidy_term B i" "tidy_term B v" "region_names_term i \<subseteq> {r}" "region_names_term v \<subseteq> {r}"
      using assms(4) MemoryStore by simp_all
    have "path_wf A st'"
      using assms(3) tidy(3,4) [THEN regions_walk_term [OF assms(1,3)]]
      unfolding path_wf_def st' cur_chain_updates by (auto simp: bt_wf_insert)
    moreover have "view B m st' = set_cells r (store_cells (cells_of (view B m st) r)
        (eval_term (view B m st) i) (eval_term (view B m st) v)) (view B m st)"
      by (simp add: st' view_store view_cells walk(2) [OF tidy(1)] walk(2) [OF tidy(2)])
    ultimately show ?thesis using MemoryStore by (simp add: effect_step_simps) (simp add: st')
  next
    case (HavocRegions rs)
    then show ?thesis using assms(3)
      by (auto simp: st'_def same_but_memory_def effect_step_simps intro!: exI [of _ "cells_of (view B m st)"])
  next
    case (Call f c)
    have "same_but_memory UNIV (view B m st) (view B m st)"
      unfolding same_but_memory_def by (intro exI [of _ "cells_of (view B m st)"]) simp
    with Call show ?thesis using assms(3)
      by (cases c) (auto simp: st'_def intro: no_effect havoc_call)
  next
    case (IndirectCall f c)
    have "same_but_memory UNIV (view B m st) (view B m st)"
      unfolding same_but_memory_def by (intro exI [of _ "cells_of (view B m st)"]) simp
    with IndirectCall show ?thesis using assms(3)
      by (cases c) (auto simp: st'_def intro: no_effect havoc_indirect)
  qed (use assms(3,4) walk(1) in \<open>auto simp: st'_def conjoin_def effect_step_simps intro: no_effect\<close>)
  then show "path_wf A st'" "eval_formula m (ps_formula st') \<Longrightarrow>
      eval_formula m (ps_formula st) \<and> effect_step (view B m st) e (view B m st')" by blast+
qed

section \<open>A path condition is a run\<close>

definition assigned_in :: "abstract_cfg \<Rightarrow> string set" where
  "assigned_in cfg = (\<Union>e \<in> set (all_effects cfg). assigned_names e)"

text \<open>The graph is tidy; the block of the assertion forgets nothing, so its \<open>wp\<close> is exact.\<close>

definition dart_ready :: "string set \<Rightarrow> abstract_cfg \<Rightarrow> assertion_site \<Rightarrow> bool" where
  "dart_ready B cfg site \<longleftrightarrow> apart (assigned_in cfg)
     \<and> (\<forall>e \<in> set (all_effects cfg). tidy_effect B e) \<and> (\<forall>e \<in> set (all_edges cfg). tidy B (edge_guard e))
     \<and> tidy B (site_obligation site)
     \<and> (\<forall>n. bt_get (cfg_nodes cfg) (site_node site) = Some n \<longrightarrow>
          list_all (\<lambda>e. \<not> forgets e \<and> \<not> havocs_memory e) (effects (node_transfer n))
          \<and> tidy B (wp (node_transfer n) (f_not (site_obligation site))))"

lemma path_effects:
  fixes nid k :: nat
  assumes "iterates hash_order" "dart_ready B cfg site" "path_wf (assigned_in cfg) st"
    and "set es \<subseteq> set (all_effects cfg)"
  defines "st' \<equiv> fold (apply_path_effect hash_order nid k) es st"
  shows "path_wf (assigned_in cfg) st'"
    and "eval_formula m (ps_formula st') \<Longrightarrow>
      eval_formula m (ps_formula st) \<and> steps effect_step (view B m st) es (view B m st')"
proof -
  have "path_wf (assigned_in cfg) (fold (apply_path_effect hash_order nid k) es st) \<and>
      (eval_formula m (ps_formula (fold (apply_path_effect hash_order nid k) es st)) \<longrightarrow>
        eval_formula m (ps_formula st) \<and>
        steps effect_step (view B m st) es (view B m (fold (apply_path_effect hash_order nid k) es st)))"
    using assms(3,4)
  proof (induction es arbitrary: st)
    case (Cons e es)
    have e: "tidy_effect B e" "assigned_names e \<subseteq> assigned_in cfg" "apart (assigned_in cfg)"
      using assms(2) Cons.prems(2) by (auto simp: dart_ready_def assigned_in_def)
    note one = path_effect [OF assms(1) e(3) Cons.prems(1) e(1,2), where nid = nid and k = k]
    show ?case using Cons.IH [OF one(1)] Cons.prems(2) one(2) [where m = m] by auto
  qed simp
  then show "path_wf (assigned_in cfg) st'" "eval_formula m (ps_formula st') \<Longrightarrow>
      eval_formula m (ps_formula st) \<and> steps effect_step (view B m st) es (view B m st')"
    by (simp_all add: st'_def)
qed

lemma path_edge_step:
  fixes visits :: "cfg_node_id \<Rightarrow> nat"
  assumes "iterates hash_order" "dart_ready B cfg site" "path_wf (assigned_in cfg) st" "cfg_wf cfg"
    and "bt_get (cfg_edges cfg) eid = Some e"
  defines "st' \<equiv> snd (path_edge hash_order cfg eid (visits, st))"
  shows "path_wf (assigned_in cfg) st'"
    and "eval_formula m (ps_formula st') \<Longrightarrow>
      eval_formula m (ps_formula st) \<and> edge_step cfg e (view B m st) (view B m st')"
proof -
  let ?k = "visits (edge_source e) + 1"
  have e: "e \<in> set (all_edges cfg)" using assms(4,5) by (simp add: all_edges_iff wf_edge)
  obtain n where n: "bt_get (cfg_nodes cfg) (edge_source e) = Some n"
    using wf_edge(3) [OF assms(4,5)] by (auto simp: node_ids_def bt_keys_iff)
  define u where "u = fold (apply_path_effect hash_order (edge_source e) ?k) (effects (node_transfer n)) st"
  define g where "g = subst_formula_walk hash_order (edge_guard e) (ps_version u) (ps_memory u)"
  define w where "w = u\<lparr>ps_formula := f_and (ps_formula u) g\<rparr>"
  define j where "j = (visits(edge_source e := ?k)) (edge_target e) + 1"
  have st': "st' = fold (apply_path_effect hash_order (edge_target e) j) (edge_effects e) w"
    using assms(5) n by (simp add: st'_def path_edge_def Let_def u_def w_def g_def j_def conjoin_def
        cfg_edge_def cfg_node_def)
  note src = path_effects [OF assms(1-3) node_effects [OF n], where nid = "edge_source e" and k = ?k, folded u_def]
  have wf: "path_wf (assigned_in cfg) w" using src(1) by (simp add: w_def)
  note tgt = path_effects [OF assms(1,2) wf edge_effects_subset [OF e], where nid = "edge_target e" and k = j, folded st']
  show "path_wf (assigned_in cfg) st'" by (rule tgt(1))
  assume "eval_formula m (ps_formula st')"
  then have t: "eval_formula m (ps_formula w)" "steps effect_step (view B m w) (edge_effects e) (view B m st')"
    using tgt(2) [where m = m] by simp_all
  have "tidy B (edge_guard e)" using assms(2) e by (simp add: dart_ready_def)
  then have "eval_formula (view B m u) (edge_guard e)" "eval_formula m (ps_formula u)"
    using t(1) eval_walk_formula [OF assms(1) src(1)] by (simp_all add: w_def g_def)
  then show "eval_formula m (ps_formula st) \<and> edge_step cfg e (view B m st) (view B m st')"
    using src(2) [where m = m] t(2) n unfolding edge_step_def w_def by auto
qed

lemma path_condition_run:
  fixes visits :: "cfg_node_id \<Rightarrow> nat"
  assumes "iterates hash_order" "dart_ready B cfg site" "cfg_wf cfg"
    and "path_wf (assigned_in cfg) st" "path_from cfg n p target"
  defines "st' \<equiv> snd (fold (path_edge hash_order cfg) p (visits, st))"
  shows "path_wf (assigned_in cfg) st'"
    and "eval_formula m (ps_formula st') \<Longrightarrow> eval_formula m (ps_formula st) \<and>
      (cfg_run cfg init n (view B m st) \<longrightarrow> cfg_run cfg init target (view B m st'))"
proof -
  have "path_wf (assigned_in cfg) (snd (fold (path_edge hash_order cfg) p (visits, st))) \<and>
     (eval_formula m (ps_formula (snd (fold (path_edge hash_order cfg) p (visits, st)))) \<longrightarrow>
       eval_formula m (ps_formula st) \<and> (cfg_run cfg init n (view B m st) \<longrightarrow>
         cfg_run cfg init target (view B m (snd (fold (path_edge hash_order cfg) p (visits, st))))))"
    using assms(4,5)
  proof (induction p arbitrary: n visits st)
    case (Cons eid p)
    obtain e where e: "bt_get (cfg_edges cfg) eid = Some e" "edge_source e = n" "path_from cfg (edge_target e) p target"
      using Cons.prems(2) by (auto split: option.splits)
    obtain v u where u: "path_edge hash_order cfg eid (visits, st) = (v, u)"
      by (cases "path_edge hash_order cfg eid (visits, st)")
    note one = path_edge_step [OF assms(1,2) Cons.prems(1) assms(3) e(1), where visits = visits, unfolded u snd_conv]
    have "e \<in> set (all_edges cfg)" using assms(3) e(1) by (simp add: all_edges_iff wf_edge)
    then have "cfg_run cfg init n (view B m st) \<Longrightarrow> edge_step cfg e (view B m st) (view B m u) \<Longrightarrow>
        cfg_run cfg init (edge_target e) (view B m u)" using along e(2) by metis
    then show ?case using Cons.IH [OF one(1) e(3), of v] one(2) [where m = m] u by auto
  qed simp
  then show "path_wf (assigned_in cfg) st'" "eval_formula m (ps_formula st') \<Longrightarrow>
      eval_formula m (ps_formula st) \<and>
      (cfg_run cfg init n (view B m st) \<longrightarrow> cfg_run cfg init target (view B m st'))"
    by (simp_all add: st'_def)
qed

section \<open>Property\<close>

lemma explore_paths_Some:
  assumes "explore_paths hash_order cfg site z names phi2 paths = Some r"
  shows "\<exists>p \<in> set paths. \<exists>st report. st = snd (fold (path_edge hash_order cfg) p (\<lambda>_. 0, path_start FTrue))
    \<and> feasibility_with_model z (f_and (ps_formula st)
        (subst_formula_walk hash_order phi2 (ps_version st) (ps_memory st))) = Inr report
    \<and> report_feasibility report = Feasible \<and> result_judgement r = BugFound (report_model report)"
  using assms
proof (induction paths)
  case (Cons p paths)
  define st where "st = snd (fold (path_edge hash_order cfg) p (\<lambda>_. 0, path_start FTrue))"
  show ?case
  proof (cases "feasibility_with_model z (f_and (ps_formula st)
      (subst_formula_walk hash_order phi2 (ps_version st) (ps_memory st)))")
    case (Inr report)
    then show ?thesis
      using Cons by (cases "report_feasibility report = Feasible")
        (auto simp: compute_path_condition_with_state_def Let_def dart_result_def simp flip: st_def)
  qed (use Cons.prems in \<open>simp add: compute_path_condition_with_state_def Let_def flip: st_def\<close>)
qed simp

lemma explored_bug_real:
  assumes "cfg_wf cfg" and "sound_solver z" and "iterates hash_order" and "dart_ready B cfg site"
    and "dart_explore hash_order cfg site z config names = Some r"
  shows "(\<exists>model. result_judgement r = BugFound model)
    \<and> (\<exists>s0 s. cfg_run cfg s0 (site_node site) s \<and> fails_here cfg site (site_node site) s)"
proof -
  let ?f = "f_not (site_obligation site)" and ?B = "{v. var_sort v = SBool \<and> var_name v \<in> B}"
  obtain n where n: "bt_get (cfg_nodes cfg) (site_node site) = Some n"
    and r: "explore_paths hash_order cfg site z names (wp (node_transfer n) ?f)
      (enumerate_paths cfg (cfg_entry cfg) (site_node site) config) = Some r"
    using assms(5) by (auto simp: dart_explore_def Let_def split: sum.splits)
  obtain p st report where p: "p \<in> set (enumerate_paths cfg (cfg_entry cfg) (site_node site) config)"
    and st: "st = snd (fold (path_edge hash_order cfg) p (\<lambda>_. 0, path_start FTrue))"
    and report: "feasibility_with_model z (f_and (ps_formula st)
        (subst_formula_walk hash_order (wp (node_transfer n) ?f) (ps_version st) (ps_memory st))) = Inr report"
      "report_feasibility report = Feasible" "result_judgement r = BugFound (report_model report)"
    using explore_paths_Some [OF r] by blast
  obtain m where m: "admissible m" "eval_formula m (ps_formula st)" "eval_formula m
      (subst_formula_walk hash_order (wp (node_transfer n) ?f) (ps_version st) (ps_memory st))"
    using report_sound(2) [OF assms(2) report(1,2)] by auto
  have "path_from cfg (cfg_entry cfg) p (site_node site)"
    using p enumerate_adds [OF assms(1), of config "cfg_entry cfg" "site_node site"]
    by (auto simp: adds_def bounded_path_def)
  note run = path_condition_run [OF assms(3,4,1) path_wf_start [where f = FTrue] this, where visits = "\<lambda>_. 0", folded st]
  have reach: "cfg_run cfg m (site_node site) (view B m st)"
    using run(2) [where m = m and init = m] m(1,2) start by (simp add: view_start)
  have ready: "list_all (\<lambda>e. \<not> forgets e \<and> \<not> havocs_memory e) (effects (node_transfer n))"
    "tidy B (wp (node_transfer n) ?f)" "tidy B (site_obligation site)"
    "\<And>e. e \<in> set (effects (node_transfer n)) \<Longrightarrow> tidy_effect B e"
    using assms(4) n node_effects [OF n] by (auto simp: dart_ready_def)
  have ok: "wp_ok ?B e" if "e \<in> set (effects (node_transfer n))" for e
    using ready(1) ready(4) [OF that] that
    by (cases "(B, e)" rule: tidy_effect.cases)
      (auto simp: wp_ok_def list_all_iff tidy_def tidy_term_def)
  have "eval_formula (view B m st) (wp (node_transfer n) ?f)"
    using m(3) eval_walk_formula [OF assms(3) run(1) ready(2)] by simp
  moreover have "wp_good ?B ?f" using ready(3) by (intro wp_good_connectives) (simp add: wp_good_def tidy_def)
  moreover have "transfer_ok ?B (node_transfer n)" "transfer_exact (node_transfer n)"
    using ok ready(1) by (auto simp: transfer_ok_def transfer_exact_def list_all_iff)
  ultimately obtain u where "transfer_runs (view B m st) (node_transfer n) u" "eval_formula u ?f"
    using wp_is_preimage by blast
  then have "fails_here cfg site (site_node site) (view B m st)" using n by (auto simp: fails_here_def)
  with reach report(3) show ?thesis by blast
qed

text \<open>
  C26: a bug reported by the bug finder is real: with a sound solver, on a tidy graph (no store reads
  another region, no Boolean is coerced, names are apart), some execution from an initial state reaches the
  assertion and fails it, whatever the configuration and the iteration order of the maps.
\<close>

theorem dart_bugfound_real:
  assumes "cfg_wf cfg" and "sound_solver z" and "iterates hash_order" and "dart_ready B cfg site"
    and "dart_explore hash_order cfg site z config names = Some r"
  shows "(\<exists>model. result_judgement r = BugFound model)
    \<and> (\<exists>s0 s. cfg_run cfg s0 (site_node site) s \<and> fails_here cfg site (site_node site) s)"
  by (rule explored_bug_real [OF assms])

end
