(* ===== verification/Dart_Claims.thy ===== *)
theory Dart_Claims
  imports Dart_Sound Backward_Claims
begin

text \<open>
  The bug finder run on the branching example, and the two ways in which it departs from its
  comments: the memories are substituted one after the other, and the first definition of a name
  keeps it even when the path has read it.
\<close>

section \<open>A solver that knows one state\<close>

definition state_solver :: "valuation \<Rightarrow> solver" where
  "state_solver s = \<lparr>assert_formula = (\<lambda>_. Inr ()),
     check = (\<lambda>f. if eval_formula s f then Sat else SatUnknown), model_bindings = (\<lambda>_ _. None)\<rparr>"

lemma state_solver_sound: "admissible s \<Longrightarrow> sound_solver (state_solver s)"
  by (auto simp: sound_solver_def state_solver_def)

lemma admissible_updates [simp]:
  "admissible s \<Longrightarrow> var_sort x = SInt \<Longrightarrow> admissible (set_scalar x (IntV i) s)"
  "admissible s \<Longrightarrow> admissible (set_bool x b s)"
  "admissible s \<Longrightarrow> admissible (set_cells r c s)"
  by (auto simp: admissible_def well_sorted_def smtlib_division_def)

lemma dart_explore_finds:
  assumes "cfg_node cfg (site_node site) = Inr n"
    and "enumerate_paths cfg (cfg_entry cfg) (site_node site) config = p # ps"
    and "compute_path_condition_with_state hash_order cfg p FTrue = (pc, V, M)"
    and "subst_formula_walk hash_order (wp (node_transfer n) (f_not (site_obligation site))) V M = phi2"
    and "eval_formula s pc" "eval_formula s phi2"
  shows "dart_explore hash_order cfg site (state_solver s) config names
    = Some (dart_result cfg site None pc phi2 names)"
  using assms by (simp add: dart_explore_def feasibility_with_model_def state_solver_def Let_def
      del: cfg_node_Inr)

section \<open>The branching example\<close>

definition branch_state :: valuation where
  "branch_state = set_bool (var_bool ''c'') True (set_scalar (var_int ''x'') (IntV 1) sample_state)"

lemma branch_state_admissible: "admissible branch_state"
  by (simp add: branch_state_def sample_state_admissible var_int_def var_new_def)

lemma branch_tidy: "dart_ready {''c''} (branch_cfg (f_bool_var ''c'')) (branch_site n)"
  by (auto simp: dart_ready_def all_effects_def branch_defs bt_values_def bt_get_def apart_def assigned_in_def
      tidy_def tidy_term_def f_bool_var_def f_not_def wp_def)

lemma branch_explored:
  "\<exists>r. dart_explore (\<lambda>ks. ks) (branch_cfg (f_bool_var ''c'')) (branch_site 2)
    (state_solver branch_state) dart_config_default names = Some r"
proof -
  let ?g = "branch_cfg (f_bool_var ''c'')"
  let ?pc = "f_and (FEq (TVar (var_int ''x'')) (TInt 1)) (FVar (var_bool ''c''))"
  have "enumerate_paths ?g (cfg_entry ?g) (site_node (branch_site 2)) dart_config_default = [[0]]"
    "compute_path_condition_with_state (\<lambda>ks. ks) ?g [0] FTrue = (?pc, [], [])"
    "subst_formula_walk (\<lambda>ks. ks) (wp (node_transfer (example_node 1))
       (f_not (site_obligation (branch_site 2)))) [] [] = FNot (FEq (TVar (var_int ''x'')) (TInt 2))"
    by code_simp+
  moreover have "cfg_node ?g (site_node (branch_site 2)) = Inr (example_node 1)"
    by (simp add: branch_cfg_def branch_site_def bt_get_def)
  moreover have "eval_formula branch_state ?pc" "eval_formula branch_state (FNot (FEq (TVar (var_int ''x'')) (TInt 2)))"
    by (simp_all add: branch_state_def var_int_def var_bool_def var_new_def)
  ultimately show ?thesis using dart_explore_finds by blast
qed

theorem dart_bugfound_witness:
  "\<exists>s0 s. cfg_run (branch_cfg (f_bool_var ''c'')) s0 1 s \<and>
    fails_here (branch_cfg (f_bool_var ''c'')) (branch_site 2) 1 s"
proof -
  obtain r where r: "dart_explore (\<lambda>ks. ks) (branch_cfg (f_bool_var ''c'')) (branch_site 2)
      (state_solver branch_state) dart_config_default Map.empty = Some r"
    using branch_explored by blast
  have "iterates (\<lambda>ks. ks)" by (simp add: iterates_def)
  from dart_bugfound_real [OF branch_wf state_solver_sound [OF branch_state_admissible] this branch_tidy r]
  show ?thesis by (simp add: branch_site_def)
qed

theorem enumerate_paths_witness:
  "[0, 1, 2, 3] \<in> set (enumerate_paths example_loop 0 3 dart_config_default)"
proof -
  have "sources example_loop [0, 1, 2, 3] = [0, 1, 2, 1]" "path_from example_loop 0 [0, 1, 2, 3] 3" by code_simp+
  then have "bounded_path example_loop dart_config_default 0 3 [0, 1, 2, 3]"
    by (simp add: bounded_path_def dart_config_default_def)
  moreover have "length (enumerate_paths example_loop 0 3 dart_config_default) < config_max_paths dart_config_default"
    by code_simp
  ultimately show ?thesis using enumerate_paths_correct [OF example_loop_wf] by blast
qed

section \<open>Departures\<close>

text \<open>
  The first definition of a name keeps the name, so \<open>x := x + 1\<close> with no earlier definition of
  \<open>x\<close> (a parameter, say) conjoins \<open>x = x + 1\<close>: every path through it is lost.
\<close>

lemma dart_loses_first_update:
  assumes "iterates hash_order"
  shows "\<not> eval_formula s (ps_formula (apply_path_effect hash_order nid 1
    (Assign x (AssignTerm (TAdd (TVar x) (TInt 1)))) (path_start f)))"
proof -
  have "hash_order [] = []" using assms unfolding iterates_def by (metis set_empty)
  then show ?thesis
    by (cases "scalar_of s x") (simp_all add: path_start_def version_var_def subst_term_walk_def
        hash_iter_def bt_keys_def conjoin_def Let_def bt_remove_def)
qed

text \<open>\<open>assume a[0] = 0; b[0] := a[0]; a[0] := 2; assert b[0] = 0\<close>\<close>

definition cell :: "string \<Rightarrow> fterm" where
  "cell r = TSelect (MVar r) (TInt 0)"

definition copy_cfg :: abstract_cfg where
  "copy_cfg = \<lparr>cfg_nodes = [
       (0, (example_node 0)\<lparr>node_transfer := transfer_fn_new
          [Assume (FEq (cell ''a'') (TInt 0)), MemoryStore ''b'' (TInt 0) (cell ''a''),
           MemoryStore ''a'' (TInt 0) (TInt 2)]\<rparr>),
       (1, example_node 1)],
     cfg_edges = [(0, example_edge 0 0 1)],
     cfg_entry = 0, concrete_exits = [1], cfg_exit = None, next_node = 2, next_edge = 1\<rparr>"

definition copy_site :: assertion_site where
  "copy_site = \<lparr>site_id = 1, site_node = 1, site_source_location = source_location_new [] 0 0,
     site_location = [], site_obligation = FEq (cell ''b'') (TInt 0)\<rparr>"

lemma copy_never_fails:
  assumes "cfg_run copy_cfg s0 n s"
  shows "\<not> fails_here copy_cfg copy_site n s"
  using assms
proof (cases rule: cfg_run.cases)
  case start
  then show ?thesis by (simp add: fails_here_def copy_cfg_def copy_site_def)
next
  case (along e u)
  then have e: "e = example_edge 0 0 1" by (simp add: copy_cfg_def bt_values_def)
  then have "edge_step copy_cfg (example_edge 0 0 1) u s" using along by simp
  then have "cells_of s ''b'' 0 = 0"
    by (auto simp: edge_step_def copy_cfg_def bt_get_def example_edge_def example_node_def transfer_fn_new_def
        cell_def effect_step_simps store_cells_def select_cell_def)
  then show ?thesis
    by (auto simp: fails_here_def copy_cfg_def copy_site_def cell_def select_cell_def bt_get_def example_node_def
        transfer_identity_def)
qed

text \<open>
  The memories are substituted one after the other.  When the map yields \<open>b\<close> before \<open>a\<close>, the
  value copied out of \<open>a\<close> is rewritten by the later store to \<open>a\<close>, and a bug is reported that no
  execution has.
\<close>

lemma dart_reports_false_bug:
  "\<exists>z r. sound_solver z \<and> iterates rev \<and>
    dart_explore rev copy_cfg copy_site z dart_config_default Map.empty = Some r \<and>
    (\<exists>model. result_judgement r = BugFound model) \<and>
    \<not> (\<exists>s0 n s. cfg_run copy_cfg s0 n s \<and> fails_here copy_cfg copy_site n s)"
proof -
  let ?pc = "FEq (cell ''a'') (TInt 0)"
  let ?M = "[(''a'', MStore (MVar ''a'') (TInt 0) (TInt 2)), (''b'', MStore (MVar ''b'') (TInt 0) (cell ''a''))]"
  let ?phi = "FNot (FEq (TSelect (MStore (MVar ''b'') (TInt 0)
      (TSelect (MStore (MVar ''a'') (TInt 0) (TInt 2)) (TInt 0))) (TInt 0)) (TInt 0))"
  have "enumerate_paths copy_cfg (cfg_entry copy_cfg) (site_node copy_site) dart_config_default = [[0]]"
    "compute_path_condition_with_state rev copy_cfg [0] FTrue = (?pc, [], ?M)"
    "subst_formula_walk rev (wp (node_transfer (example_node 1)) (f_not (site_obligation copy_site))) [] ?M = ?phi"
    by code_simp+
  moreover have "cfg_node copy_cfg (site_node copy_site) = Inr (example_node 1)"
    by (simp add: copy_cfg_def copy_site_def bt_get_def)
  moreover have "eval_formula sample_state ?pc" "eval_formula sample_state ?phi"
    by (simp_all add: sample_state_def cell_def select_cell_def store_cells_def)
  ultimately have "dart_explore rev copy_cfg copy_site (state_solver sample_state) dart_config_default Map.empty
      = Some (dart_result copy_cfg copy_site None ?pc ?phi Map.empty)"
    using dart_explore_finds by blast
  moreover have "iterates rev" by (simp add: iterates_def)
  ultimately show ?thesis
    using copy_never_fails state_solver_sound [OF sample_state_admissible]
    by (fastforce simp: dart_result_def)
qed

end
