(* ===== verification/Llvm.thy ===== *)
theory Llvm
  imports Cfg
begin

text \<open>
  The wrapper of the LLVM C interface (\<open>src/frontend/llvm_wrap.rs\<close>).  LLVM itself is not part of
  the repository: what its functions answer about a handle is the record \<open>llvm\<close>, an argument of
  every definition that reads the program, with a null pointer as \<open>None\<close>.  Handles are numbers;
  the wrapper compares and orders them by address.  The definitions are the methods the program
  graph, the pointer analysis and the lowering call.
\<close>

section \<open>Raw answers\<close>

type_synonym instruction = nat
type_synonym basic_block = nat
type_synonym ty = nat
type_synonym func = nat

datatype (plugins only: code) instruction_opcode =
    OpRet | OpBr | OpSwitch | OpIndirectBr | OpInvoke | OpResume | OpUnreachable | OpCleanupRet
  | OpCatchRet | OpCatchSwitch | OpCallBr | OpFNeg | OpAdd | OpFAdd | OpSub | OpFSub | OpMul | OpFMul
  | OpUDiv | OpSDiv | OpFDiv | OpURem | OpSRem | OpFRem | OpShl | OpLShr | OpAShr | OpAnd | OpOr | OpXor
  | OpAlloca | OpLoad | OpStore | OpGetElementPtr | OpFence | OpAtomicCmpXchg | OpAtomicRMW | OpTrunc
  | OpZExt | OpSExt | OpFPToUI | OpFPToSI | OpUIToFP | OpSIToFP | OpFPTrunc | OpFPExt | OpPtrToInt
  | OpIntToPtr | OpBitCast | OpAddrSpaceCast | OpICmp | OpFCmp | OpPHI | OpCall | OpSelect | OpUserOp1
  | OpUserOp2 | OpVAArg | OpExtractElement | OpInsertElement | OpShuffleVector | OpExtractValue
  | OpInsertValue | OpLandingPad | OpCleanupPad | OpCatchPad | OpFreeze | OpUnknown

datatype type_kind =
    KVoid | KInteger "32 word" | KHalf | KFloat | KDouble | KPointer | KFunction | KLabel | KArray | KStruct
  | KOther

datatype int_predicate = IntEQ | IntNE | IntUGT | IntUGE | IntULT | IntULE | IntSGT | IntSGE | IntSLT | IntSLE

datatype real_predicate =
    RealFalse | RealOEQ | RealOGT | RealOGE | RealOLT | RealOLE | RealONE | RealORD | RealUNO | RealUEQ
  | RealUGT | RealUGE | RealULT | RealULE | RealUNE | RealTrue

record llvm =
  raw_name :: "instruction \<Rightarrow> string option"
  raw_print :: "instruction \<Rightarrow> string option"
  raw_opcode :: "instruction \<Rightarrow> instruction_opcode"
  raw_type :: "instruction \<Rightarrow> ty option"
  raw_kind :: "ty \<Rightarrow> type_kind"
  raw_fields :: "ty \<Rightarrow> ty option list"
  raw_element :: "ty \<Rightarrow> ty option"
  raw_constant_int :: "instruction \<Rightarrow> i64 option"
  raw_is_global :: "instruction \<Rightarrow> bool"
  raw_is_branch :: "instruction \<Rightarrow> bool"
  raw_is_return :: "instruction \<Rightarrow> bool"
  raw_is_terminator :: "instruction \<Rightarrow> bool"
  raw_condition :: "instruction \<Rightarrow> instruction option"
  raw_operands :: "instruction \<Rightarrow> instruction option list"
  raw_called_value :: "instruction \<Rightarrow> instruction"
  raw_arguments :: "instruction \<Rightarrow> instruction option list"
  raw_incomings :: "instruction \<Rightarrow> (basic_block option \<times> instruction option) list"
  raw_successors :: "instruction \<Rightarrow> basic_block option list"
  raw_parent :: "instruction \<Rightarrow> basic_block option"
  raw_gep_type :: "instruction \<Rightarrow> ty option"
  raw_icmp :: "instruction \<Rightarrow> int_predicate"
  raw_fcmp :: "instruction \<Rightarrow> real_predicate"
  raw_debug_loc :: "instruction \<Rightarrow> source_location option"
  raw_instructions :: "basic_block \<Rightarrow> instruction list"
  raw_block_name :: "basic_block \<Rightarrow> string option"
  raw_blocks :: "func \<Rightarrow> basic_block list"
  raw_params :: "func \<Rightarrow> instruction option list"
  raw_function_name :: "func \<Rightarrow> string"
  raw_functions :: "func list"
  raw_data_layout :: string
  raw_scaled_real :: "instruction \<Rightarrow> i64 option"
  raw_initializer :: "instruction \<Rightarrow> instruction option"
  raw_is_array :: "instruction \<Rightarrow> bool"
  raw_is_data_array :: "instruction \<Rightarrow> bool"
  raw_elements :: "instruction \<Rightarrow> instruction list"
  raw_is_function :: "instruction \<Rightarrow> bool"
  raw_is_null :: "instruction \<Rightarrow> bool"
  raw_is_expression :: "instruction \<Rightarrow> bool"
  raw_expression_opcode :: "instruction \<Rightarrow> instruction_opcode"
  raw_offset_of :: "string \<Rightarrow> ty \<Rightarrow> 32 word \<Rightarrow> 64 word"
  raw_store_size :: "string \<Rightarrow> ty \<Rightarrow> 64 word"

text \<open>
  \<open>raw_scaled_real\<close> is the IEEE double of a constant times \<open>10 ^ 6\<close>, rounded to the nearest integer and
  saturated to 64 bits (\<open>round() as i64\<close>), for constants that are finite.  The last two depend on the
  data layout string.
\<close>

section \<open>Strings\<close>

text \<open>\<open>trim\<close>, \<open>split_once\<close>, \<open>split_whitespace\<close> and \<open>trim_matches\<close> of the standard library.\<close>

definition is_space :: "char \<Rightarrow> bool" where
  "is_space c \<longleftrightarrow> c \<in> {CHR '' '', CHR 0x09, CHR 0x0A, CHR 0x0B, CHR 0x0C, CHR 0x0D}"

definition trim_matches :: "(char \<Rightarrow> bool) \<Rightarrow> string \<Rightarrow> string" where
  "trim_matches p s = rev (dropWhile p (rev (dropWhile p s)))"

definition trim :: "string \<Rightarrow> string" where
  "trim s = trim_matches is_space s"

definition split_once :: "char \<Rightarrow> string \<Rightarrow> (string \<times> string) option" where
  "split_once c s = (case find_char c s of None \<Rightarrow> None | Some i \<Rightarrow> Some (take i s, drop (Suc i) s))"

fun split_words :: "string \<Rightarrow> string \<Rightarrow> string list" where
  "split_words word [] = (if word = [] then [] else [word])"
| "split_words word (c # s) =
     (if is_space c then (if word = [] then [] else [word]) @ split_words [] s else split_words (word @ [c]) s)"

definition split_whitespace :: "string \<Rightarrow> string list" where
  "split_whitespace s = split_words [] s"

definition i64_str :: "i64 \<Rightarrow> string" where
  "i64_str n = (if sint n < 0 then CHR ''-'' # nat_str (nat (- sint n)) else nat_str (nat (sint n)))"

section \<open>Types\<close>

definition get_element_type :: "llvm \<Rightarrow> ty \<Rightarrow> ty option" where
  "get_element_type l t = (if raw_kind l t = KArray \<or> raw_kind l t = KPointer then raw_element l t else None)"

definition get_struct_element_type_at :: "llvm \<Rightarrow> ty \<Rightarrow> 32 word \<Rightarrow> ty option" where
  "get_struct_element_type_at l t index =
     (if raw_kind l t \<noteq> KStruct then None
      else if length (raw_fields l t) \<le> unat index then None
      else raw_fields l t ! unat index)"

definition count_struct_fields :: "llvm \<Rightarrow> ty \<Rightarrow> nat" where
  "count_struct_fields l t = (if raw_kind l t \<noteq> KStruct then 0 else length (raw_fields l t))"

section \<open>Values\<close>

definition some_values :: "'a option list \<Rightarrow> 'a list" where
  "some_values xs = List.map_filter (\<lambda>x. x) xs"

definition print_value :: "llvm \<Rightarrow> instruction \<Rightarrow> string" where
  "print_value l i = (case raw_print l i of None \<Rightarrow> ''is null'' | Some s \<Rightarrow> s)"

definition get_assignment_var :: "llvm \<Rightarrow> instruction \<Rightarrow> string option" where
  "get_assignment_var l i = (case split_once (CHR '' '') (trim (print_value l i)) of
     Some (name, _) \<Rightarrow> if 0 < length name \<and> hd name = CHR ''%'' then Some (tl name) else None
   | None \<Rightarrow> None)"

definition get_name :: "llvm \<Rightarrow> instruction \<Rightarrow> string option" where
  "get_name l i = (case raw_name l i of None \<Rightarrow> None | Some s \<Rightarrow> if s = [] then None else Some s)"

definition has_sigil :: "string \<Rightarrow> bool" where
  "has_sigil s \<longleftrightarrow> starts_with ''%'' s \<or> starts_with ''@'' s"

definition print_based_name :: "llvm \<Rightarrow> instruction \<Rightarrow> string option" where
  "print_based_name l i = (let printed = print_value l i;
     tokens = map (trim_matches (\<lambda>ch. ch \<in> {CHR '','', CHR ''('', CHR '')''})) (split_whitespace printed) in
     case split_once (CHR ''='') printed of
       Some (lhs, _) \<Rightarrow> if has_sigil (trim lhs) then Some (trim lhs) else find has_sigil tokens
     | None \<Rightarrow> find has_sigil tokens)"

definition display_name :: "llvm \<Rightarrow> instruction \<Rightarrow> string" where
  "display_name l i = (case get_name l i of
     Some name \<Rightarrow> if has_sigil name then name else CHR ''%'' # name
   | None \<Rightarrow> (case raw_constant_int l i of
       Some n \<Rightarrow> i64_str n
     | None \<Rightarrow> (case print_based_name l i of Some name \<Rightarrow> name | None \<Rightarrow> print_value l i)))"

definition get_called_function :: "llvm \<Rightarrow> instruction \<Rightarrow> string option" where
  "get_called_function l i =
     (if raw_opcode l i \<noteq> OpCall then None else get_name l (raw_called_value l i))"

definition get_call_args :: "llvm \<Rightarrow> instruction \<Rightarrow> instruction list" where
  "get_call_args l i = (if raw_opcode l i \<noteq> OpCall then [] else some_values (raw_arguments l i))"

definition get_operand :: "llvm \<Rightarrow> instruction \<Rightarrow> nat \<Rightarrow> instruction option" where
  "get_operand l i index =
     (if length (raw_operands l i) \<le> index then None else raw_operands l i ! index)"

definition get_operands :: "llvm \<Rightarrow> instruction \<Rightarrow> instruction list" where
  "get_operands l i = List.map_filter (get_operand l i) [0..<length (raw_operands l i)]"

definition get_branch_condition :: "llvm \<Rightarrow> instruction \<Rightarrow> instruction option" where
  "get_branch_condition l i = (if \<not> raw_is_branch l i then None else raw_condition l i)"

definition get_icmp_predicate :: "llvm \<Rightarrow> instruction \<Rightarrow> string option" where
  "get_icmp_predicate l i = (if raw_opcode l i \<noteq> OpICmp then None else
     case raw_icmp l i of
       IntEQ \<Rightarrow> Some ''=='' | IntNE \<Rightarrow> Some ''!=''
     | IntUGT \<Rightarrow> Some ''>'' | IntSGT \<Rightarrow> Some ''>'' | IntUGE \<Rightarrow> Some ''>='' | IntSGE \<Rightarrow> Some ''>=''
     | IntULT \<Rightarrow> Some ''<'' | IntSLT \<Rightarrow> Some ''<'' | IntULE \<Rightarrow> Some ''<='' | IntSLE \<Rightarrow> Some ''<='')"

definition is_unsigned_icmp :: "llvm \<Rightarrow> instruction \<Rightarrow> bool" where
  "is_unsigned_icmp l i = (if raw_opcode l i \<noteq> OpICmp then False else
     raw_icmp l i \<in> {IntUGT, IntUGE, IntULT, IntULE})"

definition get_fcmp_predicate :: "llvm \<Rightarrow> instruction \<Rightarrow> string option" where
  "get_fcmp_predicate l i = (if raw_opcode l i \<noteq> OpFCmp then None else
     case raw_fcmp l i of
       RealOEQ \<Rightarrow> Some ''=='' | RealUEQ \<Rightarrow> Some ''=='' | RealONE \<Rightarrow> Some ''!='' | RealUNE \<Rightarrow> Some ''!=''
     | RealOGT \<Rightarrow> Some ''>'' | RealUGT \<Rightarrow> Some ''>'' | RealOGE \<Rightarrow> Some ''>='' | RealUGE \<Rightarrow> Some ''>=''
     | RealOLT \<Rightarrow> Some ''<'' | RealULT \<Rightarrow> Some ''<'' | RealOLE \<Rightarrow> Some ''<='' | RealULE \<Rightarrow> Some ''<=''
     | _ \<Rightarrow> None)"

definition get_successor_blocks :: "llvm \<Rightarrow> instruction \<Rightarrow> basic_block list" where
  "get_successor_blocks l i = (if \<not> raw_is_terminator l i then [] else some_values (raw_successors l i))"

definition get_phi_incomings :: "llvm \<Rightarrow> instruction \<Rightarrow> (basic_block \<times> instruction) list" where
  "get_phi_incomings l i = (if raw_opcode l i \<noteq> OpPHI then [] else
     List.map_filter (\<lambda>(block, val). case block of None \<Rightarrow> None
       | Some b \<Rightarrow> (case val of None \<Rightarrow> None | Some v \<Rightarrow> Some (b, v))) (raw_incomings l i))"

definition get_params :: "llvm \<Rightarrow> func \<Rightarrow> instruction list" where
  "get_params l f = some_values (raw_params l f)"

text \<open>The loop over the blocks and their instructions that collects the named \<open>alloca\<close>s.\<close>

definition collect_alloca_debug_names :: "llvm \<Rightarrow> func \<Rightarrow> (instruction \<rightharpoonup> string)" where
  "collect_alloca_debug_names l f =
     fold (\<lambda>b names. fold (\<lambda>i names.
         if raw_opcode l i = OpAlloca then
           (case get_name l i of None \<Rightarrow> names | Some name \<Rightarrow> names(i \<mapsto> name))
         else names) (raw_instructions l b) names)
       (raw_blocks l f) Map.empty"

section \<open>Constants\<close>

definition int_elements :: "llvm \<Rightarrow> instruction list \<Rightarrow> i64 list option" where
  "int_elements l elements =
     (let values = map (raw_constant_int l) elements in
      if None \<in> set values \<or> values = [] then None else Some (map the values))"

definition constant_int_elements_inner :: "llvm \<Rightarrow> instruction \<Rightarrow> i64 list option" where
  "constant_int_elements_inner l i =
     (if raw_is_global l i then
        (case raw_initializer l i of None \<Rightarrow> None | Some init \<Rightarrow> int_elements l (raw_elements l init))
      else if raw_is_array l i \<or> raw_is_data_array l i then int_elements l (raw_elements l i)
      else None)"

definition constant_int_elements :: "llvm \<Rightarrow> instruction \<Rightarrow> i64 list option" where
  "constant_int_elements l i = (case constant_int_elements_inner l i of
     Some values \<Rightarrow> Some values
   | None \<Rightarrow> (case get_operand l i 0 of None \<Rightarrow> None | Some op \<Rightarrow> constant_int_elements_inner l op))"

text \<open>The sum of the indices: a null or non-constant one gives up, the addition can overflow.\<close>

fun sum_indices :: "bool \<Rightarrow> llvm \<Rightarrow> i64 \<Rightarrow> instruction option list \<Rightarrow> i64 option outcome" where
  "sum_indices oc l acc [] = Returns (Some acc)"
| "sum_indices oc l acc (idx # rest) =
     (case idx of
        None \<Rightarrow> Returns None
      | Some idx \<Rightarrow> (case raw_constant_int l idx of
          None \<Rightarrow> Returns None
        | Some n \<Rightarrow> obind (i64_add oc acc n) (\<lambda>acc. sum_indices oc l acc rest)))"

definition as_const_gep_of_global :: "bool \<Rightarrow> llvm \<Rightarrow> instruction \<Rightarrow> (string \<times> i64) option outcome" where
  "as_const_gep_of_global oc l i =
     (if \<not> raw_is_expression l i \<or> raw_expression_opcode l i \<noteq> OpGetElementPtr then Returns None
      else case get_operand l i 0 of
        None \<Rightarrow> Returns None
      | Some base \<Rightarrow>
          if \<not> raw_is_global l base then Returns None
          else (case get_name l base of
              None \<Rightarrow> Returns None
            | Some global_name \<Rightarrow> obind (sum_indices oc l 0 (tl (raw_operands l i))) (\<lambda>sum.
                Returns (map_option (Pair global_name) sum))))"

definition fn_ptr_entry :: "llvm \<Rightarrow> instruction \<Rightarrow> string option" where
  "fn_ptr_entry l elem =
     (if raw_is_function l elem then get_name l elem
      else if raw_is_null l elem then None
      else if raw_is_expression l elem then
        (case get_operand l elem 0 of
           None \<Rightarrow> None
         | Some inner \<Rightarrow> if raw_is_function l inner then get_name l inner else None)
      else None)"

definition constant_fn_ptr_elements_inner :: "llvm \<Rightarrow> instruction \<Rightarrow> string option list option" where
  "constant_fn_ptr_elements_inner l i =
     (let entries = (\<lambda>arr. let out = map (fn_ptr_entry l) (raw_elements l arr) in
            if out = [] then None else Some out) in
      if raw_is_global l i then
        (case raw_initializer l i of
           None \<Rightarrow> None
         | Some init \<Rightarrow>
             if raw_is_array l init then entries init
             else (case raw_elements l init of
                 [] \<Rightarrow> None
               | field0 # _ \<Rightarrow> if raw_is_array l field0 then entries field0 else None))
      else if raw_is_array l i then entries i
      else None)"

definition constant_fn_ptr_elements :: "llvm \<Rightarrow> instruction \<Rightarrow> string option list option" where
  "constant_fn_ptr_elements l i = (case constant_fn_ptr_elements_inner l i of
     Some entries \<Rightarrow> Some entries
   | None \<Rightarrow> (case get_operand l i 0 of None \<Rightarrow> None | Some op \<Rightarrow> constant_fn_ptr_elements_inner l op))"

end
