(* ===== verification/Program_Graph.thy ===== *)
theory Program_Graph
  imports Llvm
begin

text \<open>
  The instruction-level graph of a function (\<open>src/frontend/program_graph.rs\<close>) and the errors of
  the frontend (\<open>src/frontend/errors.rs\<close>).  Calls to the sentinels and to the noise functions are
  left out of the graph; the sentinel calls are recorded as assertion and assumption sites.
  A \<open>BTreeSet\<close> of instructions is a set; \<open>hash_order\<close> is the iteration order of the map from
  blocks to their visible instructions.
\<close>

section \<open>Data\<close>

datatype prog_error =
    GraphError instruction string | NoDefinitionForGraph string | IOError string | ParseError string

record graph_node =
  gn_predecessors :: "instruction set"
  gn_instr :: instruction
  gn_successors :: "instruction set"

record assert_site =
  asserted_value :: instruction
  assert_predecessor :: "instruction option"
  assert_successor :: "instruction option"
  assert_source_location :: source_location
  is_unconditional_fail :: bool

record assume_site =
  assumed_value :: instruction
  assume_predecessor :: "instruction option"
  assume_successor :: "instruction option"
  assume_source_location :: source_location
  is_type_bound :: bool

record function_graph =
  graph_name :: string
  graph_params :: "string list"
  pointer_param_indices :: "nat list"
  vertices :: "instruction list"
  graph_edges :: "(instruction, graph_node) btree"
  graph_start :: "instruction option"
  graph_end :: "instruction list"
  graph_vars :: "(string, instruction) btree"
  asserts :: "assert_site list"
  assumes_of :: "assume_site list"
  data_layout_str :: string
  debug_names :: "instruction \<rightharpoonup> string"

section \<open>Sentinels\<close>

definition noise_calls :: "string list" where
  "noise_calls = [''printf'', ''putchar'']"

definition is_may_assert_call :: "llvm \<Rightarrow> instruction \<Rightarrow> bool" where
  "is_may_assert_call l i \<longleftrightarrow> get_called_function l i = Some ''may_assert''"

definition is_may_assume_call :: "llvm \<Rightarrow> instruction \<Rightarrow> bool" where
  "is_may_assume_call l i \<longleftrightarrow> get_called_function l i = Some ''may_assume''"

definition is_may_type_bound_call :: "llvm \<Rightarrow> instruction \<Rightarrow> bool" where
  "is_may_type_bound_call l i \<longleftrightarrow> get_called_function l i = Some ''may_type_bound''"

definition is_unconditional_fail_call :: "llvm \<Rightarrow> instruction \<Rightarrow> bool" where
  "is_unconditional_fail_call l i \<longleftrightarrow>
     get_called_function l i \<in> {Some ''reach_error'', Some ''__assert_fail'', Some ''__VERIFIER_error''}"

definition is_noise_call :: "llvm \<Rightarrow> instruction \<Rightarrow> bool" where
  "is_noise_call l i \<longleftrightarrow> (case get_called_function l i of
     None \<Rightarrow> False | Some callee \<Rightarrow> list_ex (\<lambda>noise. noise = callee) noise_calls)"

definition should_skip_instruction :: "llvm \<Rightarrow> instruction \<Rightarrow> bool" where
  "should_skip_instruction l i \<longleftrightarrow> is_may_assert_call l i \<or> is_may_assume_call l i
     \<or> is_may_type_bound_call l i \<or> is_unconditional_fail_call l i \<or> is_noise_call l i"

definition previous_visible_instruction :: "llvm \<Rightarrow> instruction list \<Rightarrow> nat \<Rightarrow> instruction option" where
  "previous_visible_instruction l instructions index =
     find (\<lambda>i. \<not> should_skip_instruction l i) (rev (take index instructions))"

definition next_visible_instruction :: "llvm \<Rightarrow> instruction list \<Rightarrow> nat \<Rightarrow> instruction option" where
  "next_visible_instruction l instructions index =
     find (\<lambda>i. \<not> should_skip_instruction l i) (drop (Suc index) instructions)"

section \<open>Vertices and edges\<close>

definition add_instruction :: "instruction \<Rightarrow> function_graph \<Rightarrow> function_graph" where
  "add_instruction i g = (if i \<in> set (vertices g) then g else
     g\<lparr>vertices := vertices g @ [i],
       graph_edges := bt_insert i \<lparr>gn_predecessors = {}, gn_instr = i, gn_successors = {}\<rparr> (graph_edges g)\<rparr>)"

definition graph_add_edge ::
  "instruction \<Rightarrow> instruction \<Rightarrow> function_graph \<Rightarrow> prog_error + function_graph" where
  "graph_add_edge from_i to_i g =
     (let g = add_instruction to_i (add_instruction from_i g) in
      case bt_get (graph_edges g) from_i of
        None \<Rightarrow> Inl (GraphError from_i ''missing source while adding successor'')
      | Some source \<Rightarrow>
          let g = g\<lparr>graph_edges := bt_insert from_i
            (source\<lparr>gn_successors := insert to_i (gn_successors source)\<rparr>) (graph_edges g)\<rparr> in
          (case bt_get (graph_edges g) to_i of
             None \<Rightarrow> Inl (GraphError to_i ''missing target while adding predecessor'')
           | Some target \<Rightarrow> Inr (g\<lparr>graph_edges := bt_insert to_i
               (target\<lparr>gn_predecessors := insert from_i (gn_predecessors target)\<rparr>) (graph_edges g)\<rparr>)))"

section \<open>Construction\<close>

definition first_argument :: "llvm \<Rightarrow> instruction \<Rightarrow> instruction" where
  "first_argument l i = (case get_call_args l i of [] \<Rightarrow> i | a # _ \<Rightarrow> a)"

definition debug_location_or_default :: "llvm \<Rightarrow> instruction \<Rightarrow> source_location" where
  "debug_location_or_default l i = (case raw_debug_loc l i of
     None \<Rightarrow> source_location_new [] 0 0 | Some loc \<Rightarrow> loc)"

definition assert_at :: "llvm \<Rightarrow> instruction list \<Rightarrow> nat \<Rightarrow> instruction \<Rightarrow> bool \<Rightarrow> assert_site" where
  "assert_at l instructions index val fail =
     \<lparr>asserted_value = val, assert_predecessor = previous_visible_instruction l instructions index,
      assert_successor = next_visible_instruction l instructions index,
      assert_source_location = debug_location_or_default l (instructions ! index),
      is_unconditional_fail = fail\<rparr>"

definition record_sites :: "llvm \<Rightarrow> instruction list \<Rightarrow> nat \<Rightarrow> function_graph \<Rightarrow> function_graph" where
  "record_sites l instructions index g =
     (let i = instructions ! index;
          g = (if is_may_assert_call l i
               then g\<lparr>asserts := asserts g @ [assert_at l instructions index (first_argument l i) False]\<rparr> else g);
          g = (if is_unconditional_fail_call l i
               then g\<lparr>asserts := asserts g @ [assert_at l instructions index i True]\<rparr> else g) in
      if is_may_assume_call l i \<or> is_may_type_bound_call l i
      then g\<lparr>assumes_of := assumes_of g @
        [\<lparr>assumed_value = first_argument l i,
          assume_predecessor = previous_visible_instruction l instructions index,
          assume_successor = next_visible_instruction l instructions index,
          assume_source_location = debug_location_or_default l i,
          is_type_bound = is_may_type_bound_call l i\<rparr>]\<rparr>
      else g)"

definition visible_of :: "llvm \<Rightarrow> basic_block \<Rightarrow> instruction list" where
  "visible_of l b = filter (\<lambda>i. \<not> should_skip_instruction l i) (raw_instructions l b)"

definition add_visible :: "llvm \<Rightarrow> instruction \<Rightarrow> function_graph \<Rightarrow> function_graph" where
  "add_visible l i g =
     (let g = (case get_assignment_var l i of
                 None \<Rightarrow> g | Some name \<Rightarrow> g\<lparr>graph_vars := bt_insert name i (graph_vars g)\<rparr>);
          g = (if raw_is_return l i then g\<lparr>graph_end := graph_end g @ [i]\<rparr> else g) in
      add_instruction i g)"

definition block_pass ::
  "llvm \<Rightarrow> basic_block \<Rightarrow> function_graph \<times> (basic_block, instruction list) btree
    \<Rightarrow> function_graph \<times> (basic_block, instruction list) btree" where
  "block_pass l b = (\<lambda>(g, visible_by_block).
     let instructions = raw_instructions l b in
     if instructions = [] then (g, bt_insert b [] visible_by_block)
     else
       let g = fold (record_sites l instructions) [0..<length instructions] g;
           visible = visible_of l b;
           g = (if graph_start g = None
                then g\<lparr>graph_start := (case visible of [] \<Rightarrow> None | i # _ \<Rightarrow> Some i)\<rparr> else g);
           g = fold (add_visible l) visible g in
       (g, bt_insert b visible visible_by_block))"

definition windows :: "'a list \<Rightarrow> ('a \<times> 'a) list" where
  "windows xs = zip xs (tl xs)"

definition link_pairs :: "(instruction \<times> instruction) list \<Rightarrow> function_graph \<Rightarrow> prog_error + function_graph"
where
  "link_pairs ps g = rfold (\<lambda>(u, v). graph_add_edge u v) ps g"

definition link_block ::
  "llvm \<Rightarrow> (basic_block, instruction list) btree \<Rightarrow> basic_block \<Rightarrow> function_graph \<Rightarrow> prog_error + function_graph"
where
  "link_block l visible_by_block b g = (case bt_get visible_by_block b of
     None \<Rightarrow> Inr g
   | Some visible \<Rightarrow>
       if visible = [] then Inr g
       else let terminator = last visible in
         if \<not> raw_is_terminator l terminator then Inr g
         else rfold (\<lambda>s g. case bt_get visible_by_block s of
                None \<Rightarrow> Inr g
              | Some [] \<Rightarrow> Inr g
              | Some (first # _) \<Rightarrow> graph_add_edge terminator first g)
              (get_successor_blocks l terminator) g)"

definition empty_graph :: "llvm \<Rightarrow> func \<Rightarrow> string \<Rightarrow> function_graph" where
  "empty_graph l f layout = (let params = get_params l f in
     \<lparr>graph_name = raw_function_name l f,
      graph_params = map (display_name l) params,
      pointer_param_indices = filter (\<lambda>i.
        map_option (raw_kind l) (raw_type l (params ! i)) = Some KPointer) [0..<length params],
      vertices = [], graph_edges = [], graph_start = None, graph_end = [], graph_vars = [],
      asserts = [], assumes_of = [], data_layout_str = layout,
      debug_names = collect_alloca_debug_names l f\<rparr>)"

definition function_graph_new ::
  "(basic_block list \<Rightarrow> basic_block list) \<Rightarrow> llvm \<Rightarrow> func \<Rightarrow> string \<Rightarrow> prog_error + function_graph" where
  "function_graph_new hash_order l f layout =
     (if length (raw_blocks l f) = 0 then Inl (NoDefinitionForGraph (raw_function_name l f))
      else
        let (g, visible_by_block) = fold (block_pass l) (raw_blocks l f) (empty_graph l f layout, []) in
        rbind (rfold (\<lambda>b. link_pairs (windows (the (bt_get visible_by_block b))))
            (hash_order (bt_keys visible_by_block)) g)
          (rfold (link_block l visible_by_block) (raw_blocks l f)))"

fun program_graphs ::
  "(basic_block list \<Rightarrow> basic_block list) \<Rightarrow> llvm \<Rightarrow> string \<Rightarrow> func list \<Rightarrow> prog_error + function_graph list" where
  "program_graphs hash_order l layout [] = Inr []"
| "program_graphs hash_order l layout (f # fs) =
     (case function_graph_new hash_order l f layout of
        Inr g \<Rightarrow> rbind (program_graphs hash_order l layout fs) (\<lambda>gs. Inr (g # gs))
      | Inl (NoDefinitionForGraph _) \<Rightarrow> program_graphs hash_order l layout fs
      | Inl e \<Rightarrow> Inl e)"

definition generate_program_graph ::
  "(basic_block list \<Rightarrow> basic_block list) \<Rightarrow> llvm \<Rightarrow> prog_error + function_graph list" where
  "generate_program_graph hash_order l = program_graphs hash_order l (raw_data_layout l) (raw_functions l)"

end
