(* ===== verification/Program_Graph_Correct.thy ===== *)
theory Program_Graph_Correct
  imports Program_Graph
begin

text \<open>
  The instruction graph: its vertices are the visible instructions, its two adjacency views are
  one relation, the control flow between visible instructions, whatever the iteration order of
  the block map, and building it fails only for a declaration.
\<close>

section \<open>Adjacency\<close>

definition arcs :: "function_graph \<Rightarrow> (instruction \<times> instruction) set" where
  "arcs g = {(u, v). \<exists>n. bt_get (graph_edges g) u = Some n \<and> v \<in> gn_successors n}"

definition back_arcs :: "function_graph \<Rightarrow> (instruction \<times> instruction) set" where
  "back_arcs g = {(u, v). \<exists>n. bt_get (graph_edges g) v = Some n \<and> u \<in> gn_predecessors n}"

definition graph_wf :: "function_graph \<Rightarrow> bool" where
  "graph_wf g \<longleftrightarrow> bt_wf (graph_edges g) \<and> distinct (vertices g) \<and>
     set (bt_keys (graph_edges g)) = set (vertices g) \<and>
     (\<forall>i n. bt_get (graph_edges g) i = Some n \<longrightarrow> gn_instr n = i)"

text \<open>\<open>grown E g h\<close>: \<open>h\<close> is \<open>g\<close> with the edges \<open>E\<close> and their endpoints.\<close>

definition grown :: "(instruction \<times> instruction) set \<Rightarrow> function_graph \<Rightarrow> function_graph \<Rightarrow> bool" where
  "grown E g h \<longleftrightarrow> graph_wf h \<and> arcs h = arcs g \<union> E \<and> back_arcs h = back_arcs g \<union> E \<and>
     set (vertices h) = set (vertices g) \<union> fst ` E \<union> snd ` E \<and>
     (fst ` E \<union> snd ` E \<subseteq> set (vertices g) \<longrightarrow> vertices h = vertices g) \<and>
     h = g\<lparr>vertices := vertices h, graph_edges := graph_edges h\<rparr>"

lemma grown_refl: "graph_wf g \<Longrightarrow> grown {} g g"
  by (simp add: grown_def)

lemma grown_trans:
  assumes "grown E g h" "grown F h k"
  shows "grown (E \<union> F) g k"
proof -
  have h: "h = g\<lparr>vertices := vertices h, graph_edges := graph_edges h\<rparr>"
    and k: "k = h\<lparr>vertices := vertices k, graph_edges := graph_edges k\<rparr>"
    using assms by (simp_all add: grown_def)
  have "k = g\<lparr>vertices := vertices k, graph_edges := graph_edges k\<rparr>"
    by (subst k, subst h) simp
  moreover have "vertices k = vertices g" if "fst ` (E \<union> F) \<union> snd ` (E \<union> F) \<subseteq> set (vertices g)"
    using that assms unfolding grown_def by (metis (no_types, lifting) Un_subset_iff image_Un)
  moreover have "graph_wf k" "arcs k = arcs g \<union> (E \<union> F)" "back_arcs k = back_arcs g \<union> (E \<union> F)"
    "set (vertices k) = set (vertices g) \<union> fst ` (E \<union> F) \<union> snd ` (E \<union> F)"
    using assms unfolding grown_def by (simp_all only: image_Un) (simp_all add: Un_ac)
  ultimately show ?thesis unfolding grown_def by blast
qed

lemma rfold_grown:
  assumes "graph_wf g" "\<And>x g. x \<in> set xs \<Longrightarrow> graph_wf g \<Longrightarrow> \<exists>h. f x g = Inr h \<and> grown (E x) g h"
  shows "\<exists>h. rfold f xs g = Inr h \<and> grown (\<Union>x \<in> set xs. E x) g h"
  using assms
proof (induction xs arbitrary: g)
  case (Cons x xs)
  obtain h where h: "f x g = Inr h" "grown (E x) g h" using Cons.prems by (metis list.set_intros(1))
  then have "graph_wf h" by (simp add: grown_def)
  then obtain k where "rfold f xs h = Inr k" "grown (\<Union>x \<in> set xs. E x) h k"
    using Cons.IH [of h] Cons.prems(2) by (metis list.set_intros(2))
  with h grown_trans [OF h(2)] show ?case by auto
qed (simp add: grown_refl)

lemma graph_wf_vertex: "graph_wf g \<Longrightarrow> i \<in> set (vertices g) \<longleftrightarrow> (\<exists>n. bt_get (graph_edges g) i = Some n)"
  unfolding graph_wf_def by (metis bt_keys_iff)

lemma add_instruction_grown:
  assumes "graph_wf g"
  shows "graph_wf (add_instruction i g)" "set (vertices (add_instruction i g)) = insert i (set (vertices g))"
    "arcs (add_instruction i g) = arcs g" "back_arcs (add_instruction i g) = back_arcs g"
    "vertices (add_instruction i g) = push_new (vertices g) i"
    "add_instruction i g = g\<lparr>vertices := vertices (add_instruction i g), graph_edges := graph_edges (add_instruction i g)\<rparr>"
proof -
  have new: "bt_get (graph_edges g) i = None" if "i \<notin> set (vertices g)"
    using that graph_wf_vertex [OF assms] by (metis option.exhaust)
  show "arcs (add_instruction i g) = arcs g" "back_arcs (add_instruction i g) = back_arcs g"
    using new by (auto simp: arcs_def back_arcs_def add_instruction_def bt_get_insert split: if_splits)
  show "graph_wf (add_instruction i g)"
    using assms unfolding graph_wf_def
    by (auto simp: add_instruction_def bt_wf_insert bt_get_insert bt.keys_insert)
qed (auto simp: add_instruction_def push_new_def)

lemma add_edge_grown:
  assumes "graph_wf g"
  shows "\<exists>h. graph_add_edge u v g = Inr h \<and> grown {(u, v)} g h"
proof -
  define a where "a = add_instruction v (add_instruction u g)"
  note one = add_instruction_grown [OF assms, of u]
  note two = add_instruction_grown [OF one(1), of v, folded a_def]
  have wf: "graph_wf a" by (rule two(1))
  obtain s where s: "bt_get (graph_edges a) u = Some s"
    using two(2) one(2) graph_wf_vertex [OF wf, of u] by auto
  define b where "b = a\<lparr>graph_edges := bt_insert u (s\<lparr>gn_successors := insert v (gn_successors s)\<rparr>) (graph_edges a)\<rparr>"
  have "v \<in> set (vertices a)" using two(2) by simp
  then obtain n where "bt_get (graph_edges a) v = Some n" using graph_wf_vertex [OF wf] by blast
  then have "\<exists>t. bt_get (graph_edges b) v = Some t" by (simp add: b_def bt_get_insert)
  then obtain t where t: "bt_get (graph_edges b) v = Some t" ..
  define h where "h = b\<lparr>graph_edges := bt_insert v (t\<lparr>gn_predecessors := insert u (gn_predecessors t)\<rparr>) (graph_edges b)\<rparr>"
  have h: "graph_add_edge u v g = Inr h"
    using s t by (simp add: graph_add_edge_def Let_def flip: a_def b_def h_def)
  have get: "bt_get (graph_edges h) i = (case bt_get (graph_edges a) i of None \<Rightarrow> None | Some n \<Rightarrow>
      Some (n\<lparr>gn_successors := (if i = u then insert v (gn_successors n) else gn_successors n),
        gn_predecessors := (if i = v then insert u (gn_predecessors n) else gn_predecessors n)\<rparr>))" for i
    using s t by (auto simp: h_def b_def bt_get_insert split: if_splits option.splits)
  have "arcs h = arcs a \<union> {(u, v)}" "back_arcs h = back_arcs a \<union> {(u, v)}"
    using s t by (auto simp: arcs_def back_arcs_def get b_def bt_get_insert split: option.splits if_splits)
  moreover have "graph_wf h"
  proof -
    have ukey: "u \<in> set (bt_keys (graph_edges a))" "v \<in> set (bt_keys (graph_edges a))"
      using s t by (auto simp: bt_keys_iff b_def bt_get_insert split: if_splits)
    show ?thesis using wf ukey unfolding graph_wf_def
      by (auto simp: get split: option.splits)
        (auto simp: h_def b_def bt_wf_insert bt.keys_insert)
  qed
  moreover have va: "vertices h = vertices a" by (simp add: h_def b_def)
  moreover have "h = g\<lparr>vertices := vertices h, graph_edges := graph_edges h\<rparr>"
  proof -
    have "h = a\<lparr>graph_edges := graph_edges h\<rparr>" by (simp add: h_def b_def)
    also have "a = g\<lparr>vertices := vertices a, graph_edges := graph_edges a\<rparr>"
      by (subst two(6), subst one(6)) simp
    finally show ?thesis using va by simp
  qed
  ultimately show ?thesis using h one two unfolding grown_def by (auto simp: push_new_def)
qed

section \<open>The pass over the blocks\<close>

definition asserts_at :: "llvm \<Rightarrow> instruction list \<Rightarrow> nat \<Rightarrow> assert_site list" where
  "asserts_at l is k =
     (if is_may_assert_call l (is ! k) then [assert_at l is k (first_argument l (is ! k)) False] else []) @
     (if is_unconditional_fail_call l (is ! k) then [assert_at l is k (is ! k) True] else [])"

definition assumes_at :: "llvm \<Rightarrow> instruction list \<Rightarrow> nat \<Rightarrow> assume_site list" where
  "assumes_at l is k =
     (if is_may_assume_call l (is ! k) \<or> is_may_type_bound_call l (is ! k)
      then [\<lparr>assumed_value = first_argument l (is ! k),
        assume_predecessor = previous_visible_instruction l is k,
        assume_successor = next_visible_instruction l is k,
        assume_source_location = debug_location_or_default l (is ! k),
        is_type_bound = is_may_type_bound_call l (is ! k)\<rparr>] else [])"

definition block_asserts :: "llvm \<Rightarrow> basic_block \<Rightarrow> assert_site list" where
  "block_asserts l b = concat (map (asserts_at l (raw_instructions l b)) [0..<length (raw_instructions l b)])"

definition block_assumes :: "llvm \<Rightarrow> basic_block \<Rightarrow> assume_site list" where
  "block_assumes l b = concat (map (assumes_at l (raw_instructions l b)) [0..<length (raw_instructions l b)])"

definition first_of :: "'a list \<Rightarrow> 'a option" where
  "first_of xs = (case xs of [] \<Rightarrow> None | x # _ \<Rightarrow> Some x)"

lemma first_of_simps [simp]: "first_of [] = None" "first_of (x # xs) = Some x"
  by (simp_all add: first_of_def)

lemma record_sites_fold:
  "fold (record_sites l is) ks g = g\<lparr>asserts := asserts g @ concat (map (asserts_at l is) ks),
     assumes_of := assumes_of g @ concat (map (assumes_at l is) ks)\<rparr>"
  by (induction ks arbitrary: g) (simp_all add: record_sites_def asserts_at_def assumes_at_def Let_def)

text \<open>What a pass that adds the instructions \<open>is\<close> leaves of the graph.\<close>

definition passed :: "llvm \<Rightarrow> instruction list \<Rightarrow> function_graph \<Rightarrow> function_graph \<Rightarrow> bool" where
  "passed l is g h \<longleftrightarrow> graph_wf h \<and> vertices h = foldl push_new (vertices g) is \<and> arcs h = arcs g \<and>
     back_arcs h = back_arcs g \<and> graph_end h = graph_end g @ filter (raw_is_return l) is"

lemma add_visible_fold:
  assumes "graph_wf g"
  shows "passed l is g (fold (add_visible l) is g) \<and> asserts (fold (add_visible l) is g) = asserts g \<and>
    assumes_of (fold (add_visible l) is g) = assumes_of g \<and>
    graph_start (fold (add_visible l) is g) = graph_start g \<and> graph_name (fold (add_visible l) is g) = graph_name g"
  using assms
proof (induction "is" arbitrary: g)
  case (Cons i "is")
  define u where "u = (case get_assignment_var l i of
    None \<Rightarrow> g | Some name \<Rightarrow> g\<lparr>graph_vars := bt_insert name i (graph_vars g)\<rparr>)"
  define w where "w = (if raw_is_return l i then u\<lparr>graph_end := graph_end u @ [i]\<rparr> else u)"
  have w: "vertices w = vertices g" "graph_edges w = graph_edges g" "asserts w = asserts g"
    "assumes_of w = assumes_of g" "graph_start w = graph_start g" "graph_name w = graph_name g"
    "graph_end w = graph_end g @ filter (raw_is_return l) [i]"
    by (simp_all add: w_def u_def split: option.split)
  have wf: "graph_wf w" using Cons.prems w(1,2) by (simp add: graph_wf_def)
  note a = add_instruction_grown [OF wf, of i]
  have sel: "asserts (add_instruction i w) = asserts g" "assumes_of (add_instruction i w) = assumes_of g"
    "graph_start (add_instruction i w) = graph_start g" "graph_name (add_instruction i w) = graph_name g"
    "graph_end (add_instruction i w) = graph_end g @ filter (raw_is_return l) [i]"
    using w(3-) by (simp_all add: add_instruction_def)
  have arcs: "arcs w = arcs g" "back_arcs w = back_arcs g" by (simp_all add: arcs_def back_arcs_def w(2))
  have "add_visible l i g = add_instruction i w" by (simp add: add_visible_def Let_def w_def u_def)
  then show ?case
    using Cons.IH [OF a(1)] a(3-5) sel arcs w(1) by (simp add: passed_def)
qed (simp add: passed_def)

lemma passed_trans: "passed l xs g h \<Longrightarrow> passed l ys h k \<Longrightarrow> passed l (xs @ ys) g k"
  by (simp add: passed_def)

lemma blocks_fold:
  fixes l :: llvm and bs :: "basic_block list"
  assumes "graph_wf g" "bt_wf V"
  defines "r \<equiv> fold (block_pass l) bs (g, V)"
  shows "passed l (concat (map (visible_of l) bs)) g (fst r)
    \<and> asserts (fst r) = asserts g @ concat (map (block_asserts l) bs)
    \<and> assumes_of (fst r) = assumes_of g @ concat (map (block_assumes l) bs)
    \<and> graph_start (fst r) = (if graph_start g = None then first_of (concat (map (visible_of l) bs)) else graph_start g)
    \<and> graph_name (fst r) = graph_name g
    \<and> bt_wf (snd r)
    \<and> (\<forall>b. bt_get (snd r) b = (if b \<in> set bs then Some (visible_of l b) else bt_get V b))"
  using assms(1,2) unfolding r_def
proof (induction bs arbitrary: g V)
  case (Cons b bs)
  define u where "u = fold (record_sites l (raw_instructions l b)) [0..<length (raw_instructions l b)] g"
  define w where "w = (if graph_start u = None then u\<lparr>graph_start := first_of (visible_of l b)\<rparr> else u)"
  define h where "h = (if raw_instructions l b = [] then g else fold (add_visible l) (visible_of l b) w)"
  have w: "vertices w = vertices g" "graph_edges w = graph_edges g" "graph_end w = graph_end g"
    "graph_name w = graph_name g" "asserts w = asserts g @ block_asserts l b"
    "assumes_of w = assumes_of g @ block_assumes l b"
    "graph_start w = (if graph_start g = None then first_of (visible_of l b) else graph_start g)"
    by (simp_all add: w_def u_def record_sites_fold block_asserts_def block_assumes_def)
  have wf: "graph_wf w" using Cons.prems(1) w(1,2) by (simp add: graph_wf_def)
  have arcs: "arcs w = arcs g" "back_arcs w = back_arcs g" by (simp_all add: arcs_def back_arcs_def w(2))
  have none: "visible_of l b = []" "block_asserts l b = []" "block_assumes l b = []"
    if "raw_instructions l b = []"
    using that by (simp_all add: visible_of_def block_asserts_def block_assumes_def)
  have h: "passed l (visible_of l b) g h" "asserts h = asserts g @ block_asserts l b"
    "assumes_of h = assumes_of g @ block_assumes l b" "graph_name h = graph_name g"
    "graph_start h = (if graph_start g = None then first_of (visible_of l b) else graph_start g)"
    using add_visible_fold [OF wf, of l "visible_of l b"] w arcs none Cons.prems(1)
    by (auto simp: h_def passed_def)
  have step: "block_pass l b (g, V) = (h, bt_insert b (visible_of l b) V)"
    by (simp add: block_pass_def h_def w_def u_def Let_def none first_of_def)
  have "graph_wf h" using h(1) by (simp add: passed_def)
  note IH = Cons.IH [OF this bt_wf_insert [OF Cons.prems(2), of b "visible_of l b"]]
  show ?case
    using IH h(2-5) passed_trans [OF h(1)] step
    by (cases "visible_of l b") (auto simp: bt_get_insert)
qed (simp add: passed_def)

section \<open>The edges\<close>

text \<open>The control flow between visible instructions: inside a block, and from its terminator.\<close>

definition inside_block :: "llvm \<Rightarrow> basic_block \<Rightarrow> (instruction \<times> instruction) set" where
  "inside_block l b = set (windows (visible_of l b))"

definition out_of_block :: "llvm \<Rightarrow> basic_block set \<Rightarrow> basic_block \<Rightarrow> (instruction \<times> instruction) set" where
  "out_of_block l bs b = {(u, v). visible_of l b \<noteq> [] \<and> u = last (visible_of l b) \<and> raw_is_terminator l u \<and>
     (\<exists>s \<in> set (get_successor_blocks l u) \<inter> bs. visible_of l s \<noteq> [] \<and> v = hd (visible_of l s))}"

definition control_flow :: "llvm \<Rightarrow> func \<Rightarrow> (instruction \<times> instruction) set" where
  "control_flow l f = (\<Union>b \<in> set (raw_blocks l f). inside_block l b \<union> out_of_block l (set (raw_blocks l f)) b)"

lemma link_pairs_grown:
  assumes "graph_wf g"
  shows "\<exists>h. link_pairs ps g = Inr h \<and> grown (set ps) g h"
proof -
  have "\<exists>h. rfold (\<lambda>(u, v). graph_add_edge u v) ps g = Inr h \<and> grown (\<Union>x \<in> set ps. {x}) g h"
    using add_edge_grown by (intro rfold_grown assms) auto
  then show ?thesis by (simp add: link_pairs_def)
qed

lemma link_block_grown:
  assumes "graph_wf g" "\<And>s. bt_get V s = (if s \<in> bs then Some (visible_of l s) else None)" "b \<in> bs"
  shows "\<exists>h. link_block l V b g = Inr h \<and> grown (out_of_block l bs b) g h"
proof (cases "visible_of l b = [] \<or> \<not> raw_is_terminator l (last (visible_of l b))")
  case True
  then have "link_block l V b g = Inr g" "out_of_block l bs b = {}"
    using assms(2,3) by (auto simp: link_block_def out_of_block_def Let_def)
  then show ?thesis using grown_refl [OF assms(1)] by simp
next
  case False
  let ?t = "last (visible_of l b)"
  let ?f = "\<lambda>s g. case bt_get V s of None \<Rightarrow> Inr g | Some [] \<Rightarrow> Inr g
    | Some (first # _) \<Rightarrow> graph_add_edge ?t first g"
  let ?E = "\<lambda>s. if s \<in> bs \<and> visible_of l s \<noteq> [] then {(?t, hd (visible_of l s))} else {}"
  have "\<exists>h. ?f s g = Inr h \<and> grown (?E s) g h" if "graph_wf g" for s g
    using grown_refl [OF that] add_edge_grown [OF that] assms(2) [of s] by (auto split: list.split)
  then have "\<exists>h. rfold ?f (get_successor_blocks l ?t) g = Inr h \<and>
      grown (\<Union>s \<in> set (get_successor_blocks l ?t). ?E s) g h"
    by (intro rfold_grown assms(1)) auto
  moreover have "(\<Union>s \<in> set (get_successor_blocks l ?t). ?E s) = out_of_block l bs b"
    using False by (auto simp: out_of_block_def split: if_splits)
  moreover have "link_block l V b g = rfold ?f (get_successor_blocks l ?t) g"
    using False assms(2,3) by (simp add: link_block_def Let_def)
  ultimately show ?thesis by simp
qed

lemma windows_set: "set (windows xs) \<subseteq> set xs \<times> set xs"
  unfolding windows_def by (auto dest: set_zip_leftD set_zip_rightD intro: list.set_sel(2))

lemma endpoints_subset: "E \<subseteq> X \<times> X \<Longrightarrow> fst ` E \<union> snd ` E \<subseteq> X"
  by auto

lemma control_flow_vertices: "fst ` control_flow l f \<union> snd ` control_flow l f
    \<subseteq> (\<Union>b \<in> set (raw_blocks l f). set (visible_of l b))"
proof -
  let ?bs = "raw_blocks l f"
  let ?X = "\<Union>b \<in> set ?bs. set (visible_of l b)"
  have "inside_block l b \<subseteq> ?X \<times> ?X" if "b \<in> set ?bs" for b
    using windows_set [of "visible_of l b"] that unfolding inside_block_def by blast
  moreover have "out_of_block l (set ?bs) b \<subseteq> ?X \<times> ?X" if "b \<in> set ?bs" for b
    using that by (auto simp: out_of_block_def)
  ultimately have "control_flow l f \<subseteq> ?X \<times> ?X" unfolding control_flow_def by (simp add: UN_subset_iff)
  then show ?thesis by (rule endpoints_subset)
qed

lemma empty_graph_wf: "graph_wf (empty_graph l f layout)"
  "arcs (empty_graph l f layout) = {}" "back_arcs (empty_graph l f layout) = {}"
  by (simp_all add: graph_wf_def empty_graph_def Let_def arcs_def back_arcs_def bt_wf_def bt_keys_def bt_get_def)

lemma function_graph_built:
  assumes "raw_blocks l f \<noteq> []" "\<And>ks. set (hash_order ks) = set ks"
  shows "\<exists>g u. function_graph_new hash_order l f layout = Inr g \<and> grown (control_flow l f) u g
    \<and> vertices g = vertices u \<and> passed l (concat (map (visible_of l) (raw_blocks l f))) (empty_graph l f layout) u
    \<and> asserts u = concat (map (block_asserts l) (raw_blocks l f))
    \<and> assumes_of u = concat (map (block_assumes l) (raw_blocks l f))
    \<and> graph_start u = first_of (concat (map (visible_of l) (raw_blocks l f)))
    \<and> graph_name u = raw_function_name l f"
proof -
  let ?bs = "raw_blocks l f"
  obtain u V where u: "fold (block_pass l) ?bs (empty_graph l f layout, []) = (u, V)" by fastforce
  have "bt_wf ([] :: (basic_block, instruction list) btree)" by (simp add: bt_wf_def)
  note b = blocks_fold [OF empty_graph_wf(1) this, where bs = ?bs and l = l, of l f layout, unfolded u fst_conv snd_conv]
  have e: "graph_name (empty_graph l f layout) = raw_function_name l f"
    "asserts (empty_graph l f layout) = []" "assumes_of (empty_graph l f layout) = []"
    "graph_start (empty_graph l f layout) = None"
    by (simp_all add: empty_graph_def Let_def)
  have p: "passed l (concat (map (visible_of l) ?bs)) (empty_graph l f layout) u"
    "asserts u = concat (map (block_asserts l) ?bs)" "assumes_of u = concat (map (block_assumes l) ?bs)"
    "graph_start u = first_of (concat (map (visible_of l) ?bs))" "graph_name u = raw_function_name l f"
    using b by (simp_all add: e)
  have V: "bt_get V s = (if s \<in> set ?bs then Some (visible_of l s) else None)" for s
    using b by (simp add: bt_get_def)
  have wf: "graph_wf u" using p(1) by (simp add: passed_def)
  have keys: "set (hash_order (bt_keys V)) = set ?bs" using assms(2) bt_keys_iff [of _ V] V by (auto split: if_splits)
  have "\<exists>h. rfold (\<lambda>b. link_pairs (windows (the (bt_get V b)))) (hash_order (bt_keys V)) u = Inr h
      \<and> grown (\<Union>b \<in> set (hash_order (bt_keys V)). set (windows (the (bt_get V b)))) u h"
    by (intro rfold_grown wf link_pairs_grown)
  then obtain h where h: "rfold (\<lambda>b. link_pairs (windows (the (bt_get V b)))) (hash_order (bt_keys V)) u = Inr h"
    "grown (\<Union>b \<in> set ?bs. inside_block l b) u h"
    unfolding keys by (auto simp: V inside_block_def)
  have "graph_wf h" using h(2) by (simp add: grown_def)
  then obtain g where g: "rfold (link_block l V) ?bs h = Inr g"
    "grown (\<Union>b \<in> set ?bs. out_of_block l (set ?bs) b) h g"
    using rfold_grown [of h ?bs "link_block l V" "out_of_block l (set ?bs)"] link_block_grown [OF _ V] by blast
  have all: "grown (control_flow l f) u g"
    using grown_trans [OF h(2) g(2)] by (simp add: control_flow_def UN_Un_distrib)
  have "set (vertices u) = (\<Union>b \<in> set ?bs. set (visible_of l b))"
    using p(1) by (simp add: passed_def empty_graph_def Let_def)
  then have "vertices g = vertices u" using all control_flow_vertices [of l f] by (simp add: grown_def)
  moreover have "function_graph_new hash_order l f layout = Inr g"
    using assms(1) u h(1) g(1) by (simp add: function_graph_new_def)
  ultimately show ?thesis using all p by blast
qed

section \<open>Properties\<close>

text \<open>
  C36: the graph of a defined function.  Building it never fails; its vertices are the visible
  instructions in program order, each once; the successor sets and the predecessor sets are the
  same relation, the control flow between visible instructions; entry and exits are right.  None
  of it depends on the iteration order of the block map.
\<close>

theorem function_graph_correct:
  assumes "raw_blocks l f \<noteq> []" and "\<And>ks. set (hash_order ks) = set ks"
  defines "shown \<equiv> concat (map (visible_of l) (raw_blocks l f))"
  shows "\<exists>g. function_graph_new hash_order l f layout = Inr g
    \<and> vertices g = foldl push_new [] shown \<and> set (bt_keys (graph_edges g)) = set (vertices g)
    \<and> arcs g = control_flow l f \<and> back_arcs g = control_flow l f
    \<and> graph_start g = first_of shown \<and> graph_end g = filter (raw_is_return l) shown"
proof -
  obtain g u where g: "function_graph_new hash_order l f layout = Inr g" "grown (control_flow l f) u g"
    "vertices g = vertices u" "passed l shown (empty_graph l f layout) u" "graph_start u = first_of shown"
    using function_graph_built [OF assms(1,2), of layout] unfolding shown_def by blast
  have frame: "g = u\<lparr>vertices := vertices g, graph_edges := graph_edges g\<rparr>" using g(2) by (simp add: grown_def)
  have "graph_end g = graph_end u" "graph_start g = graph_start u" by (subst frame, simp)+
  moreover have "vertices u = foldl push_new [] shown" "graph_end u = filter (raw_is_return l) shown"
    "arcs u = {}" "back_arcs u = {}"
    using g(4) empty_graph_wf by (simp_all add: passed_def) (simp_all add: empty_graph_def Let_def)
  ultimately show ?thesis using g by (auto simp: grown_def graph_wf_def)
qed

text \<open>
  The recorded sites.  The assertion and assumption sites of the graph are those of the
  sentinel calls in program order, with their nearest visible neighbours in the block, and no
  sentinel call and no noise call is a vertex.
\<close>

theorem sentinel_sites_correct:
  assumes "function_graph_new hash_order l f layout = Inr g" and "\<And>ks. set (hash_order ks) = set ks"
  shows "asserts g = concat (map (block_asserts l) (raw_blocks l f))
    \<and> assumes_of g = concat (map (block_assumes l) (raw_blocks l f))
    \<and> (\<forall>i \<in> set (vertices g). get_called_function l i \<notin> Some ` {''may_assert'', ''may_assume'',
        ''may_type_bound'', ''reach_error'', ''__assert_fail'', ''__VERIFIER_error'', ''printf'', ''putchar''})"
proof -
  have ne: "raw_blocks l f \<noteq> []" using assms(1) by (auto simp: function_graph_new_def)
  let ?shown = "concat (map (visible_of l) (raw_blocks l f))"
  obtain u where u: "grown (control_flow l f) u g" "vertices g = vertices u"
    "passed l ?shown (empty_graph l f layout) u"
    "asserts u = concat (map (block_asserts l) (raw_blocks l f))"
    "assumes_of u = concat (map (block_assumes l) (raw_blocks l f))"
    using function_graph_built [OF ne assms(2), of layout] assms(1) by auto
  have frame: "g = u\<lparr>vertices := vertices g, graph_edges := graph_edges g\<rparr>" using u(1) by (simp add: grown_def)
  have "asserts g = asserts u" "assumes_of g = assumes_of u" by (subst frame, simp)+
  moreover have "vertices u = foldl push_new [] ?shown"
    using u(3) by (simp add: passed_def empty_graph_def Let_def)
  then have vis: "\<not> should_skip_instruction l i" if "i \<in> set (vertices g)" for i
    using that u(2) by (auto simp: visible_of_def)
  have "get_called_function l i \<notin> Some ` {''may_assert'', ''may_assume'', ''may_type_bound'',
      ''reach_error'', ''__assert_fail'', ''__VERIFIER_error'', ''printf'', ''putchar''}"
    if "i \<in> set (vertices g)" for i
    using vis [OF that] by (auto simp: should_skip_instruction_def is_may_assert_call_def is_may_assume_call_def
        is_may_type_bound_call_def is_unconditional_fail_call_def is_noise_call_def noise_calls_def)
  ultimately show ?thesis using u(4,5) by simp
qed

text \<open>
  Declarations are the only functions without a graph: the graphs of a module are those of
  its defined functions, in order, and no other error occurs.
\<close>

theorem generate_program_graph_total:
  assumes "\<And>ks. set (hash_order ks) = set ks"
  shows "\<exists>gs. generate_program_graph hash_order l = Inr gs
    \<and> map graph_name gs = map (raw_function_name l) (filter (\<lambda>f. raw_blocks l f \<noteq> []) (raw_functions l))"
proof -
  have "\<exists>gs. program_graphs hash_order l layout fs = Inr gs \<and>
      map graph_name gs = map (raw_function_name l) (filter (\<lambda>f. raw_blocks l f \<noteq> []) fs)" for layout fs
  proof (induction fs)
    case (Cons f fs)
    show ?case
    proof (cases "raw_blocks l f = []")
      case True
      with Cons show ?thesis by (simp add: function_graph_new_def)
    next
      case False
      obtain g u where g: "function_graph_new hash_order l f layout = Inr g" "grown (control_flow l f) u g"
        "graph_name u = raw_function_name l f"
        using function_graph_built [OF False assms, of layout] by blast
      have frame: "g = u\<lparr>vertices := vertices g, graph_edges := graph_edges g\<rparr>" using g(2) by (simp add: grown_def)
      have "graph_name g = raw_function_name l f" using g(3) by (subst frame) simp
      with g(1) False Cons show ?thesis by auto
    qed
  qed simp
  then show ?thesis by (simp add: generate_program_graph_def)
qed

section \<open>A small module\<close>

text \<open>\<open>p = alloca; q = alloca; store p, q; may_assert(c); br next; next: r = load q; ret\<close>\<close>

definition sample_module :: llvm where
  "sample_module = \<lparr>
     raw_name = (\<lambda>i. if i = 4 then Some ''p'' else if i = 5 then Some ''q'' else if i = 7 then Some ''r''
       else if i = 20 then Some ''c'' else if i = 30 then Some ''may_assert'' else None),
     raw_print = (\<lambda>_. Some []),
     raw_opcode = (\<lambda>i. if i = 1 then OpCall else if i = 2 then OpBr else if i = 4 \<or> i = 5 then OpAlloca
       else if i = 6 then OpStore else if i = 7 then OpLoad else if i = 8 then OpRet else OpUnknown),
     raw_type = (\<lambda>i. if i \<in> {4, 5, 7} then Some 0 else Some 1),
     raw_kind = (\<lambda>t. if t = 0 then KPointer else KVoid),
     raw_fields = (\<lambda>_. []), raw_element = (\<lambda>_. None), raw_constant_int = (\<lambda>_. None),
     raw_is_global = (\<lambda>_. False), raw_is_branch = (\<lambda>i. i = 2), raw_is_return = (\<lambda>i. i = 8),
     raw_is_terminator = (\<lambda>i. i = 2 \<or> i = 8), raw_condition = (\<lambda>_. None),
     raw_operands = (\<lambda>i. if i = 6 then [Some 4, Some 5] else if i = 7 then [Some 5] else []),
     raw_called_value = (\<lambda>_. 30), raw_arguments = (\<lambda>i. if i = 1 then [Some 20] else []),
     raw_incomings = (\<lambda>_. []), raw_successors = (\<lambda>i. if i = 2 then [Some 1] else []),
     raw_parent = (\<lambda>_. None), raw_gep_type = (\<lambda>_. None), raw_icmp = (\<lambda>_. IntEQ), raw_fcmp = (\<lambda>_. RealOEQ),
     raw_debug_loc = (\<lambda>_. None), raw_instructions = (\<lambda>b. if b = 0 then [4, 5, 6, 1, 2] else [7, 8]),
     raw_block_name = (\<lambda>_. None), raw_blocks = (\<lambda>f. if f = 0 then [0, 1] else []),
     raw_params = (\<lambda>_. []), raw_function_name = (\<lambda>f. if f = 0 then ''main'' else ''may_assert''),
     raw_functions = [0, 1], raw_data_layout = [], raw_scaled_real = (\<lambda>_. None), raw_initializer = (\<lambda>_. None),
     raw_is_array = (\<lambda>_. False), raw_is_data_array = (\<lambda>_. False), raw_elements = (\<lambda>_. []),
     raw_is_function = (\<lambda>_. False), raw_is_null = (\<lambda>_. False), raw_is_expression = (\<lambda>_. False),
     raw_expression_opcode = (\<lambda>_. OpUnknown), raw_offset_of = (\<lambda>_ _ _. 0), raw_store_size = (\<lambda>_ _. 4)\<rparr>"

lemma sample_visible:
  "concat (map (visible_of sample_module) (raw_blocks sample_module 0)) = [4, 5, 6, 2, 7, 8]"
  "filter (raw_is_return sample_module) [4, 5, 6, 2, 7, 8] = [8]" "foldl push_new [] [4, 5, 6, 2, 7, 8 :: nat] = [4, 5, 6, 2, 7, 8]"
  by code_simp+

theorem function_graph_witness:
  "\<exists>g. function_graph_new rev sample_module 0 [] = Inr g \<and> vertices g = [4, 5, 6, 2, 7, 8]
    \<and> arcs g = control_flow sample_module 0 \<and> graph_start g = Some 4 \<and> graph_end g = [8]"
proof -
  have "raw_blocks sample_module 0 \<noteq> []" by (simp add: sample_module_def)
  from function_graph_correct [OF this, of rev "[]", unfolded sample_visible] show ?thesis by auto
qed

theorem sentinel_sites_witness:
  "\<exists>g. function_graph_new rev sample_module 0 [] = Inr g \<and> map asserted_value (asserts g) = [20]
    \<and> map assert_predecessor (asserts g) = [Some 6] \<and> map assert_successor (asserts g) = [Some 2]"
proof -
  have ne: "raw_blocks sample_module 0 \<noteq> []" by (simp add: sample_module_def)
  obtain g where g: "function_graph_new rev sample_module 0 [] = Inr g"
    using function_graph_built [OF ne, of rev "[]"] by auto
  have "asserts g = concat (map (block_asserts sample_module) (raw_blocks sample_module 0))"
    using sentinel_sites_correct [OF g] by simp
  moreover have "concat (map (block_asserts sample_module) (raw_blocks sample_module 0)) = [\<lparr>asserted_value = 20,
      assert_predecessor = Some 6, assert_successor = Some 2,
      assert_source_location = source_location_new [] 0 0, is_unconditional_fail = False\<rparr>]"
    by code_simp
  ultimately show ?thesis using g by simp
qed

theorem generate_program_graph_witness:
  "\<exists>gs. generate_program_graph rev sample_module = Inr gs \<and> map graph_name gs = [''main'']"
proof -
  have "map (raw_function_name sample_module) (filter (\<lambda>f. raw_blocks sample_module f \<noteq> [])
      (raw_functions sample_module)) = [''main'']" by code_simp
  with generate_program_graph_total [of rev sample_module] show ?thesis by auto
qed

end
