(* ===== verification/Andersen.thy ===== *)
theory Andersen
  imports Program_Graph
begin

text \<open>
  The inclusion-based pointer analysis (\<open>src/pointer_analysis/andersen.rs\<close>): constraint generation
  from the instruction graphs, and the worklist solver.  An abstract location is its name, a
  \<open>BTreeSet\<close> of locations a finite set iterated in order.  The loop of the solver need not end, so
  \<open>solve_loop\<close> is a partial function whose value \<open>None\<close> is not returning.  \<open>hash_order\<close> is the
  iteration order of the map from pointers to constraints.
\<close>

section \<open>Locations and results\<close>

type_synonym abstract_loc = string

definition loc_field :: "abstract_loc \<Rightarrow> 32 word \<Rightarrow> abstract_loc" where
  "loc_field self field_index = self @ ''$f'' @ nat_str (unat field_index)"

type_synonym loc_map = "(string, abstract_loc set) btree"

record alias_result =
  pts :: loc_map
  pts_mem :: loc_map

definition alias_default :: alias_result where
  "alias_default = \<lparr>pts = [], pts_mem = []\<rparr>"

definition locs_at :: "loc_map \<Rightarrow> string \<Rightarrow> abstract_loc set" where
  "locs_at m k = (case bt_get m k of None \<Rightarrow> {} | Some s \<Rightarrow> s)"

definition points_to :: "alias_result \<Rightarrow> string \<Rightarrow> abstract_loc set" where
  "points_to self ptr = locs_at (pts self) ptr"

definition stored_into :: "alias_result \<Rightarrow> string \<Rightarrow> abstract_loc set" where
  "stored_into self rg = locs_at (pts_mem self) rg"

definition may_alias_regions :: "alias_result \<Rightarrow> string \<Rightarrow> string \<Rightarrow> bool" where
  "may_alias_regions self r1 r2 \<longleftrightarrow>
     (if r1 = r2 then True else list_ex (\<lambda>locs. r1 \<in> locs \<and> r2 \<in> locs) (bt_values (pts self)))"

definition pointed_regions :: "alias_result \<Rightarrow> string \<Rightarrow> string list" where
  "pointed_regions self ptr = sorted_list_of_set (points_to self ptr)"

text \<open>Both insertions return whether the set grew.\<close>

definition insert_loc :: "string \<Rightarrow> abstract_loc \<Rightarrow> loc_map \<Rightarrow> bool \<times> loc_map" where
  "insert_loc k loc m = (loc \<notin> locs_at m k, bt_insert k (insert loc (locs_at m k)) m)"

definition insert_pts :: "string \<Rightarrow> abstract_loc \<Rightarrow> alias_result \<Rightarrow> bool \<times> alias_result" where
  "insert_pts target loc self =
     (let (grew, m) = insert_loc target loc (pts self) in (grew, self\<lparr>pts := m\<rparr>))"

definition insert_pts_mem :: "string \<Rightarrow> abstract_loc \<Rightarrow> alias_result \<Rightarrow> bool \<times> alias_result" where
  "insert_pts_mem rg loc self =
     (let (grew, m) = insert_loc rg loc (pts_mem self) in (grew, self\<lparr>pts_mem := m\<rparr>))"

section \<open>Constraints\<close>

datatype inclusion =
    Seed string abstract_loc
  | Copy string string
  | StructField string string "32 word"
  | LoadPtr string string
  | StorePtr string string

definition local_name :: "llvm \<Rightarrow> string \<Rightarrow> instruction \<Rightarrow> string" where
  "local_name l fn_name i = fn_name @ ''$'' @ display_name l i"

definition ext_region :: "string \<Rightarrow> nat \<Rightarrow> string" where
  "ext_region fn_name idx = fn_name @ ''$__ext_'' @ nat_str idx"

definition alloca_region :: "string \<Rightarrow> nat \<Rightarrow> string" where
  "alloca_region fn_name idx = fn_name @ ''$stack'' @ nat_str idx"

definition global_region :: "llvm \<Rightarrow> instruction \<Rightarrow> string" where
  "global_region l i = ''global$'' @ display_name l i"

definition heap_region :: "nat \<Rightarrow> string" where
  "heap_region call_site_id = ''heap$call'' @ nat_str call_site_id"

definition is_ptr :: "llvm \<Rightarrow> instruction \<Rightarrow> bool" where
  "is_ptr l i \<longleftrightarrow> map_option (raw_kind l) (raw_type l i) = Some KPointer"

definition is_alloc_callee :: "string \<Rightarrow> bool" where
  "is_alloc_callee name \<longleftrightarrow> name \<in> {''malloc'', ''calloc'', ''realloc'', ''_Znwm'', ''_Znam'',
     ''_ZnwmRKSt9nothrow_t'', ''_ZnamRKSt9nothrow_t''}"

definition param_constraints :: "function_graph \<Rightarrow> inclusion list" where
  "param_constraints g = List.map_filter (\<lambda>i.
     if i < length (graph_params g)
     then Some (Seed (graph_name g @ ''$'' @ graph_params g ! i) (ext_region (graph_name g) i)) else None)
     (pointer_param_indices g)"

definition global_constraints :: "llvm \<Rightarrow> function_graph \<Rightarrow> inclusion list" where
  "global_constraints l g = concat (map (\<lambda>i.
     map (\<lambda>op. Seed (local_name l (graph_name g) op) (global_region l op))
       (filter (\<lambda>op. raw_is_global l op \<and> is_ptr l op) (get_operands l i))) (vertices g))"

text \<open>The numbering of the \<open>alloca\<close>s, in vertex order.\<close>

definition alloca_map :: "llvm \<Rightarrow> function_graph \<Rightarrow> (instruction, string) btree" where
  "alloca_map l g = fst (fold (\<lambda>i (m, stack_idx).
     if raw_opcode l i = OpAlloca then (bt_insert i (alloca_region (graph_name g) stack_idx) m, stack_idx + 1)
     else (m, stack_idx)) (vertices g) ([], 0))"

text \<open>The pure struct-field access: \<open>getelementptr %struct, p, 0, n\<close>.\<close>

definition struct_field_index :: "llvm \<Rightarrow> instruction \<Rightarrow> 32 word option" where
  "struct_field_index l i = (case raw_gep_type l i of
     None \<Rightarrow> None
   | Some src_ty \<Rightarrow>
       let indices = tl (get_operands l i) in
       if raw_kind l src_ty = KStruct \<and> length indices = 2 then
         (case (raw_constant_int l (indices ! 0), raw_constant_int l (indices ! 1)) of
            (Some z, Some field_idx) \<Rightarrow> if z = 0 \<and> 0 \<le> sint field_idx then Some (ucast field_idx) else None
          | _ \<Rightarrow> None)
       else None)"

definition instruction_constraints ::
  "llvm \<Rightarrow> function_graph \<Rightarrow> instruction \<Rightarrow> nat \<Rightarrow> inclusion list \<times> nat" where
  "instruction_constraints l g i call_site_id =
     (let fn_name = graph_name g; name = local_name l fn_name in
      case raw_opcode l i of
        OpAlloca \<Rightarrow> (case bt_get (alloca_map l g) i of
            Some r \<Rightarrow> ([Seed (name i) r], call_site_id) | None \<Rightarrow> ([], call_site_id))
      | OpGetElementPtr \<Rightarrow>
          if \<not> is_ptr l i then ([], call_site_id)
          else (case get_operand l i 0 of
              None \<Rightarrow> ([], call_site_id)
            | Some base_op \<Rightarrow> (case struct_field_index l i of
                Some fi \<Rightarrow> ([StructField (name i) (name base_op) fi], call_site_id)
              | None \<Rightarrow> ([Copy (name i) (name base_op)], call_site_id)))
      | OpLoad \<Rightarrow>
          if \<not> is_ptr l i then ([], call_site_id)
          else (case get_operand l i 0 of
              None \<Rightarrow> ([], call_site_id)
            | Some slot_op \<Rightarrow> ([LoadPtr (name i) (name slot_op)], call_site_id))
      | OpStore \<Rightarrow> (case get_operand l i 0 of
            None \<Rightarrow> ([], call_site_id)
          | Some val_op \<Rightarrow>
              if \<not> is_ptr l val_op then ([], call_site_id)
              else (case get_operand l i 1 of
                  None \<Rightarrow> ([], call_site_id)
                | Some slot_op \<Rightarrow> ([StorePtr (name slot_op) (name val_op)], call_site_id)))
      | OpPHI \<Rightarrow>
          if \<not> is_ptr l i then ([], call_site_id)
          else (map (\<lambda>(_, incoming). Copy (name i) (name incoming)) (get_phi_incomings l i), call_site_id)
      | OpCall \<Rightarrow> (case get_called_function l i of
            None \<Rightarrow> ([], call_site_id)
          | Some callee \<Rightarrow>
              if is_alloc_callee callee then
                (if is_ptr l i then [Seed (name i) (heap_region call_site_id)] else [], call_site_id + 1)
              else if callee \<noteq> ''may_assert'' then
                (List.map_filter (\<lambda>(arg_idx, arg).
                    if is_ptr l arg then Some (Copy (ext_region callee arg_idx) (name arg)) else None)
                  (List.enumerate 0 (get_call_args l i)), call_site_id)
              else ([], call_site_id))
      | opcode \<Rightarrow>
          if opcode = OpBitCast \<or> opcode = OpAddrSpaceCast then
            (if \<not> is_ptr l i then ([], call_site_id)
             else (case get_operand l i 0 of
                 None \<Rightarrow> ([], call_site_id)
               | Some src_op \<Rightarrow> ([Copy (name i) (name src_op)], call_site_id)))
          else ([], call_site_id))"

definition graph_constraints ::
  "llvm \<Rightarrow> function_graph \<Rightarrow> inclusion list \<times> nat \<Rightarrow> inclusion list \<times> nat" where
  "graph_constraints l g = (\<lambda>(constraints, call_site_id).
     fold (\<lambda>i (constraints, call_site_id).
         let (new, call_site_id) = instruction_constraints l g i call_site_id in
         (constraints @ new, call_site_id))
       (vertices g) (constraints @ param_constraints g @ global_constraints l g, call_site_id))"

definition collect_constraints :: "llvm \<Rightarrow> function_graph list \<Rightarrow> inclusion list" where
  "collect_constraints l graphs = fst (fold (graph_constraints l) graphs ([], 0))"

section \<open>The worklist solver\<close>

record solver_state =
  solver_result :: alias_result
  worklist :: "nat list"
  in_worklist :: "bool list"

fun constraint_sources :: "inclusion \<Rightarrow> string list" where
  "constraint_sources (Seed _ _) = []"
| "constraint_sources (Copy _ source) = [source]"
| "constraint_sources (StructField _ source _) = [source]"
| "constraint_sources (LoadPtr _ source_slot) = [source_slot]"
| "constraint_sources (StorePtr target_slot value_ptr) = [target_slot, value_ptr]"

definition push_source :: "string \<Rightarrow> nat \<Rightarrow> (string, nat list) btree \<Rightarrow> (string, nat list) btree" where
  "push_source k idx m = bt_insert k ((case bt_get m k of None \<Rightarrow> [] | Some xs \<Rightarrow> xs) @ [idx]) m"

definition source_index :: "inclusion list \<Rightarrow> (string, nat list) btree" where
  "source_index constraints = fold (\<lambda>(idx, c). fold (\<lambda>k. push_source k idx) (constraint_sources c))
     (List.enumerate 0 constraints) []"

definition seed_all :: "inclusion list \<Rightarrow> alias_result" where
  "seed_all constraints = fold (\<lambda>c result. case c of
     Seed target loc \<Rightarrow> snd (insert_pts target loc result) | _ \<Rightarrow> result) constraints alias_default"

definition enqueue :: "nat \<Rightarrow> solver_state \<Rightarrow> solver_state" where
  "enqueue idx st = (if \<not> in_worklist st ! idx
     then st\<lparr>worklist := worklist st @ [idx], in_worklist := (in_worklist st)[idx := True]\<rparr> else st)"

definition initial_state ::
  "(string list \<Rightarrow> string list) \<Rightarrow> inclusion list \<Rightarrow> (string, nat list) btree \<Rightarrow> solver_state" where
  "initial_state hash_order constraints index =
     fold (\<lambda>ptr st. if bt_get (pts (solver_result st)) ptr \<noteq> None
         then fold enqueue (the (bt_get index ptr)) st else st)
       (hash_order (bt_keys index))
       \<lparr>solver_result = seed_all constraints, worklist = [],
        in_worklist = replicate (length constraints) False\<rparr>"

definition dependents :: "(string, nat list) btree \<Rightarrow> string \<Rightarrow> nat list" where
  "dependents index target = (case bt_get index target of None \<Rightarrow> [] | Some xs \<Rightarrow> xs)"

definition grow_pts :: "(string, nat list) btree \<Rightarrow> string \<Rightarrow> abstract_loc \<Rightarrow> solver_state \<Rightarrow> solver_state" where
  "grow_pts index target loc st =
     (let (grew, result) = insert_pts target loc (solver_result st);
          st = st\<lparr>solver_result := result\<rparr> in
      if grew then fold enqueue (dependents index target) st else st)"

definition loads_from :: "inclusion list \<Rightarrow> alias_result \<Rightarrow> abstract_loc \<Rightarrow> nat list" where
  "loads_from constraints result slot_loc = List.map_filter (\<lambda>(idx, c). case c of
     LoadPtr _ source_slot \<Rightarrow> if slot_loc \<in> points_to result source_slot then Some idx else None
   | _ \<Rightarrow> None) (List.enumerate 0 constraints)"

definition grow_mem :: "inclusion list \<Rightarrow> abstract_loc \<Rightarrow> abstract_loc \<Rightarrow> solver_state \<Rightarrow> solver_state" where
  "grow_mem constraints slot_loc val_loc st =
     (let (grew, result) = insert_pts_mem slot_loc val_loc (solver_result st);
          st = st\<lparr>solver_result := result\<rparr> in
      if grew then fold enqueue (loads_from constraints result slot_loc) st else st)"

fun apply_constraint ::
  "inclusion list \<Rightarrow> (string, nat list) btree \<Rightarrow> inclusion \<Rightarrow> solver_state \<Rightarrow> solver_state" where
  "apply_constraint constraints index (Seed _ _) st = st"
| "apply_constraint constraints index (Copy target source) st =
     fold (grow_pts index target) (sorted_list_of_set (points_to (solver_result st) source)) st"
| "apply_constraint constraints index (StructField target source fi) st =
     fold (\<lambda>loc. grow_pts index target (loc_field loc fi))
       (sorted_list_of_set (points_to (solver_result st) source)) st"
| "apply_constraint constraints index (LoadPtr target source_slot) st =
     fold (\<lambda>slot_loc st. fold (grow_pts index target)
         (sorted_list_of_set (stored_into (solver_result st) slot_loc)) st)
       (sorted_list_of_set (points_to (solver_result st) source_slot)) st"
| "apply_constraint constraints index (StorePtr target_slot value_ptr) st =
     (let val_locs = sorted_list_of_set (points_to (solver_result st) value_ptr) in
      fold (\<lambda>slot_loc st. fold (grow_mem constraints slot_loc) val_locs st)
        (sorted_list_of_set (points_to (solver_result st) target_slot)) st)"

definition solver_iteration ::
  "inclusion list \<Rightarrow> (string, nat list) btree \<Rightarrow> nat \<Rightarrow> nat list \<Rightarrow> solver_state \<Rightarrow> solver_state" where
  "solver_iteration constraints index idx rest st =
     apply_constraint constraints index (constraints ! idx)
       (st\<lparr>worklist := rest, in_worklist := (in_worklist st)[idx := False]\<rparr>)"

partial_function (option) solve_loop ::
  "inclusion list \<Rightarrow> (string, nat list) btree \<Rightarrow> solver_state \<Rightarrow> alias_result option" where
  [code]: "solve_loop constraints index st = (case worklist st of
     [] \<Rightarrow> Some (solver_result st)
   | idx # rest \<Rightarrow> solve_loop constraints index (solver_iteration constraints index idx rest st))"

definition solve :: "(string list \<Rightarrow> string list) \<Rightarrow> inclusion list \<Rightarrow> alias_result option" where
  "solve hash_order constraints = (let index = source_index constraints in
     solve_loop constraints index (initial_state hash_order constraints index))"

definition run_alias_analysis ::
  "(string list \<Rightarrow> string list) \<Rightarrow> llvm \<Rightarrow> function_graph list \<Rightarrow> alias_result option" where
  "run_alias_analysis hash_order l graphs = solve hash_order (collect_constraints l graphs)"

end
