(* ===== verification/Andersen_Correct.thy ===== *)
theory Andersen_Correct
  imports Andersen
begin

text \<open>
  The solver against its specification: the least solution of the inclusion constraints.  It
  returns exactly when a finite solution exists, and then returns the least one, whatever the
  iteration order of the maps.
\<close>

section \<open>Solutions\<close>

type_synonym points = "string \<Rightarrow> abstract_loc set"

fun satisfied :: "points \<Rightarrow> points \<Rightarrow> inclusion \<Rightarrow> bool" where
  "satisfied P M (Seed target loc) \<longleftrightarrow> loc \<in> P target"
| "satisfied P M (Copy target source) \<longleftrightarrow> P source \<subseteq> P target"
| "satisfied P M (StructField target source fi) \<longleftrightarrow> (\<lambda>loc. loc_field loc fi) ` P source \<subseteq> P target"
| "satisfied P M (LoadPtr target slot) \<longleftrightarrow> (\<Union>r \<in> P slot. M r) \<subseteq> P target"
| "satisfied P M (StorePtr slot val) \<longleftrightarrow> (\<forall>r \<in> P slot. P val \<subseteq> M r)"

definition solution :: "inclusion list \<Rightarrow> points \<Rightarrow> points \<Rightarrow> bool" where
  "solution cs P M \<longleftrightarrow> (\<forall>c \<in> set cs. satisfied P M c)"

definition facts :: "points \<Rightarrow> (string \<times> abstract_loc) set" where
  "facts P = {(x, l). l \<in> P x}"

lemma facts_mono: "facts P \<subseteq> facts Q \<longleftrightarrow> P \<le> Q"
  by (auto simp: facts_def le_fun_def)

abbreviation pview :: "solver_state \<Rightarrow> points" where
  "pview st \<equiv> points_to (solver_result st)"

abbreviation mview :: "solver_state \<Rightarrow> points" where
  "mview st \<equiv> stored_into (solver_result st)"

section \<open>The index and the queue\<close>

lemma push_source_get:
  "dependents (push_source k i m) j = (if j = k then dependents m k @ [i] else dependents m j)"
  by (simp add: dependents_def push_source_def bt_get_insert)

lemma push_sources_get:
  "set (dependents (fold (\<lambda>k. push_source k i) ks m) j) = set (dependents m j) \<union> (if j \<in> set ks then {i} else {})"
  by (induction ks arbitrary: m) (auto simp: push_source_get)

lemma source_index_get:
  "set (dependents (source_index cs) k) = {i. i < length cs \<and> k \<in> set (constraint_sources (cs ! i))}"
proof -
  have "set (dependents (fold (\<lambda>(idx, c). fold (\<lambda>k. push_source k idx) (constraint_sources c))
        (List.enumerate n cs) m) k)
      = set (dependents m k) \<union> {n + i |i. i < length cs \<and> k \<in> set (constraint_sources (cs ! i))}" for n m
  proof (induction cs arbitrary: n m)
    case (Cons c cs)
    have "{n + i |i. i < length (c # cs) \<and> k \<in> set (constraint_sources ((c # cs) ! i))}
        = (if k \<in> set (constraint_sources c) then {n} else {}) \<union>
          {Suc n + i |i. i < length cs \<and> k \<in> set (constraint_sources (cs ! i))}" (is "?L = ?A \<union> ?B")
    proof (intro set_eqI iffI)
      fix x
      assume "x \<in> ?L"
      then obtain i where "x = n + i" "i < length (c # cs)" "k \<in> set (constraint_sources ((c # cs) ! i))" by auto
      then show "x \<in> ?A \<union> ?B" by (cases i) auto
    next
      fix x
      assume "x \<in> ?A \<union> ?B"
      then show "x \<in> ?L" by (auto split: if_splits intro: exI [of _ 0] exI [of _ "Suc _"])
    qed
    then show ?case by (simp add: Cons.IH push_sources_get Un_assoc)
  qed simp
  from this [of 0 "[]"] show ?thesis by (simp add: source_index_def dependents_def bt_get_def)
qed

definition queue_wf :: "inclusion list \<Rightarrow> solver_state \<Rightarrow> bool" where
  "queue_wf cs st \<longleftrightarrow> length (in_worklist st) = length cs \<and>
     set (worklist st) = {i. i < length cs \<and> in_worklist st ! i} \<and> distinct (worklist st) \<and>
     (\<forall>x. finite (pview st x) \<and> finite (mview st x))"

lemma enqueue_wf:
  assumes "queue_wf cs st" "i < length cs"
  shows "queue_wf cs (enqueue i st)" "set (worklist (enqueue i st)) = insert i (set (worklist st))"
    "solver_result (enqueue i st) = solver_result st"
  using assms by (auto simp: queue_wf_def enqueue_def nth_list_update)

lemma enqueue_all:
  assumes "queue_wf cs st" "set is \<subseteq> {..<length cs}"
  shows "queue_wf cs (fold enqueue is st)" "set (worklist (fold enqueue is st)) = set is \<union> set (worklist st)"
    "solver_result (fold enqueue is st) = solver_result st"
proof -
  have "queue_wf cs (fold enqueue is st) \<and> set (worklist (fold enqueue is st)) = set is \<union> set (worklist st) \<and>
    solver_result (fold enqueue is st) = solver_result st"
    using assms by (induction "is" arbitrary: st) (auto simp: enqueue_wf)
  then show "queue_wf cs (fold enqueue is st)" "set (worklist (fold enqueue is st)) = set is \<union> set (worklist st)"
    "solver_result (fold enqueue is st) = solver_result st" by blast+
qed

section \<open>Progress\<close>

text \<open>
  \<open>advances cs st u\<close>: the views grow, nothing leaves the queue, every constraint that is not in
  the queue afterwards reads what it read before, and the queue grows only with the views.
\<close>

definition advances :: "inclusion list \<Rightarrow> solver_state \<Rightarrow> solver_state \<Rightarrow> bool" where
  "advances cs st u \<longleftrightarrow> queue_wf cs u \<and> pview st \<le> pview u \<and> mview st \<le> mview u \<and>
     set (worklist st) \<subseteq> set (worklist u) \<and>
     (\<forall>j < length cs. j \<notin> set (worklist u) \<longrightarrow>
        (\<forall>k \<in> set (constraint_sources (cs ! j)). pview u k = pview st k) \<and>
        (\<forall>t s. cs ! j = LoadPtr t s \<longrightarrow> (\<forall>r \<in> pview st s. mview u r = mview st r))) \<and>
     (worklist u = worklist st \<or> pview st \<noteq> pview u \<or> mview st \<noteq> mview u)"

lemma advances_refl: "queue_wf cs st \<Longrightarrow> advances cs st st"
  by (simp add: advances_def)

lemma advances_trans:
  assumes "advances cs st u" "advances cs u w"
  shows "advances cs st w"
proof -
  have le: "pview st \<le> pview u" "mview st \<le> mview u" "pview u \<le> pview w" "mview u \<le> mview w"
    "set (worklist st) \<subseteq> set (worklist u)" "set (worklist u) \<subseteq> set (worklist w)"
    using assms by (simp_all add: advances_def)
  have "(\<forall>k \<in> set (constraint_sources (cs ! j)). pview w k = pview st k) \<and>
      (\<forall>t s. cs ! j = LoadPtr t s \<longrightarrow> (\<forall>r \<in> pview st s. mview w r = mview st r))"
    if j: "j < length cs" "j \<notin> set (worklist w)" for j
  proof -
    have j': "j \<notin> set (worklist u)" using j(2) le(6) by blast
    have a: "\<forall>k \<in> set (constraint_sources (cs ! j)). pview u k = pview st k"
      "\<forall>t s. cs ! j = LoadPtr t s \<longrightarrow> (\<forall>r \<in> pview st s. mview u r = mview st r)"
      using assms(1) j(1) j' unfolding advances_def by blast+
    have b: "\<forall>k \<in> set (constraint_sources (cs ! j)). pview w k = pview u k"
      "\<forall>t s. cs ! j = LoadPtr t s \<longrightarrow> (\<forall>r \<in> pview u s. mview w r = mview u r)"
      using assms(2) j unfolding advances_def by blast+
    show ?thesis using a b by auto
  qed
  moreover have "worklist w = worklist st \<or> pview st \<noteq> pview w \<or> mview st \<noteq> mview w"
    using assms le unfolding advances_def by (metis order_antisym)
  moreover have "queue_wf cs w" using assms(2) by (simp add: advances_def)
  ultimately show ?thesis using le unfolding advances_def by (meson order_trans subset_trans)
qed

lemma insert_pts_view:
  "points_to (snd (insert_pts t l r)) = (points_to r)(t := insert l (points_to r t))"
  "stored_into (snd (insert_pts t l r)) = stored_into r"
  by (auto simp: insert_pts_def insert_loc_def points_to_def stored_into_def locs_at_def bt_get_insert fun_eq_iff)

lemma insert_pts_mem_view:
  "stored_into (snd (insert_pts_mem t l r)) = (stored_into r)(t := insert l (stored_into r t))"
  "points_to (snd (insert_pts_mem t l r)) = points_to r"
  by (auto simp: insert_pts_mem_def insert_loc_def points_to_def stored_into_def locs_at_def bt_get_insert fun_eq_iff)

lemma insert_grew:
  "fst (insert_pts t l r) \<longleftrightarrow> l \<notin> points_to r t" "fst (insert_pts_mem t l r) \<longleftrightarrow> l \<notin> stored_into r t"
  by (auto simp: insert_pts_def insert_pts_mem_def insert_loc_def points_to_def stored_into_def)

lemma queue_wf_result:
  "queue_wf cs st \<Longrightarrow> \<forall>x. finite (points_to r x) \<and> finite (stored_into r x) \<Longrightarrow> queue_wf cs (st\<lparr>solver_result := r\<rparr>)"
  by (simp add: queue_wf_def)

lemma grow_pts_advances:
  assumes "queue_wf cs st"
  shows "advances cs st (grow_pts (source_index cs) t l st)"
    "pview (grow_pts (source_index cs) t l st) = (pview st)(t := insert l (pview st t))"
    "mview (grow_pts (source_index cs) t l st) = mview st"
proof -
  define r where "r = snd (insert_pts t l (solver_result st))"
  let ?u = "st\<lparr>solver_result := r\<rparr>"
  have view: "points_to r = (pview st)(t := insert l (pview st t))" "stored_into r = mview st"
    by (simp_all add: r_def insert_pts_view)
  have wf: "queue_wf cs ?u" using assms by (intro queue_wf_result) (auto simp: view queue_wf_def)
  have d: "set (dependents (source_index cs) t) \<subseteq> {..<length cs}" by (auto simp: source_index_get)
  have def: "grow_pts (source_index cs) t l st =
      (if l \<notin> pview st t then fold enqueue (dependents (source_index cs) t) ?u else ?u)"
    by (simp add: grow_pts_def Let_def r_def case_prod_beta insert_grew)
  show v: "pview (grow_pts (source_index cs) t l st) = (pview st)(t := insert l (pview st t))"
    "mview (grow_pts (source_index cs) t l st) = mview st"
    by (simp_all add: def enqueue_all [OF wf d] view)
  show "advances cs st (grow_pts (source_index cs) t l st)"
  proof (cases "l \<in> pview st t")
    case True
    then have "points_to r = pview st" using view(1) by (simp add: insert_absorb)
    then show ?thesis using True wf view(2) by (simp add: def advances_def)
  next
    case False
    then have "pview st \<noteq> (pview st)(t := insert l (pview st t))" by (metis fun_upd_same insertI1)
    then show ?thesis
      using False enqueue_all [OF wf d] view
      by (auto simp: def advances_def le_fun_def source_index_get)
  qed
qed

lemma loads_from_set:
  "set (loads_from cs r l) = {i. i < length cs \<and> (\<exists>t s. cs ! i = LoadPtr t s \<and> l \<in> points_to r s)}"
  by (auto simp: loads_from_def List.map_filter_def in_set_enumerate_eq image_iff split: inclusion.splits if_splits)
    force+

lemma grow_mem_advances:
  assumes "queue_wf cs st"
  shows "advances cs st (grow_mem cs t l st)"
    "pview (grow_mem cs t l st) = pview st"
    "mview (grow_mem cs t l st) = (mview st)(t := insert l (mview st t))"
proof -
  define r where "r = snd (insert_pts_mem t l (solver_result st))"
  let ?u = "st\<lparr>solver_result := r\<rparr>"
  have view: "stored_into r = (mview st)(t := insert l (mview st t))" "points_to r = pview st"
    by (simp_all add: r_def insert_pts_mem_view)
  have wf: "queue_wf cs ?u" using assms by (intro queue_wf_result) (auto simp: view queue_wf_def)
  have d: "set (loads_from cs r t) \<subseteq> {..<length cs}" by (auto simp: loads_from_set)
  have def: "grow_mem cs t l st =
      (if l \<notin> mview st t then fold enqueue (loads_from cs r t) ?u else ?u)"
    by (simp add: grow_mem_def Let_def r_def case_prod_beta insert_grew)
  show v: "pview (grow_mem cs t l st) = pview st"
    "mview (grow_mem cs t l st) = (mview st)(t := insert l (mview st t))"
    by (simp_all add: def enqueue_all [OF wf d] view)
  show "advances cs st (grow_mem cs t l st)"
  proof (cases "l \<in> mview st t")
    case True
    then have "stored_into r = mview st" using view(1) by (simp add: insert_absorb)
    then show ?thesis using True wf view(2) by (simp add: def advances_def)
  next
    case False
    then have "mview st \<noteq> (mview st)(t := insert l (mview st t))" by (metis fun_upd_same insertI1)
    then show ?thesis
      using False enqueue_all [OF wf d] view
      by (auto simp: def advances_def le_fun_def loads_from_set)
  qed
qed

section \<open>One constraint\<close>

lemma grow_pts_all:
  fixes f :: "'a \<Rightarrow> abstract_loc" and t :: string and xs :: "'a list"
  assumes "queue_wf cs st"
  defines "u \<equiv> fold (\<lambda>x. grow_pts (source_index cs) t (f x)) xs st"
  shows "advances cs st u \<and> pview u = (pview st)(t := f ` set xs \<union> pview st t) \<and> mview u = mview st"
  using assms(1) unfolding u_def
proof (induction xs arbitrary: st)
  case (Cons x xs)
  note g = grow_pts_advances [OF Cons.prems, of t "f x"]
  have "queue_wf cs (grow_pts (source_index cs) t (f x) st)" using g(1) by (simp add: advances_def)
  note IH = Cons.IH [OF this]
  then show ?case using advances_trans [OF g(1)] g(2,3) by (simp add: fun_eq_iff)
qed (simp add: advances_refl)

lemma grow_mem_all:
  fixes t :: string and xs :: "abstract_loc list"
  assumes "queue_wf cs st"
  defines "u \<equiv> fold (grow_mem cs t) xs st"
  shows "advances cs st u \<and> mview u = (mview st)(t := set xs \<union> mview st t) \<and> pview u = pview st"
  using assms(1) unfolding u_def
proof (induction xs arbitrary: st)
  case (Cons x xs)
  note g = grow_mem_advances [OF Cons.prems, of t x]
  have "queue_wf cs (grow_mem cs t x st)" using g(1) by (simp add: advances_def)
  note IH = Cons.IH [OF this]
  then show ?case using advances_trans [OF g(1)] g(2,3) by (simp add: fun_eq_iff)
qed (simp add: advances_refl)

lemma load_all:
  fixes t :: string and xs :: "abstract_loc list"
  assumes "queue_wf cs st"
  defines "u \<equiv> fold (\<lambda>slot st. fold (grow_pts (source_index cs) t)
    (sorted_list_of_set (mview st slot)) st) xs st"
  shows "advances cs st u \<and> pview u = (pview st)(t := (\<Union>r \<in> set xs. mview st r) \<union> pview st t) \<and> mview u = mview st"
  using assms(1) unfolding u_def
proof (induction xs arbitrary: st)
  case (Cons x xs)
  let ?u = "fold (grow_pts (source_index cs) t) (sorted_list_of_set (mview st x)) st"
  have "finite (mview st x)" using Cons.prems by (simp add: queue_wf_def)
  then have g: "advances cs st ?u" "pview ?u = (pview st)(t := mview st x \<union> pview st t)" "mview ?u = mview st"
    using grow_pts_all [OF Cons.prems, of t "\<lambda>x. x" "sorted_list_of_set (mview st x)"] by simp_all
  have "queue_wf cs ?u" using g(1) by (simp add: advances_def)
  note IH = Cons.IH [OF this]
  then show ?case using advances_trans [OF g(1)] g(2,3) by (simp add: fun_eq_iff Un_ac)
qed (simp add: advances_refl)

lemma store_all:
  fixes xs vs :: "abstract_loc list"
  assumes "queue_wf cs st"
  defines "u \<equiv> fold (\<lambda>slot st. fold (grow_mem cs slot) vs st) xs st"
  shows "advances cs st u \<and> mview u = (\<lambda>r. if r \<in> set xs then set vs \<union> mview st r else mview st r) \<and> pview u = pview st"
  using assms(1) unfolding u_def
proof (induction xs arbitrary: st)
  case (Cons x xs)
  let ?u = "fold (grow_mem cs x) vs st"
  have g: "advances cs st ?u" "mview ?u = (mview st)(x := set vs \<union> mview st x)" "pview ?u = pview st"
    using grow_mem_all [OF Cons.prems, of x vs] by simp_all
  have "queue_wf cs ?u" using g(1) by (simp add: advances_def)
  note IH = Cons.IH [OF this]
  then show ?case using advances_trans [OF g(1)] g(2,3) by (auto simp: fun_eq_iff)
qed (simp add: advances_refl)

text \<open>What applying a constraint adds to the two views.\<close>

fun added_pts :: "points \<Rightarrow> points \<Rightarrow> inclusion \<Rightarrow> points" where
  "added_pts P M (Seed _ _) = P"
| "added_pts P M (Copy t s) = P(t := P s \<union> P t)"
| "added_pts P M (StructField t s fi) = P(t := (\<lambda>loc. loc_field loc fi) ` P s \<union> P t)"
| "added_pts P M (LoadPtr t s) = P(t := (\<Union>r \<in> P s. M r) \<union> P t)"
| "added_pts P M (StorePtr _ _) = P"

fun added_mem :: "points \<Rightarrow> points \<Rightarrow> inclusion \<Rightarrow> points" where
  "added_mem P M (StorePtr s v) = (\<lambda>r. if r \<in> P s then P v \<union> M r else M r)"
| "added_mem P M _ = M"

lemma apply_constraint_effect:
  fixes c :: inclusion
  assumes "queue_wf cs st"
  defines "u \<equiv> apply_constraint cs (source_index cs) c st"
  shows "advances cs st u \<and> pview u = added_pts (pview st) (mview st) c \<and> mview u = added_mem (pview st) (mview st) c"
proof -
  have fin: "finite (pview st x)" "finite (mview st x)" for x using assms(1) by (auto simp: queue_wf_def)
  show ?thesis
  proof (cases c)
    case (Copy t s)
    then show ?thesis using grow_pts_all [OF assms(1), of t "\<lambda>x. x" "sorted_list_of_set (pview st s)"] fin
      by (simp add: u_def)
  next
    case (StructField t s fi)
    then show ?thesis
      using grow_pts_all [OF assms(1), of t "\<lambda>loc. loc_field loc fi" "sorted_list_of_set (pview st s)"] fin
      by (simp add: u_def)
  next
    case (LoadPtr t s)
    then show ?thesis using load_all [OF assms(1), of t "sorted_list_of_set (pview st s)"] fin by (simp add: u_def)
  next
    case (StorePtr s v)
    then show ?thesis
      using store_all [OF assms(1), of "sorted_list_of_set (pview st v)" "sorted_list_of_set (pview st s)"] fin
      by (simp add: u_def fun_eq_iff)
  qed (simp add: u_def advances_refl assms(1))
qed

section \<open>The invariant of the loop\<close>

definition settled :: "inclusion list \<Rightarrow> solver_state \<Rightarrow> bool" where
  "settled cs st \<longleftrightarrow> queue_wf cs st \<and>
     (\<forall>j < length cs. j \<notin> set (worklist st) \<longrightarrow> satisfied (pview st) (mview st) (cs ! j))"

definition bounded_by :: "points \<Rightarrow> points \<Rightarrow> solver_state \<Rightarrow> bool" where
  "bounded_by P M st \<longleftrightarrow> pview st \<le> P \<and> mview st \<le> M"

lemma stays_satisfied:
  assumes "advances cs st u" "j < length cs" "j \<notin> set (worklist u)" "satisfied (pview st) (mview st) (cs ! j)"
  shows "satisfied (pview u) (mview u) (cs ! j)"
proof -
  have same: "\<forall>k \<in> set (constraint_sources (cs ! j)). pview u k = pview st k"
    "\<forall>t s. cs ! j = LoadPtr t s \<longrightarrow> (\<forall>r \<in> pview st s. mview u r = mview st r)"
    using assms(1-3) unfolding advances_def by blast+
  have le: "pview st x \<subseteq> pview u x" "mview st x \<subseteq> mview u x" for x
    using assms(1) by (simp_all add: advances_def le_fun_def)
  show ?thesis
    by (cases "cs ! j") (use assms(4) same le in \<open>simp_all, blast+\<close>)
qed

lemma satisfied_after:
  assumes "advances cs st u" "j < length cs" "j \<notin> set (worklist u)"
    and "pview u = added_pts (pview st) (mview st) (cs ! j)" "mview u = added_mem (pview st) (mview st) (cs ! j)"
    and "\<And>t l. cs ! j = Seed t l \<Longrightarrow> l \<in> pview st t"
  shows "satisfied (pview u) (mview u) (cs ! j)"
proof -
  have "\<forall>k \<in> set (constraint_sources (cs ! j)). pview u k = pview st k"
    using assms(1-3) unfolding advances_def by blast
  then show ?thesis
    by (cases "cs ! j") (use assms(4-6) in \<open>simp_all, (auto split: if_splits)?\<close>)
qed

definition seeds_hold :: "inclusion list \<Rightarrow> solver_state \<Rightarrow> bool" where
  "seeds_hold cs st \<longleftrightarrow> (\<forall>t l. Seed t l \<in> set cs \<longrightarrow> l \<in> pview st t)"

lemma iteration_parts:
  fixes i :: nat and rest :: "nat list"
  assumes "settled cs st" "worklist st = i # rest"
  defines "v \<equiv> st\<lparr>worklist := rest, in_worklist := (in_worklist st)[i := False]\<rparr>"
  shows "queue_wf cs v" "i < length cs" "pview v = pview st" "mview v = mview st"
    "solver_iteration cs (source_index cs) i rest st = apply_constraint cs (source_index cs) (cs ! i) v"
proof -
  have q: "queue_wf cs st" using assms(1) by (simp add: settled_def)
  then show "i < length cs" using assms(2) by (auto simp: queue_wf_def)
  have "i \<notin> set rest" "distinct rest" using q assms(2) by (auto simp: queue_wf_def)
  moreover have "insert i (set rest) = {j. j < length cs \<and> in_worklist st ! j}" using q assms(2) by (auto simp: queue_wf_def)
  ultimately have "set rest = {j. j < length cs \<and> (in_worklist st)[i := False] ! j}"
    using q \<open>i < length cs\<close> by (simp add: queue_wf_def nth_list_update set_eq_iff) metis
  then show "queue_wf cs v" using q \<open>distinct rest\<close> by (simp add: queue_wf_def v_def)
qed (simp_all add: v_def solver_iteration_def)

lemma iteration_settled:
  assumes "settled cs st" "worklist st = i # rest" "seeds_hold cs st"
  shows "settled cs (solver_iteration cs (source_index cs) i rest st)"
    "seeds_hold cs (solver_iteration cs (source_index cs) i rest st)"
proof -
  define v where "v = st\<lparr>worklist := rest, in_worklist := (in_worklist st)[i := False]\<rparr>"
  note p = iteration_parts [OF assms(1,2), folded v_def]
  let ?u = "apply_constraint cs (source_index cs) (cs ! i) v"
  note e = apply_constraint_effect [OF p(1), of "cs ! i"]
  have adv: "advances cs v ?u" using e by blast
  have "satisfied (pview ?u) (mview ?u) (cs ! j)" if j: "j < length cs" "j \<notin> set (worklist ?u)" for j
  proof (cases "j = i")
    case True
    have "l \<in> pview v t" if "cs ! j = Seed t l" for t l
      using that assms(3) j(1) p(3) unfolding seeds_hold_def by (metis nth_mem)
    then show ?thesis using satisfied_after [OF adv j] e True by simp
  next
    case False
    have "j \<notin> set rest" using j(2) adv by (auto simp: advances_def v_def)
    then have "satisfied (pview v) (mview v) (cs ! j)"
      using assms(1,2) False j(1) p(3,4) by (simp add: settled_def)
    then show ?thesis by (rule stays_satisfied [OF adv j])
  qed
  moreover have "queue_wf cs ?u" using adv by (simp add: advances_def)
  ultimately show "settled cs (solver_iteration cs (source_index cs) i rest st)"
    by (simp add: settled_def p(5))
  have "pview st \<le> pview ?u" using adv p(3) by (simp add: advances_def)
  then show "seeds_hold cs (solver_iteration cs (source_index cs) i rest st)"
    using assms(3) unfolding seeds_hold_def p(5) le_fun_def by blast
qed

lemma iteration_bounded:
  assumes "settled cs st" "worklist st = i # rest" "solution cs P M" "bounded_by P M st"
  shows "bounded_by P M (solver_iteration cs (source_index cs) i rest st)"
proof -
  define v where "v = st\<lparr>worklist := rest, in_worklist := (in_worklist st)[i := False]\<rparr>"
  note p = iteration_parts [OF assms(1,2), folded v_def]
  note e = apply_constraint_effect [OF p(1), of "cs ! i"]
  have sat: "satisfied P M (cs ! i)" using assms(3) p(2) by (simp add: solution_def)
  have le: "pview v x \<subseteq> P x" "mview v x \<subseteq> M x" for x
    using assms(4) p(3,4) by (simp_all add: bounded_by_def le_fun_def)
  have "added_pts (pview v) (mview v) (cs ! i) \<le> P" "added_mem (pview v) (mview v) (cs ! i) \<le> M"
    by (cases "cs ! i"; use sat le in \<open>simp add: le_fun_def\<close>; blast)+
  with e p(5) show ?thesis by (simp add: bounded_by_def)
qed

section \<open>The initial state\<close>

lemma seed_all_view:
  "points_to (seed_all cs) x = {l. Seed x l \<in> set cs}" "stored_into (seed_all cs) x = {}"
proof -
  have "points_to (fold (\<lambda>c result. case c of Seed target loc \<Rightarrow> snd (insert_pts target loc result) | _ \<Rightarrow> result) cs r) x
      = {l. Seed x l \<in> set cs} \<union> points_to r x \<and>
    stored_into (fold (\<lambda>c result. case c of Seed target loc \<Rightarrow> snd (insert_pts target loc result) | _ \<Rightarrow> result) cs r) x
      = stored_into r x" for r
    by (induction cs arbitrary: r) (auto simp: insert_pts_view split: inclusion.split)
  from this [of alias_default] show "points_to (seed_all cs) x = {l. Seed x l \<in> set cs}" "stored_into (seed_all cs) x = {}"
    by (simp_all add: seed_all_def alias_default_def points_to_def stored_into_def locs_at_def bt_get_def)
qed

text \<open>\<open>contains_key\<close> is having a location: no entry is empty.\<close>

lemma seed_all_key: "bt_get (pts (seed_all cs)) x \<noteq> None \<longleftrightarrow> points_to (seed_all cs) x \<noteq> {}"
proof -
  have "(\<forall>x. bt_get (pts r) x \<noteq> None \<longleftrightarrow> points_to r x \<noteq> {}) \<Longrightarrow>
      bt_get (pts (fold (\<lambda>c result. case c of Seed target loc \<Rightarrow> snd (insert_pts target loc result) | _ \<Rightarrow> result) cs r)) x \<noteq> None
      \<longleftrightarrow> points_to (fold (\<lambda>c result. case c of Seed target loc \<Rightarrow> snd (insert_pts target loc result) | _ \<Rightarrow> result) cs r) x \<noteq> {}" for r
  proof (induction cs arbitrary: r)
    case (Cons c cs)
    have "\<forall>x. bt_get (pts (snd (insert_pts t l r))) x \<noteq> None \<longleftrightarrow> points_to (snd (insert_pts t l r)) x \<noteq> {}" for t l
      using Cons.prems
      by (auto simp: insert_pts_def insert_loc_def points_to_def locs_at_def bt_get_insert split: option.splits)
    with Cons show ?case by (cases c) auto
  qed simp
  then show ?thesis
    by (simp add: seed_all_def alias_default_def points_to_def locs_at_def bt_get_def)
qed

lemma initial_settled:
  fixes cs :: "inclusion list"
  assumes "\<And>ks. set (hash_order ks) = set ks"
  defines "st \<equiv> initial_state hash_order cs (source_index cs)"
  shows "settled cs st" "seeds_hold cs st" "solver_result st = seed_all cs"
proof -
  let ?st0 = "\<lparr>solver_result = seed_all cs, worklist = [], in_worklist = replicate (length cs) False\<rparr>"
  let ?f = "\<lambda>ptr st. if bt_get (pts (solver_result st)) ptr \<noteq> None
         then fold enqueue (the (bt_get (source_index cs) ptr)) st else st"
  have fin: "finite {l. Seed x l \<in> set cs}" for x
  proof -
    have "{l. Seed x l \<in> set cs} \<subseteq> (\<lambda>c. case c of Seed _ l \<Rightarrow> l | _ \<Rightarrow> []) ` set cs" by force
    then show ?thesis by (rule finite_subset) simp
  qed
  have q0: "queue_wf cs ?st0" by (simp add: queue_wf_def seed_all_view fin)
  have "queue_wf cs (fold ?f ks st) \<and> solver_result (fold ?f ks st) = seed_all cs \<and>
      set (worklist (fold ?f ks st)) = set (worklist st) \<union>
        (\<Union>k \<in> {k \<in> set ks. points_to (seed_all cs) k \<noteq> {}}. set (dependents (source_index cs) k))"
    if "queue_wf cs st" "solver_result st = seed_all cs" "set ks \<subseteq> set (bt_keys (source_index cs))" for ks st
    using that
  proof (induction ks arbitrary: st)
    case (Cons k ks)
    obtain xs where xs: "bt_get (source_index cs) k = Some xs" using Cons.prems(3) by (auto simp: bt_keys_iff)
    then have d: "dependents (source_index cs) k = xs" by (simp add: dependents_def)
    then have "set xs \<subseteq> {..<length cs}" using source_index_get [of cs k] by auto
    note e = enqueue_all [OF Cons.prems(1) this]
    show ?case using Cons.IH [of st] Cons.IH [OF e(1)] Cons.prems e xs d seed_all_key by auto
  qed simp
  from this [OF q0, of "hash_order (bt_keys (source_index cs))"]
  have st: "queue_wf cs st" "solver_result st = seed_all cs" "set (worklist st) =
      (\<Union>k \<in> {k \<in> set (bt_keys (source_index cs)). points_to (seed_all cs) k \<noteq> {}}. set (dependents (source_index cs) k))"
    using assms(1) by (simp_all add: st_def initial_state_def)
  show "solver_result st = seed_all cs" by (rule st(2))
  show "seeds_hold cs st" by (simp add: seeds_hold_def st(2) seed_all_view)
  have "satisfied (pview st) (mview st) (cs ! j)" if j: "j < length cs" "j \<notin> set (worklist st)" for j
  proof -
    have none: "points_to (seed_all cs) k = {}" if k: "k \<in> set (constraint_sources (cs ! j))" for k
    proof (rule ccontr)
      assume "points_to (seed_all cs) k \<noteq> {}"
      moreover have "j \<in> set (dependents (source_index cs) k)" using j(1) k by (simp add: source_index_get)
      moreover have "k \<in> set (bt_keys (source_index cs))"
        using calculation(2) by (cases "bt_get (source_index cs) k") (auto simp: dependents_def bt_keys_iff)
      ultimately show False using j(2) st(3) by blast
    qed
    show ?thesis
      using none j(1) nth_mem [OF j(1)] by (cases "cs ! j") (auto simp: st(2) seed_all_view)
  qed
  with st(1) show "settled cs st" by (simp add: settled_def)
qed

lemma initial_bounded:
  assumes "\<And>ks. set (hash_order ks) = set ks" "solution cs P M"
  shows "bounded_by P M (initial_state hash_order cs (source_index cs))"
proof -
  have "l \<in> P t" if "Seed t l \<in> set cs" for t l using assms(2) that by (force simp: solution_def)
  then show ?thesis
    using initial_settled(3) [OF assms(1)] by (auto simp: bounded_by_def le_fun_def seed_all_view)
qed

section \<open>The loop\<close>

lemma loop_result:
  assumes "solve_loop cs (source_index cs) st = Some r" "settled cs st" "seeds_hold cs st"
  shows "solution cs (points_to r) (stored_into r) \<and>
    (\<forall>P M. solution cs P M \<and> bounded_by P M st \<longrightarrow> points_to r \<le> P \<and> stored_into r \<le> M) \<and>
      (\<forall>x. finite (points_to r x) \<and> finite (stored_into r x))"
proof -
  let ?Q = "\<lambda>cs index st r. index = source_index cs \<longrightarrow> settled cs st \<longrightarrow> seeds_hold cs st \<longrightarrow>
      solution cs (points_to r) (stored_into r) \<and>
      (\<forall>P M. solution cs P M \<and> bounded_by P M st \<longrightarrow> points_to r \<le> P \<and> stored_into r \<le> M) \<and>
      (\<forall>x. finite (points_to r x) \<and> finite (stored_into r x))"
  have "?Q cs (source_index cs) st r"
  proof (rule solve_loop.raw_induct [where P = ?Q, OF _ assms(1)])
    fix loop cs index st r
    assume IH: "\<And>cs index st r. loop cs index st = Some r \<Longrightarrow> ?Q cs index st r"
      and step: "(case worklist st of [] \<Rightarrow> Some (solver_result st)
        | i # rest \<Rightarrow> loop cs index (solver_iteration cs index i rest st)) = Some r"
    show "?Q cs index st r"
    proof (intro impI)
      assume s: "index = source_index cs" "settled cs st" "seeds_hold cs st"
      show "solution cs (points_to r) (stored_into r) \<and>
        (\<forall>P M. solution cs P M \<and> bounded_by P M st \<longrightarrow> points_to r \<le> P \<and> stored_into r \<le> M) \<and>
      (\<forall>x. finite (points_to r x) \<and> finite (stored_into r x))"
      proof (cases "worklist st")
        case Nil
        with step have "r = solver_result st" by simp
        then show ?thesis using s(2) Nil
          by (auto simp: settled_def solution_def in_set_conv_nth bounded_by_def queue_wf_def)
      next
        case (Cons i rest)
        with step have "loop cs index (solver_iteration cs index i rest st) = Some r" by simp
        then show ?thesis
          using IH iteration_settled [OF s(2) Cons s(3)] iteration_bounded [OF s(2) Cons] s(1) by blast
      qed
    qed
  qed
  with assms(2,3) show ?thesis by blast
qed

text \<open>Inside a finite solution every iteration adds a fact or shortens the queue.\<close>

definition progress :: "points \<Rightarrow> points \<Rightarrow> (solver_state \<times> solver_state) set" where
  "progress P M = inv_image (less_than <*lex*> less_than)
     (\<lambda>st. (card (facts P - facts (pview st)) + card (facts M - facts (mview st)), length (worklist st)))"

lemma card_left:
  assumes "finite (facts P)" "p \<le> q" "q \<le> P"
  shows "card (facts P - facts q) \<le> card (facts P - facts p)"
    "p \<noteq> q \<Longrightarrow> card (facts P - facts q) < card (facts P - facts p)"
proof -
  have le: "facts p \<subseteq> facts q" "facts q \<subseteq> facts P" using assms(2,3) by (simp_all add: facts_mono)
  then show "card (facts P - facts q) \<le> card (facts P - facts p)" using assms(1) by (intro card_mono) auto
  assume "p \<noteq> q"
  then have "facts p \<noteq> facts q" using assms(2) facts_mono by (metis order_antisym order_refl)
  then show "card (facts P - facts q) < card (facts P - facts p)"
    using assms(1) le by (intro psubset_card_mono) auto
qed

lemma iteration_progress:
  assumes "settled cs st" "worklist st = i # rest" "solution cs P M" "bounded_by P M st"
    and "finite (facts P)" "finite (facts M)"
  shows "(solver_iteration cs (source_index cs) i rest st, st) \<in> progress P M"
proof -
  define v where "v = st\<lparr>worklist := rest, in_worklist := (in_worklist st)[i := False]\<rparr>"
  note p = iteration_parts [OF assms(1,2), folded v_def]
  let ?u = "solver_iteration cs (source_index cs) i rest st"
  have adv: "advances cs v ?u" using apply_constraint_effect [OF p(1), of "cs ! i"] p(5) by simp
  then have le: "pview st \<le> pview ?u" "mview st \<le> mview ?u" using p(3,4) by (simp_all add: advances_def)
  have b: "pview ?u \<le> P" "mview ?u \<le> M"
    using iteration_bounded [OF assms(1-4)] by (simp_all add: bounded_by_def)
  note c = card_left [OF assms(5) le(1) b(1)] card_left [OF assms(6) le(2) b(2)]
  show ?thesis
  proof (cases "pview st = pview ?u \<and> mview st = mview ?u")
    case True
    then have "worklist ?u = rest" using adv p(3,4) by (auto simp: advances_def v_def)
    with True assms(2) show ?thesis by (simp add: progress_def)
  next
    case False
    then have "card (facts P - facts (pview ?u)) + card (facts M - facts (mview ?u))
        < card (facts P - facts (pview st)) + card (facts M - facts (mview st))"
      using c by (cases "pview st = pview ?u") (auto intro: add_le_less_mono add_less_le_mono)
    then show ?thesis by (simp add: progress_def)
  qed
qed

lemma loop_returns:
  assumes "settled cs st" "seeds_hold cs st" "solution cs P M" "bounded_by P M st"
    and "finite (facts P)" "finite (facts M)"
  shows "\<exists>r. solve_loop cs (source_index cs) st = Some r"
proof -
  have "wf (progress P M)" by (simp add: progress_def wf_lex_prod)
  then show ?thesis using assms(1,2,4)
  proof (induction st rule: wf_induct_rule)
    case (less st)
    show ?case
    proof (cases "worklist st")
      case (Cons i rest)
      show ?thesis
        using less.IH [OF iteration_progress [OF less.prems(1) Cons assms(3) less.prems(3) assms(5,6)]
            iteration_settled [OF less.prems(1) Cons less.prems(2)]
            iteration_bounded [OF less.prems(1) Cons assms(3) less.prems(3)]] Cons
        by (simp add: solve_loop.simps [of cs _ st])
    qed (simp add: solve_loop.simps)
  qed
qed

lemma finite_facts_of:
  assumes "\<And>x. finite (locs_at m x)"
  shows "finite (facts (locs_at m))"
proof -
  have "facts (locs_at m) \<subseteq> (\<Union>x \<in> set (bt_keys m). Pair x ` locs_at m x)"
  proof clarify
    fix x l
    assume "(x, l) \<in> facts (locs_at m)"
    then have l: "l \<in> locs_at m x" by (simp add: facts_def)
    then have "x \<in> set (bt_keys m)"
      unfolding bt_keys_iff by (cases "bt_get m x") (auto simp: locs_at_def)
    with l show "(x, l) \<in> (\<Union>x \<in> set (bt_keys m). Pair x ` locs_at m x)" by blast
  qed
  then show ?thesis by (rule finite_subset) (simp add: assms)
qed

lemma solve_facts:
  assumes "\<And>ks. set (hash_order ks) = set ks" "solve hash_order cs = Some r"
  shows "solution cs (points_to r) (stored_into r)" "finite (facts (points_to r))" "finite (facts (stored_into r))"
    and "solution cs P M \<Longrightarrow> points_to r \<le> P \<and> stored_into r \<le> M"
proof -
  have loop: "solve_loop cs (source_index cs) (initial_state hash_order cs (source_index cs)) = Some r"
    using assms(2) by (simp add: solve_def Let_def)
  note l = loop_result [OF loop initial_settled(1,2) [OF assms(1)]]
  show "solution cs (points_to r) (stored_into r)" using l by blast
  show "solution cs P M \<Longrightarrow> points_to r \<le> P \<and> stored_into r \<le> M" using l initial_bounded [OF assms(1)] by blast
  have "finite (locs_at (pts r) x)" "finite (locs_at (pts_mem r) x)" for x
    using l by (auto simp: points_to_def stored_into_def)
  then show "finite (facts (points_to r))" "finite (facts (stored_into r))"
    unfolding points_to_def [abs_def] stored_into_def [abs_def] by (blast intro: finite_facts_of)+
qed

section \<open>Properties\<close>

text \<open>
  C33: the pointer analysis computes what its specification says: a returned result is the least
  solution of the inclusion constraints, whatever the iteration order of the maps.
\<close>

theorem solve_least_solution:
  assumes "\<And>ks. set (hash_order ks) = set ks" and "solve hash_order cs = Some r"
  shows "solution cs (points_to r) (stored_into r)
    \<and> (\<forall>P M. solution cs P M \<longrightarrow> points_to r \<le> P \<and> stored_into r \<le> M)"
  using solve_facts [OF assms] by blast

text \<open>
  C34: termination of the worklist loop: it returns exactly when the constraints have a finite
  solution.
\<close>

theorem solve_returns_iff:
  assumes "\<And>ks. set (hash_order ks) = set ks"
  shows "(\<exists>r. solve hash_order cs = Some r)
    \<longleftrightarrow> (\<exists>P M. solution cs P M \<and> finite (facts P) \<and> finite (facts M))"
  using solve_facts [OF assms, of cs] loop_returns [OF initial_settled(1,2) [OF assms], of cs]
    initial_bounded [OF assms, of cs] unfolding solve_def Let_def by blast

section \<open>Examples\<close>

text \<open>Without struct fields a finite solution always exists.\<close>

fun constraint_target :: "inclusion \<Rightarrow> string list" where
  "constraint_target (Seed t _) = [t]"
| "constraint_target (Copy t _) = [t]"
| "constraint_target (StructField t _ _) = [t]"
| "constraint_target (LoadPtr t _) = [t]"
| "constraint_target (StorePtr _ _) = []"

definition seeded_locs :: "inclusion list \<Rightarrow> abstract_loc set" where
  "seeded_locs cs = {l. \<exists>t. Seed t l \<in> set cs}"

lemma finite_seeded: "finite (seeded_locs cs)"
proof -
  have "seeded_locs cs \<subseteq> (\<lambda>c. case c of Seed _ l \<Rightarrow> l | _ \<Rightarrow> []) ` set cs" by (force simp: seeded_locs_def)
  then show ?thesis by (rule finite_subset) simp
qed

lemma solve_returns_without_fields:
  assumes "\<And>ks. set (hash_order ks) = set ks" "\<And>t s fi. StructField t s fi \<notin> set cs"
  shows "\<exists>r. solve hash_order cs = Some r"
proof -
  define T where "T = (\<Union>c \<in> set cs. set (constraint_target c))"
  define L where "L = seeded_locs cs"
  let ?P = "\<lambda>x. if x \<in> T then L else {}" and ?M = "\<lambda>g. if g \<in> L then L else {}"
  have "satisfied ?P ?M c" if c: "c \<in> set cs" for c
  proof -
    have "t \<in> T" if "t \<in> set (constraint_target c)" for t using that c by (auto simp: T_def)
    moreover have "l \<in> L" if "c = Seed t l" for t l using that c by (auto simp: L_def seeded_locs_def)
    ultimately show ?thesis using c assms(2) by (cases c) (auto split: if_splits)
  qed
  then have "solution cs ?P ?M" by (simp add: solution_def)
  note sol = this
  have "facts ?P \<subseteq> T \<times> L" "facts ?M \<subseteq> L \<times> L" by (auto simp: facts_def split: if_splits)
  moreover have "finite T" "finite L" using finite_seeded [of cs] by (simp_all add: T_def L_def)
  ultimately have "finite (facts ?P)" "finite (facts ?M)" by (auto intro: finite_subset)
  then show ?thesis
    using sol loop_returns [OF initial_settled(1,2) [OF assms(1)] sol initial_bounded [OF assms(1) sol]]
    by (simp add: solve_def Let_def)
qed

text \<open>
  A pointer that walks into a field of its own target, \<open>p = &x; loop p = &p->f\<close>: the set of \<open>p\<close>
  has no finite solution, and the loop of the solver does not end.
\<close>

definition field_walk :: "inclusion list" where
  "field_walk = [Seed ''p'' ''x'', StructField ''q'' ''p'' 1, Copy ''p'' ''q'']"

lemma field_walk_diverges:
  assumes "\<And>ks. set (hash_order ks) = set ks"
  shows "solve hash_order field_walk = None"
proof (rule ccontr)
  assume "solve hash_order field_walk \<noteq> None"
  then obtain r where "solve hash_order field_walk = Some r" by blast
  note s = solve_facts [OF assms this]
  define loc :: "nat \<Rightarrow> abstract_loc" where "loc k = ((\<lambda>l. loc_field l 1) ^^ k) ''x''" for k
  have mem: "loc k \<in> points_to r ''p''" for k
    using s(1) by (induction k) (auto simp: loc_def solution_def field_walk_def)
  have "length (loc k) < length (loc (Suc k))" for k by (simp add: loc_def loc_field_def)
  then have "strict_mono (\<lambda>k. length (loc k))" by (simp add: strict_mono_Suc_iff)
  then have "inj loc" by (metis strict_mono_eq injI)
  then have "infinite (range loc)" using finite_imageD infinite_UNIV_nat by blast
  moreover have "finite (points_to r ''p'')"
  proof -
    have "points_to r ''p'' \<subseteq> snd ` facts (points_to r)" by (force simp: facts_def)
    then show ?thesis using s(2) by (meson finite_imageI finite_subset)
  qed
  ultimately show False using mem by (meson finite_subset image_subsetI)
qed

text \<open>\<open>q\<close> holds \<open>p\<close>; \<open>r\<close> loads from \<open>q\<close>.\<close>

definition slot_example :: "inclusion list" where
  "slot_example = [Seed ''p'' ''s0'', Seed ''q'' ''s1'', StorePtr ''q'' ''p'', LoadPtr ''r'' ''q'']"

lemma slot_solved: "\<exists>r. solve rev slot_example = Some r \<and> points_to r ''r'' = {''s0''}"
proof -
  have "case solve rev slot_example of None \<Rightarrow> False | Some r \<Rightarrow> points_to r ''r'' = {''s0''}" by code_simp
  then show ?thesis by (auto split: option.splits)
qed

theorem solve_least_witness:
  "\<exists>r. solve rev slot_example = Some r \<and> solution slot_example (points_to r) (stored_into r)"
  using slot_solved solve_least_solution [of rev slot_example] by auto

theorem solve_returns_witness:
  "\<not> (\<exists>P M. solution field_walk P M \<and> finite (facts P) \<and> finite (facts M))"
  using solve_returns_iff [of rev field_walk] field_walk_diverges [of rev] by simp

end
