(* ===== verification/Pointers_Correct.thy ===== *)
theory Pointers_Correct
  imports Andersen_Correct Program_Graph_Correct
begin

text \<open>
  The pointer analysis against executions of the instructions (\<open>collect_constraints\<close> and \<open>solve\<close> of
  \<open>src/pointer_analysis/andersen.rs\<close>): addresses have regions, and the pointer instructions of a module move addresses
  between names and memory cells.  The region of every address a name or a cell ever holds is in its set.
\<close>

section \<open>Executions\<close>

text \<open>
  What names and cells hold; \<open>place\<close> gives the region of an address.  Names are qualified by their
  function, as in the analysis.
\<close>

type_synonym address = nat

record pointer_memory =
  holds :: "string \<rightharpoonup> address"
  cells :: "address \<rightharpoonup> address"

definition assign_name :: "string \<Rightarrow> address \<Rightarrow> pointer_memory \<Rightarrow> pointer_memory" where
  "assign_name x a s = s\<lparr>holds := (holds s)(x \<mapsto> a)\<rparr>"

definition write_cell :: "address \<Rightarrow> address \<Rightarrow> pointer_memory \<Rightarrow> pointer_memory" where
  "write_cell a b s = s\<lparr>cells := (cells s)(a \<mapsto> b)\<rparr>"







section \<open>The constraints of an instruction\<close>












section \<open>Soundness\<close>




text \<open>The sets of a solution cover a state when the regions of all held addresses are in them.\<close>

definition regions_covered :: "(address \<Rightarrow> abstract_loc) \<Rightarrow> points \<Rightarrow> points \<Rightarrow> pointer_memory \<Rightarrow> bool" where
  "regions_covered place P M s \<longleftrightarrow> (\<forall>x a. holds s x = Some a \<longrightarrow> place a \<in> P x) \<and>
     (\<forall>a b. cells s a = Some b \<longrightarrow> place b \<in> M (place a))"

lemma regions_covered_assign [intro]:
  "regions_covered place P M s \<Longrightarrow> place a \<in> P x \<Longrightarrow> regions_covered place P M (assign_name x a s)"
  by (auto simp: regions_covered_def assign_name_def split: if_splits)

lemma regions_covered_write [intro]:
  "regions_covered place P M s \<Longrightarrow> place b \<in> M (place a) \<Longrightarrow> regions_covered place P M (write_cell a b s)"
  by (auto simp: regions_covered_def write_cell_def split: if_splits)










end
