(* ===== verification/Lowering.thy ===== *)
theory Lowering
  imports Oracle
begin

text \<open>
  The lowering of formulas to Z3 (\<open>src/smt/solver.rs\<close>).  The Z3 bindings are not part of the
  repository: the constructors of its syntax trees, its check and its models are the record
  \<open>z3\<close>, an argument of every definition here.  A scope is the asserted trees with the caches of
  the declared constants; lowering threads it and keeps it when it fails, as the \<open>&mut self\<close>
  methods do.
\<close>

section \<open>The bindings\<close>

datatype comparison = CmpLt | CmpLe | CmpGt | CmpGe

datatype arithmetic_op = ArithAdd | ArithSub | ArithMul

record ('b, 'i, 'r) z3_model =
  model_bool :: "'b \<Rightarrow> bool option"
  model_int :: "'i \<Rightarrow> i64 option"
  model_rational :: "'r \<Rightarrow> (i64 \<times> i64) option"

record ('b, 'i, 'r, 'a) z3 =
  z3_bool :: "bool \<Rightarrow> 'b"
  z3_bool_const :: "string \<Rightarrow> 'b"
  z3_not :: "'b \<Rightarrow> 'b"
  z3_and :: "'b list \<Rightarrow> 'b"
  z3_or :: "'b list \<Rightarrow> 'b"
  z3_implies :: "'b \<Rightarrow> 'b \<Rightarrow> 'b"
  z3_ite :: "'b \<Rightarrow> 'i \<Rightarrow> 'i \<Rightarrow> 'i"
  z3_int :: "i64 \<Rightarrow> 'i"
  z3_int_const :: "string \<Rightarrow> 'i"
  z3_int_arith :: "arithmetic_op \<Rightarrow> 'i list \<Rightarrow> 'i"
  z3_int_div :: "'i \<Rightarrow> 'i \<Rightarrow> 'i"
  z3_int_rem :: "'i \<Rightarrow> 'i \<Rightarrow> 'i"
  z3_int_neg :: "'i \<Rightarrow> 'i"
  z3_int_eq :: "'i \<Rightarrow> 'i \<Rightarrow> 'b"
  z3_int_cmp :: "comparison \<Rightarrow> 'i \<Rightarrow> 'i \<Rightarrow> 'b"
  z3_rational :: "i64 \<Rightarrow> i64 \<Rightarrow> 'r"
  z3_real_const :: "string \<Rightarrow> 'r"
  z3_real_arith :: "arithmetic_op \<Rightarrow> 'r list \<Rightarrow> 'r"
  z3_real_div :: "'r \<Rightarrow> 'r \<Rightarrow> 'r"
  z3_real_neg :: "'r \<Rightarrow> 'r"
  z3_real_eq :: "'r \<Rightarrow> 'r \<Rightarrow> 'b"
  z3_real_cmp :: "comparison \<Rightarrow> 'r \<Rightarrow> 'r \<Rightarrow> 'b"
  z3_array_const :: "string \<Rightarrow> 'a"
  z3_array_eq :: "'a \<Rightarrow> 'a \<Rightarrow> 'b"
  z3_select :: "'a \<Rightarrow> 'i \<Rightarrow> 'i"
  z3_store :: "'a \<Rightarrow> 'i \<Rightarrow> 'i \<Rightarrow> 'a"
  z3_check :: "'b list \<Rightarrow> sat_result"
  z3_get_model :: "'b list \<Rightarrow> ('b, 'i, 'r) z3_model option"

section \<open>Scopes\<close>

record ('b, 'i, 'r, 'a) smt_scope =
  scope_asserted :: "'b list"
  bool_vars :: "(string, 'b) btree"
  int_vars :: "(string, 'i) btree"
  real_vars :: "(string, 'r) btree"
  memory_vars :: "(string, 'a) btree"

definition smt_scope_new :: "('b, 'i, 'r, 'a) smt_scope" where
  "smt_scope_new = \<lparr>scope_asserted = [], bool_vars = [], int_vars = [], real_vars = [], memory_vars = []\<rparr>"

type_synonym ('b, 'i, 'r, 'a, 'x) lowering =
  "('b, 'i, 'r, 'a) smt_scope \<Rightarrow> (formula_error + 'x) \<times> ('b, 'i, 'r, 'a) smt_scope"

definition lret :: "'x \<Rightarrow> ('b, 'i, 'r, 'a, 'x) lowering" where
  "lret x = (\<lambda>sc. (Inr x, sc))"

definition lfail :: "formula_error \<Rightarrow> ('b, 'i, 'r, 'a, 'x) lowering" where
  "lfail e = (\<lambda>sc. (Inl e, sc))"

definition lbind ::
  "('b, 'i, 'r, 'a, 'x) lowering \<Rightarrow> ('x \<Rightarrow> ('b, 'i, 'r, 'a, 'y) lowering) \<Rightarrow> ('b, 'i, 'r, 'a, 'y) lowering"
where
  "lbind m f = (\<lambda>sc. case m sc of (Inl e, sc) \<Rightarrow> (Inl e, sc) | (Inr x, sc) \<Rightarrow> f x sc)"

text \<open>\<open>collect\<close> into a \<open>Result\<close>: the first error ends the iteration.\<close>

fun lcollect :: "('b, 'i, 'r, 'a, 'x) lowering list \<Rightarrow> ('b, 'i, 'r, 'a, 'x list) lowering" where
  "lcollect [] = lret []"
| "lcollect (m # ms) = lbind m (\<lambda>x. lbind (lcollect ms) (\<lambda>xs. lret (x # xs)))"

text \<open>\<open>entry(name).or_insert_with(..).clone()\<close>\<close>

definition cached_entry :: "string \<Rightarrow> 'v \<Rightarrow> (string, 'v) btree \<Rightarrow> 'v \<times> (string, 'v) btree" where
  "cached_entry name fresh m = (case bt_get m name of Some v \<Rightarrow> (v, m) | None \<Rightarrow> (fresh, bt_insert name fresh m))"

definition bool_var :: "('b, 'i, 'r, 'a) z3 \<Rightarrow> string \<Rightarrow> ('b, 'i, 'r, 'a, 'b) lowering" where
  "bool_var z name = (\<lambda>sc. let (v, m) = cached_entry name (z3_bool_const z name) (bool_vars sc) in
     (Inr v, sc\<lparr>bool_vars := m\<rparr>))"

definition int_var :: "('b, 'i, 'r, 'a) z3 \<Rightarrow> string \<Rightarrow> ('b, 'i, 'r, 'a, 'i) lowering" where
  "int_var z name = (\<lambda>sc. let (v, m) = cached_entry name (z3_int_const z name) (int_vars sc) in
     (Inr v, sc\<lparr>int_vars := m\<rparr>))"

definition real_var :: "('b, 'i, 'r, 'a) z3 \<Rightarrow> string \<Rightarrow> ('b, 'i, 'r, 'a, 'r) lowering" where
  "real_var z name = (\<lambda>sc. let (v, m) = cached_entry name (z3_real_const z name) (real_vars sc) in
     (Inr v, sc\<lparr>real_vars := m\<rparr>))"

definition memory_var :: "('b, 'i, 'r, 'a) z3 \<Rightarrow> string \<Rightarrow> ('b, 'i, 'r, 'a, 'a) lowering" where
  "memory_var z name = (\<lambda>sc. let (v, m) = cached_entry name (z3_array_const z name) (memory_vars sc) in
     (Inr v, sc\<lparr>memory_vars := m\<rparr>))"

section \<open>Lowering\<close>

datatype ('i, 'r) encoded_term = EncInt 'i | EncReal 'r

fun encoded_int :: "('i, 'r) encoded_term \<Rightarrow> ('b, 'i, 'r, 'a, 'i) lowering" where
  "encoded_int (EncInt i) = lret i"
| "encoded_int (EncReal _) = lfail (ExpectedIntegerSort SReal)"

fun combine_terms ::
  "('b, 'i, 'r, 'a) z3 \<Rightarrow> arithmetic_op \<Rightarrow> ('i, 'r) encoded_term \<Rightarrow> ('i, 'r) encoded_term
    \<Rightarrow> ('b, 'i, 'r, 'a, ('i, 'r) encoded_term) lowering" where
  "combine_terms z op (EncInt l) (EncInt r) = lret (EncInt (z3_int_arith z op [l, r]))"
| "combine_terms z op (EncReal l) (EncReal r) = lret (EncReal (z3_real_arith z op [l, r]))"
| "combine_terms z op (EncInt _) (EncReal _) = lfail (MixedSorts SInt SReal)"
| "combine_terms z op (EncReal _) (EncInt _) = lfail (MixedSorts SReal SInt)"

fun compare_terms ::
  "('b, 'i, 'r, 'a) z3 \<Rightarrow> comparison \<Rightarrow> ('i, 'r) encoded_term \<Rightarrow> ('i, 'r) encoded_term
    \<Rightarrow> ('b, 'i, 'r, 'a, 'b) lowering" where
  "compare_terms z op (EncInt l) (EncInt r) = lret (z3_int_cmp z op l r)"
| "compare_terms z op (EncReal l) (EncReal r) = lret (z3_real_cmp z op l r)"
| "compare_terms z op (EncInt _) (EncReal _) = lfail (MixedSorts SInt SReal)"
| "compare_terms z op (EncReal _) (EncInt _) = lfail (MixedSorts SReal SInt)"

fun equate_terms ::
  "('b, 'i, 'r, 'a) z3 \<Rightarrow> ('i, 'r) encoded_term \<Rightarrow> ('i, 'r) encoded_term \<Rightarrow> ('b, 'i, 'r, 'a, 'b) lowering"
where
  "equate_terms z (EncInt l) (EncInt r) = lret (z3_int_eq z l r)"
| "equate_terms z (EncReal l) (EncReal r) = lret (z3_real_eq z l r)"
| "equate_terms z (EncInt _) (EncReal _) = lfail (MixedSorts SInt SReal)"
| "equate_terms z (EncReal _) (EncInt _) = lfail (MixedSorts SReal SInt)"

fun divide_terms ::
  "('b, 'i, 'r, 'a) z3 \<Rightarrow> ('i, 'r) encoded_term \<Rightarrow> ('i, 'r) encoded_term
    \<Rightarrow> ('b, 'i, 'r, 'a, ('i, 'r) encoded_term) lowering" where
  "divide_terms z (EncInt l) (EncInt r) = lret (EncInt (z3_int_div z l r))"
| "divide_terms z (EncReal l) (EncReal r) = lret (EncReal (z3_real_div z l r))"
| "divide_terms z (EncInt _) (EncReal _) = lfail (MixedSorts SInt SReal)"
| "divide_terms z (EncReal _) (EncInt _) = lfail (MixedSorts SReal SInt)"

fun remainder_terms ::
  "('b, 'i, 'r, 'a) z3 \<Rightarrow> ('i, 'r) encoded_term \<Rightarrow> ('i, 'r) encoded_term
    \<Rightarrow> ('b, 'i, 'r, 'a, ('i, 'r) encoded_term) lowering" where
  "remainder_terms z (EncInt l) (EncInt r) = lret (EncInt (z3_int_rem z l r))"
| "remainder_terms z (EncInt _) (EncReal _) = lfail (MixedSorts SInt SReal)"
| "remainder_terms z (EncReal _) (EncInt _) = lfail (MixedSorts SReal SInt)"
| "remainder_terms z (EncReal _) (EncReal _) = lfail (ExpectedIntegerSort SReal)"

fun negate_term ::
  "('b, 'i, 'r, 'a) z3 \<Rightarrow> ('i, 'r) encoded_term \<Rightarrow> ('b, 'i, 'r, 'a, ('i, 'r) encoded_term) lowering" where
  "negate_term z (EncInt i) = lret (EncInt (z3_int_neg z i))"
| "negate_term z (EncReal r) = lret (EncReal (z3_real_neg z r))"

definition lift2 ::
  "('b, 'i, 'r, 'a, 'x) lowering \<Rightarrow> ('b, 'i, 'r, 'a, 'y) lowering \<Rightarrow> ('x \<Rightarrow> 'y \<Rightarrow> ('b, 'i, 'r, 'a, 'w) lowering)
    \<Rightarrow> ('b, 'i, 'r, 'a, 'w) lowering" where
  "lift2 m n f = lbind m (\<lambda>x. lbind n (f x))"

primrec lower_memory :: "('b, 'i, 'r, 'a) z3 \<Rightarrow> memory \<Rightarrow> ('b, 'i, 'r, 'a, 'a) lowering"
  and lower_term :: "('b, 'i, 'r, 'a) z3 \<Rightarrow> fterm \<Rightarrow> ('b, 'i, 'r, 'a, ('i, 'r) encoded_term) lowering"
  and lower_formula :: "('b, 'i, 'r, 'a) z3 \<Rightarrow> formula \<Rightarrow> ('b, 'i, 'r, 'a, 'b) lowering" where
  "lower_memory z (MVar name) = memory_var z name"
| "lower_memory z (MStore m index val) =
     lbind (lower_memory z m) (\<lambda>m. lbind (lbind (lower_term z index) encoded_int) (\<lambda>index.
       lbind (lbind (lower_term z val) encoded_int) (\<lambda>val. lret (z3_store z m index val))))"
| "lower_term z (TVar v) =
     (case var_sort v of
        SInt \<Rightarrow> lbind (int_var z (var_name v)) (\<lambda>i. lret (EncInt i))
      | SReal \<Rightarrow> lbind (real_var z (var_name v)) (\<lambda>r. lret (EncReal r))
      | SBool \<Rightarrow> lfail (ExpectedNumericSort SBool))"
| "lower_term z (TInt n) = lret (EncInt (z3_int z n))"
| "lower_term z (TReal q) = lret (EncReal (z3_rational z (rat_num q) (rat_den q)))"
| "lower_term z (TBoolToInt f) =
     lbind (lower_formula z f) (\<lambda>condition. lret (EncInt (z3_ite z condition (z3_int z 1) (z3_int z 0))))"
| "lower_term z (TSelect m index) =
     lbind (lower_memory z m) (\<lambda>m. lbind (lbind (lower_term z index) encoded_int) (\<lambda>index.
       lret (EncInt (z3_select z m index))))"
| "lower_term z (TAdd l r) = lift2 (lower_term z l) (lower_term z r) (combine_terms z ArithAdd)"
| "lower_term z (TSub l r) = lift2 (lower_term z l) (lower_term z r) (combine_terms z ArithSub)"
| "lower_term z (TMul l r) = lift2 (lower_term z l) (lower_term z r) (combine_terms z ArithMul)"
| "lower_term z (TDiv l r) = lift2 (lower_term z l) (lower_term z r) (divide_terms z)"
| "lower_term z (TRem l r) = lift2 (lower_term z l) (lower_term z r) (remainder_terms z)"
| "lower_term z (TNeg t) = lbind (lower_term z t) (negate_term z)"
| "lower_formula z FTrue = lret (z3_bool z True)"
| "lower_formula z FFalse = lret (z3_bool z False)"
| "lower_formula z (FVar v) =
     (if var_sort v = SBool then bool_var z (var_name v) else lfail (ExpectedBooleanSort (var_sort v)))"
| "lower_formula z (FNot f) = lbind (lower_formula z f) (\<lambda>b. lret (z3_not z b))"
| "lower_formula z (FAnd fs) = lbind (lcollect (map (lower_formula z) fs)) (\<lambda>bs. lret (z3_and z bs))"
| "lower_formula z (FOr fs) = lbind (lcollect (map (lower_formula z) fs)) (\<lambda>bs. lret (z3_or z bs))"
| "lower_formula z (FImplies f g) =
     lift2 (lower_formula z f) (lower_formula z g) (\<lambda>b c. lret (z3_implies z b c))"
| "lower_formula z (FEq l r) = lift2 (lower_term z l) (lower_term z r) (equate_terms z)"
| "lower_formula z (FMemoryEq m n) =
     lift2 (lower_memory z m) (lower_memory z n) (\<lambda>a b. lret (z3_array_eq z a b))"
| "lower_formula z (FLt l r) = lift2 (lower_term z l) (lower_term z r) (compare_terms z CmpLt)"
| "lower_formula z (FLe l r) = lift2 (lower_term z l) (lower_term z r) (compare_terms z CmpLe)"
| "lower_formula z (FGt l r) = lift2 (lower_term z l) (lower_term z r) (compare_terms z CmpGt)"
| "lower_formula z (FGe l r) = lift2 (lower_term z l) (lower_term z r) (compare_terms z CmpGe)"

section \<open>Queries\<close>

definition scope_assert ::
  "('b, 'i, 'r, 'a) z3 \<Rightarrow> formula \<Rightarrow> ('b, 'i, 'r, 'a, unit) lowering" where
  "scope_assert z f = (case validate f of
     Inl e \<Rightarrow> lfail e
   | Inr _ \<Rightarrow> lbind (lower_formula z f) (\<lambda>b sc. (Inr (), sc\<lparr>scope_asserted := scope_asserted sc @ [b]\<rparr>)))"

definition scope_check :: "('b, 'i, 'r, 'a) z3 \<Rightarrow> ('b, 'i, 'r, 'a) smt_scope \<Rightarrow> sat_result" where
  "scope_check z sc = z3_check z (scope_asserted sc)"

definition scope_reset :: "('b, 'i, 'r, 'a) smt_scope \<Rightarrow> ('b, 'i, 'r, 'a) smt_scope" where
  "scope_reset sc = sc\<lparr>scope_asserted := []\<rparr>"

definition term_to_z3_int :: "('b, 'i, 'r, 'a) z3 \<Rightarrow> fterm \<Rightarrow> ('b, 'i, 'r, 'a, 'i) lowering" where
  "term_to_z3_int z t = lbind (lower_term z t) encoded_int"

definition quick_sat_check :: "('b, 'i, 'r, 'a) z3 \<Rightarrow> 'b \<Rightarrow> sat_result" where
  "quick_sat_check z condition = z3_check z [condition]"

section \<open>Model extraction\<close>

text \<open>The sampled indices in order, without duplicates.\<close>

definition sample_indices :: "i64 list \<Rightarrow> i64 list" where
  "sample_indices extra = remdups_adj (sort_key sint (0 # extra))"

fun memory_bindings ::
  "string \<Rightarrow> i64 list \<Rightarrow> i64 list \<Rightarrow> smt_model \<Rightarrow> smt_model" where
  "memory_bindings name indices [] result = result"
| "memory_bindings name indices (first # rest) result =
     (if \<forall>val \<in> set (first # rest). val = first
      then result\<lparr>model_memory := model_memory result @ [(name, ArrayDefault (ModelInt first))]\<rparr>
      else result\<lparr>model_scalar := model_scalar result @
        map (\<lambda>(index, val). (var_int (name @ ''['' @ (if sint index < 0 then ''-'' else []) @
            nat_str (nat \<bar>sint index\<bar>) @ '']''), ModelInt val))
          (zip indices (first # rest))\<rparr>)"

text \<open>\<open>Rational::new\<close> can panic, so reading the real constants can.\<close>

fun real_bindings ::
  "bool \<Rightarrow> ('b, 'i, 'r) z3_model \<Rightarrow> (string \<times> 'r) list \<Rightarrow> (var \<times> model_value) list outcome" where
  "real_bindings oc m [] = Returns []"
| "real_bindings oc m ((name, ast) # rest) =
     obind (case model_rational m ast of
         None \<Rightarrow> Returns []
       | Some (num, den) \<Rightarrow> obind (rational_new oc num den) (\<lambda>q. Returns [(var_real name, ModelReal q)]))
       (\<lambda>here. obind (real_bindings oc m rest) (\<lambda>there. Returns (here @ there)))"

definition scope_model_bindings ::
  "bool \<Rightarrow> ('b, 'i, 'r, 'a) z3 \<Rightarrow> i64 list \<Rightarrow> ('b, 'i, 'r, 'a) smt_scope \<Rightarrow> smt_model option outcome" where
  "scope_model_bindings oc z extra sc = (case z3_get_model z (scope_asserted sc) of
     None \<Rightarrow> Returns None
   | Some m \<Rightarrow>
       let bools = List.map_filter (\<lambda>(name, ast).
             map_option (\<lambda>v. (var_bool name, ModelBool v)) (model_bool m ast)) (bool_vars sc);
           ints = List.map_filter (\<lambda>(name, ast).
             map_option (\<lambda>v. (var_int name, ModelInt v)) (model_int m ast)) (int_vars sc) in
       obind (real_bindings oc m (real_vars sc)) (\<lambda>reals.
         let indices = sample_indices extra in
         Returns (Some (fold (\<lambda>(name, array). memory_bindings name indices
             (List.map_filter (\<lambda>index. model_int m (z3_select z array (z3_int z index))) indices))
           (memory_vars sc) \<lparr>model_scalar = bools @ ints @ reals, model_memory = []\<rparr>))))"

text \<open>
  The solver the oracle talks to: a fresh scope per query (\<open>Oracle::feasibility_with_model\<close>), with
  the overflow checks of \<open>Rational::new\<close> off and a panic as no model.
\<close>

definition scope_after :: "('b, 'i, 'r, 'a) z3 \<Rightarrow> formula \<Rightarrow> ('b, 'i, 'r, 'a) smt_scope" where
  "scope_after z f = snd (scope_assert z f smt_scope_new)"

definition scope_solver :: "('b, 'i, 'r, 'a) z3 \<Rightarrow> solver" where
  "scope_solver z = \<lparr>
     assert_formula = (\<lambda>f. fst (scope_assert z f smt_scope_new)),
     check = (\<lambda>f. scope_check z (scope_after z f)),
     model_bindings = (\<lambda>f indices. case scope_model_bindings False z indices (scope_after z f) of
        Returns m \<Rightarrow> m | Panics \<Rightarrow> None)\<rparr>"

end
