(* ===== verification/Lowering_Correct.thy ===== *)
theory Lowering_Correct
  imports Lowering
begin

text \<open>
  The lowering is a refinement: under the documented meaning of the Z3 constructors a lowered
  formula means what the formula means, so a Z3 that decides satisfiability correctly makes the
  solver of the oracle sound.  The sort checker accepts what the lowering accepts, up to reads of
  ill-sorted stores and remainders of reals.
\<close>

section \<open>The meaning of the trees\<close>

record ('b, 'i, 'r, 'a) z3_meaning =
  ev_bool :: "valuation \<Rightarrow> 'b \<Rightarrow> bool"
  ev_int :: "valuation \<Rightarrow> 'i \<Rightarrow> int"
  ev_real :: "valuation \<Rightarrow> 'r \<Rightarrow> real"
  ev_array :: "valuation \<Rightarrow> 'a \<Rightarrow> int \<Rightarrow> int"

fun int_arith :: "arithmetic_op \<Rightarrow> int \<Rightarrow> int \<Rightarrow> int" where
  "int_arith ArithAdd = (+)"
| "int_arith ArithSub = (-)"
| "int_arith ArithMul = (*)"

fun real_arith :: "arithmetic_op \<Rightarrow> real \<Rightarrow> real \<Rightarrow> real" where
  "real_arith ArithAdd = (+)"
| "real_arith ArithSub = (-)"
| "real_arith ArithMul = (*)"

fun compares :: "comparison \<Rightarrow> 'v::linorder \<Rightarrow> 'v \<Rightarrow> bool" where
  "compares CmpLt = (<)"
| "compares CmpLe = (\<le>)"
| "compares CmpGt = (>)"
| "compares CmpGe = (\<ge>)"

text \<open>
  SMT-LIB: the constants read the state, the operators are the arithmetic ones, division is the
  one of the state (it is unspecified at 0), arrays are functions.  A rational has a denominator
  other than 0 by construction.
\<close>

definition bool_laws :: "('b, 'i, 'r, 'a) z3 \<Rightarrow> ('b, 'i, 'r, 'a) z3_meaning \<Rightarrow> valuation \<Rightarrow> bool" where
  "bool_laws z ev s \<longleftrightarrow>
     (\<forall>b. ev_bool ev s (z3_bool z b) = b) \<and>
     (\<forall>n. ev_bool ev s (z3_bool_const z n) = bool_of s (var_bool n)) \<and>
     (\<forall>b. ev_bool ev s (z3_not z b) = (\<not> ev_bool ev s b)) \<and>
     (\<forall>bs. ev_bool ev s (z3_and z bs) = (\<forall>b \<in> set bs. ev_bool ev s b)) \<and>
     (\<forall>bs. ev_bool ev s (z3_or z bs) = (\<exists>b \<in> set bs. ev_bool ev s b)) \<and>
     (\<forall>b c. ev_bool ev s (z3_implies z b c) = (ev_bool ev s b \<longrightarrow> ev_bool ev s c)) \<and>
     (\<forall>i j. ev_bool ev s (z3_int_eq z i j) = (ev_int ev s i = ev_int ev s j)) \<and>
     (\<forall>i j. ev_bool ev s (z3_real_eq z i j) = (ev_real ev s i = ev_real ev s j)) \<and>
     (\<forall>i j. ev_bool ev s (z3_array_eq z i j) = (ev_array ev s i = ev_array ev s j)) \<and>
     (\<forall>c i j. ev_bool ev s (z3_int_cmp z c i j) = compares c (ev_int ev s i) (ev_int ev s j)) \<and>
     (\<forall>c i j. ev_bool ev s (z3_real_cmp z c i j) = compares c (ev_real ev s i) (ev_real ev s j))"

definition int_laws :: "('b, 'i, 'r, 'a) z3 \<Rightarrow> ('b, 'i, 'r, 'a) z3_meaning \<Rightarrow> valuation \<Rightarrow> bool" where
  "int_laws z ev s \<longleftrightarrow>
     (\<forall>n. ev_int ev s (z3_int z n) = sint n) \<and>
     (\<forall>n. scalar_of s (var_int n) = IntV (ev_int ev s (z3_int_const z n))) \<and>
     (\<forall>op i j. ev_int ev s (z3_int_arith z op [i, j]) = int_arith op (ev_int ev s i) (ev_int ev s j)) \<and>
     (\<forall>i j. ev_int ev s (z3_int_div z i j) = int_div_of s (ev_int ev s i) (ev_int ev s j)) \<and>
     (\<forall>i j. ev_int ev s (z3_int_rem z i j) = int_rem_of s (ev_int ev s i) (ev_int ev s j)) \<and>
     (\<forall>i. ev_int ev s (z3_int_neg z i) = - ev_int ev s i) \<and>
     (\<forall>b i j. ev_int ev s (z3_ite z b i j) = (if ev_bool ev s b then ev_int ev s i else ev_int ev s j)) \<and>
     (\<forall>a i. ev_int ev s (z3_select z a i) = ev_array ev s a (ev_int ev s i))"

definition real_laws :: "('b, 'i, 'r, 'a) z3 \<Rightarrow> ('b, 'i, 'r, 'a) z3_meaning \<Rightarrow> valuation \<Rightarrow> bool" where
  "real_laws z ev s \<longleftrightarrow>
     (\<forall>n d. ev_real ev s (z3_rational z n d) = real_of_int (sint n) / real_of_int (sint d)) \<and>
     (\<forall>n. scalar_of s (var_real n) = RealV (ev_real ev s (z3_real_const z n))) \<and>
     (\<forall>op i j. ev_real ev s (z3_real_arith z op [i, j]) = real_arith op (ev_real ev s i) (ev_real ev s j)) \<and>
     (\<forall>i j. ev_real ev s (z3_real_div z i j) = real_div_of s (ev_real ev s i) (ev_real ev s j)) \<and>
     (\<forall>i. ev_real ev s (z3_real_neg z i) = - ev_real ev s i)"

definition array_laws :: "('b, 'i, 'r, 'a) z3 \<Rightarrow> ('b, 'i, 'r, 'a) z3_meaning \<Rightarrow> valuation \<Rightarrow> bool" where
  "array_laws z ev s \<longleftrightarrow>
     (\<forall>n. ev_array ev s (z3_array_const z n) = cells_of s n) \<and>
     (\<forall>a i v. ev_array ev s (z3_store z a i v) = (ev_array ev s a)(ev_int ev s i := ev_int ev s v))"

definition z3_semantics :: "('b, 'i, 'r, 'a) z3 \<Rightarrow> ('b, 'i, 'r, 'a) z3_meaning \<Rightarrow> bool" where
  "z3_semantics z ev \<longleftrightarrow> (\<forall>s. admissible s \<longrightarrow>
     bool_laws z ev s \<and> int_laws z ev s \<and> real_laws z ev s \<and> array_laws z ev s)"

definition z3_decides :: "('b, 'i, 'r, 'a) z3 \<Rightarrow> ('b, 'i, 'r, 'a) z3_meaning \<Rightarrow> bool" where
  "z3_decides z ev \<longleftrightarrow> (\<forall>bs.
     (z3_check z bs = Unsat \<longrightarrow> (\<forall>s. admissible s \<longrightarrow> \<not> (\<forall>b \<in> set bs. ev_bool ev s b))) \<and>
     (z3_check z bs = Sat \<longrightarrow> (\<exists>s. admissible s \<and> (\<forall>b \<in> set bs. ev_bool ev s b))))"

section \<open>Reasoning about lowerings\<close>

definition cached :: "('b, 'i, 'r, 'a) z3 \<Rightarrow> ('b, 'i, 'r, 'a) smt_scope \<Rightarrow> bool" where
  "cached z sc \<longleftrightarrow>
     (\<forall>n v. bt_get (bool_vars sc) n = Some v \<longrightarrow> v = z3_bool_const z n) \<and>
     (\<forall>n v. bt_get (int_vars sc) n = Some v \<longrightarrow> v = z3_int_const z n) \<and>
     (\<forall>n v. bt_get (real_vars sc) n = Some v \<longrightarrow> v = z3_real_const z n) \<and>
     (\<forall>n v. bt_get (memory_vars sc) n = Some v \<longrightarrow> v = z3_array_const z n)"

text \<open>\<open>lowers z Q m\<close>: \<open>m\<close> keeps the caches right and asserts nothing, and its value satisfies \<open>Q\<close>.\<close>

definition lowers :: "('b, 'i, 'r, 'a) z3 \<Rightarrow> ('x \<Rightarrow> bool) \<Rightarrow> ('b, 'i, 'r, 'a, 'x) lowering \<Rightarrow> bool" where
  "lowers z Q m \<longleftrightarrow> (\<forall>sc r sc'. cached z sc \<longrightarrow> m sc = (r, sc') \<longrightarrow>
     cached z sc' \<and> scope_asserted sc' = scope_asserted sc \<and> (\<forall>x. r = Inr x \<longrightarrow> Q x))"

named_theorems lowers_intros \<open>lowerings built from lowerings\<close>

lemma lowersI:
  assumes "\<And>sc. cached z sc \<Longrightarrow> cached z (snd (m sc)) \<and>
    scope_asserted (snd (m sc)) = scope_asserted sc \<and> (\<forall>x. fst (m sc) = Inr x \<longrightarrow> Q x)"
  shows "lowers z Q m"
  unfolding lowers_def using assms by (metis fst_conv snd_conv)

lemma lowersD:
  assumes "lowers z Q m" "cached z sc"
  shows "cached z (snd (m sc))" "scope_asserted (snd (m sc)) = scope_asserted sc" "fst (m sc) = Inr x \<Longrightarrow> Q x"
  using assms unfolding lowers_def by (metis prod.collapse)+

lemma lowers_ret [lowers_intros]: "Q x \<Longrightarrow> lowers z Q (lret x)"
  by (rule lowersI) (simp add: lret_def)

lemma lowers_fail [lowers_intros]: "lowers z Q (lfail e)"
  by (rule lowersI) (simp add: lfail_def)

lemma lowers_bind:
  assumes "lowers z P m" "\<And>x. P x \<Longrightarrow> lowers z Q (f x)"
  shows "lowers z Q (lbind m f)"
proof (rule lowersI)
  fix sc
  assume c: "cached z sc"
  note d = lowersD [OF assms(1) c]
  show "cached z (snd (lbind m f sc)) \<and> scope_asserted (snd (lbind m f sc)) = scope_asserted sc \<and>
    (\<forall>x. fst (lbind m f sc) = Inr x \<longrightarrow> Q x)"
  proof (cases "m sc")
    case (Pair q sd)
    then show ?thesis
    proof (cases q)
      case (Inl e)
      then show ?thesis using Pair d(1,2) by (simp add: lbind_def)
    next
      case (Inr x)
      then have "lbind m f sc = f x sd" "P x" "cached z sd" "scope_asserted sd = scope_asserted sc"
        using Pair d by (simp_all add: lbind_def)
      then show ?thesis using lowersD [OF assms(2)] by metis
    qed
  qed
qed

lemma lowers_lift2:
  "lowers z P m \<Longrightarrow> lowers z R n \<Longrightarrow> (\<And>x y. P x \<Longrightarrow> R y \<Longrightarrow> lowers z Q (f x y)) \<Longrightarrow> lowers z Q (lift2 m n f)"
  unfolding lift2_def by (blast intro: lowers_bind)

lemma lowers_collect:
  "(\<And>f. f \<in> set fs \<Longrightarrow> lowers z (Q f) (g f)) \<Longrightarrow> lowers z (\<lambda>xs. list_all2 Q fs xs) (lcollect (map g fs))"
proof (induction fs)
  case (Cons f fs)
  then have "lowers z (Q f) (g f)" "lowers z (\<lambda>xs. list_all2 Q fs xs) (lcollect (map g fs))" by simp_all
  then show ?case by (auto intro!: lowers_bind lowers_ret)
qed (simp add: lowers_ret)

lemma cached_entry_result:
  "(\<forall>n v. bt_get m n = Some v \<longrightarrow> v = F n) \<Longrightarrow> cached_entry name (F name) m = (v, m') \<Longrightarrow>
    v = F name \<and> (\<forall>n v. bt_get m' n = Some v \<longrightarrow> v = F n)"
  by (auto simp: cached_entry_def bt_get_insert split: option.splits if_splits)

lemma lowers_bool_var:
  assumes "Q (z3_bool_const z n)"
  shows "lowers z Q (bool_var z n)"
proof (rule lowersI)
  fix sc
  assume c: "cached z sc"
  obtain v m where e: "cached_entry n (z3_bool_const z n) (bool_vars sc) = (v, m)" by fastforce
  have "\<forall>n v. bt_get (bool_vars sc) n = Some v \<longrightarrow> v = z3_bool_const z n" using c by (simp add: cached_def)
  from cached_entry_result [OF this e] have "v = z3_bool_const z n"
    "\<forall>n v. bt_get m n = Some v \<longrightarrow> v = z3_bool_const z n" by blast+
  then show "cached z (snd (bool_var z n sc)) \<and> scope_asserted (snd (bool_var z n sc)) = scope_asserted sc \<and>
    (\<forall>x. fst (bool_var z n sc) = Inr x \<longrightarrow> Q x)"
    using c e assms by (simp add: bool_var_def Let_def cached_def)
qed

lemma lowers_int_var:
  assumes "Q (z3_int_const z n)"
  shows "lowers z Q (int_var z n)"
proof (rule lowersI)
  fix sc
  assume c: "cached z sc"
  obtain v m where e: "cached_entry n (z3_int_const z n) (int_vars sc) = (v, m)" by fastforce
  have "\<forall>n v. bt_get (int_vars sc) n = Some v \<longrightarrow> v = z3_int_const z n" using c by (simp add: cached_def)
  from cached_entry_result [OF this e] have "v = z3_int_const z n"
    "\<forall>n v. bt_get m n = Some v \<longrightarrow> v = z3_int_const z n" by blast+
  then show "cached z (snd (int_var z n sc)) \<and> scope_asserted (snd (int_var z n sc)) = scope_asserted sc \<and>
    (\<forall>x. fst (int_var z n sc) = Inr x \<longrightarrow> Q x)"
    using c e assms by (simp add: int_var_def Let_def cached_def)
qed

lemma lowers_real_var:
  assumes "Q (z3_real_const z n)"
  shows "lowers z Q (real_var z n)"
proof (rule lowersI)
  fix sc
  assume c: "cached z sc"
  obtain v m where e: "cached_entry n (z3_real_const z n) (real_vars sc) = (v, m)" by fastforce
  have "\<forall>n v. bt_get (real_vars sc) n = Some v \<longrightarrow> v = z3_real_const z n" using c by (simp add: cached_def)
  from cached_entry_result [OF this e] have "v = z3_real_const z n"
    "\<forall>n v. bt_get m n = Some v \<longrightarrow> v = z3_real_const z n" by blast+
  then show "cached z (snd (real_var z n sc)) \<and> scope_asserted (snd (real_var z n sc)) = scope_asserted sc \<and>
    (\<forall>x. fst (real_var z n sc) = Inr x \<longrightarrow> Q x)"
    using c e assms by (simp add: real_var_def Let_def cached_def)
qed

lemma lowers_memory_var:
  assumes "Q (z3_array_const z n)"
  shows "lowers z Q (memory_var z n)"
proof (rule lowersI)
  fix sc
  assume c: "cached z sc"
  obtain v m where e: "cached_entry n (z3_array_const z n) (memory_vars sc) = (v, m)" by fastforce
  have "\<forall>n v. bt_get (memory_vars sc) n = Some v \<longrightarrow> v = z3_array_const z n" using c by (simp add: cached_def)
  from cached_entry_result [OF this e] have "v = z3_array_const z n"
    "\<forall>n v. bt_get m n = Some v \<longrightarrow> v = z3_array_const z n" by blast+
  then show "cached z (snd (memory_var z n sc)) \<and> scope_asserted (snd (memory_var z n sc)) = scope_asserted sc \<and>
    (\<forall>x. fst (memory_var z n sc) = Inr x \<longrightarrow> Q x)"
    using c e assms by (simp add: memory_var_def Let_def cached_def)
qed

lemmas lowers_vars = lowers_bool_var lowers_int_var lowers_real_var lowers_memory_var

section \<open>Meaning\<close>

definition means_memory :: "('b, 'i, 'r, 'a) z3_meaning \<Rightarrow> memory \<Rightarrow> 'a \<Rightarrow> bool" where
  "means_memory ev m a \<longleftrightarrow> (\<forall>s. admissible s \<longrightarrow> ev_array ev s a = eval_memory s m)"

fun means_term :: "('b, 'i, 'r, 'a) z3_meaning \<Rightarrow> fterm \<Rightarrow> ('i, 'r) encoded_term \<Rightarrow> bool" where
  "means_term ev t (EncInt i) \<longleftrightarrow> (\<forall>s. admissible s \<longrightarrow> eval_term s t = IntV (ev_int ev s i))"
| "means_term ev t (EncReal r) \<longleftrightarrow> (\<forall>s. admissible s \<longrightarrow> eval_term s t = RealV (ev_real ev s r))"

definition means_formula :: "('b, 'i, 'r, 'a) z3_meaning \<Rightarrow> formula \<Rightarrow> 'b \<Rightarrow> bool" where
  "means_formula ev f b \<longleftrightarrow> (\<forall>s. admissible s \<longrightarrow> ev_bool ev s b = eval_formula s f)"

lemma lowers_encoded_int:
  "lowers z (means_term ev t) m \<Longrightarrow> lowers z (\<lambda>i. means_term ev t (EncInt i)) (lbind m encoded_int)"
proof (erule lowers_bind)
  fix e
  assume "means_term ev t e"
  then show "lowers z (\<lambda>i. means_term ev t (EncInt i)) (encoded_int e)"
    by (cases e) (auto intro: lowers_intros)
qed

lemma laws_at:
  assumes "z3_semantics z ev" "admissible s"
  shows "bool_laws z ev s" "int_laws z ev s" "real_laws z ev s" "array_laws z ev s"
  using assms by (simp_all add: z3_semantics_def)

lemma lowers_combine:
  assumes "z3_semantics z ev" "means_term ev l a" "means_term ev r b"
    and "\<And>s. eval_term s t = arith_value (int_arith op) (real_arith op) (eval_term s l) (eval_term s r)"
  shows "lowers z (means_term ev t) (combine_terms z op a b)"
  using assms(2-4) laws_at(2,3) [OF assms(1)]
  by (cases a; cases b) (auto intro!: lowers_intros simp: int_laws_def real_laws_def)

lemma lowers_divide:
  assumes "z3_semantics z ev" "means_term ev l a" "means_term ev r b"
  shows "lowers z (means_term ev (TDiv l r)) (divide_terms z a b)"
  using assms(2,3) laws_at(2,3) [OF assms(1)]
  by (cases a; cases b) (auto intro!: lowers_intros simp: int_laws_def real_laws_def)

lemma lowers_remainder:
  assumes "z3_semantics z ev" "means_term ev l a" "means_term ev r b"
  shows "lowers z (means_term ev (TRem l r)) (remainder_terms z a b)"
  using assms(2,3) laws_at(2,3) [OF assms(1)]
  by (cases a; cases b) (auto intro!: lowers_intros simp: int_laws_def real_laws_def)

lemma lowers_negate:
  assumes "z3_semantics z ev" "means_term ev t a"
  shows "lowers z (means_term ev (TNeg t)) (negate_term z a)"
  using assms(2) laws_at(2,3) [OF assms(1)]
  by (cases a) (auto intro!: lowers_intros simp: int_laws_def real_laws_def)

lemma lowers_equate:
  assumes "z3_semantics z ev" "means_term ev l a" "means_term ev r b"
  shows "lowers z (means_formula ev (FEq l r)) (equate_terms z a b)"
  using assms(2,3) laws_at(1) [OF assms(1)]
  by (cases a; cases b) (auto intro!: lowers_intros simp: bool_laws_def means_formula_def)

lemma lowers_compare:
  assumes "z3_semantics z ev" "means_term ev l a" "means_term ev r b"
    and "\<And>s. eval_formula s f = compare_values (compares op) (compares op) (eval_term s l) (eval_term s r)"
  shows "lowers z (means_formula ev f) (compare_terms z op a b)"
  using assms(2-4) laws_at(1) [OF assms(1)]
  by (cases a; cases b) (auto intro!: lowers_intros simp: bool_laws_def means_formula_def)

lemma lowers_int_literal:
  assumes "z3_semantics z ev" "\<And>s. admissible s \<Longrightarrow> eval_term s t = IntV (ev_int ev s i)"
  shows "lowers z (means_term ev t) (lret (EncInt i))"
  using assms(2) by (intro lowers_ret) simp

lemma lowers_map:
  assumes "\<And>f. f \<in> set fs \<Longrightarrow> lowers z (means_formula ev f) (lower_formula z f)"
    and "\<And>bs. list_all2 (means_formula ev) fs bs \<Longrightarrow> means_formula ev g (k bs)"
  shows "lowers z (means_formula ev g) (lbind (lcollect (map (lower_formula z) fs)) (\<lambda>bs. lret (k bs)))"
  using assms by (intro lowers_bind [OF lowers_collect [of fs z "means_formula ev"]] lowers_ret)

lemma means_all:
  assumes "list_all2 (means_formula ev) fs bs" "admissible s"
  shows "(\<forall>b \<in> set bs. ev_bool ev s b) \<longleftrightarrow> (\<forall>f \<in> set fs. eval_formula s f)"
    and "(\<exists>b \<in> set bs. ev_bool ev s b) \<longleftrightarrow> (\<exists>f \<in> set fs. eval_formula s f)"
  using assms by (induction rule: list_all2_induct) (auto simp: means_formula_def)

lemma means_junctions:
  assumes "z3_semantics z ev" "list_all2 (means_formula ev) fs bs"
  shows "means_formula ev (FAnd fs) (z3_and z bs)" "means_formula ev (FOr fs) (z3_or z bs)"
  using laws_at(1) [OF assms(1)] means_all [OF assms(2)] by (simp_all add: bool_laws_def means_formula_def)

lemma lowering_means:
  assumes sem: "z3_semantics z ev"
  shows "lowers z (means_memory ev m) (lower_memory z m)"
    and "lowers z (means_term ev t) (lower_term z t)"
    and "lowers z (means_formula ev f) (lower_formula z f)"
proof (induction m and t and f)
  note L = laws_at [OF sem]
  note defs = bool_laws_def int_laws_def real_laws_def array_laws_def means_formula_def means_memory_def
  {
    case (MVar n)
    show ?case using L(4) by (auto intro!: lowers_vars simp: defs)
  next
    case (MStore m i v)
    show ?case unfolding lower_memory.simps
      by (rule lowers_bind [OF MStore(1) lowers_bind [OF lowers_encoded_int [OF MStore(2)]
          lowers_bind [OF lowers_encoded_int [OF MStore(3)] lowers_ret]]])
        (use L(4) in \<open>auto simp: defs store_cells_def\<close>)
  next
    case (TVar v)
    have v: "var_sort v = SInt \<Longrightarrow> var_int (var_name v) = v" "var_sort v = SReal \<Longrightarrow> var_real (var_name v) = v"
      by (simp_all add: var_int_def var_real_def var_new_def)
    have i: "var_sort v = SInt \<Longrightarrow> means_term ev (TVar v) (EncInt (z3_int_const z (var_name v)))"
      using L(2) v(1) unfolding int_laws_def means_term.simps eval_term.simps by metis
    have r: "var_sort v = SReal \<Longrightarrow> means_term ev (TVar v) (EncReal (z3_real_const z (var_name v)))"
      using L(3) v(2) unfolding real_laws_def means_term.simps eval_term.simps by metis
    show ?case
    proof (cases "var_sort v")
      case SInt
      show ?thesis unfolding lower_term.simps SInt sort.case
        by (rule lowers_bind [OF lowers_int_var [where Q = "\<lambda>x. means_term ev (TVar v) (EncInt x)"] lowers_ret])
          (rule i [OF SInt])
    next
      case SReal
      show ?thesis unfolding lower_term.simps SReal sort.case
        by (rule lowers_bind [OF lowers_real_var [where Q = "\<lambda>x. means_term ev (TVar v) (EncReal x)"] lowers_ret])
          (rule r [OF SReal])
    qed (simp add: lowers_fail)
  next
    case (TInt n)
    show ?case using L(2) by (auto intro!: lowers_intros simp: defs)
  next
    case (TReal q)
    show ?case using L(3) by (auto intro!: lowers_intros simp: defs rational_value_def)
  next
    case (TBoolToInt f)
    show ?case unfolding lower_term.simps
      by (rule lowers_bind [OF TBoolToInt lowers_int_literal [OF sem]])
        (use L(2) in \<open>auto simp: defs\<close>)
  next
    case (TSelect m i)
    show ?case unfolding lower_term.simps
      by (rule lowers_bind [OF TSelect(1) lowers_bind [OF lowers_encoded_int [OF TSelect(2)]
          lowers_int_literal [OF sem]]])
        (use L(2) in \<open>auto simp: defs select_cell_def\<close>)
  next
    case (TAdd l r)
    show ?case unfolding lower_term.simps
      by (rule lowers_lift2 [OF TAdd lowers_combine [OF sem]]) simp_all
  next
    case (TSub l r)
    show ?case unfolding lower_term.simps
      by (rule lowers_lift2 [OF TSub lowers_combine [OF sem]]) simp_all
  next
    case (TMul l r)
    show ?case unfolding lower_term.simps
      by (rule lowers_lift2 [OF TMul lowers_combine [OF sem]]) simp_all
  next
    case (TDiv l r)
    show ?case unfolding lower_term.simps by (rule lowers_lift2 [OF TDiv lowers_divide [OF sem]])
  next
    case (TRem l r)
    show ?case unfolding lower_term.simps by (rule lowers_lift2 [OF TRem lowers_remainder [OF sem]])
  next
    case (TNeg t)
    show ?case unfolding lower_term.simps by (rule lowers_bind [OF TNeg lowers_negate [OF sem]])
  next
    case FTrue
    show ?case using L(1) by (auto intro!: lowers_intros simp: defs)
  next
    case FFalse
    show ?case using L(1) by (auto intro!: lowers_intros simp: defs)
  next
    case (FVar v)
    have "var_sort v = SBool \<Longrightarrow> var_bool (var_name v) = v" by (simp add: var_bool_def var_new_def)
    then have "var_sort v = SBool \<Longrightarrow> means_formula ev (FVar v) (z3_bool_const z (var_name v))"
      using L(1) unfolding bool_laws_def means_formula_def eval_formula.simps by metis
    then show ?case by (auto intro!: lowers_bool_var lowers_fail)
  next
    case (FNot f)
    show ?case unfolding lower_formula.simps
      by (rule lowers_bind [OF FNot lowers_ret]) (use L(1) in \<open>auto simp: defs\<close>)
  next
    case (FAnd fs)
    show ?case unfolding lower_formula.simps
      by (rule lowers_map [OF FAnd means_junctions(1) [OF sem]])
  next
    case (FOr fs)
    show ?case unfolding lower_formula.simps
      by (rule lowers_map [OF FOr means_junctions(2) [OF sem]])
  next
    case (FImplies f g)
    show ?case unfolding lower_formula.simps
      by (rule lowers_lift2 [OF FImplies lowers_ret]) (use L(1) in \<open>auto simp: defs\<close>)
  next
    case (FEq l r)
    show ?case unfolding lower_formula.simps by (rule lowers_lift2 [OF FEq lowers_equate [OF sem]])
  next
    case (FMemoryEq m n)
    show ?case unfolding lower_formula.simps
      by (rule lowers_lift2 [OF FMemoryEq lowers_ret]) (use L(1) in \<open>auto simp: defs\<close>)
  next
    case (FLt l r)
    show ?case unfolding lower_formula.simps
      by (rule lowers_lift2 [OF FLt lowers_compare [OF sem]]) simp_all
  next
    case (FLe l r)
    show ?case unfolding lower_formula.simps
      by (rule lowers_lift2 [OF FLe lowers_compare [OF sem]]) simp_all
  next
    case (FGt l r)
    show ?case unfolding lower_formula.simps
      by (rule lowers_lift2 [OF FGt lowers_compare [OF sem]]) simp_all
  next
    case (FGe l r)
    show ?case unfolding lower_formula.simps
      by (rule lowers_lift2 [OF FGe lowers_compare [OF sem]]) simp_all
  }
qed

section \<open>Acceptance\<close>

text \<open>
  What the sort checker leaves unchecked: the memories that are read, and remainders of reals.
\<close>

primrec reads_ok_memory :: "memory \<Rightarrow> bool"
  and reads_ok_term :: "fterm \<Rightarrow> bool"
  and reads_ok :: "formula \<Rightarrow> bool" where
  "reads_ok_memory (MVar name) = True"
| "reads_ok_memory (MStore m i v) = (reads_ok_memory m \<and> reads_ok_term i \<and> reads_ok_term v)"
| "reads_ok_term (TVar v) = True"
| "reads_ok_term (TInt n) = True"
| "reads_ok_term (TReal q) = True"
| "reads_ok_term (TBoolToInt f) = reads_ok f"
| "reads_ok_term (TSelect m i) = (validate_memory m = Inr () \<and> reads_ok_memory m \<and> reads_ok_term i)"
| "reads_ok_term (TAdd l r) = (reads_ok_term l \<and> reads_ok_term r)"
| "reads_ok_term (TSub l r) = (reads_ok_term l \<and> reads_ok_term r)"
| "reads_ok_term (TMul l r) = (reads_ok_term l \<and> reads_ok_term r)"
| "reads_ok_term (TDiv l r) = (reads_ok_term l \<and> reads_ok_term r)"
| "reads_ok_term (TRem l r) = (reads_ok_term l \<and> reads_ok_term r \<and> term_sort l \<noteq> Inr SReal)"
| "reads_ok_term (TNeg t) = reads_ok_term t"
| "reads_ok FTrue = True"
| "reads_ok FFalse = True"
| "reads_ok (FVar v) = True"
| "reads_ok (FNot f) = reads_ok f"
| "reads_ok (FAnd fs) = list_all (\<lambda>b. b) (map reads_ok fs)"
| "reads_ok (FOr fs) = list_all (\<lambda>b. b) (map reads_ok fs)"
| "reads_ok (FImplies f g) = (reads_ok f \<and> reads_ok g)"
| "reads_ok (FEq l r) = (reads_ok_term l \<and> reads_ok_term r)"
| "reads_ok (FMemoryEq m n) = (reads_ok_memory m \<and> reads_ok_memory n)"
| "reads_ok (FLt l r) = (reads_ok_term l \<and> reads_ok_term r)"
| "reads_ok (FLe l r) = (reads_ok_term l \<and> reads_ok_term r)"
| "reads_ok (FGt l r) = (reads_ok_term l \<and> reads_ok_term r)"
| "reads_ok (FGe l r) = (reads_ok_term l \<and> reads_ok_term r)"

definition succeeds :: "('x \<Rightarrow> bool) \<Rightarrow> ('b, 'i, 'r, 'a, 'x) lowering \<Rightarrow> bool" where
  "succeeds Q m \<longleftrightarrow> (\<forall>sc. \<exists>x. fst (m sc) = Inr x \<and> Q x)"

lemma succeeds_ret: "Q x \<Longrightarrow> succeeds Q (lret x)"
  by (simp add: succeeds_def lret_def)

lemma succeeds_bind:
  assumes "succeeds P m" "\<And>x. P x \<Longrightarrow> succeeds Q (f x)"
  shows "succeeds Q (lbind m f)"
  unfolding succeeds_def
proof
  fix sc
  obtain x sd where x: "m sc = (Inr x, sd)" "P x"
    using assms(1) unfolding succeeds_def by (metis prod.collapse)
  then show "\<exists>y. fst (lbind m f sc) = Inr y \<and> Q y"
    using assms(2) [OF x(2)] by (simp add: succeeds_def lbind_def)
qed

lemma succeeds_lift2:
  "succeeds P m \<Longrightarrow> succeeds R n \<Longrightarrow> (\<And>x y. P x \<Longrightarrow> R y \<Longrightarrow> succeeds Q (f x y)) \<Longrightarrow> succeeds Q (lift2 m n f)"
  unfolding lift2_def by (blast intro: succeeds_bind)

lemma succeeds_vars:
  "succeeds (\<lambda>_. True) (bool_var z n)" "succeeds (\<lambda>_. True) (int_var z n)"
  "succeeds (\<lambda>_. True) (real_var z n)" "succeeds (\<lambda>_. True) (memory_var z n)"
  by (simp_all add: succeeds_def bool_var_def int_var_def real_var_def memory_var_def Let_def split_def)

lemma succeeds_collect:
  "(\<And>f. f \<in> set fs \<Longrightarrow> succeeds (\<lambda>_. True) (g f)) \<Longrightarrow> succeeds (\<lambda>_. True) (lcollect (map g fs))"
  by (induction fs) (auto intro!: succeeds_bind [where P = "\<lambda>_. True"] succeeds_ret)

fun encoded_sort :: "('i, 'r) encoded_term \<Rightarrow> sort" where
  "encoded_sort (EncInt _) = SInt"
| "encoded_sort (EncReal _) = SReal"

lemma succeeds_operations:
  "encoded_sort a = k \<Longrightarrow> encoded_sort b = k \<Longrightarrow> succeeds (\<lambda>e. encoded_sort e = k) (combine_terms z op a b)"
  "encoded_sort a = k \<Longrightarrow> encoded_sort b = k \<Longrightarrow> succeeds (\<lambda>e. encoded_sort e = k) (divide_terms z a b)"
  "encoded_sort a = SInt \<Longrightarrow> encoded_sort b = SInt \<Longrightarrow> succeeds (\<lambda>e. encoded_sort e = SInt) (remainder_terms z a b)"
  "encoded_sort a = k \<Longrightarrow> succeeds (\<lambda>e. encoded_sort e = k) (negate_term z a)"
  "encoded_sort a = k \<Longrightarrow> encoded_sort b = k \<Longrightarrow> succeeds (\<lambda>_. True) (equate_terms z a b)"
  "encoded_sort a = k \<Longrightarrow> encoded_sort b = k \<Longrightarrow> succeeds (\<lambda>_. True) (compare_terms z c a b)"
  "encoded_sort a = SInt \<Longrightarrow> succeeds (\<lambda>_. True) (encoded_int a)"
  by (cases a; cases b; auto intro!: succeeds_ret)+

lemma succeeds_int:
  "succeeds (\<lambda>e. encoded_sort e = SInt) m \<Longrightarrow> succeeds (\<lambda>_. True) (lbind m encoded_int)"
  by (erule succeeds_bind) (rule succeeds_operations(7))

lemma validated_lowers:
  shows "validate_memory m = Inr () \<longrightarrow> reads_ok_memory m \<longrightarrow> succeeds (\<lambda>_. True) (lower_memory z m)"
    and "\<forall>k. term_sort t = Inr k \<longrightarrow> k \<noteq> SBool \<longrightarrow> reads_ok_term t \<longrightarrow>
      succeeds (\<lambda>e. encoded_sort e = k) (lower_term z t)"
    and "validate f = Inr () \<longrightarrow> reads_ok f \<longrightarrow> succeeds (\<lambda>_. True) (lower_formula z f)"
proof (induction m and t and f)
  case (MStore m i v)
  then show ?case
    by (auto simp: rbind_eq_Inr split: if_splits
        intro!: succeeds_bind [where P = "\<lambda>_. True"] succeeds_int succeeds_ret)
next
  case (TVar v)
  then show ?case
    by (auto split: sort.splits intro!: succeeds_bind [OF succeeds_vars(2)] succeeds_bind [OF succeeds_vars(3)] succeeds_ret)
next
  case (TBoolToInt f)
  then show ?case
    by (auto simp: rbind_eq_Inr intro!: succeeds_bind [where P = "\<lambda>_. True"] succeeds_ret)
next
  case (TSelect m i)
  then show ?case
    by (auto simp: rbind_eq_Inr int_sort_def split: if_splits
        intro!: succeeds_bind [where P = "\<lambda>_. True"] succeeds_int succeeds_ret)
next
  case (TAdd l r)
  then show ?case by (auto simp: arith_sort_Inr intro!: succeeds_lift2 succeeds_operations(1))
next
  case (TSub l r)
  then show ?case by (auto simp: arith_sort_Inr intro!: succeeds_lift2 succeeds_operations(1))
next
  case (TMul l r)
  then show ?case by (auto simp: arith_sort_Inr intro!: succeeds_lift2 succeeds_operations(1))
next
  case (TDiv l r)
  then show ?case by (auto simp: arith_sort_Inr intro!: succeeds_lift2 succeeds_operations(2))
next
  case (TRem l r)
  have "k = SInt" if "term_sort (TRem l r) = Inr k" "k \<noteq> SBool" "reads_ok_term (TRem l r)" for k
    using that by (cases k) (auto simp: arith_sort_Inr)
  with TRem show ?case by (auto simp: arith_sort_Inr intro!: succeeds_lift2 succeeds_operations(3))
next
  case (TNeg t)
  then show ?case
    by (auto simp: rbind_eq_Inr split: if_splits intro!: succeeds_bind [OF _ succeeds_operations(4)])
next
  case (FVar v)
  then show ?case using succeeds_vars(1) by (auto split: if_splits)
next
  case (FEq l r)
  then show ?case by (auto simp: arith_sort_Inr rbind_eq_Inr intro!: succeeds_lift2 succeeds_operations(5))
next
  case (FLt l r)
  then show ?case by (auto simp: arith_sort_Inr rbind_eq_Inr intro!: succeeds_lift2 succeeds_operations(6))
next
  case (FLe l r)
  then show ?case by (auto simp: arith_sort_Inr rbind_eq_Inr intro!: succeeds_lift2 succeeds_operations(6))
next
  case (FGt l r)
  then show ?case by (auto simp: arith_sort_Inr rbind_eq_Inr intro!: succeeds_lift2 succeeds_operations(6))
next
  case (FGe l r)
  then show ?case by (auto simp: arith_sort_Inr rbind_eq_Inr intro!: succeeds_lift2 succeeds_operations(6))
next
  case (FAnd fs)
  then show ?case
    by (auto simp: first_error_Inr list_all_iff intro!: succeeds_bind [OF succeeds_collect] succeeds_ret)
next
  case (FOr fs)
  then show ?case
    by (auto simp: first_error_Inr list_all_iff intro!: succeeds_bind [OF succeeds_collect] succeeds_ret)
next
  case (FMemoryEq m n)
  then show ?case
    by (auto simp: rbind_eq_Inr intro!: succeeds_lift2 [where P = "\<lambda>_. True" and R = "\<lambda>_. True"] succeeds_ret)
next
  case (FImplies f g)
  then show ?case
    by (auto simp: rbind_eq_Inr intro!: succeeds_lift2 [where P = "\<lambda>_. True" and R = "\<lambda>_. True"] succeeds_ret)
qed (auto intro!: succeeds_ret succeeds_vars succeeds_bind [where P = "\<lambda>_. True"])

section \<open>Asserting\<close>

lemma scope_assert_lowered:
  assumes "validate f = Inr ()" "lower_formula z f sc = (Inr b, sc')"
  shows "scope_assert z f sc = (Inr (), sc'\<lparr>scope_asserted := scope_asserted sc' @ [b]\<rparr>)"
  using assms by (simp add: scope_assert_def lbind_def)

lemma scope_assert_failed:
  assumes "validate f = Inr ()" "lower_formula z f sc = (Inl e, sc')"
  shows "scope_assert z f sc = (Inl e, sc')"
  using assms by (simp add: scope_assert_def lbind_def)

lemma cached_new: "cached z smt_scope_new"
  by (simp add: cached_def smt_scope_new_def bt_get_def)

lemma cached_asserted [simp]: "cached z (sc\<lparr>scope_asserted := bs\<rparr>) = cached z sc"
  by (simp add: cached_def)

text \<open>
  Asserting a formula in a scope whose caches hold the declared constants either adds exactly
  one tree, which has the truth value of the formula in every state, or reports an error and
  leaves the assertions as they were; in both cases the caches stay right for the next formula.
\<close>

theorem scope_assert_correct:
  assumes "z3_semantics z ev" "cached z sc" "scope_assert z f sc = (r, sc')"
  shows "cached z sc' \<and>
    (case r of
       Inl e \<Rightarrow> scope_asserted sc' = scope_asserted sc
     | Inr _ \<Rightarrow> \<exists>b. scope_asserted sc' = scope_asserted sc @ [b] \<and>
         (\<forall>s. admissible s \<longrightarrow> ev_bool ev s b = eval_formula s f))"
proof (cases "validate f")
  case (Inl e)
  then have "r = Inl e" "sc' = sc" using assms(3) by (simp_all add: scope_assert_def lfail_def)
  then show ?thesis using assms(2) by simp
next
  case (Inr u)
  obtain q sd where low: "lower_formula z f sc = (q, sd)" by fastforce
  have d: "cached z sd" "scope_asserted sd = scope_asserted sc" "\<And>b. q = Inr b \<Longrightarrow> means_formula ev f b"
    using lowersD [OF lowering_means(3) [OF assms(1)] assms(2), of f] low by auto
  show ?thesis
  proof (cases q)
    case (Inl e)
    then show ?thesis using scope_assert_failed [OF _ low [unfolded Inl]] Inr assms(3) d by auto
  next
    fix b
    assume q: "q = Inr b"
    then show ?thesis
      using scope_assert_lowered [OF _ low [unfolded q]] Inr assms(3) d by (auto simp: means_formula_def)
  qed
qed

text \<open>
  C25: A formula the sort checker accepts, with well-sorted memories under its reads and no
  remainder of reals, is always asserted; one the checker refuses is refused with the checker's
  error and leaves the scope untouched.
\<close>

theorem scope_assert_errors:
  "case validate f of
     Inl e \<Rightarrow> scope_assert z f sc = (Inl e, sc)
   | Inr _ \<Rightarrow> reads_ok f \<longrightarrow> fst (scope_assert z f sc) = Inr ()"
proof (cases "validate f")
  case (Inl e)
  then show ?thesis by (simp add: scope_assert_def lfail_def)
next
  case (Inr u)
  then have v: "validate f = Inr ()" by simp
  have "fst (scope_assert z f sc) = Inr ()" if ok: "reads_ok f"
  proof -
    obtain b where "fst (lower_formula z f sc) = Inr b"
      using validated_lowers(3) [of f z] v ok unfolding succeeds_def by blast
    then obtain sd where "lower_formula z f sc = (Inr b, sd)" by (cases "lower_formula z f sc") simp
    from scope_assert_lowered [OF v this] show ?thesis by simp
  qed
  then show ?thesis using v by simp
qed

text \<open>
  C24: The refinement of the oracle's solver: when Z3 gives its trees their SMT-LIB meaning and
  decides satisfiability correctly, the fresh scope the oracle opens per query is a sound solver.
  The analyses take their solver as an argument; this is the instance the program passes.
\<close>

theorem scope_solver_sound:
  assumes "z3_semantics z ev" "z3_decides z ev"
  shows "sound_solver (scope_solver z)"
  unfolding sound_solver_def
proof (intro allI impI)
  fix f
  assume ok: "assert_formula (scope_solver z) f = Inr ()"
  obtain r sc where a: "scope_assert z f smt_scope_new = (r, sc)" by fastforce
  with ok have "r = Inr ()" by (simp add: scope_solver_def)
  with scope_assert_correct [OF assms(1) cached_new a] obtain b
    where "scope_asserted sc = [b]" and b: "\<And>s. admissible s \<Longrightarrow> ev_bool ev s b = eval_formula s f"
    by (auto simp: smt_scope_new_def)
  then have "check (scope_solver z) f = z3_check z [b]"
    using a by (simp add: scope_solver_def scope_after_def scope_check_def)
  then show "(check (scope_solver z) f = Unsat \<longrightarrow> (\<forall>s. admissible s \<longrightarrow> \<not> eval_formula s f)) \<and>
      (check (scope_solver z) f = Sat \<longrightarrow> (\<exists>s. admissible s \<and> eval_formula s f))"
    using assms(2) b unfolding z3_decides_def by (metis list.set_intros(1) set_ConsD empty_iff list.set(1))
qed

section \<open>A semantic instance of the bindings\<close>

text \<open>Trees as the functions they denote, and a check that tries one state.\<close>

fun int_in :: "scalar_value \<Rightarrow> int" where
  "int_in (IntV i) = i"
| "int_in _ = 0"

fun real_in :: "scalar_value \<Rightarrow> real" where
  "real_in (RealV r) = r"
| "real_in _ = 0"

definition semantic_z3 ::
  "(valuation \<Rightarrow> bool, valuation \<Rightarrow> int, valuation \<Rightarrow> real, valuation \<Rightarrow> int \<Rightarrow> int) z3" where
  "semantic_z3 = \<lparr>
     z3_bool = (\<lambda>b s. b),
     z3_bool_const = (\<lambda>n s. bool_of s (var_bool n)),
     z3_not = (\<lambda>b s. \<not> b s),
     z3_and = (\<lambda>bs s. \<forall>b \<in> set bs. b s),
     z3_or = (\<lambda>bs s. \<exists>b \<in> set bs. b s),
     z3_implies = (\<lambda>b c s. b s \<longrightarrow> c s),
     z3_ite = (\<lambda>b i j s. if b s then i s else j s),
     z3_int = (\<lambda>n s. sint n),
     z3_int_const = (\<lambda>n s. int_in (scalar_of s (var_int n))),
     z3_int_arith = (\<lambda>op is s. int_arith op (hd is s) (hd (tl is) s)),
     z3_int_div = (\<lambda>i j s. int_div_of s (i s) (j s)),
     z3_int_rem = (\<lambda>i j s. int_rem_of s (i s) (j s)),
     z3_int_neg = (\<lambda>i s. - i s),
     z3_int_eq = (\<lambda>i j s. i s = j s),
     z3_int_cmp = (\<lambda>c i j s. compares c (i s) (j s)),
     z3_rational = (\<lambda>n d s. real_of_int (sint n) / real_of_int (sint d)),
     z3_real_const = (\<lambda>n s. real_in (scalar_of s (var_real n))),
     z3_real_arith = (\<lambda>op rs s. real_arith op (hd rs s) (hd (tl rs) s)),
     z3_real_div = (\<lambda>i j s. real_div_of s (i s) (j s)),
     z3_real_neg = (\<lambda>i s. - i s),
     z3_real_eq = (\<lambda>i j s. i s = j s),
     z3_real_cmp = (\<lambda>c i j s. compares c (i s) (j s)),
     z3_array_const = (\<lambda>n s. cells_of s n),
     z3_array_eq = (\<lambda>a b s. a s = b s),
     z3_select = (\<lambda>a i s. a s (i s)),
     z3_store = (\<lambda>a i v s. (a s)(i s := v s)),
     z3_check = (\<lambda>bs. if \<forall>b \<in> set bs. b sample_state then Sat else SatUnknown),
     z3_get_model = (\<lambda>bs. None)\<rparr>"

definition semantic_meaning ::
  "(valuation \<Rightarrow> bool, valuation \<Rightarrow> int, valuation \<Rightarrow> real, valuation \<Rightarrow> int \<Rightarrow> int) z3_meaning" where
  "semantic_meaning = \<lparr>ev_bool = (\<lambda>s b. b s), ev_int = (\<lambda>s i. i s), ev_real = (\<lambda>s r. r s), ev_array = (\<lambda>s a. a s)\<rparr>"

lemma admissible_constants:
  assumes "admissible s"
  shows "scalar_of s (var_int n) = IntV (int_in (scalar_of s (var_int n)))"
    and "scalar_of s (var_real n) = RealV (real_in (scalar_of s (var_real n)))"
proof -
  have "value_sort (scalar_of s (var_int n)) = Some SInt" "value_sort (scalar_of s (var_real n)) = Some SReal"
    using assms unfolding admissible_def well_sorted_def var_int_def var_real_def var_new_def by simp_all
  then show "scalar_of s (var_int n) = IntV (int_in (scalar_of s (var_int n)))"
    "scalar_of s (var_real n) = RealV (real_in (scalar_of s (var_real n)))"
    by (cases "scalar_of s (var_int n)", simp_all) (cases "scalar_of s (var_real n)", simp_all)
qed

lemma semantic_z3_laws:
  "z3_semantics semantic_z3 semantic_meaning" "z3_decides semantic_z3 semantic_meaning"
  using admissible_constants sample_state_admissible
  by (auto simp: z3_semantics_def bool_laws_def int_laws_def real_laws_def array_laws_def z3_decides_def
      semantic_z3_def semantic_meaning_def)

theorem scope_solver_witness:
  "check (scope_solver semantic_z3) (FLe (TInt 1) (TInt 2)) = Sat \<and>
    sound_solver (scope_solver semantic_z3)"
proof
  show "sound_solver (scope_solver semantic_z3)"
    by (rule scope_solver_sound [OF semantic_z3_laws])
qed (simp add: scope_solver_def scope_check_def scope_after_def scope_assert_def lbind_def lret_def lift2_def
      semantic_z3_def smt_scope_new_def arith_sort_def)

theorem scope_assert_errors_witness:
  "fst (scope_assert semantic_z3 (FLe (TInt 1) (TVar (var_int ''x''))) smt_scope_new) = Inr () \<and>
    scope_assert semantic_z3 (FVar (var_int ''x'')) smt_scope_new = (Inl (ExpectedBooleanSort SInt), smt_scope_new)"
  using scope_assert_errors [where f = "FLe (TInt 1) (TVar (var_int ''x''))" and z = semantic_z3 and sc = smt_scope_new]
    scope_assert_errors [where f = "FVar (var_int ''x'')" and z = semantic_z3 and sc = smt_scope_new]
  by (simp add: arith_sort_def var_int_def var_new_def)

theorem scope_assert_witness:
  "scope_asserted (snd (scope_assert semantic_z3 (FGt (TVar (var_int ''x'')) (TInt 0)) smt_scope_new)) \<noteq> []"
proof -
  let ?f = "FGt (TVar (var_int ''x'')) (TInt 0)"
  obtain r sc where a: "scope_assert semantic_z3 ?f smt_scope_new = (r, sc)" by fastforce
  moreover have "r = Inr ()"
    using a by (simp add: scope_assert_def lbind_def lift2_def int_var_def cached_entry_def smt_scope_new_def
        bt_get_def lret_def arith_sort_def var_int_def var_new_def)
  ultimately show ?thesis
    using scope_assert_correct [OF semantic_z3_laws(1) cached_new a] by auto
qed

section \<open>What the checks miss\<close>

text \<open>The sort checker does not look into the memory of a read, and admits remainders of reals.\<close>

lemma validated_but_not_lowered:
  "validate (FEq (TSelect (MStore (MVar ''m'') (TReal \<lparr>rat_num = 0, rat_den = 1\<rparr>) (TInt 1)) (TInt 0)) (TInt 1)) = Inr ()"
  "fst (scope_assert z (FEq (TSelect (MStore (MVar ''m'') (TReal \<lparr>rat_num = 0, rat_den = 1\<rparr>) (TInt 1)) (TInt 0)) (TInt 1)) sc)
    = Inl (ExpectedIntegerSort SReal)"
  by (simp_all add: scope_assert_def arith_sort_def int_sort_def lbind_def lift2_def lret_def lfail_def
      memory_var_def Let_def split_def)

text \<open>
  Indices whose cell has no 64-bit value are dropped before the values are paired with the
  indices, so the reported value of a later cell is shown at an earlier index.
\<close>

lemma model_values_misaligned:
  assumes "\<And>i. model_int m (z3_select z a (z3_int z i)) = (if i = 0 then None else Some (i + 10))"
  shows "memory_bindings ''m'' [0, 1, 2]
      (List.map_filter (\<lambda>i. model_int m (z3_select z a (z3_int z i))) [0, 1, 2])
      \<lparr>model_scalar = [], model_memory = []\<rparr>
    = \<lparr>model_scalar = [(var_int ''m[0]'', ModelInt 11), (var_int ''m[1]'', ModelInt 12)], model_memory = []\<rparr>"
  by (simp add: assms List.map_filter_simps nat_str.simps digit_char_def)

end
