(* ===== verification/Scheduler.thy ===== *)
theory Scheduler
  imports Dart Projection
begin

text \<open>
  The orchestrator that composes the two directions of the analysis
  (\<open>src/analysis/interproc/smash.rs\<close>) and the queue of queries that drives it
  (\<open>src/analysis/interproc/scheduler.rs\<close>).  What an analysis needs besides the queue is the record
  \<open>services\<close>: the iteration order of the maps of the path exploration, the solver, and the search
  for loop invariants.  A query id is a number.
\<close>

section \<open>The orchestrator\<close>

datatype verdict_engine = MayInvariantAnalysis | MustDart | Inconclusive

record smash_run_result =
  run_assertion :: assertion_result
  run_engine :: verdict_engine

record services =
  hash_order_of :: "string list \<Rightarrow> string list"
  solver_of :: solver
  synthesis_of :: "abstract_cfg \<Rightarrow> procedure_name \<Rightarrow> (cfg_node_id, formula) btree
    \<Rightarrow> (backward_error + verified_loop_invariant list) outcome"

definition empty_unknown_result :: "assertion_site \<Rightarrow> (string \<rightharpoonup> string) \<Rightarrow> assertion_result" where
  "empty_unknown_result site debug_names =
     (let empty = \<lparr>summary_node = site_node site, reach = FTrue, state = FTrue\<rparr> in
      \<lparr>result_site_id = site_id site, result_site_label = site_location site,
       result_source_location = site_source_location site, result_judgement = JudgementUnknown,
       result_entry_summary = empty, result_assertion_summary = empty, result_debug_names = debug_names\<rparr>)"

text \<open>The forward direction, with the result to fall back to.\<close>

definition run_forward_must ::
  "services \<Rightarrow> abstract_cfg \<Rightarrow> assertion_site \<Rightarrow> (string \<rightharpoonup> string) \<Rightarrow> assertion_result option
    \<Rightarrow> smash_run_result" where
  "run_forward_must sv cfg site debug_names may_unknown_or_error =
     (case dart_explore (hash_order_of sv) cfg site (solver_of sv) dart_config_default debug_names of
        Some result \<Rightarrow> \<lparr>run_assertion = result, run_engine = MustDart\<rparr>
      | None \<Rightarrow> \<lparr>run_assertion = (case may_unknown_or_error of
            Some result \<Rightarrow> result | None \<Rightarrow> empty_unknown_result site debug_names),
          run_engine = Inconclusive\<rparr>)"

definition run_smash ::
  "services \<Rightarrow> abstract_cfg \<Rightarrow> procedure_name \<Rightarrow> assertion_site \<Rightarrow> summary_table \<Rightarrow> (string \<rightharpoonup> string)
    \<Rightarrow> smash_run_result outcome" where
  "run_smash sv cfg procedure_name site tables debug_names =
     obind (analyze_with_tables cfg site (solver_of sv) tables debug_names
         (synthesis_of sv cfg procedure_name)) (\<lambda>may_result.
       Returns (case may_result of
         Inr result \<Rightarrow>
           (case result_judgement result of
              JudgementUnknown \<Rightarrow> run_forward_must sv cfg site debug_names (Some result)
            | _ \<Rightarrow> \<lparr>run_assertion = result, run_engine = MayInvariantAnalysis\<rparr>)
       | Inl CyclicCfgUnsupported \<Rightarrow> run_forward_must sv cfg site debug_names None
       | Inl _ \<Rightarrow> \<lparr>run_assertion = empty_unknown_result site debug_names, run_engine = Inconclusive\<rparr>))"

section \<open>The queue\<close>

type_synonym query_id = nat

datatype placeholder_kind = NotMayOptimistic | MustOptimistic

record in_progress_query =
  active_id :: query_id
  active_query :: query
  dependents :: "query_id list"
  placeholder :: placeholder_kind

record pending_entry =
  entry_id :: query_id
  entry_query :: query
  provenance :: "assertion_site option"

datatype dispatch_outcome = Completed smash_run_result | Unprovenanced

record procedure_context =
  context_cfg :: abstract_cfg
  context_assertions :: "assertion_site list"
  context_debug_names :: "string \<rightharpoonup> string"
  context_interface :: procedure_interface

record scheduler =
  pending :: "query_id list"
  in_progress :: "(query_id, pending_entry) btree"
  completed :: "(query_id, dispatch_outcome) btree"
  initial_tables :: summary_table
  table :: summary_table
  procedures :: "(procedure_name, procedure_context) btree"
  next_id :: nat
  active :: "(query_id, in_progress_query) btree"

definition with_initial_tables :: "summary_table \<Rightarrow> scheduler" where
  "with_initial_tables tables = \<lparr>pending = [], in_progress = [], completed = [],
     initial_tables = tables, table = table_new, procedures = [], next_id = 0, active = []\<rparr>"

definition scheduler_new :: scheduler where
  "scheduler_new = with_initial_tables table_new"

definition legacy_tables_for_dispatch :: "scheduler \<Rightarrow> summary_table" where
  "legacy_tables_for_dispatch self = extend_from (table self) (initial_tables self)"

definition completed_outcome :: "scheduler \<Rightarrow> query_id \<Rightarrow> dispatch_outcome option" where
  "completed_outcome self i = bt_get (completed self) i"

definition register_procedure :: "procedure_context \<Rightarrow> scheduler \<Rightarrow> scheduler" where
  "register_procedure ctx self =
     self\<lparr>procedures := bt_insert (iface_procedure (context_interface ctx)) ctx (procedures self)\<rparr>"

definition procedure :: "scheduler \<Rightarrow> procedure_name \<Rightarrow> procedure_context option" where
  "procedure self name = bt_get (procedures self) name"

definition enqueue_query :: "query \<Rightarrow> assertion_site option \<Rightarrow> scheduler \<Rightarrow> query_id \<times> scheduler" where
  "enqueue_query q prov self =
     (let i = next_id self;
          entry = \<lparr>entry_id = i, entry_query = q, provenance = prov\<rparr> in
      (i, self\<lparr>next_id := i + 1, in_progress := bt_insert i entry (in_progress self),
        pending := pending self @ [i]\<rparr>))"

text \<open>An oracle error of a merge is logged and dropped; the table keeps what the merge left.\<close>

definition create_and_merge_summary ::
  "solver \<Rightarrow> query \<Rightarrow> assertion_result \<Rightarrow> procedure_interface \<Rightarrow> (string \<rightharpoonup> string) \<Rightarrow> scheduler \<Rightarrow> scheduler"
where
  "create_and_merge_summary z q assertion interface debug_names self =
     (case result_judgement assertion of
        Verified \<Rightarrow>
          (case create_notmay_summary_with_debug_names q interface (Some debug_names) of
             Some made \<Rightarrow>
               self\<lparr>table := snd (merge_notmay z (iface_procedure interface) made (table self))\<rparr>
           | None \<Rightarrow> self)
      | BugFound _ \<Rightarrow>
          (case create_must_summary_with_debug_names (state (result_entry_summary assertion))
              (state (result_assertion_summary assertion)) interface (Some debug_names) of
             Some made \<Rightarrow>
               self\<lparr>table := snd (merge_must z (iface_procedure interface) made (table self))\<rparr>
           | None \<Rightarrow> self)
      | JudgementUnknown \<Rightarrow> self)"

text \<open>The lookup of the procedure, the run, the merge, and the removal from the active queries.\<close>

definition dispatch_entry ::
  "services \<Rightarrow> query_id \<Rightarrow> pending_entry \<Rightarrow> scheduler \<Rightarrow> (dispatch_outcome \<times> scheduler) outcome" where
  "dispatch_entry sv i entry self =
     (let finish = (\<lambda>outcome self.
        (outcome, self\<lparr>active := bt_remove i (active self),
           completed := bt_insert i outcome (completed self)\<rparr>)) in
      case bt_get (procedures self) (query_procedure (entry_query entry)) of
        None \<Rightarrow> Returns (Unprovenanced, self\<lparr>completed := bt_insert i Unprovenanced (completed self)\<rparr>)
      | Some ctx \<Rightarrow>
          (case provenance entry of
             Some site \<Rightarrow>
               obind (run_smash sv (context_cfg ctx) (query_procedure (entry_query entry)) site
                   (legacy_tables_for_dispatch self) (context_debug_names ctx)) (\<lambda>run.
                 Returns (finish (Completed run)
                   (create_and_merge_summary (solver_of sv) (entry_query entry) (run_assertion run)
                     (context_interface ctx) (context_debug_names ctx) self)))
           | None \<Rightarrow> Returns (finish Unprovenanced self)))"

definition dispatch_next :: "services \<Rightarrow> scheduler \<Rightarrow> (dispatch_outcome option \<times> scheduler) outcome" where
  "dispatch_next sv self =
     (case pending self of
        [] \<Rightarrow> Returns (None, self)
      | i # rest \<Rightarrow>
          let self = self\<lparr>pending := rest\<rparr> in
          (case bt_get (in_progress self) i of
             None \<Rightarrow> Returns (None, self)
           | Some entry \<Rightarrow>
               let self = self\<lparr>in_progress := bt_remove i (in_progress self),
                 active := bt_insert i \<lparr>active_id = i, active_query = entry_query entry, dependents = [],
                   placeholder = NotMayOptimistic\<rparr> (active self)\<rparr> in
               obind (dispatch_entry sv i entry self) (\<lambda>(outcome, self). Returns (Some outcome, self))))"

lemma create_and_merge_frame [simp]:
  "pending (create_and_merge_summary z q a interface names self) = pending self"
  "in_progress (create_and_merge_summary z q a interface names self) = in_progress self"
  "completed (create_and_merge_summary z q a interface names self) = completed self"
  "initial_tables (create_and_merge_summary z q a interface names self) = initial_tables self"
  "procedures (create_and_merge_summary z q a interface names self) = procedures self"
  "next_id (create_and_merge_summary z q a interface names self) = next_id self"
  "active (create_and_merge_summary z q a interface names self) = active self"
  by (auto simp: create_and_merge_summary_def split: judgement.splits option.splits)

lemma dispatch_entry_frame:
  assumes "dispatch_entry sv i entry self = Returns (outcome, self')"
  shows "pending self' = pending self" "in_progress self' = in_progress self"
    and "completed self' = bt_insert i outcome (completed self)" "procedures self' = procedures self"
    and "next_id self' = next_id self" "initial_tables self' = initial_tables self"
  using assms by (auto simp: dispatch_entry_def Let_def obind_def split: option.splits outcome.splits)

lemma dispatch_next_pending:
  "dispatch_next sv self = Returns (Some outcome, self') \<Longrightarrow> length (pending self') < length (pending self)"
  by (auto simp: dispatch_next_def Let_def obind_def dest!: dispatch_entry_frame(1)
      split: list.splits option.splits outcome.splits)

function drain :: "services \<Rightarrow> scheduler \<Rightarrow> (dispatch_outcome list \<times> scheduler) outcome" where
  "drain sv self = (case dispatch_next sv self of
     Panics \<Rightarrow> Panics
   | Returns (None, self) \<Rightarrow> Returns ([], self)
   | Returns (Some outcome, self) \<Rightarrow>
       obind (drain sv self) (\<lambda>(out, self). Returns (outcome # out, self)))"
  by auto
termination by (relation "measure (length \<circ> pending \<circ> snd)") (auto dest: dispatch_next_pending)

declare drain.simps [simp del]

definition scheduler_is_empty :: "scheduler \<Rightarrow> bool" where
  "scheduler_is_empty self \<longleftrightarrow> pending self = []"

end
