(* ===== verification/Scheduler_Correct.thy ===== *)
theory Scheduler_Correct
  imports Scheduler Dart_Claims Summaries_Correct
begin

text \<open>
  The orchestrator and the queue: the verdict that comes out is right whichever direction produced
  it; the queue is first in, first out, gives every query its own id and answers every query once;
  and the summaries that one procedure leaves can hide the bug of another.
\<close>

section \<open>Verdicts of the orchestrator\<close>

definition may_fail :: "abstract_cfg \<Rightarrow> assertion_site \<Rightarrow> bool" where
  "may_fail cfg site \<longleftrightarrow> (\<exists>s0 m s. cfg_run cfg s0 m s \<and> fails_here cfg site m s)"

text \<open>The verdict of a run is right about a graph and a site.\<close>

definition verdict_right :: "abstract_cfg \<Rightarrow> assertion_site \<Rightarrow> assertion_result \<Rightarrow> bool" where
  "verdict_right cfg site r \<longleftrightarrow>
     (case result_judgement r of
        Verified \<Rightarrow> \<not> may_fail cfg site | BugFound _ \<Rightarrow> may_fail cfg site | JudgementUnknown \<Rightarrow> True)"

text \<open>The side conditions of the two directions, for names \<open>B\<close> of Boolean variables.\<close>

definition checkable :: "string set \<Rightarrow> abstract_cfg \<Rightarrow> assertion_site \<Rightarrow> bool" where
  "checkable B cfg site \<longleftrightarrow> cfg_wf cfg \<and> site_node site \<in> set (node_ids cfg) \<and> acyclic (graph cfg)
     \<and> analysable cfg site \<and> stable_guards cfg \<and> exact_effects cfg \<and> dart_ready B cfg site"

definition sound_services :: "services \<Rightarrow> bool" where
  "sound_services sv \<longleftrightarrow> sound_solver (solver_of sv) \<and> iterates (hash_order_of sv)"

lemma forward_must_right:
  assumes "sound_services sv" "cfg_wf cfg" "dart_ready B cfg site"
    and "\<And>r. fallback = Some r \<Longrightarrow> result_judgement r = JudgementUnknown"
  shows "verdict_right cfg site (run_assertion (run_forward_must sv cfg site names fallback))"
proof (cases "dart_explore (hash_order_of sv) cfg site (solver_of sv) dart_config_default names")
  case (Some r)
  then have "(\<exists>model. result_judgement r = BugFound model) \<and> may_fail cfg site"
    using explored_bug_real [OF assms(2) _ _ assms(3)] assms(1) unfolding sound_services_def may_fail_def by blast
  with Some show ?thesis by (auto simp: run_forward_must_def verdict_right_def)
next
  case None
  then show ?thesis using assms(4)
    by (auto simp: run_forward_must_def verdict_right_def empty_unknown_result_def Let_def split: option.split)
qed

lemma smash_right:
  assumes "sound_services sv" "checkable B cfg site" "unused_summaries cfg tables"
    and "run_smash sv cfg p site tables names = Returns run"
  shows "verdict_right cfg site (run_assertion run)"
proof -
  note c = assms(2) [unfolded checkable_def]
  obtain r where r: "analyze_with_tables cfg site (solver_of sv) tables names (synthesis_of sv cfg p) = Returns r"
    using assms(4) by (auto simp: run_smash_def obind_def split: outcome.splits)
  note must = forward_must_right [OF assms(1), of cfg B site]
  show ?thesis
  proof (cases r)
    case (Inl e)
    then show ?thesis using must [of None names] c r assms(4)
      by (auto simp: run_smash_def verdict_right_def empty_unknown_result_def Let_def split: backward_error.splits)
  next
    case (Inr q)
    show ?thesis
    proof (cases "result_judgement q")
      case Verified
      then have "run_assertion run = q" using r Inr assms(4) by (auto simp: run_smash_def)
      then show ?thesis
        using tables_verified_sound [OF _ _ _ _ _ _ r [unfolded Inr] Verified assms(3)] c assms(1) Verified
        unfolding verdict_right_def sound_services_def may_fail_def by simp
    next
      case (BugFound m)
      then have "run_assertion run = q" using r Inr assms(4) by (auto simp: run_smash_def)
      then show ?thesis
        using tables_bugfound_real [OF _ _ _ _ _ _ r [unfolded Inr] BugFound assms(3)] c assms(1) BugFound
        unfolding verdict_right_def sound_services_def may_fail_def by simp
    next
      case JudgementUnknown
      then have "run = run_forward_must sv cfg site names (Some q)"
        using r Inr assms(4) by (auto simp: run_smash_def)
      then show ?thesis using must [of "Some q" names] c JudgementUnknown by simp
    qed
  qed
qed

lemma obind_returns:
  "\<exists>x. m = Returns x \<Longrightarrow> (\<And>x. m = Returns x \<Longrightarrow> \<exists>y. f x = Returns y) \<Longrightarrow> \<exists>y. obind m f = Returns y"
  by auto

text \<open>The search for loop invariants can panic; it is not asked for a graph without cycles.\<close>

definition synthesis_returns :: "abstract_cfg \<Rightarrow>
    ((cfg_node_id, formula) btree \<Rightarrow> (backward_error + verified_loop_invariant list) outcome) \<Rightarrow> bool" where
  "synthesis_returns cfg synth \<longleftrightarrow> acyclic (graph cfg) \<or> (\<forall>states. synth states \<noteq> Panics)"

lemma tables_return:
  assumes "cfg_wf cfg" "synthesis_returns cfg synth"
  shows "\<exists>r. analyze_with_tables cfg site z tables names synth = Returns r"
proof -
  have order: "\<exists>r. topological_order_excluding ex cfg = Returns r" for ex
    using order_cases [OF assms(1), of ex] by blast
  have "\<exists>r. run_backward cfg site z ex invs tables names = Returns r" for ex invs
    using order [of "set ex"] by (auto simp: run_backward_def split: option.split)
  moreover have "\<exists>r. compute_preliminary_backward_states cfg site ex = Returns r" for ex
    using order [of "set ex"] by (auto simp: compute_preliminary_backward_states_def split: option.split)
  moreover obtain r where "topological_order cfg = Returns r"
    using order [of "{}"] by (auto simp: topological_order_def topological_order_excluding_def)
  moreover obtain b where "detect_back_edges cfg = Some b" using detect_back_edges_spec [OF assms(1)] by blast
  moreover have "\<exists>r. synth states = Returns r" if "topological_order cfg = Returns None" for states
  proof -
    have "\<not> acyclic (graph cfg)" using order_cases [OF assms(1), of "{}"] that by (auto simp: topological_order_all)
    then show ?thesis using assms(2) by (cases "synth states") (auto simp: synthesis_returns_def)
  qed
  ultimately show ?thesis
    by (auto simp: analyze_with_tables_def Let_def intro!: obind_returns split: sum.split)
qed

text \<open>A procedure whose analysis returns: its graph is well-formed and the search does not panic on it.\<close>

definition analysis_returns :: "services \<Rightarrow> abstract_cfg \<Rightarrow> bool" where
  "analysis_returns sv cfg \<longleftrightarrow> cfg_wf cfg \<and> (\<forall>p. synthesis_returns cfg (synthesis_of sv cfg p))"

lemma smash_returns:
  assumes "analysis_returns sv cfg"
  shows "\<exists>run. run_smash sv cfg p site tables names = Returns run"
  unfolding run_smash_def
  by (rule obind_returns [OF tables_return]) (use assms in \<open>simp_all add: analysis_returns_def\<close>)

section \<open>The queue\<close>

inductive scheduled :: "services \<Rightarrow> scheduler \<Rightarrow> bool" for sv where
  init: "scheduled sv (with_initial_tables t)"
| registered: "scheduled sv s \<Longrightarrow> scheduled sv (register_procedure ctx s)"
| enqueued: "scheduled sv s \<Longrightarrow> scheduled sv (snd (enqueue_query q prov s))"
| dispatched: "scheduled sv s \<Longrightarrow> dispatch_next sv s = Returns (o', s') \<Longrightarrow> scheduled sv s'"

definition well_queued :: "scheduler \<Rightarrow> bool" where
  "well_queued s \<longleftrightarrow> bt_wf (in_progress s) \<and> bt_keys (in_progress s) = pending s
     \<and> set (pending s) \<subseteq> {..<next_id s} \<and> set (bt_keys (completed s)) = {..<next_id s} - set (pending s)
     \<and> (\<forall>(i, e) \<in> set (in_progress s). entry_id e = i)"

text \<open>The queue as its clients see it: the waiting entries, in order.\<close>

definition waiting :: "scheduler \<Rightarrow> pending_entry list" where
  "waiting s = bt_values (in_progress s)"

lemma bt_insert_last: "(\<And>j. j \<in> set (bt_keys m) \<Longrightarrow> j < k) \<Longrightarrow> bt_insert k v m = m @ [(k, v)]"
  by (induction k v m rule: bt_insert.induct) (auto simp: bt_keys_def less_imp_not_less dest: less_imp_neq)

lemma bt_remove_first: "bt_wf ((k, v) # m) \<Longrightarrow> bt_remove k ((k, v) # m) = m"
  by (auto simp: bt_wf_def bt_remove_def filter_id_conv)

lemma waiting_ids:
  assumes "well_queued s"
  shows "map entry_id (waiting s) = pending s"
proof -
  have "map entry_id (map snd (in_progress s)) = map fst (in_progress s)"
    using assms by (force simp: well_queued_def)
  then show ?thesis using assms by (simp only: well_queued_def waiting_def bt_values_def bt_keys_def)
qed

lemma waiting_distinct:
  assumes "well_queued s"
  shows "distinct (map entry_id (waiting s))" "entry_id ` set (waiting s) \<subseteq> {..<next_id s}"
proof -
  have "distinct (pending s)" using assms bt.distinct_keys unfolding well_queued_def by metis
  then show "distinct (map entry_id (waiting s))" by (simp only: waiting_ids [OF assms])
  have "set (map entry_id (waiting s)) \<subseteq> {..<next_id s}"
    using assms by (simp only: waiting_ids [OF assms] well_queued_def)
  then show "entry_id ` set (waiting s) \<subseteq> {..<next_id s}" by simp
qed

lemma completed_iff:
  assumes "well_queued s"
  shows "completed_outcome s i \<noteq> None \<longleftrightarrow> i < next_id s \<and> i \<notin> entry_id ` set (waiting s)"
proof -
  have "set (bt_keys (completed s)) = {..<next_id s} - set (map entry_id (waiting s))"
    using assms by (simp only: waiting_ids [OF assms] well_queued_def)
  moreover have "completed_outcome s i \<noteq> None \<longleftrightarrow> i \<in> set (bt_keys (completed s))"
    by (simp only: completed_outcome_def bt.keys_get)
  ultimately show ?thesis by simp
qed

lemma well_queued_enqueue:
  assumes "well_queued s"
  shows "well_queued (snd (enqueue_query q prov s))"
    and "waiting (snd (enqueue_query q prov s))
      = waiting s @ [\<lparr>entry_id = next_id s, entry_query = q, provenance = prov\<rparr>]"
proof -
  let ?e = "\<lparr>entry_id = next_id s, entry_query = q, provenance = prov\<rparr>"
  have ins: "bt_insert (next_id s) ?e (in_progress s) = in_progress s @ [(next_id s, ?e)]"
    using assms by (intro bt_insert_last) (auto simp: well_queued_def)
  show "waiting (snd (enqueue_query q prov s)) = waiting s @ [?e]"
    by (simp add: waiting_def enqueue_query_def ins bt_values_def Let_def)
  have "bt_wf (bt_insert (next_id s) ?e (in_progress s))" using assms by (simp add: well_queued_def bt_wf_insert)
  then show "well_queued (snd (enqueue_query q prov s))"
    using assms ins by (auto simp: well_queued_def enqueue_query_def bt_keys_def Let_def)
qed

lemma dispatch_next_cases:
  assumes "well_queued s" "dispatch_next sv s = Returns (r, s')"
  shows "(pending s = [] \<and> r = None \<and> s' = s) \<or>
    (\<exists>e es out u. waiting s = e # es \<and> r = Some out \<and> waiting s' = es \<and> well_queued s'
      \<and> completed s' = bt_insert (entry_id e) out (completed s) \<and> next_id s' = next_id s
      \<and> procedures s' = procedures s \<and> dispatch_entry sv (entry_id e) e u = Returns (out, s')
      \<and> procedures u = procedures s)"
proof (cases "in_progress s")
  case Nil
  then show ?thesis using assms by (auto simp: well_queued_def dispatch_next_def bt_keys_def)
next
  case (Cons p m)
  obtain i e where p: "p = (i, e)" by fastforce
  have wq: "entry_id e = i" "pending s = i # bt_keys m" "bt_wf ((i, e) # m)" "bt_get (in_progress s) i = Some e"
    using assms(1) Cons p by (auto simp: well_queued_def bt_keys_def bt_get_def)
  define u where "u = s\<lparr>pending := bt_keys m, in_progress := m,
    active := bt_insert i \<lparr>active_id = i, active_query = entry_query e, dependents = [],
      placeholder = NotMayOptimistic\<rparr> (active s)\<rparr>"
  obtain out where out: "dispatch_entry sv i e u = Returns (out, s')" "r = Some out"
    using assms(2) wq Cons p
    by (auto simp: dispatch_next_def Let_def u_def bt_remove_first obind_def split: outcome.splits)
  note frame = dispatch_entry_frame [OF out(1)]
  have "waiting s = e # waiting s'" using Cons p frame by (simp add: waiting_def u_def bt_values_def)
  moreover have "well_queued s'"
    using assms(1) wq Cons p frame
    by (auto simp: well_queued_def u_def bt_wf_def bt_keys_def set_keys_bt_insert)
  ultimately show ?thesis using out frame wq by (auto simp: u_def)
qed

lemma well_queued_dispatch:
  "well_queued s \<Longrightarrow> dispatch_next sv s = Returns (r, s') \<Longrightarrow> well_queued s'"
  using dispatch_next_cases by blast

lemma scheduled_well_queued: "scheduled sv s \<Longrightarrow> well_queued s"
proof (induction rule: scheduled.induct)
  case (init t)
  then show ?case by (simp add: well_queued_def with_initial_tables_def bt_wf_def bt_keys_def)
next
  case (registered s ctx)
  then show ?case by (simp add: well_queued_def register_procedure_def)
next
  case (enqueued s q prov)
  then show ?case by (intro well_queued_enqueue(1))
next
  case (dispatched s o' s')
  then show ?case using well_queued_dispatch by blast
qed

section \<open>Draining\<close>

text \<open>One entry and its answer: what the run says of the entry's procedure and site.\<close>

definition answers :: "services \<Rightarrow> scheduler \<Rightarrow> pending_entry \<Rightarrow> dispatch_outcome \<Rightarrow> bool" where
  "answers sv s e out \<longleftrightarrow> (\<forall>run. out = Completed run \<longrightarrow>
     (\<exists>ctx site. procedure s (query_procedure (entry_query e)) = Some ctx \<and> provenance e = Some site \<and>
        (\<forall>B. checkable B (context_cfg ctx) site \<longrightarrow>
           (\<forall>i n. bt_get (cfg_nodes (context_cfg ctx)) i = Some n \<longrightarrow> callee_of n = None) \<longrightarrow>
           verdict_right (context_cfg ctx) site (run_assertion run))))"

lemma dispatch_entry_answers:
  assumes "sound_services sv" "dispatch_entry sv i e u = Returns (out, s')"
  shows "answers sv u e out"
  unfolding answers_def
proof (intro allI impI)
  fix run
  assume "out = Completed run"
  with assms(2) obtain ctx site where ctx: "bt_get (procedures u) (query_procedure (entry_query e)) = Some ctx"
    "provenance e = Some site" "run_smash sv (context_cfg ctx) (query_procedure (entry_query e)) site
      (legacy_tables_for_dispatch u) (context_debug_names ctx) = Returns run"
    by (auto simp: dispatch_entry_def Let_def obind_def split: option.splits outcome.splits)
  show "\<exists>ctx site. procedure u (query_procedure (entry_query e)) = Some ctx \<and> provenance e = Some site \<and>
      (\<forall>B. checkable B (context_cfg ctx) site \<longrightarrow>
         (\<forall>i n. bt_get (cfg_nodes (context_cfg ctx)) i = Some n \<longrightarrow> callee_of n = None) \<longrightarrow>
         verdict_right (context_cfg ctx) site (run_assertion run))"
    using ctx smash_right [OF assms(1) _ unused_without_calls ctx(3)] unfolding procedure_def by blast
qed

lemma dispatch_entry_returns:
  assumes "\<And>p ctx. bt_get (procedures u) p = Some ctx \<Longrightarrow> analysis_returns sv (context_cfg ctx)"
  shows "\<exists>r. dispatch_entry sv i e u = Returns r"
proof (cases "bt_get (procedures u) (query_procedure (entry_query e))")
  case (Some ctx)
  show ?thesis
  proof (cases "provenance e")
    case (Some site)
    have "analysis_returns sv (context_cfg ctx)" using assms \<open>bt_get _ _ = Some ctx\<close> by blast
    note run = smash_returns [OF this]
    show ?thesis using \<open>bt_get _ _ = Some ctx\<close> Some unfolding dispatch_entry_def Let_def
      by (simp del: split_paired_Ex) (rule obind_returns [OF run], simp del: split_paired_Ex)
  qed (simp add: dispatch_entry_def Some)
qed (simp add: dispatch_entry_def)

lemma dispatch_next_returns:
  assumes "\<And>p ctx. bt_get (procedures s) p = Some ctx \<Longrightarrow> analysis_returns sv (context_cfg ctx)"
  shows "\<exists>r. dispatch_next sv s = Returns r"
proof (cases "pending s")
  case (Cons i rest)
  show ?thesis
  proof (cases "bt_get (in_progress s) i")
    case (Some e)
    have "\<exists>r. dispatch_entry sv i e (s\<lparr>pending := rest, in_progress := bt_remove i (in_progress s),
        active := bt_insert i \<lparr>active_id = i, active_query = entry_query e, dependents = [],
          placeholder = NotMayOptimistic\<rparr> (active s)\<rparr>) = Returns r"
      by (rule dispatch_entry_returns) (use assms in simp)
    then obtain r where "dispatch_entry sv i e (s\<lparr>pending := rest, in_progress := bt_remove i (in_progress s),
        active := bt_insert i \<lparr>active_id = i, active_query = entry_query e, dependents = [],
          placeholder = NotMayOptimistic\<rparr> (active s)\<rparr>) = Returns r" ..
    then show ?thesis using Cons Some by (cases r) (simp add: dispatch_next_def)
  qed (simp add: dispatch_next_def Cons)
qed (simp add: dispatch_next_def)

lemma drain_facts:
  assumes "well_queued s" "drain sv s = Returns (outs, s')"
  shows "well_queued s' \<and> waiting s' = [] \<and> next_id s' = next_id s \<and> length outs = length (waiting s)
    \<and> map Some outs = map (completed_outcome s' \<circ> entry_id) (waiting s)
    \<and> (\<forall>i. i \<notin> entry_id ` set (waiting s) \<longrightarrow> completed_outcome s' i = completed_outcome s i)
    \<and> (sound_services sv \<longrightarrow> list_all2 (answers sv s) (waiting s) outs)"
  using assms
proof (induction sv s arbitrary: outs s' rule: drain.induct)
  case (1 sv s)
  obtain r t where d: "dispatch_next sv s = Returns (r, t)"
    using 1(3) by (auto simp: drain.simps [of sv s] split: outcome.splits)
  show ?case
  proof (cases r)
    case None
    then have "outs = []" "s' = t" using 1(3) d by (simp_all add: drain.simps [of sv s])
    with dispatch_next_cases [OF 1(2) d] None 1(2) show ?thesis
      by (auto simp: waiting_def well_queued_def bt_keys_def bt_values_def)
  next
    case (Some out)
    then obtain rest where rest: "drain sv t = Returns (rest, s')" "outs = out # rest"
      using 1(3) d by (auto simp: drain.simps [of sv s] obind_def split: outcome.splits)
    obtain e es u where e: "waiting s = e # es" "waiting t = es" "well_queued t" "next_id t = next_id s"
      "completed t = bt_insert (entry_id e) out (completed s)" "procedures t = procedures s"
      "dispatch_entry sv (entry_id e) e u = Returns (out, t)" "procedures u = procedures s"
      using dispatch_next_cases [OF 1(2) d] Some by auto
    note IH = 1(1) [OF d _ Some e(3) rest(1)]
    have dist: "entry_id e \<notin> entry_id ` set es" using waiting_distinct(1) [OF 1(2)] e(1) by simp
    have now_done: "completed_outcome t i = (if i = entry_id e then Some out else completed_outcome s i)" for i
      by (simp add: completed_outcome_def e(5) bt_get_insert)
    have "sound_services sv \<Longrightarrow> answers sv s e out"
      using dispatch_entry_answers [OF _ e(7)] e(8) by (simp add: answers_def procedure_def)
    moreover have "answers sv t = answers sv s" using e(6) by (simp add: answers_def procedure_def fun_eq_iff)
    ultimately have right: "sound_services sv \<longrightarrow> list_all2 (answers sv s) (waiting s) outs"
      using IH e(1,2) rest(2) by simp
    have "completed_outcome s' (entry_id e) = Some out" using IH now_done e(2) dist by simp
    then have outs: "map Some outs = map (completed_outcome s' \<circ> entry_id) (waiting s)"
      using IH e(1,2) rest(2) by simp
    have "\<forall>i. i \<notin> entry_id ` set (waiting s) \<longrightarrow> completed_outcome s' i = completed_outcome s i"
      using IH now_done e(1,2) by simp
    with right outs show ?thesis using IH e(1,2,4) rest(2) by simp
  qed
qed

lemma drain_returns:
  assumes "\<And>p ctx. bt_get (procedures s) p = Some ctx \<Longrightarrow> analysis_returns sv (context_cfg ctx)" "well_queued s"
  shows "\<exists>outs s'. drain sv s = Returns (outs, s')"
  using assms
proof (induction sv s rule: drain.induct)
  case (1 sv s)
  obtain r t where d: "dispatch_next sv s = Returns (r, t)"
    using dispatch_next_returns [of s sv] 1(2) by fastforce
  show ?case
  proof (cases r)
    case None
    then show ?thesis using d by (simp add: drain.simps [of sv s])
  next
    case (Some out)
    then have "well_queued t" "procedures t = procedures s" using dispatch_next_cases [OF 1(3) d] by auto
    then have "\<exists>outs s'. drain sv t = Returns (outs, s')" using 1(1) [OF d _ Some] 1(2) by auto
    then show ?thesis using d Some by (auto simp: drain.simps [of sv s])
  qed
qed

section \<open>Properties\<close>

text \<open>
  The queue of the scheduler refines a first-in-first-out queue: in every state the operations
  produce, enqueueing appends the query under the next id, and dispatching answers the front entry,
  removes it and records its outcome under its id, or does nothing on an empty queue.
\<close>

theorem scheduler_is_fifo:
  assumes "scheduled sv s"
  shows "waiting (snd (enqueue_query q prov s))
      = waiting s @ [\<lparr>entry_id = next_id s, entry_query = q, provenance = prov\<rparr>]
    \<and> (dispatch_next sv s = Returns (r, s') \<longrightarrow>
        (case waiting s of
           [] \<Rightarrow> r = None \<and> s' = s
         | e # es \<Rightarrow> \<exists>out. r = Some out \<and> waiting s' = es \<and>
             completed_outcome s' = (completed_outcome s)(entry_id e \<mapsto> out)))
    \<and> distinct (map entry_id (waiting s)) \<and> (\<forall>e \<in> set (waiting s). entry_id e < next_id s)"
proof -
  have wq: "well_queued s" using assms by (rule scheduled_well_queued)
  have none: "pending s = [] \<longleftrightarrow> waiting s = []" using waiting_ids [OF wq] by (metis map_is_Nil_conv)
  have "case waiting s of
      [] \<Rightarrow> r = None \<and> s' = s
    | e # es \<Rightarrow> \<exists>out. r = Some out \<and> waiting s' = es \<and>
        completed_outcome s' = (completed_outcome s)(entry_id e \<mapsto> out)"
    if d: "dispatch_next sv s = Returns (r, s')"
    using dispatch_next_cases [OF wq d] none by (auto simp: completed_outcome_def bt_get_insert fun_eq_iff)
  then show ?thesis using well_queued_enqueue(2) [OF wq] waiting_distinct [OF wq] by auto
qed

text \<open>
  C38: every query is answered: draining a scheduler whose procedures have well-formed graphs, each
  without cycles or such that the search for its loop invariants does not panic, returns, empties
  the queue, gives the outcomes in the order of the queue, and leaves an outcome
  for every id that was ever assigned without changing one that was there.
\<close>

theorem drain_answers_all:
  assumes "scheduled sv s" and "\<forall>(p, ctx) \<in> set (procedures s). cfg_wf (context_cfg ctx)
      \<and> (acyclic (graph (context_cfg ctx)) \<or> (\<forall>p states. synthesis_of sv (context_cfg ctx) p states \<noteq> Panics))"
  shows "\<exists>outs s'. drain sv s = Returns (outs, s') \<and> waiting s' = []
    \<and> map Some outs = map (completed_outcome s' \<circ> entry_id) (waiting s)
    \<and> (\<forall>i < next_id s. completed_outcome s' i \<noteq> None)
    \<and> (\<forall>i out. completed_outcome s i = Some out \<longrightarrow> completed_outcome s' i = Some out)"
proof -
  have wq: "well_queued s" using assms(1) by (rule scheduled_well_queued)
  have "\<And>p ctx. bt_get (procedures s) p = Some ctx \<Longrightarrow> analysis_returns sv (context_cfg ctx)"
    using assms(2) by (auto simp: analysis_returns_def synthesis_returns_def dest!: bt_get_SomeD)
  then obtain outs s' where d: "drain sv s = Returns (outs, s')" using drain_returns [of s sv] wq by blast
  note facts = drain_facts [OF wq d]
  have "completed_outcome s' i \<noteq> None" if "i < next_id s" for i
    using completed_iff [of s' i] facts that by simp
  moreover have "completed_outcome s' i = Some out" if "completed_outcome s i = Some out" for i out
  proof -
    have "i \<notin> entry_id ` set (waiting s)" using completed_iff [OF wq, of i] that by simp
    then show ?thesis using facts that by simp
  qed
  ultimately show ?thesis using d facts by blast
qed

text \<open>
  C37: the composition is sound: with a sound solver, every completed answer is a right verdict
  about the procedure and the site of its query, whichever direction of the analysis gave it and
  whatever was dispatched before, for graphs that meet the side conditions of both directions and
  call no procedure.
\<close>

theorem drain_verdicts_right:
  assumes "scheduled sv s" "sound_services sv" "drain sv s = Returns (outs, s')" "k < length (waiting s)"
    and "outs ! k = Completed run" "provenance (waiting s ! k) = Some site"
    and "procedure s (query_procedure (entry_query (waiting s ! k))) = Some ctx"
    and "checkable B (context_cfg ctx) site"
    and "\<forall>(i, n) \<in> set (cfg_nodes (context_cfg ctx)). callee_of n = None"
  shows "verdict_right (context_cfg ctx) site (run_assertion run)"
proof -
  have "list_all2 (answers sv s) (waiting s) outs"
    using drain_facts [OF scheduled_well_queued [OF assms(1)] assms(3)] assms(2) by blast
  then have "answers sv s (waiting s ! k) (outs ! k)" using assms(4) by (simp add: list_all2_conv_all_nth)
  moreover have "bt_get (cfg_nodes (context_cfg ctx)) i = Some n \<Longrightarrow> callee_of n = None" for i n
    using assms(9) by (auto dest: bt_get_SomeD)
  ultimately show ?thesis using assms(5-8) unfolding answers_def by auto
qed

section \<open>Examples\<close>

definition example_services :: "solver \<Rightarrow> services" where
  "example_services z = \<lparr>hash_order_of = (\<lambda>ks. ks), solver_of = z, synthesis_of = (\<lambda>_ _. no_synthesis)\<rparr>"

definition example_context :: "procedure_name \<Rightarrow> abstract_cfg \<Rightarrow> assertion_site \<Rightarrow> procedure_context" where
  "example_context p cfg site = \<lparr>context_cfg = cfg, context_assertions = [site], context_debug_names = Map.empty,
     context_interface = procedure_interface_new p []\<rparr>"

text \<open>One query per procedure, with the post-condition the driver computes.\<close>

definition add_example :: "procedure_name \<Rightarrow> abstract_cfg \<Rightarrow> assertion_site \<Rightarrow> formula \<Rightarrow> scheduler \<Rightarrow> scheduler" where
  "add_example p cfg site post s = snd (enqueue_query (query_new p FTrue post) (Some site)
     (register_procedure (example_context p cfg site) s))"

definition branch_scheduler :: scheduler where
  "branch_scheduler = add_example ''p'' (branch_cfg (f_bool_var ''c'')) (branch_site 1)
     (f_not (site_obligation (branch_site 1))) scheduler_new"

lemma branch_scheduled: "scheduled sv branch_scheduler"
  unfolding branch_scheduler_def add_example_def scheduler_new_def
  by (intro scheduled.enqueued scheduled.registered scheduled.init)

lemma branch_waiting:
  "waiting branch_scheduler = [\<lparr>entry_id = 0, entry_query = query_new ''p'' FTrue (f_not (site_obligation (branch_site 1))),
     provenance = Some (branch_site 1)\<rparr>]"
  "procedures branch_scheduler = [(''p'', example_context ''p'' (branch_cfg (f_bool_var ''c'')) (branch_site 1))]"
  by (simp_all add: branch_scheduler_def add_example_def scheduler_new_def with_initial_tables_def waiting_def
      enqueue_query_def register_procedure_def bt_values_def example_context_def procedure_interface_new_def Let_def)

lemma branch_checkable: "checkable {''c''} (branch_cfg (f_bool_var ''c'')) (branch_site 1)"
  using branch_wf branch_site_node branch_acyclic branch_analysable branch_stable branch_exact branch_tidy
  by (simp add: checkable_def f_bool_var_def)

definition verdict_of :: "dispatch_outcome \<Rightarrow> judgement option" where
  "verdict_of out = (case out of Completed run \<Rightarrow> Some (result_judgement (run_assertion run)) | Unprovenanced \<Rightarrow> None)"

lemma verdict_of_Some: "verdict_of out = Some j \<longleftrightarrow>
    (\<exists>run. out = Completed run \<and> result_judgement (run_assertion run) = j)"
  by (auto simp: verdict_of_def split: dispatch_outcome.splits)

lemma branch_drained: "\<exists>run s'. drain (example_services folding_solver) branch_scheduler = Returns ([Completed run], s')
    \<and> result_judgement (run_assertion run) = Verified"
proof -
  have "case drain (example_services folding_solver) branch_scheduler of
      Returns (outs, s') \<Rightarrow> map verdict_of outs = [Some Verified] | Panics \<Rightarrow> False"
    by code_simp
  then show ?thesis by (auto simp: map_eq_Cons_conv verdict_of_Some split: outcome.splits)
qed

lemma example_services_sound: "sound_solver z \<Longrightarrow> sound_services (example_services z)"
  by (simp add: sound_services_def example_services_def iterates_def)

theorem drain_verdicts_witness: "\<not> may_fail (branch_cfg (f_bool_var ''c'')) (branch_site 1)"
proof -
  let ?c = "f_bool_var ''c''"
  obtain run s' where d: "drain (example_services folding_solver) branch_scheduler = Returns ([Completed run], s')"
    "result_judgement (run_assertion run) = Verified" using branch_drained by blast
  have "procedure branch_scheduler (query_procedure (entry_query (waiting branch_scheduler ! 0)))
      = Some (example_context ''p'' (branch_cfg ?c) (branch_site 1))"
    by (simp add: branch_waiting procedure_def query_new_def bt_get_def)
  moreover have "\<forall>(i, n) \<in> set (cfg_nodes (branch_cfg ?c)). callee_of n = None"
    by (simp add: branch_defs callee_of_def)
  ultimately have "verdict_right (branch_cfg ?c) (branch_site 1) (run_assertion run)"
    using drain_verdicts_right [OF branch_scheduled example_services_sound [OF folding_solver_sound] d(1), of 0 run
        "branch_site 1" "example_context ''p'' (branch_cfg ?c) (branch_site 1)" "{''c''}"] branch_checkable
    by (simp add: branch_waiting example_context_def)
  with d(2) show ?thesis by (simp add: verdict_right_def)
qed

theorem drain_answers_witness: "\<exists>outs s'. drain (example_services folding_solver) branch_scheduler = Returns (outs, s')
    \<and> waiting s' = [] \<and> length outs = 1"
proof -
  have "\<forall>(p, ctx) \<in> set (procedures branch_scheduler). cfg_wf (context_cfg ctx)
      \<and> (acyclic (graph (context_cfg ctx))
        \<or> (\<forall>p states. synthesis_of (example_services folding_solver) (context_cfg ctx) p states \<noteq> Panics))"
    by (simp add: branch_waiting example_context_def branch_wf branch_acyclic)
  from drain_answers_all [OF branch_scheduled this] show ?thesis
    by (fastforce simp: branch_waiting dest!: map_eq_imp_length_eq)
qed

theorem scheduler_fifo_witness:
  "map entry_id (waiting (snd (enqueue_query (query_new ''q'' FTrue FFalse) None branch_scheduler))) = [0, 1]"
proof -
  have "next_id branch_scheduler = 1"
    by (simp add: branch_scheduler_def add_example_def scheduler_new_def with_initial_tables_def
        enqueue_query_def register_procedure_def Let_def)
  then show ?thesis using scheduler_is_fifo [OF branch_scheduled] by (simp add: branch_waiting)
qed

section \<open>A summary that hides a bug\<close>

text \<open>
  \<open>q\<close> guards its assertion \<open>g[0] > 0\<close> with a condition that is never true; \<open>p\<close> calls \<open>q\<close>, which
  writes no memory, and asserts \<open>g[0] > 0\<close>.  The summary made of the verdict about \<open>q\<close> speaks of
  the states at its assertion, and a use of it needs its precondition to be feasible only, so the
  call edge of \<open>p\<close> is blocked.  The solver finds a conjunction with a complementary pair
  unsatisfiable.
\<close>

definition pair_solver :: solver where
  "pair_solver = \<lparr>assert_formula = (\<lambda>_. Inr ()),
     check = (\<lambda>f. case f of FAnd fs \<Rightarrow> if list_ex (\<lambda>g. f_not g \<in> set fs) fs then Unsat else check folding_solver f
       | _ \<Rightarrow> check folding_solver f),
     model_bindings = (\<lambda>_ _. None)\<rparr>"

lemma pair_solver_sound: "sound_solver pair_solver"
  unfolding sound_solver_def
proof (intro allI impI)
  fix f
  have folding: "check folding_solver f = Unsat \<Longrightarrow> admissible s \<Longrightarrow> \<not> eval_formula s f"
    "check folding_solver f = Sat \<Longrightarrow> \<exists>s. admissible s \<and> eval_formula s f" for s
    using folding_solver_sound by (auto simp: sound_solver_def folding_solver_def)
  show "(check pair_solver f = Unsat \<longrightarrow> (\<forall>s. admissible s \<longrightarrow> \<not> eval_formula s f)) \<and>
      (check pair_solver f = Sat \<longrightarrow> (\<exists>s. admissible s \<and> eval_formula s f))"
  proof (cases "\<exists>fs g. f = FAnd fs \<and> g \<in> set fs \<and> f_not g \<in> set fs")
    case True
    then obtain fs g where "f = FAnd fs" "g \<in> set fs" "f_not g \<in> set fs" by blast
    moreover from this have "\<not> eval_formula s f" for s
      using fml.holds_neg [of s g] eval_FAnd [of s fs] by blast
    ultimately show ?thesis by (auto simp: pair_solver_def list_ex_iff)
  next
    case False
    then have "check pair_solver f = check folding_solver f"
      by (auto simp: pair_solver_def list_ex_iff split: formula.split)
    then show ?thesis using folding by metis
  qed
qed

definition positive :: formula where
  "positive = FGt (TSelect (MVar ''g'') (TInt 0)) (TInt 0)"

definition positive_site :: assertion_site where
  "positive_site = \<lparr>site_id = 1, site_node = 1, site_source_location = source_location_new [] 0 0,
     site_location = [], site_obligation = positive\<rparr>"

definition guarded_cfg :: "formula \<Rightarrow> transfer_effect list \<Rightarrow> abstract_cfg" where
  "guarded_cfg c es = \<lparr>cfg_nodes = [(0, example_node 0), (1, (example_node 1)\<lparr>node_transfer := transfer_fn_new es\<rparr>)],
     cfg_edges = [(0, (example_edge 0 0 1)\<lparr>edge_guard := c\<rparr>)],
     cfg_entry = 0, concrete_exits = [1], cfg_exit = None, next_node = 2, next_edge = 1\<rparr>"

definition hiding_scheduler :: scheduler where
  "hiding_scheduler = add_example ''p'' (guarded_cfg FTrue [Call ''q'' PreservesMemory]) positive_site (f_not positive)
     (add_example ''q'' (guarded_cfg FFalse []) positive_site (f_not positive) scheduler_new)"

lemma shared_summary_hides_bug:
  "case drain (example_services pair_solver) hiding_scheduler of
      Returns (outs, s') \<Rightarrow> map verdict_of outs = [Some Verified, Some Verified] | Panics \<Rightarrow> False"
  "cfg_wf (guarded_cfg FTrue [Call ''q'' PreservesMemory])"
  "may_fail (guarded_cfg FTrue [Call ''q'' PreservesMemory]) positive_site"
proof -
  let ?g = "guarded_cfg FTrue [Call ''q'' PreservesMemory]"
  show "case drain (example_services pair_solver) hiding_scheduler of
      Returns (outs, s') \<Rightarrow> map verdict_of outs = [Some Verified, Some Verified] | Panics \<Rightarrow> False"
    by code_simp
  show "cfg_wf ?g"
    by (auto simp: cfg_wf_defs branch_defs guarded_cfg_def bt_wf_def node_ids_def bt_keys_def)
  have step: "edge_step ?g ((example_edge 0 0 1)\<lparr>edge_guard := FTrue\<rparr>) sample_state sample_state"
    by (auto simp: edge_step_def guarded_cfg_def branch_defs bt_get_def)
  have "cfg_run ?g sample_state 1 sample_state"
    using cfg_run.along [OF _ _ step, of sample_state] cfg_run.start [OF sample_state_admissible, of ?g]
    by (simp add: guarded_cfg_def example_edge_def bt_values_def)
  moreover have "fails_here ?g positive_site 1 sample_state"
    by (auto simp: fails_here_def positive_site_def positive_def guarded_cfg_def branch_defs bt_get_def
        effect_step_transparent sample_state_def select_cell_def)
  ultimately show "may_fail ?g positive_site" unfolding may_fail_def by blast
qed

end
