(* ===== verification/Assertions.thy ===== *)
theory Assertions
  imports Program_Graph
begin

text \<open>
  The assertion language: lexer and parser (\<open>src/frontend/assertions/exp.rs\<close>) and the translation
  into formulas (\<open>src/frontend/assertions/translation.rs\<close>).  Text is ASCII.  The parser keeps the
  tokens that are left; its mutually recursive methods run on fuel, and \<open>None\<close> stands for too
  little of it.
\<close>

section \<open>Syntax\<close>

datatype op = Plus | Minus | Div | Mult | LAnd | LOr | LNot | Gt | Ge | Lt | Le | Eeq | Arrow | Named

fun op_str :: "op \<Rightarrow> string" where
  "op_str Plus = ''+''"
| "op_str Minus = ''-''"
| "op_str Div = ''/''"
| "op_str Mult = ''*''"
| "op_str LAnd = ''&''"
| "op_str LOr = ''|''"
| "op_str LNot = ''!''"
| "op_str Gt = ''>''"
| "op_str Ge = ''>=''"
| "op_str Lt = ''<''"
| "op_str Le = ''<=''"
| "op_str Eeq = ''==''"
| "op_str Arrow = ''=>''"
| "op_str Named = ''::''"

datatype expr = Ident string | Const string | Binop expr op expr | Unop expr

record statement =
  stmt_func :: string
  stmt_exp :: expr

record assertion =
  assertion_stmt :: statement
  assertion_name :: string

datatype tok =
    TokNum string | TokIdent string | TokFIdent string | TokPlus | TokMinus | TokStar | TokSlash
  | TokAnd | TokOr | TokNot | TokGt | TokGe | TokLt | TokLe | TokEqEq | TokArrow | TokNamed
  | TokLParen | TokRParen

fun tok_str :: "tok \<Rightarrow> string" where
  "tok_str (TokNum s) = s"
| "tok_str (TokIdent s) = s"
| "tok_str (TokFIdent s) = s"
| "tok_str TokPlus = ''+''"
| "tok_str TokMinus = ''-''"
| "tok_str TokStar = ''*''"
| "tok_str TokSlash = ''/''"
| "tok_str TokAnd = ''&''"
| "tok_str TokOr = ''|''"
| "tok_str TokNot = ''!''"
| "tok_str TokGt = ''>''"
| "tok_str TokGe = ''>=''"
| "tok_str TokLt = ''<''"
| "tok_str TokLe = ''<=''"
| "tok_str TokEqEq = ''==''"
| "tok_str TokArrow = ''=>''"
| "tok_str TokNamed = ''::''"
| "tok_str TokLParen = ''(''"
| "tok_str TokRParen = '')''"

section \<open>Lexer\<close>

definition is_digit :: "char \<Rightarrow> bool" where
  "is_digit c \<longleftrightarrow> CHR ''0'' \<le> c \<and> c \<le> CHR ''9''"

definition is_alphabetic :: "char \<Rightarrow> bool" where
  "is_alphabetic c \<longleftrightarrow> (CHR ''a'' \<le> c \<and> c \<le> CHR ''z'') \<or> (CHR ''A'' \<le> c \<and> c \<le> CHR ''Z'')"

definition is_ident_char :: "char \<Rightarrow> bool" where
  "is_ident_char c \<longleftrightarrow> is_alphabetic c \<or> is_digit c \<or> c = CHR ''_''"

definition next_is :: "char \<Rightarrow> string \<Rightarrow> bool" where
  "next_is d cs \<longleftrightarrow> (case cs of [] \<Rightarrow> False | e # _ \<Rightarrow> e = d)"

definition unexpected :: "char \<Rightarrow> nat \<Rightarrow> string" where
  "unexpected c i = ''unexpected '' @ [CHR 0x27, c, CHR 0x27] @ '' at position '' @ nat_str i"

text \<open>The number of characters of a numeric literal after its first digit.\<close>

definition numeral_rest :: "string \<Rightarrow> nat" where
  "numeral_rest cs = (let digits = length (takeWhile is_digit cs); rest = drop digits cs in
     case rest of
       dot # d # tail \<Rightarrow>
         if dot = CHR ''.'' \<and> is_digit d then digits + 1 + length (takeWhile is_digit (d # tail)) else digits
     | _ \<Rightarrow> digits)"

text \<open>
  One round of the loop at position \<open>i\<close>: the token, if any, and the number of characters consumed
  after the first.
\<close>

definition lex_one :: "nat \<Rightarrow> char \<Rightarrow> string \<Rightarrow> string + tok option \<times> nat" where
  "lex_one i c cs =
     (if is_space c then Inr (None, 0)
      else if c = CHR ''+'' then Inr (Some TokPlus, 0)
      else if c = CHR ''-'' then Inr (Some TokMinus, 0)
      else if c = CHR ''*'' then Inr (Some TokStar, 0)
      else if c = CHR ''/'' then Inr (Some TokSlash, 0)
      else if c = CHR ''('' then Inr (Some TokLParen, 0)
      else if c = CHR '')'' then Inr (Some TokRParen, 0)
      else if c = CHR ''!'' \<or> c = CHR ''~'' then Inr (Some TokNot, 0)
      else if c = CHR ''&'' then Inr (Some TokAnd, if next_is (CHR ''&'') cs then 1 else 0)
      else if c = CHR ''|'' then Inr (Some TokOr, if next_is (CHR ''|'') cs then 1 else 0)
      else if c = CHR ''>'' then Inr (if next_is (CHR ''='') cs then (Some TokGe, 1) else (Some TokGt, 0))
      else if c = CHR ''<'' then Inr (if next_is (CHR ''='') cs then (Some TokLe, 1) else (Some TokLt, 0))
      else if c = CHR ''='' then
        (if next_is (CHR ''='') cs then Inr (Some TokEqEq, 1)
         else if next_is (CHR ''>'') cs then Inr (Some TokArrow, 1)
         else Inl (unexpected c i))
      else if c = CHR '':'' then
        (if next_is (CHR '':'') cs then Inr (Some TokNamed, 1) else Inl (unexpected c i))
      else if c = CHR ''%'' then
        (let name = takeWhile is_ident_char cs in
         if name = [] then Inl (''empty identifier after '' @ [CHR 0x27, CHR ''%'', CHR 0x27])
         else Inr (Some (TokIdent (c # name)), length name))
      else if is_alphabetic c \<or> c = CHR ''_'' then
        (let name = takeWhile is_ident_char cs in Inr (Some (TokFIdent (c # name)), length name))
      else if is_digit c then
        (let n = numeral_rest cs in Inr (Some (TokNum (c # take n cs)), n))
      else Inl (''unexpected character '' @ [CHR 0x27, c, CHR 0x27] @ '' at position '' @ nat_str i))"

fun lex_from :: "nat \<Rightarrow> string \<Rightarrow> string + tok list" where
  "lex_from i [] = Inr []"
| "lex_from i (c # cs) = rbind (lex_one i c cs) (\<lambda>(t, n).
     rbind (lex_from (i + 1 + n) (drop n cs)) (\<lambda>ts.
       Inr (case t of None \<Rightarrow> ts | Some t \<Rightarrow> t # ts)))"

definition lex :: "string \<Rightarrow> string + tok list" where
  "lex src = lex_from 0 src"

section \<open>Parser\<close>

type_synonym 'a parsed = "(string + 'a \<times> tok list) option"

definition pbind :: "'a parsed \<Rightarrow> ('a \<Rightarrow> tok list \<Rightarrow> 'b parsed) \<Rightarrow> 'b parsed" where
  "pbind p f = (case p of
     None \<Rightarrow> None | Some (Inl e) \<Rightarrow> Some (Inl e) | Some (Inr (x, ts)) \<Rightarrow> f x ts)"

definition expected_token :: "string \<Rightarrow> tok list \<Rightarrow> string" where
  "expected_token what ts = (case ts of
     [] \<Rightarrow> ''expected '' @ what @ '', got end of input''
   | t # _ \<Rightarrow> ''expected '' @ what @ '', got '' @ [CHR 0x27] @ tok_str t @ [CHR 0x27])"

definition quoted :: "string \<Rightarrow> string" where
  "quoted s = [CHR 0x27] @ s @ [CHR 0x27]"

definition expect_fident :: "tok list \<Rightarrow> string parsed" where
  "expect_fident ts = (case ts of
     TokFIdent s # rest \<Rightarrow> Some (Inr (s, rest)) | _ \<Rightarrow> Some (Inl (expected_token ''identifier'' ts)))"

definition expect_tok :: "tok \<Rightarrow> tok list \<Rightarrow> unit parsed" where
  "expect_tok t ts = (case ts of
     u # rest \<Rightarrow> if u = t then Some (Inr ((), rest)) else Some (Inl (expected_token (quoted (tok_str t)) ts))
   | [] \<Rightarrow> Some (Inl (expected_token (quoted (tok_str t)) ts)))"

fun binding_power :: "tok \<Rightarrow> (nat \<times> op) option" where
  "binding_power TokStar = Some (10, Mult)"
| "binding_power TokSlash = Some (10, Div)"
| "binding_power TokPlus = Some (9, Plus)"
| "binding_power TokMinus = Some (9, Minus)"
| "binding_power TokEqEq = Some (8, Eeq)"
| "binding_power TokGt = Some (8, Gt)"
| "binding_power TokGe = Some (8, Ge)"
| "binding_power TokLt = Some (8, Lt)"
| "binding_power TokLe = Some (8, Le)"
| "binding_power TokAnd = Some (8, LAnd)"
| "binding_power TokOr = Some (8, LOr)"
| "binding_power _ = None"

text \<open>\<open>parse_loop\<close> is the loop of \<open>parse_expr\<close> with the expression read so far.\<close>

fun parse_expr :: "nat \<Rightarrow> nat \<Rightarrow> tok list \<Rightarrow> expr parsed"
  and parse_loop :: "nat \<Rightarrow> nat \<Rightarrow> expr \<Rightarrow> tok list \<Rightarrow> expr parsed"
  and parse_prefix :: "nat \<Rightarrow> tok list \<Rightarrow> expr parsed"
  and parse_atom :: "nat \<Rightarrow> tok list \<Rightarrow> expr parsed" where
  "parse_expr 0 min_bp ts = None"
| "parse_expr (Suc k) min_bp ts = pbind (parse_prefix k ts) (parse_loop k min_bp)"
| "parse_loop 0 min_bp lhs ts = None"
| "parse_loop (Suc k) min_bp lhs [] = Some (Inr (lhs, []))"
| "parse_loop (Suc k) min_bp lhs (t # ts) =
     (case binding_power t of
        None \<Rightarrow> Some (Inr (lhs, t # ts))
      | Some (bp, op) \<Rightarrow>
          if bp \<le> min_bp then Some (Inr (lhs, t # ts))
          else pbind (parse_expr k bp ts) (\<lambda>rhs. parse_loop k min_bp (Binop lhs op rhs)))"
| "parse_prefix 0 ts = None"
| "parse_prefix (Suc k) ts =
     (case ts of
        TokNot # rest \<Rightarrow> pbind (parse_expr k 7 rest) (\<lambda>rhs ts. Some (Inr (Unop rhs, ts)))
      | _ \<Rightarrow> parse_atom k ts)"
| "parse_atom 0 ts = None"
| "parse_atom (Suc k) ts =
     (case ts of
        TokNum s # rest \<Rightarrow> Some (Inr (Const s, rest))
      | TokIdent s # rest \<Rightarrow> Some (Inr (Ident s, rest))
      | TokFIdent s # rest \<Rightarrow> Some (Inr (Ident s, rest))
      | TokLParen # rest \<Rightarrow> pbind (parse_expr k 0 rest) (\<lambda>e ts.
          pbind (expect_tok TokRParen ts) (\<lambda>_ ts. Some (Inr (e, ts))))
      | t # rest \<Rightarrow> Some (Inl (''expected expression atom, got '' @ quoted (tok_str t)))
      | [] \<Rightarrow> Some (Inl ''unexpected end of input in expression''))"

text \<open>Fuel that is always enough.\<close>

definition parse_fuel :: "tok list \<Rightarrow> nat" where
  "parse_fuel ts = 3 * length ts + 3"

definition parse_stmt :: "tok list \<Rightarrow> statement parsed" where
  "parse_stmt ts =
     pbind (expect_fident ts) (\<lambda>f ts.
     pbind (expect_tok TokArrow ts) (\<lambda>_ ts.
     pbind (parse_expr (parse_fuel ts) 0 ts) (\<lambda>e ts.
       Some (Inr (\<lparr>stmt_func = f, stmt_exp = e\<rparr>, ts)))))"

definition parse_assertion :: "tok list \<Rightarrow> assertion parsed" where
  "parse_assertion ts =
     pbind (expect_fident ts) (\<lambda>name ts.
     pbind (expect_tok TokNamed ts) (\<lambda>_ ts.
     pbind (parse_stmt ts) (\<lambda>stmt ts.
       case ts of
         t # _ \<Rightarrow> Some (Inl (''unexpected token '' @ quoted (tok_str t) @ '' after expression''))
       | [] \<Rightarrow> Some (Inr (\<lparr>assertion_stmt = stmt, assertion_name = name\<rparr>, [])))))"

definition parse_line :: "string \<Rightarrow> (string + assertion) option" where
  "parse_line line = (case lex line of
     Inl e \<Rightarrow> Some (Inl e)
   | Inr tokens \<Rightarrow> map_option (\<lambda>r. case r of Inl e \<Rightarrow> Inl e | Inr (a, _) \<Rightarrow> Inr a) (parse_assertion tokens))"

definition parse_cmd_line :: "string \<Rightarrow> (prog_error + assertion) option" where
  "parse_cmd_line s = map_option (\<lambda>r. case r of
       Inl e \<Rightarrow> Inl (ParseError (s @ '': '' @ e)) | Inr a \<Rightarrow> Inr a) (parse_line (''cmdline :: '' @ s))"

text \<open>\<open>parse_file\<close> on the lines of the file, when each could be read.\<close>

fun parse_lines :: "string list \<Rightarrow> (nat \<times> assertion list) option" where
  "parse_lines [] = Some (0, [])"
| "parse_lines (line # lines) =
     (if trim line = [] then parse_lines lines
      else case parse_line (trim line) of
        None \<Rightarrow> None
      | Some r \<Rightarrow> map_option (\<lambda>(err_cnt, results). case r of
            Inr a \<Rightarrow> (err_cnt, a # results) | Inl _ \<Rightarrow> (err_cnt + 1, results)) (parse_lines lines))"

definition parse_file :: "string \<Rightarrow> string list \<Rightarrow> (prog_error + assertion list) option" where
  "parse_file f lines = map_option (\<lambda>(err_cnt, results).
     if err_cnt > 0 then Inl (ParseError f) else Inr results) (parse_lines lines)"

end
