(* ===== verification/Translation.thy ===== *)
theory Translation
  imports Assertions
begin

text \<open>
  The translation of assertions into formulas (\<open>src/frontend/assertions/translation.rs\<close>).  It can
  panic: reading a decimal literal multiplies 64-bit integers and builds a rational; \<open>oc\<close> says
  whether overflow is checked.  A set of sorts is a set.
\<close>

type_synonym sort_seeds = "(string, sort) btree"

record translated_statement =
  translated_func :: string
  predicate :: formula

record translated_assertion =
  translated_name :: string
  translated_stmt :: translated_statement

datatype translation_error =
    NonBooleanAtom string
  | UnsupportedOperator op
  | ExpectedArithmeticExpr
  | UnsupportedBooleanTerm
  | NoSharedNumericSort
  | AmbiguousNumericSort
  | SeedConflict string sort sort
  | MixedNumericContext sort sort
  | InvalidIntegerLiteral string
  | InvalidRealLiteral string

text \<open>Fallible computations that can panic.\<close>

type_synonym 'a translated = "(translation_error + 'a) outcome"

definition tbind :: "'a translated \<Rightarrow> ('a \<Rightarrow> 'b translated) \<Rightarrow> 'b translated" where
  "tbind m f = obind m (\<lambda>r. case r of Inl e \<Rightarrow> Returns (Inl e) | Inr x \<Rightarrow> f x)"

abbreviation tret :: "'a \<Rightarrow> 'a translated" where "tret x \<equiv> Returns (Inr x)"

abbreviation tfail :: "translation_error \<Rightarrow> 'a translated" where "tfail e \<equiv> Returns (Inl e)"

section \<open>Debug rendering\<close>

text \<open>\<open>{:?}\<close> of an expression, of its ASCII strings, and of an operator.\<close>

fun debug_char :: "char \<Rightarrow> string" where
  "debug_char c =
     (if c = CHR 0x22 then [CHR 0x5C, CHR 0x22]
      else if c = CHR 0x5C then [CHR 0x5C, CHR 0x5C]
      else if c = CHR 0x09 then [CHR 0x5C, CHR ''t'']
      else if c = CHR 0x0A then [CHR 0x5C, CHR ''n'']
      else if c = CHR 0x0D then [CHR 0x5C, CHR ''r'']
      else if c = CHR 0x00 then [CHR 0x5C, CHR ''0'']
      else [c])"

definition debug_str :: "string \<Rightarrow> string" where
  "debug_str s = [CHR 0x22] @ concat (map debug_char s) @ [CHR 0x22]"

fun debug_op :: "op \<Rightarrow> string" where
  "debug_op Plus = ''Plus''"
| "debug_op Minus = ''Minus''"
| "debug_op Div = ''Div''"
| "debug_op Mult = ''Mult''"
| "debug_op LAnd = ''LAnd''"
| "debug_op LOr = ''LOr''"
| "debug_op LNot = ''LNot''"
| "debug_op Gt = ''Gt''"
| "debug_op Ge = ''Ge''"
| "debug_op Lt = ''Lt''"
| "debug_op Le = ''Le''"
| "debug_op Eeq = ''Eeq''"
| "debug_op Arrow = ''Arrow''"
| "debug_op Named = ''Named''"

fun debug_expr :: "expr \<Rightarrow> string" where
  "debug_expr (Ident s) = ''Ident('' @ debug_str s @ '')''"
| "debug_expr (Const s) = ''Const('' @ debug_str s @ '')''"
| "debug_expr (Binop l op r) =
     ''Binop('' @ debug_expr l @ '', '' @ debug_op op @ '', '' @ debug_expr r @ '')''"
| "debug_expr (Unop e) = ''Unop('' @ debug_expr e @ '')''"

section \<open>Literals\<close>

text \<open>\<open>str::parse::<i64>\<close>: an optional sign, at least one digit, and a value in range.\<close>

definition digits_value :: "string \<Rightarrow> int" where
  "digits_value ds = foldl (\<lambda>n d. 10 * n + (int (of_char d) - 48)) 0 ds"

definition parse_i64 :: "string \<Rightarrow> i64 option" where
  "parse_i64 s =
     (let (sign, ds) = (case s of
          c # cs \<Rightarrow> if c = CHR ''-'' then (-1, cs) else if c = CHR ''+'' then (1, cs) else (1, s)
        | [] \<Rightarrow> (1, []));
          n = sign * digits_value ds in
      if ds = [] \<or> \<not> list_all is_digit ds \<or> \<not> in_i64 n then None else Some (word_of_int n))"

text \<open>\<open>i64::pow\<close> of 10.\<close>

definition i64_pow10 :: "bool \<Rightarrow> nat \<Rightarrow> i64 outcome" where
  "i64_pow10 oc n = i64_result oc (10 ^ n)"

definition parse_real_literal :: "bool \<Rightarrow> string \<Rightarrow> rational translated" where
  "parse_real_literal oc val =
     (case split_once (CHR ''.'') val of
        Some (whole, fraction) \<Rightarrow>
          (case parse_i64 whole of
             None \<Rightarrow> tfail (InvalidRealLiteral val)
           | Some whole \<Rightarrow>
               (case parse_i64 fraction of
                  None \<Rightarrow> tfail (InvalidRealLiteral val)
                | Some frac_value \<Rightarrow>
                    obind (i64_pow10 oc (length fraction)) (\<lambda>denom.
                      let sign = (if sint whole < 0 then -1 else 1 :: i64) in
                      obind (i64_abs oc whole) (\<lambda>whole_abs.
                      obind (i64_mul oc whole_abs denom) (\<lambda>scaled.
                      obind (i64_add oc scaled frac_value) (\<lambda>magnitude.
                      obind (i64_mul oc sign magnitude) (\<lambda>num.
                      obind (rational_new oc num denom) (\<lambda>q. tret q))))))))
      | None \<Rightarrow>
          (case parse_i64 val of
             None \<Rightarrow> tfail (InvalidRealLiteral val)
           | Some n \<Rightarrow> obind (rational_integer oc n) (\<lambda>q. tret q)))"

definition lower_literal :: "bool \<Rightarrow> string \<Rightarrow> sort \<Rightarrow> fterm translated" where
  "lower_literal oc val expected = (case expected of
     SInt \<Rightarrow> (case parse_i64 val of
       None \<Rightarrow> tfail (InvalidIntegerLiteral val) | Some n \<Rightarrow> tret (TInt n))
   | SReal \<Rightarrow> tbind (parse_real_literal oc val) (\<lambda>q. tret (TReal q))
   | SBool \<Rightarrow> tfail UnsupportedBooleanTerm)"

section \<open>Sort inference\<close>

definition is_arithmetic :: "op \<Rightarrow> bool" where
  "is_arithmetic op \<longleftrightarrow> op \<in> {Plus, Minus, Mult, Div}"

fun contains_arithmetic :: "expr \<Rightarrow> bool" where
  "contains_arithmetic (Binop l op r) =
     (is_arithmetic op \<or> contains_arithmetic l \<or> contains_arithmetic r)"
| "contains_arithmetic (Unop e) = contains_arithmetic e"
| "contains_arithmetic _ = False"

definition nonempty_sorts :: "sort set \<Rightarrow> translation_error + sort set" where
  "nonempty_sorts sorts = (if sorts = {} then Inl ExpectedArithmeticExpr else Inr sorts)"

fun candidate_numeric_sorts :: "sort_seeds \<Rightarrow> expr \<Rightarrow> translation_error + sort set" where
  "candidate_numeric_sorts seeds (Ident name) = nonempty_sorts (case bt_get seeds name of
      Some SBool \<Rightarrow> {} | Some s \<Rightarrow> {s} | None \<Rightarrow> {SInt, SReal})"
| "candidate_numeric_sorts seeds (Const val) = nonempty_sorts (if CHR ''.'' \<in> set val then {SReal} else {SInt, SReal})"
| "candidate_numeric_sorts seeds (Unop e) = rbind (candidate_numeric_sorts seeds e) nonempty_sorts"
| "candidate_numeric_sorts seeds (Binop l op r) =
     (if is_arithmetic op then
        rbind (candidate_numeric_sorts seeds l) (\<lambda>ls. rbind (candidate_numeric_sorts seeds r) (\<lambda>rs.
          nonempty_sorts (ls \<inter> rs)))
      else nonempty_sorts {})"

definition infer_numeric_sort :: "sort_seeds \<Rightarrow> expr \<Rightarrow> expr \<Rightarrow> translation_error + sort" where
  "infer_numeric_sort seeds l r =
     rbind (candidate_numeric_sorts seeds l) (\<lambda>ls. rbind (candidate_numeric_sorts seeds r) (\<lambda>rs.
       let shared = ls \<inter> rs in
       if shared = {} then Inl NoSharedNumericSort
       else if card shared > 1 then
         (if SInt \<in> shared \<and> SReal \<in> shared \<and> (contains_arithmetic l \<or> contains_arithmetic r)
          then Inr SInt else Inl AmbiguousNumericSort)
       else Inr (if SBool \<in> shared then SBool else if SInt \<in> shared then SInt else SReal)))"

section \<open>Lowering\<close>

fun lower_expr_term :: "bool \<Rightarrow> sort_seeds \<Rightarrow> sort \<Rightarrow> expr \<Rightarrow> fterm translated" where
  "lower_expr_term oc seeds expected (Ident name) =
     (if expected = SBool then tfail UnsupportedBooleanTerm
      else case bt_get seeds name of
        Some seed \<Rightarrow> if seed \<noteq> expected then tfail (SeedConflict name expected seed)
          else tret (TVar (var_new name expected))
      | None \<Rightarrow> tret (TVar (var_new name expected)))"
| "lower_expr_term oc seeds expected (Const val) =
     (if expected = SBool then tfail UnsupportedBooleanTerm else lower_literal oc val expected)"
| "lower_expr_term oc seeds expected (Unop e) =
     (if expected = SBool then tfail UnsupportedBooleanTerm
      else tbind (lower_expr_term oc seeds expected e) (\<lambda>t. tret (TNeg t)))"
| "lower_expr_term oc seeds expected (Binop l op r) =
     (if expected = SBool then tfail UnsupportedBooleanTerm
      else tbind (lower_expr_term oc seeds expected l) (\<lambda>l. tbind (lower_expr_term oc seeds expected r) (\<lambda>r.
        case op of
          Plus \<Rightarrow> tret (TAdd l r) | Minus \<Rightarrow> tret (TSub l r) | Mult \<Rightarrow> tret (TMul l r)
        | Div \<Rightarrow> tret (TDiv l r) | _ \<Rightarrow> tfail ExpectedArithmeticExpr)))"

definition lower_comparison ::
  "bool \<Rightarrow> sort_seeds \<Rightarrow> expr \<Rightarrow> expr \<Rightarrow> (fterm \<Rightarrow> fterm \<Rightarrow> formula) \<Rightarrow> formula translated" where
  "lower_comparison oc seeds l r build =
     tbind (Returns (infer_numeric_sort seeds l r)) (\<lambda>s.
     tbind (lower_expr_term oc seeds s l) (\<lambda>l.
     tbind (lower_expr_term oc seeds s r) (\<lambda>r. tret (build l r))))"

fun lower_expr_formula :: "bool \<Rightarrow> sort_seeds \<Rightarrow> expr \<Rightarrow> formula translated" where
  "lower_expr_formula oc seeds (Ident name) =
     (let s = (case bt_get seeds name of None \<Rightarrow> SBool | Some s \<Rightarrow> s) in
      if s \<noteq> SBool then tfail (NonBooleanAtom name) else tret (f_bool_var name))"
| "lower_expr_formula oc seeds (Const val) =
     (if val = ''true'' then tret FTrue else if val = ''false'' then tret FFalse
      else tfail (NonBooleanAtom val))"
| "lower_expr_formula oc seeds (Unop e) = tbind (lower_expr_formula oc seeds e) (\<lambda>f. tret (f_not f))"
| "lower_expr_formula oc seeds (Binop l op r) =
     (case op of
        LAnd \<Rightarrow> tbind (lower_expr_formula oc seeds l) (\<lambda>f. tbind (lower_expr_formula oc seeds r) (\<lambda>g. tret (f_and f g)))
      | LOr \<Rightarrow> tbind (lower_expr_formula oc seeds l) (\<lambda>f. tbind (lower_expr_formula oc seeds r) (\<lambda>g. tret (f_or f g)))
      | Eeq \<Rightarrow> lower_comparison oc seeds l r FEq
      | Gt \<Rightarrow> lower_comparison oc seeds l r FGt
      | Ge \<Rightarrow> lower_comparison oc seeds l r FGe
      | Lt \<Rightarrow> lower_comparison oc seeds l r FLt
      | Le \<Rightarrow> lower_comparison oc seeds l r FLe
      | LNot \<Rightarrow> tfail (UnsupportedOperator op)
      | Arrow \<Rightarrow> tfail (UnsupportedOperator op)
      | Named \<Rightarrow> tfail (UnsupportedOperator op)
      | _ \<Rightarrow> tfail (NonBooleanAtom (debug_expr l @ '' '' @ op_str op @ '' '' @ debug_expr r)))"

definition translate_expr :: "bool \<Rightarrow> sort_seeds \<Rightarrow> expr \<Rightarrow> formula translated" where
  "translate_expr oc seeds e = lower_expr_formula oc seeds e"

definition translate_statement :: "bool \<Rightarrow> sort_seeds \<Rightarrow> statement \<Rightarrow> translated_statement translated" where
  "translate_statement oc seeds s =
     tbind (translate_expr oc seeds (stmt_exp s)) (\<lambda>f. tret \<lparr>translated_func = stmt_func s, predicate = f\<rparr>)"

definition translate_assertion :: "bool \<Rightarrow> sort_seeds \<Rightarrow> assertion \<Rightarrow> translated_assertion translated" where
  "translate_assertion oc seeds a =
     tbind (translate_statement oc seeds (assertion_stmt a)) (\<lambda>s.
       tret \<lparr>translated_name = assertion_name a, translated_stmt = s\<rparr>)"

end
