(* ===== verification/Assertions_Correct.thy ===== *)
theory Assertions_Correct
  imports Translation Formula_Sem
begin

text \<open>
  The assertion language: the parser always answers, it reads back what a precedence-aware printer
  writes with the token rendering of the source, and a translated assertion is well-sorted and
  respects the seeds.
\<close>

section \<open>Fuel\<close>

lemma pbind_Some_Inr: "pbind p f = Some (Inr (y, us)) \<longleftrightarrow>
    (\<exists>x ts. p = Some (Inr (x, ts)) \<and> f x ts = Some (Inr (y, us)))"
  by (auto simp: pbind_def split: option.splits sum.splits)

text \<open>\<open>answers_within n p\<close>: \<open>p\<close> answers, and leaves at most \<open>n\<close> tokens.\<close>

definition answers_within :: "nat \<Rightarrow> 'a parsed \<Rightarrow> bool" where
  "answers_within n p \<longleftrightarrow> p \<noteq> None \<and> (\<forall>x ts. p = Some (Inr (x, ts)) \<longrightarrow> length ts \<le> n)"

lemma answers_within_bind:
  "answers_within n p \<Longrightarrow> (\<And>x ts. length ts \<le> n \<Longrightarrow> answers_within m (f x ts)) \<Longrightarrow> answers_within m (pbind p f)"
  by (auto simp: answers_within_def pbind_def split: option.splits sum.splits)

lemma answers_within_simps [simp]:
  "answers_within n (Some (Inl e))" "answers_within n (Some (Inr (x, ts))) \<longleftrightarrow> length ts \<le> n"
  by (simp_all add: answers_within_def)

lemma answers_within_mono: "answers_within n p \<Longrightarrow> n \<le> m \<Longrightarrow> answers_within m p"
  by (auto simp: answers_within_def)

lemma expect_answers: "answers_within (length ts - 1) (expect_tok t ts)" "answers_within (length ts - 1) (expect_fident ts)"
  by (auto simp: expect_tok_def expect_fident_def split: list.split tok.split)

lemma parse_prefix_Suc:
  "parse_prefix (Suc k) ts = (case ts of
     t # rest \<Rightarrow> if t = TokNot then pbind (parse_expr k 7 rest) (\<lambda>rhs ts. Some (Inr (Unop rhs, ts)))
       else parse_atom k ts
   | [] \<Rightarrow> parse_atom k ts)"
  by (simp split: list.split tok.split)

lemma parse_atom_Suc:
  "parse_atom (Suc k) ts = (case ts of
     t # rest \<Rightarrow> if t = TokLParen then pbind (parse_expr k 0 rest) (\<lambda>e ts.
         pbind (expect_tok TokRParen ts) (\<lambda>_ ts. Some (Inr (e, ts))))
       else parse_atom 1 ts
   | [] \<Rightarrow> parse_atom 1 ts)"
  by (simp split: list.split tok.split)

lemma atom_leaf: "ts = [] \<or> hd ts \<noteq> TokLParen \<Longrightarrow> answers_within (length ts - 1) (parse_atom 1 ts)"
  by (auto split: list.split tok.split)

declare parse_prefix.simps(2) [simp del] parse_atom.simps(2) [simp del]

lemma parser_answers:
  "(3 * length ts + 3 \<le> k \<longrightarrow> answers_within (length ts - 1) (parse_expr k min_bp ts)) \<and>
   (3 * length ts + 1 \<le> k \<longrightarrow> answers_within (length ts) (parse_loop k min_bp lhs ts)) \<and>
   (3 * length ts + 2 \<le> k \<longrightarrow> answers_within (length ts - 1) (parse_prefix k ts)) \<and>
   (3 * length ts + 1 \<le> k \<longrightarrow> answers_within (length ts - 1) (parse_atom k ts))"
proof (induction k arbitrary: min_bp lhs ts)
  case (Suc k)
  have expr: "3 * length us + 3 \<le> k \<Longrightarrow> answers_within (length us - 1) (parse_expr k m us)"
    and loop: "3 * length us + 1 \<le> k \<Longrightarrow> answers_within (length us) (parse_loop k m l us)"
    and pre: "3 * length us + 2 \<le> k \<Longrightarrow> answers_within (length us - 1) (parse_prefix k us)"
    and atom: "3 * length us + 1 \<le> k \<Longrightarrow> answers_within (length us - 1) (parse_atom k us)" for m l us
    using Suc by blast+
  have "answers_within (length ts - 1) (parse_expr (Suc k) min_bp ts)" if "3 * length ts + 3 \<le> Suc k"
    using that by (auto intro!: answers_within_bind [OF pre] answers_within_mono [OF loop])
  moreover have "answers_within (length ts) (parse_loop (Suc k) min_bp lhs ts)" if "3 * length ts + 1 \<le> Suc k"
    using that by (cases ts) (auto intro!: answers_within_bind [OF expr] answers_within_mono [OF loop] split: option.split)
  moreover have "answers_within (length ts - 1) (parse_prefix (Suc k) ts)" if "3 * length ts + 2 \<le> Suc k"
  proof (cases "ts \<noteq> [] \<and> hd ts = TokNot")
    case True
    then obtain rest where "ts = TokNot # rest" by (cases ts) auto
    with that show ?thesis by (auto simp: parse_prefix_Suc intro!: answers_within_bind [OF expr])
  next
    case False
    with that atom [of ts] show ?thesis by (cases ts) (auto simp: parse_prefix_Suc)
  qed
  moreover have "answers_within (length ts - 1) (parse_atom (Suc k) ts)" if "3 * length ts + 1 \<le> Suc k"
  proof (cases "ts \<noteq> [] \<and> hd ts = TokLParen")
    case True
    then obtain rest where "ts = TokLParen # rest" by (cases ts) auto
    with that show ?thesis
      by (auto simp: parse_atom_Suc intro!: answers_within_bind [OF expr] answers_within_bind [OF expect_answers(1)])
  next
    case False
    then have "parse_atom (Suc k) ts = parse_atom 1 ts"
      unfolding parse_atom_Suc [of k] by (cases ts) auto
    with False show ?thesis using atom_leaf [of ts] by (metis)
  qed
  ultimately show ?case by blast
qed simp

text \<open>More fuel keeps an answer.\<close>

definition below :: "'a option \<Rightarrow> 'a option \<Rightarrow> bool" where
  "below p q \<longleftrightarrow> p = None \<or> p = q"

lemma below_refl [simp]: "below p p" by (simp add: below_def)

lemma below_None [simp]: "below None p" by (simp add: below_def)

lemma below_bind: "below p q \<Longrightarrow> (\<And>x ts. below (f x ts) (g x ts)) \<Longrightarrow> below (pbind p f) (pbind q g)"
  by (auto simp: below_def pbind_def split: option.splits sum.splits)

lemma parse_more_fuel:
  "below (parse_expr k m ts) (parse_expr (Suc k) m ts) \<and> below (parse_loop k m l ts) (parse_loop (Suc k) m l ts) \<and>
   below (parse_prefix k ts) (parse_prefix (Suc k) ts) \<and> below (parse_atom k ts) (parse_atom (Suc k) ts)"
proof (induction k arbitrary: m l ts)
  case (Suc k)
  have IH: "below (parse_expr k m ts) (parse_expr (Suc k) m ts)" "below (parse_loop k m l ts) (parse_loop (Suc k) m l ts)"
    "below (parse_prefix k ts) (parse_prefix (Suc k) ts)" "below (parse_atom k ts) (parse_atom (Suc k) ts)" for m l ts
    using Suc by blast+
  have "below (parse_expr (Suc k) m ts) (parse_expr (Suc (Suc k)) m ts)"
    unfolding parse_expr.simps(2) by (intro below_bind IH)
  moreover have "below (parse_loop (Suc k) m l ts) (parse_loop (Suc (Suc k)) m l ts)"
  proof (cases ts)
    case (Cons t us)
    then show ?thesis
      using below_bind [OF IH(1) IH(2)] by (auto simp del: parse_expr.simps(2) simp: parse_loop.simps(3) split: option.split)
  qed simp
  moreover have "below (parse_prefix (Suc k) ts) (parse_prefix (Suc (Suc k)) ts)"
    unfolding parse_prefix_Suc [of k] parse_prefix_Suc [of "Suc k"]
    by (auto intro!: below_bind IH simp del: parse_expr.simps(2) split: list.split)
  moreover have "below (parse_atom (Suc k) ts) (parse_atom (Suc (Suc k)) ts)"
    unfolding parse_atom_Suc [of k] parse_atom_Suc [of "Suc k"]
    by (auto intro!: below_bind IH simp del: parse_expr.simps(2) split: list.split)
  ultimately show ?case by blast
qed simp

section \<open>What the parser reads\<close>

definition parses :: "nat \<Rightarrow> tok list \<Rightarrow> expr \<Rightarrow> tok list \<Rightarrow> bool" where
  "parses m ts e us \<longleftrightarrow> (\<exists>k. parse_expr k m ts = Some (Inr (e, us)))"

definition continues :: "nat \<Rightarrow> expr \<Rightarrow> tok list \<Rightarrow> expr \<Rightarrow> tok list \<Rightarrow> bool" where
  "continues m l ts e us \<longleftrightarrow> (\<exists>k. parse_loop k m l ts = Some (Inr (e, us)))"

definition prefixes :: "tok list \<Rightarrow> expr \<Rightarrow> tok list \<Rightarrow> bool" where
  "prefixes ts e us \<longleftrightarrow> (\<exists>k. parse_prefix k ts = Some (Inr (e, us)))"

lemma fuel_le:
  assumes "k \<le> n"
  shows "parse_expr k m ts = Some r \<Longrightarrow> parse_expr n m ts = Some r"
    and "parse_loop k m l ts = Some r \<Longrightarrow> parse_loop n m l ts = Some r"
    and "parse_prefix k ts = Some r \<Longrightarrow> parse_prefix n ts = Some r"
  using assms
proof (induction n rule: dec_induct)
  case (step n)
  { case 1 then show ?case using step parse_more_fuel [of n m ts l] by (auto simp: below_def simp del: parse_expr.simps) }
  { case 2 then show ?case using step parse_more_fuel [of n m ts l] by (auto simp: below_def simp del: parse_loop.simps) }
  { case 3 then show ?case using step parse_more_fuel [of n m ts l] by (auto simp: below_def) }
qed simp_all

lemma parses_intro: "prefixes ts l us \<Longrightarrow> continues m l us e vs \<Longrightarrow> parses m ts e vs"
proof -
  assume "prefixes ts l us" "continues m l us e vs"
  then obtain i j where "parse_prefix i ts = Some (Inr (l, us))" "parse_loop j m l us = Some (Inr (e, vs))"
    unfolding prefixes_def continues_def by blast
  then have "parse_prefix (max i j) ts = Some (Inr (l, us))" "parse_loop (max i j) m l us = Some (Inr (e, vs))"
    using fuel_le(2,3) by (meson max.cobounded1 max.cobounded2)+
  then have "parse_expr (Suc (max i j)) m ts = Some (Inr (e, vs))" by (simp add: pbind_def)
  then show ?thesis unfolding parses_def by blast
qed

lemma continues_step:
  assumes "binding_power t = Some (bp, op)" "m < bp" "parses bp ts r us" "continues m (Binop l op r) us e vs"
  shows "continues m l (t # ts) e vs"
proof -
  obtain i j where "parse_expr i bp ts = Some (Inr (r, us))" "parse_loop j m (Binop l op r) us = Some (Inr (e, vs))"
    using assms(3,4) unfolding parses_def continues_def by blast
  then have "parse_expr (max i j) bp ts = Some (Inr (r, us))"
    "parse_loop (max i j) m (Binop l op r) us = Some (Inr (e, vs))"
    using fuel_le(1,2) by (meson max.cobounded1 max.cobounded2)+
  then have "parse_loop (Suc (max i j)) m l (t # ts) = Some (Inr (e, vs))"
    using assms(1,2) by (simp add: pbind_def)
  then show ?thesis unfolding continues_def by blast
qed

text \<open>The binding power of the next token, 0 when it is no operator.\<close>

definition next_power :: "tok list \<Rightarrow> nat" where
  "next_power ts = (case ts of [] \<Rightarrow> 0 | t # _ \<Rightarrow> (case binding_power t of None \<Rightarrow> 0 | Some (bp, _) \<Rightarrow> bp))"

lemma binding_power_pos: "binding_power t = Some (bp, op) \<Longrightarrow> 0 < bp"
  by (cases t) auto

lemma continues_stop:
  assumes "next_power ts \<le> m"
  shows "continues m l ts l ts"
proof -
  have "parse_loop 1 m l ts = Some (Inr (l, ts))"
    using assms by (cases ts) (auto simp: next_power_def split: option.splits prod.splits)
  then show ?thesis unfolding continues_def by blast
qed

lemma prefixes_leaf:
  "prefixes (TokNum s # ts) (Const s) ts" "prefixes (TokIdent s # ts) (Ident s) ts"
  "prefixes (TokFIdent s # ts) (Ident s) ts"
  unfolding prefixes_def by (rule exI [of _ 2], simp add: numeral_2_eq_2 parse_prefix.simps(2) parse_atom.simps(2))+

lemma prefixes_paren:
  assumes "parses 0 ts e (TokRParen # us)"
  shows "prefixes (TokLParen # ts) e us"
proof -
  obtain k where "parse_expr k 0 ts = Some (Inr (e, TokRParen # us))" using assms unfolding parses_def by blast
  then have "parse_prefix (Suc (Suc k)) (TokLParen # ts) = Some (Inr (e, us))"
    by (simp add: parse_prefix.simps(2) parse_atom.simps(2) pbind_def expect_tok_def)
  then show ?thesis unfolding prefixes_def by blast
qed

lemma prefixes_not:
  assumes "parses 7 ts e us"
  shows "prefixes (TokNot # ts) (Unop e) us"
proof -
  obtain k where "parse_expr k 7 ts = Some (Inr (e, us))" using assms unfolding parses_def by blast
  then have "parse_prefix (Suc k) (TokNot # ts) = Some (Inr (Unop e, us))"
    by (simp add: parse_prefix.simps(2) pbind_def)
  then show ?thesis unfolding prefixes_def by blast
qed

section \<open>A printer\<close>

text \<open>
  The printer puts parentheses around every negation, and around an operation that does not bind
  tighter than \<open>m\<close>.
\<close>

fun op_tok :: "op \<Rightarrow> tok option" where
  "op_tok Mult = Some TokStar"
| "op_tok Div = Some TokSlash"
| "op_tok Plus = Some TokPlus"
| "op_tok Minus = Some TokMinus"
| "op_tok Eeq = Some TokEqEq"
| "op_tok Gt = Some TokGt"
| "op_tok Ge = Some TokGe"
| "op_tok Lt = Some TokLt"
| "op_tok Le = Some TokLe"
| "op_tok LAnd = Some TokAnd"
| "op_tok LOr = Some TokOr"
| "op_tok _ = None"

fun op_power :: "op \<Rightarrow> nat" where
  "op_power Mult = 10"
| "op_power Div = 10"
| "op_power Plus = 9"
| "op_power Minus = 9"
| "op_power _ = 8"

lemma op_tok_power: "op_tok op = Some t \<Longrightarrow> binding_power t = Some (op_power op, op)"
  by (cases op) auto

definition in_parens :: "bool \<Rightarrow> tok list \<Rightarrow> tok list" where
  "in_parens b ts = (if b then TokLParen # ts @ [TokRParen] else ts)"

fun print_expr :: "nat \<Rightarrow> expr \<Rightarrow> tok list" where
  "print_expr m (Ident s) = [if s \<noteq> [] \<and> hd s = CHR ''%'' then TokIdent s else TokFIdent s]"
| "print_expr m (Const s) = [TokNum s]"
| "print_expr m (Unop e) = in_parens True (TokNot # print_expr 7 e)"
| "print_expr m (Binop l op r) = in_parens (op_power op \<le> m)
     (print_expr (op_power op - 1) l @ the (op_tok op) # print_expr (op_power op) r)"

text \<open>The operators are the ones the grammar has.\<close>

fun grammatical :: "expr \<Rightarrow> bool" where
  "grammatical (Binop l op r) = (op_tok op \<noteq> None \<and> grammatical l \<and> grammatical r)"
| "grammatical (Unop e) = grammatical e"
| "grammatical _ = True"

lemma next_power_paren [simp]: "next_power (TokRParen # ts) = 0" "next_power [] = 0"
  by (simp_all add: next_power_def)

lemma op_power_pos: "0 < op_power op"
  by (cases op) auto

lemma parse_printed:
  assumes "grammatical e" "next_power ts \<le> Suc n" "m \<le> n" "continues m e ts x us"
  shows "parses m (print_expr n e @ ts) x us"
  using assms
proof (induction e arbitrary: m n ts x us)
  case (Ident s)
  then show ?case using parses_intro [OF prefixes_leaf(2)] parses_intro [OF prefixes_leaf(3)] by auto
next
  case (Const s)
  then show ?case using parses_intro [OF prefixes_leaf(1)] by auto
next
  case (Unop e)
  have "parses 7 (print_expr 7 e @ TokRParen # ts) e (TokRParen # ts)"
    using Unop.prems(1) by (intro Unop.IH continues_stop) auto
  from parses_intro [OF prefixes_not [OF this] continues_stop [of _ 0]]
  have "parses 0 ((TokNot # print_expr 7 e) @ TokRParen # ts) (Unop e) (TokRParen # ts)" by simp
  from parses_intro [OF prefixes_paren [OF this] Unop.prems(4)] show ?case by (simp add: in_parens_def)
next
  case (Binop l op r)
  obtain t where t: "op_tok op = Some t" "grammatical l" "grammatical r" using Binop.prems(1) by auto
  note power = op_tok_power [OF t(1)]
  let ?p = "op_power op"
  have plain: "parses m (print_expr (?p - 1) l @ t # print_expr ?p r @ ts) x us"
    if "m < ?p" "next_power ts \<le> ?p" "continues m (Binop l op r) ts x us" for m ts x us
  proof (rule Binop.IH(1) [OF t(2)])
    show "next_power (t # print_expr ?p r @ ts) \<le> Suc (?p - 1)" using power op_power_pos by (simp add: next_power_def)
    show "m \<le> ?p - 1" using that(1) by simp
    have "parses ?p (print_expr ?p r @ ts) r ts"
      using that(2) by (intro Binop.IH(2) [OF t(3)] continues_stop) simp_all
    then show "continues m l (t # print_expr ?p r @ ts) x us" using continues_step [OF power that(1) _ that(3)] by blast
  qed
  show ?case
  proof (cases "?p \<le> n")
    case True
    have "parses 0 ((print_expr (?p - 1) l @ t # print_expr ?p r) @ TokRParen # ts) (Binop l op r) (TokRParen # ts)"
      using plain [of 0 "TokRParen # ts"] op_power_pos continues_stop [of "TokRParen # ts" 0] by simp
    from parses_intro [OF prefixes_paren [OF this] Binop.prems(4)] show ?thesis
      using True t(1) by (simp add: in_parens_def)
  next
    case False
    then show ?thesis using plain [OF _ _ Binop.prems(4)] Binop.prems(2,3) t(1) by (simp add: in_parens_def)
  qed
qed

section \<open>Lexing what was rendered\<close>

text \<open>A token as the lexer can produce it, and a text of tokens separated by spaces.\<close>

fun lexical :: "tok \<Rightarrow> bool" where
  "lexical (TokNum s) = (case s of [] \<Rightarrow> False | c # cs \<Rightarrow> is_digit c \<and> numeral_rest cs = length cs)"
| "lexical (TokIdent s) = (case s of [] \<Rightarrow> False | c # cs \<Rightarrow> c = CHR ''%'' \<and> cs \<noteq> [] \<and> list_all is_ident_char cs)"
| "lexical (TokFIdent s) = (case s of [] \<Rightarrow> False
     | c # cs \<Rightarrow> (is_alphabetic c \<or> c = CHR ''_'') \<and> list_all is_ident_char cs)"
| "lexical _ = True"

definition text_of :: "tok list \<Rightarrow> string" where
  "text_of ts = concat (map (\<lambda>t. CHR '' '' # tok_str t) ts)"

definition separated :: "string \<Rightarrow> bool" where
  "separated rest \<longleftrightarrow> (case rest of [] \<Rightarrow> True | c # _ \<Rightarrow> c = CHR '' '')"

lemma separated_text: "separated (text_of ts)"
  by (cases ts) (simp_all add: separated_def text_of_def)

lemma separated_char:
  "separated rest \<Longrightarrow> takeWhile is_ident_char rest = []" "separated rest \<Longrightarrow> takeWhile is_digit rest = []"
  "separated rest \<Longrightarrow> d \<noteq> CHR '' '' \<Longrightarrow> \<not> next_is d rest"
  by (cases rest; simp add: separated_def is_ident_char_def is_digit_def is_alphabetic_def next_is_def)+

lemma takeWhile_separated:
  "list_all is_ident_char cs \<Longrightarrow> separated rest \<Longrightarrow> takeWhile is_ident_char (cs @ rest) = cs"
  using separated_char(1) by (induction cs) auto

lemma numeral_rest_separated:
  assumes "numeral_rest cs = length cs" "separated rest"
  shows "numeral_rest (cs @ rest) = length cs"
proof (cases "list_all is_digit cs")
  case True
  then have "takeWhile is_digit (cs @ rest) = cs" using separated_char(2) [OF assms(2)] by (induction cs) auto
  then show ?thesis using assms(2)
    by (auto simp: numeral_rest_def separated_def Let_def split: list.split)
next
  case False
  let ?d = "length (takeWhile is_digit cs)"
  have "\<not> (\<forall>c \<in> set cs. is_digit c)" using False by (simp add: list_all_iff)
  then have tw: "takeWhile is_digit (cs @ rest) = takeWhile is_digit cs" and "takeWhile is_digit cs \<noteq> cs"
    by (auto simp: takeWhile_append takeWhile_eq_all_conv)
  then have "?d \<noteq> length cs" by (metis takeWhile_eq_take take_all_iff order_refl)
  then have d: "?d < length cs" using length_takeWhile_le [of is_digit cs] by linarith
  from assms(1) d obtain e tail where tail: "drop ?d cs = CHR ''.'' # e # tail" "is_digit e"
    "?d + 1 + length (takeWhile is_digit (e # tail)) = length cs"
    by (auto simp: numeral_rest_def Let_def split: list.splits if_splits)
  have "length (e # tail) = length (takeWhile is_digit (e # tail))"
    using arg_cong [OF tail(1), of length] tail(3) d by simp
  then have all: "takeWhile is_digit (e # tail) = e # tail"
    by (metis takeWhile_eq_take take_all_iff order_refl)
  then have "takeWhile is_digit ((e # tail) @ rest) = e # tail"
    using separated_char(2) [OF assms(2)] by (metis append.right_neutral takeWhile_append takeWhile_eq_all_conv)
  moreover have "length tail + 2 + ?d = length cs" using arg_cong [OF tail(1), of length] d by simp
  ultimately show ?thesis using tail tw d by (simp add: numeral_rest_def Let_def)
qed

lemma alphabetic_plain:
  "is_alphabetic c \<or> c = CHR ''_'' \<Longrightarrow> \<not> is_space c \<and>
    c \<notin> {CHR ''+'', CHR ''-'', CHR ''*'', CHR ''/'', CHR ''('', CHR '')'', CHR ''!'', CHR ''~'', CHR ''&'',
      CHR ''|'', CHR ''>'', CHR ''<'', CHR ''='', CHR '':'', CHR ''%''}"
  by (auto simp: is_alphabetic_def is_space_def)

lemma digit_plain:
  "is_digit c \<Longrightarrow> \<not> is_space c \<and> \<not> is_alphabetic c \<and>
    c \<notin> {CHR ''_'', CHR ''+'', CHR ''-'', CHR ''*'', CHR ''/'', CHR ''('', CHR '')'', CHR ''!'', CHR ''~'', CHR ''&'',
      CHR ''|'', CHR ''>'', CHR ''<'', CHR ''='', CHR '':'', CHR ''%''}"
  by (auto simp: is_digit_def is_alphabetic_def is_space_def less_eq_char_def)

lemma next_is_Cons: "next_is d (e # cs) \<longleftrightarrow> e = d"
  by (simp add: next_is_def)

lemma lex_one_operators:
  "lex_one i (CHR ''+'') cs = Inr (Some TokPlus, 0)" "lex_one i (CHR ''-'') cs = Inr (Some TokMinus, 0)"
  "lex_one i (CHR ''*'') cs = Inr (Some TokStar, 0)" "lex_one i (CHR ''/'') cs = Inr (Some TokSlash, 0)"
  "lex_one i (CHR ''('') cs = Inr (Some TokLParen, 0)" "lex_one i (CHR '')'') cs = Inr (Some TokRParen, 0)"
  "lex_one i (CHR ''!'') cs = Inr (Some TokNot, 0)"
  "lex_one i (CHR ''&'') cs = Inr (Some TokAnd, if next_is (CHR ''&'') cs then 1 else 0)"
  "lex_one i (CHR ''|'') cs = Inr (Some TokOr, if next_is (CHR ''|'') cs then 1 else 0)"
  "lex_one i (CHR ''>'') cs = Inr (if next_is (CHR ''='') cs then (Some TokGe, 1) else (Some TokGt, 0))"
  "lex_one i (CHR ''<'') cs = Inr (if next_is (CHR ''='') cs then (Some TokLe, 1) else (Some TokLt, 0))"
  "lex_one i (CHR ''='') (CHR ''='' # cs) = Inr (Some TokEqEq, 1)"
  "lex_one i (CHR ''='') (CHR ''>'' # cs) = Inr (Some TokArrow, 1)"
  "lex_one i (CHR '':'') (CHR '':'' # cs) = Inr (Some TokNamed, 1)"
  by (simp_all add: lex_one_def is_space_def next_is_def)

lemma lex_one_token:
  assumes "lexical t" "tok_str t = c # cs" "separated rest"
  shows "lex_one i c (cs @ rest) = Inr (Some t, length cs)"
proof (cases t)
  case (TokNum s)
  then show ?thesis using assms digit_plain [of c] numeral_rest_separated [of cs rest]
    by (simp add: lex_one_def Let_def)
next
  case (TokIdent s)
  then show ?thesis using assms takeWhile_separated [of cs rest] by (simp add: lex_one_def Let_def is_space_def)
next
  case (TokFIdent s)
  then show ?thesis using assms alphabetic_plain [of c] takeWhile_separated [of cs rest]
    by (simp add: lex_one_def Let_def)
next
  case TokGt
  then have "c = CHR ''>''" "cs = []" using assms(2) by simp_all
  then show ?thesis using TokGt separated_char(3) [OF assms(3), of "CHR ''=''"] by (simp add: lex_one_operators)
next
  case TokGe
  then have "c = CHR ''>''" "cs = ''=''" using assms(2) by simp_all
  then show ?thesis using TokGe by (simp add: lex_one_operators next_is_Cons)
next
  case TokLt
  then have "c = CHR ''<''" "cs = []" using assms(2) by simp_all
  then show ?thesis using TokLt separated_char(3) [OF assms(3), of "CHR ''=''"] by (simp add: lex_one_operators)
next
  case TokLe
  then have "c = CHR ''<''" "cs = ''=''" using assms(2) by simp_all
  then show ?thesis using TokLe by (simp add: lex_one_operators next_is_Cons)
next
  case TokAnd
  then have "c = CHR ''&''" "cs = []" using assms(2) by simp_all
  then show ?thesis using TokAnd separated_char(3) [OF assms(3), of "CHR ''&''"] by (simp add: lex_one_operators)
next
  case TokOr
  then have "c = CHR ''|''" "cs = []" using assms(2) by simp_all
  then show ?thesis using TokOr separated_char(3) [OF assms(3), of "CHR ''|''"] by (simp add: lex_one_operators)
qed (use assms(2) in \<open>(simp, elim conjE, hypsubst, simp add: lex_one_operators)+\<close>)

lemma lex_text: "list_all lexical ts \<Longrightarrow> lex_from i (text_of ts) = Inr ts"
proof (induction ts arbitrary: i)
  case (Cons t ts)
  obtain c cs where c: "tok_str t = c # cs"
    using Cons.prems by (cases t) (auto split: list.splits)
  have "text_of (t # ts) = CHR '' '' # c # cs @ text_of ts" by (simp add: text_of_def c)
  moreover have "lex_one j c (cs @ text_of ts) = Inr (Some t, length cs)" for j
    using Cons.prems lex_one_token [OF _ c separated_text] by simp
  ultimately show ?case using Cons by (simp add: lex_one_def [of _ "CHR '' ''"] is_space_def)
qed (simp add: text_of_def)

section \<open>Properties of the parser\<close>

text \<open>Names and literals as the lexer delimits them.\<close>

definition plain_name :: "string \<Rightarrow> bool" where
  "plain_name s \<longleftrightarrow> lexical (TokFIdent s)"

fun lexical_expr :: "expr \<Rightarrow> bool" where
  "lexical_expr (Ident s) = (plain_name s \<or> lexical (TokIdent s))"
| "lexical_expr (Const s) = lexical (TokNum s)"
| "lexical_expr (Unop e) = lexical_expr e"
| "lexical_expr (Binop l op r) = (lexical_expr l \<and> lexical_expr r)"

lemma print_lexical: "grammatical e \<Longrightarrow> lexical_expr e \<Longrightarrow> list_all lexical (print_expr m e)"
proof (induction e arbitrary: m)
  case (Ident s)
  then show ?case by (auto simp: plain_name_def is_alphabetic_def split: list.splits)
next
  case (Binop l op r)
  then obtain t where "op_tok op = Some t" by auto
  then have "lexical t" by (cases op) auto
  with Binop \<open>op_tok op = Some t\<close> show ?case by (simp add: in_parens_def)
qed (simp_all add: in_parens_def)

definition print_assertion :: "assertion \<Rightarrow> string" where
  "print_assertion a = text_of (TokFIdent (assertion_name a) # TokNamed # TokFIdent (stmt_func (assertion_stmt a))
     # TokArrow # print_expr 0 (stmt_exp (assertion_stmt a)))"

text \<open>
  C39: parsing reads back what was printed: an assertion whose operators the grammar has and whose
  names and literals are lexical, printed with parentheses around every negation and around the operations
  that the binding powers would regroup, and with the token rendering of the source, parses to itself.
\<close>

theorem parse_print_roundtrip:
  assumes "grammatical (stmt_exp (assertion_stmt a))" and "lexical_expr (stmt_exp (assertion_stmt a))"
    and "plain_name (assertion_name a)" and "plain_name (stmt_func (assertion_stmt a))"
  shows "parse_line (print_assertion a) = Some (Inr a)"
proof -
  let ?e = "stmt_exp (assertion_stmt a)" and ?ts = "print_expr 0 (stmt_exp (assertion_stmt a))"
  have "parses 0 (?ts @ []) ?e []" using assms(1) by (intro parse_printed continues_stop) simp_all
  then obtain k where k: "parse_expr k 0 ?ts = Some (Inr (?e, []))" unfolding parses_def by auto
  have "parse_expr (parse_fuel ?ts) 0 ?ts \<noteq> None"
    using parser_answers [of ?ts "parse_fuel ?ts" 0] by (simp add: parse_fuel_def answers_within_def)
  then have "parse_expr (parse_fuel ?ts) 0 ?ts = Some (Inr (?e, []))"
    using k fuel_le(1) by (metis (no_types, opaque_lifting) nat_le_linear not_None_eq option.inject)
  moreover have "lex (print_assertion a) = Inr (TokFIdent (assertion_name a) # TokNamed
      # TokFIdent (stmt_func (assertion_stmt a)) # TokArrow # ?ts)"
    unfolding lex_def print_assertion_def
    using assms print_lexical by (intro lex_text) (simp add: plain_name_def)
  ultimately show ?thesis
    by (simp add: parse_line_def parse_assertion_def parse_stmt_def pbind_def expect_fident_def expect_tok_def
        del: parse_expr.simps)
qed

definition roundtrip_example :: assertion where
  "roundtrip_example = \<lparr>assertion_stmt = \<lparr>stmt_func = ''f'', stmt_exp =
     Binop (Binop (Binop (Ident ''%x'') Plus (Const ''1.5'')) Ge (Ident ''y'')) LAnd
       (Binop (Const ''2'') Lt (Binop (Ident ''%x'') Minus (Unop (Ident ''z''))))\<rparr>, assertion_name = ''a1''\<rparr>"

lemma parse_print_witness: "parse_line (print_assertion roundtrip_example) = Some (Inr roundtrip_example)"
  by (rule parse_print_roundtrip) code_simp+

text \<open>
  The parser answers on every line: recursion never runs out, whatever the tokens are.
\<close>

theorem parse_line_answers: "\<exists>r. parse_line line = Some r"
proof -
  have expr: "parse_expr (parse_fuel ts) 0 ts \<noteq> None" for ts
    using parser_answers [of ts "parse_fuel ts" 0] by (simp add: parse_fuel_def answers_within_def)
  have bind: "p \<noteq> None \<Longrightarrow> (\<And>x us. f x us \<noteq> None) \<Longrightarrow> pbind p f \<noteq> None" for p :: "'a parsed" and f :: "'a \<Rightarrow> _ \<Rightarrow> 'b parsed"
    by (auto simp: pbind_def split: option.split sum.split)
  have tok: "expect_fident ts \<noteq> None" "expect_tok t ts \<noteq> None" for ts t
    using expect_answers by (auto simp: answers_within_def)
  have "parse_stmt ts \<noteq> None" for ts unfolding parse_stmt_def by (intro bind tok expr) simp
  then have "parse_assertion ts \<noteq> None" for ts
    unfolding parse_assertion_def by (intro bind tok) (simp_all split: list.split)
  then show ?thesis by (auto simp: parse_line_def split: sum.split)
qed

text \<open>
  Comparisons and junctions bind equally tightly and to the left, so a conjunction of comparisons
  is read as a comparison of a conjunction.
\<close>

lemma conjunction_misread:
  "parse_cmd_line ''f => %x == 1 && %y == 2'' = Some (Inr \<lparr>assertion_stmt = \<lparr>stmt_func = ''f'', stmt_exp =
     Binop (Binop (Binop (Ident ''%x'') Eeq (Const ''1'')) LAnd (Ident ''%y'')) Eeq (Const ''2'')\<rparr>,
   assertion_name = ''cmdline''\<rparr>)"
  by code_simp

section \<open>Translation\<close>

text \<open>A formula that the sort checker accepts and whose variables have the seeded sorts.\<close>

definition seeded :: "sort_seeds \<Rightarrow> var \<Rightarrow> bool" where
  "seeded seeds v \<longleftrightarrow> bt_get seeds (var_name v) = None \<or> bt_get seeds (var_name v) = Some (var_sort v)"

definition seeded_formula :: "sort_seeds \<Rightarrow> formula \<Rightarrow> bool" where
  "seeded_formula seeds f \<longleftrightarrow> validate f = Inr () \<and>
     (\<forall>v \<in> scalars_formula f \<union> bools_formula f. seeded seeds v)"

definition seeded_term :: "sort_seeds \<Rightarrow> sort \<Rightarrow> fterm \<Rightarrow> bool" where
  "seeded_term seeds s t \<longleftrightarrow> term_sort t = Inr s \<and> s \<noteq> SBool \<and>
     (\<forall>v \<in> scalars_term t \<union> bools_term t. seeded seeds v)"

lemma seeded_by_parts:
  "seeded_formula seeds f \<longleftrightarrow> (\<forall>g \<in> and_parts f. seeded_formula seeds g)"
  "seeded_formula seeds f \<longleftrightarrow> (\<forall>g \<in> or_parts f. seeded_formula seeds g)"
  by (cases f; auto simp: seeded_formula_def and_parts_def or_parts_def)+

lemma seeded_many:
  "seeded_formula seeds (FAnd fs) \<longleftrightarrow> (\<forall>f \<in> set fs. seeded_formula seeds f)"
  "seeded_formula seeds (FOr fs) \<longleftrightarrow> (\<forall>f \<in> set fs. seeded_formula seeds f)"
  by (auto simp: seeded_formula_def)

lemma seeded_junctions:
  assumes "seeded_formula seeds f" "seeded_formula seeds g"
  shows "seeded_formula seeds (f_and f g)" and "seeded_formula seeds (f_or f g)"
proof -
  have const: "seeded_formula seeds FTrue" "seeded_formula seeds FFalse" by (simp_all add: seeded_formula_def)
  show "seeded_formula seeds (f_and f g)"
  proof (cases "flatten_and [] [f, g]")
    case (Some out)
    then have "set out = and_parts f \<union> and_parts g" by (simp add: flatten_and_set [OF Some])
    then have "\<forall>h \<in> set out. seeded_formula seeds h" using assms seeded_by_parts(1) by (metis Un_iff)
    with Some const show ?thesis
      by (auto simp: f_and_def seeded_many simp del: flatten_and.simps split: list.split)
  qed (simp add: f_and_def const del: flatten_and.simps)
  show "seeded_formula seeds (f_or f g)"
  proof (cases "flatten_or [] [f, g]")
    case (Some out)
    then have "set out = or_parts f \<union> or_parts g" by (simp add: flatten_or_set [OF Some])
    then have "\<forall>h \<in> set out. seeded_formula seeds h" using assms seeded_by_parts(2) by (metis Un_iff)
    with Some const show ?thesis
      by (auto simp: f_or_def seeded_many simp del: flatten_or.simps split: list.split)
  qed (simp add: f_or_def const del: flatten_or.simps)
qed

lemma tbind_Inr: "tbind m f = tret y \<longleftrightarrow> (\<exists>x. m = tret x \<and> f x = tret y)"
  unfolding tbind_def obind_eq_Returns by (auto split: sum.split) (metis sum.exhaust)

lemma lower_literal_seeded: "lower_literal oc s k = tret t \<Longrightarrow> seeded_term seeds k t"
  by (cases k) (auto simp: lower_literal_def tbind_Inr seeded_term_def split: option.splits)

lemma lower_term_seeded: "lower_expr_term oc seeds k e = tret t \<Longrightarrow> seeded_term seeds k t"
proof (induction e arbitrary: t)
  case (Ident s)
  then show ?case by (auto simp: seeded_term_def seeded_def var_new_def split: if_splits option.splits)
next
  case (Const s)
  then show ?case using lower_literal_seeded by (auto split: if_splits)
next
  case (Binop l op r)
  then obtain x y where xy: "lower_expr_term oc seeds k l = tret x" "lower_expr_term oc seeds k r = tret y" "k \<noteq> SBool"
    and t: "(case op of Plus \<Rightarrow> tret (TAdd x y) | Minus \<Rightarrow> tret (TSub x y) | Mult \<Rightarrow> tret (TMul x y)
        | Div \<Rightarrow> tret (TDiv x y) | _ \<Rightarrow> tfail ExpectedArithmeticExpr) = tret t"
    by (auto simp: tbind_Inr split: if_splits)
  have "seeded_term seeds k x" "seeded_term seeds k y" using Binop.IH xy by blast+
  with t show ?case by (cases op) (auto simp: seeded_term_def arith_sort_Inr)
next
  case (Unop e)
  then show ?case by (fastforce simp: tbind_Inr seeded_term_def split: if_splits)
qed

definition is_comparison :: "(fterm \<Rightarrow> fterm \<Rightarrow> formula) \<Rightarrow> bool" where
  "is_comparison build \<longleftrightarrow> build \<in> {FEq, FGt, FGe, FLt, FLe}"

lemma lower_comparison_seeded:
  assumes "lower_comparison oc seeds l r build = tret f" "is_comparison build"
  shows "seeded_formula seeds f"
proof -
  obtain k x y where "lower_expr_term oc seeds k l = tret x" "lower_expr_term oc seeds k r = tret y" and f: "f = build x y"
    using assms(1) by (auto simp: lower_comparison_def tbind_Inr)
  then have "seeded_term seeds k x" "seeded_term seeds k y" by (blast intro: lower_term_seeded)+
  with assms(2) show ?thesis unfolding f is_comparison_def
    by (auto simp: seeded_term_def seeded_formula_def arith_sort_def)
qed

lemma lower_formula_seeded: "lower_expr_formula oc seeds e = tret f \<Longrightarrow> seeded_formula seeds f"
proof (induction e arbitrary: f)
  case (Ident s)
  then show ?case
    by (auto simp: seeded_formula_def seeded_def f_bool_var_def var_bool_def var_new_def split: if_splits option.splits)
next
  case (Const s)
  then show ?case by (auto simp: seeded_formula_def split: if_splits)
next
  case (Unop e)
  then show ?case by (auto simp: tbind_Inr seeded_formula_def f_not_def)
next
  case (Binop l op r)
  from Binop.prems show ?case
    by (cases op) (auto simp: tbind_Inr is_comparison_def intro: Binop.IH seeded_junctions lower_comparison_seeded)
qed

text \<open>
  C40: a translated assertion passes the sort checker, and every variable in it has the sort its
  seed gives, or no seed.
\<close>

theorem translate_well_sorted:
  assumes "translate_assertion oc seeds a = tret b"
  shows "validate (predicate (translated_stmt b)) = Inr ()
    \<and> (\<forall>v \<in> scalars_formula (predicate (translated_stmt b)) \<union> bools_formula (predicate (translated_stmt b)).
         bt_get seeds (var_name v) \<in> {None, Some (var_sort v)})
    \<and> translated_name b = assertion_name a \<and> translated_func (translated_stmt b) = stmt_func (assertion_stmt a)"
proof -
  obtain f where f: "lower_expr_formula oc seeds (stmt_exp (assertion_stmt a)) = tret f" and b: "b =
      \<lparr>translated_name = assertion_name a,
       translated_stmt = \<lparr>translated_func = stmt_func (assertion_stmt a), predicate = f\<rparr>\<rparr>"
    using assms by (auto simp: translate_assertion_def translate_statement_def translate_expr_def tbind_Inr)
  from lower_formula_seeded [OF f] show ?thesis
    by (auto simp: b seeded_formula_def seeded_def)
qed

definition translated_example :: assertion where
  "translated_example = \<lparr>assertion_stmt = \<lparr>stmt_func = ''f'',
     stmt_exp = Binop (Binop (Ident ''%x'') Plus (Const ''1'')) Eeq (Const ''4.5'')\<rparr>, assertion_name = ''a''\<rparr>"

lemma translated_example_value:
  "translate_assertion True [(''%x'', SReal)] translated_example = tret \<lparr>translated_name = ''a'',
     translated_stmt = \<lparr>translated_func = ''f'', predicate = FEq
       (TAdd (TVar (var_real ''%x'')) (TReal \<lparr>rat_num = 1, rat_den = 1\<rparr>)) (TReal \<lparr>rat_num = 9, rat_den = 2\<rparr>)\<rparr>\<rparr>"
  by code_simp

lemma translate_witness: "validate (FEq (TAdd (TVar (var_real ''%x'')) (TReal \<lparr>rat_num = 1, rat_den = 1\<rparr>))
    (TReal \<lparr>rat_num = 9, rat_den = 2\<rparr>)) = Inr ()"
  using translate_well_sorted [OF translated_example_value] by simp

text \<open>
  The translation has a case for the literals \<open>true\<close> and \<open>false\<close>, which the parser never produces:
  it reads the words as identifiers, and they become Boolean variables.
\<close>

lemma true_is_a_variable:
  "parse_cmd_line ''f => true'' = Some (Inr \<lparr>assertion_stmt = \<lparr>stmt_func = ''f'', stmt_exp = Ident ''true''\<rparr>,
     assertion_name = ''cmdline''\<rparr>)"
  "translate_expr oc [] (Ident ''true'') = tret (f_bool_var ''true'')"
  by code_simp (simp add: translate_expr_def bt_get_def)

text \<open>Nineteen decimals overflow the denominator of the literal.\<close>

lemma long_literal_panics: "parse_real_literal True ''0.0000000000000000001'' = Panics"
  by code_simp

end
