(* ===== verification/Loops.thy ===== *)
theory Loops
  imports Backward "HOL-Library.Product_Lexorder"
begin

text \<open>
  Natural loops and the check of a candidate invariant (\<open>src/analysis/loops/mod.rs\<close>): detection,
  the forward pass that collects what holds at the header on the first entry, the backward pass
  through the body, and the three-part check (initiation, inductiveness, exit closure).  Constant
  folding of offsets can panic, hence the outcomes.
\<close>

section \<open>Natural loops\<close>

record loop_info =
  loop_header :: cfg_node_id
  latch :: cfg_node_id
  back_edge :: cfg_edge_id
  loop_nodes :: "cfg_node_id set"
  exit_edges :: "cfg_edge_id list"
  back_edge_guard :: formula
  loop_location :: "source_location option"

type_synonym inner_invariants = "(cfg_node_id \<times> formula) list"

text \<open>One node of the backward search: predecessors that are new join the body and the queue.\<close>

definition visit_preds ::
  "cfg_node_id list \<Rightarrow> cfg_node_id set \<times> cfg_node_id list \<Rightarrow> cfg_node_id set \<times> cfg_node_id list" where
  "visit_preds preds st = fold (\<lambda>pred (body, queue).
     if pred \<in> body then (body, queue) else (insert pred body, queue @ [pred])) preds st"

definition sources :: "abstract_cfg \<Rightarrow> cfg_node_id set" where
  "sources cfg = edge_source ` set (bt_values (cfg_edges cfg))"

lemma visit_preds_spec:
  "visit_preds ps (B, Q) = (B', Q') \<Longrightarrow> B' = B \<union> set ps \<and> set Q' = set Q \<union> (set ps - B)
     \<and> (B' = B \<longrightarrow> Q' = Q)"
proof (induction ps arbitrary: B Q)
  case (Cons p ps)
  show ?case
  proof (cases "p \<in> B")
    case True
    then have "visit_preds ps (B, Q) = (B', Q')" using Cons.prems by (simp add: visit_preds_def)
    from Cons.IH [OF this] True show ?thesis by auto
  next
    case False
    then have "visit_preds ps (insert p B, Q @ [p]) = (B', Q')" using Cons.prems by (simp add: visit_preds_def)
    from Cons.IH [OF this] False show ?thesis by auto
  qed
qed (simp add: visit_preds_def)

lemma predecessors_sources: "set (predecessors cfg n) \<subseteq> sources cfg"
  by (auto simp: predecessors_def sources_def)

function close_body :: "abstract_cfg \<Rightarrow> cfg_node_id set \<Rightarrow> cfg_node_id list \<Rightarrow> cfg_node_id set" where
  "close_body cfg body [] = body"
| "close_body cfg body (node # queue) =
     (let (body, queue) = visit_preds (predecessors cfg node) (body, queue) in close_body cfg body queue)"
  by pat_completeness auto
termination
proof (relation "measures [\<lambda>(cfg, body, queue). card (sources cfg - body), \<lambda>(cfg, body, queue). length queue]", goal_cases)
  case (2 cfg body node queue st body' queue')
  then have st: "visit_preds (predecessors cfg node) (body, queue) = (body', queue')" by simp
  note spec = visit_preds_spec [OF st]
  have fin: "finite (sources cfg)" by (simp add: sources_def)
  show ?case
  proof (cases "body' = body")
    case True
    then show ?thesis using spec by simp
  next
    case False
    then have "sources cfg - body' \<subset> sources cfg - body"
      using spec predecessors_sources [of cfg node] by blast
    then have "card (sources cfg - body') < card (sources cfg - body)" using fin by (simp add: psubset_card_mono)
    then show ?thesis by simp
  qed
qed simp

declare close_body.simps [simp del]

definition loop_body :: "abstract_cfg \<Rightarrow> abstract_edge \<Rightarrow> cfg_node_id set" where
  "loop_body cfg edge = close_body cfg {edge_target edge, edge_source edge} [edge_source edge]"

text \<open>Edges that leave the body, in node order; \<open>None\<close> when an edge is unknown.\<close>

definition leaving_edges :: "abstract_cfg \<Rightarrow> cfg_node_id set \<Rightarrow> cfg_edge_id list option" where
  "leaving_edges cfg body =
     (let outs = concat (map (outgoing_edges cfg) (sorted_list_of_set body)) in
      if list_all (\<lambda>out. cfg_edge cfg out \<noteq> Inl (UnknownEdge out)) outs
      then Some (filter (\<lambda>out. case cfg_edge cfg out of
          Inl _ \<Rightarrow> False | Inr edge \<Rightarrow> edge_target edge \<notin> body) outs)
      else None)"

definition loop_of :: "abstract_cfg \<Rightarrow> cfg_edge_id \<Rightarrow> loop_info option" where
  "loop_of cfg eid = (case cfg_edge cfg eid of
     Inl _ \<Rightarrow> None
   | Inr edge \<Rightarrow>
       let body = loop_body cfg edge in
       map_option (\<lambda>exits. \<lparr>loop_header = edge_target edge, latch = edge_source edge, back_edge = edge_id edge,
         loop_nodes = body, exit_edges = exits, back_edge_guard = edge_guard edge,
         loop_location = (case cfg_node cfg (edge_target edge) of
            Inl _ \<Rightarrow> None | Inr node \<Rightarrow> node_location node)\<rparr>) (leaving_edges cfg body))"

definition detect_loops :: "abstract_cfg \<Rightarrow> loop_info list outcome" where
  "detect_loops cfg = (case detect_back_edges cfg of
     None \<Rightarrow> Panics | Some back_edges \<Rightarrow> Returns (List.map_filter (loop_of cfg) back_edges))"

definition sort_innermost_first :: "loop_info list \<Rightarrow> loop_info list" where
  "sort_innermost_first loops = sort_key (card \<circ> loop_nodes) loops"

section \<open>Results of the check\<close>

datatype invariant_check_result =
    Accepted
  | InitiationFailed "smt_model option"
  | InductivenessFailed "smt_model option"
  | ExitClosureFailed cfg_edge_id "smt_model option"

definition is_accepted :: "invariant_check_result \<Rightarrow> bool" where
  "is_accepted self \<longleftrightarrow> self = Accepted"

fun check_witness :: "invariant_check_result \<Rightarrow> smt_model option" where
  "check_witness Accepted = None"
| "check_witness (InitiationFailed w) = w"
| "check_witness (InductivenessFailed w) = w"
| "check_witness (ExitClosureFailed _ w) = w"

definition as_pair :: "verified_loop_invariant \<Rightarrow> cfg_node_id \<times> formula" where
  "as_pair self = (inv_header self, inv_formula self)"

definition normalize_candidate :: "abstract_cfg \<Rightarrow> cfg_node_id \<Rightarrow> formula \<Rightarrow> formula" where
  "normalize_candidate cfg header candidate = (case cfg_node cfg header of
     Inl _ \<Rightarrow> candidate | Inr node \<Rightarrow> wp (node_transfer node) candidate)"

definition fmt_loop_loc :: "loop_info \<Rightarrow> string" where
  "fmt_loop_loc info = (case loop_location info of
     Some location \<Rightarrow> source_location_display location
   | None \<Rightarrow> ''header CfgNodeId('' @ nat_str (loop_header info) @ '')'')"

section \<open>Store facts\<close>

text \<open>
  What was last stored, by region and constant offset.  The offset of a key is read as an integer,
  which orders the keys as the source does.
\<close>

type_synonym store_facts = "(string \<times> int, fterm) btree"

definition intersect_store_facts :: "store_facts \<Rightarrow> store_facts \<Rightarrow> store_facts" where
  "intersect_store_facts a b = filter (\<lambda>(k, v). bt_get b k = Some v) a"

definition obind2 :: "fterm outcome \<Rightarrow> fterm outcome \<Rightarrow> (fterm \<Rightarrow> fterm \<Rightarrow> fterm) \<Rightarrow> fterm outcome" where
  "obind2 l r f = obind l (\<lambda>l. obind r (\<lambda>r. Returns (f l r)))"

fun resolve_select_in_term :: "bool \<Rightarrow> fterm \<Rightarrow> store_facts \<Rightarrow> fterm outcome" where
  "resolve_select_in_term oc (TSelect m index) facts =
     (case m of
        MVar r \<Rightarrow> obind (try_as_constant_int oc index) (\<lambda>k. Returns (case k of
            None \<Rightarrow> TSelect m index
          | Some k \<Rightarrow> (case bt_get facts (r, sint k) of None \<Rightarrow> TSelect m index | Some v \<Rightarrow> v)))
      | _ \<Rightarrow> Returns (TSelect m index))"
| "resolve_select_in_term oc (TAdd l r) facts =
     obind2 (resolve_select_in_term oc l facts) (resolve_select_in_term oc r facts) TAdd"
| "resolve_select_in_term oc (TSub l r) facts =
     obind2 (resolve_select_in_term oc l facts) (resolve_select_in_term oc r facts) TSub"
| "resolve_select_in_term oc (TMul l r) facts =
     obind2 (resolve_select_in_term oc l facts) (resolve_select_in_term oc r facts) TMul"
| "resolve_select_in_term oc (TDiv l r) facts =
     obind2 (resolve_select_in_term oc l facts) (resolve_select_in_term oc r facts) TDiv"
| "resolve_select_in_term oc (TRem l r) facts =
     obind2 (resolve_select_in_term oc l facts) (resolve_select_in_term oc r facts) TRem"
| "resolve_select_in_term oc (TNeg inner) facts =
     obind (resolve_select_in_term oc inner facts) (\<lambda>t. Returns (TNeg t))"
| "resolve_select_in_term oc t facts = Returns t"

definition forget_region :: "string \<Rightarrow> store_facts \<Rightarrow> store_facts" where
  "forget_region r facts = filter (\<lambda>((rk, _), _). rk \<noteq> r) facts"

fun apply_effect_sp ::
  "bool \<Rightarrow> transfer_effect \<Rightarrow> formula \<times> store_facts \<Rightarrow> (formula \<times> store_facts) outcome" where
  "apply_effect_sp oc (MemoryStore r off val) (f, facts) =
     obind (try_as_constant_int oc off) (\<lambda>k. case k of
       Some k \<Rightarrow> obind (resolve_select_in_term oc val facts) (\<lambda>resolved.
         Returns (f, bt_insert (r, sint k) resolved facts))
     | None \<Rightarrow> Returns (f, forget_region r facts))"
| "apply_effect_sp oc (HavocRegions regions) (f, facts) = Returns (f, fold forget_region regions facts)"
| "apply_effect_sp oc (Call _ m) (f, facts) = Returns (f, if m = HavocMemory then [] else facts)"
| "apply_effect_sp oc (IndirectCall _ m) (f, facts) = Returns (f, if m = HavocMemory then [] else facts)"
| "apply_effect_sp oc (Assign target (AssignTerm t)) (f, facts) =
     obind (resolve_select_in_term oc t facts) (\<lambda>resolved.
       Returns (f_and f (FEq (TVar target) resolved), facts))"
| "apply_effect_sp oc (Assign target (AssignPredicate p)) (f, facts) =
     Returns (f_and f (f_and (f_implies (FVar target) p) (f_implies p (FVar target))), facts)"
| "apply_effect_sp oc (Assume c) (f, facts) = Returns (f_and f c, facts)"
| "apply_effect_sp oc (TypeBound c) (f, facts) = Returns (f_and f c, facts)"
| "apply_effect_sp oc (Obligation c) (f, facts) = Returns (f_and f c, facts)"
| "apply_effect_sp oc _ (f, facts) = Returns (f, facts)"

text \<open>A loop that can panic.\<close>

fun ofold :: "('a \<Rightarrow> 's \<Rightarrow> 's outcome) \<Rightarrow> 'a list \<Rightarrow> 's \<Rightarrow> 's outcome" where
  "ofold f [] s = Returns s"
| "ofold f (x # xs) s = obind (f x s) (ofold f xs)"

definition apply_effects_sp ::
  "bool \<Rightarrow> transfer_effect list \<Rightarrow> formula \<Rightarrow> store_facts \<Rightarrow> (formula \<times> store_facts) outcome" where
  "apply_effects_sp oc es pre facts = ofold (apply_effect_sp oc) es (pre, facts)"

section \<open>The forward pass\<close>

type_synonym reach_map = "(cfg_node_id, formula) btree"
type_synonym facts_map = "(cfg_node_id, store_facts) btree"

definition get_or :: "('k, 'v) btree \<Rightarrow> 'k \<Rightarrow> 'v \<Rightarrow> 'v" where
  "get_or m k d = (case bt_get m k of None \<Rightarrow> d | Some v \<Rightarrow> v)"

text \<open>\<open>*m.entry(k).or_insert(d) = f(...)\<close>\<close>

definition bt_update :: "'k::linorder \<Rightarrow> 'v \<Rightarrow> ('v \<Rightarrow> 'v) \<Rightarrow> ('k, 'v) btree \<Rightarrow> ('k, 'v) btree" where
  "bt_update k d f m = bt_insert k (f (get_or m k d)) m"

text \<open>The maps before the pass: the entry is reached, and the headers with an invariant.\<close>

definition inner_map :: "inner_invariants \<Rightarrow> (cfg_node_id, formula) btree" where
  "inner_map inner = fold (\<lambda>(h, inv). bt_insert h inv) inner []"

definition initial_reach :: "abstract_cfg \<Rightarrow> inner_invariants \<Rightarrow> reach_map" where
  "initial_reach cfg inner =
     fold (\<lambda>(h, inv). bt_update h FFalse (\<lambda>e. f_or e inv)) (inner_map inner)
       (bt_insert (cfg_entry cfg) FTrue (foldl (\<lambda>m i. bt_insert i FFalse m) [] (node_ids cfg)))"

text \<open>Along one edge: the transfer of the source, the guard, the effects of the edge.\<close>

definition along_edge ::
  "bool \<Rightarrow> abstract_node \<Rightarrow> abstract_edge \<Rightarrow> formula \<Rightarrow> store_facts \<Rightarrow> (formula \<times> store_facts) outcome" where
  "along_edge oc source edge source_reach facts =
     obind (apply_effects_sp oc (effects (node_transfer source)) source_reach facts) (\<lambda>(source_out, facts).
       apply_effects_sp oc (edge_effects edge) (f_and source_out (edge_guard edge)) facts)"

definition join_facts :: "store_facts option \<Rightarrow> store_facts \<Rightarrow> store_facts option" where
  "join_facts incoming facts = Some (case incoming of
     None \<Rightarrow> facts | Some prev \<Rightarrow> intersect_store_facts prev facts)"

text \<open>The edges of a node that are followed: not excluded, known, and from a reached source.\<close>

definition reaching_edge ::
  "abstract_cfg \<Rightarrow> cfg_edge_id set \<Rightarrow> reach_map \<Rightarrow> cfg_edge_id \<Rightarrow> (abstract_edge \<times> abstract_node \<times> formula) option"
where
  "reaching_edge cfg back rm eid =
     (if eid \<in> back then None
      else case cfg_edge cfg eid of
        Inl _ \<Rightarrow> None
      | Inr edge \<Rightarrow>
          let source_reach = get_or rm (edge_source edge) FFalse in
          if source_reach = FFalse then None
          else (case cfg_node cfg (edge_source edge) of
             Inl _ \<Rightarrow> None | Inr source \<Rightarrow> Some (edge, source, source_reach)))"

definition flow_into ::
  "bool \<Rightarrow> abstract_cfg \<Rightarrow> cfg_edge_id set \<Rightarrow> facts_map \<Rightarrow> cfg_node_id \<Rightarrow> cfg_edge_id
    \<Rightarrow> reach_map \<times> store_facts option \<Rightarrow> (reach_map \<times> store_facts option) outcome" where
  "flow_into oc cfg back fm node eid = (\<lambda>(rm, incoming).
     case reaching_edge cfg back rm eid of
       None \<Rightarrow> Returns (rm, incoming)
     | Some (edge, source, source_reach) \<Rightarrow>
         obind (along_edge oc source edge source_reach (get_or fm (edge_source edge) [])) (\<lambda>(f, facts).
           Returns (bt_insert node (f_or (get_or rm node FFalse) f) rm, join_facts incoming facts)))"

definition pass_node ::
  "bool \<Rightarrow> abstract_cfg \<Rightarrow> cfg_edge_id set \<Rightarrow> cfg_node_id \<Rightarrow> reach_map \<times> facts_map \<Rightarrow> (reach_map \<times> facts_map) outcome"
where
  "pass_node oc cfg back node = (\<lambda>(rm, fm).
     obind (ofold (flow_into oc cfg back fm node) (incoming_edges cfg node) (rm, None)) (\<lambda>(rm, incoming).
       Returns (rm, case incoming of None \<Rightarrow> fm | Some facts \<Rightarrow> bt_insert node facts fm)))"

definition forward_reach_pass ::
  "bool \<Rightarrow> abstract_cfg \<Rightarrow> cfg_edge_id set \<Rightarrow> cfg_node_id list \<Rightarrow> inner_invariants \<Rightarrow> (reach_map \<times> facts_map) outcome"
where
  "forward_reach_pass oc cfg back order inner =
     ofold (pass_node oc cfg back) order (initial_reach cfg inner, bt_insert (cfg_entry cfg) [] [])"

definition conjoin_facts :: "formula \<Rightarrow> store_facts \<Rightarrow> formula" where
  "conjoin_facts f facts = fold (\<lambda>((r, k), v) f.
     f_and f (FEq (TSelect (MVar r) (TInt (word_of_int k))) v)) facts f"

definition with_order ::
  "abstract_cfg \<Rightarrow> 'a outcome \<Rightarrow> (cfg_edge_id set \<Rightarrow> cfg_node_id list \<Rightarrow> 'a outcome) \<Rightarrow> 'a outcome" where
  "with_order cfg otherwise f = (case detect_back_edges cfg of
     None \<Rightarrow> Panics
   | Some back \<Rightarrow> obind (topological_order_excluding (set back) cfg) (\<lambda>order.
       case order of None \<Rightarrow> otherwise | Some order \<Rightarrow> f (set back) order))"

definition forward_reach_at_header ::
  "bool \<Rightarrow> abstract_cfg \<Rightarrow> cfg_node_id \<Rightarrow> inner_invariants \<Rightarrow> formula outcome" where
  "forward_reach_at_header oc cfg header inner = with_order cfg (Returns FTrue) (\<lambda>back order.
     obind (forward_reach_pass oc cfg back order inner) (\<lambda>(rm, fm).
       Returns (conjoin_facts (get_or rm header FTrue) (get_or fm header []))))"

text \<open>The facts at the header: the pass stops there, and the facts of its edges are collected.\<close>

definition header_facts ::
  "bool \<Rightarrow> abstract_cfg \<Rightarrow> cfg_edge_id set \<Rightarrow> reach_map \<Rightarrow> facts_map \<Rightarrow> cfg_edge_id
    \<Rightarrow> store_facts option \<Rightarrow> store_facts option outcome" where
  "header_facts oc cfg back rm fm eid incoming =
     (case reaching_edge cfg back rm eid of
        None \<Rightarrow> Returns incoming
      | Some (edge, source, source_reach) \<Rightarrow>
          obind (apply_effects_sp oc (effects (node_transfer source)) source_reach
              (get_or fm (edge_source edge) [])) (\<lambda>(_, facts).
          obind (apply_effects_sp oc (edge_effects edge) FTrue facts) (\<lambda>(_, facts).
            Returns (join_facts incoming facts))))"

definition preheader_store_facts_at_header ::
  "bool \<Rightarrow> abstract_cfg \<Rightarrow> cfg_node_id \<Rightarrow> inner_invariants \<Rightarrow> store_facts outcome" where
  "preheader_store_facts_at_header oc cfg header inner = with_order cfg (Returns []) (\<lambda>back order.
     obind (forward_reach_pass oc cfg back (takeWhile (\<lambda>node. node \<noteq> header) order) inner) (\<lambda>(rm, fm).
     obind (ofold (header_facts oc cfg back rm fm) (incoming_edges cfg header) None) (\<lambda>incoming.
       Returns (case incoming of None \<Rightarrow> [] | Some facts \<Rightarrow> facts))))"

section \<open>The backward pass\<close>

definition summarize_inner_loops ::
  "abstract_cfg \<Rightarrow> cfg_node_id set option \<Rightarrow> inner_invariants
    \<Rightarrow> ((cfg_node_id, formula) btree \<times> cfg_node_id set) outcome" where
  "summarize_inner_loops cfg restrict_to inner = (case restrict_to of
     None \<Rightarrow> Returns ([], {})
   | Some body \<Rightarrow>
       obind (detect_loops cfg) (\<lambda>loops.
         let loop_bodies = fold (\<lambda>info. bt_insert (loop_header info) (loop_nodes info)) loops [] in
         Returns (fold (\<lambda>(header, invariant) (headers, blocked).
           if header \<notin> body then (headers, blocked)
           else (bt_insert header invariant headers,
             case bt_get loop_bodies header of
               None \<Rightarrow> blocked | Some inner_body \<Rightarrow> blocked \<union> (inner_body - {header}))) inner ([], {}))))"

record pass_config =
  excluded :: "cfg_edge_id set"
  restricted :: "cfg_node_id set option"
  ignore_guards :: bool
  assume_inductive :: bool
  summarized :: "cfg_node_id set"

text \<open>\<open>None\<close> of the states is the early return for an unknown edge or node.\<close>

definition pull_edge ::
  "abstract_cfg \<Rightarrow> pass_config \<Rightarrow> cfg_edge_id \<Rightarrow> reach_map \<Rightarrow> reach_map option" where
  "pull_edge cfg c eid states =
     (if eid \<in> excluded c then Some states
      else case cfg_edge cfg eid of
        Inl _ \<Rightarrow> None
      | Inr edge \<Rightarrow>
          if (case restricted c of None \<Rightarrow> False
              | Some body \<Rightarrow> edge_source edge \<notin> body \<or> edge_target edge \<notin> body) then Some states
          else if edge_source edge \<in> summarized c \<or> edge_target edge \<in> summarized c then Some states
          else
            let target_state = get_or states (edge_target edge) FFalse;
                guard = (if ignore_guards c then FTrue else edge_guard edge);
                post_at_source = f_and guard (wp (edge_transfer edge) target_state) in
            (case cfg_node cfg (edge_source edge) of
               Inl _ \<Rightarrow> None
             | Inr node \<Rightarrow>
                 let pre_at_source = (if assume_inductive c then wp_inductive (node_transfer node) post_at_source
                     else wp (node_transfer node) post_at_source) in
                 Some (bt_insert (edge_source edge)
                   (f_or (get_or states (edge_source edge) FFalse) pre_at_source) states)))"

definition pull_node ::
  "abstract_cfg \<Rightarrow> pass_config \<Rightarrow> cfg_node_id \<Rightarrow> reach_map \<Rightarrow> reach_map option" where
  "pull_node cfg c node states =
     (if node \<in> summarized c then Some states else opt_fold (pull_edge cfg c) (incoming_edges cfg node) states)"

definition seed_states ::
  "abstract_cfg \<Rightarrow> (cfg_node_id \<times> formula) list \<Rightarrow> (cfg_node_id, formula) btree \<Rightarrow> reach_map" where
  "seed_states cfg seeds inner_headers =
     (let join = (\<lambda>(node, f). bt_update node FFalse (\<lambda>e. f_or e f)) in
      fold join inner_headers (fold join seeds (foldl (\<lambda>m i. bt_insert i FFalse m) [] (node_ids cfg))))"

definition backward_states ::
  "abstract_cfg \<Rightarrow> (cfg_node_id \<times> formula) list \<Rightarrow> cfg_edge_id set \<Rightarrow> cfg_node_id set option \<Rightarrow> bool
    \<Rightarrow> inner_invariants \<Rightarrow> bool \<Rightarrow> reach_map option outcome" where
  "backward_states cfg seeds excluded_edges restrict_to ignore_body_guards inner inductive_assume =
     obind (topological_order_excluding excluded_edges cfg) (\<lambda>order.
       case order of
         None \<Rightarrow> Returns None
       | Some order \<Rightarrow>
           obind (summarize_inner_loops cfg restrict_to inner) (\<lambda>(inner_headers, summarized_inner_nodes).
             Returns (opt_fold (pull_node cfg \<lparr>excluded = excluded_edges, restricted = restrict_to,
                 ignore_guards = ignore_body_guards, assume_inductive = inductive_assume,
                 summarized = summarized_inner_nodes\<rparr>)
               (rev order) (seed_states cfg seeds inner_headers))))"

definition edge_source_requirement :: "abstract_cfg \<Rightarrow> cfg_edge_id \<Rightarrow> formula \<Rightarrow> formula option" where
  "edge_source_requirement cfg eid target = (case cfg_edge cfg eid of
     Inl _ \<Rightarrow> None
   | Inr edge \<Rightarrow> (case cfg_node cfg (edge_source edge) of
       Inl _ \<Rightarrow> None
     | Inr node \<Rightarrow> Some (wp (node_transfer node) (f_and (edge_guard edge) (wp (edge_transfer edge) target)))))"

section \<open>The check\<close>

text \<open>A check that may stop with a result: \<open>None\<close> is to go on.\<close>

definition check_initiation ::
  "bool \<Rightarrow> loop_info \<Rightarrow> abstract_cfg \<Rightarrow> formula \<Rightarrow> solver \<Rightarrow> inner_invariants \<Rightarrow> invariant_check_result option outcome"
where
  "check_initiation oc info cfg candidate z inner =
     (if (case is_contradiction z candidate of Inl _ \<Rightarrow> False | Inr b \<Rightarrow> b)
      then Returns (Some (InitiationFailed None))
      else obind (forward_reach_at_header oc cfg (loop_header info) inner) (\<lambda>reach_h.
        Returns (case feasibility_with_model z (f_and reach_h (f_not candidate)) of
          Inl _ \<Rightarrow> Some (InitiationFailed None)
        | Inr report \<Rightarrow>
            (case report_feasibility report of
               Feasible \<Rightarrow> Some (InitiationFailed (report_model report))
             | FeasibilityUnknown \<Rightarrow> Some (InitiationFailed None)
             | Infeasible \<Rightarrow>
                 (case feasibility_with_model z (f_and reach_h candidate) of
                    Inl _ \<Rightarrow> Some (InitiationFailed None)
                  | Inr report \<Rightarrow>
                      if report_feasibility report \<noteq> Feasible then Some (InitiationFailed None) else None)))))"

definition check_inductiveness ::
  "loop_info \<Rightarrow> abstract_cfg \<Rightarrow> formula \<Rightarrow> solver \<Rightarrow> inner_invariants \<Rightarrow> cfg_edge_id set
    \<Rightarrow> invariant_check_result option outcome" where
  "check_inductiveness info cfg candidate z inner excluded_edges =
     (case edge_source_requirement cfg (back_edge info) candidate of
        None \<Rightarrow> Returns (Some (InductivenessFailed None))
      | Some back_edge_requirement \<Rightarrow>
          obind (backward_states cfg [(latch info, back_edge_requirement)] excluded_edges
              (Some (loop_nodes info)) False inner True) (\<lambda>states.
          case states of
            None \<Rightarrow> Returns (Some (InductivenessFailed None))
          | Some inductive_states \<Rightarrow>
              obind (backward_states cfg [(latch info, FTrue)] excluded_edges
                  (Some (loop_nodes info)) False inner False) (\<lambda>states.
                let inductive_header = get_or inductive_states (loop_header info) FFalse;
                    continuation_guard = (case states of
                      None \<Rightarrow> FTrue | Some states \<Rightarrow> get_or states (loop_header info) FTrue) in
                Returns (case implies_with_model z (f_and candidate continuation_guard) inductive_header of
                  Inl _ \<Rightarrow> Some (InductivenessFailed None)
                | Inr (v, model) \<Rightarrow>
                    (case v of
                       Valid \<Rightarrow> None
                     | Invalid \<Rightarrow> Some (InductivenessFailed model)
                     | ValidityUnknown \<Rightarrow> Some (InductivenessFailed None))))))"

definition check_exit ::
  "loop_info \<Rightarrow> abstract_cfg \<Rightarrow> formula \<Rightarrow> solver \<Rightarrow> (cfg_node_id, formula) btree \<Rightarrow> inner_invariants
    \<Rightarrow> cfg_edge_id set \<Rightarrow> cfg_edge_id \<Rightarrow> invariant_check_result option outcome" where
  "check_exit info cfg candidate z assertion_postconditions inner excluded_edges exit_edge =
     (case cfg_edge cfg exit_edge of
        Inl _ \<Rightarrow> Returns None
      | Inr edge \<Rightarrow>
          (case bt_get assertion_postconditions (edge_target edge) of
             None \<Rightarrow> Returns None
           | Some postcondition \<Rightarrow>
               if postcondition = FFalse then Returns None
               else case edge_source_requirement cfg exit_edge postcondition of
                 None \<Rightarrow> Returns (Some (ExitClosureFailed exit_edge None))
               | Some exit_requirement \<Rightarrow>
                   obind (backward_states cfg [(edge_source edge, exit_requirement)] excluded_edges
                       (Some (loop_nodes info)) True inner False) (\<lambda>states.
                   Returns (case states of
                     None \<Rightarrow> Some (ExitClosureFailed exit_edge None)
                   | Some exit_states \<Rightarrow>
                       let exit_header = get_or exit_states (loop_header info) FFalse in
                       (case feasibility_with_model z (f_and candidate exit_header) of
                          Inl _ \<Rightarrow> Some (ExitClosureFailed exit_edge None)
                        | Inr report \<Rightarrow>
                            if report_feasibility report = Infeasible then None
                            else Some (ExitClosureFailed exit_edge (report_model report)))))))"

fun first_failure ::
  "('a \<Rightarrow> invariant_check_result option outcome) \<Rightarrow> 'a list \<Rightarrow> invariant_check_result option outcome" where
  "first_failure f [] = Returns None"
| "first_failure f (x # xs) = obind (f x) (\<lambda>r. case r of
     None \<Rightarrow> first_failure f xs | Some failure \<Rightarrow> Returns (Some failure))"

definition check_loop_invariant_verbose ::
  "bool \<Rightarrow> loop_info \<Rightarrow> abstract_cfg \<Rightarrow> formula \<Rightarrow> solver \<Rightarrow> (cfg_node_id, formula) btree \<Rightarrow> inner_invariants
    \<Rightarrow> invariant_check_result outcome" where
  "check_loop_invariant_verbose oc info cfg candidate z assertion_postconditions inner =
     (let candidate = normalize_candidate cfg (loop_header info) candidate in
      case detect_back_edges cfg of
        None \<Rightarrow> Panics
      | Some back_edges \<Rightarrow>
          obind (first_failure (\<lambda>step. step) (
              [check_initiation oc info cfg candidate z inner,
               check_inductiveness info cfg candidate z inner (set back_edges)]
              @ map (check_exit info cfg candidate z assertion_postconditions inner (set back_edges))
                  (exit_edges info))) (\<lambda>r.
            Returns (case r of None \<Rightarrow> Accepted | Some failure \<Rightarrow> failure)))"

section \<open>Pieces of formulas\<close>

definition extract_back_edge_counter :: "loop_info \<Rightarrow> var option" where
  "extract_back_edge_counter info = (case back_edge_guard info of
     FLt (TVar counter) _ \<Rightarrow> if var_sort counter = SInt then Some counter else None
   | FLe (TVar counter) _ \<Rightarrow> if var_sort counter = SInt then Some counter else None
   | _ \<Rightarrow> None)"

definition formula_conjuncts :: "formula \<Rightarrow> formula list" where
  "formula_conjuncts f = (case f of FAnd items \<Rightarrow> items | other \<Rightarrow> [other])"

fun negate_comparison :: "formula \<Rightarrow> formula option" where
  "negate_comparison (FLt l r) = Some (FGe l r)"
| "negate_comparison (FLe l r) = Some (FGt l r)"
| "negate_comparison (FGt l r) = Some (FLe l r)"
| "negate_comparison (FGe l r) = Some (FLt l r)"
| "negate_comparison (FNot inner) = Some inner"
| "negate_comparison _ = None"

end
