(* ===== verification/Loops_Forward.thy ===== *)
theory Loops_Forward
  imports Loops Runs Formula_Claims
begin

text \<open>
  The forward pass to a loop header is sound: what it collects holds in every state that reaches
  the header without a back edge, when effects do not overwrite what the pass has already read.
\<close>

section \<open>Facts in a state\<close>

definition term_symbols :: "fterm \<Rightarrow> symbol set" where
  "term_symbols t = ScalarSym ` scalars_term t \<union> BoolSym ` bools_term t \<union> RegionSym ` region_names_term t"

lemma term_symbols_simps [simp]:
  "term_symbols (TVar v) = {ScalarSym v}" "term_symbols (TInt n) = {}" "term_symbols (TNeg t) = term_symbols t"
  "term_symbols (TAdd l r) = term_symbols l \<union> term_symbols r"
  "term_symbols (TSub l r) = term_symbols l \<union> term_symbols r"
  "term_symbols (TMul l r) = term_symbols l \<union> term_symbols r"
  "term_symbols (TDiv l r) = term_symbols l \<union> term_symbols r"
  "term_symbols (TRem l r) = term_symbols l \<union> term_symbols r"
  "symbols (FEq l r) = term_symbols l \<union> term_symbols r"
  by (auto simp: term_symbols_def symbols_def)

lemma eval_unwritten_term:
  assumes "effect_step s e t" "writes e \<inter> term_symbols u = {}"
  shows "eval_term t u = eval_term s u"
proof -
  have unwritten: "\<And>x. x \<in> scalars_term u \<Longrightarrow> ScalarSym x \<notin> writes e"
    "\<And>x. x \<in> bools_term u \<Longrightarrow> BoolSym x \<notin> writes e"
    "\<And>r. r \<in> region_names_term u \<Longrightarrow> RegionSym r \<notin> writes e"
    using assms(2) unfolding term_symbols_def by blast+
  have "agree (scalars_term u) (bools_term u) (region_names_term u) t s"
    using assms(1)
    by (cases rule: effect_step_cases)
      (use unwritten in \<open>auto simp: agree_def same_arith_def same_but_memory_def image_iff\<close>)
  then show ?thesis by (rule eval_term_agree)
qed

fun fact_holds :: "valuation \<Rightarrow> (string \<times> int) \<times> fterm \<Rightarrow> bool" where
  "fact_holds s ((r, k), v) \<longleftrightarrow> in_i64 k \<and> eval_term s v = IntV (cells_of s r k)"

definition fact_symbols :: "store_facts \<Rightarrow> symbol set" where
  "fact_symbols facts = (\<Union>p \<in> set facts. term_symbols (snd p))"

text \<open>What a pair of a formula and facts says of a state, and what it mentions.\<close>

definition sp_holds :: "valuation \<Rightarrow> formula \<times> store_facts \<Rightarrow> bool" where
  "sp_holds s p \<longleftrightarrow> eval_formula s (fst p) \<and> (\<forall>x \<in> set (snd p). fact_holds s x)"

definition sp_within :: "symbol set \<Rightarrow> formula \<times> store_facts \<Rightarrow> bool" where
  "sp_within M p \<longleftrightarrow> symbols (fst p) \<union> fact_symbols (snd p) \<subseteq> M \<and> bt_wf (snd p)"

lemma bt_wf_filter: "bt_wf m \<Longrightarrow> bt_wf (filter P m)"
  by (simp add: bt_wf_def sorted_wrt_map sorted_wrt_filter)

lemma fact_symbols_mono: "set m \<subseteq> set m' \<Longrightarrow> fact_symbols m \<subseteq> fact_symbols m'"
  by (auto simp: fact_symbols_def)

section \<open>Loads resolved against facts\<close>

fun plain_reads :: "fterm \<Rightarrow> bool" where
  "plain_reads (TSelect m i) = division_free i"
| "plain_reads (TAdd l r) = (plain_reads l \<and> plain_reads r)"
| "plain_reads (TSub l r) = (plain_reads l \<and> plain_reads r)"
| "plain_reads (TMul l r) = (plain_reads l \<and> plain_reads r)"
| "plain_reads (TDiv l r) = (plain_reads l \<and> plain_reads r)"
| "plain_reads (TRem l r) = (plain_reads l \<and> plain_reads r)"
| "plain_reads (TNeg t) = plain_reads t"
| "plain_reads _ = True"

lemma obind2_Returns: "obind2 l r f = Returns u \<longleftrightarrow> (\<exists>x y. l = Returns x \<and> r = Returns y \<and> u = f x y)"
  by (auto simp: obind2_def obind_eq_Returns)

lemma resolve_select_sound:
  assumes "\<forall>x \<in> set facts. fact_holds s x"
  shows "resolve_select_in_term True t facts = Returns u \<Longrightarrow> plain_reads t \<Longrightarrow>
    eval_term s u = eval_term s t \<and> term_symbols u \<subseteq> term_symbols t \<union> fact_symbols facts"
proof (induction t arbitrary: u rule: plain_reads.induct)
  case (1 m i)
  show ?case
  proof (cases m)
    case (MVar r)
    then obtain k where k: "try_as_constant_int True i = Returns k" and u: "u = (case k of
        None \<Rightarrow> TSelect m i | Some k \<Rightarrow> (case bt_get facts (r, sint k) of None \<Rightarrow> TSelect m i | Some v \<Rightarrow> v))"
      using "1.prems"(1) by (auto simp: obind_eq_Returns)
    show ?thesis
    proof (cases "u = TSelect m i")
      case False
      then obtain n v where n: "k = Some n" "bt_get facts (r, sint n) = Some v" "u = v"
        using u by (cases k) (auto split: option.splits)
      then have v: "((r, sint n), v) \<in> set facts" by (simp add: bt_get_SomeD)
      have "eval_term s i = IntV (sint n)" using constant_folding_sound k n(1) "1.prems"(2) by simp
      then have "eval_term s u = eval_term s (TSelect m i)"
        using bspec [OF assms v] n(3) MVar by (simp add: select_cell_def)
      moreover have "term_symbols u \<subseteq> fact_symbols facts" using v n(3) by (force simp: fact_symbols_def)
      ultimately show ?thesis by blast
    qed simp
  qed (use "1.prems" in simp)
next
  case (7 t)
  then show ?case by (auto simp: obind_eq_Returns)
next
  case (2 l r)
  then show ?case by (fastforce simp: obind2_Returns)
next
  case (3 l r)
  then show ?case by (fastforce simp: obind2_Returns)
next
  case (4 l r)
  then show ?case by (fastforce simp: obind2_Returns)
next
  case (5 l r)
  then show ?case by (fastforce simp: obind2_Returns)
next
  case (6 l r)
  then show ?case by (fastforce simp: obind2_Returns)
qed simp_all

section \<open>One effect\<close>

text \<open>What an effect adds to the formula or the facts, and what the value it writes reads.\<close>

fun mentions :: "transfer_effect \<Rightarrow> symbol set" where
  "mentions (Assign x (AssignTerm t)) = insert (ScalarSym x) (term_symbols t)"
| "mentions (Assign x (AssignPredicate p)) = insert (BoolSym x) (symbols p)"
| "mentions (MemoryStore r i v) = term_symbols v"
| "mentions (Assume c) = symbols c"
| "mentions (TypeBound c) = symbols c"
| "mentions (Obligation c) = symbols c"
| "mentions _ = {}"

fun value_symbols :: "transfer_effect \<Rightarrow> symbol set" where
  "value_symbols (Assign x (AssignTerm t)) = term_symbols t"
| "value_symbols (Assign x (AssignPredicate p)) = symbols p"
| "value_symbols (MemoryStore r i v) = term_symbols v"
| "value_symbols _ = {}"

fun sp_ready :: "transfer_effect \<Rightarrow> bool" where
  "sp_ready (Assign x (AssignTerm t)) = plain_reads t"
| "sp_ready (MemoryStore r i v) = (division_free i \<and> plain_reads v \<and> term_sort v = Inr SInt \<and> no_real_rem v)"
| "sp_ready _ = True"

lemma set_forget_region: "set (fold forget_region rs facts) = {x \<in> set facts. fst (fst x) \<notin> set rs}"
  by (induction rs arbitrary: facts) (auto simp: forget_region_def)

lemma bt_wf_forget: "bt_wf facts \<Longrightarrow> bt_wf (fold forget_region rs facts)"
  by (induction rs arbitrary: facts) (simp_all add: forget_region_def bt_wf_filter)

lemma step_cells:
  assumes "effect_step s e t" "RegionSym r \<notin> writes e"
  shows "cells_of t r = cells_of s r"
  using assms(1) by (cases rule: effect_step_cases) (use assms(2) in \<open>auto simp: same_but_memory_def\<close>)

text \<open>What an effect does not write stays true.\<close>

lemma sp_kept:
  assumes "effect_step s e t" "sp_holds s (f, facts)" "sp_within M (f, facts)" "writes e \<inter> M = {}"
  shows "eval_formula t f"
    and "x \<in> set facts \<Longrightarrow> RegionSym (fst (fst x)) \<notin> writes e \<Longrightarrow> fact_holds t x"
proof -
  have "writes e \<inter> symbols f = {}" using assms(3,4) by (auto simp: sp_within_def)
  then show "eval_formula t f" using eval_unwritten_step [OF assms(1)] assms(2) by (simp add: sp_holds_def)
  assume x: "x \<in> set facts" "RegionSym (fst (fst x)) \<notin> writes e"
  obtain r k v where p: "x = ((r, k), v)" by (metis surj_pair)
  have "writes e \<inter> term_symbols v = {}" using assms(3,4) x(1) p by (force simp: sp_within_def fact_symbols_def)
  then have "eval_term t v = eval_term s v" by (rule eval_unwritten_term [OF assms(1)])
  moreover have "cells_of t r = cells_of s r" using step_cells [OF assms(1)] x(2) p by simp
  ultimately show "fact_holds t x" using assms(2) x(1) p by (auto simp: sp_holds_def)
qed

lemma sp_within_and:
  assumes "sp_within M (f, facts)" "symbols g \<subseteq> N"
  shows "sp_within (M \<union> N) (f_and f g, facts)"
  using assms syms.sym_f_and [of f g] by (auto simp: sp_within_def)

lemma symbols_two_way: "symbols (f_and (f_implies (FVar x) p) (f_implies p (FVar x))) \<subseteq> insert (BoolSym x) (symbols p)"
proof -
  have "symbols (FVar x) = {BoolSym x}" by (auto simp: symbols_def)
  then show ?thesis using syms.sym_f_and syms.sym_f_implies by fastforce
qed

text \<open>Effects that conjoin a condition which holds after them.\<close>

lemma sp_conjoined:
  assumes "effect_step s e t" "sp_holds s (f, facts)" "sp_within M (f, facts)" "writes e \<inter> M = {}"
    and "\<And>r. RegionSym r \<notin> writes e" "eval_formula t g" "symbols g \<subseteq> N"
  shows "sp_holds t (f_and f g, facts) \<and> sp_within (M \<union> N) (f_and f g, facts)"
  using sp_kept [OF assms(1-4)] assms(5-) sp_within_and [OF assms(3)] by (auto simp: sp_holds_def)

lemma sp_dropped:
  assumes "effect_step s e t" "sp_holds s (f, facts)" "sp_within M (f, facts)" "writes e \<inter> M = {}"
    and "set facts' \<subseteq> {x \<in> set facts. RegionSym (fst (fst x)) \<notin> writes e}" "bt_wf facts'"
  shows "sp_holds t (f, facts') \<and> sp_within M (f, facts')"
proof -
  have "fact_symbols facts' \<subseteq> fact_symbols facts" using assms(5) by (intro fact_symbols_mono) auto
  then show ?thesis using sp_kept [OF assms(1-4)] assms(3,5,6) by (auto simp: sp_holds_def sp_within_def)
qed

lemma sp_stored:
  assumes "effect_step s (MemoryStore r i v) t" "sp_holds s (f, facts)" "sp_within M (f, facts)"
    and "RegionSym r \<notin> M \<union> term_symbols v" "sp_ready (MemoryStore r i v)" "well_sorted s"
    and "try_as_constant_int True i = Returns (Some k)" "resolve_select_in_term True v facts = Returns u"
  shows "sp_holds t (f, bt_insert (r, sint k) u facts) \<and>
    sp_within (M \<union> term_symbols v) (f, bt_insert (r, sint k) u facts)"
proof -
  have t: "t = set_cells r (store_cells (cells_of s r) (eval_term s i) (eval_term s v)) s"
    using assms(1) by (simp add: effect_step_simps)
  have within: "symbols f \<union> fact_symbols facts \<subseteq> M" "bt_wf facts" using assms(3) by (simp_all add: sp_within_def)
  have u: "eval_term s u = eval_term s v" "term_symbols u \<subseteq> term_symbols v \<union> fact_symbols facts"
    using resolve_select_sound [OF _ assms(8), of s] assms(2,5) by (auto simp: sp_holds_def)
  have i: "eval_term s i = IntV (sint k)" using constant_folding_sound assms(5,7) by simp
  obtain c where c: "eval_term s v = IntV c"
    using eval_term_sorted [OF assms(6), of v SInt] assms(5) by (auto simp: value_sort_Int)
  have tr: "cells_of t r = (cells_of s r)(sint k := c)" using t i c by (simp add: store_cells_def)
  have fresh: "writes (MemoryStore r i v) \<inter> M = {}" "writes (MemoryStore r i v) \<inter> term_symbols u = {}"
    using assms(4) u(2) within(1) by auto
  have new: "fact_holds t ((r, sint k), u)"
    using eval_unwritten_term [OF assms(1) fresh(2)] u(1) c tr by simp
  have old: "fact_holds t x" if x: "x \<in> set facts" "fst x \<noteq> (r, sint k)" for x
  proof (cases "fst (fst x) = r")
    case True
    then obtain j w where p: "x = ((r, j), w)" "j \<noteq> sint k" using x(2) by (metis prod.collapse)
    have "writes (MemoryStore r i v) \<inter> term_symbols w = {}"
      using x(1) p(1) assms(4) within(1) by (force simp: fact_symbols_def)
    from eval_unwritten_term [OF assms(1) this] show ?thesis
      using x(1) p assms(2) tr by (auto simp: sp_holds_def)
  next
    case False
    then show ?thesis using sp_kept(2) [OF assms(1-3) fresh(1) x(1)] by simp
  qed
  have set: "set (bt_insert (r, sint k) u facts) = insert ((r, sint k), u) {x \<in> set facts. fst x \<noteq> (r, sint k)}"
    by (rule set_bt_insert) (rule within(2))
  have "sp_holds t (f, bt_insert (r, sint k) u facts)"
    using sp_kept(1) [OF assms(1-3) fresh(1)] new old by (auto simp: sp_holds_def set)
  moreover have "fact_symbols (bt_insert (r, sint k) u facts) \<subseteq> fact_symbols facts \<union> term_symbols u"
    unfolding fact_symbols_def set by auto
  then have "fact_symbols (bt_insert (r, sint k) u facts) \<subseteq> M \<union> term_symbols v" using within(1) u(2) by blast
  ultimately show ?thesis using within bt_wf_insert by (auto simp: sp_within_def)
qed

lemma apply_effect_sp_sound:
  assumes step: "effect_step s e t" and run: "apply_effect_sp True e (f, facts) = Returns p"
    and ok: "sp_ready e" "sorted_effect e" "well_sorted s"
    and pre: "sp_holds s (f, facts)" "sp_within M (f, facts)" and fresh: "writes e \<inter> (M \<union> value_symbols e) = {}"
  shows "sp_holds t p \<and> sp_within (M \<union> mentions e) p"
proof -
  have M: "writes e \<inter> M = {}" using fresh by blast
  note conjoined = sp_conjoined [OF step pre M] and dropped = sp_dropped [OF step pre M]
  have wf: "bt_wf facts" using pre(2) by (simp add: sp_within_def)
  show ?thesis
  proof (cases e)
    case (Assign x a)
    show ?thesis
    proof (cases a)
      case (AssignTerm u)
      then obtain w where w: "resolve_select_in_term True u facts = Returns w"
        and p: "p = (f_and f (FEq (TVar x) w), facts)" using run Assign by (auto simp: obind_eq_Returns)
      have t: "t = set_scalar x (eval_term s u) s" using step Assign AssignTerm by (simp add: effect_step_simps)
      have r: "eval_term s w = eval_term s u" "term_symbols w \<subseteq> term_symbols u \<union> fact_symbols facts"
        using resolve_select_sound [OF _ w, of s] pre(1) ok(1) Assign AssignTerm by (auto simp: sp_holds_def)
      have "writes e \<inter> term_symbols w = {}"
        using fresh r(2) pre(2) Assign AssignTerm by (auto simp: sp_within_def)
      then have "eval_term t w = eval_term s u" using eval_unwritten_term [OF step] r(1) by simp
      moreover have "value_sort (eval_term s u) = Some (var_sort x)"
        using eval_term_sorted [OF ok(3), of u "var_sort x"] ok(2) Assign AssignTerm by simp
      ultimately have "eval_formula t (FEq (TVar x) w)" using t compare_values_refl by simp
      moreover have "symbols (FEq (TVar x) w) \<subseteq> mentions e \<union> M"
        using r(2) pre(2) Assign AssignTerm by (auto simp: sp_within_def)
      moreover have "\<And>r. RegionSym r \<notin> writes e" using Assign AssignTerm by simp
      ultimately have "sp_holds t p \<and> sp_within (M \<union> (mentions e \<union> M)) p" unfolding p by (intro conjoined)
      then show ?thesis by (simp add: Un_commute Un_left_commute)
    next
      case (AssignPredicate q)
      then have p: "p = (f_and f (f_and (f_implies (FVar x) q) (f_implies q (FVar x))), facts)"
        using run Assign by simp
      have t: "t = set_bool x (eval_formula s q) s" using step Assign AssignPredicate by (simp add: effect_step_simps)
      have "eval_formula t q = eval_formula s q"
        using eval_unwritten_step [OF step, of q] fresh Assign AssignPredicate by auto
      then have "bool_of t x = eval_formula t q" using t by (simp add: set_bool_def)
      then have "eval_formula t (f_and (f_implies (FVar x) q) (f_implies q (FVar x)))" by simp
      then show ?thesis unfolding p using Assign AssignPredicate symbols_two_way by (intro conjoined) simp_all
    qed
  next
    case (MemoryStore r i v)
    show ?thesis
    proof (cases "try_as_constant_int True i")
      case (Returns k)
      show ?thesis
      proof (cases k)
        case None
        then have p: "p = (f, forget_region r facts)" using run MemoryStore Returns by simp
        have "sp_holds t p \<and> sp_within M p" unfolding p
          using MemoryStore wf set_forget_region [of "[r]" facts] bt_wf_forget [of facts "[r]"] by (intro dropped) auto
        then show ?thesis by (auto simp: sp_within_def)
      next
        case (Some n)
        then obtain u where "resolve_select_in_term True v facts = Returns u" "p = (f, bt_insert (r, sint n) u facts)"
          using run MemoryStore Returns by (auto simp: obind_eq_Returns)
        then show ?thesis using sp_stored [of s r i v t] step pre ok fresh MemoryStore Returns Some by auto
      qed
    qed (use run MemoryStore in simp)
  next
    case (HavocRegions rs)
    then have p: "p = (f, fold forget_region rs facts)" using run by simp
    have "sp_holds t p \<and> sp_within M p" unfolding p
      using HavocRegions wf set_forget_region bt_wf_forget by (intro dropped) auto
    then show ?thesis by (auto simp: sp_within_def)
  next
    case (Call g m)
    then have p: "p = (f, if m = HavocMemory then [] else facts)" using run by simp
    have "sp_holds t p \<and> sp_within M p" unfolding p
      using Call wf by (intro dropped) (cases m; auto simp: bt_wf_def)+
    then show ?thesis by (auto simp: sp_within_def)
  next
    case (IndirectCall g m)
    then have p: "p = (f, if m = HavocMemory then [] else facts)" using run by simp
    have "sp_holds t p \<and> sp_within M p" unfolding p
      using IndirectCall wf by (intro dropped) (cases m; auto simp: bt_wf_def)+
    then show ?thesis by (auto simp: sp_within_def)
  next
    case (Assume c)
    then show ?thesis using run step conjoined [of c "symbols c"] by (auto simp: effect_step_simps)
  next
    case (TypeBound c)
    then show ?thesis using run step conjoined [of c "symbols c"] by (auto simp: effect_step_simps)
  next
    case (Obligation c)
    then show ?thesis using run step conjoined [of c "symbols c"] by (auto simp: effect_step_simps)
  qed (use run step pre in \<open>simp_all add: effect_step_transparent\<close>)
qed

section \<open>Along an edge\<close>

definition mentions_all :: "transfer_effect list \<Rightarrow> symbol set" where
  "mentions_all es = (\<Union>e \<in> set es. mentions e)"

text \<open>No effect writes what was mentioned before it, nor what its own value reads.\<close>

fun fresh_writes :: "symbol set \<Rightarrow> transfer_effect list \<Rightarrow> bool" where
  "fresh_writes M [] = True"
| "fresh_writes M (e # es) = (writes e \<inter> (M \<union> value_symbols e) = {} \<and> fresh_writes (M \<union> mentions e) es)"

lemma apply_effects_sp_sound:
  "steps effect_step s es t \<Longrightarrow> ofold (apply_effect_sp True) es p = Returns q \<Longrightarrow>
    list_all sp_ready es \<Longrightarrow> list_all sorted_effect es \<Longrightarrow> well_sorted s \<Longrightarrow> sp_holds s p \<Longrightarrow> sp_within M p \<Longrightarrow>
    fresh_writes M es \<Longrightarrow> sp_holds t q \<and> sp_within (M \<union> mentions_all es) q"
proof (induction es arbitrary: s p M)
  case (Cons e es)
  obtain f facts where p: "p = (f, facts)" by fastforce
  obtain u where u: "effect_step s e u" "steps effect_step u es t" using Cons.prems(1) by auto
  obtain p' where p': "apply_effect_sp True e (f, facts) = Returns p'" "ofold (apply_effect_sp True) es p' = Returns q"
    using Cons.prems(2) by (auto simp: p obind_eq_Returns)
  have "sp_holds u p' \<and> sp_within (M \<union> mentions e) p'"
    using Cons.prems by (intro apply_effect_sp_sound [OF u(1) p'(1)]) (simp_all add: p)
  moreover have "well_sorted u" using effect_step_sorted [OF u(1)] Cons.prems(4,5) by simp
  ultimately have "sp_holds t q \<and> sp_within (M \<union> mentions e \<union> mentions_all es) q"
    using Cons.prems by (intro Cons.IH [OF u(2) p'(2)]) simp_all
  then show ?case by (simp add: mentions_all_def Un_assoc)
qed (simp add: mentions_all_def)

lemma resolve_select_symbols:
  "resolve_select_in_term oc t facts = Returns u \<Longrightarrow> term_symbols u \<subseteq> term_symbols t \<union> fact_symbols facts"
proof (induction t arbitrary: u rule: plain_reads.induct)
  case (1 m i)
  have "u = TSelect m i \<or> (\<exists>k. bt_get facts k = Some u)"
    using "1.prems" by (cases m) (auto simp: obind_eq_Returns split: option.splits)
  moreover have "bt_get facts k = Some u \<Longrightarrow> term_symbols u \<subseteq> fact_symbols facts" for k
    using bt_get_SomeD [of facts k u] by (force simp: fact_symbols_def)
  ultimately show ?case by blast
next
  case (2 l r)
  then show ?case by (fastforce simp: obind2_Returns)
next
  case (3 l r)
  then show ?case by (fastforce simp: obind2_Returns)
next
  case (4 l r)
  then show ?case by (fastforce simp: obind2_Returns)
next
  case (5 l r)
  then show ?case by (fastforce simp: obind2_Returns)
next
  case (6 l r)
  then show ?case by (fastforce simp: obind2_Returns)
next
  case (7 t)
  then show ?case by (fastforce simp: obind_eq_Returns)
qed simp_all

lemma sp_within_fewer:
  "sp_within M (f, facts) \<Longrightarrow> set facts' \<subseteq> set facts \<Longrightarrow> bt_wf facts' \<Longrightarrow> M \<subseteq> N \<Longrightarrow> sp_within N (f, facts')"
  using fact_symbols_mono [of facts' facts] by (auto simp: sp_within_def)

lemma apply_effect_sp_within:
  assumes "apply_effect_sp oc e (f, facts) = Returns p" "sp_within M (f, facts)"
  shows "sp_within (M \<union> mentions e) p"
proof -
  note fewer = sp_within_fewer [OF assms(2)] and conj = sp_within_and [OF assms(2)]
  have wf: "bt_wf facts" and M: "symbols f \<union> fact_symbols facts \<subseteq> M" using assms(2) by (simp_all add: sp_within_def)
  show ?thesis
  proof (cases e)
    case (Assign x a)
    show ?thesis
    proof (cases a)
      case (AssignTerm u)
      then obtain w where w: "resolve_select_in_term oc u facts = Returns w"
        and p: "p = (f_and f (FEq (TVar x) w), facts)" using assms(1) Assign by (auto simp: obind_eq_Returns)
      have "sp_within (M \<union> (M \<union> mentions e)) p"
        unfolding p using resolve_select_symbols [OF w] M Assign AssignTerm by (intro conj) auto
      then show ?thesis by (simp add: Un_assoc [symmetric])
    next
      case (AssignPredicate q)
      then show ?thesis using assms(1) Assign conj [OF symbols_two_way] by auto
    qed
  next
    case (MemoryStore r i v)
    then obtain k where k: "try_as_constant_int oc i = Returns k" using assms(1) by (auto simp: obind_eq_Returns)
    show ?thesis
    proof (cases k)
      case None
      then have "p = (f, forget_region r facts)" using assms(1) k MemoryStore by simp
      then show ?thesis
        using fewer [of "forget_region r facts" "M \<union> mentions e"] bt_wf_filter [OF wf] by (simp add: forget_region_def)
    next
      case (Some n)
      then obtain u where u: "resolve_select_in_term oc v facts = Returns u" "p = (f, bt_insert (r, sint n) u facts)"
        using assms(1) k MemoryStore by (auto simp: obind_eq_Returns)
      have "fact_symbols (bt_insert (r, sint n) u facts) \<subseteq> fact_symbols facts \<union> term_symbols u"
        unfolding fact_symbols_def set_bt_insert [OF wf] by auto
      then have "fact_symbols (bt_insert (r, sint n) u facts) \<subseteq> M \<union> mentions e"
        using resolve_select_symbols [OF u(1)] M MemoryStore by auto
      then show ?thesis using M wf u(2) bt_wf_insert by (auto simp: sp_within_def)
    qed
  next
    case (HavocRegions rs)
    then show ?thesis
      using assms(1) fewer [of "fold forget_region rs facts" M] set_forget_region bt_wf_forget [OF wf] by auto
  next
    case (Call g m)
    then show ?thesis using assms fewer [of "[]" M] by (cases m) (auto simp: bt_wf_def)
  next
    case (IndirectCall g m)
    then show ?thesis using assms fewer [of "[]" M] by (cases m) (auto simp: bt_wf_def)
  qed (use assms conj in auto)
qed

lemma apply_effects_sp_within:
  "ofold (apply_effect_sp oc) es p = Returns q \<Longrightarrow> sp_within M p \<Longrightarrow> sp_within (M \<union> mentions_all es) q"
proof (induction es arbitrary: p M)
  case (Cons e es)
  obtain f facts where p: "p = (f, facts)" by fastforce
  obtain p' where p': "apply_effect_sp oc e (f, facts) = Returns p'" "ofold (apply_effect_sp oc) es p' = Returns q"
    using Cons.prems(1) by (auto simp: p obind_eq_Returns)
  from Cons.IH [OF p'(2) apply_effect_sp_within [OF p'(1)]] Cons.prems(2)
  show ?case by (simp add: p mentions_all_def Un_assoc)
qed (simp add: mentions_all_def)

text \<open>The guard of an edge acts as an assumption between the transfer of its source and its effects.\<close>

definition run_effects :: "abstract_cfg \<Rightarrow> abstract_edge \<Rightarrow> transfer_effect list" where
  "run_effects cfg e = (case bt_get (cfg_nodes cfg) (edge_source e) of
     None \<Rightarrow> [] | Some n \<Rightarrow> effects (node_transfer n)) @ Assume (edge_guard e) # edge_effects e"

lemma edge_step_effects: "edge_step cfg e s t \<Longrightarrow> steps effect_step s (run_effects cfg e) t"
  by (auto simp: edge_step_def run_effects_def steps_append effect_step_simps)

lemma ofold_append: "ofold f (xs @ ys) s = obind (ofold f xs s) (ofold f ys)"
  by (induction xs arbitrary: s) (auto simp: obind_def split: outcome.splits)

lemma along_edge_eq:
  assumes "bt_get (cfg_nodes cfg) (edge_source e) = Some n"
  shows "along_edge oc n e f facts = ofold (apply_effect_sp oc) (run_effects cfg e) (f, facts)"
  using assms by (auto simp: along_edge_def apply_effects_sp_def run_effects_def ofold_append intro: obind_cong)

end
