(* ===== verification/Loops_Correct.thy ===== *)
theory Loops_Correct
  imports Loops Cfg_Ops
begin

text \<open>
  Natural loops: the body that the search collects, and the edges that leave it.
\<close>

section \<open>The body\<close>

lemma close_body_bounds:
  assumes "set Q \<subseteq> B"
  shows "B \<subseteq> close_body cfg B Q"
    and "\<forall>n \<in> (close_body cfg B Q - B) \<union> set Q. set (predecessors cfg n) \<subseteq> close_body cfg B Q"
    and "B \<subseteq> X \<Longrightarrow> \<forall>n \<in> (X - B) \<union> set Q. set (predecessors cfg n) \<subseteq> X \<Longrightarrow> close_body cfg B Q \<subseteq> X"
  using assms
proof (induction cfg B Q rule: close_body.induct)
  case (2 cfg B n Q)
  obtain B' Q' where v: "visit_preds (predecessors cfg n) (B, Q) = (B', Q')" by fastforce
  note spec = visit_preds_spec [OF v]
  have eq: "close_body cfg B (n # Q) = close_body cfg B' Q'" by (simp add: close_body.simps v)
  note IH = "2.IH" [OF v [symmetric] refl]
  { case 1
    then have "set Q' \<subseteq> B'" using spec by auto
    then show ?case using IH(1) spec unfolding eq by blast }
  { case 2
    then have sub: "set Q' \<subseteq> B'" using spec by auto
    let ?R = "close_body cfg B' Q'"
    have "set (predecessors cfg m) \<subseteq> ?R" if m: "m \<in> (?R - B) \<union> set (n # Q)" for m
    proof (cases "m \<in> (?R - B') \<union> set Q'")
      case True
      then show ?thesis using IH(2) [OF sub] by blast
    next
      case False
      then have "m = n" using m spec by auto
      then show ?thesis using spec IH(1) [OF sub] by blast
    qed
    then show ?case unfolding eq by blast }
  { case 3
    then have sub: "set Q' \<subseteq> B'" using spec by auto
    have "B' \<subseteq> X" using 3 spec by auto
    moreover have "\<forall>m \<in> (X - B') \<union> set Q'. set (predecessors cfg m) \<subseteq> X" using 3 spec by auto
    ultimately show ?case unfolding eq using IH(3) sub by blast }
qed (simp_all add: close_body.simps(1))

text \<open>The part of the graph that avoids a node.\<close>

definition avoiding :: "cfg_node_id \<Rightarrow> abstract_cfg \<Rightarrow> (cfg_node_id \<times> cfg_node_id) set" where
  "avoiding h cfg = {(a, b) \<in> graph cfg. a \<noteq> h \<and> b \<noteq> h}"

lemma predecessors_graph: "m \<in> set (predecessors cfg n) \<longleftrightarrow> (m, n) \<in> graph cfg"
  by (auto simp: predecessors_def flow_def image_iff)

lemma loop_body_closed:
  assumes "n \<in> loop_body cfg e" "n \<noteq> edge_target e" "(m, n) \<in> graph cfg"
  shows "m \<in> loop_body cfg e"
proof -
  have "set [edge_source e] \<subseteq> {edge_target e, edge_source e}" by simp
  note body = close_body_bounds [where cfg = cfg, OF this, folded loop_body_def]
  have "n \<in> (loop_body cfg e - {edge_target e, edge_source e}) \<union> set [edge_source e]" using assms by auto
  then have "set (predecessors cfg n) \<subseteq> loop_body cfg e" using body(2) by (meson UnE UnI1 UnI2 bspec)
  with assms(3) show ?thesis by (auto simp: predecessors_graph)
qed

lemma loop_body_ends: "edge_target e \<in> loop_body cfg e" "edge_source e \<in> loop_body cfg e"
  using close_body_bounds(1) [where Q = "[edge_source e]" and B = "{edge_target e, edge_source e}" and cfg = cfg]
  by (auto simp: loop_body_def)

lemma loop_body_eq:
  assumes "edge_source e \<noteq> edge_target e"
  shows "loop_body cfg e = insert (edge_target e) {n. (n, edge_source e) \<in> (avoiding (edge_target e) cfg)\<^sup>*}"
proof
  let ?h = "edge_target e" and ?l = "edge_source e"
  let ?X = "insert ?h {n. (n, ?l) \<in> (avoiding ?h cfg)\<^sup>*}"
  have "n \<in> ?X" if "n \<in> set (predecessors cfg m)" "m \<in> (?X - {?h, ?l}) \<union> set [?l]" for n m
  proof (cases "n = ?h")
    case False
    have m: "m \<noteq> ?h" "(m, ?l) \<in> (avoiding ?h cfg)\<^sup>*" using that(2) assms by auto
    have "(n, m) \<in> avoiding ?h cfg" using that(1) False m(1) by (simp add: avoiding_def predecessors_graph)
    with m(2) show ?thesis by (simp add: converse_rtrancl_into_rtrancl)
  qed simp
  then show "loop_body cfg e \<subseteq> ?X"
    unfolding loop_body_def by (intro close_body_bounds(3)) auto
  have "n \<in> loop_body cfg e" if "(n, ?l) \<in> (avoiding ?h cfg)\<^sup>*" for n
    using that
  proof (induction rule: converse_rtrancl_induct)
    case (step m n)
    then show ?case using loop_body_closed [of n cfg e m] by (auto simp: avoiding_def)
  qed (rule loop_body_ends)
  then show "?X \<subseteq> loop_body cfg e" using loop_body_ends by auto
qed

section \<open>Detection\<close>

lemma edge_lookup: "cfg_wf cfg \<Longrightarrow> e \<in> set (all_edges cfg) \<Longrightarrow> cfg_edge cfg (edge_id e) = Inr e"
  using all_edges_iff by simp

lemma leaving_edges_eq:
  assumes "cfg_wf cfg" "finite body"
  shows "\<exists>es. leaving_edges cfg body = Some es \<and> set es =
    {edge_id e | e. e \<in> set (all_edges cfg) \<and> edge_source e \<in> body \<and> edge_target e \<notin> body}"
proof -
  let ?outs = "concat (map (outgoing_edges cfg) (sorted_list_of_set body))"
  have outs: "i \<in> set ?outs \<longleftrightarrow> (\<exists>e \<in> set (all_edges cfg). edge_id e = i \<and> edge_source e \<in> body)" for i
    using assms(2) by (auto simp: outgoing_edges_def)
  note get = edge_lookup [OF assms(1)]
  then have known: "list_all (\<lambda>out. cfg_edge cfg out \<noteq> Inl (UnknownEdge out)) ?outs"
    unfolding list_all_iff using outs by (metis Inl_Inr_False)
  then have "leaving_edges cfg body = Some (filter (\<lambda>out. case cfg_edge cfg out of
      Inl _ \<Rightarrow> False | Inr edge \<Rightarrow> edge_target edge \<notin> body) ?outs)"
    by (simp add: leaving_edges_def Let_def)
  moreover have "i \<in> set (filter (\<lambda>out. case cfg_edge cfg out of Inl _ \<Rightarrow> False | Inr edge \<Rightarrow> edge_target edge \<notin> body) ?outs)
      \<longleftrightarrow> (\<exists>e. i = edge_id e \<and> e \<in> set (all_edges cfg) \<and> edge_source e \<in> body \<and> edge_target e \<notin> body)" for i
    using outs [of i] get by (auto simp del: set_concat cfg_edge_Inr split: sum.splits)
  ultimately show ?thesis by blast
qed

lemma finite_loop_body: "finite (loop_body cfg e)"
proof -
  let ?X = "insert (edge_target e) (insert (edge_source e) (sources cfg))"
  have "loop_body cfg e \<subseteq> ?X"
    unfolding loop_body_def using predecessors_sources [of cfg] by (intro close_body_bounds(3)) auto
  then show ?thesis by (rule finite_subset) (simp add: sources_def)
qed

text \<open>
  What a detected loop is: a loop whose back edge is no self-loop consists of its header and of the
  nodes that reach the latch without passing the header; its exit edges are the edges that leave it.
\<close>

definition natural_loop :: "abstract_cfg \<Rightarrow> abstract_edge \<Rightarrow> loop_info \<Rightarrow> bool" where
  "natural_loop cfg e info \<longleftrightarrow> e \<in> set (all_edges cfg) \<and> back_edge info = edge_id e \<and>
     loop_header info = edge_target e \<and> latch info = edge_source e \<and> back_edge_guard info = edge_guard e \<and>
     (edge_source e \<noteq> edge_target e \<longrightarrow> loop_nodes info =
        insert (edge_target e) {n. (n, edge_source e) \<in> (avoiding (edge_target e) cfg)\<^sup>*}) \<and>
     set (exit_edges info) = {edge_id x | x. x \<in> set (all_edges cfg) \<and>
       edge_source x \<in> loop_nodes info \<and> edge_target x \<notin> loop_nodes info}"

lemma loop_of_natural:
  assumes "cfg_wf cfg" "e \<in> set (all_edges cfg)"
  shows "\<exists>info. loop_of cfg (edge_id e) = Some info \<and> natural_loop cfg e info \<and> loop_nodes info = loop_body cfg e"
proof -
  obtain es where "leaving_edges cfg (loop_body cfg e) = Some es" "set es =
      {edge_id x | x. x \<in> set (all_edges cfg) \<and> edge_source x \<in> loop_body cfg e \<and> edge_target x \<notin> loop_body cfg e}"
    using leaving_edges_eq [OF assms(1) finite_loop_body] by blast
  with assms edge_lookup [OF assms] show ?thesis
    by (simp add: loop_of_def Let_def natural_loop_def loop_body_eq del: cfg_edge_Inr)
qed

lemma loops_of_back_edges:
  assumes "cfg_wf cfg"
  shows "\<exists>ids loops. detect_back_edges cfg = Some ids \<and> detect_loops cfg = Returns loops
    \<and> list_all2 (\<lambda>i info. \<exists>e. edge_id e = i \<and> natural_loop cfg e info) ids loops"
proof -
  obtain ids where ids: "detect_back_edges cfg = Some ids" "\<forall>i \<in> set ids. closes_cycle cfg i"
    using back_edges_break_cycles [OF assms] by blast
  have each: "\<exists>e info. edge_id e = i \<and> loop_of cfg i = Some info \<and> natural_loop cfg e info"
    if "i \<in> set ids" for i
  proof -
    from bspec [OF ids(2) that] obtain e where e: "bt_get (cfg_edges cfg) i = Some e"
      unfolding closes_cycle_def by (elim exE conjE)
    have i: "edge_id e = i" using wf_edge(1) [OF assms e] .
    then have "e \<in> set (all_edges cfg)" using e all_edges_iff [OF assms] by simp
    with i loop_of_natural [OF assms, of e] show ?thesis by auto
  qed
  have "list_all2 (\<lambda>i info. \<exists>e. edge_id e = i \<and> natural_loop cfg e info)
      is (List.map_filter (loop_of cfg) is)" if "set is \<subseteq> set ids" for "is"
    using that
  proof (induction "is")
    case (Cons i "is")
    then show ?case using each [of i] by (auto simp: List.map_filter_simps)
  qed (simp add: List.map_filter_simps)
  with ids(1) show ?thesis by (simp add: detect_loops_def)
qed

text \<open>
  C11: loop detection returns on every well-formed graph, one loop for each back edge in the order they
  are found, with the header, the latch and the guard of the edge and the exits of the body.  Where the
  edge is no self loop the body is the natural one.
\<close>

theorem detect_loops_correct:
  assumes "cfg_wf cfg"
  shows "\<exists>ids loops. detect_back_edges cfg = Some ids \<and> detect_loops cfg = Returns loops
    \<and> list_all2 (\<lambda>i info. \<exists>e. edge_id e = i \<and> natural_loop cfg e info) ids loops"
  by (rule loops_of_back_edges [OF assms])

theorem detect_loops_witness:
  "\<exists>info. detect_loops example_loop = Returns [info] \<and> back_edge info = 2"
proof -
  have b: "detect_back_edges example_loop = Some [2]" by code_simp
  obtain loops where "detect_loops example_loop = Returns loops"
    "list_all2 (\<lambda>i info. \<exists>e. edge_id e = i \<and> natural_loop example_loop e info) [2] loops"
    using detect_loops_correct [OF example_loop_wf] b by (auto simp del: list_all2_Cons1)
  then show ?thesis by (auto simp: list_all2_Cons1 natural_loop_def)
qed

text \<open>
  A back edge from a node to itself: the search starts at the latch, which is the header, and
  collects everything before the loop as well.
\<close>

definition self_loop :: abstract_cfg where
  "self_loop = \<lparr>cfg_nodes = map (\<lambda>i. (i, example_node i)) [0, 1, 2],
     cfg_edges = [(0, example_edge 0 0 1), (1, example_edge 1 1 1), (2, example_edge 2 1 2)],
     cfg_entry = 0, concrete_exits = [2], cfg_exit = None, next_node = 3, next_edge = 3\<rparr>"

lemma self_loop_body: "map_option loop_nodes (loop_of self_loop 1) = Some {0, 1}"
  by code_simp

end
