(* ===== verification/Loops_Pass.thy ===== *)
theory Loops_Pass
  imports Loops_Forward Loops_Correct Skeleton
begin

text \<open>
  The forward pass over the graph: in topological order each node receives what its edges
  contribute, and every run that follows no back edge satisfies what the pass knows of its node.
\<close>

section \<open>The pass\<close>

text \<open>What is mentioned on the way to a node.\<close>

definition mentioned_before :: "abstract_cfg \<Rightarrow> cfg_edge_id set \<Rightarrow> cfg_node_id \<Rightarrow> symbol set" where
  "mentioned_before cfg ex n = (\<Union>e \<in> {e \<in> set (kept_edges ex cfg).
     (edge_target e, n) \<in> (flow (kept_edges ex cfg))\<^sup>*}. mentions_all (run_effects cfg e))"

definition forward_ready :: "abstract_cfg \<Rightarrow> cfg_edge_id set \<Rightarrow> bool" where
  "forward_ready cfg ex \<longleftrightarrow> (\<forall>e \<in> set (kept_edges ex cfg). edge_target e \<noteq> cfg_entry cfg \<and>
     list_all sp_ready (run_effects cfg e) \<and> list_all sorted_effect (run_effects cfg e) \<and>
     fresh_writes (mentioned_before cfg ex (edge_source e)) (run_effects cfg e))"

lemma mentioned_step:
  assumes "e \<in> set (kept_edges ex cfg)"
  shows "mentioned_before cfg ex (edge_source e) \<union> mentions_all (run_effects cfg e)
    \<subseteq> mentioned_before cfg ex (edge_target e)"
proof -
  have "(edge_source e, edge_target e) \<in> flow (kept_edges ex cfg)" using assms by (auto simp: flow_def)
  then show ?thesis using assms unfolding mentioned_before_def by (auto intro: rtrancl_into_rtrancl)
qed

lemma skeleton_run_sorted:
  "skeleton_run cfg ex s0 n s \<Longrightarrow> forward_ready cfg ex \<Longrightarrow> well_sorted s"
proof (induction rule: skeleton_run.induct)
  case (along e s t)
  then have "list_all sorted_effect (run_effects cfg e)" by (simp add: forward_ready_def)
  then show ?case using transfer_runs_sorted [OF edge_step_effects [OF along.hyps(3)]] along by blast
qed (simp add: admissible_def)

text \<open>What is known of a node.\<close>

definition known :: "reach_map \<Rightarrow> facts_map \<Rightarrow> cfg_node_id \<Rightarrow> formula \<times> store_facts" where
  "known rm fm n = (get_or rm n FFalse, get_or fm n [])"

lemma get_or_insert: "get_or (bt_insert k v m) j d = (if j = k then v else get_or m j d)"
  by (simp add: get_or_def bt_get_insert)

text \<open>What the edge \<open>i\<close> contributes to \<open>n\<close>, and how the pass takes it in.\<close>

definition contributes ::
  "abstract_cfg \<Rightarrow> cfg_edge_id set \<Rightarrow> reach_map \<Rightarrow> facts_map \<Rightarrow> cfg_node_id \<Rightarrow> cfg_edge_id
    \<Rightarrow> (formula \<times> store_facts) option \<Rightarrow> bool" where
  "contributes cfg ex rm fm n i c \<longleftrightarrow>
     (\<forall>p. c = Some p \<longrightarrow> sp_within (mentioned_before cfg ex n) p) \<and>
     (\<forall>e s t. e \<in> set (kept_edges ex cfg) \<longrightarrow> edge_id e = i \<longrightarrow> edge_step cfg e s t \<longrightarrow> well_sorted s \<longrightarrow>
        sp_holds s (known rm fm (edge_source e)) \<longrightarrow> (\<exists>p. c = Some p \<and> sp_holds t p))"

definition merge_in ::
  "cfg_node_id \<Rightarrow> (formula \<times> store_facts) option \<Rightarrow> reach_map \<times> store_facts option \<Rightarrow> reach_map \<times> store_facts option"
where
  "merge_in n c = (\<lambda>(rm, inc). case c of None \<Rightarrow> (rm, inc)
     | Some (f, facts) \<Rightarrow> (bt_insert n (f_or (get_or rm n FFalse) f) rm, join_facts inc facts))"

lemma flow_edge:
  assumes run: "flow_into True cfg ex fm n i (rm, inc) = Returns st"
    and wf: "cfg_wf cfg" and i: "i \<in> set (incoming_edges cfg n)" and ready: "forward_ready cfg ex"
    and within: "\<And>m. sp_within (mentioned_before cfg ex m) (known rm fm m)"
  shows "\<exists>c. contributes cfg ex rm fm n i c \<and> st = merge_in n c (rm, inc)"
proof (cases "reaching_edge cfg ex rm i")
  case None
  have "\<not> sp_holds s (known rm fm (edge_source e))"
    if "e \<in> set (kept_edges ex cfg)" "edge_id e = i" "edge_step cfg e s t" for e s t
  proof -
    have "cfg_edge cfg i = Inr e" "i \<notin> ex" using edge_lookup [OF wf] that by (auto simp: kept_edges_def)
    moreover have "\<exists>nd. cfg_node cfg (edge_source e) = Inr nd" using that(3) by (auto simp: edge_step_def)
    ultimately have "get_or rm (edge_source e) FFalse = FFalse"
      using None by (auto simp: reaching_edge_def Let_def simp del: cfg_edge_Inr cfg_node_Inr split: if_splits)
    then show ?thesis by (simp add: sp_holds_def known_def)
  qed
  then have "contributes cfg ex rm fm n i None" by (auto simp: contributes_def)
  moreover have "st = merge_in n None (rm, inc)" using run None by (simp add: flow_into_def merge_in_def)
  ultimately show ?thesis by blast
next
  case (Some q)
  then obtain e nd where e: "cfg_edge cfg i = Inr e" "i \<notin> ex" "cfg_node cfg (edge_source e) = Inr nd"
    and q: "q = (e, nd, get_or rm (edge_source e) FFalse)"
    by (auto simp: reaching_edge_def Let_def simp del: cfg_edge_Inr cfg_node_Inr split: if_splits sum.splits)
  have get: "bt_get (cfg_edges cfg) i = Some e" using e(1) by simp
  have kept: "e \<in> set (kept_edges ex cfg)" "edge_id e = i" "edge_target e = n"
    using get e(2) i wf_edge(1) [OF wf get] all_edges_iff [OF wf] incoming_edges_iff [OF wf]
    by (auto simp: kept_edges_def)
  obtain f facts where out: "ofold (apply_effect_sp True) (run_effects cfg e) (known rm fm (edge_source e)) = Returns (f, facts)"
    and st: "st = merge_in n (Some (f, facts)) (rm, inc)"
    using run Some q e(3) by (auto simp: flow_into_def obind_eq_Returns along_edge_eq known_def merge_in_def)
  have "sp_within (mentioned_before cfg ex (edge_source e) \<union> mentions_all (run_effects cfg e)) (f, facts)"
    using apply_effects_sp_within [OF out within] .
  then have "sp_within (mentioned_before cfg ex n) (f, facts)"
    using mentioned_step [OF kept(1)] kept(3) by (auto simp: sp_within_def)
  moreover have "sp_holds t (f, facts)"
    if "edge_step cfg e s t" "well_sorted s" "sp_holds s (known rm fm (edge_source e))" for s t
    using ready kept(1) apply_effects_sp_sound [OF edge_step_effects [OF that(1)] out _ _ that(2,3) within]
    by (simp add: forward_ready_def)
  moreover have "e' = e" if "e' \<in> set (kept_edges ex cfg)" "edge_id e' = i" for e'
    using that kept edge_id_inj [OF wf] by (auto simp: kept_edges_def)
  ultimately have "contributes cfg ex rm fm n i (Some (f, facts))" by (auto simp: contributes_def)
  with st show ?thesis by blast
qed

lemma absorb_fst: "m \<noteq> n \<Longrightarrow> get_or (fst (merge_in n c (rm, inc))) m d = get_or rm m d"
  by (simp add: merge_in_def get_or_insert split: option.split)

lemma contributes_cong:
  assumes "\<And>m. m \<noteq> n \<Longrightarrow> get_or rm' m FFalse = get_or rm m FFalse" "i \<in> set (incoming_edges cfg n)" "cfg_wf cfg"
    and "\<And>e. e \<in> set (kept_edges ex cfg) \<Longrightarrow> edge_source e \<noteq> edge_target e"
  shows "contributes cfg ex rm' fm n i c = contributes cfg ex rm fm n i c"
proof -
  have "known rm' fm (edge_source e) = known rm fm (edge_source e)"
    if "e \<in> set (kept_edges ex cfg)" "edge_id e = i" for e
  proof -
    have "bt_get (cfg_edges cfg) i = Some e" using that all_edges_iff [OF assms(3)] by (auto simp: kept_edges_def)
    then have "edge_target e = n" using assms(2) incoming_edges_iff [OF assms(3)] by auto
    with assms(1,4) that show ?thesis by (metis known_def)
  qed
  then show ?thesis by (auto simp: contributes_def)
qed

lemma flow_edges:
  assumes "ofold (flow_into True cfg ex fm n) is (rm, inc) = Returns st" and wf: "cfg_wf cfg" "forward_ready cfg ex"
    and irr: "\<And>e. e \<in> set (kept_edges ex cfg) \<Longrightarrow> edge_source e \<noteq> edge_target e"
    and "set is \<subseteq> set (incoming_edges cfg n)" "\<And>m. sp_within (mentioned_before cfg ex m) (known rm fm m)"
  shows "\<exists>cs. list_all2 (contributes cfg ex rm fm n) is cs \<and> st = fold (merge_in n) cs (rm, inc)"
  using assms(1,5,6)
proof (induction "is" arbitrary: rm inc)
  case (Cons i "is")
  then obtain rm' inc' where one: "flow_into True cfg ex fm n i (rm, inc) = Returns (rm', inc')"
    and rest: "ofold (flow_into True cfg ex fm n) is (rm', inc') = Returns st"
    by (auto simp: obind_eq_Returns)
  obtain c where c: "contributes cfg ex rm fm n i c" "(rm', inc') = merge_in n c (rm, inc)"
    using flow_edge [OF one wf(1) _ wf(2) Cons.prems(3)] Cons.prems(2) by auto
  have same: "m \<noteq> n \<Longrightarrow> get_or rm' m FFalse = get_or rm m FFalse" for m
    using absorb_fst [of m n c rm inc FFalse] c(2) by (metis fst_conv)
  have "sp_within (mentioned_before cfg ex m) (known rm' fm m)" for m
  proof (cases "m = n \<and> c \<noteq> None")
    case True
    then obtain f facts where f: "c = Some (f, facts)" by auto
    then have "get_or rm' m FFalse = f_or (get_or rm m FFalse) f"
      using c(2) True by (simp add: merge_in_def get_or_insert)
    moreover have "sp_within (mentioned_before cfg ex m) (f, facts)" using c(1) f True by (simp add: contributes_def)
    ultimately show ?thesis using Cons.prems(3) [of m] syms.sym_f_or [of "get_or rm m FFalse" f]
      by (auto simp: known_def sp_within_def)
  next
    case False
    then have "known rm' fm m = known rm fm m"
      using same c(2) by (cases "m = n"; cases c) (auto simp: known_def merge_in_def)
    then show ?thesis using Cons.prems(3) by simp
  qed
  from Cons.IH [OF rest _ this] Cons.prems(2) obtain cs where
    cs: "list_all2 (contributes cfg ex rm' fm n) is cs" "st = fold (merge_in n) cs (rm', inc')" by auto
  have "list_all2 (contributes cfg ex rm fm n) is cs"
  proof (rule list.rel_mono_strong [OF cs(1)])
    fix j d
    assume "j \<in> set is" "contributes cfg ex rm' fm n j d"
    with contributes_cong [OF same _ wf(1) irr, where i = j] Cons.prems(2)
    show "contributes cfg ex rm fm n j d" by auto
  qed
  with c cs(2) show ?case by (metis fold_simps(2) list.rel_intros(2))
qed simp

text \<open>What the node knows after taking everything in.\<close>

lemma join_facts_set: "join_facts inc facts = Some g \<Longrightarrow> set g \<subseteq> set facts \<and> (\<forall>h. inc = Some h \<longrightarrow> set g \<subseteq> set h)"
  using bt_get_SomeD by (fastforce simp: join_facts_def intersect_store_facts_def split: option.splits)

lemma join_facts_wf: "bt_wf facts \<Longrightarrow> (\<And>h. inc = Some h \<Longrightarrow> bt_wf h) \<Longrightarrow> join_facts inc facts = Some g \<Longrightarrow> bt_wf g"
  by (auto simp: join_facts_def intersect_store_facts_def bt_wf_filter split: option.splits)

lemma merge_in_all:
  assumes "fold (merge_in n) cs (rm, inc) = (rm', inc')"
  shows "m \<noteq> n \<Longrightarrow> get_or rm' m FFalse = get_or rm m FFalse"
    and "eval_formula s (get_or rm n FFalse) \<Longrightarrow> eval_formula s (get_or rm' n FFalse)"
    and "inc = Some h \<Longrightarrow> \<exists>g. inc' = Some g \<and> set g \<subseteq> set h"
    and "Some p \<in> set cs \<Longrightarrow> sp_holds s p \<Longrightarrow>
      eval_formula s (get_or rm' n FFalse) \<and> (\<exists>g. inc' = Some g \<and> (\<forall>x \<in> set g. fact_holds s x))"
    and "sp_within M (get_or rm n FFalse, []) \<Longrightarrow> (\<And>h. inc = Some h \<Longrightarrow> sp_within M (FFalse, h)) \<Longrightarrow>
      (\<And>p. Some p \<in> set cs \<Longrightarrow> sp_within M p) \<Longrightarrow>
      sp_within M (get_or rm' n FFalse, []) \<and> (\<forall>g. inc' = Some g \<longrightarrow> sp_within M (FFalse, g))"
  using assms
proof (induction cs arbitrary: rm inc h)
  case (Cons c cs)
  { case 1
    obtain rm1 inc1 where one: "merge_in n c (rm, inc) = (rm1, inc1)" by fastforce
    have rest: "fold (merge_in n) cs (rm1, inc1) = (rm', inc')" using 1(2) one by simp
    from Cons.IH(1) [OF 1(1) rest] have "get_or rm' m FFalse = get_or rm1 m FFalse" .
    with 1 show ?case using absorb_fst [of m n c rm inc FFalse] one by simp }
  { case 2
    obtain rm1 inc1 where one: "merge_in n c (rm, inc) = (rm1, inc1)" by fastforce
    have rest: "fold (merge_in n) cs (rm1, inc1) = (rm', inc')" using 2(2) one by simp
    from 2 have "eval_formula s (get_or rm1 n FFalse)"
      using one by (auto simp: merge_in_def get_or_insert split: option.splits)
    then show ?case by (rule Cons.IH(2) [OF _ rest]) }
  { case 3
    obtain rm1 inc1 where one: "merge_in n c (rm, inc) = (rm1, inc1)" by fastforce
    have rest: "fold (merge_in n) cs (rm1, inc1) = (rm', inc')" using 3(2) one by simp
    from 3 obtain g where g: "inc1 = Some g" "set g \<subseteq> set h"
      using one join_facts_set [of inc] by (cases c) (auto simp: merge_in_def join_facts_def)
    from Cons.IH(3) [OF g(1) rest] g(2) show ?case by blast }
  { case 4
    obtain rm1 inc1 where one: "merge_in n c (rm, inc) = (rm1, inc1)" by fastforce
    have rest: "fold (merge_in n) cs (rm1, inc1) = (rm', inc')" using 4(3) one by simp
    show ?case
    proof (cases "c = Some p")
      case True
      obtain f facts where p: "p = (f, facts)" by fastforce
      then have f: "eval_formula s (get_or rm1 n FFalse)" and inc1: "inc1 = join_facts inc facts"
        using 4(2) one True by (auto simp: merge_in_def get_or_insert sp_holds_def)
      obtain g where g: "inc1 = Some g" "set g \<subseteq> set facts"
        using join_facts_set [of inc facts] inc1 by (auto simp: join_facts_def)
      have "\<forall>x \<in> set facts. fact_holds s x" using 4(2) p by (simp add: sp_holds_def)
      moreover from Cons.IH(3) [OF g(1) rest] obtain g' where "inc' = Some g'" "set g' \<subseteq> set g" by blast
      ultimately show ?thesis using Cons.IH(2) [OF f rest] g(2) by auto
    next
      case False
      then have "Some p \<in> set cs" using 4(1) by auto
      from Cons.IH(4) [OF this 4(2) rest] show ?thesis .
    qed }
  { case 5
    obtain rm1 inc1 where one: "merge_in n c (rm, inc) = (rm1, inc1)" by fastforce
    have rest: "fold (merge_in n) cs (rm1, inc1) = (rm', inc')" using 5(4) one by simp
    show ?case
    proof (rule Cons.IH(5))
      show "fold (merge_in n) cs (rm1, inc1) = (rm', inc')" by (rule rest)
      show "Some p \<in> set cs \<Longrightarrow> sp_within M p" for p using 5(3) by simp
      have c: "c = Some (f, facts) \<Longrightarrow> sp_within M (f, facts)" for f facts using 5(3) by simp
      show "sp_within M (get_or rm1 n FFalse, [])"
        using one c 5(1) syms.sym_f_or [of "get_or rm n FFalse"]
        by (cases c) (fastforce simp: merge_in_def get_or_insert sp_within_def)+
      show "inc1 = Some h \<Longrightarrow> sp_within M (FFalse, h)" for h
      proof (cases c)
        case (Some p)
        assume h: "inc1 = Some h"
        obtain f facts where p: "p = (f, facts)" by fastforce
        have j: "join_facts inc facts = Some h" using one Some p h by (simp add: merge_in_def)
        have "bt_wf h" using j c [of f facts] 5(2) Some p by (intro join_facts_wf [OF _ _ j]) (auto simp: sp_within_def)
        then show ?thesis
          using sp_within_fewer [OF c [of f facts], of h M] join_facts_set [OF j] Some p by (auto simp: sp_within_def symbols_def)
      qed (use one 5(2) in \<open>simp add: merge_in_def\<close>)
    qed }
qed auto

text \<open>The invariant of the pass over the nodes done so far.\<close>

definition pass_inv ::
  "abstract_cfg \<Rightarrow> cfg_edge_id set \<Rightarrow> cfg_node_id set \<Rightarrow> reach_map \<times> facts_map \<Rightarrow> bool" where
  "pass_inv cfg ex D st \<longleftrightarrow>
     (\<forall>m. sp_within (mentioned_before cfg ex m) (known (fst st) (snd st) m)) \<and>
     (\<forall>s0 m s. skeleton_run cfg ex s0 m s \<longrightarrow> m \<in> insert (cfg_entry cfg) D \<longrightarrow> sp_holds s (known (fst st) (snd st) m))"

lemma pass_node_sound:
  assumes "pass_node True cfg ex n st = Returns st'" "pass_inv cfg ex D st" "cfg_wf cfg" "forward_ready cfg ex"
    and irr: "\<And>e. e \<in> set (kept_edges ex cfg) \<Longrightarrow> edge_source e \<noteq> edge_target e"
    and "n \<notin> D" "\<And>e. e \<in> set (kept_edges ex cfg) \<Longrightarrow> edge_target e = n \<Longrightarrow> edge_source e \<in> D"
  shows "pass_inv cfg ex (insert n D) st'"
proof -
  obtain rm fm where st: "st = (rm, fm)" by fastforce
  note within = assms(2) [unfolded pass_inv_def st fst_conv snd_conv, THEN conjunct1, rule_format]
  note holds = assms(2) [unfolded pass_inv_def st fst_conv snd_conv, THEN conjunct2, rule_format]
  obtain rm' inc where loop: "ofold (flow_into True cfg ex fm n) (incoming_edges cfg n) (rm, None) = Returns (rm', inc)"
    and st': "st' = (rm', case inc of None \<Rightarrow> fm | Some facts \<Rightarrow> bt_insert n facts fm)"
    using assms(1) by (auto simp: pass_node_def st obind_eq_Returns)
  obtain cs where cs: "list_all2 (contributes cfg ex rm fm n) (incoming_edges cfg n) cs"
    and "(rm', inc) = fold (merge_in n) cs (rm, None)"
    using flow_edges [OF loop assms(3,4) irr order_refl within] by blast
  then have abs: "fold (merge_in n) cs (rm, None) = (rm', inc)" by simp
  let ?fm = "case inc of None \<Rightarrow> fm | Some facts \<Rightarrow> bt_insert n facts fm"
  have other: "known rm' ?fm m = known rm fm m" if "m \<noteq> n" for m
    using merge_in_all(1) [OF abs that] that by (simp add: known_def get_or_insert split: option.split)
  have cw: "sp_within (mentioned_before cfg ex n) p" if "Some p \<in> set cs" for p
  proof -
    from that obtain i where "i < length cs" "cs ! i = Some p" unfolding in_set_conv_nth by blast
    with list_all2_nthD2 [OF cs this(1)] show ?thesis by (simp add: contributes_def)
  qed
  have start: "sp_within (mentioned_before cfg ex n) (get_or rm n FFalse, [])"
    using within [of n] by (auto simp: known_def sp_within_def fact_symbols_def bt_wf_def)
  have new: "sp_within (mentioned_before cfg ex n) (get_or rm' n FFalse, [])"
    "\<And>g. inc = Some g \<Longrightarrow> sp_within (mentioned_before cfg ex n) (FFalse, g)"
    using merge_in_all(5) [OF abs start _ cw] by auto
  have "sp_within (mentioned_before cfg ex m) (known rm' ?fm m)" for m
  proof (cases "m = n")
    case True
    then show ?thesis using new within [of n]
      by (cases inc) (auto simp: known_def get_or_insert sp_within_def symbols_def)
  qed (simp add: other within)
  moreover have "sp_holds s (known rm' ?fm m)"
    if run: "skeleton_run cfg ex s0 m s" and m: "m \<in> insert (cfg_entry cfg) (insert n D)" for s0 m s
  proof (cases "m = n")
    case False
    with m show ?thesis using holds [OF run] other by auto
  next
    case True
    show ?thesis
    proof (cases rule: skeleton_run.cases [OF run])
      case 1
      have "i \<in> ex" if "i \<in> set (incoming_edges cfg n)" for i
      proof (rule ccontr)
        assume "i \<notin> ex"
        obtain e where e: "bt_get (cfg_edges cfg) i = Some e" "edge_target e = n"
          using incoming_edges_iff [OF assms(3)] \<open>i \<in> set (incoming_edges cfg n)\<close> by auto
        then have "e \<in> set (kept_edges ex cfg)"
          using \<open>i \<notin> ex\<close> wf_edge(1) [OF assms(3) e(1)] all_edges_iff [OF assms(3)] by (auto simp: kept_edges_def)
        then show False using assms(4) e(2) 1(1) True by (auto simp: forward_ready_def)
      qed
      then have "ofold (flow_into True cfg ex fm n) is (rm, None) = Returns (rm, None)"
        if "set is \<subseteq> set (incoming_edges cfg n)" for "is"
        using that by (induction "is") (auto simp: flow_into_def reaching_edge_def)
      then have "rm' = rm" "inc = None" using loop by auto
      then show ?thesis using holds [OF run] 1(1) by simp
    next
      case (2 e s1)
      have e: "edge_source e \<in> D" "edge_id e \<in> set (incoming_edges cfg n)"
        using assms(7) [OF 2(4)] 2(1,4) True incoming_edges_iff [OF assms(3)] all_edges_iff [OF assms(3)]
        by (auto simp: kept_edges_def)
      have h: "sp_holds s1 (known rm fm (edge_source e))" using holds [OF 2(3)] e(1) by simp
      have "well_sorted s1" using skeleton_run_sorted [OF 2(3) assms(4)] .
      obtain j where j: "j < length (incoming_edges cfg n)" "incoming_edges cfg n ! j = edge_id e"
        using e(2) by (metis in_set_conv_nth)
      then have "contributes cfg ex rm fm n (edge_id e) (cs ! j)" "cs ! j \<in> set cs"
        using cs list_all2_nthD [OF cs j(1)] by (auto simp: list_all2_lengthD)
      then obtain p where "Some p \<in> set cs" "sp_holds s p"
        unfolding contributes_def using 2(2,4,5) h \<open>well_sorted s1\<close> by metis
      then have "eval_formula s (get_or rm' n FFalse) \<and> (\<exists>g. inc = Some g \<and> (\<forall>x \<in> set g. fact_holds s x))"
        using merge_in_all(4) [OF abs] by blast
      then show ?thesis using True by (auto simp: sp_holds_def known_def get_or_insert)
    qed
  qed
  ultimately show ?thesis by (simp add: pass_inv_def st')
qed

lemma pass_sound:
  assumes "ofold (pass_node True cfg ex) ns st = Returns st'" "pass_inv cfg ex D st" "cfg_wf cfg" "forward_ready cfg ex"
    and irr: "\<And>e. e \<in> set (kept_edges ex cfg) \<Longrightarrow> edge_source e \<noteq> edge_target e"
    and "distinct ns" "set ns \<inter> D = {}"
    and "\<And>i e. i < length ns \<Longrightarrow> e \<in> set (kept_edges ex cfg) \<Longrightarrow> edge_target e = ns ! i \<Longrightarrow>
      edge_source e \<in> D \<union> set (take i ns)"
  shows "pass_inv cfg ex (D \<union> set ns) st'"
  using assms(1,2,6-)
proof (induction ns arbitrary: st D)
  case (Cons n ns)
  then obtain u where u: "pass_node True cfg ex n st = Returns u" "ofold (pass_node True cfg ex) ns u = Returns st'"
    by (auto simp: obind_eq_Returns)
  have inv: "pass_inv cfg ex (insert n D) u"
  proof (rule pass_node_sound [OF u(1) Cons.prems(2) assms(3,4) irr])
    show "n \<notin> D" using Cons.prems(4) by simp
    show "edge_source e \<in> D" if "e \<in> set (kept_edges ex cfg)" "edge_target e = n" for e
      using Cons.prems(5) [of 0 e] that by simp
  qed
  have "pass_inv cfg ex (insert n D \<union> set ns) st'"
  proof (rule Cons.IH [OF u(2) inv])
    show "distinct ns" "set ns \<inter> insert n D = {}" using Cons.prems(3,4) by auto
    show "edge_source e \<in> insert n D \<union> set (take i ns)"
      if "i < length ns" "e \<in> set (kept_edges ex cfg)" "edge_target e = ns ! i" for i e
      using Cons.prems(5) [of "Suc i" e] that by simp
  qed
  then show ?case by simp
qed simp

lemma initial_reach_alone: "get_or (initial_reach cfg []) n FFalse = (if n = cfg_entry cfg then FTrue else FFalse)"
proof -
  have "bt_get (foldl (\<lambda>m i. bt_insert i FFalse m) [] ks) n = (if n \<in> set ks then Some FFalse else None)" for ks
    using bt.get_fill [of "\<lambda>_. FFalse" "[]" ks n] by (simp add: bt_get_def)
  then show ?thesis by (simp add: initial_reach_def inner_map_def get_or_def bt_get_insert)
qed

lemma known_initial:
  "known (initial_reach cfg []) [(cfg_entry cfg, [])] n = (if n = cfg_entry cfg then FTrue else FFalse, [])"
proof -
  have "get_or [(cfg_entry cfg, [])] n [] = ([] :: store_facts)" by (simp add: get_or_def bt_get_def)
  then show ?thesis by (simp add: known_def initial_reach_alone)
qed

lemma conjoin_facts_holds:
  "eval_formula s f \<Longrightarrow> \<forall>x \<in> set facts. fact_holds s x \<Longrightarrow> eval_formula s (conjoin_facts f facts)"
proof (induction facts arbitrary: f)
  case (Cons x facts)
  obtain r k v where x: "x = ((r, k), v)" by (metis surj_pair)
  have "eval_formula s (FEq (TSelect (MVar r) (TInt (word_of_int k))) v)"
    using Cons.prems(2) x by (simp add: select_cell_def sint_word_of_int_i64)
  then show ?case using Cons x by (simp add: conjoin_facts_def)
qed (simp add: conjoin_facts_def)

lemma header_reach_covers:
  assumes "cfg_wf cfg" and "detect_back_edges cfg = Some ids" and "forward_ready cfg (set ids)"
    and "forward_reach_at_header True cfg header [] = Returns f"
    and "skeleton_run cfg (set ids) s0 header s" and "header \<in> set (node_ids cfg)"
  shows "eval_formula s f"
proof -
  from order_cases [OF assms(1), of "set ids"] show ?thesis
  proof (elim disjE exE conjE)
    fix order
    assume order: "topological_order_excluding (set ids) cfg = Returns (Some order)"
      and top: "topological (node_ids cfg) (kept_edges (set ids) cfg) order" and acyc: "acyclic (flow (kept_edges (set ids) cfg))"
    obtain rm fm where pass: "forward_reach_pass True cfg (set ids) order [] = Returns (rm, fm)"
      and f: "f = conjoin_facts (get_or rm header FTrue) (get_or fm header [])"
      using assms(2,4) order by (auto simp: forward_reach_at_header_def with_order_def obind_eq_Returns)
    have "pass_inv cfg (set ids) {} (initial_reach cfg [], bt_insert (cfg_entry cfg) [] [])"
      by (simp add: pass_inv_def known_initial sp_within_def sp_holds_def fact_symbols_def bt_wf_def symbols_def)
    moreover have "edge_source e \<noteq> edge_target e" if "e \<in> set (kept_edges (set ids) cfg)" for e
      using acyc that by (auto simp: acyclic_def flow_def)
    ultimately have "pass_inv cfg (set ids) ({} \<union> set order) (rm, fm)"
      using pass top assms(1,3) unfolding forward_reach_pass_def topological_def in_order_def
      by (intro pass_sound) auto
    then have "sp_holds s (known rm fm header)" using assms(5,6) top by (auto simp: pass_inv_def topological_def)
    moreover from this have "get_or rm header FTrue = get_or rm header FFalse"
      by (auto simp: sp_holds_def known_def get_or_def split: option.splits)
    ultimately show ?thesis unfolding f by (intro conjoin_facts_holds) (simp_all add: sp_holds_def known_def)
  next
    assume "topological_order_excluding (set ids) cfg = Returns None"
    then show ?thesis using assms(2,4) by (simp add: forward_reach_at_header_def with_order_def)
  qed
qed

text \<open>
  Initiation rests on this: on a checked build, the formula that the forward pass computes for
  a loop header holds in every state in which a run that follows no back edge reaches the header,
  when the effects on the way do not overwrite what the pass has read before.
\<close>

theorem forward_reach_sound:
  assumes "cfg_wf cfg" and "detect_back_edges cfg = Some ids" and "forward_ready cfg (set ids)"
    and "forward_reach_at_header True cfg header [] = Returns f"
    and "skeleton_run cfg (set ids) s0 header s" and "header \<in> set (node_ids cfg)"
  shows "eval_formula s f"
  by (rule header_reach_covers [OF assms])

end
