(* ===== verification/Loops_Backward.thy ===== *)
theory Loops_Backward
  imports Loops_Correct Runs
begin

text \<open>
  The backward pass through a loop body: the states it computes solve the equations of the edges
  inside the body, which bounds the runs through the body from above, and from below when the
  guards of the branches exclude each other.
\<close>

section \<open>Through one edge\<close>

definition edge_precondition :: "abstract_cfg \<Rightarrow> pass_config \<Rightarrow> abstract_edge \<Rightarrow> formula \<Rightarrow> formula" where
  "edge_precondition cfg c e f = (case bt_get (cfg_nodes cfg) (edge_source e) of
     None \<Rightarrow> FFalse
   | Some n \<Rightarrow>
       let post = f_and (if ignore_guards c then FTrue else edge_guard e) (wp (edge_transfer e) f) in
       if assume_inductive c then wp_inductive (node_transfer n) post else wp (node_transfer n) post)"

text \<open>The edges that the pass follows.\<close>

definition inside :: "abstract_cfg \<Rightarrow> pass_config \<Rightarrow> abstract_edge set" where
  "inside cfg c = {e \<in> set (kept_edges (excluded c) cfg).
     (\<forall>body. restricted c = Some body \<longrightarrow> edge_source e \<in> body \<and> edge_target e \<in> body) \<and>
     edge_source e \<notin> summarized c \<and> edge_target e \<notin> summarized c}"

abbreviation state_of :: "reach_map \<Rightarrow> cfg_node_id \<Rightarrow> formula" where
  "state_of st n \<equiv> get_or st n FFalse"

lemma get_or_bt_insert: "get_or (bt_insert k v m) j d = (if j = k then v else get_or m j d)"
  by (simp add: get_or_def bt_get_insert)

lemma pull_edge_eq:
  assumes "cfg_wf cfg" "e \<in> set (all_edges cfg)"
  shows "pull_edge cfg c (edge_id e) st = Some (if e \<in> inside cfg c
     then bt_insert (edge_source e) (f_or (state_of st (edge_source e)) (edge_precondition cfg c e (state_of st (edge_target e)))) st
     else st)"
proof -
  have get: "cfg_edge cfg (edge_id e) = Inr e" by (rule edge_lookup [OF assms])
  obtain nd where nd: "cfg_node cfg (edge_source e) = Inr nd"
    using all_edges_nodes [OF assms] node_ids_get [of "edge_source e" cfg] by auto
  then have nd': "bt_get (cfg_nodes cfg) (edge_source e) = Some nd" by simp
  have kept: "e \<in> set (kept_edges (excluded c) cfg) \<longleftrightarrow> edge_id e \<notin> excluded c"
    using assms(2) by (auto simp: kept_edges_def)
  show ?thesis
    unfolding pull_edge_def get
    by (auto simp: nd inside_def kept edge_precondition_def nd' Let_def simp del: cfg_edge_Inr cfg_node_Inr split: option.splits)
qed

lemma pull_edges:
  assumes "cfg_wf cfg" "\<And>e. e \<in> set (kept_edges (excluded c) cfg) \<Longrightarrow> edge_source e \<noteq> edge_target e"
    and "set is \<subseteq> set (incoming_edges cfg m)"
  shows "\<exists>st'. opt_fold (pull_edge cfg c) is st = Some st' \<and>
    (\<forall>s n. eval_formula s (state_of st' n) \<longleftrightarrow> eval_formula s (state_of st n) \<or>
       (\<exists>e \<in> inside cfg c. edge_id e \<in> set is \<and> edge_source e = n \<and>
          eval_formula s (edge_precondition cfg c e (state_of st m)))) \<and>
    (\<forall>n. (\<forall>e \<in> inside cfg c. edge_id e \<in> set is \<longrightarrow> edge_source e \<noteq> n) \<longrightarrow> state_of st' n = state_of st n) \<and>
    (\<forall>B. (\<forall>n. wp_good B (state_of st n)) \<longrightarrow>
       (\<forall>e \<in> inside cfg c. \<forall>f. wp_good B f \<longrightarrow> wp_good B (edge_precondition cfg c e f)) \<longrightarrow>
       (\<forall>n. wp_good B (state_of st' n)))"
  using assms(3)
proof (induction "is" arbitrary: st)
  case (Cons i "is")
  obtain e where e: "e \<in> set (all_edges cfg)" "edge_id e = i" "edge_target e = m"
    using Cons.prems incoming_edges_iff [OF assms(1)] all_edges_iff [OF assms(1)] wf_edge(1) [OF assms(1)]
    by (metis list.set_intros(1) subsetD)
  let ?st = "if e \<in> inside cfg c
     then bt_insert (edge_source e) (f_or (state_of st (edge_source e)) (edge_precondition cfg c e (state_of st m))) st
     else st"
  have one: "pull_edge cfg c i st = Some ?st" using pull_edge_eq [OF assms(1) e(1), of c st] e(2,3) by simp
  have irr: "e \<in> inside cfg c \<Longrightarrow> edge_source e \<noteq> m" using assms(2) e(3) by (auto simp: inside_def)
  have m: "state_of ?st m = state_of st m"
    by (cases "e \<in> inside cfg c") (use irr in \<open>auto simp: get_or_bt_insert\<close>)
  have uniq: "e' = e" if "e' \<in> inside cfg c" "edge_id e' = i" for e'
    using that e edge_id_inj [OF assms(1)] by (auto simp: inside_def kept_edges_def)
  have ev: "eval_formula s (state_of ?st n) \<longleftrightarrow> eval_formula s (state_of st n) \<or>
      (e \<in> inside cfg c \<and> edge_source e = n \<and> eval_formula s (edge_precondition cfg c e (state_of st m)))" for s n
    by (auto simp: get_or_bt_insert)
  have good: "wp_good B (state_of ?st n)"
    if "\<forall>n. wp_good B (state_of st n)" "\<forall>e \<in> inside cfg c. \<forall>f. wp_good B f \<longrightarrow> wp_good B (edge_precondition cfg c e f)" for B n
    using that by (auto simp: get_or_bt_insert intro: wp_good_connectives)
  have "set is \<subseteq> set (incoming_edges cfg m)" using Cons.prems by simp
  from Cons.IH [OF this, of ?st] obtain st' where st': "opt_fold (pull_edge cfg c) is ?st = Some st'"
    "\<And>s n. eval_formula s (state_of st' n) \<longleftrightarrow> eval_formula s (state_of ?st n) \<or>
       (\<exists>e \<in> inside cfg c. edge_id e \<in> set is \<and> edge_source e = n \<and>
          eval_formula s (edge_precondition cfg c e (state_of st m)))"
    "\<And>n. (\<forall>e \<in> inside cfg c. edge_id e \<in> set is \<longrightarrow> edge_source e \<noteq> n) \<Longrightarrow> state_of st' n = state_of ?st n"
    "\<And>B n. (\<forall>n. wp_good B (state_of ?st n)) \<Longrightarrow>
       (\<forall>e \<in> inside cfg c. \<forall>f. wp_good B f \<longrightarrow> wp_good B (edge_precondition cfg c e f)) \<Longrightarrow> wp_good B (state_of st' n)"
    unfolding m by blast
  show ?case
  proof (intro exI [of _ st'] conjI allI impI)
    show "opt_fold (pull_edge cfg c) (i # is) st = Some st'" using one st'(1) by simp
    show "eval_formula s (state_of st' n) \<longleftrightarrow> eval_formula s (state_of st n) \<or>
       (\<exists>e \<in> inside cfg c. edge_id e \<in> set (i # is) \<and> edge_source e = n \<and>
          eval_formula s (edge_precondition cfg c e (state_of st m)))" for s n
      unfolding st'(2) ev using uniq e(2) by auto
    show "state_of st' n = state_of st n"
      if "\<forall>e \<in> inside cfg c. edge_id e \<in> set (i # is) \<longrightarrow> edge_source e \<noteq> n" for n
      using st'(3) [of n] that e(2) by (auto simp: get_or_bt_insert)
    show "wp_good B (state_of st' n)" if "\<forall>n. wp_good B (state_of st n)"
      "\<forall>e \<in> inside cfg c. \<forall>f. wp_good B f \<longrightarrow> wp_good B (edge_precondition cfg c e f)" for B n
      using st'(4) good that by blast
  qed
qed simp

section \<open>The equations\<close>

text \<open>The state of a node: its seed, or what an edge to a node of \<open>D\<close> asks for.\<close>

definition solves ::
  "abstract_cfg \<Rightarrow> pass_config \<Rightarrow> reach_map \<Rightarrow> cfg_node_id set \<Rightarrow> reach_map \<Rightarrow> bool" where
  "solves cfg c seeds D st \<longleftrightarrow> (\<forall>s n. eval_formula s (state_of st n) \<longleftrightarrow> eval_formula s (state_of seeds n) \<or>
     (\<exists>e \<in> inside cfg c. edge_source e = n \<and> edge_target e \<in> D \<and>
        eval_formula s (edge_precondition cfg c e (state_of st (edge_target e)))))"

definition keeps_good :: "abstract_cfg \<Rightarrow> pass_config \<Rightarrow> var set \<Rightarrow> bool" where
  "keeps_good cfg c B \<longleftrightarrow> (\<forall>e \<in> inside cfg c. \<forall>f. wp_good B f \<longrightarrow> wp_good B (edge_precondition cfg c e f))"

lemma pull_node_step:
  assumes wf: "cfg_wf cfg" and irr: "\<And>e. e \<in> set (kept_edges (excluded c) cfg) \<Longrightarrow> edge_source e \<noteq> edge_target e"
    and m: "m \<notin> D" "\<And>e. e \<in> set (kept_edges (excluded c) cfg) \<Longrightarrow> edge_target e = m \<Longrightarrow> edge_source e \<notin> D"
    and pre: "solves cfg c seeds D st" "\<And>n. wp_good B (state_of st n)" "keeps_good cfg c B"
  shows "\<exists>st'. pull_node cfg c m st = Some st' \<and> solves cfg c seeds (insert m D) st' \<and> (\<forall>n. wp_good B (state_of st' n))"
proof (cases "m \<in> summarized c")
  case True
  then have "\<not> (e \<in> inside cfg c \<and> edge_target e = m)" for e by (auto simp: inside_def)
  then have "solves cfg c seeds (insert m D) st" using pre(1) by (auto simp: solves_def)
  with True pre(2) show ?thesis by (simp add: pull_node_def)
next
  case False
  have in_m: "edge_id e \<in> set (incoming_edges cfg m) \<longleftrightarrow> edge_target e = m" if "e \<in> inside cfg c" for e
    using that incoming_edges_iff [OF wf] all_edges_iff [OF wf] by (auto simp: inside_def kept_edges_def)
  obtain st' where st': "opt_fold (pull_edge cfg c) (incoming_edges cfg m) st = Some st'"
    and ev: "\<And>s n. eval_formula s (state_of st' n) \<longleftrightarrow> eval_formula s (state_of st n) \<or>
       (\<exists>e \<in> inside cfg c. edge_id e \<in> set (incoming_edges cfg m) \<and> edge_source e = n \<and>
          eval_formula s (edge_precondition cfg c e (state_of st m)))"
    and same: "\<And>n. (\<forall>e \<in> inside cfg c. edge_id e \<in> set (incoming_edges cfg m) \<longrightarrow> edge_source e \<noteq> n)
       \<Longrightarrow> state_of st' n = state_of st n"
    and good: "\<And>n. wp_good B (state_of st' n)"
    using pull_edges [OF wf irr order_refl, of c m st] pre(2,3) unfolding keeps_good_def by blast
  have fixed: "state_of st' n = state_of st n" if "n \<in> insert m D" for n
    using that m irr in_m by (intro same) (auto simp: inside_def)
  have "eval_formula s (state_of st' n) \<longleftrightarrow> eval_formula s (state_of seeds n) \<or>
     (\<exists>e \<in> inside cfg c. edge_source e = n \<and> edge_target e \<in> insert m D \<and>
        eval_formula s (edge_precondition cfg c e (state_of st' (edge_target e))))" for s n
  proof -
    have old: "eval_formula s (state_of st n) \<longleftrightarrow> eval_formula s (state_of seeds n) \<or>
      (\<exists>e \<in> inside cfg c. edge_source e = n \<and> edge_target e \<in> D \<and>
        eval_formula s (edge_precondition cfg c e (state_of st (edge_target e))))"
      using pre(1) by (simp add: solves_def)
    have "(\<exists>e \<in> inside cfg c. edge_source e = n \<and> edge_target e \<in> insert m D \<and>
        eval_formula s (edge_precondition cfg c e (state_of st' (edge_target e)))) \<longleftrightarrow>
      (\<exists>e \<in> inside cfg c. edge_source e = n \<and> edge_target e \<in> insert m D \<and>
        eval_formula s (edge_precondition cfg c e (state_of st (edge_target e))))"
      by (rule bex_cong [OF refl]) (auto simp: fixed)
    then show ?thesis unfolding ev old using in_m by auto
  qed
  with st' good False show ?thesis by (auto simp: pull_node_def solves_def)
qed

lemma pull_nodes:
  assumes wf: "cfg_wf cfg" and irr: "\<And>e. e \<in> set (kept_edges (excluded c) cfg) \<Longrightarrow> edge_source e \<noteq> edge_target e"
    and "distinct ns" "set ns \<inter> D = {}"
    and "\<And>i e. i < length ns \<Longrightarrow> e \<in> set (kept_edges (excluded c) cfg) \<Longrightarrow> edge_target e = ns ! i \<Longrightarrow>
      edge_source e \<notin> D \<union> set (take i ns)"
    and "solves cfg c seeds D st" "\<And>n. wp_good B (state_of st n)" "keeps_good cfg c B"
  shows "\<exists>st'. opt_fold (pull_node cfg c) ns st = Some st' \<and> solves cfg c seeds (D \<union> set ns) st' \<and>
    (\<forall>n. wp_good B (state_of st' n))"
  using assms(3-7)
proof (induction ns arbitrary: st D)
  case (Cons m ns)
  have "edge_source e \<notin> D" if "e \<in> set (kept_edges (excluded c) cfg)" "edge_target e = m" for e
    using Cons.prems(3) [of 0 e] that by simp
  then obtain u where u: "pull_node cfg c m st = Some u" "solves cfg c seeds (insert m D) u" "\<And>n. wp_good B (state_of u n)"
    using pull_node_step [OF wf irr _ _ Cons.prems(4,5) assms(8), of m] Cons.prems(2) by auto
  have "\<exists>st'. opt_fold (pull_node cfg c) ns u = Some st' \<and> solves cfg c seeds (insert m D \<union> set ns) st' \<and>
    (\<forall>n. wp_good B (state_of st' n))"
  proof (rule Cons.IH)
    show "distinct ns" "set ns \<inter> insert m D = {}" using Cons.prems(1,2) by auto
    show "edge_source e \<notin> insert m D \<union> set (take i ns)"
      if "i < length ns" "e \<in> set (kept_edges (excluded c) cfg)" "edge_target e = ns ! i" for i e
      using Cons.prems(3) [of "Suc i" e] that by simp
    show "solves cfg c seeds (insert m D) u" "\<And>n. wp_good B (state_of u n)" by (fact u)+
  qed
  with u(1) show ?case by simp
qed simp

lemma topological_rev:
  assumes "topological ids es order" "i < length order" "e \<in> set es" "edge_target e = rev order ! i"
  shows "edge_source e \<notin> set (take i (rev order))"
proof -
  let ?j = "length order - Suc i"
  have j: "?j < length order" "edge_target e = order ! ?j" using assms(2,4) by (simp_all add: rev_nth)
  then have "edge_source e \<in> set (take ?j order)" using assms(1,3) by (auto simp: topological_def in_order_def)
  moreover have "take i (rev order) = rev (drop (Suc ?j) order)"
    using assms(2) by (simp add: take_rev Suc_diff_Suc)
  moreover have "set (take ?j order) \<inter> set (drop (Suc ?j) order) = {}"
    using assms(1) by (intro set_take_disj_set_drop_if_distinct) (simp_all add: topological_def)
  ultimately show ?thesis by auto
qed

section \<open>The pass\<close>

lemma seed_states_one:
  "state_of (seed_states cfg [(n, f)] []) m = (if m = n then f_or FFalse f else FFalse)"
proof -
  have "get_or (foldl (\<lambda>m i. bt_insert i FFalse m) ([] :: reach_map) ks) j FFalse = FFalse" for ks j
    using bt.get_fill [of "\<lambda>_. FFalse" "[]" ks j] by (simp add: get_or_def bt_get_def)
  then show ?thesis by (simp add: seed_states_def bt_update_def get_or_bt_insert)
qed

definition body_pass :: "cfg_edge_id set \<Rightarrow> cfg_node_id set \<Rightarrow> bool \<Rightarrow> bool \<Rightarrow> pass_config" where
  "body_pass ex body ignore ind = \<lparr>excluded = ex, restricted = Some body, ignore_guards = ignore,
     assume_inductive = ind, summarized = {}\<rparr>"

lemma inside_body_pass [simp]:
  "inside cfg (body_pass ex body ign ind) = {e \<in> set (kept_edges ex cfg). edge_source e \<in> body \<and> edge_target e \<in> body}"
  by (auto simp: inside_def body_pass_def)

text \<open>The result of the pass from one seed, without inner invariants.\<close>

lemma backward_states_solve:
  assumes wf: "cfg_wf cfg" and "acyclic (flow (kept_edges ex cfg))" and good: "wp_good B f" "keeps_good cfg (body_pass ex body ign ind) B"
  shows "\<exists>st. backward_states cfg [(n, f)] ex (Some body) ign [] ind = Returns (Some st) \<and>
    (\<forall>m. wp_good B (state_of st m)) \<and>
    (\<forall>s m. eval_formula s (state_of st m) \<longleftrightarrow> m = n \<and> eval_formula s f \<or>
       (\<exists>e \<in> set (kept_edges ex cfg). edge_source e = m \<and> m \<in> body \<and> edge_target e \<in> body \<and>
          eval_formula s (edge_precondition cfg (body_pass ex body ign ind) e (state_of st (edge_target e)))))"
proof -
  let ?c = "body_pass ex body ign ind" and ?seeds = "seed_states cfg [(n, f)] []"
  obtain order where order: "topological_order_excluding ex cfg = Returns (Some order)"
    and top: "topological (node_ids cfg) (kept_edges ex cfg) order"
    using order_cases [OF wf, of ex] assms(2) by blast
  obtain loops where loops: "detect_loops cfg = Returns loops" using loops_of_back_edges [OF wf] by blast
  have irr: "edge_source e \<noteq> edge_target e" if "e \<in> set (kept_edges (excluded ?c) cfg)" for e
    using assms(2) that by (auto simp: acyclic_def flow_def body_pass_def)
  have "wp_good B (state_of ?seeds m)" for m
    using good(1) by (simp add: seed_states_one wp_good_connectives)
  moreover have "solves cfg ?c ?seeds {} ?seeds" by (simp add: solves_def)
  moreover have "distinct (rev order)" "set (rev order) \<inter> {} = {}" using top by (simp_all add: topological_def)
  moreover have "edge_source e \<notin> {} \<union> set (take i (rev order))"
    if "i < length (rev order)" "e \<in> set (kept_edges (excluded ?c) cfg)" "edge_target e = rev order ! i" for i e
    using topological_rev [OF top, of i e] that by (simp add: body_pass_def)
  ultimately obtain st where st: "opt_fold (pull_node cfg ?c) (rev order) ?seeds = Some st"
    and eq: "solves cfg ?c ?seeds ({} \<union> set (rev order)) st" and g: "\<forall>m. wp_good B (state_of st m)"
    using pull_nodes [where c = ?c and ns = "rev order" and D = "{}" and seeds = ?seeds and st = ?seeds and B = B, OF wf irr]
      good(2) by blast
  have "edge_target e \<in> set order" if "e \<in> set (kept_edges ex cfg)" for e
    using top wf_kept(2) [OF wf, of ex] that by (auto simp: topological_def)
  then have "eval_formula s (state_of st m) \<longleftrightarrow> m = n \<and> eval_formula s f \<or>
       (\<exists>e \<in> set (kept_edges ex cfg). edge_source e = m \<and> m \<in> body \<and> edge_target e \<in> body \<and>
          eval_formula s (edge_precondition cfg ?c e (state_of st (edge_target e))))" for s m
    using eq [unfolded solves_def, rule_format, of s m] by (auto simp: seed_states_one)
  moreover have "backward_states cfg [(n, f)] ex (Some body) ign [] ind = Returns (Some st)"
    using st by (simp add: backward_states_def order summarize_inner_loops_def loops body_pass_def)
  ultimately show ?thesis using g by blast
qed

end
