(* ===== verification/Loops_Sound.thy ===== *)
theory Loops_Sound
  imports Loops_Pass Loops_Backward
begin

text \<open>
  What an accepted candidate promises: on a graph with one loop, it holds whenever a run enters the
  header, and no run leaves the loop into a state that an assertion postcondition rules out.
\<close>

section \<open>The exact reading of \<open>wp\<close>\<close>

lemma wp_one_box:
  assumes "wp_ok B e" "\<not> havocs e" "wp_good B f" "effect_step s e t" "eval_formula s (wp_one e f)"
  shows "eval_formula t f"
proof (cases "\<exists>c. e = Assume c")
  case True
  then show ?thesis using assms(4,5) by (auto simp: effect_step_simps)
next
  case False
  then show ?thesis using wp_one_inductive_box [OF assms(1-4)] assms(5) by (simp add: wp_one_inductive_other)
qed

interpretation wp_box: box_transformer effect_step wp_one eval_formula
  "\<lambda>e. wp_ok B e \<and> \<not> havocs e" "wp_good B" for B
  by unfold_locales (auto intro: wp_good_wp_one wp_one_box)

definition remembers :: "transfer_fn \<Rightarrow> bool" where
  "remembers f \<longleftrightarrow> list_all (\<lambda>e. \<not> havocs e) (effects f)"

lemma wp_establishes:
  assumes "transfer_ok B f" "remembers f" "wp_good B post" "transfer_runs s f t" "eval_formula s (wp f post)"
  shows "eval_formula t post"
  using assms wp_box.pull_box [of B "effects f" post s t]
  by (auto simp: wp_box.pull_def wp_def transfer_ok_def remembers_def list_all_iff)

lemma wp_inductive_good: "transfer_ok B f \<Longrightarrow> remembers f \<Longrightarrow> wp_good B post \<Longrightarrow> wp_good B (wp_inductive f post)"
  using box.pull_good [of B "effects f" post]
  by (auto simp: wp_inductive_pull transfer_ok_def remembers_def list_all_iff)

section \<open>Steps inside a loop body\<close>

definition remembering :: "abstract_cfg \<Rightarrow> cfg_node_id set \<Rightarrow> bool" where
  "remembering cfg body \<longleftrightarrow> (\<forall>e \<in> set (all_edges cfg). edge_source e \<in> body \<longrightarrow> edge_target e \<in> body \<longrightarrow>
     remembers (edge_transfer e) \<and> (\<forall>n. bt_get (cfg_nodes cfg) (edge_source e) = Some n \<longrightarrow> remembers (node_transfer n)))"

text \<open>No state passes the guards of two edges that leave the same node and stay in the body.\<close>

definition exclusive :: "abstract_cfg \<Rightarrow> cfg_node_id set \<Rightarrow> bool" where
  "exclusive cfg body \<longleftrightarrow> (\<forall>e \<in> set (all_edges cfg). \<forall>e' \<in> set (all_edges cfg).
     edge_source e = edge_source e' \<longrightarrow> edge_source e \<in> body \<longrightarrow> edge_target e \<in> body \<longrightarrow> edge_target e' \<in> body \<longrightarrow>
     (\<exists>u. eval_formula u (edge_guard e) \<and> eval_formula u (edge_guard e')) \<longrightarrow> e = e')"

definition body_step ::
  "abstract_cfg \<Rightarrow> cfg_edge_id set \<Rightarrow> cfg_node_id set \<Rightarrow> cfg_node_id \<times> valuation \<Rightarrow> cfg_node_id \<times> valuation \<Rightarrow> bool" where
  "body_step cfg ex body = (\<lambda>(n, s) (m, t). \<exists>e \<in> set (kept_edges ex cfg). edge_source e = n \<and> edge_target e = m \<and>
     n \<in> body \<and> m \<in> body \<and> edge_step cfg e s t)"

lemma precondition_edge_pre:
  "\<not> assume_inductive c \<Longrightarrow> edge_precondition cfg c e f = edge_pre cfg
     (if ignore_guards c then e\<lparr>edge_guard := FTrue\<rparr> else e) f"
  by (simp add: edge_precondition_def edge_pre_def edge_transfer_def split: option.split)

lemma precondition_covers:
  assumes "analysable cfg site" "e \<in> set (all_edges cfg)" "wp_good (assigned cfg) f" "\<not> assume_inductive c"
    and "edge_step cfg e s t" "eval_formula t f"
  shows "eval_formula s (edge_precondition cfg c e f)"
proof -
  obtain n u where n: "bt_get (cfg_nodes cfg) (edge_source e) = Some n"
    "transfer_runs s (node_transfer n) u" "eval_formula u (edge_guard e)" "transfer_runs u (edge_transfer e) t"
    using assms(5) by (auto simp: edge_step_def)
  note ok = edge_ok(1,2) [OF assms(1,2)] edge_ok(3) [OF assms(1,2) n(1)]
  let ?post = "f_and (if ignore_guards c then FTrue else edge_guard e) (wp (edge_transfer e) f)"
  have "eval_formula u (wp (edge_transfer e) f)" by (rule wp_covers [OF ok(1) assms(3) n(4) assms(6)])
  then have "eval_formula u ?post" using n(3) by simp
  moreover have "wp_good (assigned cfg) ?post" using ok assms(3) by (auto intro!: wp_good_connectives wp_good_wp)
  ultimately show ?thesis using n(1) assms(4) wp_covers [OF ok(3) _ n(2)] by (simp add: edge_precondition_def)
qed

lemma precondition_good:
  assumes "analysable cfg site" "e \<in> set (all_edges cfg)" "wp_good (assigned cfg) f"
    and "assume_inductive c \<Longrightarrow> \<forall>n. bt_get (cfg_nodes cfg) (edge_source e) = Some n \<longrightarrow> remembers (node_transfer n)"
  shows "wp_good (assigned cfg) (edge_precondition cfg c e f)"
  using edge_ok [OF assms(1,2)] assms(3,4)
  by (auto simp: edge_precondition_def Let_def split: option.split
      intro!: wp_good_wp wp_inductive_good wp_good_connectives)

text \<open>The inductive precondition decides: the run that takes the edge ends in its postcondition.\<close>

lemma precondition_establishes:
  assumes "analysable cfg site" "e \<in> set (all_edges cfg)" "wp_good (assigned cfg) f" "\<not> ignore_guards c"
    and "remembers (edge_transfer e)"
    and nd: "bt_get (cfg_nodes cfg) (edge_source e) = Some n" "remembers (node_transfer n)"
    and run: "transfer_runs s (node_transfer n) u" and pre: "eval_formula s (edge_precondition cfg c e f)"
  shows "eval_formula u (edge_guard e) \<and> (\<forall>t. steps effect_step u (edge_effects e) t \<longrightarrow> eval_formula t f)"
proof -
  note ok = edge_ok(1,2) [OF assms(1,2)] edge_ok(3) [OF assms(1,2) nd(1)]
  let ?post = "f_and (edge_guard e) (wp (edge_transfer e) f)"
  have good: "wp_good (assigned cfg) ?post" using ok assms(3) by (intro wp_good_connectives wp_good_wp)
  have post: "eval_formula u ?post"
  proof (cases "assume_inductive c")
    case True
    then have "eval_formula s (wp_inductive (node_transfer n) ?post)"
      using pre nd(1) assms(4) by (simp add: edge_precondition_def)
    then show ?thesis using wp_inductive_establishes [OF ok(3) _ good run] nd(2) by (simp add: remembers_def)
  next
    case False
    then have "eval_formula s (wp (node_transfer n) ?post)"
      using pre nd(1) assms(4) by (simp add: edge_precondition_def)
    then show ?thesis by (rule wp_establishes [OF ok(3) nd(2) good run])
  qed
  then show ?thesis using wp_establishes [OF ok(1) assms(5,3)] by simp
qed

section \<open>What the three checks give\<close>

lemma first_failure_None:
  "first_failure f xs = Returns None \<longleftrightarrow> (\<forall>x \<in> set xs. f x = Returns None)"
  by (induction xs) (auto simp: obind_eq_Returns split: option.splits)

lemma checks_never_accept:
  "check_initiation oc info cfg c z inner \<noteq> Returns (Some Accepted)"
  "check_inductiveness info cfg c z inner ex \<noteq> Returns (Some Accepted)"
  "check_exit info cfg c z posts inner ex x \<noteq> Returns (Some Accepted)"
  unfolding check_initiation_def check_inductiveness_def check_exit_def
  by (rule notI, auto simp: obind_eq_Returns Let_def
      split: if_splits sum.splits option.splits feasibility.splits validity.splits prod.splits)+

lemma accepted_checks:
  assumes "check_loop_invariant_verbose oc info cfg candidate z posts inner = Returns Accepted"
    and "detect_back_edges cfg = Some ids" and "c = normalize_candidate cfg (loop_header info) candidate"
  shows "check_initiation oc info cfg c z inner = Returns None"
    and "check_inductiveness info cfg c z inner (set ids) = Returns None"
    and "x \<in> set (exit_edges info) \<Longrightarrow> check_exit info cfg c z posts inner (set ids) x = Returns None"
proof -
  let ?steps = "[check_initiation oc info cfg c z inner, check_inductiveness info cfg c z inner (set ids)]
    @ map (check_exit info cfg c z posts inner (set ids)) (exit_edges info)"
  have "obind (first_failure (\<lambda>step. step) ?steps) (\<lambda>r. Returns (case r of None \<Rightarrow> Accepted | Some failure \<Rightarrow> failure))
      = Returns Accepted"
    using assms(1) unfolding check_loop_invariant_verbose_def assms(2) Let_def assms(3) by (simp only: option.case)
  then obtain r where r: "first_failure (\<lambda>step. step) ?steps = Returns r" "r = None \<or> r = Some Accepted"
    unfolding obind_eq_Returns by (metis option.exhaust option.simps(5) outcome.inject)
  have never: "step \<noteq> Returns (Some Accepted)" if "step \<in> set ?steps" for step
    using that by (auto simp: checks_never_accept checks_never_accept [symmetric])
  have "first_failure (\<lambda>step. step) xs \<noteq> Returns (Some Accepted)" if "set xs \<subseteq> set ?steps" for xs
    using that never by (induction xs) (auto simp: obind_eq_Returns split: option.splits)
  then have "first_failure (\<lambda>step. step) ?steps \<noteq> Returns (Some Accepted)" by blast
  with r have "first_failure (\<lambda>step. step) ?steps = Returns None" by auto
  then show "check_initiation oc info cfg c z inner = Returns None"
    and "check_inductiveness info cfg c z inner (set ids) = Returns None"
    and "x \<in> set (exit_edges info) \<Longrightarrow> check_exit info cfg c z posts inner (set ids) x = Returns None"
    unfolding first_failure_None by auto
qed

lemma initiation_holds:
  assumes "check_initiation True info cfg c z [] = Returns None" and "sound_solver z"
    and "cfg_wf cfg" "detect_back_edges cfg = Some ids" "forward_ready cfg (set ids)" "analysable cfg site"
    and "loop_header info \<in> set (node_ids cfg)" and "skeleton_run cfg (set ids) s0 (loop_header info) s"
  shows "eval_formula s c"
proof -
  obtain reach_h report where reach: "forward_reach_at_header True cfg (loop_header info) [] = Returns reach_h"
    and r: "feasibility_with_model z (f_and reach_h (f_not c)) = Inr report" "report_feasibility report = Infeasible"
    using assms(1) by (auto simp: check_initiation_def obind_eq_Returns split: if_splits sum.splits feasibility.splits)
  have "admissible s" using cfg_run_admissible [OF skeleton_cfg_run [OF assms(8)] assms(6)] .
  then have "\<not> eval_formula s (f_and reach_h (f_not c))"
    using report_sound(1) [OF assms(2) r] by blast
  moreover have "eval_formula s reach_h" by (rule header_reach_covers [OF assms(3-5) reach assms(8,7)])
  ultimately show ?thesis by simp
qed

section \<open>Through the body\<close>

lemma requirement_edge_pre:
  assumes "cfg_wf cfg" "e \<in> set (all_edges cfg)"
  shows "edge_source_requirement cfg (edge_id e) f = Some (edge_pre cfg e f)"
proof -
  obtain nd where nd: "cfg_node cfg (edge_source e) = Inr nd"
    using all_edges_nodes [OF assms] node_ids_get [of "edge_source e" cfg] by auto
  then have "bt_get (cfg_nodes cfg) (edge_source e) = Some nd" by simp
  then show ?thesis
    unfolding edge_source_requirement_def edge_lookup [OF assms] by (simp add: nd edge_pre_def del: cfg_node_Inr)
qed

lemma body_keeps_good:
  assumes "analysable cfg site" "ind \<Longrightarrow> remembering cfg body"
  shows "keeps_good cfg (body_pass ex body ign ind) (assigned cfg)"
  unfolding keeps_good_def inside_body_pass
  using assms by (auto intro!: precondition_good dest: kept_all simp: remembering_def body_pass_def)

text \<open>What covers the end of a run through the body covers its start.\<close>

lemma body_covers:
  assumes "analysable cfg site" and "\<not> assume_inductive c"
    and st: "\<And>m. wp_good (assigned cfg) (state_of st m)"
    and pull: "\<And>e s. e \<in> set (kept_edges ex cfg) \<Longrightarrow> edge_source e \<in> body \<Longrightarrow> edge_target e \<in> body \<Longrightarrow>
      eval_formula s (edge_precondition cfg c e (state_of st (edge_target e))) \<Longrightarrow> eval_formula s (state_of st (edge_source e))"
    and "(body_step cfg ex body)\<^sup>*\<^sup>* x y" "eval_formula (snd y) (state_of st (fst y))"
  shows "eval_formula (snd x) (state_of st (fst x))"
  using assms(5,6)
proof (induction rule: converse_rtranclp_induct)
  case (step x1 x2)
  then obtain e where e: "e \<in> set (kept_edges ex cfg)" "edge_source e = fst x1" "edge_target e = fst x2"
    "fst x1 \<in> body" "fst x2 \<in> body" "edge_step cfg e (snd x1) (snd x2)"
    by (auto simp: body_step_def)
  have "eval_formula (snd x1) (edge_precondition cfg c e (state_of st (fst x2)))"
    using step.IH [OF step.prems] by (rule precondition_covers [OF assms(1) kept_all [OF e(1)] st assms(2) e(6)])
  then show ?case using pull [OF e(1)] e by simp
qed simp

text \<open>
  A run from the header that satisfies the inductive condition follows the edges the pass has
  chosen, up to the back edge.
\<close>

lemma inductive_step:
  assumes an: "analysable cfg site" and rem: "remembering cfg body" and excl: "exclusive cfg body"
    and b: "b \<in> set (all_edges cfg)" "edge_id b \<in> ex" "edge_source b \<in> body" "edge_target b \<in> body"
    and "cfg_wf cfg" and c: "wp_good (assigned cfg) c"
    and good: "\<forall>m. wp_good (assigned cfg) (state_of st m)"
    and st: "\<forall>s m. eval_formula s (state_of st m) \<longleftrightarrow> m = edge_source b \<and> eval_formula s (edge_pre cfg b c) \<or>
       (\<exists>e \<in> set (kept_edges ex cfg). edge_source e = m \<and> m \<in> body \<and> edge_target e \<in> body \<and>
          eval_formula s (edge_precondition cfg (body_pass ex body False True) e (state_of st (edge_target e))))"
    and e: "e \<in> set (all_edges cfg)" "edge_source e \<in> body" "edge_target e \<in> body" "edge_step cfg e s t"
    and s: "eval_formula s (state_of st (edge_source e))"
  shows "if e = b then eval_formula t c else edge_id e \<notin> ex \<longrightarrow> eval_formula t (state_of st (edge_target e))"
proof -
  obtain n u where n: "bt_get (cfg_nodes cfg) (edge_source e) = Some n" "transfer_runs s (node_transfer n) u"
    "eval_formula u (edge_guard e)" "steps effect_step u (edge_effects e) t"
    using e(4) by (auto simp: edge_step_def)
  have same: "e' = e" if "e' \<in> set (all_edges cfg)" "edge_source e' = edge_source e" "edge_target e' \<in> body"
    "eval_formula u (edge_guard e')" for e'
    using excl that e(1-3) n(3) unfolding exclusive_def by metis
  have through: "e' = e \<and> eval_formula t f"
    if "e' \<in> set (all_edges cfg)" "edge_source e' = edge_source e" "edge_target e' \<in> body"
      "\<not> ignore_guards k" "wp_good (assigned cfg) f" "eval_formula s (edge_precondition cfg k e' f)" for e' k f
  proof -
    have r: "remembers (edge_transfer e')" "remembers (node_transfer n)"
      using rem that(1-3) e(2) n(1) unfolding remembering_def by auto
    have "eval_formula u (edge_guard e') \<and> (\<forall>t. steps effect_step u (edge_effects e') t \<longrightarrow> eval_formula t f)"
      by (rule precondition_establishes [OF an that(1,5,4) r(1) _ r(2) n(2) that(6)]) (simp add: n(1) that(2))
    then show ?thesis using same [OF that(1-3)] n(4) by blast
  qed
  from s st have "edge_source e = edge_source b \<and> eval_formula s (edge_pre cfg b c) \<or>
       (\<exists>e' \<in> set (kept_edges ex cfg). edge_source e' = edge_source e \<and> edge_source e \<in> body \<and> edge_target e' \<in> body \<and>
          eval_formula s (edge_precondition cfg (body_pass ex body False True) e' (state_of st (edge_target e'))))" by blast
  then show ?thesis
  proof (elim disjE conjE bexE)
    assume l: "edge_source e = edge_source b" and req: "eval_formula s (edge_pre cfg b c)"
    have pre: "edge_precondition cfg (body_pass ex body False False) b c = edge_pre cfg b c"
      by (simp add: precondition_edge_pre body_pass_def)
    have "b = e \<and> eval_formula t c"
      by (rule through [of b "body_pass ex body False False"]) (use b l c req pre in \<open>auto simp: body_pass_def\<close>)
    then show ?thesis by simp
  next
    fix e'
    assume e': "e' \<in> set (kept_edges ex cfg)" "edge_source e' = edge_source e" "edge_target e' \<in> body"
      "eval_formula s (edge_precondition cfg (body_pass ex body False True) e' (state_of st (edge_target e')))"
    have "e' = e \<and> eval_formula t (state_of st (edge_target e'))"
      by (rule through [OF kept_all [OF e'(1)] e'(2,3) _ good [rule_format] e'(4)]) (simp add: body_pass_def)
    moreover have "e' \<noteq> b" using e'(1) b(2) by (auto simp: kept_edges_def)
    ultimately show ?thesis by auto
  qed
qed

lemma backward_states_acyclic:
  "cfg_wf cfg \<Longrightarrow> backward_states cfg seeds ex body ign inner ind = Returns (Some st) \<Longrightarrow> acyclic (flow (kept_edges ex cfg))"
  using order_cases [of cfg ex] by (auto simp: backward_states_def obind_eq_Returns split: option.splits)

lemma implies_with_model_sound:
  assumes "sound_solver z" "implies_with_model z f g = Inr (Valid, m)" "admissible s" "eval_formula s f"
  shows "eval_formula s g"
proof -
  have "oracle_implies z f g = Inr Valid" using assms(2) by (simp add: oracle_implies_def)
  then obtain r where "feasibility_with_model z (f_and f (f_not g)) = Inr r" "report_feasibility r = Infeasible"
    unfolding oracle_implies_iff by (metis feasibility.exhaust feasibility.simps(7,8,9) validity.distinct)
  then have "\<not> eval_formula s (f_and f (f_not g))" using report_sound(1) [OF assms(1)] assms(3) by blast
  then show ?thesis using assms(4) by simp
qed

definition one_loop :: "abstract_cfg \<Rightarrow> abstract_edge \<Rightarrow> loop_info \<Rightarrow> bool" where
  "one_loop cfg b info \<longleftrightarrow> cfg_wf cfg \<and> b \<in> set (all_edges cfg) \<and> detect_back_edges cfg = Some [edge_id b] \<and>
     loop_of cfg (edge_id b) = Some info \<and> (cfg_entry cfg \<in> loop_nodes info \<longrightarrow> cfg_entry cfg = loop_header info)"

lemma one_loop_info:
  assumes "one_loop cfg b info"
  shows "cfg_wf cfg" "b \<in> set (all_edges cfg)" "detect_back_edges cfg = Some [edge_id b]"
    and "back_edge info = edge_id b" "loop_header info = edge_target b" "latch info = edge_source b"
    and "edge_source b \<in> loop_nodes info" "edge_target b \<in> loop_nodes info"
    and "set (exit_edges info) = {edge_id x | x. x \<in> set (all_edges cfg) \<and>
      edge_source x \<in> loop_nodes info \<and> edge_target x \<notin> loop_nodes info}"
    and "\<And>n m. n \<in> loop_nodes info \<Longrightarrow> n \<noteq> edge_target b \<Longrightarrow> (m, n) \<in> graph cfg \<Longrightarrow> m \<in> loop_nodes info"
    and "cfg_entry cfg \<in> loop_nodes info \<Longrightarrow> cfg_entry cfg = edge_target b"
proof -
  have b: "cfg_wf cfg" "b \<in> set (all_edges cfg)" using assms by (auto simp: one_loop_def)
  have nat: "natural_loop cfg b info" "loop_nodes info = loop_body cfg b"
    using loop_of_natural [OF b] assms by (auto simp: one_loop_def)
  show "back_edge info = edge_id b" "loop_header info = edge_target b" "latch info = edge_source b"
    "set (exit_edges info) = {edge_id x | x. x \<in> set (all_edges cfg) \<and>
      edge_source x \<in> loop_nodes info \<and> edge_target x \<notin> loop_nodes info}"
    using nat(1) by (auto simp: natural_loop_def)
  then show "cfg_entry cfg \<in> loop_nodes info \<Longrightarrow> cfg_entry cfg = edge_target b"
    using assms by (auto simp: one_loop_def)
  show "edge_source b \<in> loop_nodes info" "edge_target b \<in> loop_nodes info"
    "\<And>n m. n \<in> loop_nodes info \<Longrightarrow> n \<noteq> edge_target b \<Longrightarrow> (m, n) \<in> graph cfg \<Longrightarrow> m \<in> loop_nodes info"
    unfolding nat(2) by (rule loop_body_ends) (rule loop_body_ends, rule loop_body_closed)
qed (use assms in \<open>auto simp: one_loop_def\<close>)

lemma stops_unless_some:
  "obind x (\<lambda>y. case y of None \<Rightarrow> Returns (Some failure) | Some v \<Rightarrow> g v) = Returns None \<longleftrightarrow>
    (\<exists>v. x = Returns (Some v) \<and> g v = Returns None)"
  by (auto simp: obind_eq_Returns split: option.splits)

lemma goes_on: "obind x (\<lambda>y. Returns (h y)) = Returns r \<longleftrightarrow> (\<exists>y. x = Returns y \<and> h y = r)"
  by (auto simp: obind_eq_Returns)

lemma inductiveness_holds:
  assumes loop: "one_loop cfg b info" and chk: "check_inductiveness info cfg c z [] {edge_id b} = Returns None"
    and "sound_solver z" and an: "analysable cfg site" and rem: "remembering cfg (loop_nodes info)"
    and excl: "exclusive cfg (loop_nodes info)" and c: "wp_good (assigned cfg) c"
    and s1: "admissible s1" "eval_formula s1 c"
    and path: "(body_step cfg {edge_id b} (loop_nodes info))\<^sup>*\<^sup>* (edge_target b, s1) (edge_source b, s)"
    and last: "edge_step cfg b s t"
  shows "eval_formula t c"
proof -
  note info = one_loop_info [OF loop]
  let ?ex = "{edge_id b}" and ?body = "loop_nodes info"
  have req: "edge_source_requirement cfg (back_edge info) c = Some (edge_pre cfg b c)"
    using requirement_edge_pre [OF info(1,2)] info(4) by simp
  have goods: "wp_good (assigned cfg) (edge_pre cfg b c)" by (rule edge_pre_good [OF an info(2) c])
  have decided: "(case r of Inl x \<Rightarrow> Some (InductivenessFailed None) | Inr (v, m) \<Rightarrow> (case v of
      Valid \<Rightarrow> None | Invalid \<Rightarrow> Some (InductivenessFailed m) | ValidityUnknown \<Rightarrow> Some (InductivenessFailed None))) = None
      \<Longrightarrow> \<exists>m. r = Inr (Valid, m)" for r :: "formula_error + validity \<times> smt_model option"
    by (auto split: sum.splits prod.splits validity.splits)
  obtain st st2 v where st: "backward_states cfg [(edge_source b, edge_pre cfg b c)] ?ex (Some ?body) False [] True = Returns (Some st)"
    and st2: "backward_states cfg [(edge_source b, FTrue)] ?ex (Some ?body) False [] False = Returns st2"
    and v: "implies_with_model z (f_and c (case st2 of None \<Rightarrow> FTrue | Some u \<Rightarrow> get_or u (edge_target b) FTrue))
      (state_of st (edge_target b)) = Inr (Valid, v)"
    using chk unfolding check_inductiveness_def req option.case stops_unless_some Let_def goes_on info(5,6)
    by (blast dest: decided)
  have acyc: "acyclic (flow (kept_edges ?ex cfg))" by (rule backward_states_acyclic [OF info(1) st])
  obtain st' where "backward_states cfg [(edge_source b, edge_pre cfg b c)] ?ex (Some ?body) False [] True = Returns (Some st')"
    and good: "\<forall>m. wp_good (assigned cfg) (state_of st' m)"
    and ind: "\<forall>s m. eval_formula s (state_of st' m) \<longleftrightarrow> m = edge_source b \<and> eval_formula s (edge_pre cfg b c) \<or>
       (\<exists>e \<in> set (kept_edges ?ex cfg). edge_source e = m \<and> m \<in> ?body \<and> edge_target e \<in> ?body \<and>
          eval_formula s (edge_precondition cfg (body_pass ?ex ?body False True) e (state_of st' (edge_target e))))"
    using backward_states_solve [OF info(1) acyc goods body_keeps_good [OF an rem]] by blast
  with st have "st' = st" by simp
  note good = good [unfolded this] and ind = ind [unfolded this]
  obtain st3 where "st2 = Some st3" and good3: "\<forall>m. wp_good (assigned cfg) (state_of st3 m)"
    and cont: "\<forall>s m. eval_formula s (state_of st3 m) \<longleftrightarrow> m = edge_source b \<and> eval_formula s FTrue \<or>
       (\<exists>e \<in> set (kept_edges ?ex cfg). edge_source e = m \<and> m \<in> ?body \<and> edge_target e \<in> ?body \<and>
          eval_formula s (edge_precondition cfg (body_pass ?ex ?body False False) e (state_of st3 (edge_target e))))"
    using backward_states_solve [OF info(1) acyc wp_good_literals(1) body_keeps_good [OF an]] st2
    by (metis outcome.inject)
  have "eval_formula s1 (state_of st3 (edge_target b))"
    using body_covers [OF an _ _ _ path, of "body_pass ?ex ?body False False" st3] good3 cont
    by (auto simp: body_pass_def)
  moreover from this have "eval_formula s1 (get_or st3 (edge_target b) FTrue)"
    by (auto simp: get_or_def split: option.splits)
  ultimately have start: "eval_formula s1 (state_of st (edge_target b))"
    using implies_with_model_sound [OF assms(3) v s1(1)] s1(2) \<open>st2 = Some st3\<close> by simp
  note one = inductive_step [OF an rem excl info(2) _ info(7,8,1) c good ind]
  have "eval_formula (snd y) (state_of st (fst y))"
    if "(body_step cfg ?ex ?body)\<^sup>*\<^sup>* (edge_target b, s1) y" for y
    using that
  proof (induction rule: rtranclp_induct)
    case (step y w)
    then obtain e where e: "e \<in> set (kept_edges ?ex cfg)" "edge_source e = fst y" "edge_target e = fst w"
      "fst y \<in> ?body" "fst w \<in> ?body" "edge_step cfg e (snd y) (snd w)"
      by (auto simp: body_step_def)
    have other: "edge_id e \<noteq> edge_id b" using e(1) by (simp add: kept_edges_def)
    have "if e = b then eval_formula (snd w) c
      else edge_id e \<notin> ?ex \<longrightarrow> eval_formula (snd w) (state_of st (edge_target e))"
      by (rule one [OF _ kept_all [OF e(1)] _ _ e(6)]) (use e step.IH in auto)
    with other e(3) show ?case by (auto split: if_splits)
  qed (simp add: start)
  from this [OF path] have "eval_formula s (state_of st (edge_source b))" by simp
  from one [OF _ info(2,7,8) last this] show ?thesis by simp
qed

lemma inductive_acyclic:
  assumes "one_loop cfg b info" "check_inductiveness info cfg c z [] {edge_id b} = Returns None"
  shows "acyclic (flow (kept_edges {edge_id b} cfg))"
proof -
  note info = one_loop_info [OF assms(1)]
  have req: "edge_source_requirement cfg (back_edge info) c = Some (edge_pre cfg b c)"
    using requirement_edge_pre [OF info(1,2)] info(4) by simp
  show ?thesis
    using assms(2) backward_states_acyclic [OF info(1)]
    unfolding check_inductiveness_def req option.case stops_unless_some by blast
qed

lemma exit_holds:
  assumes loop: "one_loop cfg b info" and acyc: "acyclic (flow (kept_edges {edge_id b} cfg))"
    and chk: "check_exit info cfg c z posts [] {edge_id b} (edge_id x) = Returns None"
    and x: "x \<in> set (all_edges cfg)" "bt_get posts (edge_target x) = Some p"
    and "sound_solver z" and an: "analysable cfg site" and p: "wp_good (assigned cfg) p"
    and s1: "admissible s1" "eval_formula s1 c"
    and path: "(body_step cfg {edge_id b} (loop_nodes info))\<^sup>*\<^sup>* (edge_target b, s1) (edge_source x, s)"
    and last: "edge_step cfg x s t"
  shows "\<not> eval_formula t p"
proof
  assume post: "eval_formula t p"
  then have "p \<noteq> FFalse" by auto
  note info = one_loop_info [OF loop]
  let ?ex = "{edge_id b}" and ?body = "loop_nodes info"
  have decided: "(case so of None \<Rightarrow> Some (ExitClosureFailed i None) | Some st \<Rightarrow>
      (case q st of Inl _ \<Rightarrow> Some (ExitClosureFailed i None) | Inr report \<Rightarrow>
         if report_feasibility report = Infeasible then None
         else Some (ExitClosureFailed i (report_model report)))) = None
      \<Longrightarrow> \<exists>st r. so = Some st \<and> q st = Inr r \<and> report_feasibility r = Infeasible"
    for so :: "reach_map option" and q :: "reach_map \<Rightarrow> formula_error + feasibility_report" and i
    by (auto split: option.splits sum.splits if_splits)
  obtain st r where st: "backward_states cfg [(edge_source x, edge_pre cfg x p)] ?ex (Some ?body) True [] False = Returns (Some st)"
    and r: "feasibility_with_model z (f_and c (state_of st (edge_target b))) = Inr r" "report_feasibility r = Infeasible"
    using chk \<open>p \<noteq> FFalse\<close>
    unfolding check_exit_def edge_lookup [OF info(1) x(1)] requirement_edge_pre [OF info(1) x(1)] Let_def
    by (simp add: x(2) goes_on info(5)) (elim exE conjE, drule decided, elim exE conjE, simp add: info(5))
  have keep: "keeps_good cfg (body_pass ?ex ?body True False) (assigned cfg)"
    by (rule body_keeps_good [OF an]) simp
  obtain st' where "backward_states cfg [(edge_source x, edge_pre cfg x p)] ?ex (Some ?body) True [] False = Returns (Some st')"
    and good: "\<forall>m. wp_good (assigned cfg) (state_of st' m)"
    and eqs: "\<forall>s m. eval_formula s (state_of st' m) \<longleftrightarrow> m = edge_source x \<and> eval_formula s (edge_pre cfg x p) \<or>
       (\<exists>e \<in> set (kept_edges ?ex cfg). edge_source e = m \<and> m \<in> ?body \<and> edge_target e \<in> ?body \<and>
          eval_formula s (edge_precondition cfg (body_pass ?ex ?body True False) e (state_of st' (edge_target e))))"
    using backward_states_solve [OF info(1) acyc edge_pre_good [OF an x(1) p] keep] by blast
  with st have "st' = st" by simp
  note good = good [unfolded this] and eqs = eqs [unfolded this]
  have "eval_formula s (state_of st (edge_source x))" using eqs edge_pre_covers [OF an x(1) p last post] by blast
  then have "eval_formula s1 (state_of st (edge_target b))"
    using body_covers [OF an _ _ _ path, of "body_pass ?ex ?body True False" st] good eqs
    by (auto simp: body_pass_def)
  with s1 report_sound(1) [OF assms(6) r s1(1)] show False by simp
qed

section \<open>The candidate holds\<close>

text \<open>
  One loop, entered at its header only; the forward pass may read its formulas in later states,
  no effect of the body havocs, and the guards inside the body exclude each other.
\<close>

definition single_loop ::
  "abstract_cfg \<Rightarrow> abstract_edge \<Rightarrow> loop_info \<Rightarrow> assertion_site \<Rightarrow> bool" where
  "single_loop cfg b info site \<longleftrightarrow> one_loop cfg b info \<and> forward_ready cfg {edge_id b} \<and> analysable cfg site \<and>
     remembering cfg (loop_nodes info) \<and> exclusive cfg (loop_nodes info)"

lemma accepted_run:
  assumes loop: "one_loop cfg b info" and acc: "check_loop_invariant_verbose True info cfg cand z posts [] = Returns Accepted"
    and z: "sound_solver z" and ready: "forward_ready cfg {edge_id b}" and an: "analysable cfg site"
    and rem: "remembering cfg (loop_nodes info)" and excl: "exclusive cfg (loop_nodes info)"
    and "c = normalize_candidate cfg (loop_header info) cand" and c: "wp_good (assigned cfg) c"
    and "cfg_run cfg s0 n s"
  shows "(n \<in> loop_nodes info \<longrightarrow> (\<exists>s1. cfg_run cfg s0 (edge_target b) s1 \<and> eval_formula s1 c \<and>
       (body_step cfg {edge_id b} (loop_nodes info))\<^sup>*\<^sup>* (edge_target b, s1) (n, s)))
    \<and> (n = edge_target b \<longrightarrow> eval_formula s c)
    \<and> (skeleton_run cfg {edge_id b} s0 n s \<or> (edge_target b, n) \<in> (flow (kept_edges {edge_id b} cfg))\<^sup>*)"
    (is "?inner n s \<and> ?at n s \<and> ?way n s")
  using assms(10)
proof (induction rule: cfg_run.induct)
  note info = one_loop_info [OF loop]
  have ids: "detect_back_edges cfg = Some [edge_id b]" by (rule info(3))
  have checks: "check_initiation True info cfg c z [] = Returns None"
    "check_inductiveness info cfg c z [] {edge_id b} = Returns None"
    using accepted_checks(1,2) [OF acc ids assms(8)] by simp_all
  have init: "eval_formula s c" if "skeleton_run cfg {edge_id b} s0 (edge_target b) s" for s
    using initiation_holds [OF checks(1) z info(1) ids _ an] ready all_edges_nodes [OF info(1,2)] info(5) that by simp
  have arrived: "?inner n s" if "n \<in> loop_nodes info \<longrightarrow> n = edge_target b" "cfg_run cfg s0 n s" "?at n s" for n s
    using that by auto
  {
    case start
    then have sk: "skeleton_run cfg {edge_id b} s0 (cfg_entry cfg) s0" by (rule skeleton_run.start)
    then have at: "?at (cfg_entry cfg) s0" using init by metis
    with sk arrived [OF _ cfg_run.start [OF start] at] info(11) show ?case by blast
  next
    case (along e s t)
    have run: "cfg_run cfg s0 (edge_target e) t" by (rule cfg_run.along) fact+
    show ?case
    proof (cases "e = b")
      case True
      then obtain s1 where "cfg_run cfg s0 (edge_target b) s1" "eval_formula s1 c"
        "(body_step cfg {edge_id b} (loop_nodes info))\<^sup>*\<^sup>* (edge_target b, s1) (edge_source b, s)"
        using along.IH info(7) by blast
      then have "eval_formula t c"
        using inductiveness_holds [OF loop checks(2) z an rem excl c cfg_run_admissible] an along.hyps(3) True by blast
      with True arrived [OF _ run] show ?thesis by simp
    next
      case False
      then have kept: "e \<in> set (kept_edges {edge_id b} cfg)"
        using along.hyps(2) info(2) edge_id_inj [OF info(1)] by (auto simp: kept_edges_def)
      then have edge: "(edge_source e, edge_target e) \<in> flow (kept_edges {edge_id b} cfg)"
        "(edge_source e, edge_target e) \<in> graph cfg" using along.hyps(2) by (auto simp: flow_def)
      have way: "?way (edge_target e) t"
        using along.IH kept along.hyps(3) edge(1) by (meson rtrancl.rtrancl_into_rtrancl skeleton_run.along)
      show ?thesis
      proof (cases "edge_target e = edge_target b")
        case True
        have "(edge_target b, edge_source e) \<notin> (flow (kept_edges {edge_id b} cfg))\<^sup>*"
          using inductive_acyclic [OF loop checks(2)] edge(1) True unfolding acyclic_def
          by (metis rtrancl_into_trancl1)
        then have "skeleton_run cfg {edge_id b} s0 (edge_target e) t"
          using along.IH kept along.hyps(3) by (blast intro: skeleton_run.along)
        then have at: "?at (edge_target e) t" using init by metis
        with way arrived [OF _ run at] True show ?thesis by blast
      next
        case False
        have "?inner (edge_target e) t"
        proof
          assume m: "edge_target e \<in> loop_nodes info"
          then have n: "edge_source e \<in> loop_nodes info" using info(10) False edge(2) by blast
          then have "body_step cfg {edge_id b} (loop_nodes info) (edge_source e, s) (edge_target e, t)"
            using kept m along.hyps(3) by (auto simp: body_step_def)
          then show "\<exists>s1. cfg_run cfg s0 (edge_target b) s1 \<and> eval_formula s1 c \<and>
              (body_step cfg {edge_id b} (loop_nodes info))\<^sup>*\<^sup>* (edge_target b, s1) (edge_target e, t)"
            using along.IH n by (meson rtranclp.rtrancl_into_rtrancl)
        qed
        with way False show ?thesis by blast
      qed
    qed
  }
qed

lemma accepted_holds:
  assumes "single_loop cfg b info site" and "sound_solver z"
    and "check_loop_invariant_verbose True info cfg cand z posts [] = Returns Accepted"
    and "c = normalize_candidate cfg (loop_header info) cand" "wp_good (assigned cfg) c"
    and "cfg_run cfg s0 (loop_header info) s"
  shows "eval_formula s c"
proof -
  have "one_loop cfg b info" using assms(1) by (simp add: single_loop_def)
  from accepted_run [OF this assms(3,2) _ _ _ _ assms(4-6), of site] one_loop_info(5) [OF this] assms(1)
  show ?thesis by (simp add: single_loop_def)
qed

lemma accepted_exits:
  assumes "single_loop cfg b info site" and "sound_solver z"
    and "check_loop_invariant_verbose True info cfg cand z posts [] = Returns Accepted"
    and "c = normalize_candidate cfg (loop_header info) cand" "wp_good (assigned cfg) c"
    and "x \<in> set (all_edges cfg)" "edge_source x \<in> loop_nodes info" "edge_target x \<notin> loop_nodes info"
    and "bt_get posts (edge_target x) = Some p" "wp_good (assigned cfg) p"
    and "cfg_run cfg s0 (edge_source x) s" "edge_step cfg x s t"
  shows "\<not> eval_formula t p"
proof -
  have loop: "one_loop cfg b info" and an: "analysable cfg site" using assms(1) by (simp_all add: single_loop_def)
  note info = one_loop_info [OF loop]
  have "edge_id x \<in> set (exit_edges info)" using info(9) assms(6-8) by blast
  then have chk: "check_exit info cfg c z posts [] {edge_id b} (edge_id x) = Returns None"
    using accepted_checks(3) [OF assms(3) info(3) assms(4)] by simp
  have acyc: "acyclic (flow (kept_edges {edge_id b} cfg))"
    using inductive_acyclic [OF loop] accepted_checks(2) [OF assms(3) info(3) assms(4)] by simp
  obtain s1 where s1: "cfg_run cfg s0 (edge_target b) s1" "eval_formula s1 c"
    "(body_step cfg {edge_id b} (loop_nodes info))\<^sup>*\<^sup>* (edge_target b, s1) (edge_source x, s)"
    using accepted_run [OF loop assms(3,2) _ _ _ _ assms(4,5,11)] assms(1,7) by (auto simp: single_loop_def)
  from exit_holds [OF loop acyc chk assms(6,9,2) an assms(10) cfg_run_admissible [OF s1(1) an] s1(2,3) assms(12)]
  show ?thesis .
qed

end
