(* ===== verification/Loops_Claims.thy ===== *)
theory Loops_Claims
  imports Loops_Sound Scheduler_Correct
begin

text \<open>
  The properties of the loop check, on its own and applied to small loops, and the two graphs on
  which it accepts a candidate that does not hold: a region that the body forgets, and a loop
  before the one that is checked.
\<close>

section \<open>Example loops\<close>

text \<open>
  \<open>x := 1; while (*) n := n + 1;\<close> with the effects of the loop body as a parameter.
\<close>

definition x_is :: "int \<Rightarrow> formula" where
  "x_is n = FEq (TVar (var_int ''x'')) (TInt (word_of_int n))"

definition node_with :: "nat \<Rightarrow> transfer_effect list \<Rightarrow> nat \<times> abstract_node" where
  "node_with i es = (i, (example_node i)\<lparr>node_transfer := transfer_fn_new es\<rparr>)"

definition set_to :: "string \<Rightarrow> int \<Rightarrow> transfer_effect" where
  "set_to x n = Assign (var_int x) (AssignTerm (TInt (word_of_int n)))"

definition count_up :: transfer_effect where
  "count_up = Assign (var_int ''n'') (AssignTerm (TAdd (TVar (var_int ''n'')) (TInt 1)))"

definition while_cfg :: "transfer_effect list \<Rightarrow> transfer_effect list \<Rightarrow> abstract_cfg" where
  "while_cfg before body = \<lparr>cfg_nodes = [node_with 0 before, node_with 1 [], node_with 2 body, node_with 3 []],
     cfg_edges = [(0, example_edge 0 0 1), (1, example_edge 1 1 2), (2, example_edge 2 2 1),
       (3, example_edge 3 1 3)],
     cfg_entry = 0, concrete_exits = [3], cfg_exit = None, next_node = 4, next_edge = 4\<rparr>"

definition while_info :: "loop_info" where
  "while_info = \<lparr>loop_header = 1, latch = 2, back_edge = 2, loop_nodes = {1, 2}, exit_edges = [3],
     back_edge_guard = FTrue, loop_location = None\<rparr>"

text \<open>A solver that also knows that a formula it is given can hold.\<close>

definition knowing :: "formula list \<Rightarrow> solver" where
  "knowing fs = pair_solver\<lparr>check := (\<lambda>f. if f \<in> set fs then Sat else check pair_solver f)\<rparr>"

lemma knowing_sound:
  "\<forall>f \<in> set fs. \<exists>s. admissible s \<and> eval_formula s f \<Longrightarrow> sound_solver (knowing fs)"
  using pair_solver_sound by (auto simp: sound_solver_def knowing_def)

lemma x_is_possible: "\<exists>s. admissible s \<and> eval_formula s (x_is n)"
proof -
  have "admissible (set_scalar (var_int ''x'') (IntV (sint (word_of_int n :: i64))) sample_state)"
    by (rule admissible_updates) (simp_all add: sample_state_admissible var_int_def var_new_def)
  moreover have "eval_formula (set_scalar (var_int ''x'') (IntV (sint (word_of_int n :: i64))) sample_state) (x_is n)"
    by (simp add: x_is_def)
  ultimately show ?thesis by blast
qed

abbreviation counting :: abstract_cfg where
  "counting \<equiv> while_cfg [set_to ''x'' 1] [count_up]"

lemmas while_defs = while_cfg_def node_with_def example_node_def example_edge_def transfer_fn_new_def
  transfer_identity_def set_to_def count_up_def var_int_def var_new_def

lemma while_accepts:
  "check_loop_invariant_verbose True while_info counting (x_is 1) (knowing [x_is 1]) [(3, f_not (x_is 1))] []
    = Returns Accepted"
  by code_simp

lemma while_graph: "(i, 0) \<in> (flow (kept_edges {2} (while_cfg before body)))\<^sup>* \<Longrightarrow> i = 0"
  by (erule rtranclE) (auto simp: flow_def kept_edges_def while_defs bt_values_def)

lemma while_wf: "cfg_wf (while_cfg before body)"
  by (auto simp: cfg_wf_defs while_defs bt_wf_def node_ids_def bt_keys_def)

lemma while_edges:
  "set (all_edges (while_cfg before body)) = {example_edge 0 0 1, example_edge 1 1 2, example_edge 2 2 1, example_edge 3 1 3}"
  by (auto simp: while_cfg_def bt_values_def)

lemma counting_loop: "one_loop counting (example_edge 2 2 1) while_info"
proof -
  have "detect_back_edges counting = Some [2]" "loop_of counting 2 = Some while_info" by code_simp+
  then show ?thesis by (simp add: one_loop_def while_wf while_edges) (simp add: example_edge_def while_cfg_def while_info_def)
qed

lemma counting_forward: "forward_ready counting {2}"
proof -
  have none: "mentioned_before counting {2} 0 = {}"
  proof -
    have "edge_target e \<noteq> 0" if "e \<in> set (kept_edges {2} counting)" for e
      using that by (auto simp: kept_edges_def while_edges example_edge_def)
    then show ?thesis unfolding mentioned_before_def using while_graph by blast
  qed
  have "set (kept_edges {2} counting) = {example_edge 0 0 1, example_edge 1 1 2, example_edge 3 1 3}"
    by (auto simp: kept_edges_def while_edges example_edge_def)
  moreover have "run_effects counting (example_edge 0 0 1) = [set_to ''x'' 1, Assume FTrue]"
    "run_effects counting (example_edge 1 1 2) = [Assume FTrue]" "run_effects counting (example_edge 3 1 3) = [Assume FTrue]"
    by (simp_all add: run_effects_def while_defs bt_get_def)
  ultimately show ?thesis unfolding forward_ready_def
    by (simp add: example_edge_def none) (simp add: set_to_def while_cfg_def var_int_def var_new_def symbols_def)
qed

lemma counting_analysable: "analysable counting (branch_site 1)"
  by (auto simp: analysable_def assigned_def all_effects_def while_defs branch_site_def bt_values_def arith_sort_def)

lemma counting_single: "single_loop counting (example_edge 2 2 1) while_info (branch_site 1)"
proof -
  have "remembering counting (loop_nodes while_info)"
    unfolding remembering_def remembers_def while_edges
    by (auto simp: edge_transfer_def bt_get_def while_info_def while_defs)
  moreover have "exclusive counting (loop_nodes while_info)"
    by (auto simp: exclusive_def while_edges while_info_def example_edge_def)
  ultimately show ?thesis
    using counting_loop counting_forward counting_analysable by (simp add: single_loop_def example_edge_def)
qed

section \<open>Properties\<close>

text \<open>The start of a witness: what the forward pass knows at the header of the example.\<close>

theorem forward_reach_witness:
  "forward_reach_at_header True counting 1 [] = Returns (x_is 1) \<and>
    {s. \<exists>s0. skeleton_run counting {2} s0 1 s} \<subseteq> {s. eval_formula s (x_is 1)}"
proof -
  have reach: "forward_reach_at_header True counting 1 [] = Returns (x_is 1)" by code_simp
  have "detect_back_edges counting = Some [2]" "1 \<in> set (node_ids counting)" by code_simp+
  with forward_reach_sound [OF while_wf _ _ reach, of "[2]"] reach counting_forward show ?thesis by auto
qed

text \<open>
  C10: an accepted loop invariant is one.  On a graph with one loop whose body contains no havoc and
  whose branches exclude each other, with a sound solver and checked arithmetic, the candidate that
  the check accepts, pulled over the header, holds in every state in which any run, after any number of
  iterations, enters the header, when it coerces no assigned Boolean.
\<close>

theorem accepted_invariant_holds:
  assumes "single_loop cfg b info site" and "sound_solver z"
    and "check_loop_invariant_verbose True info cfg cand z posts [] = Returns Accepted"
    and "wp_good (assigned cfg) (normalize_candidate cfg (loop_header info) cand)"
    and "cfg_run cfg s0 (loop_header info) s"
  shows "eval_formula s (normalize_candidate cfg (loop_header info) cand)"
  by (rule accepted_holds [OF assms(1-3) refl assms(4,5)])

theorem accepted_invariant_witness:
  "{s. \<exists>s0. cfg_run counting s0 1 s} \<subseteq> {s. eval_formula s (x_is 1)}"
proof -
  have norm: "normalize_candidate counting (Suc 0) (x_is 1) = x_is 1" by code_simp
  have "wp_good (assigned counting) (x_is 1)" by (simp add: wp_good_def x_is_def)
  with accepted_invariant_holds [OF counting_single knowing_sound while_accepts]
  show ?thesis by (auto simp: norm x_is_possible while_info_def)
qed

text \<open>
  The exits of an accepted loop are closed.  Under the same conditions no run, after any number
  of iterations, leaves the loop into a state that satisfies the postcondition that was
  registered for the target of the exit edge, which describes the violations behind it.
\<close>

theorem accepted_exit_closed:
  assumes "single_loop cfg b info site" and "sound_solver z"
    and "check_loop_invariant_verbose True info cfg cand z posts [] = Returns Accepted"
    and "wp_good (assigned cfg) (normalize_candidate cfg (loop_header info) cand)"
    and "x \<in> set (all_edges cfg)" "edge_source x \<in> loop_nodes info" "edge_target x \<notin> loop_nodes info"
    and "bt_get posts (edge_target x) = Some p" "wp_good (assigned cfg) p"
    and "cfg_run cfg s0 (edge_source x) s" "edge_step cfg x s t"
  shows "\<not> eval_formula t p"
  by (rule accepted_exits [OF assms(1-3) refl assms(4-11)])

theorem accepted_exit_witness:
  "{t. \<exists>s0 s. cfg_run counting s0 1 s \<and> edge_step counting (example_edge 3 1 3) s t}
    \<inter> {t. eval_formula t (f_not (x_is 1))} = {}"
proof -
  have norm: "normalize_candidate counting (Suc 0) (x_is 1) = x_is 1" by code_simp
  have good: "wp_good (assigned counting) (x_is 1)" by (simp add: wp_good_def x_is_def)
  have post: "bt_get [(3, f_not (x_is 1))] (edge_target (example_edge 3 1 3)) = Some (f_not (x_is 1))" by code_simp
  have "\<not> eval_formula t (f_not (x_is 1))"
    if "cfg_run counting s0 1 s" "edge_step counting (example_edge 3 1 3) s t" for s0 s t
    using accepted_exit_closed [OF counting_single knowing_sound while_accepts _ _ _ _ post _ _ that(2)] that(1)
    by (simp add: norm good x_is_possible while_edges while_info_def wp_good_connectives) (simp add: example_edge_def)
  then show ?thesis by blast
qed

section \<open>Candidates that do not hold\<close>

text \<open>
  \<open>g[0] := 1; while (*) havoc g;\<close>: the precondition of a havoc forgets the condition on the region,
  which weakens it, so the inductiveness check passes for a fact that the body destroys.
\<close>

definition g_is_1 :: formula where
  "g_is_1 = FEq (TSelect (MVar ''g'') (TInt 0)) (TInt 1)"

abbreviation forgetting :: abstract_cfg where
  "forgetting \<equiv> while_cfg [MemoryStore ''g'' (TInt 0) (TInt 1)] [HavocRegions [''g'']]"

lemma run_along:
  assumes "cfg_run cfg s0 i s" "e \<in> set (all_edges cfg)" "edge_source e = i" "edge_target e = j" "edge_step cfg e s t"
  shows "cfg_run cfg s0 j t"
  using cfg_run.along [of cfg s0 e s t] assms by simp

lemma havoc_accepted:
  "check_loop_invariant_verbose True while_info forgetting g_is_1 (knowing [g_is_1]) [] [] = Returns Accepted"
  "\<exists>s. admissible s \<and> eval_formula s g_is_1"
  "\<exists>s0 s. cfg_run forgetting s0 1 s \<and> \<not> eval_formula s (normalize_candidate forgetting 1 g_is_1)"
proof -
  show "check_loop_invariant_verbose True while_info forgetting g_is_1 (knowing [g_is_1]) [] [] = Returns Accepted"
    by code_simp
  let ?s = "\<lambda>i. set_cells ''g'' (\<lambda>_. i) sample_state"
  show "\<exists>s. admissible s \<and> eval_formula s g_is_1"
    by (rule exI [of _ "?s 1"]) (simp add: sample_state_admissible g_is_1_def select_cell_def)
  have start: "cfg_run forgetting (?s 1) 0 (?s 1)"
    using cfg_run.start [of "?s 1" forgetting] by (simp add: sample_state_admissible while_cfg_def)
  have "store_cells (\<lambda>_. 1) (IntV 0) (IntV 1) = (\<lambda>_. 1)" by (auto simp: store_cells_def)
  then have "edge_step forgetting (example_edge 0 0 1) (?s 1) (?s 1)"
    by (auto simp: edge_step_def while_defs bt_get_def effect_step_simps set_cells_def)
  note run = run_along [OF start _ _ _ this, of 1]
  have "edge_step forgetting (example_edge 1 1 2) (?s 1) (?s 1)"
    by (auto simp: edge_step_def while_defs bt_get_def)
  note run = run_along [OF run _ _ _ this, of 2]
  have "effect_step (?s 1) (HavocRegions [''g'']) (?s 0)"
    by (auto simp: effect_step_simps same_but_memory_def set_cells_def)
  then have "edge_step forgetting (example_edge 2 2 1) (?s 1) (?s 0)"
    by (auto simp: edge_step_def while_defs bt_get_def)
  note run = run_along [OF run _ _ _ this, of 1]
  have "cfg_run forgetting (?s 1) 1 (?s 0)"
    by (rule run) (simp_all add: while_edges, simp_all add: example_edge_def)
  moreover have "normalize_candidate forgetting 1 g_is_1 = g_is_1" by code_simp
  moreover have "\<not> eval_formula (?s 0) g_is_1" by (simp add: g_is_1_def select_cell_def)
  ultimately show "\<exists>s0 s. cfg_run forgetting s0 1 s \<and> \<not> eval_formula s (normalize_candidate forgetting 1 g_is_1)"
    by metis
qed

text \<open>
  \<open>x := 1; while (*) x := 2; while (*) n := n + 1;\<close>: the second loop is checked first when its body
  is not larger, without an invariant of the first one, and the forward pass to its header takes
  no back edge, so it has only seen \<open>x = 1\<close>.
\<close>

definition two_loops :: abstract_cfg where
  "two_loops = \<lparr>cfg_nodes = [node_with 0 [set_to ''x'' 1], node_with 1 [], node_with 2 [set_to ''x'' 2],
       node_with 3 [], node_with 4 [count_up], node_with 5 []],
     cfg_edges = [(0, example_edge 0 0 1), (1, example_edge 1 1 2), (2, example_edge 2 2 1), (3, example_edge 3 1 3),
       (4, example_edge 4 3 4), (5, example_edge 5 4 3), (6, example_edge 6 3 5)],
     cfg_entry = 0, concrete_exits = [5], cfg_exit = None, next_node = 6, next_edge = 7\<rparr>"

definition second_loop :: loop_info where
  "second_loop = \<lparr>loop_header = 3, latch = 4, back_edge = 5, loop_nodes = {3, 4}, exit_edges = [6],
     back_edge_guard = FTrue, loop_location = None\<rparr>"

lemma earlier_loop_ignored:
  "check_loop_invariant_verbose True second_loop two_loops (x_is 1) (knowing [x_is 1]) [] [] = Returns Accepted"
  "case detect_loops two_loops of Returns loops \<Rightarrow> second_loop \<in> set loops | Panics \<Rightarrow> False"
  "\<exists>s0 s. cfg_run two_loops s0 3 s \<and> \<not> eval_formula s (x_is 1)"
proof -
  show "check_loop_invariant_verbose True second_loop two_loops (x_is 1) (knowing [x_is 1]) [] [] = Returns Accepted"
    by code_simp
  show "case detect_loops two_loops of Returns loops \<Rightarrow> second_loop \<in> set loops | Panics \<Rightarrow> False"
    by code_simp
  let ?s = "\<lambda>i. set_scalar (var_int ''x'') (IntV i) sample_state"
  note step_simps = edge_step_def two_loops_def while_defs bt_get_def effect_step_simps
  have start: "cfg_run two_loops (?s 1) 0 (?s 1)"
    using cfg_run.start [of "?s 1" two_loops] by (simp add: sample_state_admissible two_loops_def var_int_def var_new_def)
  have "edge_step two_loops (example_edge 0 0 1) (?s 1) (?s 1)" by (auto simp: step_simps)
  note run = run_along [OF start _ _ _ this, of 1]
  have "edge_step two_loops (example_edge 1 1 2) (?s 1) (?s 1)" by (auto simp: step_simps)
  note run = run_along [OF run _ _ _ this, of 2]
  have "edge_step two_loops (example_edge 2 2 1) (?s 1) (?s 2)" by (auto simp: step_simps)
  note run = run_along [OF run _ _ _ this, of 1]
  have "edge_step two_loops (example_edge 3 1 3) (?s 2) (?s 2)" by (auto simp: step_simps)
  note run = run_along [OF run _ _ _ this, of 3]
  have "cfg_run two_loops (?s 1) 3 (?s 2)"
    by (rule run) (simp_all add: two_loops_def bt_values_def, simp_all add: example_edge_def)
  moreover have "\<not> eval_formula (?s 2) (x_is 1)" by (simp add: x_is_def)
  ultimately show "\<exists>s0 s. cfg_run two_loops s0 3 s \<and> \<not> eval_formula s (x_is 1)" by blast
qed

end
