(* ===== verification/Invariants.thy ===== *)
theory Invariants
  imports Loops Llvm
begin

text \<open>
  The search for loop invariants (\<open>src/analysis/invariants/mod.rs\<close>, and the loop over the detected
  loops in \<open>src/analysis/backward/mod.rs\<close>): example states from solver models, atoms mined from the
  graph and from the vocabulary of the loop, the tiers of candidates, and the candidates' checks
  with the feedback of their counterexamples.  The clock is an argument: \<open>late k\<close> says whether the
  deadline has passed at the \<open>k\<close>-th look.  Terms that the source compares by their \<open>Debug\<close> text,
  which the derived implementation makes injective, are compared as terms.
\<close>

section \<open>Partial evaluation that can panic\<close>

definition oobind :: "'a option outcome \<Rightarrow> ('a \<Rightarrow> 'b option outcome) \<Rightarrow> 'b option outcome" where
  "oobind x f = obind x (\<lambda>r. case r of None \<Rightarrow> Returns None | Some v \<Rightarrow> f v)"

fun ofilter :: "('a \<Rightarrow> bool outcome) \<Rightarrow> 'a list \<Rightarrow> 'a list outcome" where
  "ofilter p [] = Returns []"
| "ofilter p (x # xs) = obind (p x) (\<lambda>b. obind (ofilter p xs) (\<lambda>ys. Returns (if b then x # ys else ys)))"

text \<open>\<open>any\<close> and \<open>all\<close> stop at the first element that decides.\<close>

fun oany :: "('a \<Rightarrow> bool outcome) \<Rightarrow> 'a list \<Rightarrow> bool outcome" where
  "oany p [] = Returns False"
| "oany p (x # xs) = obind (p x) (\<lambda>b. if b then Returns True else oany p xs)"

fun oall :: "('a \<Rightarrow> bool outcome) \<Rightarrow> 'a list \<Rightarrow> bool outcome" where
  "oall p [] = Returns True"
| "oall p (x # xs) = obind (p x) (\<lambda>b. if b then oall p xs else Returns False)"

section \<open>Example states\<close>

type_synonym ice_state = "string \<rightharpoonup> i64"

definition add_binding :: "var \<times> model_value \<Rightarrow> ice_state \<Rightarrow> ice_state" where
  "add_binding = (\<lambda>(var, value) scalars. case value of
     ModelInt n \<Rightarrow> scalars(var_name var \<mapsto> n)
   | ModelBool b \<Rightarrow> scalars(var_name var \<mapsto> (if b then 1 else 0))
   | _ \<Rightarrow> scalars)"

definition from_model :: "smt_model \<Rightarrow> ice_state" where
  "from_model model = fold add_binding (model_scalar model) Map.empty"

fun ice_term :: "bool \<Rightarrow> fterm \<Rightarrow> ice_state \<Rightarrow> i64 option outcome" where
  "ice_term oc (TVar v) st = Returns (if var_sort v = SInt then st (var_name v) else None)"
| "ice_term oc (TInt n) st = Returns (Some n)"
| "ice_term oc (TSelect mem idx) st = oobind (ice_term oc idx st) (\<lambda>idx_val. Returns (case mem of
     MVar name \<Rightarrow> st (name @ ''['' @ i64_str idx_val @ '']'') | _ \<Rightarrow> None))"
| "ice_term oc (TAdd a b) st =
     oobind (ice_term oc a st) (\<lambda>a. oobind (ice_term oc b st) (\<lambda>b. Returns (Some (a + b))))"
| "ice_term oc (TSub a b) st =
     oobind (ice_term oc a st) (\<lambda>a. oobind (ice_term oc b st) (\<lambda>b. Returns (Some (a - b))))"
| "ice_term oc (TMul a b) st =
     oobind (ice_term oc a st) (\<lambda>a. oobind (ice_term oc b st) (\<lambda>b. Returns (Some (a * b))))"
| "ice_term oc (TDiv a b) st = oobind (ice_term oc b st) (\<lambda>d. if d = 0 then Returns None
     else oobind (ice_term oc a st) (\<lambda>a. obind (i64_div a d) (\<lambda>q. Returns (Some q))))"
| "ice_term oc (TRem a b) st = oobind (ice_term oc b st) (\<lambda>d. if d = 0 then Returns None
     else oobind (ice_term oc a st) (\<lambda>a. obind (i64_rem a d) (\<lambda>q. Returns (Some q))))"
| "ice_term oc (TNeg a) st = oobind (ice_term oc a st) (\<lambda>a. obind (i64_neg oc a) (\<lambda>r. Returns (Some r)))"
| "ice_term oc _ st = Returns None"

definition ice_compare ::
  "bool \<Rightarrow> (int \<Rightarrow> int \<Rightarrow> bool) \<Rightarrow> fterm \<Rightarrow> fterm \<Rightarrow> ice_state \<Rightarrow> bool option outcome" where
  "ice_compare oc c a b st =
     oobind (ice_term oc a st) (\<lambda>x. oobind (ice_term oc b st) (\<lambda>y. Returns (Some (c (sint x) (sint y)))))"

fun ice_atom :: "bool \<Rightarrow> formula \<Rightarrow> ice_state \<Rightarrow> bool option outcome" where
  "ice_atom oc (FLe a b) st = ice_compare oc (\<le>) a b st"
| "ice_atom oc (FLt a b) st = ice_compare oc (<) a b st"
| "ice_atom oc (FGe a b) st = ice_compare oc (\<ge>) a b st"
| "ice_atom oc (FGt a b) st = ice_compare oc (>) a b st"
| "ice_atom oc (FEq a b) st = ice_compare oc (=) a b st"
| "ice_atom oc (FNot inner) st = obind (ice_atom oc inner st) (\<lambda>r. Returns (map_option Not r))"
| "ice_atom oc _ st = Returns None"

definition atom_is :: "bool \<Rightarrow> bool \<Rightarrow> ice_state \<Rightarrow> formula \<Rightarrow> bool outcome" where
  "atom_is oc b st atom = obind (ice_atom oc atom st) (\<lambda>r. Returns (r = Some b))"

definition collect_positive_example ::
  "bool \<Rightarrow> loop_info \<Rightarrow> abstract_cfg \<Rightarrow> inner_invariants \<Rightarrow> solver \<Rightarrow> ice_state option outcome" where
  "collect_positive_example oc info cfg inner z =
     obind (forward_reach_at_header oc cfg (loop_header info) inner) (\<lambda>reach.
       Returns (if reach = FTrue then None
         else case feasibility_with_model z reach of
           Inl _ \<Rightarrow> None
         | Inr report \<Rightarrow>
             if report_feasibility report \<noteq> Feasible then None
             else map_option from_model (report_model report)))"

text \<open>The postcondition behind an exit edge.\<close>

definition violation_at ::
  "abstract_cfg \<Rightarrow> (cfg_node_id, formula) btree \<Rightarrow> cfg_edge_id \<Rightarrow> formula option" where
  "violation_at cfg posts exit_edge = (case cfg_edge cfg exit_edge of
     Inl _ \<Rightarrow> None | Inr edge \<Rightarrow> bt_get posts (edge_target edge))"

definition collect_negative_examples ::
  "loop_info \<Rightarrow> abstract_cfg \<Rightarrow> (cfg_node_id, formula) btree \<Rightarrow> solver \<Rightarrow> ice_state list" where
  "collect_negative_examples info cfg posts z =
     List.map_filter (\<lambda>exit_edge. case violation_at cfg posts exit_edge of
         None \<Rightarrow> None
       | Some violation \<Rightarrow>
           if violation = FFalse then None
           else case feasibility_with_model z violation of
             Inl _ \<Rightarrow> None
           | Inr report \<Rightarrow> map_option from_model (report_model report)) (exit_edges info)"

definition filter_positive_consistent :: "bool \<Rightarrow> formula list \<Rightarrow> ice_state \<Rightarrow> formula list outcome" where
  "filter_positive_consistent oc atoms positive =
     ofilter (\<lambda>atom. obind (atom_is oc False positive atom) (\<lambda>b. Returns (\<not> b))) atoms"

definition find_safety_atoms :: "bool \<Rightarrow> formula list \<Rightarrow> ice_state list \<Rightarrow> formula list outcome" where
  "find_safety_atoms oc atoms negatives =
     ofilter (\<lambda>atom. oany (\<lambda>st. atom_is oc False st atom) negatives) atoms"

section \<open>Vocabulary\<close>

text \<open>
  The variables (all of sort Int, so ordered by name), the constants and the reads collected.
\<close>

record collected =
  col_vars :: "(string, unit) btree"
  col_consts :: "(int, unit) btree"
  col_selects :: "fterm list"

record vocab =
  vocab_terms :: "fterm list"
  vocab_constants :: "i64 list"

definition see_var :: "var \<Rightarrow> collected \<Rightarrow> collected" where
  "see_var v c = (if var_sort v = SInt then c\<lparr>col_vars := bt_insert (var_name v) () (col_vars c)\<rparr> else c)"

fun is_region :: "memory \<Rightarrow> bool" where
  "is_region (MVar _) = True"
| "is_region _ = False"

fun collect_term_vocab :: "fterm \<Rightarrow> collected \<Rightarrow> collected" where
  "collect_term_vocab (TVar v) c = see_var v c"
| "collect_term_vocab (TInt n) c = c\<lparr>col_consts := bt_insert (sint n) () (col_consts c)\<rparr>"
| "collect_term_vocab (TSelect arr idx) c = collect_term_vocab idx
     (if is_region arr then c\<lparr>col_selects := col_selects c @ [TSelect arr idx]\<rparr> else c)"
| "collect_term_vocab (TAdd a b) c = collect_term_vocab b (collect_term_vocab a c)"
| "collect_term_vocab (TSub a b) c = collect_term_vocab b (collect_term_vocab a c)"
| "collect_term_vocab (TMul a b) c = collect_term_vocab b (collect_term_vocab a c)"
| "collect_term_vocab (TDiv a b) c = collect_term_vocab b (collect_term_vocab a c)"
| "collect_term_vocab (TRem a b) c = collect_term_vocab b (collect_term_vocab a c)"
| "collect_term_vocab (TNeg a) c = collect_term_vocab a c"
| "collect_term_vocab _ c = c"

text \<open>The reads of a formula are collected and dropped.\<close>

definition ignoring_selects :: "fterm \<Rightarrow> collected \<Rightarrow> collected" where
  "ignoring_selects t c = (collect_term_vocab t c)\<lparr>col_selects := col_selects c\<rparr>"

fun collect_formula_vocab :: "formula \<Rightarrow> collected \<Rightarrow> collected" where
  "collect_formula_vocab (FLt a b) c = ignoring_selects b (ignoring_selects a c)"
| "collect_formula_vocab (FLe a b) c = ignoring_selects b (ignoring_selects a c)"
| "collect_formula_vocab (FEq a b) c = ignoring_selects b (ignoring_selects a c)"
| "collect_formula_vocab (FGe a b) c = ignoring_selects b (ignoring_selects a c)"
| "collect_formula_vocab (FGt a b) c = ignoring_selects b (ignoring_selects a c)"
| "collect_formula_vocab (FAnd items) c = fold collect_formula_vocab items c"
| "collect_formula_vocab (FOr items) c = fold collect_formula_vocab items c"
| "collect_formula_vocab (FNot f) c = collect_formula_vocab f c"
| "collect_formula_vocab (FImplies lhs rhs) c = collect_formula_vocab rhs (collect_formula_vocab lhs c)"
| "collect_formula_vocab _ c = c"

fun collect_effect_vocab :: "transfer_effect \<Rightarrow> collected \<Rightarrow> collected" where
  "collect_effect_vocab (Assign target value) c = (case value of
     AssignTerm t \<Rightarrow> collect_term_vocab t (see_var target c)
   | AssignPredicate f \<Rightarrow> collect_formula_vocab f (see_var target c))"
| "collect_effect_vocab (MemoryStore _ _ value) c = collect_term_vocab value c"
| "collect_effect_vocab _ c = c"

fun collect_select_in_term :: "fterm \<Rightarrow> fterm list" where
  "collect_select_in_term (TSelect arr idx) =
     (if is_region arr then [TSelect arr idx] else []) @ collect_select_in_term idx"
| "collect_select_in_term (TAdd a b) = collect_select_in_term a @ collect_select_in_term b"
| "collect_select_in_term (TSub a b) = collect_select_in_term a @ collect_select_in_term b"
| "collect_select_in_term (TMul a b) = collect_select_in_term a @ collect_select_in_term b"
| "collect_select_in_term (TDiv a b) = collect_select_in_term a @ collect_select_in_term b"
| "collect_select_in_term (TRem a b) = collect_select_in_term a @ collect_select_in_term b"
| "collect_select_in_term (TNeg a) = collect_select_in_term a"
| "collect_select_in_term _ = []"

fun collect_select_terms :: "formula \<Rightarrow> fterm list" where
  "collect_select_terms (FLt a b) = collect_select_in_term a @ collect_select_in_term b"
| "collect_select_terms (FLe a b) = collect_select_in_term a @ collect_select_in_term b"
| "collect_select_terms (FEq a b) = collect_select_in_term a @ collect_select_in_term b"
| "collect_select_terms (FGe a b) = collect_select_in_term a @ collect_select_in_term b"
| "collect_select_terms (FGt a b) = collect_select_in_term a @ collect_select_in_term b"
| "collect_select_terms (FAnd items) = concat (map collect_select_terms items)"
| "collect_select_terms (FOr items) = concat (map collect_select_terms items)"
| "collect_select_terms (FNot f) = collect_select_terms f"
| "collect_select_terms (FImplies lhs rhs) = collect_select_terms lhs @ collect_select_terms rhs"
| "collect_select_terms _ = []"

text \<open>The first of equal elements stays.\<close>

fun keep_first :: "'a list \<Rightarrow> 'a list \<Rightarrow> 'a list" where
  "keep_first seen [] = []"
| "keep_first seen (x # xs) = (if x \<in> set seen then keep_first seen xs else x # keep_first (x # seen) xs)"

definition dedup_terms :: "fterm list \<Rightarrow> fterm list" where
  "dedup_terms terms = keep_first [] terms"

definition body_nodes :: "loop_info \<Rightarrow> abstract_cfg \<Rightarrow> abstract_node list" where
  "body_nodes info cfg = List.map_filter (\<lambda>i. case cfg_node cfg i of Inl _ \<Rightarrow> None | Inr node \<Rightarrow> Some node)
     (sorted_list_of_set (loop_nodes info))"

definition body_effects :: "loop_info \<Rightarrow> abstract_cfg \<Rightarrow> transfer_effect list" where
  "body_effects info cfg = concat (map (\<lambda>node. effects (node_transfer node)) (body_nodes info cfg))"

definition collect_vocab :: "loop_info \<Rightarrow> abstract_cfg \<Rightarrow> (cfg_node_id, formula) btree \<Rightarrow> vocab" where
  "collect_vocab info cfg posts =
     (let c = \<lparr>col_vars = [], col_consts = [(0, ()), (1, ())], col_selects = []\<rparr>;
          c = fold collect_effect_vocab (body_effects info cfg) c;
          c = collect_formula_vocab (back_edge_guard info) c;
          selects = dedup_terms (col_selects c @ concat (map collect_select_terms (bt_values posts))) in
      \<lparr>vocab_terms = map (\<lambda>name. TVar (var_int name))
          (filter (\<lambda>name. \<not> contains_str ''__vla_expr'' name) (bt_keys (col_vars c))) @ selects,
       vocab_constants = map word_of_int (bt_keys (col_consts c))\<rparr>)"

section \<open>Atoms\<close>

definition generate_atoms :: "vocab \<Rightarrow> formula list" where
  "generate_atoms v =
     concat (map (\<lambda>i. concat (map (\<lambda>j.
         let a = vocab_terms v ! i; b = vocab_terms v ! j in
         if i = j \<or> a = b then [] else [FLe a b, FLt a b, FEq a b])
       [0..<length (vocab_terms v)])) [0..<length (vocab_terms v)])
     @ concat (map (\<lambda>a. concat (map (\<lambda>c. let b = TInt c in [FLe a b, FLt a b, FGe a b, FGt a b, FEq a b])
         (vocab_constants v))) (vocab_terms v))"

text \<open>All pairs, the left one before the right one.\<close>

fun pairs_with :: "('a \<Rightarrow> 'a \<Rightarrow> 'b) \<Rightarrow> 'a list \<Rightarrow> 'b list" where
  "pairs_with f [] = []"
| "pairs_with f (x # xs) = map (f x) xs @ pairs_with f xs"

definition append_pairwise_conjunctions :: "formula list \<Rightarrow> formula list \<Rightarrow> formula list" where
  "append_pairwise_conjunctions out atoms = out @ pairs_with f_and atoms"

definition append_pairwise_disjunctions :: "formula list \<Rightarrow> formula list \<Rightarrow> formula list" where
  "append_pairwise_disjunctions out atoms = out @ pairs_with f_or atoms"

text \<open>Every pair of an element of the first list with one of the second, as a disjunction.\<close>

definition disjunctions :: "formula list \<Rightarrow> formula list \<Rightarrow> formula list" where
  "disjunctions xs ys = concat (map (\<lambda>x. map (f_or x) ys) xs)"

fun collect_idx_term :: "fterm \<Rightarrow> fterm list" where
  "collect_idx_term (TSelect _ index) = [index]"
| "collect_idx_term (TAdd l r) = collect_idx_term l @ collect_idx_term r"
| "collect_idx_term (TSub l r) = collect_idx_term l @ collect_idx_term r"
| "collect_idx_term (TMul l r) = collect_idx_term l @ collect_idx_term r"
| "collect_idx_term (TDiv l r) = collect_idx_term l @ collect_idx_term r"
| "collect_idx_term (TRem l r) = collect_idx_term l @ collect_idx_term r"
| "collect_idx_term (TNeg inner) = collect_idx_term inner"
| "collect_idx_term _ = []"

fun collect_idx_formula :: "formula \<Rightarrow> fterm list" where
  "collect_idx_formula (FLt l r) = collect_idx_term l @ collect_idx_term r"
| "collect_idx_formula (FLe l r) = collect_idx_term l @ collect_idx_term r"
| "collect_idx_formula (FGt l r) = collect_idx_term l @ collect_idx_term r"
| "collect_idx_formula (FGe l r) = collect_idx_term l @ collect_idx_term r"
| "collect_idx_formula (FEq l r) = collect_idx_term l @ collect_idx_term r"
| "collect_idx_formula (FNot inner) = collect_idx_formula inner"
| "collect_idx_formula (FAnd items) = concat (map collect_idx_formula items)"
| "collect_idx_formula (FOr items) = concat (map collect_idx_formula items)"
| "collect_idx_formula _ = []"

definition collect_select_indices_from_formula :: "formula \<Rightarrow> fterm list" where
  "collect_select_indices_from_formula formula = collect_idx_formula formula"

definition append_ice_disjunctions ::
  "formula list \<Rightarrow> formula list \<Rightarrow> formula list \<Rightarrow> loop_info \<Rightarrow> abstract_cfg
    \<Rightarrow> (cfg_node_id, formula) btree \<Rightarrow> formula list" where
  "append_ice_disjunctions out pos_atoms safety_atoms info cfg posts =
     (if safety_atoms = [] \<or> pos_atoms = [] then out
      else
        let observers = (case extract_back_edge_counter info of
            None \<Rightarrow> []
          | Some ctr \<Rightarrow> concat (map (\<lambda>exit_edge. case violation_at cfg posts exit_edge of
                None \<Rightarrow> []
              | Some violation \<Rightarrow>
                  disjunctions (map (\<lambda>k. FLe (TVar ctr) k) (collect_select_indices_from_formula violation))
                    safety_atoms) (exit_edges info))) in
        out @ observers @ concat (map (\<lambda>safe. map (\<lambda>pos. f_or pos safe) pos_atoms) safety_atoms))"

definition violation_negation_atoms ::
  "loop_info \<Rightarrow> abstract_cfg \<Rightarrow> (cfg_node_id, formula) btree \<Rightarrow> formula list" where
  "violation_negation_atoms info cfg posts =
     concat (map (\<lambda>exit_edge. case violation_at cfg posts exit_edge of
         None \<Rightarrow> []
       | Some violation \<Rightarrow>
           if violation = FFalse then [] else List.map_filter negate_comparison (formula_conjuncts violation))
       (exit_edges info))"

section \<open>Predicate atoms\<close>

fun collect_atomic_comparisons :: "formula \<Rightarrow> formula list" where
  "collect_atomic_comparisons (FNot inner) = collect_atomic_comparisons inner"
| "collect_atomic_comparisons (FAnd parts) = concat (map collect_atomic_comparisons parts)"
| "collect_atomic_comparisons (FOr parts) = concat (map collect_atomic_comparisons parts)"
| "collect_atomic_comparisons (FImplies lhs rhs) = collect_atomic_comparisons lhs @ collect_atomic_comparisons rhs"
| "collect_atomic_comparisons (FLe a b) = [FLe a b]"
| "collect_atomic_comparisons (FLt a b) = [FLt a b]"
| "collect_atomic_comparisons (FGe a b) = [FGe a b]"
| "collect_atomic_comparisons (FGt a b) = [FGt a b]"
| "collect_atomic_comparisons (FEq a b) = [FEq a b]"
| "collect_atomic_comparisons _ = []"

type_synonym var_subst = "(string, fterm) btree"

fun substitute_term_vars_to_terms :: "fterm \<Rightarrow> var_subst \<Rightarrow> fterm"
  and substitute_formula_vars_to_terms :: "formula \<Rightarrow> var_subst \<Rightarrow> formula"
where
  "substitute_term_vars_to_terms (TVar v) \<sigma> = (case bt_get \<sigma> (var_name v) of None \<Rightarrow> TVar v | Some t \<Rightarrow> t)"
| "substitute_term_vars_to_terms (TBoolToInt inner) \<sigma> = TBoolToInt (substitute_formula_vars_to_terms inner \<sigma>)"
| "substitute_term_vars_to_terms (TSelect mem idx) \<sigma> = TSelect mem (substitute_term_vars_to_terms idx \<sigma>)"
| "substitute_term_vars_to_terms (TAdd a b) \<sigma> = TAdd (substitute_term_vars_to_terms a \<sigma>) (substitute_term_vars_to_terms b \<sigma>)"
| "substitute_term_vars_to_terms (TSub a b) \<sigma> = TSub (substitute_term_vars_to_terms a \<sigma>) (substitute_term_vars_to_terms b \<sigma>)"
| "substitute_term_vars_to_terms (TMul a b) \<sigma> = TMul (substitute_term_vars_to_terms a \<sigma>) (substitute_term_vars_to_terms b \<sigma>)"
| "substitute_term_vars_to_terms (TDiv a b) \<sigma> = TDiv (substitute_term_vars_to_terms a \<sigma>) (substitute_term_vars_to_terms b \<sigma>)"
| "substitute_term_vars_to_terms (TRem a b) \<sigma> = TRem (substitute_term_vars_to_terms a \<sigma>) (substitute_term_vars_to_terms b \<sigma>)"
| "substitute_term_vars_to_terms (TNeg a) \<sigma> = TNeg (substitute_term_vars_to_terms a \<sigma>)"
| "substitute_term_vars_to_terms t \<sigma> = t"
| "substitute_formula_vars_to_terms (FLe a b) \<sigma> = FLe (substitute_term_vars_to_terms a \<sigma>) (substitute_term_vars_to_terms b \<sigma>)"
| "substitute_formula_vars_to_terms (FLt a b) \<sigma> = FLt (substitute_term_vars_to_terms a \<sigma>) (substitute_term_vars_to_terms b \<sigma>)"
| "substitute_formula_vars_to_terms (FGe a b) \<sigma> = FGe (substitute_term_vars_to_terms a \<sigma>) (substitute_term_vars_to_terms b \<sigma>)"
| "substitute_formula_vars_to_terms (FGt a b) \<sigma> = FGt (substitute_term_vars_to_terms a \<sigma>) (substitute_term_vars_to_terms b \<sigma>)"
| "substitute_formula_vars_to_terms (FEq a b) \<sigma> = FEq (substitute_term_vars_to_terms a \<sigma>) (substitute_term_vars_to_terms b \<sigma>)"
| "substitute_formula_vars_to_terms (FNot f) \<sigma> = f_not (substitute_formula_vars_to_terms f \<sigma>)"
| "substitute_formula_vars_to_terms (FAnd fs) \<sigma> = f_and_many (map (\<lambda>f. substitute_formula_vars_to_terms f \<sigma>) fs)"
| "substitute_formula_vars_to_terms (FOr fs) \<sigma> = f_or_many (map (\<lambda>f. substitute_formula_vars_to_terms f \<sigma>) fs)"
| "substitute_formula_vars_to_terms (FImplies f g) \<sigma> =
     f_implies (substitute_formula_vars_to_terms f \<sigma>) (substitute_formula_vars_to_terms g \<sigma>)"
| "substitute_formula_vars_to_terms f \<sigma> = f"

definition resolve_round :: "var_subst \<Rightarrow> var_subst" where
  "resolve_round snapshot = map (\<lambda>(name, value). (name, substitute_term_vars_to_terms value snapshot)) snapshot"

fun resolve_chains :: "nat \<Rightarrow> var_subst \<Rightarrow> var_subst" where
  "resolve_chains 0 \<sigma> = \<sigma>"
| "resolve_chains (Suc rounds) \<sigma> = (let \<sigma>' = resolve_round \<sigma> in if \<sigma>' = \<sigma> then \<sigma> else resolve_chains rounds \<sigma>')"

fun record_assignment :: "transfer_effect \<Rightarrow> var_subst \<Rightarrow> var_subst" where
  "record_assignment (Assign target (AssignTerm t)) \<sigma> = bt_insert (var_name target) t \<sigma>"
| "record_assignment _ \<sigma> = \<sigma>"

definition build_body_var_subst :: "loop_info \<Rightarrow> abstract_cfg \<Rightarrow> var_subst" where
  "build_body_var_subst info cfg = resolve_chains 8 (fold record_assignment (body_effects info cfg) [])"

fun term_contains_vla_var :: "fterm \<Rightarrow> bool" where
  "term_contains_vla_var (TVar v) = contains_str ''__vla_expr'' (var_name v)"
| "term_contains_vla_var (TAdd a b) = (term_contains_vla_var a \<or> term_contains_vla_var b)"
| "term_contains_vla_var (TSub a b) = (term_contains_vla_var a \<or> term_contains_vla_var b)"
| "term_contains_vla_var (TMul a b) = (term_contains_vla_var a \<or> term_contains_vla_var b)"
| "term_contains_vla_var (TDiv a b) = (term_contains_vla_var a \<or> term_contains_vla_var b)"
| "term_contains_vla_var (TRem a b) = (term_contains_vla_var a \<or> term_contains_vla_var b)"
| "term_contains_vla_var (TNeg a) = term_contains_vla_var a"
| "term_contains_vla_var (TSelect _ idx) = term_contains_vla_var idx"
| "term_contains_vla_var _ = False"

fun formula_contains_vla_var :: "formula \<Rightarrow> bool" where
  "formula_contains_vla_var (FLe a b) = (term_contains_vla_var a \<or> term_contains_vla_var b)"
| "formula_contains_vla_var (FLt a b) = (term_contains_vla_var a \<or> term_contains_vla_var b)"
| "formula_contains_vla_var (FGe a b) = (term_contains_vla_var a \<or> term_contains_vla_var b)"
| "formula_contains_vla_var (FGt a b) = (term_contains_vla_var a \<or> term_contains_vla_var b)"
| "formula_contains_vla_var (FEq a b) = (term_contains_vla_var a \<or> term_contains_vla_var b)"
| "formula_contains_vla_var (FNot f) = formula_contains_vla_var f"
| "formula_contains_vla_var _ = False"

fun effect_predicates :: "transfer_effect \<Rightarrow> formula list" where
  "effect_predicates (Assume f) = collect_atomic_comparisons f"
| "effect_predicates (Assign _ (AssignPredicate f)) = collect_atomic_comparisons f"
| "effect_predicates _ = []"

definition guard_predicates :: "loop_info \<Rightarrow> abstract_cfg \<Rightarrow> formula list" where
  "guard_predicates info cfg =
     concat (map (\<lambda>node_id. concat (map (\<lambda>edge_id. case cfg_edge cfg edge_id of
         Inl _ \<Rightarrow> [] | Inr edge \<Rightarrow> collect_atomic_comparisons (edge_guard edge)) (outgoing_edges cfg node_id)))
       (sorted_list_of_set (loop_nodes info)))"

definition collect_predicate_atoms :: "loop_info \<Rightarrow> abstract_cfg \<Rightarrow> formula list" where
  "collect_predicate_atoms info cfg =
     (let raw = guard_predicates info cfg @ concat (map effect_predicates (body_effects info cfg));
          \<sigma> = build_body_var_subst info cfg;
          raw = (if \<sigma> = [] then raw else map (\<lambda>atom. substitute_formula_vars_to_terms atom \<sigma>) raw);
          raw = raw @ List.map_filter negate_comparison raw in
      keep_first [] (filter (\<lambda>f. \<not> formula_contains_vla_var f) raw))"

section \<open>Feedback\<close>

record ice_feedback =
  must_hold :: "ice_state list"
  must_not_hold :: "ice_state list"

definition feedback_new :: "ice_state option \<Rightarrow> ice_state list \<Rightarrow> ice_feedback" where
  "feedback_new initial_positive initial_negatives =
     \<lparr>must_hold = (case initial_positive of None \<Rightarrow> [] | Some s \<Rightarrow> [s]), must_not_hold = initial_negatives\<rparr>"

fun absorb :: "invariant_check_result \<Rightarrow> ice_feedback \<Rightarrow> ice_feedback" where
  "absorb (InitiationFailed (Some model)) fb = fb\<lparr>must_hold := must_hold fb @ [from_model model]\<rparr>"
| "absorb (InductivenessFailed (Some model)) fb = fb\<lparr>must_hold := must_hold fb @ [from_model model]\<rparr>"
| "absorb (ExitClosureFailed _ (Some model)) fb = fb\<lparr>must_not_hold := must_not_hold fb @ [from_model model]\<rparr>"
| "absorb _ fb = fb"

definition screens_out :: "bool \<Rightarrow> ice_feedback \<Rightarrow> formula \<Rightarrow> bool outcome" where
  "screens_out oc fb candidate = (case candidate of
     FOr parts \<Rightarrow> oany (\<lambda>st. oall (atom_is oc False st) parts) (must_hold fb)
   | _ \<Rightarrow> obind (oany (\<lambda>st. atom_is oc False st candidate) (must_hold fb)) (\<lambda>b.
       if b then Returns True else oany (\<lambda>st. atom_is oc True st candidate) (must_not_hold fb)))"

section \<open>The tiers\<close>

record cegis_state =
  feedback :: ice_feedback
  screened_out :: nat
  looks :: nat

definition look :: "(nat \<Rightarrow> bool) \<Rightarrow> cegis_state \<Rightarrow> bool \<times> cegis_state" where
  "look late cs = (late (looks cs), cs\<lparr>looks := Suc (looks cs)\<rparr>)"

fun run_tier ::
  "bool \<Rightarrow> (nat \<Rightarrow> bool) \<Rightarrow> formula list \<Rightarrow> (cfg_node_id, formula) btree \<Rightarrow> loop_info \<Rightarrow> abstract_cfg \<Rightarrow> solver
    \<Rightarrow> inner_invariants \<Rightarrow> cegis_state \<Rightarrow> (formula option \<times> cegis_state) outcome" where
  "run_tier oc late [] posts info cfg z inner cs = Returns (None, cs)"
| "run_tier oc late (candidate # candidates) posts info cfg z inner cs =
     (case look late cs of (timeout, cs) \<Rightarrow>
      if timeout then Returns (None, cs)
      else obind (screens_out oc (feedback cs) candidate) (\<lambda>screened.
        if screened then run_tier oc late candidates posts info cfg z inner (cs\<lparr>screened_out := Suc (screened_out cs)\<rparr>)
        else
          let normalized = normalize_candidate cfg (loop_header info) candidate in
          if is_tautology normalized then run_tier oc late candidates posts info cfg z inner cs
          else obind (check_loop_invariant_verbose oc info cfg candidate z posts inner) (\<lambda>result.
            if is_accepted result then Returns (Some normalized, cs)
            else run_tier oc late candidates posts info cfg z inner (cs\<lparr>feedback := absorb result (feedback cs)\<rparr>))))"

fun run_tiers ::
  "bool \<Rightarrow> (nat \<Rightarrow> bool) \<Rightarrow> formula list list \<Rightarrow> (cfg_node_id, formula) btree \<Rightarrow> loop_info \<Rightarrow> abstract_cfg \<Rightarrow> solver
    \<Rightarrow> inner_invariants \<Rightarrow> cegis_state \<Rightarrow> formula option outcome" where
  "run_tiers oc late [] posts info cfg z inner cs = Returns None"
| "run_tiers oc late (tier # tiers) posts info cfg z inner cs =
     obind (run_tier oc late tier posts info cfg z inner cs) (\<lambda>(found, cs). case found of
         Some invariant \<Rightarrow> Returns (Some invariant)
       | None \<Rightarrow> (case look late cs of (timeout, cs) \<Rightarrow>
           if timeout then Returns None else run_tiers oc late tiers posts info cfg z inner cs))"

record pools =
  pred_atoms :: "formula list"
  combo_atoms :: "formula list"
  pos_consistent :: "formula list"
  all_safety :: "formula list"
  negation_atoms :: "formula list"
  counter_inits :: "formula list"
  immutable_conj :: "formula option"

definition candidate_tiers ::
  "pools \<Rightarrow> loop_info \<Rightarrow> abstract_cfg \<Rightarrow> (cfg_node_id, formula) btree \<Rightarrow> formula list list" where
  "candidate_tiers p info cfg posts =
     (if negation_atoms p \<noteq> [] then [negation_atoms p] else [])
     @ (if counter_inits p \<noteq> [] \<and> negation_atoms p \<noteq> [] then [disjunctions (counter_inits p) (negation_atoms p)] else [])
     @ (if counter_inits p \<noteq> [] \<and> negation_atoms p \<noteq> [] then
          (case immutable_conj p of None \<Rightarrow> []
           | Some imm \<Rightarrow> [map (\<lambda>disj. f_and disj imm) (disjunctions (counter_inits p) (negation_atoms p))]) else [])
     @ (if pred_atoms p \<noteq> [] \<and> negation_atoms p \<noteq> [] then [disjunctions (pred_atoms p) (negation_atoms p)] else [])
     @ [pred_atoms p]
     @ [append_pairwise_conjunctions [] (pred_atoms p)]
     @ (if counter_inits p \<noteq> [] then [disjunctions (counter_inits p) (pred_atoms p)] else [])
     @ (if counter_inits p \<noteq> [] then [disjunctions (counter_inits p) (combo_atoms p)] else [])
     @ [pos_consistent p]
     @ [append_pairwise_conjunctions [] (pos_consistent p)]
     @ [append_ice_disjunctions [] (pos_consistent p) (all_safety p) info cfg posts]
     @ [append_pairwise_disjunctions [] (pos_consistent p)]"

section \<open>Synthesis\<close>

fun is_int_literal :: "fterm \<Rightarrow> bool" where
  "is_int_literal (TInt _) = True"
| "is_int_literal _ = False"

text \<open>The facts about cell 0 of a region that pin it to a literal, as equations.\<close>

definition literal_facts :: "(string \<Rightarrow> bool) \<Rightarrow> store_facts \<Rightarrow> formula list" where
  "literal_facts keep facts =
     map (\<lambda>((region_name, k), value). FEq (TSelect (MVar region_name) (TInt (word_of_int k))) value)
       (filter (\<lambda>((region_name, k), value). k = 0 \<and> is_int_literal value \<and> keep region_name) facts)"

text \<open>Of a havoc, the source takes the first region only.\<close>

fun written_region :: "transfer_effect \<Rightarrow> string option" where
  "written_region (MemoryStore r _ _) = Some r"
| "written_region (HavocRegions regions) = (case regions of [] \<Rightarrow> None | r # _ \<Rightarrow> Some r)"
| "written_region _ = None"

definition synthesize_with_cegis ::
  "bool \<Rightarrow> (nat \<Rightarrow> bool) \<Rightarrow> loop_info \<Rightarrow> abstract_cfg \<Rightarrow> (cfg_node_id, formula) btree \<Rightarrow> inner_invariants
    \<Rightarrow> solver \<Rightarrow> formula option outcome" where
  "synthesize_with_cegis oc late info cfg posts inner z =
     (let pred_atoms = collect_predicate_atoms info cfg;
          vocab = collect_vocab info cfg posts;
          combo_atoms = (if vocab_terms vocab = [] then [] else generate_atoms vocab) in
      obind (collect_positive_example oc info cfg inner z) (\<lambda>initial_positive.
      let initial_negatives = collect_negative_examples info cfg posts z in
      obind (case initial_positive of
          Some pos \<Rightarrow> filter_positive_consistent oc combo_atoms pos | None \<Rightarrow> Returns combo_atoms) (\<lambda>pos_consistent.
      obind (if initial_negatives \<noteq> [] then find_safety_atoms oc combo_atoms initial_negatives else Returns []) (\<lambda>ice_safety.
      let negation_atoms = violation_negation_atoms info cfg posts;
          all_safety = foldl push_new ice_safety negation_atoms in
      obind (preheader_store_facts_at_header oc cfg (loop_header info) inner) (\<lambda>facts.
      let written = List.map_filter written_region (body_effects info cfg);
          immutable_inits = literal_facts (\<lambda>r. r \<notin> set written) facts;
          p = \<lparr>pred_atoms = pred_atoms, combo_atoms = combo_atoms, pos_consistent = pos_consistent,
            all_safety = all_safety, negation_atoms = negation_atoms,
            counter_inits = literal_facts (\<lambda>r. True) facts,
            immutable_conj = (if immutable_inits = [] then None else Some (f_and_many immutable_inits))\<rparr> in
      run_tiers oc late (candidate_tiers p info cfg posts) posts info cfg z inner
        \<lparr>feedback = feedback_new initial_positive initial_negatives, screened_out = 0, looks = 0\<rparr>)))))"

text \<open>
  One loop after the other, the invariants found so far as inner invariants; the clock of each
  loop starts anew.
\<close>

fun synthesize_loops ::
  "bool \<Rightarrow> (nat \<Rightarrow> nat \<Rightarrow> bool) \<Rightarrow> abstract_cfg \<Rightarrow> (cfg_node_id, formula) btree \<Rightarrow> solver \<Rightarrow> nat \<Rightarrow> loop_info list
    \<Rightarrow> verified_loop_invariant list \<Rightarrow> (backward_error + verified_loop_invariant list) outcome" where
  "synthesize_loops oc late cfg posts z index [] accepted = Returns (Inr accepted)"
| "synthesize_loops oc late cfg posts z index (info # loops) accepted =
     obind (synthesize_with_cegis oc (late index) info cfg posts (map as_pair accepted) z) (\<lambda>candidate.
       case candidate of
         None \<Rightarrow> Returns (Inl CyclicCfgUnsupported)
       | Some candidate \<Rightarrow> synthesize_loops oc late cfg posts z (Suc index) loops
           (accepted @ [\<lparr>inv_header = loop_header info, inv_formula = candidate\<rparr>]))"

definition synthesize_loop_invariants ::
  "bool \<Rightarrow> (nat \<Rightarrow> nat \<Rightarrow> bool) \<Rightarrow> abstract_cfg \<Rightarrow> (cfg_node_id, formula) btree \<Rightarrow> solver
    \<Rightarrow> (backward_error + verified_loop_invariant list) outcome" where
  "synthesize_loop_invariants oc late cfg posts z =
     obind (detect_loops cfg) (\<lambda>loops. synthesize_loops oc late cfg posts z 0 (sort_innermost_first loops) [])"

end
