(* ===== verification/Invariants_Correct.thy ===== *)
theory Invariants_Correct
  imports Invariants Loops_Sound
begin

text \<open>
  What the search for loop invariants returns: candidates that the three checks accept, hence
  invariants of a graph with one loop; and when the screening by examples is right to drop a
  candidate without asking the solver.
\<close>

section \<open>Outcomes\<close>

lemma oobind_Some:
  "oobind x f = Returns (Some v) \<longleftrightarrow> (\<exists>u. x = Returns (Some u) \<and> f u = Returns (Some v))"
  by (auto simp: oobind_def obind_eq_Returns split: option.splits)

lemma oany_True: "oany p xs = Returns True \<Longrightarrow> \<exists>x \<in> set xs. p x = Returns True"
  by (induction xs) (auto simp: obind_eq_Returns split: if_splits)

lemma oall_True: "oall p xs = Returns True \<Longrightarrow> \<forall>x \<in> set xs. p x = Returns True"
  by (induction xs) (auto simp: obind_eq_Returns split: if_splits)

section \<open>Examples\<close>

text \<open>A state of the solver that has the values of an example state.\<close>

definition has_example :: "ice_state \<Rightarrow> valuation \<Rightarrow> bool" where
  "has_example st s \<longleftrightarrow> (\<forall>name n. st name = Some n \<longrightarrow> scalar_of s (var_int name) = IntV (sint n)) \<and>
     (\<forall>r i n. st (r @ ''['' @ i64_str i @ '']'') = Some n \<longrightarrow> cells_of s r (sint i) = sint n)"

text \<open>Terms without division whose sums, differences and products stay in range.\<close>

definition in_range2 :: "(int \<Rightarrow> int \<Rightarrow> int) \<Rightarrow> fterm \<Rightarrow> fterm \<Rightarrow> ice_state \<Rightarrow> bool" where
  "in_range2 f a b st \<longleftrightarrow> (\<forall>x y. ice_term True a st = Returns (Some x) \<longrightarrow> ice_term True b st = Returns (Some y) \<longrightarrow>
     in_i64 (f (sint x) (sint y)))"

fun no_wrap :: "ice_state \<Rightarrow> fterm \<Rightarrow> bool" where
  "no_wrap st (TAdd a b) \<longleftrightarrow> no_wrap st a \<and> no_wrap st b \<and> in_range2 (+) a b st"
| "no_wrap st (TSub a b) \<longleftrightarrow> no_wrap st a \<and> no_wrap st b \<and> in_range2 (-) a b st"
| "no_wrap st (TMul a b) \<longleftrightarrow> no_wrap st a \<and> no_wrap st b \<and> in_range2 (*) a b st"
| "no_wrap st (TNeg a) \<longleftrightarrow> no_wrap st a"
| "no_wrap st (TSelect m i) \<longleftrightarrow> no_wrap st i"
| "no_wrap st (TDiv a b) \<longleftrightarrow> False"
| "no_wrap st (TRem a b) \<longleftrightarrow> False"
| "no_wrap st t \<longleftrightarrow> True"

lemma sint_wraps:
  "in_i64 (sint x + sint y) \<Longrightarrow> sint (x + y :: i64) = sint x + sint y"
  "in_i64 (sint x - sint y) \<Longrightarrow> sint (x - y :: i64) = sint x - sint y"
  "in_i64 (sint x * sint y) \<Longrightarrow> sint (x * y :: i64) = sint x * sint y"
proof -
  have "x + y = word_of_int (sint x + sint y)" "x - y = word_of_int (sint x - sint y)" "x * y = word_of_int (sint x * sint y)"
    by simp_all
  then show "in_i64 (sint x + sint y) \<Longrightarrow> sint (x + y) = sint x + sint y"
    "in_i64 (sint x - sint y) \<Longrightarrow> sint (x - y) = sint x - sint y"
    "in_i64 (sint x * sint y) \<Longrightarrow> sint (x * y) = sint x * sint y"
    using sint_word_of_int_i64 by metis+
qed

lemma ice_term_value:
  "has_example st s \<Longrightarrow> no_wrap st t \<Longrightarrow> ice_term True t st = Returns (Some n) \<Longrightarrow> eval_term s t = IntV (sint n)"
proof (induction True t st arbitrary: n rule: ice_term.induct)
  case (1 v st)
  then show ?case by (cases v) (auto simp: has_example_def var_int_def var_new_def split: if_splits)
next
  case (3 mem idx st)
  obtain i where i: "ice_term True idx st = Returns (Some i)"
    "(case mem of MVar name \<Rightarrow> st (name @ ''['' @ i64_str i @ '']'') | _ \<Rightarrow> None) = Some n"
    using 3(4) by (auto simp: oobind_Some)
  then obtain r where "mem = MVar r" "st (r @ ''['' @ i64_str i @ '']'') = Some n"
    by (auto split: memory.splits)
  with 3(1) [OF 3(2) _ i(1)] 3(2,3) show ?case by (auto simp: select_cell_def has_example_def)
next
  case (4 a b st)
  then show ?case by (auto simp: oobind_Some in_range2_def sint_wraps)
next
  case (5 a b st)
  then show ?case by (auto simp: oobind_Some in_range2_def sint_wraps)
next
  case (6 a b st)
  then show ?case by (auto simp: oobind_Some in_range2_def sint_wraps)
next
  case (9 a st)
  then show ?case by (auto simp: oobind_Some obind_eq_Returns dest: sint_i64_neg)
qed auto

fun atom_terms :: "formula \<Rightarrow> fterm list" where
  "atom_terms (FLe a b) = [a, b]"
| "atom_terms (FLt a b) = [a, b]"
| "atom_terms (FGe a b) = [a, b]"
| "atom_terms (FGt a b) = [a, b]"
| "atom_terms (FEq a b) = [a, b]"
| "atom_terms (FNot f) = atom_terms f"
| "atom_terms (FOr fs) = concat (map atom_terms fs)"
| "atom_terms _ = []"

lemma ice_compare_value:
  assumes "ice_compare True c a b st = Returns (Some v)" "has_example st s" "no_wrap st a" "no_wrap st b"
  shows "compare_values c d (eval_term s a) (eval_term s b) \<longleftrightarrow> v"
  using assms ice_term_value [OF assms(2,3)] ice_term_value [OF assms(2,4)]
  by (auto simp: ice_compare_def oobind_Some)

lemma ice_atom_value:
  "has_example st s \<Longrightarrow> \<forall>t \<in> set (atom_terms a). no_wrap st t \<Longrightarrow> ice_atom True a st = Returns (Some b) \<Longrightarrow>
    eval_formula s a \<longleftrightarrow> b"
  by (induction True a st arbitrary: b rule: ice_atom.induct)
    (auto simp: ice_compare_value obind_eq_Returns)

text \<open>
  The screening drops a candidate for a reason.  With checked negation, a candidate that is
  dropped without asking the solver is false in every solver state that has the values of one of
  the examples in which it must hold, or true in those of an example in which it must not hold,
  provided that its terms use no division and stay in range on the examples.
\<close>

theorem screened_out_refuted:
  assumes "screens_out True fb candidate = Returns True"
    and "\<forall>st \<in> set (must_hold fb @ must_not_hold fb). \<forall>t \<in> set (atom_terms candidate). no_wrap st t"
  shows "(\<exists>st \<in> set (must_hold fb). \<forall>s. has_example st s \<longrightarrow> \<not> eval_formula s candidate)
    \<or> (\<exists>st \<in> set (must_not_hold fb). \<forall>s. has_example st s \<longrightarrow> eval_formula s candidate)"
proof (cases "\<exists>parts. candidate = FOr parts")
  case True
  then obtain parts where c: "candidate = FOr parts" by blast
  then have "oany (\<lambda>st. oall (atom_is True False st) parts) (must_hold fb) = Returns True"
    using assms(1) by (simp add: screens_out_def)
  then obtain st where st: "st \<in> set (must_hold fb)" "oall (atom_is True False st) parts = Returns True"
    using oany_True by fastforce
  then have "\<forall>p \<in> set parts. atom_is True False st p = Returns True" by (intro oall_True)
  then have no: "\<forall>p \<in> set parts. ice_atom True p st = Returns (Some False)"
    by (auto simp: atom_is_def obind_eq_Returns)
  have "\<not> eval_formula s candidate" if "has_example st s" for s
    using ice_atom_value [OF that, of _ False] no assms(2) st(1) c by fastforce
  then show ?thesis using st(1) by blast
next
  case False
  then have "obind (oany (\<lambda>st. atom_is True False st candidate) (must_hold fb)) (\<lambda>b.
       if b then Returns True else oany (\<lambda>st. atom_is True True st candidate) (must_not_hold fb)) = Returns True"
    using assms(1) by (auto simp: screens_out_def split: formula.splits)
  then consider "oany (\<lambda>st. atom_is True False st candidate) (must_hold fb) = Returns True"
    | "oany (\<lambda>st. atom_is True True st candidate) (must_not_hold fb) = Returns True"
    by (auto simp: obind_eq_Returns split: if_splits)
  then show ?thesis
  proof cases
    case 1
    then obtain st where "st \<in> set (must_hold fb)" "ice_atom True candidate st = Returns (Some False)"
      using oany_True by (fastforce simp: atom_is_def obind_eq_Returns)
    then show ?thesis using ice_atom_value assms(2) by (metis Un_iff set_append)
  next
    case 2
    then obtain st where "st \<in> set (must_not_hold fb)" "ice_atom True candidate st = Returns (Some True)"
      using oany_True by (fastforce simp: atom_is_def obind_eq_Returns)
    then show ?thesis using ice_atom_value assms(2) by (metis Un_iff set_append)
  qed
qed

section \<open>The search returns what the check accepts\<close>

lemma run_tier_accepted:
  "run_tier oc late candidates posts info cfg z inner cs = Returns (Some f, cs') \<Longrightarrow>
    \<exists>candidate \<in> set candidates. f = normalize_candidate cfg (loop_header info) candidate \<and> \<not> is_tautology f \<and>
      check_loop_invariant_verbose oc info cfg candidate z posts inner = Returns Accepted"
proof (induction candidates arbitrary: cs)
  case (Cons c candidates)
  let ?n = "normalize_candidate cfg (loop_header info) c"
  obtain timeout cs1 where l: "look late cs = (timeout, cs1)" by fastforce
  then have "\<not> timeout" using Cons.prems by auto
  then consider (later) cs2 where "run_tier oc late candidates posts info cfg z inner cs2 = Returns (Some f, cs')"
    | (here) "f = ?n" "\<not> is_tautology ?n" "check_loop_invariant_verbose oc info cfg c z posts inner = Returns Accepted"
    using Cons.prems unfolding run_tier.simps l Let_def prod.case
    by (auto simp: obind_eq_Returns is_accepted_def split: if_splits)
  then show ?case
  proof cases
    case later
    then show ?thesis using Cons.IH by auto
  qed auto
qed simp

lemma run_tiers_accepted:
  "run_tiers oc late tiers posts info cfg z inner cs = Returns (Some f) \<Longrightarrow>
    \<exists>candidate. f = normalize_candidate cfg (loop_header info) candidate \<and> \<not> is_tautology f \<and>
      check_loop_invariant_verbose oc info cfg candidate z posts inner = Returns Accepted"
proof (induction tiers arbitrary: cs)
  case (Cons tier tiers)
  then obtain r cs1 where "run_tier oc late tier posts info cfg z inner cs = Returns (r, cs1)"
    "(case r of Some invariant \<Rightarrow> Returns (Some invariant) | None \<Rightarrow> (case look late cs1 of (timeout, cs) \<Rightarrow>
       if timeout then Returns None else run_tiers oc late tiers posts info cfg z inner cs)) = Returns (Some f)"
    by (auto simp: obind_eq_Returns)
  then show ?case using Cons.IH run_tier_accepted
    by (fastforce simp: look_def split: option.splits if_splits)
qed simp

lemma synthesize_accepted:
  "synthesize_with_cegis oc late info cfg posts inner z = Returns (Some f) \<Longrightarrow>
    \<exists>candidate. f = normalize_candidate cfg (loop_header info) candidate \<and> \<not> is_tautology f \<and>
      check_loop_invariant_verbose oc info cfg candidate z posts inner = Returns Accepted"
  unfolding synthesize_with_cegis_def Let_def obind_eq_Returns using run_tiers_accepted by blast

definition accepted_as ::
  "bool \<Rightarrow> abstract_cfg \<Rightarrow> solver \<Rightarrow> (cfg_node_id, formula) btree \<Rightarrow> loop_info \<Rightarrow> inner_invariants \<Rightarrow> formula \<Rightarrow> bool" where
  "accepted_as oc cfg z posts info inner f \<longleftrightarrow> \<not> is_tautology f \<and> (\<exists>candidate.
     f = normalize_candidate cfg (loop_header info) candidate \<and>
     check_loop_invariant_verbose oc info cfg candidate z posts inner = Returns Accepted)"

lemma synthesize_loops_accepted:
  "synthesize_loops oc late cfg posts z index loops accepted = Returns (Inr invs) \<Longrightarrow>
    \<exists>new. invs = accepted @ new \<and> map inv_header new = map loop_header loops \<and>
      (\<forall>i < length new. accepted_as oc cfg z posts (loops ! i) (map as_pair (accepted @ take i new)) (inv_formula (new ! i)))"
proof (induction loops arbitrary: index accepted)
  case (Cons info loops)
  then obtain f where f: "synthesize_with_cegis oc (late index) info cfg posts (map as_pair accepted) z = Returns (Some f)"
    "synthesize_loops oc late cfg posts z (Suc index) loops (accepted @ [\<lparr>inv_header = loop_header info, inv_formula = f\<rparr>])
      = Returns (Inr invs)"
    by (auto simp: obind_eq_Returns split: option.splits)
  let ?v = "\<lparr>inv_header = loop_header info, inv_formula = f\<rparr>"
  obtain new where new: "invs = (accepted @ [?v]) @ new" "map inv_header new = map loop_header loops"
    "\<forall>i < length new. accepted_as oc cfg z posts (loops ! i) (map as_pair ((accepted @ [?v]) @ take i new)) (inv_formula (new ! i))"
    using Cons.IH [OF f(2)] by blast
  have "accepted_as oc cfg z posts info (map as_pair accepted) f"
    using synthesize_accepted [OF f(1)] by (auto simp: accepted_as_def)
  then have "accepted_as oc cfg z posts ((info # loops) ! i) (map as_pair (accepted @ take i (?v # new))) (inv_formula ((?v # new) ! i))"
    if "i < length (?v # new)" for i
    using new(3) that by (cases i) auto
  with new(1,2) show ?case by (intro exI [of _ "?v # new"]) auto
qed simp

text \<open>
  C13: the synthesis returns an invariant for every detected loop, innermost first, and each of them
  is a candidate that passed the three checks with the invariants before it, pulled over its
  header, and is not recognised as a tautology.
\<close>

theorem synthesized_invariants_accepted:
  assumes "synthesize_loop_invariants oc late cfg posts z = Returns (Inr invs)"
  shows "\<exists>loops. detect_loops cfg = Returns loops \<and>
    map inv_header invs = map loop_header (sort_innermost_first loops) \<and>
    (\<forall>i < length invs. accepted_as oc cfg z posts (sort_innermost_first loops ! i)
       (map as_pair (take i invs)) (inv_formula (invs ! i)))"
  using assms synthesize_loops_accepted [of oc late cfg posts z 0 _ "[]" invs]
  unfolding synthesize_loop_invariants_def obind_eq_Returns by fastforce

end
