(* ===== verification/Loop_Verdict.thy ===== *)
theory Loop_Verdict
  imports Invariants_Correct Backward_Claims
begin

text \<open>
  The verdict \<open>Verified\<close> on a function with one loop: the pass over the graph without its back edge
  answers for the runs that do not iterate, and the exits that the accepted invariant closes for
  those that do, as long as the assertion lies outside the loop.
\<close>

section \<open>The preliminary backward states\<close>

definition ahead_inv ::
  "abstract_cfg \<Rightarrow> cfg_edge_id set \<Rightarrow> assertion_site \<Rightarrow> abstract_edge set \<Rightarrow> rule_engine \<Rightarrow> bool" where
  "ahead_inv cfg ex site D E \<longleftrightarrow> engine_wf cfg E \<and> states_good cfg E \<and> set (blocked_edges E) = ex \<and>
     (\<forall>n s. violation_via cfg ex site D n s \<longrightarrow> eval_formula s (state_at E n))"

lemma ahead_pulled:
  assumes wf: "cfg_wf cfg" and an: "analysable cfg site" and e: "e \<in> set (all_edges cfg)"
    and inv: "ahead_inv cfg ex site D E" and succ: "{g \<in> set (kept_edges ex cfg). edge_source g = edge_target e} \<subseteq> D"
  shows "ahead_inv cfg ex site (D \<union> followed cfg ex [e]) (pulled e E)"
proof (cases "edge_id e \<in> ex")
  case True
  then have "pulled e E = E" using inv by (simp add: pulled_def ahead_inv_def is_blocked_def)
  moreover have "D \<union> followed cfg ex [e] = D" using True by (auto simp: kept_edges_def)
  ultimately show ?thesis using inv by simp
next
  case False
  have E: "engine_wf cfg E" using inv by (simp add: ahead_inv_def)
  let ?t = "state_at E (edge_target e)"
  have good: "wp_good (assigned cfg) ?t" using inv by (simp add: ahead_inv_def states_good_def)
  have st: "state_at (pulled e E) n = (if n \<noteq> edge_source e then state_at E n else f_or (state_at E n) (edge_pre cfg e ?t))" for n
    using pulled_state [OF E wf e] False inv by (simp add: ahead_inv_def is_blocked_def)
  have "states_good cfg (pulled e E)"
    using inv edge_pre_good [OF an e good] by (auto simp: states_good_def ahead_inv_def st)
  moreover have "eval_formula s (state_at (pulled e E) n)"
    if v: "violation_via cfg ex site (D \<union> followed cfg ex [e]) n s" for n s
  proof (cases "violation_via cfg ex site D n s")
    case True
    then have "eval_formula s (state_at E n)" using inv by (auto simp: ahead_inv_def)
    then show ?thesis by (auto simp: st)
  next
    case no: False
    with v obtain t where t: "n = edge_source e" "edge_step cfg e s t"
      "violates_by cfg ex site (edge_target e) t" by (auto simp: violation_via_def)
    have "violation_via cfg ex site D (edge_target e) t"
      using t(3) by (cases rule: violates_by.cases) (use succ in \<open>auto simp: violation_via_def\<close>)
    then have "eval_formula t ?t" using inv by (auto simp: ahead_inv_def)
    then have "eval_formula s (edge_pre cfg e ?t)" by (rule edge_pre_covers [OF an e good t(2)])
    then show ?thesis using t(1) by (simp add: st)
  qed
  ultimately show ?thesis using inv E wf e by (auto simp: ahead_inv_def)
qed

lemma ahead_in_loop:
  assumes "cfg_wf cfg" "analysable cfg site" "{g \<in> set (kept_edges ex cfg). edge_source g = n} \<subseteq> D"
    and "set es \<subseteq> set (in_to cfg n)" "ahead_inv cfg ex site D E" "rfold notmay_pre (map edge_id es) E = Inr E'"
  shows "ahead_inv cfg ex site (D \<union> followed cfg ex es) E'"
  using assms(3-6)
proof (induction es arbitrary: E D)
  case (Cons e es)
  have e: "e \<in> set (all_edges cfg)" "edge_target e = n" using Cons.prems by auto
  have E: "engine_wf cfg E" using Cons.prems(3) by (simp add: ahead_inv_def)
  let ?D = "D \<union> followed cfg ex [e]"
  have "ahead_inv cfg ex site ?D (pulled e E)"
    using ahead_pulled [OF assms(1,2) e(1) Cons.prems(3)] Cons.prems(1) e(2) by blast
  then have "ahead_inv cfg ex site (?D \<union> followed cfg ex es) E'"
    using Cons.IH [of ?D "pulled e E"] Cons.prems(1,2,4) notmay_pre_eq [OF E assms(1) e(1)] by auto
  moreover have "?D \<union> followed cfg ex es = D \<union> followed cfg ex (e # es)" by auto
  ultimately show ?case by simp
qed simp

lemma ahead_pass:
  assumes wf: "cfg_wf cfg" and an: "analysable cfg site"
    and topo: "topological (node_ids cfg) (kept_edges ex cfg) order"
    and inv: "ahead_inv cfg ex site {} E"
    and run: "rfold (\<lambda>node. rfold notmay_pre (incoming_edges cfg node)) (rev order) E = Inr E'"
  shows "ahead_inv cfg ex site (set (kept_edges ex cfg)) E'"
proof -
  let ?D = "\<lambda>zs. {e \<in> set (kept_edges ex cfg). edge_target e \<in> set zs}"
  let ?f = "\<lambda>node. rfold notmay_pre (incoming_edges cfg node)"
  have "ahead_inv cfg ex site (?D (ys @ zs)) E'"
    if "order = ys @ zs" "ahead_inv cfg ex site (?D zs) E" "rfold ?f (rev ys) E = Inr E'" for ys zs E
    using that
  proof (induction ys arbitrary: zs E rule: rev_induct)
    case (snoc n ys)
    then obtain U where U: "rfold notmay_pre (map edge_id (in_to cfg n)) E = Inr U" "rfold ?f (rev ys) U = Inr E'"
      by (auto simp: rbind_eq_Inr outgoing_incoming)
    have order: "order = ys @ n # zs" using snoc.prems(1) by simp
    have "{g \<in> set (kept_edges ex cfg). edge_source g = n} \<subseteq> ?D zs"
      using topological_split(2) [OF topo [unfolded order]] all_edges_nodes [OF wf] kept_all by blast
    then have "ahead_inv cfg ex site (?D zs \<union> followed cfg ex (in_to cfg n)) U"
      using ahead_in_loop [OF wf an _ _ snoc.prems(2) U(1)] by blast
    moreover have "?D zs \<union> followed cfg ex (in_to cfg n) = ?D (n # zs)" using kept_all by auto
    ultimately have "ahead_inv cfg ex site (?D (n # zs)) U" by simp
    from snoc.IH [OF order this U(2)] show ?case by simp
  qed simp
  from this [of order "[]" E] inv run have "ahead_inv cfg ex site (?D order) E'" by simp
  moreover have "?D order = set (kept_edges ex cfg)"
    using topo all_edges_nodes [OF wf] by (auto simp: topological_def dest: kept_all)
  ultimately show ?thesis by simp
qed

lemma lift_rule_Inr: "lift_rule r = Inr x \<longleftrightarrow> r = Inr x"
  by (auto simp: lift_rule_def split: sum.splits)

lemma start_engine_parts:
  assumes "cfg_wf cfg"
  shows "engine_wf cfg (start_engine cfg is)" "set (blocked_edges (start_engine cfg is)) = set is"
    and "state_at (start_engine cfg is) n = FFalse"
    and "reach_at (start_engine cfg is) n = (if n = cfg_entry cfg then FTrue else FFalse)"
  using init_summaries [OF assms] by (simp_all add: start_engine_def fold_block_edge)

lemma preliminary_states:
  assumes wf: "cfg_wf cfg" and an: "analysable cfg site" and site: "site_node site \<in> set (node_ids cfg)"
    and run: "compute_preliminary_backward_states cfg site is = Returns (Inr posts)" and n: "n \<in> set (node_ids cfg)"
  shows "\<exists>p. bt_get posts n = Some p \<and> wp_good (assigned cfg) p \<and>
    (\<forall>s. violates_by cfg (set is) site n s \<longrightarrow> eval_formula s p)"
proof -
  let ?E = "with_summary (site_node site) (\<lambda>s. s\<lparr>state := seed cfg site\<rparr>) (start_engine cfg is)"
  note start = start_engine_parts [OF wf, of "is"]
  obtain order E' where order: "topological_order_excluding (set is) cfg = Returns (Some order)"
    and E': "rfold (\<lambda>node. rfold notmay_pre (incoming_edges cfg node)) (rev order) ?E = Inr E'"
    and posts: "posts = map (\<lambda>(i, s). (i, state s)) (summaries E')"
    using run unfolding compute_preliminary_backward_states_def obind_eq_Returns seed_assertion_eq [OF start(1) site]
    by (auto simp: lift_rule_Inr rbind_eq_Inr split: option.split_asm)
  have topo: "topological (node_ids cfg) (kept_edges (set is) cfg) order"
    using order_cases [OF wf, of "set is"] order by auto
  have st: "state_at ?E m = (if m = site_node site then seed cfg site else FFalse)" for m
    using put_state_at(1) [OF start(1) site] start(3) by simp
  have "ahead_inv cfg (set is) site {} ?E"
    using start(1,2) site seed_good [OF an] seed_covers [OF an]
    by (auto simp: ahead_inv_def states_good_def st violation_via_def fails_here_def)
  then have inv: "ahead_inv cfg (set is) site (set (kept_edges (set is) cfg)) E'"
    by (rule ahead_pass [OF wf an topo _ E'])
  then obtain s where s: "bt_get (summaries E') n = Some s"
    using engine_wf_get n by (auto simp: ahead_inv_def)
  then have get: "bt_get posts n = Some (state_at E' n)"
    by (auto simp: posts bt_get_def map_of_map state_at_def split: option.splits)
  have "violation_via cfg (set is) site (set (kept_edges (set is) cfg)) n s" if "violates_by cfg (set is) site n s" for s
    using that by (cases rule: violates_by.cases) (auto simp: violation_via_def)
  with inv get show ?thesis by (auto simp: ahead_inv_def states_good_def)
qed

section \<open>Runs through the loop\<close>

definition kept_step ::
  "abstract_cfg \<Rightarrow> cfg_edge_id set \<Rightarrow> cfg_node_id \<times> valuation \<Rightarrow> cfg_node_id \<times> valuation \<Rightarrow> bool" where
  "kept_step cfg ex = (\<lambda>(n, s) (m, t). \<exists>e \<in> set (kept_edges ex cfg). edge_source e = n \<and> edge_target e = m \<and> edge_step cfg e s t)"

lemma violates_before:
  assumes "(kept_step cfg ex)\<^sup>*\<^sup>* x y" "violates_by cfg ex site (fst y) (snd y)"
  shows "violates_by cfg ex site (fst x) (snd x)"
  using assms
proof (induction rule: converse_rtranclp_induct)
  case (step x z)
  then show ?case by (auto simp: kept_step_def intro: violates_by.later)
qed

lemma skeleton_violates:
  "skeleton_run cfg ex s0 n s \<Longrightarrow> violates_by cfg ex site n s \<Longrightarrow> violates_by cfg ex site (cfg_entry cfg) s0"
  by (induction rule: skeleton_run.induct) (auto intro: violates_by.later)

text \<open>A run that ends outside the loop has not iterated, or has left the loop for good.\<close>

lemma run_outside:
  assumes "one_loop cfg b info" "cfg_entry cfg \<notin> loop_nodes info" and "cfg_run cfg s0 n s" "n \<notin> loop_nodes info"
  shows "skeleton_run cfg {edge_id b} s0 n s \<or> (\<exists>x u t. x \<in> set (all_edges cfg) \<and> edge_source x \<in> loop_nodes info \<and>
    edge_target x \<notin> loop_nodes info \<and> cfg_run cfg s0 (edge_source x) u \<and> edge_step cfg x u t \<and>
    (kept_step cfg {edge_id b})\<^sup>*\<^sup>* (edge_target x, t) (n, s))"
  using assms(3,4)
proof (induction rule: cfg_run.induct)
  case start
  then show ?case by (auto intro: skeleton_run.start)
next
  case (along e s t)
  show ?case
  proof (cases "edge_source e \<in> loop_nodes info")
    case True
    with along.hyps along.prems show ?thesis by blast
  next
    case False
    note info = one_loop_info [OF assms(1)]
    have "e \<noteq> b" using False info(7) by auto
    then have kept: "e \<in> set (kept_edges {edge_id b} cfg)"
      using along.hyps(2) info(2) edge_id_inj [OF info(1)] by (auto simp: kept_edges_def)
    then have "kept_step cfg {edge_id b} (edge_source e, s) (edge_target e, t)"
      using along.hyps(3) by (auto simp: kept_step_def)
    with along.IH [OF False] kept along.hyps(3) show ?thesis
      by (meson rtranclp.rtrancl_into_rtrancl skeleton_run.along)
  qed
qed

section \<open>The cyclic path of the analysis\<close>

text \<open>The synthesis as the analysis of a graph calls it, in a build that checks overflow.\<close>

definition loop_synthesis ::
  "(nat \<Rightarrow> nat \<Rightarrow> bool) \<Rightarrow> abstract_cfg \<Rightarrow> solver \<Rightarrow> (cfg_node_id, formula) btree
    \<Rightarrow> (backward_error + verified_loop_invariant list) outcome" where
  "loop_synthesis late cfg z posts = synthesize_loop_invariants True late cfg posts z"

lemma inject_ready:
  assumes "engine_wf cfg E" "h \<in> set (node_ids cfg)" "inject_invariant (h, f) E = Inr E'"
  shows "engine_wf cfg E'" "blocked_edges E' = blocked_edges E" "state_at E' = state_at E"
    and "n \<noteq> h \<Longrightarrow> reach_at E' n = reach_at E n"
  using assms summary_mut_eq [OF assms(1,2)] engine_wf_get [OF assms(1), of h]
  by (auto simp: inject_invariant_def with_summary_def engine_wf_def reach_at_def state_at_def fun_eq_iff
      bt_keys_iff bt_get_insert split: option.splits if_splits)

lemma single_loop_cyclic:
  assumes "one_loop cfg b info"
  shows "topological_order cfg = Returns None"
proof -
  note info = one_loop_info [OF assms]
  have "closes_cycle cfg (edge_id b)" using back_edges_break_cycles [OF info(1)] info(3) by auto
  then have "(edge_target b, edge_source b) \<in> (graph cfg)\<^sup>*"
    using edge_nodes(1) [OF info(1,2)] by (auto simp: closes_cycle_def)
  moreover have "(edge_source b, edge_target b) \<in> graph cfg" using info(2) by (auto simp: flow_def)
  ultimately have "\<not> acyclic (graph cfg)" unfolding acyclic_def by (meson rtrancl_into_trancl1)
  then have "topological_order_excluding {} cfg = Returns None" using order_cases [OF info(1), of "{}"] by auto
  then show ?thesis by (simp add: topological_order_def topological_order_excluding_def)
qed

lemma analyze_one_loop:
  assumes loop: "one_loop cfg b info" and site: "site_node site \<in> set (node_ids cfg)"
    and "cfg_entry cfg \<noteq> loop_header info"
    and run: "analyze cfg site z (loop_synthesis late cfg z) = Returns (Inr r)"
  shows "\<exists>posts f E E' order. compute_preliminary_backward_states cfg site [edge_id b] = Returns (Inr posts) \<and>
    loop_synthesis late cfg z posts = Returns (Inr [\<lparr>inv_header = loop_header info, inv_formula = f\<rparr>]) \<and>
    accepted_as True cfg z posts info [] f \<and> ready cfg {edge_id b} site E \<and>
    topological (node_ids cfg) (kept_edges {edge_id b} cfg) order \<and>
    run_to_fixpoint z table_new order E = Inr E' \<and>
    judge z (cfg_entry cfg) (detect_back_edges cfg = Some []) E' = Inr (result_judgement r)"
proof -
  note info = one_loop_info [OF loop]
  have loops: "detect_loops cfg = Returns [info]"
    using loop by (simp add: one_loop_def detect_loops_def List.map_filter_simps)
  obtain posts invs where posts: "compute_preliminary_backward_states cfg site [edge_id b] = Returns (Inr posts)"
    and invs: "loop_synthesis late cfg z posts = Returns (Inr invs)"
    and passed: "run_backward cfg site z [edge_id b] invs table_new Map.empty = Returns (Inr r)"
  proof -
    from run single_loop_cyclic [OF loop] info(3) obtain states where
      s: "compute_preliminary_backward_states cfg site [edge_id b] = Returns states" "(case states of Inl e \<Rightarrow> Returns (Inl e)
      | Inr posts \<Rightarrow> obind (loop_synthesis late cfg z posts) (\<lambda>r. case r of Inl e \<Rightarrow> Returns (Inl e) | Inr invs \<Rightarrow>
          if invs = [] then Returns (Inl CyclicCfgUnsupported)
          else run_backward cfg site z [edge_id b] invs table_new Map.empty)) = Returns (Inr r)"
      by (auto simp: analyze_def analyze_with_tables_def obind_eq_Returns Let_def)
    show ?thesis
    proof (cases states)
      case (Inr posts)
      with s(2) obtain x where x: "loop_synthesis late cfg z posts = Returns x" "(case x of Inl e \<Rightarrow> Returns (Inl e) | Inr invs \<Rightarrow>
          if invs = [] then Returns (Inl CyclicCfgUnsupported)
          else run_backward cfg site z [edge_id b] invs table_new Map.empty) = Returns (Inr r)"
        by (auto simp: obind_eq_Returns)
      then show ?thesis using that [of posts] s(1) Inr by (cases x) (auto split: if_splits)
    qed (use s in simp)
  qed
  have synth: "synthesize_loop_invariants True late cfg posts z = Returns (Inr invs)"
    using invs by (simp add: loop_synthesis_def)
  then have "synthesize_loops True late cfg posts z 0 [info] [] = Returns (Inr invs)"
    by (simp add: synthesize_loop_invariants_def loops sort_innermost_first_def)
  from synthesize_loops_accepted [OF this] obtain v where v: "invs = [v]" "inv_header v = loop_header info"
    and acc: "accepted_as True cfg z posts info [] (inv_formula v)"
    by (auto simp: map_eq_Cons_conv)
  define f where "f = inv_formula v"
  have f: "invs = [\<lparr>inv_header = loop_header info, inv_formula = f\<rparr>]" using v by (cases v) (simp add: f_def)
  note acc = acc [folded f_def]
  have header: "loop_header info \<in> set (node_ids cfg)" using all_edges_nodes [OF info(1,2)] info(5) by simp
  obtain order E1 E2 E' where order: "topological_order_excluding {edge_id b} cfg = Returns (Some order)"
    and E1: "inject_invariant (loop_header info, f) (start_engine cfg [edge_id b]) = Inr E1"
    and E2: "seed_assertion site E1 = Inr E2" and E': "run_to_fixpoint z table_new order E2 = Inr E'"
    and j: "judge z (cfg_entry cfg) (detect_back_edges cfg = Some []) E' = Inr (result_judgement r)"
    using passed unfolding run_backward_def obind_eq_Returns f
    by (auto simp: conjunct_loop_invariants_def bt_get_def lift_rule_Inr rbind_eq_Inr Let_def split: option.split_asm)
  note start = start_engine_parts [OF info(1), of "[edge_id b]"]
  note E1_parts = inject_ready [OF start(1) header E1]
  have "E2 = with_summary (site_node site) (\<lambda>s. s\<lparr>state := seed cfg site\<rparr>) E1"
    using E2 seed_assertion_eq [OF E1_parts(1) site] by simp
  then have "ready cfg {edge_id b} site E2"
    using E1_parts start put_state_at [OF E1_parts(1) site] site assms(3) by (simp add: ready_def)
  moreover have "topological (node_ids cfg) (kept_edges {edge_id b} cfg) order"
    using order_cases [OF info(1), of "{edge_id b}"] order by auto
  ultimately show ?thesis using posts invs acc E' j unfolding f by blast
qed

text \<open>The invariants found can be handled by the substitution of Boolean variables.\<close>

definition plain_invariants ::
  "(nat \<Rightarrow> nat \<Rightarrow> bool) \<Rightarrow> abstract_cfg \<Rightarrow> assertion_site \<Rightarrow> solver \<Rightarrow> cfg_edge_id \<Rightarrow> bool" where
  "plain_invariants late cfg site z i \<longleftrightarrow> (case compute_preliminary_backward_states cfg site [i] of
     Returns (Inr posts) \<Rightarrow> (case loop_synthesis late cfg z posts of
         Returns (Inr invs) \<Rightarrow> \<forall>v \<in> set invs. wp_good (assigned cfg) (inv_formula v) | _ \<Rightarrow> True)
   | _ \<Rightarrow> True)"

text \<open>
  C3: soundness of \<open>Verified\<close> with a loop.  On a graph with one loop whose body contains no havoc and
  whose branches exclude each other, with effects that the forward pass handles and guards that are stable
  outside the back edge, with the invariants that the synthesis finds (which coerce no assigned Boolean), a
  sound solver and checked arithmetic, an assertion outside the loop that is judged \<open>Verified\<close> fails in no
  execution, however often the loop iterates.
\<close>

theorem loop_verified_sound:
  assumes "single_loop cfg b info site" and "cfg_entry cfg \<notin> loop_nodes info" and "stable_on cfg {edge_id b}"
    and "sound_solver z" and "site_node site \<in> set (node_ids cfg)" "site_node site \<notin> loop_nodes info"
    and "plain_invariants late cfg site z (edge_id b)"
    and "analyze cfg site z (loop_synthesis late cfg z) = Returns (Inr r)" and "result_judgement r = Verified"
  shows "\<not> (\<exists>s0 m s. cfg_run cfg s0 m s \<and> fails_here cfg site m s)"
proof -
  have loop: "one_loop cfg b info" and an: "analysable cfg site" using assms(1) by (simp_all add: single_loop_def)
  note info = one_loop_info [OF loop]
  let ?ex = "{edge_id b}"
  have "cfg_entry cfg \<noteq> loop_header info" using assms(2) info(5,8) by auto
  then obtain posts f E E' order where posts: "compute_preliminary_backward_states cfg site [edge_id b] = Returns (Inr posts)"
    and f: "loop_synthesis late cfg z posts = Returns (Inr [\<lparr>inv_header = loop_header info, inv_formula = f\<rparr>])"
    and acc: "accepted_as True cfg z posts info [] f" and E: "ready cfg ?ex site E"
    "topological (node_ids cfg) (kept_edges ?ex cfg) order" "run_to_fixpoint z table_new order E = Inr E'"
    and j: "judge z (cfg_entry cfg) (detect_back_edges cfg = Some []) E' = Inr Verified"
    using analyze_one_loop [OF loop assms(5) _ assms(8)] assms(9) by metis
  have good: "wp_good (assigned cfg) f" using assms(7) posts f by (simp add: plain_invariants_def)
  have inv: "cover_inv cfg ?ex site (set (kept_edges ?ex cfg)) E'"
    by (rule fixpoint_covers [OF info(1) an assms(3) unused_new assms(4) E(2,1,3)])
  have entry: "cfg_entry cfg \<in> set (node_ids cfg)" using info(1) by (simp add: cfg_wf_defs)
  have safe: "\<not> violates_by cfg ?ex site (cfg_entry cfg) s0" if "admissible s0" for s0
    using covered_entry_safe [OF inv that] judge_Verified [OF j _ entry assms(4)] inv by (simp add: cover_inv_def)
  obtain cand where cand: "f = normalize_candidate cfg (loop_header info) cand"
    "check_loop_invariant_verbose True info cfg cand z posts [] = Returns Accepted"
    using acc by (auto simp: accepted_as_def)
  have False if run: "cfg_run cfg s0 m s" and fails: "fails_here cfg site m s" for s0 m s
  proof -
    have "admissible s0" using run by (induction rule: cfg_run.induct)
    have v: "violates_by cfg ?ex site m s" by (rule violates_by.here) fact
    have "m \<notin> loop_nodes info" using fails assms(6) by (simp add: fails_here_def)
    from run_outside [OF loop assms(2) run this] show False
    proof (elim disjE exE conjE)
      assume "skeleton_run cfg ?ex s0 m s"
      then show False using skeleton_violates v safe \<open>admissible s0\<close> by blast
    next
      fix x u t
      assume x: "x \<in> set (all_edges cfg)" "edge_source x \<in> loop_nodes info" "edge_target x \<notin> loop_nodes info"
        "cfg_run cfg s0 (edge_source x) u" "edge_step cfg x u t" "(kept_step cfg ?ex)\<^sup>*\<^sup>* (edge_target x, t) (m, s)"
      have "violates_by cfg ?ex site (edge_target x) t" using violates_before [OF x(6)] v by simp
      moreover have "edge_target x \<in> set (node_ids cfg)" using all_edges_nodes [OF info(1) x(1)] by simp
      ultimately obtain p where p: "bt_get posts (edge_target x) = Some p" "wp_good (assigned cfg) p" "eval_formula t p"
        using preliminary_states [OF info(1) an assms(5) posts] by auto
      with accepted_exits [OF assms(1,4) cand(2,1) good x(1-3) p(1,2) x(4,5)] show False by blast
    qed
  qed
  then show ?thesis by blast
qed

end
