(* ===== verification/Invariants_Claims.thy ===== *)
theory Invariants_Claims
  imports Loop_Verdict Loops_Claims
begin

text \<open>
  The search for invariants on a graph with one loop, the witnesses of its properties on the
  example loop, and what the search gets wrong: substitutions that are cut off, examples that are
  evaluated with wrapped arithmetic, and a division that panics.
\<close>

definition never_late :: "nat \<Rightarrow> nat \<Rightarrow> bool" where
  "never_late index k \<longleftrightarrow> False"

text \<open>
  C12: on a graph with one loop whose body contains no havoc and whose branches exclude each other, what
  the synthesis hands to the analysis is true: with a sound solver and checked arithmetic every synthesized
  formula that coerces no assigned Boolean holds whenever any run enters the header it is attached to.
\<close>

theorem synthesized_invariant_holds:
  assumes "single_loop cfg b info site" and "sound_solver z"
    and "synthesize_loop_invariants True late cfg posts z = Returns (Inr invs)"
    and "v \<in> set invs" "wp_good (assigned cfg) (inv_formula v)" "cfg_run cfg s0 (inv_header v) s"
  shows "eval_formula s (inv_formula v)"
proof -
  have loop: "one_loop cfg b info" using assms(1) by (simp add: single_loop_def)
  then have "detect_loops cfg = Returns [info]"
    by (simp add: one_loop_def detect_loops_def List.map_filter_simps)
  moreover have "\<exists>loops. detect_loops cfg = Returns loops \<and>
    map inv_header invs = map loop_header (sort_innermost_first loops) \<and>
    (\<forall>i < length invs. accepted_as True cfg z posts (sort_innermost_first loops ! i)
       (map as_pair (take i invs)) (inv_formula (invs ! i)))"
    using assms(3) synthesize_loops_accepted [of True late cfg posts z 0 _ "[]" invs]
    unfolding synthesize_loop_invariants_def obind_eq_Returns by fastforce
  ultimately have heads: "map inv_header invs = [loop_header info]"
    and acc: "\<forall>i < length invs. accepted_as True cfg z posts ([info] ! i) (map as_pair (take i invs)) (inv_formula (invs ! i))"
    by (auto simp: sort_innermost_first_def)
  from heads obtain w where "invs = [w]" by (auto simp: map_eq_Cons_conv)
  with assms(4) heads have v: "invs = [v]" "inv_header v = loop_header info" by auto
  obtain cand where "inv_formula v = normalize_candidate cfg (loop_header info) cand"
    "check_loop_invariant_verbose True info cfg cand z posts [] = Returns Accepted"
    using acc v(1) by (auto simp: accepted_as_def)
  with accepted_holds [OF assms(1,2)] assms(5,6) v(2) show ?thesis by metis
qed

lemma counting_synthesis:
  "synthesize_loop_invariants True never_late counting [(3, f_not (x_is 1))] (knowing [x_is 1])
    = Returns (Inr [\<lparr>inv_header = 1, inv_formula = x_is 1\<rparr>])"
  by code_simp


theorem synthesized_invariant_witness:
  "{s. \<exists>s0. cfg_run counting s0 1 s} \<subseteq> {s. eval_formula s (x_is 1)}"
proof -
  have good: "wp_good (assigned counting) (x_is 1)" by (simp add: wp_good_def x_is_def)
  show ?thesis
    using synthesized_invariant_holds [OF counting_single knowing_sound counting_synthesis,
        of "\<lparr>inv_header = 1, inv_formula = x_is 1\<rparr>"]
    by (auto simp: good x_is_possible)
qed

theorem synthesized_accepted_witness:
  "accepted_as True counting (knowing [x_is 1]) [(3, f_not (x_is 1))] while_info [] (x_is 1)"
proof -
  have loops: "detect_loops counting = Returns [while_info]" by code_simp
  from synthesized_invariants_accepted [OF counting_synthesis] loops show ?thesis
    by (auto simp: sort_innermost_first_def)
qed

text \<open>The assertion \<open>x == 1\<close> behind the example loop.\<close>

definition behind_site :: assertion_site where
  "behind_site = (branch_site 1)\<lparr>site_node := 3\<rparr>"

theorem loop_verified_witness:
  "\<not> (\<exists>s0 m s. cfg_run counting s0 m s \<and> fails_here counting behind_site m s)"
proof -
  let ?z = "knowing [x_is 1]"
  have "analysable counting behind_site"
    using counting_analysable by (simp add: analysable_def behind_site_def)
  then have single: "single_loop counting (example_edge 2 2 1) while_info behind_site"
    using counting_single by (simp add: single_loop_def)
  have none: "assigned counting = {}"
    by (auto simp: assigned_def all_effects_def while_defs bt_values_def)
  then have "plain_invariants never_late counting behind_site ?z 2"
    by (auto simp: plain_invariants_def wp_good_def split: outcome.splits sum.splits)
  moreover have "stable_on counting {2}"
    by (auto simp: stable_on_def kept_edges_def while_edges example_edge_def symbols_def writes_all_def)
  moreover have "case analyze counting behind_site ?z (loop_synthesis never_late counting ?z) of
      Returns (Inr r) \<Rightarrow> result_judgement r = Verified | _ \<Rightarrow> False"
    by code_simp
  moreover have "site_node behind_site \<in> set (node_ids counting)" by code_simp
  ultimately show ?thesis
    using loop_verified_sound [OF single _ _ knowing_sound, of "[x_is 1]" never_late]
    by (auto simp: x_is_possible while_info_def behind_site_def example_edge_def while_cfg_def
        split: outcome.splits sum.splits)
qed

definition seen_five :: ice_feedback where
  "seen_five = \<lparr>must_hold = [[''x'' \<mapsto> 5]], must_not_hold = []\<rparr>"

theorem screened_out_witness:
  "{s. has_example [''x'' \<mapsto> 5] s} \<inter> {s. eval_formula s (FLe (TVar (var_int ''x'')) (TInt 3))} = {}"
proof -
  have "screens_out True seen_five (FLe (TVar (var_int ''x'')) (TInt 3)) = Returns True" by code_simp
  from screened_out_refuted [OF this] show ?thesis
    by (auto simp: seen_five_def var_int_def var_new_def)
qed

section \<open>Where the search goes wrong\<close>

text \<open>
  A variable that the body updates from itself: the substitution of the body's assignments doubles in
  each of the eight rounds and stops there, so the counter of the example loop is replaced by
  itself plus 256.
\<close>

lemma counter_substituted:
  "resolve_round (build_body_var_subst while_info counting) \<noteq> build_body_var_subst while_info counting"
  "ice_term True (substitute_term_vars_to_terms (TVar (var_int ''n'')) (build_body_var_subst while_info counting)) [''n'' \<mapsto> 0]
    = Returns (Some 256)"
  by code_simp+

text \<open>
  Examples are evaluated with wrapped arithmetic, the solver's integers are unbounded: a candidate
  that always holds is dropped.
\<close>

definition grows :: formula where
  "grows = FLt (TVar (var_int ''x'')) (TAdd (TVar (var_int ''x'')) (TInt 1))"

lemma valid_candidate_dropped:
  "screens_out True \<lparr>must_hold = [[''x'' \<mapsto> word_of_int (2 ^ 63 - 1)]], must_not_hold = []\<rparr> grows = Returns True"
  "admissible s \<Longrightarrow> eval_formula s grows"
proof -
  show "screens_out True \<lparr>must_hold = [[''x'' \<mapsto> word_of_int (2 ^ 63 - 1)]], must_not_hold = []\<rparr> grows = Returns True"
    by code_simp
  assume "admissible s"
  then have "value_sort (scalar_of s (var_int ''x'')) = Some SInt"
    by (auto simp: admissible_def well_sorted_def var_int_def var_new_def)
  then show "eval_formula s grows" by (cases "scalar_of s (var_int ''x'')") (simp_all add: grows_def)
qed

text \<open>The quotient of the least integer by \<open>-1\<close> has no value: the screening panics.\<close>

lemma screening_panics:
  "screens_out True \<lparr>must_hold = [[''x'' \<mapsto> word_of_int (- (2 ^ 63))]], must_not_hold = []\<rparr>
    (FLe (TDiv (TVar (var_int ''x'')) (TInt (- 1))) (TInt 0)) = Panics"
  by code_simp

text \<open>
  \<open>x := 1; y := 7; while (y = 7) \{ assert (x == 1); x := 2; \}\<close>: the only condition on the invariant is that
  the exits are closed, and the backward pass takes no back edge, so the assertion is checked in
  the first iteration only.
\<close>

definition y_is_7 :: formula where
  "y_is_7 = FEq (TVar (var_int ''y'')) (TInt 7)"

definition stale_cfg :: abstract_cfg where
  "stale_cfg = \<lparr>cfg_nodes = [node_with 0 [set_to ''x'' 1, set_to ''y'' 7], node_with 1 [], node_with 2 [], node_with 3 [],
       node_with 4 [set_to ''x'' 2]],
     cfg_edges = [(0, example_edge 0 0 1), (1, (example_edge 1 1 2)\<lparr>edge_guard := y_is_7\<rparr>), (2, example_edge 2 2 4),
       (3, (example_edge 3 1 3)\<lparr>edge_guard := f_not y_is_7\<rparr>), (4, example_edge 4 4 1)],
     cfg_entry = 0, concrete_exits = [3], cfg_exit = None, next_node = 5, next_edge = 5\<rparr>"

definition stale_site :: assertion_site where
  "stale_site = (branch_site 1)\<lparr>site_node := 2\<rparr>"

definition stale_solver :: solver where
  "stale_solver = knowing [f_and (x_is 1) y_is_7]"

lemma later_iterations_missed:
  "case analyze stale_cfg stale_site stale_solver (loop_synthesis never_late stale_cfg stale_solver) of
    Returns (Inr r) \<Rightarrow> result_judgement r = Verified | _ \<Rightarrow> False"
  by code_simp


lemma stale_solver_sound: "sound_solver stale_solver"
proof -
  let ?s = "set_scalar (var_int ''y'') (IntV 7) (set_scalar (var_int ''x'') (IntV 1) sample_state)"
  have "eval_formula ?s (f_and (x_is 1) y_is_7)" by (simp add: x_is_def y_is_7_def var_int_def var_new_def)
  moreover have "admissible ?s" by (simp add: sample_state_admissible var_int_def var_new_def)
  ultimately have "\<exists>s. admissible s \<and> eval_formula s (f_and (x_is 1) y_is_7)" by blast
  then show ?thesis unfolding stale_solver_def by (intro knowing_sound) simp
qed

lemma later_iteration_fails: "\<exists>s0 m s. cfg_run stale_cfg s0 m s \<and> fails_here stale_cfg stale_site m s"
proof -
  let ?s = "\<lambda>i. set_scalar (var_int ''y'') (IntV 7) (set_scalar (var_int ''x'') (IntV i) sample_state)"
  note step_simps = edge_step_def stale_cfg_def while_defs bt_get_def effect_step_simps y_is_7_def
  have again: "set_scalar (var_int ''x'') (IntV j) (?s i) = ?s j" for i j
    by (auto simp: set_scalar_def var_int_def var_new_def fun_upd_twist)
  have same: "set_scalar (var_int ''y'') (IntV 7) (?s i) = ?s i" for i
    by (auto simp: set_scalar_def var_int_def var_new_def)
  have start: "cfg_run stale_cfg (?s 1) 0 (?s 1)"
    using cfg_run.start [of "?s 1" stale_cfg] by (simp add: sample_state_admissible stale_cfg_def var_int_def var_new_def)
  have "edge_step stale_cfg (example_edge 0 0 1) (?s 1) (?s 1)"
    using again [of 1 1] same by (auto simp: step_simps)
  note run = run_along [OF start _ _ _ this, of 1]
  have first: "edge_step stale_cfg ((example_edge 1 1 2)\<lparr>edge_guard := y_is_7\<rparr>) (?s i) (?s i)" for i
    by (auto simp: step_simps)
  note run = run_along [OF run _ _ _ first, of 2]
  have "edge_step stale_cfg (example_edge 2 2 4) (?s 1) (?s 1)" by (auto simp: step_simps)
  note run = run_along [OF run _ _ _ this, of 4]
  have "edge_step stale_cfg (example_edge 4 4 1) (?s 1) (?s 2)"
    using again [of 2 1] by (auto simp: step_simps)
  note run = run_along [OF run _ _ _ this, of 1]
  note run = run_along [OF run _ _ _ first, of 2]
  have "cfg_run stale_cfg (?s 1) 2 (?s 2)"
    by (rule run) (simp_all add: stale_cfg_def bt_values_def, simp_all add: example_edge_def)
  moreover have "fails_here stale_cfg stale_site 2 (?s 2)"
    by (auto simp: fails_here_def stale_site_def branch_site_def stale_cfg_def while_defs bt_get_def)
  ultimately show ?thesis by blast
qed

end
