(* ===== verification/Adapter.thy ===== *)
theory Adapter
  imports Andersen Backward
begin

text \<open>
  The lowering of instructions to effects (\<open>src/cfg/adapter.rs\<close>, first part): values, pointer
  arithmetic, the transfer function of each instruction, and the guards of edges.  Lowering can fail
  with an \<open>adapter_error\<close>, and it can panic, because the conversion of a real constant normalises a
  rational of machine integers; \<open>oc\<close> says whether overflow is checked.  The names of locals, regions
  and the pointer test are those of the pointer analysis, which the source repeats.
\<close>

section \<open>Errors\<close>

datatype adapter_error =
    MissingStart
  | GraphWithoutExit
  | UnsupportedFloatingPointInstruction string
  | UnsupportedInstruction string
  | UnsupportedValue string
  | PhiPredecessorMismatch string
  | CfgFailure string

fun adapter_error_str :: "adapter_error \<Rightarrow> string" where
  "adapter_error_str MissingStart = ''function graph missing start instruction''"
| "adapter_error_str GraphWithoutExit = ''function graph missing exit instruction''"
| "adapter_error_str (UnsupportedFloatingPointInstruction s) = ''unsupported floating-point instruction: '' @ s"
| "adapter_error_str (UnsupportedInstruction s) = ''unsupported instruction: '' @ s"
| "adapter_error_str (UnsupportedValue s) = ''unsupported value: '' @ s"
| "adapter_error_str (PhiPredecessorMismatch s) = ''PHI predecessor mismatch: '' @ s"
| "adapter_error_str (CfgFailure s) = ''CFG error: '' @ s"

fun cfg_error_str :: "cfg_error \<Rightarrow> string" where
  "cfg_error_str (UnknownNode i) = ''unknown node id: CfgNodeId('' @ nat_str i @ '')''"
| "cfg_error_str (UnknownEdge i) = ''unknown edge id: CfgEdgeId('' @ nat_str i @ '')''"
| "cfg_error_str MissingExit = ''missing CFG exit''"

fun sort_str :: "sort \<Rightarrow> string" where
  "sort_str SBool = ''Bool''"
| "sort_str SInt = ''Int''"
| "sort_str SReal = ''Real''"

text \<open>Computations that fail with an error or panic, and loops over them.\<close>

type_synonym 'a adapted = "(adapter_error + 'a) outcome"

definition abind :: "'a adapted \<Rightarrow> ('a \<Rightarrow> 'b adapted) \<Rightarrow> 'b adapted" where
  "abind m f = obind m (\<lambda>r. case r of Inl e \<Rightarrow> Returns (Inl e) | Inr x \<Rightarrow> f x)"

abbreviation aret :: "'a \<Rightarrow> 'a adapted" where "aret x \<equiv> Returns (Inr x)"

abbreviation afail :: "adapter_error \<Rightarrow> 'a adapted" where "afail e \<equiv> Returns (Inl e)"

lemma abind_aret [simp]: "abind (aret x) f = f x"
  by (simp add: abind_def)

lemma abind_afail [simp]: "abind (afail e) f = afail e"
  by (simp add: abind_def)

lemma abind_Panics [simp]: "abind Panics f = Panics"
  by (simp add: abind_def)

lemma abind_eq_aret: "abind m f = aret y \<longleftrightarrow> (\<exists>x. m = aret x \<and> f x = aret y)"
  by (auto simp: abind_def obind_def split: outcome.splits sum.splits)

fun afold :: "('a \<Rightarrow> 's \<Rightarrow> 's adapted) \<Rightarrow> 'a list \<Rightarrow> 's \<Rightarrow> 's adapted" where
  "afold f [] s = aret s"
| "afold f (x # xs) s = abind (f x s) (afold f xs)"

definition of_option :: "adapter_error \<Rightarrow> 'a option \<Rightarrow> 'a adapted" where
  "of_option e x = (case x of None \<Rightarrow> afail e | Some y \<Rightarrow> aret y)"

definition of_cfg :: "cfg_error + 'a \<Rightarrow> 'a adapted" where
  "of_cfg r = (case r of Inl e \<Rightarrow> afail (CfgFailure (cfg_error_str e)) | Inr x \<Rightarrow> aret x)"

lemma of_option_eq_aret [simp]: "of_option e x = aret y \<longleftrightarrow> x = Some y"
  by (auto simp: of_option_def split: option.splits)

lemma of_cfg_eq_aret [simp]: "of_cfg r = aret y \<longleftrightarrow> r = Inr y"
  by (auto simp: of_cfg_def split: sum.splits)

section \<open>Names\<close>

definition HEAP_ALLOCATORS :: "string list" where
  "HEAP_ALLOCATORS = [''malloc'', ''calloc'', ''_Znwm'', ''_Znam'', ''__cxa_allocate_exception'']"

definition synthetic_retval_name :: "string \<Rightarrow> string" where
  "synthetic_retval_name fn_name = fn_name @ ''$__retval''"

definition ext_obs_name :: "string \<Rightarrow> nat \<Rightarrow> string" where
  "ext_obs_name fn_name index = fn_name @ ''$__ext_'' @ nat_str index @ ''_obs''"

definition formal_parameter_names :: "function_graph \<Rightarrow> string \<Rightarrow> string list" where
  "formal_parameter_names g fn_name = map (\<lambda>p. fn_name @ ''$'' @ p) (graph_params g)"

section \<open>Values\<close>

definition sort_of_instruction_value :: "llvm \<Rightarrow> instruction \<Rightarrow> sort adapted" where
  "sort_of_instruction_value l i =
     (case raw_type l i of
        None \<Rightarrow> afail (UnsupportedValue (print_value l i))
      | Some t \<Rightarrow> (case raw_kind l t of
          KInteger width \<Rightarrow> aret (if width = 1 then SBool else SInt)
        | KPointer \<Rightarrow> aret SInt
        | KHalf \<Rightarrow> aret SReal | KFloat \<Rightarrow> aret SReal | KDouble \<Rightarrow> aret SReal
        | _ \<Rightarrow> afail (UnsupportedValue (print_value l i))))"

definition assigned_var :: "llvm \<Rightarrow> string \<Rightarrow> instruction \<Rightarrow> var adapted" where
  "assigned_var l fn_name i =
     abind (sort_of_instruction_value l i) (\<lambda>sort. aret (var_new (local_name l fn_name i) sort))"

definition lower_numeric_value :: "bool \<Rightarrow> llvm \<Rightarrow> string \<Rightarrow> instruction \<Rightarrow> fterm adapted" where
  "lower_numeric_value oc l fn_name v =
     (if is_ptr l v then
        if raw_constant_int l v = Some 0 \<or> contains_str ''null'' (print_value l v) then aret (TInt 0)
        else aret (TVar (var_new (local_name l fn_name v) SInt))
      else case raw_constant_int l v of
        Some n \<Rightarrow> aret (TInt n)
      | None \<Rightarrow> (case raw_scaled_real l v of
          Some scaled \<Rightarrow> obind (rational_new oc scaled 1000000) (\<lambda>q. aret (TReal q))
        | None \<Rightarrow> abind (sort_of_instruction_value l v) (\<lambda>sort. case sort of
            SInt \<Rightarrow> aret (TVar (var_int (local_name l fn_name v)))
          | SReal \<Rightarrow> aret (TVar (var_real (local_name l fn_name v)))
          | SBool \<Rightarrow> afail (UnsupportedValue (print_value l v)))))"

definition lower_integer_value :: "llvm \<Rightarrow> string \<Rightarrow> instruction \<Rightarrow> fterm adapted" where
  "lower_integer_value l fn_name v =
     (case raw_constant_int l v of
        Some n \<Rightarrow> aret (TInt n)
      | None \<Rightarrow> abind (sort_of_instruction_value l v) (\<lambda>sort.
          if sort = SInt then aret (TVar (var_int (local_name l fn_name v)))
          else afail (UnsupportedValue
            (''expected integer value, found '' @ sort_str sort @ '': '' @ print_value l v))))"

definition lower_bool_value :: "llvm \<Rightarrow> string \<Rightarrow> instruction \<Rightarrow> formula adapted" where
  "lower_bool_value l fn_name v =
     (case raw_constant_int l v of
        Some n \<Rightarrow> aret (if n = 0 then FFalse else FTrue)
      | None \<Rightarrow> abind (sort_of_instruction_value l v) (\<lambda>sort.
          if sort = SBool then aret (FVar (var_bool (local_name l fn_name v)))
          else afail (UnsupportedValue (print_value l v))))"

section \<open>Pointer arithmetic\<close>

datatype gep_lowering = GepOffset fterm | GepStructField "32 word"

text \<open>\<open>store_size_of_type(t).max(4) / 4\<close> as a literal.\<close>

definition stride_of :: "llvm \<Rightarrow> string \<Rightarrow> ty \<Rightarrow> fterm" where
  "stride_of l layout t = TInt (max (raw_store_size l layout t) 4 div 4)"

definition add_strided ::
  "llvm \<Rightarrow> string \<Rightarrow> string \<Rightarrow> ty \<Rightarrow> instruction \<Rightarrow> fterm \<Rightarrow> fterm adapted" where
  "add_strided l layout fn_name t index off =
     abind (lower_integer_value l fn_name index) (\<lambda>idx. aret (TAdd off (TMul idx (stride_of l layout t))))"

text \<open>The indices after the first: a struct index must be a constant, or the walk stops.\<close>

fun walk_type ::
  "llvm \<Rightarrow> string \<Rightarrow> string \<Rightarrow> instruction list \<Rightarrow> ty \<Rightarrow> fterm \<Rightarrow> fterm adapted" where
  "walk_type l layout fn_name [] t off = aret off"
| "walk_type l layout fn_name (index # rest) t off =
     (case raw_kind l t of
        KStruct \<Rightarrow> (case raw_constant_int l index of
          None \<Rightarrow> aret off
        | Some field_idx \<Rightarrow>
            walk_type l layout fn_name rest
              (case get_struct_element_type_at l t (ucast field_idx) of None \<Rightarrow> t | Some field_ty \<Rightarrow> field_ty)
              (TAdd off (TInt (raw_offset_of l layout t (ucast field_idx) div 4))))
      | KArray \<Rightarrow>
          let elem_ty = (case get_element_type l t of None \<Rightarrow> t | Some e \<Rightarrow> e) in
          abind (add_strided l layout fn_name elem_ty index off) (walk_type l layout fn_name rest elem_ty)
      | _ \<Rightarrow> abind (add_strided l layout fn_name t index off) (walk_type l layout fn_name rest t))"

fun sum_index_values :: "llvm \<Rightarrow> string \<Rightarrow> instruction list \<Rightarrow> fterm \<Rightarrow> fterm adapted" where
  "sum_index_values l fn_name [] off = aret off"
| "sum_index_values l fn_name (index # rest) off =
     abind (lower_integer_value l fn_name index) (\<lambda>t. sum_index_values l fn_name rest (TAdd off t))"

definition lower_gep :: "llvm \<Rightarrow> string \<Rightarrow> string \<Rightarrow> instruction \<Rightarrow> gep_lowering adapted" where
  "lower_gep l layout fn_name i =
     (let operands = get_operands l i in
      if operands = [] then aret (GepOffset (TInt 0))
      else case raw_gep_type l i of
        None \<Rightarrow> abind (sum_index_values l fn_name (tl operands) (TInt 0)) (\<lambda>off. aret (GepOffset off))
      | Some source_ty \<Rightarrow> (case struct_field_index l i of
          Some field_idx \<Rightarrow> aret (GepStructField field_idx)
        | None \<Rightarrow> (case tl operands of
            [] \<Rightarrow> aret (GepOffset (TInt 0))
          | index # rest \<Rightarrow>
              abind (add_strided l layout fn_name source_ty index (TInt 0)) (\<lambda>off.
              abind (walk_type l layout fn_name rest source_ty off) (\<lambda>off. aret (GepOffset off))))))"

end
