(* ===== verification/Instructions.thy ===== *)
theory Instructions
  imports Adapter
begin

text \<open>
  The transfer function of each instruction, the guard of each edge, and the assignments of \<open>phi\<close>
  instructions on edges (\<open>lower_node_transfer\<close>, \<open>lower_edge_guard\<close>, \<open>lower_phi_edge_effects\<close> of
  \<open>src/cfg/adapter.rs\<close>).  One definition per group of opcodes gives the effects of the group.
\<close>

type_synonym lowered = "transfer_effect list adapted"

definition required_operand :: "llvm \<Rightarrow> instruction \<Rightarrow> nat \<Rightarrow> instruction adapted" where
  "required_operand l i k = of_option (UnsupportedInstruction (print_value l i)) (get_operand l i k)"

definition numeric_operand :: "bool \<Rightarrow> llvm \<Rightarrow> string \<Rightarrow> instruction \<Rightarrow> nat \<Rightarrow> fterm adapted" where
  "numeric_operand oc l fn_name i k = abind (required_operand l i k) (lower_numeric_value oc l fn_name)"

definition bool_operand :: "llvm \<Rightarrow> string \<Rightarrow> instruction \<Rightarrow> nat \<Rightarrow> formula adapted" where
  "bool_operand l fn_name i k = abind (required_operand l i k) (lower_bool_value l fn_name)"

section \<open>Arithmetic\<close>

fun arithmetic_term :: "instruction_opcode \<Rightarrow> fterm \<Rightarrow> fterm \<Rightarrow> fterm" where
  "arithmetic_term opcode lhs rhs =
     (if opcode = OpAdd \<or> opcode = OpFAdd then TAdd lhs rhs
      else if opcode = OpSub \<or> opcode = OpFSub then TSub lhs rhs
      else if opcode = OpMul \<or> opcode = OpFMul then TMul lhs rhs
      else if opcode = OpSDiv \<or> opcode = OpFDiv then TDiv lhs rhs
      else TRem lhs rhs)"

definition lower_arithmetic :: "bool \<Rightarrow> llvm \<Rightarrow> string \<Rightarrow> instruction \<Rightarrow> lowered" where
  "lower_arithmetic oc l fn_name i =
     abind (assigned_var l fn_name i) (\<lambda>target.
     abind (numeric_operand oc l fn_name i 0) (\<lambda>lhs.
     abind (numeric_operand oc l fn_name i 1) (\<lambda>rhs.
       aret [Assign target (AssignTerm (arithmetic_term (raw_opcode l i) lhs rhs))])))"

definition lower_unsigned_division :: "bool \<Rightarrow> llvm \<Rightarrow> string \<Rightarrow> instruction \<Rightarrow> lowered" where
  "lower_unsigned_division oc l fn_name i =
     abind (assigned_var l fn_name i) (\<lambda>target.
     abind (numeric_operand oc l fn_name i 0) (\<lambda>lhs.
     abind (numeric_operand oc l fn_name i 1) (\<lambda>rhs.
       aret [Assign target (AssignTerm (if raw_opcode l i = OpUDiv then TDiv lhs rhs else TRem lhs rhs)),
         Assume (FGe lhs (TInt 0)), Assume (FGe rhs (TInt 0)), Assume (FGe (TVar target) (TInt 0))])))"

section \<open>Comparisons\<close>

fun predicate_formula :: "string \<Rightarrow> fterm \<Rightarrow> fterm \<Rightarrow> formula option" where
  "predicate_formula name lhs rhs =
     (if name = ''=='' then Some (FEq lhs rhs)
      else if name = ''!='' then Some (f_not (FEq lhs rhs))
      else if name = ''>'' then Some (FGt lhs rhs)
      else if name = ''>='' then Some (FGe lhs rhs)
      else if name = ''<'' then Some (FLt lhs rhs)
      else if name = ''<='' then Some (FLe lhs rhs)
      else None)"

definition lower_comparison_effects :: "bool \<Rightarrow> llvm \<Rightarrow> string \<Rightarrow> instruction \<Rightarrow> lowered" where
  "lower_comparison_effects oc l fn_name i =
     (let unsupported = UnsupportedInstruction (print_value l i) in
      abind (assigned_var l fn_name i) (\<lambda>target.
      abind (numeric_operand oc l fn_name i 0) (\<lambda>lhs.
      abind (numeric_operand oc l fn_name i 1) (\<lambda>rhs.
      abind (of_option unsupported
          (if raw_opcode l i = OpICmp then get_icmp_predicate l i else get_fcmp_predicate l i)) (\<lambda>name.
      abind (of_option unsupported (predicate_formula name lhs rhs)) (\<lambda>p.
        aret ((if is_unsigned_icmp l i then [Assume (FGe lhs (TInt 0)), Assume (FGe rhs (TInt 0))] else [])
          @ [Assign target (AssignPredicate p)])))))))"

section \<open>Shifts and bitwise operations\<close>

definition lower_shift :: "bool \<Rightarrow> llvm \<Rightarrow> string \<Rightarrow> instruction \<Rightarrow> lowered" where
  "lower_shift oc l fn_name i =
     abind (sort_of_instruction_value l i) (\<lambda>sort.
       if sort = SBool then aret []
       else
         abind (assigned_var l fn_name i) (\<lambda>target.
         abind (numeric_operand oc l fn_name i 0) (\<lambda>lhs.
         abind (required_operand l i 1) (\<lambda>shift_instr.
           aret (case raw_constant_int l shift_instr of
               Some shift \<Rightarrow>
                 if 0 \<le> sint shift \<and> sint shift < 63 then
                   let factor = TInt (push_bit (nat (sint shift)) 1) in
                   [Assign target (AssignTerm
                     (if raw_opcode l i = OpShl then TMul lhs factor else TDiv lhs factor))]
                   @ (if raw_opcode l i = OpLShr then [TypeBound (FGe (TVar target) (TInt 0))] else [])
                 else []
             | None \<Rightarrow> [])))))"

text \<open>\<open>x & c\<close> with a constant \<open>c\<close>: the second operand is looked at first.\<close>

definition and_mask :: "llvm \<Rightarrow> instruction \<Rightarrow> instruction \<Rightarrow> i64 option" where
  "and_mask l op0 op1 =
     (case (case raw_constant_int l op1 of Some c \<Rightarrow> Some c | None \<Rightarrow> raw_constant_int l op0) of
        Some c \<Rightarrow> if 0 \<le> sint c then Some c else None
      | None \<Rightarrow> None)"

definition lower_integer_bitwise :: "bool \<Rightarrow> llvm \<Rightarrow> string \<Rightarrow> instruction \<Rightarrow> lowered" where
  "lower_integer_bitwise oc l fn_name i =
     abind (assigned_var l fn_name i) (\<lambda>target.
     abind (required_operand l i 0) (\<lambda>op0.
     abind (required_operand l i 1) (\<lambda>op1.
       if raw_opcode l i = OpAnd then
         aret (case and_mask l op0 op1 of
             None \<Rightarrow> []
           | Some c \<Rightarrow> [TypeBound (FGe (TVar target) (TInt 0)), TypeBound (FLe (TVar target) (TInt c))])
       else if raw_opcode l i = OpXor then
         (let negated = (if raw_constant_int l op1 = Some (- 1) then Some op0
            else if raw_constant_int l op0 = Some (- 1) then Some op1 else None) in
          case negated of
            None \<Rightarrow> aret []
          | Some operand \<Rightarrow> obind (lower_numeric_value oc l fn_name operand) (\<lambda>r. aret (case r of
              Inl _ \<Rightarrow> []
            | Inr lhs \<Rightarrow> [Assign target (AssignTerm (TSub (TSub (TInt 0) lhs) (TInt 1)))])))
       else aret [])))"

fun connective_formula :: "instruction_opcode \<Rightarrow> formula \<Rightarrow> formula \<Rightarrow> formula" where
  "connective_formula opcode lhs rhs =
     (if opcode = OpAnd then f_and lhs rhs
      else if opcode = OpOr then f_or lhs rhs
      else f_or (f_and lhs (f_not rhs)) (f_and (f_not lhs) rhs))"

definition lower_bitwise :: "bool \<Rightarrow> llvm \<Rightarrow> string \<Rightarrow> instruction \<Rightarrow> lowered" where
  "lower_bitwise oc l fn_name i =
     abind (sort_of_instruction_value l i) (\<lambda>result_sort.
       if result_sort \<noteq> SBool then lower_integer_bitwise oc l fn_name i
       else
         abind (assigned_var l fn_name i) (\<lambda>target.
         abind (bool_operand l fn_name i 0) (\<lambda>lhs.
         abind (bool_operand l fn_name i 1) (\<lambda>rhs.
           aret [Assign target (AssignPredicate (connective_formula (raw_opcode l i) lhs rhs))]))))"

section \<open>Extensions and truncation\<close>

text \<open>The bounds of a \<open>w\<close>-bit value, when they fit into 64 bits.\<close>

definition zext_upper_bound :: "32 word \<Rightarrow> i64 option" where
  "zext_upper_bound w =
     (if w = 0 then None
      else if unat w \<le> 62 then Some (push_bit (unat w) 1 - 1)
      else if unat w = 63 then Some (2 ^ 63 - 1)
      else None)"

definition sext_bounds :: "32 word \<Rightarrow> (i64 \<times> i64) option" where
  "sext_bounds w =
     (if w = 0 then None
      else if unat w \<le> 63 then (let half = push_bit (unat w - 1) 1 in Some (- half, half - 1))
      else if unat w = 64 then Some (- (2 ^ 63), 2 ^ 63 - 1)
      else None)"

definition extension_bounds :: "instruction_opcode \<Rightarrow> 32 word \<Rightarrow> var \<Rightarrow> transfer_effect list" where
  "extension_bounds opcode w target =
     (if opcode = OpZExt then
        [TypeBound (FGe (TVar target) (TInt 0))]
        @ (if w \<le> 16 then (case zext_upper_bound w of
              None \<Rightarrow> [] | Some upper \<Rightarrow> [TypeBound (FLe (TVar target) (TInt upper))]) else [])
      else if opcode = OpSExt then
        (if w \<le> 16 then (case sext_bounds w of
            None \<Rightarrow> []
          | Some (lo, hi) \<Rightarrow> [TypeBound (FGe (TVar target) (TInt lo)), TypeBound (FLe (TVar target) (TInt hi))])
         else [])
      else [])"

definition integer_width :: "llvm \<Rightarrow> instruction \<Rightarrow> 32 word option" where
  "integer_width l v = (case raw_type l v of
     None \<Rightarrow> None
   | Some t \<Rightarrow> (case raw_kind l t of KInteger bits \<Rightarrow> Some bits | _ \<Rightarrow> None))"

definition lower_extension :: "bool \<Rightarrow> llvm \<Rightarrow> string \<Rightarrow> instruction \<Rightarrow> lowered" where
  "lower_extension oc l fn_name i =
     abind (assigned_var l fn_name i) (\<lambda>target.
     abind (required_operand l i 0) (\<lambda>source.
     abind (sort_of_instruction_value l source) (\<lambda>sort.
     abind (if sort = SBool then abind (lower_bool_value l fn_name source) (\<lambda>f. aret (TBoolToInt f))
            else lower_numeric_value oc l fn_name source) (\<lambda>t.
       aret (Assign target (AssignTerm t)
         # (case integer_width l source of
              None \<Rightarrow> [] | Some w \<Rightarrow> extension_bounds (raw_opcode l i) w target))))))"

section \<open>Memory and calls\<close>

definition lower_load :: "llvm \<Rightarrow> string \<Rightarrow> instruction \<Rightarrow> lowered" where
  "lower_load l fn_name i =
     abind (required_operand l i 0) (\<lambda>op.
       let source = local_name l fn_name op in
       if is_ptr l i then aret [PointerLoad (local_name l fn_name i) source]
       else abind (assigned_var l fn_name i) (\<lambda>target. aret [Load target source]))"

definition lower_store :: "bool \<Rightarrow> llvm \<Rightarrow> string \<Rightarrow> instruction \<Rightarrow> lowered" where
  "lower_store oc l fn_name i =
     abind (required_operand l i 1) (\<lambda>op.
     abind (required_operand l i 0) (\<lambda>stored.
       let target = local_name l fn_name op in
       if is_ptr l stored then aret [PointerStore target (local_name l fn_name stored)]
       else abind (lower_numeric_value oc l fn_name stored) (\<lambda>v. aret [Store target v])))"

definition lower_element_pointer :: "llvm \<Rightarrow> string \<Rightarrow> string \<Rightarrow> instruction \<Rightarrow> lowered" where
  "lower_element_pointer l layout fn_name i =
     abind (required_operand l i 0) (\<lambda>op.
     abind (lower_gep l layout fn_name i) (\<lambda>gep.
       let target = local_name l fn_name i; base = local_name l fn_name op in
       aret (case gep of
           GepOffset off \<Rightarrow> [GetElementPtr target base off]
         | GepStructField field_index \<Rightarrow> [StructFieldGep target base (unat field_index)])))"

definition lower_return :: "bool \<Rightarrow> llvm \<Rightarrow> string \<Rightarrow> instruction \<Rightarrow> lowered" where
  "lower_return oc l fn_name i =
     (case get_operand l i 0 of
        None \<Rightarrow> aret []
      | Some ret_value \<Rightarrow> abind (sort_of_instruction_value l ret_value) (\<lambda>sort.
          if sort = SInt then abind (lower_numeric_value oc l fn_name ret_value) (\<lambda>v.
            aret [Assign (var_int (synthetic_retval_name fn_name)) (AssignTerm v)])
          else aret []))"

definition lower_call ::
  "llvm \<Rightarrow> string set \<Rightarrow> (instruction \<rightharpoonup> string) \<Rightarrow> string \<Rightarrow> instruction \<Rightarrow> transfer_effect list" where
  "lower_call l memory_pure heap_alloc_regions fn_name i =
     (case get_called_function l i of
        None \<Rightarrow> (case get_operand l i (length (raw_operands l i) - 1) of
            None \<Rightarrow> []
          | Some callee_op \<Rightarrow> [IndirectCall (local_name l fn_name callee_op) HavocMemory])
      | Some callee \<Rightarrow>
          if callee = ''may_assert'' then []
          else (case heap_alloc_regions i of
              Some r \<Rightarrow> [HeapAlloc (local_name l fn_name i) r]
            | None \<Rightarrow> [Call callee (if callee \<in> memory_pure then PreservesMemory else HavocMemory)]))"

definition lower_ptr_to_int :: "llvm \<Rightarrow> string \<Rightarrow> instruction \<Rightarrow> lowered" where
  "lower_ptr_to_int l fn_name i =
     (case get_operand l i 0 of
        None \<Rightarrow> aret []
      | Some op \<Rightarrow> obind (assigned_var l fn_name i) (\<lambda>r. aret (case r of
          Inl _ \<Rightarrow> [] | Inr target \<Rightarrow> [PtrToInt target (local_name l fn_name op)])))"

definition pointer_cast :: "llvm \<Rightarrow> string \<Rightarrow> instruction \<Rightarrow> transfer_effect list" where
  "pointer_cast l fn_name i =
     (if is_ptr l i then (case get_operand l i 0 of
          None \<Rightarrow> [] | Some op \<Rightarrow> [PointerAlias (local_name l fn_name i) (local_name l fn_name op)])
      else [])"

section \<open>The transfer function\<close>

definition node_effects_of ::
  "bool \<Rightarrow> llvm \<Rightarrow> string set \<Rightarrow> (instruction \<rightharpoonup> string) \<Rightarrow> (instruction \<rightharpoonup> string) \<Rightarrow> string \<Rightarrow> string
    \<Rightarrow> instruction \<Rightarrow> lowered" where
  "node_effects_of oc l memory_pure allocation_regions heap_alloc_regions layout fn_name i =
     (let name = local_name l fn_name; unsupported = UnsupportedInstruction (print_value l i) in
      case raw_opcode l i of
        OpAdd \<Rightarrow> lower_arithmetic oc l fn_name i
      | OpSub \<Rightarrow> lower_arithmetic oc l fn_name i
      | OpMul \<Rightarrow> lower_arithmetic oc l fn_name i
      | OpSDiv \<Rightarrow> lower_arithmetic oc l fn_name i
      | OpSRem \<Rightarrow> lower_arithmetic oc l fn_name i
      | OpFAdd \<Rightarrow> lower_arithmetic oc l fn_name i
      | OpFSub \<Rightarrow> lower_arithmetic oc l fn_name i
      | OpFMul \<Rightarrow> lower_arithmetic oc l fn_name i
      | OpFDiv \<Rightarrow> lower_arithmetic oc l fn_name i
      | OpUDiv \<Rightarrow> lower_unsigned_division oc l fn_name i
      | OpURem \<Rightarrow> lower_unsigned_division oc l fn_name i
      | OpICmp \<Rightarrow> lower_comparison_effects oc l fn_name i
      | OpFCmp \<Rightarrow> lower_comparison_effects oc l fn_name i
      | OpShl \<Rightarrow> lower_shift oc l fn_name i
      | OpLShr \<Rightarrow> lower_shift oc l fn_name i
      | OpAShr \<Rightarrow> lower_shift oc l fn_name i
      | OpAnd \<Rightarrow> lower_bitwise oc l fn_name i
      | OpOr \<Rightarrow> lower_bitwise oc l fn_name i
      | OpXor \<Rightarrow> lower_bitwise oc l fn_name i
      | OpSExt \<Rightarrow> lower_extension oc l fn_name i
      | OpZExt \<Rightarrow> lower_extension oc l fn_name i
      | OpTrunc \<Rightarrow> lower_extension oc l fn_name i
      | OpAlloca \<Rightarrow> abind (of_option unsupported (allocation_regions i)) (\<lambda>r. aret [Alloca (name i) r])
      | OpLoad \<Rightarrow> lower_load l fn_name i
      | OpStore \<Rightarrow> lower_store oc l fn_name i
      | OpGetElementPtr \<Rightarrow> lower_element_pointer l layout fn_name i
      | OpPHI \<Rightarrow> aret []
      | OpBr \<Rightarrow> aret []
      | OpUnreachable \<Rightarrow> aret [Assume FFalse]
      | OpRet \<Rightarrow> lower_return oc l fn_name i
      | OpCall \<Rightarrow> aret (lower_call l memory_pure heap_alloc_regions fn_name i)
      | OpFNeg \<Rightarrow> abind (assigned_var l fn_name i) (\<lambda>target.
          abind (numeric_operand oc l fn_name i 0) (\<lambda>source. aret [Assign target (AssignTerm (TNeg source))]))
      | OpFRem \<Rightarrow> afail (UnsupportedFloatingPointInstruction (print_value l i))
      | OpFPExt \<Rightarrow> aret [] | OpFPTrunc \<Rightarrow> aret [] | OpSIToFP \<Rightarrow> aret []
      | OpUIToFP \<Rightarrow> aret [] | OpFPToSI \<Rightarrow> aret [] | OpFPToUI \<Rightarrow> aret []
      | OpBitCast \<Rightarrow> aret (pointer_cast l fn_name i)
      | OpAddrSpaceCast \<Rightarrow> aret (pointer_cast l fn_name i)
      | OpPtrToInt \<Rightarrow> lower_ptr_to_int l fn_name i
      | OpIntToPtr \<Rightarrow> aret (case get_operand l i 0 of
          None \<Rightarrow> [] | Some op \<Rightarrow> [IntToPtr (name i) (name op)])
      | OpSwitch \<Rightarrow> aret [] | OpIndirectBr \<Rightarrow> aret []
      | OpInvoke \<Rightarrow> afail unsupported
      | _ \<Rightarrow> if starts_with ''br '' (dropWhile is_space (print_value l i)) then aret [] else afail unsupported)"

definition lower_node_transfer ::
  "bool \<Rightarrow> llvm \<Rightarrow> string set \<Rightarrow> (instruction \<rightharpoonup> string) \<Rightarrow> (instruction \<rightharpoonup> string) \<Rightarrow> string \<Rightarrow> string
    \<Rightarrow> instruction \<Rightarrow> transfer_fn adapted" where
  "lower_node_transfer oc l memory_pure allocation_regions heap_alloc_regions layout fn_name i =
     abind (node_effects_of oc l memory_pure allocation_regions heap_alloc_regions layout fn_name i)
       (\<lambda>es. aret (transfer_fn_new es))"

section \<open>Edges\<close>

definition lower_edge_guard :: "llvm \<Rightarrow> string \<Rightarrow> instruction \<Rightarrow> instruction \<Rightarrow> formula adapted" where
  "lower_edge_guard l fn_name source target =
     (if raw_is_branch l source then
        (case get_branch_condition l source of
           None \<Rightarrow> aret FTrue
         | Some condition \<Rightarrow>
             let successors = get_successor_blocks l source;
                 unsupported = UnsupportedInstruction (print_value l source) in
             if length successors = 1 then aret FTrue
             else if length successors \<noteq> 2 then afail unsupported
             else
               abind (of_option (UnsupportedInstruction (print_value l target)) (raw_parent l target))
                 (\<lambda>target_block.
               abind (lower_bool_value l fn_name condition) (\<lambda>p.
                 if successors ! 0 = target_block then aret p
                 else if successors ! 1 = target_block then aret (f_not p)
                 else afail unsupported)))
      else if raw_opcode l source = OpInvoke then afail (UnsupportedInstruction (print_value l source))
      else aret FTrue)"

type_synonym edge_index = "instruction \<times> instruction \<rightharpoonup> cfg_edge_id"

text \<open>The instruction of the incoming block that has the \<open>phi\<close> among its successors.\<close>

definition phi_source :: "llvm \<Rightarrow> function_graph \<Rightarrow> instruction \<Rightarrow> basic_block \<Rightarrow> instruction option" where
  "phi_source l g phi incoming_block =
     find (\<lambda>candidate. raw_parent l candidate = Some incoming_block \<and>
       (case bt_get (graph_edges g) candidate of
          None \<Rightarrow> False | Some node \<Rightarrow> phi \<in> gn_successors node)) (vertices g)"

definition phi_assign ::
  "bool \<Rightarrow> llvm \<Rightarrow> string \<Rightarrow> var \<Rightarrow> instruction \<Rightarrow> transfer_effect adapted" where
  "phi_assign oc l fn_name target incoming_value =
     abind (sort_of_instruction_value l incoming_value) (\<lambda>sort.
       if sort = SBool then
         abind (lower_bool_value l fn_name incoming_value) (\<lambda>p. aret (Assign target (AssignPredicate p)))
       else
         abind (lower_numeric_value oc l fn_name incoming_value) (\<lambda>t. aret (Assign target (AssignTerm t))))"

definition lower_phi_incoming ::
  "bool \<Rightarrow> llvm \<Rightarrow> string \<Rightarrow> function_graph \<Rightarrow> edge_index \<Rightarrow> instruction \<Rightarrow> var
    \<Rightarrow> basic_block \<times> instruction \<Rightarrow> abstract_cfg \<Rightarrow> abstract_cfg adapted" where
  "lower_phi_incoming oc l fn_name g edge_index phi target = (\<lambda>(incoming_block, incoming_value) cfg.
     abind (of_option (PhiPredecessorMismatch (''could not match PHI incoming for '' @ print_value l phi))
         (phi_source l g phi incoming_block)) (\<lambda>source.
     abind (of_option (PhiPredecessorMismatch (print_value l phi)) (edge_index (source, phi))) (\<lambda>i.
     abind (phi_assign oc l fn_name target incoming_value) (\<lambda>assign.
       of_cfg (append_edge_effects i [assign] cfg)))))"

definition lower_phi_edge_effects ::
  "bool \<Rightarrow> llvm \<Rightarrow> string \<Rightarrow> function_graph \<Rightarrow> edge_index \<Rightarrow> abstract_cfg \<Rightarrow> abstract_cfg adapted" where
  "lower_phi_edge_effects oc l fn_name g edge_index =
     afold (\<lambda>i cfg. if raw_opcode l i \<noteq> OpPHI then aret cfg
       else abind (assigned_var l fn_name i) (\<lambda>target.
         afold (lower_phi_incoming oc l fn_name g edge_index i target) (get_phi_incomings l i) cfg))
       (vertices g)"

section \<open>Assertions and assumptions\<close>

definition node_at :: "(instruction \<rightharpoonup> cfg_node_id) \<Rightarrow> instruction option \<Rightarrow> cfg_node_id option" where
  "node_at nodes i = (case i of None \<Rightarrow> None | Some i \<Rightarrow> nodes i)"

definition or_else :: "'a option \<Rightarrow> 'a option \<Rightarrow> 'a option" where
  "or_else x y = (case x of None \<Rightarrow> y | Some v \<Rightarrow> Some v)"

definition choose_assert_node :: "assert_site \<Rightarrow> (instruction \<rightharpoonup> cfg_node_id) \<Rightarrow> cfg_node_id option" where
  "choose_assert_node site nodes =
     or_else (nodes (asserted_value site))
       (or_else (node_at nodes (assert_predecessor site)) (node_at nodes (assert_successor site)))"

definition choose_assume_node :: "assume_site \<Rightarrow> (instruction \<rightharpoonup> cfg_node_id) \<Rightarrow> cfg_node_id option" where
  "choose_assume_node site nodes =
     or_else (node_at nodes (assume_predecessor site)) (node_at nodes (assume_successor site))"

definition assertion_location :: "llvm \<Rightarrow> assert_site \<Rightarrow> string" where
  "assertion_location l site = (case assert_predecessor site of
     Some predecessor \<Rightarrow> ''after '' @ display_name l predecessor
   | None \<Rightarrow> (case assert_successor site of
       Some successor \<Rightarrow> ''before '' @ display_name l successor
     | None \<Rightarrow> display_name l (asserted_value site)))"

definition lower_assertion ::
  "llvm \<Rightarrow> string \<Rightarrow> (instruction \<rightharpoonup> cfg_node_id) \<Rightarrow> nat \<times> assert_site \<Rightarrow> assertion_site list
    \<Rightarrow> assertion_site list adapted" where
  "lower_assertion l fn_name nodes = (\<lambda>(index, site) sites.
     abind (of_option MissingStart (choose_assert_node site nodes)) (\<lambda>node.
     abind (if is_unconditional_fail site then aret FFalse
            else lower_bool_value l fn_name (asserted_value site)) (\<lambda>obligation.
       aret (sites @ [\<lparr>site_id = index + 1, site_node = node,
         site_source_location = assert_source_location site, site_location = assertion_location l site,
         site_obligation = obligation\<rparr>]))))"

definition lower_assertions ::
  "llvm \<Rightarrow> string \<Rightarrow> function_graph \<Rightarrow> (instruction \<rightharpoonup> cfg_node_id) \<Rightarrow> assertion_site list adapted" where
  "lower_assertions l fn_name g nodes =
     afold (lower_assertion l fn_name nodes) (zip [0..<length (asserts g)] (asserts g)) []"

definition push_effects :: "transfer_effect list \<Rightarrow> abstract_node \<Rightarrow> abstract_node" where
  "push_effects es n = n\<lparr>node_transfer := transfer_fn_new (effects (node_transfer n) @ es)\<rparr>"

definition lower_assume ::
  "llvm \<Rightarrow> string \<Rightarrow> (instruction \<rightharpoonup> cfg_node_id) \<Rightarrow> assume_site \<Rightarrow> abstract_cfg \<Rightarrow> abstract_cfg adapted" where
  "lower_assume l fn_name nodes site cfg =
     abind (of_option MissingStart (choose_assume_node site nodes)) (\<lambda>node.
     abind (lower_bool_value l fn_name (assumed_value site)) (\<lambda>condition.
       aret (case node_mut node (push_effects [if is_type_bound site then TypeBound condition
             else Assume condition]) cfg of
           Inl _ \<Rightarrow> cfg | Inr cfg \<Rightarrow> cfg)))"

definition lower_assumes ::
  "llvm \<Rightarrow> string \<Rightarrow> function_graph \<Rightarrow> (instruction \<rightharpoonup> cfg_node_id) \<Rightarrow> abstract_cfg \<Rightarrow> abstract_cfg adapted" where
  "lower_assumes l fn_name g nodes = afold (lower_assume l fn_name nodes) (assumes_of g)"

end
