(* ===== verification/Instructions_Correct.thy ===== *)
theory Instructions_Correct
  imports Instructions Program_Graph_Correct Runs
begin

text \<open>
  The lowered integer instructions against the machine.  A \<open>w\<close>-bit value is represented by its signed
  reading, as constants are; \<open>machine_binop\<close>, \<open>machine_icmp\<close> and \<open>machine_cast\<close> are the documented results of
  LLVM on such readings.  The lowering computes with unbounded integers, so each theorem says when
  the two agree and which machine states the lowered effects drop.
\<close>

section \<open>Machine integers\<close>

definition wrap :: "nat \<Rightarrow> int \<Rightarrow> int" where
  "wrap w x = signed_take_bit (w - 1) x"

definition fits :: "nat \<Rightarrow> int \<Rightarrow> bool" where
  "fits w x \<longleftrightarrow> - (2 ^ (w - 1)) \<le> x \<and> x < 2 ^ (w - 1)"

definition unsigned_of :: "nat \<Rightarrow> int \<Rightarrow> int" where
  "unsigned_of w x = take_bit w x"

lemma wrap_fits: "wrap w x = x \<longleftrightarrow> fits w x"
  by (auto simp: wrap_def fits_def signed_take_bit_int_eq_self_iff)

lemma wrap_self [simp]: "fits w x \<Longrightarrow> wrap w x = x"
  by (simp add: wrap_fits)

lemma div_le_nonneg: "0 \<le> a \<Longrightarrow> 0 < b \<Longrightarrow> a div b \<le> (a :: int)"
  using zdiv_mono2 [of a 1 b] by simp

lemma unsigned_of_nonneg: "0 < w \<Longrightarrow> fits w x \<Longrightarrow> 0 \<le> x \<Longrightarrow> unsigned_of w x = x"
  unfolding unsigned_of_def fits_def
  by (rule take_bit_int_eq_self) (auto intro: less_le_trans [OF _ power_increasing])

lemma unsigned_of_neg: "0 < w \<Longrightarrow> fits w x \<Longrightarrow> x < 0 \<Longrightarrow> unsigned_of w x = x + 2 ^ w"
proof -
  assume w: "0 < w" "fits w x" "x < 0"
  then have "(2 :: int) ^ (w - 1) \<le> 2 ^ w" by (intro power_increasing) auto
  with w have "0 \<le> x + 2 ^ w" "x + 2 ^ w < 2 ^ w" unfolding fits_def by linarith+
  then have "(x + 2 ^ w) mod 2 ^ w = x + 2 ^ w" by (rule mod_pos_pos_trivial)
  then show ?thesis by (simp add: unsigned_of_def take_bit_eq_mod)
qed

definition machine_binop :: "instruction_opcode \<Rightarrow> nat \<Rightarrow> int \<Rightarrow> int \<Rightarrow> int" where
  "machine_binop opcode w a b = wrap w (case opcode of
     OpAdd \<Rightarrow> a + b | OpSub \<Rightarrow> a - b | OpMul \<Rightarrow> a * b
   | OpSDiv \<Rightarrow> a sdiv b | OpSRem \<Rightarrow> a smod b
   | OpUDiv \<Rightarrow> unsigned_of w a div unsigned_of w b
   | OpURem \<Rightarrow> unsigned_of w a mod unsigned_of w b
   | _ \<Rightarrow> 0)"

definition is_division :: "instruction_opcode \<Rightarrow> bool" where
  "is_division opcode \<longleftrightarrow> opcode \<in> {OpSDiv, OpSRem, OpUDiv, OpURem}"

text \<open>When the unbounded result is the machine's.\<close>

definition no_wrap :: "instruction_opcode \<Rightarrow> nat \<Rightarrow> int \<Rightarrow> int \<Rightarrow> bool" where
  "no_wrap opcode w a b \<longleftrightarrow> (case opcode of
     OpAdd \<Rightarrow> fits w (a + b) | OpSub \<Rightarrow> fits w (a - b) | OpMul \<Rightarrow> fits w (a * b)
   | OpSDiv \<Rightarrow> 0 \<le> a | OpSRem \<Rightarrow> 0 \<le> a \<and> 0 < b
   | _ \<Rightarrow> True)"

lemma smt_div: "b \<noteq> 0 \<Longrightarrow> 0 \<le> a \<Longrightarrow> sgn b * (a div \<bar>b\<bar>) = (a :: int) sdiv b"
  by (cases "a = 0") (auto simp: signed_divide_int_def)

lemma smt_rem: "0 < b \<Longrightarrow> 0 \<le> a \<Longrightarrow> sgn b * (a mod \<bar>b\<bar>) = (a :: int) smod b"
  by (cases "a = 0") (auto simp: signed_modulo_int_def signed_divide_int_def minus_div_mult_eq_mod)

section \<open>Values of terms\<close>

lemma compare_IntV [simp]: "eval_term s t = IntV a \<Longrightarrow> eval_formula s (FGe t (TInt 0)) \<longleftrightarrow> 0 \<le> a"
  by simp

lemma transfer_runs_new [simp]: "transfer_runs s (transfer_fn_new es) t \<longleftrightarrow> steps effect_step s es t"
  by (simp add: transfer_fn_new_def)

text \<open>The variable an instruction defines does not occur in its operands.\<close>

definition fresh_target :: "var \<Rightarrow> fterm \<Rightarrow> bool" where
  "fresh_target x t \<longleftrightarrow> x \<notin> scalars_term t"

lemma eval_fresh_target: "fresh_target x t \<Longrightarrow> eval_term (set_scalar x v s) t = eval_term s t"
  by (rule eval_term_agree) (auto simp: fresh_target_def agree_def same_arith_def)

section \<open>Arithmetic\<close>

definition unsigned_division :: "instruction_opcode \<Rightarrow> bool" where
  "unsigned_division opcode \<longleftrightarrow> opcode = OpUDiv \<or> opcode = OpURem"

lemma lowered_arithmetic:
  assumes "lower_node_transfer oc l memory_pure allocs heaps layout fn_name i = aret tr"
    and "raw_opcode l i \<in> {OpAdd, OpSub, OpMul, OpSDiv, OpSRem, OpUDiv, OpURem}"
    and "numeric_operand oc l fn_name i 0 = aret ta" "numeric_operand oc l fn_name i 1 = aret tb"
    and "assigned_var l fn_name i = aret x"
  shows "tr = transfer_fn_new (if unsigned_division (raw_opcode l i)
    then [Assign x (AssignTerm (if raw_opcode l i = OpUDiv then TDiv ta tb else TRem ta tb)),
      Assume (FGe ta (TInt 0)), Assume (FGe tb (TInt 0)), Assume (FGe (TVar x) (TInt 0))]
    else [Assign x (AssignTerm (arithmetic_term (raw_opcode l i) ta tb))])"
  using assms(1,2)
  by (auto simp: lower_node_transfer_def node_effects_of_def lower_arithmetic_def
      lower_unsigned_division_def assms(3-5) assms(4) [unfolded One_nat_def] unsigned_division_def)

lemma fits_div:
  assumes "fits w a" "0 \<le> a" "0 < b"
  shows "fits w (a div b)" "fits w (a mod b)"
proof -
  have "a div b \<le> a" "a mod b \<le> a" using assms(2,3) by (auto intro: div_le_nonneg zmod_le_nonneg_dividend)
  moreover have "0 \<le> a div b" "0 \<le> a mod b" using assms(2,3) by (simp_all add: pos_imp_zdiv_nonneg_iff)
  moreover have "- (2 ^ (w - 1)) \<le> (0 :: int)" by simp
  ultimately show "fits w (a div b)" "fits w (a mod b)" using assms(1) unfolding fits_def by linarith+
qed

lemma fits_sdiv:
  assumes "fits w a" "0 \<le> a"
  shows "fits w (a sdiv b)" "fits w (a smod b)"
proof -
  have "\<bar>a sdiv b\<bar> \<le> a"
  proof (cases "b = 0")
    case False
    then have "\<bar>a sdiv b\<bar> = sgn a * (a div \<bar>b\<bar>)"
      using assms(2) by (auto simp: signed_divide_int_def abs_mult abs_sgn_eq pos_imp_zdiv_nonneg_iff)
    also have "\<dots> \<le> a" using assms(2) False by (cases "a = 0") (auto intro: div_le_nonneg)
    finally show ?thesis .
  qed (use assms(2) in \<open>simp add: signed_divide_int_def\<close>)
  then show "fits w (a sdiv b)" using assms(1) by (auto simp: fits_def)
  have "a smod b = a mod \<bar>b\<bar>"
    using assms(2) by (cases "a = 0") (auto simp: signed_modulo_int_def)
  moreover have "0 \<le> a mod \<bar>b\<bar>" "a mod \<bar>b\<bar> \<le> a"
    using assms(2) zmod_le_nonneg_dividend by (cases "b = 0"; simp)+
  ultimately show "fits w (a smod b)" using assms(1) by (auto simp: fits_def)
qed

lemma eval_arithmetic:
  assumes "admissible s" "eval_term s ta = IntV a" "eval_term s tb = IntV b"
    and "opcode \<in> {OpAdd, OpSub, OpMul, OpSDiv, OpSRem}" "is_division opcode \<Longrightarrow> b \<noteq> 0"
    and "fits w a" "no_wrap opcode w a b"
  shows "eval_term s (arithmetic_term opcode ta tb) = IntV (machine_binop opcode w a b)"
proof -
  have smt: "smtlib_division s" using assms(1) by (simp add: admissible_def)
  consider "opcode = OpAdd" | "opcode = OpSub" | "opcode = OpMul" | "opcode = OpSDiv" | "opcode = OpSRem"
    using assms(4) by blast
  then show ?thesis
  proof cases
    case 4
    with smt assms(5) have "int_div_of s a b = sgn b * (a div \<bar>b\<bar>)" by (simp add: smtlib_division_def is_division_def)
    with 4 assms fits_sdiv(1) [of w a b] show ?thesis
      by (simp add: machine_binop_def no_wrap_def is_division_def smt_div)
  next
    case 5
    then have "0 < b" "0 \<le> a" using assms(7) by (simp_all add: no_wrap_def)
    with smt have "int_rem_of s a b = a smod b" using smt_rem [of b a] by (simp add: smtlib_division_def)
    with 5 assms fits_sdiv(2) [of w a b] show ?thesis by (simp add: machine_binop_def no_wrap_def)
  qed (use assms in \<open>simp_all add: machine_binop_def no_wrap_def\<close>)
qed

lemma eval_unsigned_division:
  assumes "admissible s" "eval_term s ta = IntV a" "eval_term s tb = IntV b"
    and "unsigned_division opcode" "0 < w" "fits w a" "fits w b" "0 \<le> a" "0 < b"
  shows "eval_term s (if opcode = OpUDiv then TDiv ta tb else TRem ta tb) = IntV (machine_binop opcode w a b)"
    and "0 \<le> machine_binop opcode w a b"
proof -
  have smt: "smtlib_division s" using assms(1) by (simp add: admissible_def)
  have "unsigned_of w a = a" "unsigned_of w b = b" using assms(5-9) by (simp_all add: unsigned_of_nonneg)
  then have m: "machine_binop opcode w a b = (if opcode = OpUDiv then a div b else a mod b)"
    using assms(4) fits_div [OF assms(6,8,9)]
    by (auto simp: machine_binop_def unsigned_division_def)
  with smt assms(2,3,4,9) show "eval_term s (if opcode = OpUDiv then TDiv ta tb else TRem ta tb) = IntV (machine_binop opcode w a b)"
    by (auto simp: smtlib_division_def unsigned_division_def)
  show "0 \<le> machine_binop opcode w a b" using assms(8,9) by (simp add: m pos_imp_zdiv_nonneg_iff)
qed

text \<open>
  C28: addition, subtraction, multiplication, division and remainder of integers are lowered faithfully
  where they do not wrap: for operands that are w-bit values, with a divisor that is not 0, when sums,
  differences and products are w-bit values, signed division has a nonnegative dividend and the signed
  remainder a positive divisor besides, the lowered effects have one outcome, in which the variable holds what
  the machine computes; unsigned division keeps exactly the executions whose operands are nonnegative when
  read as signed.
\<close>

theorem integer_arithmetic_faithful:
  assumes "lower_node_transfer oc l memory_pure allocs heaps layout fn_name i = aret tr"
    and "raw_opcode l i \<in> {OpAdd, OpSub, OpMul, OpSDiv, OpSRem, OpUDiv, OpURem}"
    and "numeric_operand oc l fn_name i 0 = aret ta" "numeric_operand oc l fn_name i 1 = aret tb"
    and "assigned_var l fn_name i = aret x" "fresh_target x ta" "fresh_target x tb"
    and "admissible s" "eval_term s ta = IntV a" "eval_term s tb = IntV b"
    and "0 < w" "fits w a" "fits w b" "is_division (raw_opcode l i) \<longrightarrow> b \<noteq> 0"
    and "no_wrap (raw_opcode l i) w a b"
  shows "transfer_runs s tr t \<longleftrightarrow> (unsigned_division (raw_opcode l i) \<longrightarrow> 0 \<le> a \<and> 0 \<le> b) \<and>
    t = set_scalar x (IntV (machine_binop (raw_opcode l i) w a b)) s"
proof (cases "unsigned_division (raw_opcode l i)")
  case True
  let ?t = "if raw_opcode l i = OpUDiv then TDiv ta tb else TRem ta tb"
  let ?u = "set_scalar x (eval_term s ?t) s"
  have tr: "tr = transfer_fn_new [Assign x (AssignTerm ?t), Assume (FGe ta (TInt 0)),
      Assume (FGe tb (TInt 0)), Assume (FGe (TVar x) (TInt 0))]"
    using lowered_arithmetic [OF assms(1-5)] True by simp
  have ops: "eval_term ?u ta = IntV a" "eval_term ?u tb = IntV b"
    using assms(6,7,9,10) by (simp_all add: eval_fresh_target)
  have runs: "transfer_runs s tr t \<longleftrightarrow> t = ?u \<and> 0 \<le> a \<and> 0 \<le> b \<and> eval_formula ?u (FGe (TVar x) (TInt 0))"
    unfolding tr by (auto simp: effect_step_simps ops)
  have b: "b \<noteq> 0" using assms(14) True by (auto simp: unsigned_division_def is_division_def)
  show ?thesis
  proof (cases "0 \<le> a \<and> 0 \<le> b")
    case nonneg: True
    with b have "0 < b" by simp
    note eval_unsigned_division [OF assms(8,9,10) True assms(11-13) _ this]
    with nonneg True runs show ?thesis by simp
  qed (use runs True in auto)
next
  case False
  have "raw_opcode l i \<in> {OpAdd, OpSub, OpMul, OpSDiv, OpSRem}"
    using assms(2) False by (auto simp: unsigned_division_def)
  note eval_arithmetic [OF assms(8-10) this _ assms(12,15)]
  with lowered_arithmetic [OF assms(1-5)] False assms(14) show ?thesis
    by (auto simp: effect_step_simps)
qed

section \<open>Comparisons\<close>

definition machine_icmp :: "int_predicate \<Rightarrow> nat \<Rightarrow> int \<Rightarrow> int \<Rightarrow> bool" where
  "machine_icmp p w a b = (let ua = unsigned_of w a; ub = unsigned_of w b in case p of
     IntEQ \<Rightarrow> a = b | IntNE \<Rightarrow> a \<noteq> b
   | IntSGT \<Rightarrow> b < a | IntSGE \<Rightarrow> b \<le> a | IntSLT \<Rightarrow> a < b | IntSLE \<Rightarrow> a \<le> b
   | IntUGT \<Rightarrow> ub < ua | IntUGE \<Rightarrow> ub \<le> ua | IntULT \<Rightarrow> ua < ub | IntULE \<Rightarrow> ua \<le> ub)"

text \<open>The formula of a predicate decides the machine comparison of nonnegative or signed operands.\<close>

lemma predicate_formula_faithful:
  assumes "raw_opcode l i = OpICmp" "get_icmp_predicate l i = Some name" "predicate_formula name ta tb = Some f"
    and "eval_term s ta = IntV a" "eval_term s tb = IntV b" "0 < w" "fits w a" "fits w b"
    and "is_unsigned_icmp l i \<longrightarrow> 0 \<le> a \<and> 0 \<le> b"
  shows "eval_formula s f \<longleftrightarrow> machine_icmp (raw_icmp l i) w a b"
  using assms
  by (cases "raw_icmp l i")
    (auto simp: get_icmp_predicate_def is_unsigned_icmp_def machine_icmp_def unsigned_of_nonneg Let_def)

text \<open>
  C29: integer comparisons are lowered faithfully: on w-bit operands a signed comparison or an
  equality always has one outcome, the machine's; an unsigned comparison has it exactly in the
  executions whose operands are nonnegative when read as signed, and drops the others.
\<close>

theorem integer_comparison_faithful:
  assumes "lower_node_transfer oc l memory_pure allocs heaps layout fn_name i = aret tr"
    and "raw_opcode l i = OpICmp"
    and "numeric_operand oc l fn_name i 0 = aret ta" "numeric_operand oc l fn_name i 1 = aret tb"
    and "assigned_var l fn_name i = aret x"
    and "eval_term s ta = IntV a" "eval_term s tb = IntV b" "0 < w" "fits w a" "fits w b"
  shows "transfer_runs s tr t \<longleftrightarrow> (is_unsigned_icmp l i \<longrightarrow> 0 \<le> a \<and> 0 \<le> b) \<and>
    t = set_bool x (machine_icmp (raw_icmp l i) w a b) s"
proof -
  obtain name f where f: "get_icmp_predicate l i = Some name" "predicate_formula name ta tb = Some f"
    and tr: "tr = transfer_fn_new ((if is_unsigned_icmp l i then [Assume (FGe ta (TInt 0)), Assume (FGe tb (TInt 0))] else [])
      @ [Assign x (AssignPredicate f)])"
    using assms(1,2)
    by (auto simp: lower_node_transfer_def node_effects_of_def lower_comparison_effects_def assms(3-5)
        assms(4) [unfolded One_nat_def] abind_eq_aret Let_def simp del: predicate_formula.simps)
  have "transfer_runs s tr t \<longleftrightarrow> (is_unsigned_icmp l i \<longrightarrow> 0 \<le> a \<and> 0 \<le> b) \<and> t = set_bool x (eval_formula s f) s"
    unfolding tr using assms(6,7) by (auto simp: effect_step_simps)
  with predicate_formula_faithful [OF assms(2) f assms(6-10)] show ?thesis
    by (cases "is_unsigned_icmp l i \<longrightarrow> 0 \<le> a \<and> 0 \<le> b") auto
qed

section \<open>Casts\<close>

definition machine_cast :: "instruction_opcode \<Rightarrow> nat \<Rightarrow> nat \<Rightarrow> int \<Rightarrow> int" where
  "machine_cast opcode w v a = (case opcode of OpZExt \<Rightarrow> unsigned_of w a | OpTrunc \<Rightarrow> wrap v a | _ \<Rightarrow> a)"

lemma power_of_two_i64:
  assumes "n \<le> 62"
  shows "1 \<le> (2 :: int) ^ n" "(2 :: int) ^ n \<le> 4611686018427387904"
  using power_increasing [OF assms, of "2 :: int"] by simp_all

lemma sint_power_offset:
  assumes "n \<le> 62" "d \<in> {0, 1}"
  shows "sint (push_bit n 1 - word_of_int d :: i64) = 2 ^ n - d"
    and "sint (- push_bit n 1 :: i64) = - (2 ^ n)"
proof -
  have "in_i64 (2 ^ n - d)" "in_i64 (- (2 ^ n))"
    using power_of_two_i64 [OF assms(1)] assms(2) unfolding in_i64_def by (auto simp del: one_le_power)
  moreover have "push_bit n 1 - word_of_int d = (word_of_int (2 ^ n - d) :: i64)"
    "- push_bit n 1 = (word_of_int (- (2 ^ n)) :: i64)" by (simp_all add: push_bit_of_1)
  ultimately show "sint (push_bit n 1 - word_of_int d :: i64) = 2 ^ n - d"
    "sint (- push_bit n 1 :: i64) = - (2 ^ n)"
    by (simp_all only: sint_word_of_int_i64)
qed

text \<open>The bounds a narrow extension adds: those of the unsigned and of the signed \<open>w\<close>-bit values.\<close>

lemma extension_bounds_hold:
  assumes "0 < w" "w \<le> 16" "eval_term u (TVar x) = IntV a"
  shows "steps effect_step u (extension_bounds OpZExt w x) t \<longleftrightarrow> t = u \<and> 0 \<le> a \<and> a < 2 ^ unat w"
    and "steps effect_step u (extension_bounds OpSExt w x) t \<longleftrightarrow> t = u \<and> fits (unat w) a"
proof -
  have w: "0 < unat w" "unat w \<le> 16" "w \<noteq> 0"
    using assms(1,2) by (auto simp: word_le_nat_alt word_less_nat_alt)
  have up: "sint (push_bit (unat w) 1 - 1 :: i64) = 2 ^ unat w - 1"
    "sint (push_bit (unat w - 1) 1 - 1 :: i64) = 2 ^ (unat w - 1) - 1"
    "sint (- push_bit (unat w - 1) 1 :: i64) = - (2 ^ (unat w - 1))"
    using w sint_power_offset [of "unat w" 1] sint_power_offset [of "unat w - 1" 1] by simp_all
  show "steps effect_step u (extension_bounds OpZExt w x) t \<longleftrightarrow> t = u \<and> 0 \<le> a \<and> a < 2 ^ unat w"
    using w assms(2,3) up by (auto simp: extension_bounds_def zext_upper_bound_def effect_step_simps)
  show "steps effect_step u (extension_bounds OpSExt w x) t \<longleftrightarrow> t = u \<and> fits (unat w) a"
    using w assms(2,3) up by (auto simp: extension_bounds_def sext_bounds_def fits_def effect_step_simps Let_def)
qed

lemma lowered_cast:
  assumes "lower_node_transfer oc l memory_pure allocs heaps layout fn_name i = aret tr"
    and "raw_opcode l i \<in> {OpSExt, OpZExt, OpTrunc}" "get_operand l i 0 = Some source"
    and "sort_of_instruction_value l source = aret srt" "integer_width l source = Some w"
    and "assigned_var l fn_name i = aret x"
    and "(if srt = SBool then abind (lower_bool_value l fn_name source) (\<lambda>f. aret (TBoolToInt f))
        else lower_numeric_value oc l fn_name source) = aret ta"
  shows "tr = transfer_fn_new (Assign x (AssignTerm ta) # extension_bounds (raw_opcode l i) w x)"
  using assms(1,2)
  by (auto simp: lower_node_transfer_def node_effects_of_def lower_extension_def required_operand_def
      of_option_def assms(3-7))

text \<open>
  C30: casts of integers, other than \<open>i1\<close>, are lowered faithfully: on a w-bit operand a sign extension
  always has one outcome, the machine's, whatever the bounds it adds; a zero extension has it exactly in the
  executions whose operand is nonnegative when read as signed, and drops the others; a truncation has it when
  the operand fits the narrower width.
\<close>

theorem integer_cast_faithful:
  assumes "lower_node_transfer oc l memory_pure allocs heaps layout fn_name i = aret tr"
    and "raw_opcode l i \<in> {OpSExt, OpZExt, OpTrunc}" "get_operand l i 0 = Some source"
    and "sort_of_instruction_value l source = aret SInt" "integer_width l source = Some w"
    and "assigned_var l fn_name i = aret x" "lower_numeric_value oc l fn_name source = aret ta"
    and "eval_term s ta = IntV a" "0 < w" "fits (unat w) a" "raw_opcode l i = OpTrunc \<longrightarrow> fits v a"
  shows "transfer_runs s tr t \<longleftrightarrow> (raw_opcode l i = OpZExt \<longrightarrow> 0 \<le> a) \<and>
    t = set_scalar x (IntV (machine_cast (raw_opcode l i) (unat w) v a)) s"
proof -
  let ?u = "set_scalar x (IntV a) s"
  have "tr = transfer_fn_new (Assign x (AssignTerm ta) # extension_bounds (raw_opcode l i) w x)"
    using lowered_cast [OF assms(1-6)] assms(7) by simp
  then have runs: "transfer_runs s tr t \<longleftrightarrow> steps effect_step ?u (extension_bounds (raw_opcode l i) w x) t"
    using assms(8) by (simp add: effect_step_simps)
  have w: "0 < unat w" using assms(9) by (simp add: word_less_nat_alt)
  have u: "eval_term ?u (TVar x) = IntV a" by simp
  have wide: "steps effect_step ?u (extension_bounds OpZExt w x) t \<longleftrightarrow> t = ?u \<and> 0 \<le> a"
    "steps effect_step ?u (extension_bounds OpSExt w x) t \<longleftrightarrow> t = ?u" if "\<not> w \<le> 16"
    using that by (auto simp: extension_bounds_def effect_step_simps)
  have bounds: "a < 2 ^ unat w"
    using assms(10) power_increasing [of "unat w - 1" "unat w" "2 :: int"] unfolding fits_def by linarith
  consider "raw_opcode l i = OpSExt" | "raw_opcode l i = OpZExt" | "raw_opcode l i = OpTrunc"
    using assms(2) by blast
  then show ?thesis
  proof cases
    case 1
    with runs wide(2) extension_bounds_hold(2) [OF assms(9) _ u] assms(10) show ?thesis
      by (cases "w \<le> 16") (simp_all add: machine_cast_def)
  next
    case 2
    have "unsigned_of (unat w) a = a" if "0 \<le> a" using unsigned_of_nonneg [OF w assms(10) that] .
    moreover have "steps effect_step ?u (extension_bounds OpZExt w x) t \<longleftrightarrow> t = ?u \<and> 0 \<le> a"
      using wide(1) extension_bounds_hold(1) [OF assms(9) _ u] bounds by (cases "w \<le> 16") simp_all
    ultimately show ?thesis using 2 runs by (cases "0 \<le> a") (simp_all add: machine_cast_def)
  next
    case 3
    with runs assms(11) show ?thesis by (simp add: machine_cast_def extension_bounds_def)
  qed
qed

text \<open>
  The sign extension of a Boolean that is true is \<open>-1\<close>; the lowering assigns \<open>1\<close> and bounds it by \<open>0\<close>,
  so no execution is left.
\<close>

lemma sext_drops_true:
  assumes "lower_node_transfer oc l memory_pure allocs heaps layout fn_name i = aret tr"
    and "raw_opcode l i = OpSExt" "get_operand l i 0 = Some source"
    and "sort_of_instruction_value l source = aret SBool" "integer_width l source = Some 1"
    and "assigned_var l fn_name i = aret x" "lower_bool_value l fn_name source = aret p"
    and "eval_formula s p"
  shows "\<not> transfer_runs s tr t"
proof -
  have "tr = transfer_fn_new (Assign x (AssignTerm (TBoolToInt p)) # extension_bounds OpSExt 1 x)"
    using lowered_cast [OF assms(1) _ assms(3-6)] assms(2,7) by simp
  moreover have "\<not> fits 1 1" by (simp add: fits_def)
  ultimately show ?thesis
    using assms(8) extension_bounds_hold(2) [of 1 "set_scalar x (IntV 1) s" x 1 t]
    by (simp add: effect_step_simps)
qed

text \<open>A negative dividend is divided towards negative infinity, not towards zero.\<close>

lemma sdiv_rounds_down:
  assumes "admissible s" "eval_term s ta = IntV (- 7)" "eval_term s tb = IntV 2"
  shows "eval_term s (arithmetic_term OpSDiv ta tb) = IntV (- 4)" "machine_binop OpSDiv 32 (- 7) 2 = - 3"
  using assms by (simp_all add: admissible_def smtlib_division_def machine_binop_def wrap_def signed_divide_int_def)

section \<open>Examples\<close>

text \<open>\<open>x = op a, b\<close> and \<open>x = op (-8)\<close> on 32-bit values, and \<open>x = sext c\<close> with a Boolean \<open>c\<close>.\<close>

definition int_module :: "instruction_opcode \<Rightarrow> llvm" where
  "int_module opcode = sample_module\<lparr>raw_opcode := (\<lambda>i. if i \<le> 1 then opcode else OpUnknown),
     raw_type := (\<lambda>i. Some i), raw_kind := (\<lambda>t. if t = 4 \<or> t = 1 \<and> opcode = OpICmp then KInteger 1 else KInteger 32),
     raw_name := (\<lambda>i. Some [CHR ''x'' , char_of (48 + i)]),
     raw_constant_int := (\<lambda>i. if i = 5 then Some (- 8) else None), raw_icmp := (\<lambda>_. IntULT),
     raw_operands := (\<lambda>i. if i = 0 then [Some 5] else if i = 1 then [Some 2, Some 3] else [])\<rparr>"

definition int_state :: "int \<Rightarrow> int \<Rightarrow> valuation" where
  "int_state a b = sample_state\<lparr>scalar_of := (\<lambda>v. if var_sort v \<noteq> SInt then scalar_of sample_state v
     else IntV (if var_name v = ''f$%x2'' then a else b))\<rparr>"

lemma int_state_admissible: "admissible (int_state a b)"
  using sample_state_admissible
  by (auto simp: admissible_def well_sorted_def smtlib_division_def int_state_def)

abbreviation lower_example :: "instruction_opcode \<Rightarrow> transfer_fn adapted" where
  "lower_example opcode \<equiv> lower_node_transfer True (int_module opcode) {} Map.empty Map.empty [] ''f'' 1"

lemma example_operands:
  assumes "opcode \<in> {OpAdd, OpUDiv, OpICmp, OpZExt}"
  shows "numeric_operand True (int_module opcode) ''f'' 1 0 = aret (TVar (var_int ''f$%x2''))"
    and "numeric_operand True (int_module opcode) ''f'' 1 1 = aret (TVar (var_int ''f$%x3''))"
    and "assigned_var (int_module opcode) ''f'' 1 = aret (var_new ''f$%x1'' (if opcode = OpICmp then SBool else SInt))"
proof -
  consider "opcode = OpAdd" | "opcode = OpUDiv" | "opcode = OpICmp" | "opcode = OpZExt" using assms by blast
  then show "numeric_operand True (int_module opcode) ''f'' 1 0 = aret (TVar (var_int ''f$%x2''))"
    by cases (simp only: ; code_simp)+
  consider "opcode = OpAdd" | "opcode = OpUDiv" | "opcode = OpICmp" | "opcode = OpZExt" using assms by blast
  then show "numeric_operand True (int_module opcode) ''f'' 1 1 = aret (TVar (var_int ''f$%x3''))"
    by cases (simp only: ; code_simp)+
  consider "opcode = OpAdd" | "opcode = OpUDiv" | "opcode = OpICmp" | "opcode = OpZExt" using assms by blast
  then show "assigned_var (int_module opcode) ''f'' 1 = aret (var_new ''f$%x1'' (if opcode = OpICmp then SBool else SInt))"
    by cases (simp only: ; code_simp)+
qed

lemma example_lowered: "\<exists>tr. lower_example OpAdd = aret tr" "\<exists>tr. lower_example OpICmp = aret tr"
  "\<exists>tr. lower_example OpZExt = aret tr"
proof -
  have "case lower_example OpAdd of Returns (Inr tr) \<Rightarrow> True | _ \<Rightarrow> False"
    "case lower_example OpICmp of Returns (Inr tr) \<Rightarrow> True | _ \<Rightarrow> False"
    "case lower_example OpZExt of Returns (Inr tr) \<Rightarrow> True | _ \<Rightarrow> False" by code_simp+
  then show "\<exists>tr. lower_example OpAdd = aret tr" "\<exists>tr. lower_example OpICmp = aret tr"
    "\<exists>tr. lower_example OpZExt = aret tr" by (auto split: outcome.splits sum.splits)
qed

lemma int_state_values [simp]:
  "eval_term (int_state a b) (TVar (var_int ''f$%x2'')) = IntV a"
  "eval_term (int_state a b) (TVar (var_int ''f$%x3'')) = IntV b"
  by (simp_all add: int_state_def var_int_def var_new_def)

theorem integer_arithmetic_witness:
  "\<exists>tr. lower_example OpAdd = aret tr \<and>
    transfer_runs (int_state 3 4) tr (set_scalar (var_new ''f$%x1'' SInt) (IntV 7) (int_state 3 4))"
proof -
  obtain tr where tr: "lower_example OpAdd = aret tr" using example_lowered by blast
  have op: "raw_opcode (int_module OpAdd) 1 = OpAdd" by (simp add: int_module_def)
  have x: "assigned_var (int_module OpAdd) ''f'' 1 = aret (var_new ''f$%x1'' SInt)"
    using example_operands(3) [of OpAdd] by simp
  have "transfer_runs (int_state 3 4) tr t \<longleftrightarrow>
      t = set_scalar (var_new ''f$%x1'' SInt) (IntV (machine_binop OpAdd 32 3 4)) (int_state 3 4)" for t
    using integer_arithmetic_faithful [OF tr _ example_operands(1,2) [of OpAdd] x _ _ int_state_admissible
        int_state_values(1) [of 3 4] int_state_values(2) [of 3 4], where w = 32 and t = t]
    by (simp add: op op [unfolded One_nat_def] fresh_target_def var_int_def var_new_def fits_def is_division_def no_wrap_def unsigned_division_def)
  moreover have "machine_binop OpAdd 32 3 4 = 7" by (simp add: machine_binop_def fits_def)
  ultimately show ?thesis using tr by auto
qed

text \<open>\<open>2 < -1\<close> holds in the unsigned order: the machine goes on, the lowered effects stop.\<close>

theorem integer_comparison_witness:
  "\<exists>tr. lower_example OpICmp = aret tr \<and> (\<forall>t. \<not> transfer_runs (int_state 2 (- 1)) tr t)
    \<and> machine_icmp IntULT 32 2 (- 1)"
proof -
  obtain tr where tr: "lower_example OpICmp = aret tr" using example_lowered by blast
  have op: "raw_opcode (int_module OpICmp) 1 = OpICmp" "raw_icmp (int_module OpICmp) 1 = IntULT"
    by (simp_all add: int_module_def)
  have "\<not> transfer_runs (int_state 2 (- 1)) tr t" for t
    using integer_comparison_faithful [OF tr op(1) example_operands(1,2) [of OpICmp] example_operands(3) [of OpICmp]
        int_state_values(1) [of 2 "- 1"] int_state_values(2) [of 2 "- 1"], where w = 32 and t = t]
    by (simp add: op op [unfolded One_nat_def] fits_def is_unsigned_icmp_def)
  moreover have "machine_icmp IntULT 32 2 (- 1)" by (simp add: machine_icmp_def unsigned_of_def take_bit_eq_mod)
  ultimately show ?thesis using tr by blast
qed

theorem integer_cast_witness:
  "\<exists>tr. lower_example OpZExt = aret tr \<and> (\<forall>t. \<not> transfer_runs (int_state (- 1) 0) tr t)
    \<and> transfer_runs (int_state 9 0) tr (set_scalar (var_new ''f$%x1'' SInt) (IntV 9) (int_state 9 0))"
proof -
  obtain tr where tr: "lower_example OpZExt = aret tr" using example_lowered by blast
  have op: "raw_opcode (int_module OpZExt) 1 = OpZExt" by (simp add: int_module_def)
  have source: "get_operand (int_module OpZExt) 1 0 = Some 2"
    "sort_of_instruction_value (int_module OpZExt) 2 = aret SInt" "integer_width (int_module OpZExt) 2 = Some 32"
    "lower_numeric_value True (int_module OpZExt) ''f'' 2 = aret (TVar (var_int ''f$%x2''))"
    by code_simp+
  have x: "assigned_var (int_module OpZExt) ''f'' 1 = aret (var_new ''f$%x1'' SInt)"
    using example_operands(3) [of OpZExt] by simp
  have "transfer_runs (int_state a 0) tr t \<longleftrightarrow> 0 \<le> a \<and>
      t = set_scalar (var_new ''f$%x1'' SInt) (IntV (unsigned_of 32 a)) (int_state a 0)" if "fits 32 a" for a t
    using integer_cast_faithful [OF tr _ source(1-3) x source(4) int_state_values(1) [of a 0], where v = 64 and t = t] that
    by (simp add: op op [unfolded One_nat_def] machine_cast_def)
  from this [of "- 1"] this [of 9] show ?thesis using tr by (auto simp: fits_def unsigned_of_def take_bit_eq_mod)
qed

end
