(* ===== verification/Resolution.thy ===== *)
theory Resolution
  imports Instructions Flat_Layout "HOL-Library.Product_Lexorder"
begin

text \<open>
  The resolution of memory effects (\<open>resolve_memory_effects\<close> of \<open>src/cfg/adapter.rs\<close>): one forward
  pass over the nodes that binds pointers to regions and offsets and rewrites loads and stores into
  reads and writes of regions.  The pass carries the record \<open>resolution\<close>.  The offset in a key of
  \<open>ptr_at\<close> is read as an integer.
\<close>

section \<open>Summaries of callees\<close>

record write_effect_summary =
  we_param_index :: nat
  we_ext_region_name :: string
  we_obs_name :: string
  we_relation :: formula

record pointer_write_effect =
  pw_param_index :: nat
  pw_param_offset :: i64
  pw_target_region :: string
  pw_target_offset :: fterm

record return_summary =
  rs_function :: string
  rs_formal_parameters :: "string list"
  rs_retval_name :: string
  rs_relation :: formula
  rs_write_effects :: "write_effect_summary list"
  rs_ptr_writes :: "pointer_write_effect list"

type_synonym vtables = "string \<rightharpoonup> string option list"

record call_summary_registry =
  registry :: "(string, return_summary) btree"
  next_call_site :: nat
  vtable_map :: vtables

definition registry_new :: call_summary_registry where
  "registry_new = \<lparr>registry = [], next_call_site = 0, vtable_map = Map.empty\<rparr>"

definition registry_insert :: "return_summary \<Rightarrow> call_summary_registry \<Rightarrow> call_summary_registry" where
  "registry_insert smry self = self\<lparr>registry := bt_insert (rs_function smry) smry (registry self)\<rparr>"

definition registry_get :: "call_summary_registry \<Rightarrow> string \<Rightarrow> return_summary option" where
  "registry_get self callee = bt_get (registry self) callee"

definition registry_is_empty :: "call_summary_registry \<Rightarrow> bool" where
  "registry_is_empty self \<longleftrightarrow> registry self = []"

definition next_call_site_id :: "call_summary_registry \<Rightarrow> nat \<times> call_summary_registry" where
  "next_call_site_id self = (next_call_site self, self\<lparr>next_call_site := next_call_site self + 1\<rparr>)"

text \<open>An entry that is there stays; a global without function pointers adds none.\<close>

definition add_vtable :: "string \<Rightarrow> string option list option \<Rightarrow> vtables \<Rightarrow> vtables" where
  "add_vtable r entries m = (case m r of
     Some _ \<Rightarrow> m
   | None \<Rightarrow> (case entries of None \<Rightarrow> m | Some es \<Rightarrow> m(r \<mapsto> es)))"

definition base_fn_ptrs :: "llvm \<Rightarrow> instruction \<Rightarrow> string option list option" where
  "base_fn_ptrs l op = (case get_operand l op 0 of None \<Rightarrow> None | Some base \<Rightarrow> constant_fn_ptr_elements l base)"

definition scan_operand :: "bool \<Rightarrow> llvm \<Rightarrow> instruction \<Rightarrow> vtables \<Rightarrow> vtables outcome" where
  "scan_operand oc l op m =
     obind (as_const_gep_of_global oc l op) (\<lambda>gep. Returns (case gep of
       Some (global_name, _) \<Rightarrow> add_vtable (''global$'' @ global_name) (base_fn_ptrs l op) m
     | None \<Rightarrow>
         if raw_is_global l op then add_vtable (global_region l op) (constant_fn_ptr_elements l op) m else m))"

fun ofor :: "('a \<Rightarrow> 's \<Rightarrow> 's outcome) \<Rightarrow> 'a list \<Rightarrow> 's \<Rightarrow> 's outcome" where
  "ofor f [] s = Returns s"
| "ofor f (x # xs) s = obind (f x s) (ofor f xs)"

definition graph_operands :: "llvm \<Rightarrow> function_graph \<Rightarrow> instruction list" where
  "graph_operands l g = concat (map (get_operands l) (vertices g))"

definition scan_graph_vtables ::
  "bool \<Rightarrow> llvm \<Rightarrow> function_graph \<Rightarrow> call_summary_registry \<Rightarrow> call_summary_registry outcome" where
  "scan_graph_vtables oc l g self =
     obind (ofor (scan_operand oc l) (graph_operands l g) (vtable_map self)) (\<lambda>m.
       Returns (self\<lparr>vtable_map := m\<rparr>))"

section \<open>The environment before the pass\<close>

type_synonym ptr_map = "(string \<times> int, string \<times> fterm) btree"

record resolution =
  r_env :: pointer_env
  r_flat :: flat_layout
  flat_int_vars :: "string \<rightharpoonup> i64"
  fn_ptr_vars :: "string \<rightharpoonup> string"
  vtable_fn_ptrs :: vtables
  r_ptr_at :: ptr_map

definition bind_pointer :: "string \<Rightarrow> string \<Rightarrow> fterm \<Rightarrow> resolution \<Rightarrow> resolution" where
  "bind_pointer p r off st = st\<lparr>r_env := env_bind p r off (r_env st)\<rparr>"

definition bind_parameters :: "function_graph \<Rightarrow> string \<Rightarrow> pointer_env \<Rightarrow> pointer_env" where
  "bind_parameters g fn_name env =
     fold (\<lambda>index env. if index < length (graph_params g)
         then env_bind (fn_name @ ''$'' @ graph_params g ! index) (ext_region fn_name index) (TInt 0) env
         else env) (pointer_param_indices g) env"

definition bind_operand :: "bool \<Rightarrow> llvm \<Rightarrow> string \<Rightarrow> instruction \<Rightarrow> resolution \<Rightarrow> resolution outcome" where
  "bind_operand oc l fn_name op st =
     (let ptr_name = local_name l fn_name op in
      if raw_is_global l op \<and> is_ptr l op then
        let r = global_region l op;
            st = (if r_env st ptr_name = None then bind_pointer ptr_name r (TInt 0) st else st) in
        Returns (st\<lparr>vtable_fn_ptrs := add_vtable r (constant_fn_ptr_elements l op) (vtable_fn_ptrs st)\<rparr>)
      else
        obind (as_const_gep_of_global oc l op) (\<lambda>gep. case gep of
          None \<Rightarrow> Returns st
        | Some (global_name, off) \<Rightarrow>
            if r_env st ptr_name \<noteq> None then Returns st
            else
              let r = ''global$'' @ global_name in
              obind (add_region oc r (r_flat st)) (\<lambda>flat.
                Returns (bind_pointer ptr_name r (TInt off)
                  (st\<lparr>r_flat := flat,
                     vtable_fn_ptrs := add_vtable r (base_fn_ptrs l op) (vtable_fn_ptrs st)\<rparr>)))))"

section \<open>One effect\<close>

definition scalar_memory_slot_var :: "string \<Rightarrow> fterm \<Rightarrow> sort \<Rightarrow> var option" where
  "scalar_memory_slot_var r off srt =
     (case off of TInt n \<Rightarrow> Some (var_new (r @ ''$slot'' @ i64_str n) srt) | _ \<Rightarrow> None)"

text \<open>The value of an offset that is a constant.\<close>

definition with_constant ::
  "bool \<Rightarrow> fterm \<Rightarrow> 'b \<Rightarrow> (i64 \<Rightarrow> 'b outcome) \<Rightarrow> 'b outcome" where
  "with_constant oc off otherwise f =
     obind (try_as_constant_int oc off) (\<lambda>k. case k of None \<Rightarrow> Returns otherwise | Some k \<Rightarrow> f k)"

definition the_only :: "string set \<Rightarrow> string option" where
  "the_only s = (case sorted_list_of_set s of [x] \<Rightarrow> Some x | _ \<Rightarrow> None)"

definition set_ptr_at :: "string \<Rightarrow> i64 \<Rightarrow> string \<Rightarrow> fterm \<Rightarrow> resolution \<Rightarrow> resolution" where
  "set_ptr_at r k target_region target_offset st =
     st\<lparr>r_ptr_at := bt_insert (r, sint k) (target_region, target_offset) (r_ptr_at st)\<rparr>"

definition store_pointer ::
  "bool \<Rightarrow> alias_result \<Rightarrow> string \<Rightarrow> string \<Rightarrow> resolution \<Rightarrow> resolution outcome" where
  "store_pointer oc alias target_slot value_ptr st =
     (case r_env st target_slot of
        None \<Rightarrow> Returns st
      | Some slot \<Rightarrow> with_constant oc (offset slot) st (\<lambda>k. Returns (case r_env st value_ptr of
          Some val \<Rightarrow> set_ptr_at (region slot) k (region val) (offset val) st
        | None \<Rightarrow> (case the_only (points_to alias value_ptr) of
            Some r \<Rightarrow> set_ptr_at (region slot) k r (TInt 0) st
          | None \<Rightarrow> st))))"

definition vtable_entry :: "vtables \<Rightarrow> string \<Rightarrow> i64 \<Rightarrow> string option" where
  "vtable_entry m r idx = (case m r of
     None \<Rightarrow> None
   | Some entries \<Rightarrow> if unat idx < length entries then entries ! unat idx else None)"

definition load_pointer ::
  "bool \<Rightarrow> alias_result \<Rightarrow> string \<Rightarrow> string \<Rightarrow> resolution \<Rightarrow> resolution outcome" where
  "load_pointer oc alias target_ptr source_slot st =
     (case r_env st source_slot of
        Some binding \<Rightarrow>
          (let fallback = bind_pointer target_ptr (region binding) (offset binding) st in
           with_constant oc (offset binding) fallback (\<lambda>k. Returns
             (case bt_get (r_ptr_at st) (region binding, sint k) of
                Some (stored_region, stored_offset) \<Rightarrow> bind_pointer target_ptr stored_region stored_offset st
              | None \<Rightarrow> (case vtable_entry (vtable_fn_ptrs st) (region binding) k of
                  Some fn_name \<Rightarrow> st\<lparr>fn_ptr_vars := (fn_ptr_vars st)(target_ptr \<mapsto> fn_name)\<rparr>
                | None \<Rightarrow> fallback))))
      | None \<Rightarrow>
          Returns (case the_only (\<Union>r \<in> points_to alias source_slot. stored_into alias r) of
            Some r \<Rightarrow> bind_pointer target_ptr r (TInt 0) st
          | None \<Rightarrow> st))"

definition apply_ptr_write ::
  "bool \<Rightarrow> llvm \<Rightarrow> string \<Rightarrow> instruction list \<Rightarrow> pointer_write_effect \<Rightarrow> resolution \<Rightarrow> resolution outcome" where
  "apply_ptr_write oc l fn_name actual_args pw st =
     (if length actual_args \<le> pw_param_index pw then Returns st
      else case r_env st (local_name l fn_name (actual_args ! pw_param_index pw)) of
        None \<Rightarrow> Returns st
      | Some arg \<Rightarrow> with_constant oc (offset arg) st (\<lambda>base.
          obind (i64_add oc base (pw_param_offset pw)) (\<lambda>k.
            Returns (set_ptr_at (region arg) k (pw_target_region pw) (pw_target_offset pw) st))))"

definition apply_callee_writes ::
  "bool \<Rightarrow> llvm \<Rightarrow> string \<Rightarrow> call_summary_registry \<Rightarrow> instruction option \<Rightarrow> string \<Rightarrow> resolution
    \<Rightarrow> resolution outcome" where
  "apply_callee_writes oc l fn_name reg instr callee st =
     (case registry_get reg callee of
        None \<Rightarrow> Returns st
      | Some smry \<Rightarrow> (case instr of
          None \<Rightarrow> Returns st
        | Some i \<Rightarrow> ofor (apply_ptr_write oc l fn_name (get_call_args l i)) (rs_ptr_writes smry) st))"

definition real_slot :: "pointer_binding \<Rightarrow> var option" where
  "real_slot b = scalar_memory_slot_var (region b) (offset b) SReal"

text \<open>The rewritten effect and the state after it.\<close>

fun rewrite_effect ::
  "bool \<Rightarrow> llvm \<Rightarrow> string \<Rightarrow> alias_result \<Rightarrow> call_summary_registry \<Rightarrow> instruction option
    \<Rightarrow> transfer_effect \<Rightarrow> resolution \<Rightarrow> (transfer_effect \<times> resolution) outcome" where
  "rewrite_effect oc l fn_name alias reg instr (Alloca target r) st =
     Returns (Alloca target r, bind_pointer target r (TInt 0) st)"
| "rewrite_effect oc l fn_name alias reg instr (HeapAlloc result_ptr r) st =
     obind (add_region oc r (r_flat st)) (\<lambda>flat.
       Returns (HeapAlloc result_ptr r, bind_pointer result_ptr r (TInt 0) (st\<lparr>r_flat := flat\<rparr>)))"
| "rewrite_effect oc l fn_name alias reg instr (GetElementPtr target base off) st =
     Returns (GetElementPtr target base off, case r_env st base of
         None \<Rightarrow> st
       | Some parent \<Rightarrow> bind_pointer target (region parent) (TAdd (offset parent) off) st)"
| "rewrite_effect oc l fn_name alias reg instr (Load target source) st =
     Returns (case r_env st source of
         None \<Rightarrow> Load target source
       | Some b \<Rightarrow>
           if var_sort target = SReal then
             (case real_slot b of None \<Rightarrow> Load target source | Some slot \<Rightarrow> Assign target (AssignTerm (TVar slot)))
           else Assign target (AssignTerm (TSelect (MVar (region b)) (offset b))), st)"
| "rewrite_effect oc l fn_name alias reg instr (Store target val) st =
     Returns (case r_env st target of
         None \<Rightarrow> Store target val
       | Some b \<Rightarrow>
           if term_sort val = Inr SReal then
             (case real_slot b of None \<Rightarrow> Store target val | Some slot \<Rightarrow> Assign slot (AssignTerm val))
           else MemoryStore (region b) (offset b) val, st)"
| "rewrite_effect oc l fn_name alias reg instr (PointerStore target_slot value_ptr) st =
     obind (store_pointer oc alias target_slot value_ptr st) (\<lambda>st. Returns (Nop, st))"
| "rewrite_effect oc l fn_name alias reg instr (PointerLoad target_ptr source_slot) st =
     obind (load_pointer oc alias target_ptr source_slot st) (\<lambda>st. Returns (Nop, st))"
| "rewrite_effect oc l fn_name alias reg instr (IndirectCall callee_ptr memory_effect) st =
     Returns (case fn_ptr_vars st callee_ptr of
         Some callee \<Rightarrow> Call callee memory_effect
       | None \<Rightarrow> IndirectCall callee_ptr memory_effect, st)"
| "rewrite_effect oc l fn_name alias reg instr (PointerAlias target source) st =
     Returns (Nop, case r_env st source of
         None \<Rightarrow> st | Some b \<Rightarrow> bind_pointer target (region b) (offset b) st)"
| "rewrite_effect oc l fn_name alias reg instr (StructFieldGep target base field_index) st =
     Returns (Nop, case r_env st base of
         None \<Rightarrow> st
       | Some parent \<Rightarrow> bind_pointer target (region parent @ ''$f'' @ nat_str field_index) (TInt 0) st)"
| "rewrite_effect oc l fn_name alias reg instr (PtrToInt target source_ptr) st =
     obind (case r_env st source_ptr of
         None \<Rightarrow> Returns None
       | Some b \<Rightarrow> (case offset b of
           TInt off \<Rightarrow> flat_addr oc (r_flat st) (region b) off | _ \<Rightarrow> Returns None)) (\<lambda>resolved.
       Returns (case resolved of
           None \<Rightarrow> (Nop, st)
         | Some addr \<Rightarrow> (Assign target (AssignTerm (TInt addr)),
             st\<lparr>flat_int_vars := (flat_int_vars st)(var_name target \<mapsto> addr)\<rparr>)))"
| "rewrite_effect oc l fn_name alias reg instr (IntToPtr target_ptr source_name) st =
     (case flat_int_vars st source_name of
        None \<Rightarrow> Returns (Nop, st)
      | Some addr \<Rightarrow> obind (region_at oc (r_flat st) addr) (\<lambda>found.
          Returns (Nop, case found of
              None \<Rightarrow> st | Some (r, off) \<Rightarrow> bind_pointer target_ptr r (TInt off) st)))"
| "rewrite_effect oc l fn_name alias reg instr (Assign target (AssignTerm t)) st =
     obind (eval_flat_addr oc (flat_int_vars st) t) (\<lambda>addr.
       Returns (Assign target (AssignTerm t), case addr of
           None \<Rightarrow> st
         | Some addr \<Rightarrow> st\<lparr>flat_int_vars := (flat_int_vars st)(var_name target \<mapsto> addr)\<rparr>))"
| "rewrite_effect oc l fn_name alias reg instr (Call callee memory_effect) st =
     obind (apply_callee_writes oc l fn_name reg instr callee st) (\<lambda>st.
       Returns (Call callee memory_effect, st))"
| "rewrite_effect oc l fn_name alias reg instr effect st = Returns (effect, st)"

fun rewrite_effects ::
  "(transfer_effect \<Rightarrow> resolution \<Rightarrow> (transfer_effect \<times> resolution) outcome) \<Rightarrow> transfer_effect list \<Rightarrow> resolution
    \<Rightarrow> (transfer_effect list \<times> resolution) outcome" where
  "rewrite_effects f [] st = Returns ([], st)"
| "rewrite_effects f (e # es) st =
     obind (f e st) (\<lambda>(e, st). obind (rewrite_effects f es st) (\<lambda>(es, st). Returns (e # es, st)))"

section \<open>The pass\<close>

definition rewrite_node ::
  "bool \<Rightarrow> llvm \<Rightarrow> string \<Rightarrow> alias_result \<Rightarrow> call_summary_registry \<Rightarrow> (cfg_node_id \<rightharpoonup> instruction)
    \<Rightarrow> cfg_node_id \<Rightarrow> abstract_cfg \<times> resolution \<Rightarrow> (abstract_cfg \<times> resolution) outcome" where
  "rewrite_node oc l fn_name alias reg node_to_instruction i = (\<lambda>(cfg, st).
     case cfg_node cfg i of
       Inl _ \<Rightarrow> Returns (cfg, st)
     | Inr n \<Rightarrow>
         obind (rewrite_effects (rewrite_effect oc l fn_name alias reg (node_to_instruction i))
             (effects (node_transfer n)) st) (\<lambda>(rewritten, st).
           Returns (case node_mut i (\<lambda>n. n\<lparr>node_transfer := transfer_fn_new rewritten\<rparr>) cfg of
               Inl _ \<Rightarrow> cfg | Inr cfg \<Rightarrow> cfg, st)))"

definition initial_resolution ::
  "bool \<Rightarrow> llvm \<Rightarrow> function_graph \<Rightarrow> string \<Rightarrow> flat_layout \<Rightarrow> call_summary_registry \<Rightarrow> resolution outcome" where
  "initial_resolution oc l g fn_name flat reg =
     ofor (bind_operand oc l fn_name) (graph_operands l g)
       \<lparr>r_env = bind_parameters g fn_name Map.empty, r_flat = flat, flat_int_vars = Map.empty,
        fn_ptr_vars = Map.empty, vtable_fn_ptrs = vtable_map reg, r_ptr_at = []\<rparr>"

definition resolve_memory_effects ::
  "bool \<Rightarrow> llvm \<Rightarrow> function_graph \<Rightarrow> string \<Rightarrow> alias_result \<Rightarrow> flat_layout \<Rightarrow> call_summary_registry
    \<Rightarrow> (cfg_node_id \<rightharpoonup> instruction) \<Rightarrow> abstract_cfg \<Rightarrow> (abstract_cfg \<times> resolution) outcome" where
  "resolve_memory_effects oc l g fn_name alias flat reg node_to_instruction cfg =
     (case detect_back_edges cfg of
        None \<Rightarrow> Panics
      | Some back_edges \<Rightarrow>
          obind (topological_order_excluding (set back_edges) cfg) (\<lambda>order.
          obind (initial_resolution oc l g fn_name flat reg) (\<lambda>st.
            ofor (rewrite_node oc l fn_name alias reg node_to_instruction)
              (case order of Some order \<Rightarrow> order | None \<Rightarrow> node_ids cfg) (cfg, st))))"

end
