(* ===== verification/Call_Summaries.thy ===== *)
theory Call_Summaries
  imports Resolution
begin

text \<open>
  Summaries of callees at call sites (\<open>src/cfg/adapter.rs\<close>): the relation of a callee is renamed into
  the caller's names and regions and becomes an obligation of the calling node; memory intrinsics
  become stores.  A summary is computed from an adapted procedure by one backward pass.
\<close>

section \<open>Renaming and substitution\<close>

definition callee_rename :: "(string, string) btree \<Rightarrow> string \<Rightarrow> string \<Rightarrow> string \<Rightarrow> string" where
  "callee_rename mapping callee local_prefix name =
     (case bt_get mapping name of
        Some mapped \<Rightarrow> mapped
      | None \<Rightarrow> (case strip_prefix (callee @ ''$'') name of
          Some suffix \<Rightarrow> local_prefix @ ''$'' @ suffix | None \<Rightarrow> name))"

definition rename_callee_vars :: "formula \<Rightarrow> (string, string) btree \<Rightarrow> string \<Rightarrow> string \<Rightarrow> formula" where
  "rename_callee_vars f mapping callee local_prefix =
     rename_formula_uniform (callee_rename mapping callee local_prefix) f"

primrec substitute_var_name_with_term_memory :: "string \<Rightarrow> fterm \<Rightarrow> memory \<Rightarrow> memory"
  and substitute_var_name_with_term_term :: "string \<Rightarrow> fterm \<Rightarrow> fterm \<Rightarrow> fterm"
  and substitute_var_name_with_term :: "string \<Rightarrow> fterm \<Rightarrow> formula \<Rightarrow> formula" where
  "substitute_var_name_with_term_memory name t (MVar r) = MVar r"
| "substitute_var_name_with_term_memory name t (MStore inner index val) =
     MStore (substitute_var_name_with_term_memory name t inner)
       (substitute_var_name_with_term_term name t index) (substitute_var_name_with_term_term name t val)"
| "substitute_var_name_with_term_term name t (TVar v) = (if var_name v = name then t else TVar v)"
| "substitute_var_name_with_term_term name t (TInt n) = TInt n"
| "substitute_var_name_with_term_term name t (TReal q) = TReal q"
| "substitute_var_name_with_term_term name t (TBoolToInt f) =
     TBoolToInt (substitute_var_name_with_term name t f)"
| "substitute_var_name_with_term_term name t (TSelect m index) =
     TSelect (substitute_var_name_with_term_memory name t m) (substitute_var_name_with_term_term name t index)"
| "substitute_var_name_with_term_term name t (TAdd a b) =
     TAdd (substitute_var_name_with_term_term name t a) (substitute_var_name_with_term_term name t b)"
| "substitute_var_name_with_term_term name t (TSub a b) =
     TSub (substitute_var_name_with_term_term name t a) (substitute_var_name_with_term_term name t b)"
| "substitute_var_name_with_term_term name t (TMul a b) =
     TMul (substitute_var_name_with_term_term name t a) (substitute_var_name_with_term_term name t b)"
| "substitute_var_name_with_term_term name t (TDiv a b) =
     TDiv (substitute_var_name_with_term_term name t a) (substitute_var_name_with_term_term name t b)"
| "substitute_var_name_with_term_term name t (TRem a b) =
     TRem (substitute_var_name_with_term_term name t a) (substitute_var_name_with_term_term name t b)"
| "substitute_var_name_with_term_term name t (TNeg a) = TNeg (substitute_var_name_with_term_term name t a)"
| "substitute_var_name_with_term name t FTrue = FTrue"
| "substitute_var_name_with_term name t FFalse = FFalse"
| "substitute_var_name_with_term name t (FVar v) = FVar v"
| "substitute_var_name_with_term name t (FNot f) = f_not (substitute_var_name_with_term name t f)"
| "substitute_var_name_with_term name t (FAnd fs) = f_and_many (map (substitute_var_name_with_term name t) fs)"
| "substitute_var_name_with_term name t (FOr fs) = f_or_many (map (substitute_var_name_with_term name t) fs)"
| "substitute_var_name_with_term name t (FImplies f g) =
     f_implies (substitute_var_name_with_term name t f) (substitute_var_name_with_term name t g)"
| "substitute_var_name_with_term name t (FEq a b) =
     FEq (substitute_var_name_with_term_term name t a) (substitute_var_name_with_term_term name t b)"
| "substitute_var_name_with_term name t (FMemoryEq m n) =
     FMemoryEq (substitute_var_name_with_term_memory name t m) (substitute_var_name_with_term_memory name t n)"
| "substitute_var_name_with_term name t (FLt a b) =
     FLt (substitute_var_name_with_term_term name t a) (substitute_var_name_with_term_term name t b)"
| "substitute_var_name_with_term name t (FLe a b) =
     FLe (substitute_var_name_with_term_term name t a) (substitute_var_name_with_term_term name t b)"
| "substitute_var_name_with_term name t (FGt a b) =
     FGt (substitute_var_name_with_term_term name t a) (substitute_var_name_with_term_term name t b)"
| "substitute_var_name_with_term name t (FGe a b) =
     FGe (substitute_var_name_with_term_term name t a) (substitute_var_name_with_term_term name t b)"

type_synonym region_bindings = "(string, string \<times> fterm) btree"

text \<open>The loop over the map that looks for a field region of a mapped region.\<close>

fun field_region :: "region_bindings \<Rightarrow> string \<Rightarrow> string option" where
  "field_region [] name = None"
| "field_region ((ext_key, (actual_region, base)) # rest) name =
     (case strip_prefix ext_key name of
        Some suffix \<Rightarrow> if starts_with ''$'' suffix then Some (actual_region @ suffix) else field_region rest name
      | None \<Rightarrow> field_region rest name)"

definition actual_memory :: "region_bindings \<Rightarrow> string \<Rightarrow> memory" where
  "actual_memory m name = (case bt_get m name of
     Some (actual_region, _) \<Rightarrow> MVar actual_region
   | None \<Rightarrow> (case field_region m name of Some r \<Rightarrow> MVar r | None \<Rightarrow> MVar name))"

definition select_actual :: "region_bindings \<Rightarrow> string \<Rightarrow> fterm \<Rightarrow> fterm" where
  "select_actual m name index = (case bt_get m name of
     Some (actual_region, base) \<Rightarrow> TSelect (MVar actual_region) (TAdd base index)
   | None \<Rightarrow> (case field_region m name of
       Some r \<Rightarrow> TSelect (MVar r) index | None \<Rightarrow> TSelect (actual_memory m name) index))"

primrec substitute_ext_regions_memory :: "region_bindings \<Rightarrow> memory \<Rightarrow> memory"
  and substitute_ext_regions_term :: "region_bindings \<Rightarrow> fterm \<Rightarrow> fterm"
  and substitute_ext_regions :: "region_bindings \<Rightarrow> formula \<Rightarrow> formula" where
  "substitute_ext_regions_memory m (MVar name) = actual_memory m name"
| "substitute_ext_regions_memory m (MStore inner index val) =
     MStore (substitute_ext_regions_memory m inner) (substitute_ext_regions_term m index)
       (substitute_ext_regions_term m val)"
| "substitute_ext_regions_term m (TVar v) = TVar v"
| "substitute_ext_regions_term m (TInt n) = TInt n"
| "substitute_ext_regions_term m (TReal q) = TReal q"
| "substitute_ext_regions_term m (TBoolToInt f) = TBoolToInt (substitute_ext_regions m f)"
| "substitute_ext_regions_term m (TSelect mem index) = (case mem of
       MVar name \<Rightarrow> select_actual m name (substitute_ext_regions_term m index)
     | MStore _ _ _ \<Rightarrow> TSelect (substitute_ext_regions_memory m mem) (substitute_ext_regions_term m index))"
| "substitute_ext_regions_term m (TAdd a b) =
     TAdd (substitute_ext_regions_term m a) (substitute_ext_regions_term m b)"
| "substitute_ext_regions_term m (TSub a b) =
     TSub (substitute_ext_regions_term m a) (substitute_ext_regions_term m b)"
| "substitute_ext_regions_term m (TMul a b) =
     TMul (substitute_ext_regions_term m a) (substitute_ext_regions_term m b)"
| "substitute_ext_regions_term m (TDiv a b) =
     TDiv (substitute_ext_regions_term m a) (substitute_ext_regions_term m b)"
| "substitute_ext_regions_term m (TRem a b) =
     TRem (substitute_ext_regions_term m a) (substitute_ext_regions_term m b)"
| "substitute_ext_regions_term m (TNeg a) = TNeg (substitute_ext_regions_term m a)"
| "substitute_ext_regions m FTrue = FTrue"
| "substitute_ext_regions m FFalse = FFalse"
| "substitute_ext_regions m (FVar v) = FVar v"
| "substitute_ext_regions m (FNot f) = f_not (substitute_ext_regions m f)"
| "substitute_ext_regions m (FAnd fs) = f_and_many (map (substitute_ext_regions m) fs)"
| "substitute_ext_regions m (FOr fs) = f_or_many (map (substitute_ext_regions m) fs)"
| "substitute_ext_regions m (FImplies f g) = f_implies (substitute_ext_regions m f) (substitute_ext_regions m g)"
| "substitute_ext_regions m (FEq a b) = FEq (substitute_ext_regions_term m a) (substitute_ext_regions_term m b)"
| "substitute_ext_regions m (FMemoryEq p q) =
     FMemoryEq (substitute_ext_regions_memory m p) (substitute_ext_regions_memory m q)"
| "substitute_ext_regions m (FLt a b) = FLt (substitute_ext_regions_term m a) (substitute_ext_regions_term m b)"
| "substitute_ext_regions m (FLe a b) = FLe (substitute_ext_regions_term m a) (substitute_ext_regions_term m b)"
| "substitute_ext_regions m (FGt a b) = FGt (substitute_ext_regions_term m a) (substitute_ext_regions_term m b)"
| "substitute_ext_regions m (FGe a b) = FGe (substitute_ext_regions_term m a) (substitute_ext_regions_term m b)"

primrec memory_contains_var :: "string \<Rightarrow> memory \<Rightarrow> bool"
  and term_contains_var :: "string \<Rightarrow> fterm \<Rightarrow> bool"
  and formula_contains_var :: "string \<Rightarrow> formula \<Rightarrow> bool" where
  "memory_contains_var name (MVar r) \<longleftrightarrow> r = name"
| "memory_contains_var name (MStore inner index val) \<longleftrightarrow>
     memory_contains_var name inner \<or> term_contains_var name index \<or> term_contains_var name val"
| "term_contains_var name (TVar v) \<longleftrightarrow> var_name v = name"
| "term_contains_var name (TInt n) \<longleftrightarrow> False"
| "term_contains_var name (TReal q) \<longleftrightarrow> False"
| "term_contains_var name (TBoolToInt f) \<longleftrightarrow> formula_contains_var name f"
| "term_contains_var name (TSelect m index) \<longleftrightarrow> memory_contains_var name m \<or> term_contains_var name index"
| "term_contains_var name (TAdd a b) \<longleftrightarrow> term_contains_var name a \<or> term_contains_var name b"
| "term_contains_var name (TSub a b) \<longleftrightarrow> term_contains_var name a \<or> term_contains_var name b"
| "term_contains_var name (TMul a b) \<longleftrightarrow> term_contains_var name a \<or> term_contains_var name b"
| "term_contains_var name (TDiv a b) \<longleftrightarrow> term_contains_var name a \<or> term_contains_var name b"
| "term_contains_var name (TRem a b) \<longleftrightarrow> term_contains_var name a \<or> term_contains_var name b"
| "term_contains_var name (TNeg a) \<longleftrightarrow> term_contains_var name a"
| "formula_contains_var name FTrue \<longleftrightarrow> False"
| "formula_contains_var name FFalse \<longleftrightarrow> False"
| "formula_contains_var name (FVar v) \<longleftrightarrow> var_name v = name"
| "formula_contains_var name (FNot f) \<longleftrightarrow> formula_contains_var name f"
| "formula_contains_var name (FAnd fs) \<longleftrightarrow> list_ex id (map (formula_contains_var name) fs)"
| "formula_contains_var name (FOr fs) \<longleftrightarrow> list_ex id (map (formula_contains_var name) fs)"
| "formula_contains_var name (FImplies f g) \<longleftrightarrow> formula_contains_var name f \<or> formula_contains_var name g"
| "formula_contains_var name (FEq a b) \<longleftrightarrow> term_contains_var name a \<or> term_contains_var name b"
| "formula_contains_var name (FMemoryEq m n) \<longleftrightarrow> memory_contains_var name m \<or> memory_contains_var name n"
| "formula_contains_var name (FLt a b) \<longleftrightarrow> term_contains_var name a \<or> term_contains_var name b"
| "formula_contains_var name (FLe a b) \<longleftrightarrow> term_contains_var name a \<or> term_contains_var name b"
| "formula_contains_var name (FGt a b) \<longleftrightarrow> term_contains_var name a \<or> term_contains_var name b"
| "formula_contains_var name (FGe a b) \<longleftrightarrow> term_contains_var name a \<or> term_contains_var name b"

section \<open>Summaries at call sites\<close>

type_synonym pending_call = "cfg_node_id \<times> string \<times> instruction"

definition direct_calls ::
  "llvm \<Rightarrow> function_graph \<Rightarrow> (instruction \<rightharpoonup> cfg_node_id) \<Rightarrow> call_summary_registry \<Rightarrow> pending_call list" where
  "direct_calls l g nodes reg =
     List.map_filter (\<lambda>i. if raw_opcode l i \<noteq> OpCall then None
       else case get_called_function l i of
         None \<Rightarrow> None
       | Some callee \<Rightarrow>
           if registry_get reg callee = None then None
           else map_option (\<lambda>node. (node, callee, i)) (nodes i)) (vertices g)"

fun called_by :: "transfer_effect \<Rightarrow> string option" where
  "called_by (Call callee _) = Some callee"
| "called_by _ = None"

definition resolved_call ::
  "llvm \<Rightarrow> abstract_cfg \<Rightarrow> (cfg_node_id \<rightharpoonup> instruction) \<Rightarrow> call_summary_registry \<Rightarrow> cfg_node_id
    \<Rightarrow> pending_call option" where
  "resolved_call l cfg node_to_instruction reg node =
     (case node_to_instruction node of
        None \<Rightarrow> None
      | Some i \<Rightarrow>
          if raw_opcode l i \<noteq> OpCall \<or> get_called_function l i \<noteq> None then None
          else (case cfg_node cfg node of
              Inl _ \<Rightarrow> None
            | Inr n \<Rightarrow> (case List.map_filter called_by (effects (node_transfer n)) of
                [] \<Rightarrow> None
              | callee # _ \<Rightarrow>
                  if registry_get reg callee = None then None else Some (node, callee, i))))"

definition pending_calls ::
  "llvm \<Rightarrow> function_graph \<Rightarrow> abstract_cfg \<Rightarrow> (instruction \<rightharpoonup> cfg_node_id) \<Rightarrow> (cfg_node_id \<rightharpoonup> instruction)
    \<Rightarrow> call_summary_registry \<Rightarrow> pending_call list" where
  "pending_calls l g cfg nodes node_to_instruction reg =
     fold (\<lambda>node pending. case resolved_call l cfg node_to_instruction reg node of
         None \<Rightarrow> pending
       | Some call \<Rightarrow> if list_ex (\<lambda>(nid, _, _). nid = node) pending then pending else pending @ [call])
       (node_ids cfg) (direct_calls l g nodes reg)"

definition call_mapping ::
  "llvm \<Rightarrow> string \<Rightarrow> return_summary \<Rightarrow> instruction \<Rightarrow> (string, string) btree" where
  "call_mapping l fn_name smry i =
     bt_insert (rs_retval_name smry) (local_name l fn_name i)
       (fold (\<lambda>(formal, actual) mapping.
           if raw_constant_int l actual = None then bt_insert formal (local_name l fn_name actual) mapping
           else mapping) (zip (rs_formal_parameters smry) (get_call_args l i)) [])"

definition call_regions ::
  "llvm \<Rightarrow> string \<Rightarrow> string \<Rightarrow> string \<Rightarrow> pointer_env \<Rightarrow> instruction \<Rightarrow> region_bindings" where
  "call_regions l fn_name callee local_prefix final_env i =
     (let actual_args = get_call_args l i in
      fold (\<lambda>param_idx m. let actual = actual_args ! param_idx in
          if \<not> is_ptr l actual then m
          else case final_env (local_name l fn_name actual) of
            None \<Rightarrow> m
          | Some b \<Rightarrow>
              let ext_key = ext_region callee param_idx;
                  renamed_key = (case strip_prefix (callee @ ''$'') ext_key of
                    Some suffix \<Rightarrow> local_prefix @ ''$'' @ suffix | None \<Rightarrow> ext_key) in
              bt_insert renamed_key (region b, offset b) m)
        [0..<length actual_args] [])"

definition instantiate_summary ::
  "llvm \<Rightarrow> string \<Rightarrow> pointer_env \<Rightarrow> return_summary \<Rightarrow> string \<Rightarrow> string \<Rightarrow> instruction \<Rightarrow> formula" where
  "instantiate_summary l fn_name final_env smry callee local_prefix i =
     (let renamed = rename_callee_vars (rs_relation smry) (call_mapping l fn_name smry i) callee local_prefix;
          rewritten = substitute_ext_regions (call_regions l fn_name callee local_prefix final_env i) renamed in
      fold (\<lambda>(formal, actual) f. case raw_constant_int l actual of
          None \<Rightarrow> f | Some n \<Rightarrow> substitute_var_name_with_term formal (TInt n) f)
        (zip (rs_formal_parameters smry) (get_call_args l i)) rewritten)"

definition apply_summary ::
  "llvm \<Rightarrow> string \<Rightarrow> pointer_env \<Rightarrow> pending_call \<Rightarrow> abstract_cfg \<times> call_summary_registry
    \<Rightarrow> abstract_cfg \<times> call_summary_registry" where
  "apply_summary l fn_name final_env = (\<lambda>(node, callee, i) (cfg, reg).
     case registry_get reg callee of
       None \<Rightarrow> (cfg, reg)
     | Some smry \<Rightarrow>
         (let (call_site_id, reg) = next_call_site_id reg;
              local_prefix = fn_name @ ''$call'' @ nat_str call_site_id;
              obligation = instantiate_summary l fn_name final_env smry callee local_prefix i in
          (case node_mut node (push_effects [Obligation obligation]) cfg of
             Inl _ \<Rightarrow> cfg | Inr cfg \<Rightarrow> cfg, reg)))"

definition apply_pending_return_summaries ::
  "llvm \<Rightarrow> function_graph \<Rightarrow> (instruction \<rightharpoonup> cfg_node_id) \<Rightarrow> (cfg_node_id \<rightharpoonup> instruction) \<Rightarrow> string
    \<Rightarrow> pointer_env \<Rightarrow> abstract_cfg \<times> call_summary_registry \<Rightarrow> abstract_cfg \<times> call_summary_registry" where
  "apply_pending_return_summaries l g nodes node_to_instruction fn_name final_env = (\<lambda>(cfg, reg).
     fold (apply_summary l fn_name final_env)
       (pending_calls l g cfg nodes node_to_instruction reg) (cfg, reg))"

section \<open>Memory intrinsics\<close>

definition upto_i64 :: "i64 \<Rightarrow> i64 list" where
  "upto_i64 len = map of_nat [0..<nat (sint len)]"

definition copied_stores ::
  "llvm \<Rightarrow> string \<Rightarrow> pointer_env \<Rightarrow> pointer_binding \<Rightarrow> instruction list \<Rightarrow> transfer_effect list" where
  "copied_stores l fn_name final_env dst args =
     (if length args < 2 then []
      else case constant_int_elements l (args ! 1) of
        Some values \<Rightarrow>
          map (\<lambda>(index, val). MemoryStore (region dst) (TAdd (offset dst) (TInt (of_nat index))) (TInt val))
            (zip [0..<length values] values)
      | None \<Rightarrow>
          (case (if 2 < length args then raw_constant_int l (args ! 2) else None) of
             None \<Rightarrow> []
           | Some len \<Rightarrow> (case final_env (local_name l fn_name (args ! 1)) of
               None \<Rightarrow> []
             | Some src \<Rightarrow>
                 map (\<lambda>index. MemoryStore (region dst) (TAdd (offset dst) (TInt index))
                     (TSelect (MVar (region src)) (TAdd (offset src) (TInt index)))) (upto_i64 len))))"

definition filled_stores :: "llvm \<Rightarrow> pointer_binding \<Rightarrow> instruction list \<Rightarrow> transfer_effect list" where
  "filled_stores l dst args =
     (case (if 1 < length args then raw_constant_int l (args ! 1) else None,
            if 2 < length args then raw_constant_int l (args ! 2) else None) of
        (Some fill, Some len) \<Rightarrow>
          map (\<lambda>index. MemoryStore (region dst) (TAdd (offset dst) (TInt index)) (TInt fill)) (upto_i64 len)
      | _ \<Rightarrow> [])"

definition intrinsic_stores ::
  "llvm \<Rightarrow> string \<Rightarrow> pointer_env \<Rightarrow> string \<Rightarrow> instruction \<Rightarrow> transfer_effect list" where
  "intrinsic_stores l fn_name final_env callee i =
     (let is_memcpy = (starts_with ''llvm.memcpy'' callee \<or> starts_with ''llvm.memmove'' callee);
          is_memset = starts_with ''llvm.memset'' callee in
      if \<not> is_memcpy \<and> \<not> is_memset then []
      else case get_call_args l i of
        [] \<Rightarrow> []
      | dst_arg # args \<Rightarrow> (case final_env (local_name l fn_name dst_arg) of
          None \<Rightarrow> []
        | Some dst \<Rightarrow>
            if is_memcpy then copied_stores l fn_name final_env dst (dst_arg # args)
            else filled_stores l dst (dst_arg # args)))"

definition apply_pending_memcpy_effects ::
  "llvm \<Rightarrow> function_graph \<Rightarrow> (instruction \<rightharpoonup> cfg_node_id) \<Rightarrow> string \<Rightarrow> pointer_env \<Rightarrow> abstract_cfg
    \<Rightarrow> abstract_cfg adapted" where
  "apply_pending_memcpy_effects l g nodes fn_name final_env =
     afold (\<lambda>i cfg. case get_called_function l i of
         None \<Rightarrow> aret cfg
       | Some callee \<Rightarrow> (case nodes i of
           None \<Rightarrow> aret cfg
         | Some node \<Rightarrow>
             let emitted = intrinsic_stores l fn_name final_env callee i in
             if emitted = [] then aret cfg else of_cfg (node_mut node (push_effects emitted) cfg)))
       (vertices g)"

end
