(* ===== verification/Adaptation.thy ===== *)
theory Adaptation
  imports Call_Summaries Topology
begin

text \<open>
  The lowering of a whole function (\<open>adapt_with_purity_and_summaries\<close> of \<open>src/cfg/adapter.rs\<close>), the
  summaries computed from its result, and the two module-wide scans: memory purity and callee names.
  \<open>hash_orders\<close> are the iteration orders of the hash maps whose order is observable.
\<close>

record hash_orders =
  heap_order :: "string list \<Rightarrow> string list"
  ptr_order :: "((string \<times> int) \<times> string \<times> fterm) list \<Rightarrow> ((string \<times> int) \<times> string \<times> fterm) list"

record adapted_procedure =
  adapted_name :: string
  adapted_cfg :: abstract_cfg
  adapted_assertions :: "assertion_site list"
  instruction_nodes :: "instruction \<rightharpoonup> cfg_node_id"
  adapted_ptr_at :: ptr_map
  adapted_debug_names :: "string \<rightharpoonup> string"
  formal_parameters :: "string list"

section \<open>Regions of allocations\<close>

definition number_regions :: "(instruction \<Rightarrow> (nat \<Rightarrow> string) option) \<Rightarrow> instruction list \<Rightarrow> (instruction \<times> string) list" where
  "number_regions region_for is =
     fst (fold (\<lambda>i (out, index). case region_for i of
         None \<Rightarrow> (out, index) | Some name_at \<Rightarrow> (out @ [(i, name_at index)], index + 1)) is ([], 0))"

definition allocation_list :: "llvm \<Rightarrow> function_graph \<Rightarrow> (instruction \<times> string) list" where
  "allocation_list l g = number_regions
     (\<lambda>i. if raw_opcode l i = OpAlloca then Some (alloca_region (graph_name g)) else None) (vertices g)"

definition heap_alloc_list :: "llvm \<Rightarrow> function_graph \<Rightarrow> (instruction \<times> string) list" where
  "heap_alloc_list l g = number_regions
     (\<lambda>i. if raw_opcode l i = OpCall \<and> is_ptr l i then
         (case get_called_function l i of
            None \<Rightarrow> None
          | Some callee \<Rightarrow> if callee \<in> set HEAP_ALLOCATORS
              then Some (\<lambda>index. graph_name g @ ''$heap$'' @ callee @ ''@'' @ nat_str index) else None)
       else None) (vertices g)"

definition layout_regions :: "hash_orders \<Rightarrow> llvm \<Rightarrow> function_graph \<Rightarrow> string list" where
  "layout_regions hs l g =
     map snd (allocation_list l g) @ heap_order hs (map snd (heap_alloc_list l g))
     @ map (ext_region (graph_name g)) (pointer_param_indices g)
     @ map (global_region l) (filter (\<lambda>op. raw_is_global l op \<and> is_ptr l op) (graph_operands l g))"

definition initial_layout :: "bool \<Rightarrow> hash_orders \<Rightarrow> llvm \<Rightarrow> function_graph \<Rightarrow> flat_layout outcome" where
  "initial_layout oc hs l g = ofor (add_region oc) (layout_regions hs l g) layout_new"

section \<open>Nodes and edges\<close>

type_synonym node_index = "instruction \<rightharpoonup> cfg_node_id"

definition lower_nodes ::
  "(instruction \<Rightarrow> transfer_fn adapted) \<Rightarrow> llvm \<Rightarrow> function_graph \<Rightarrow> instruction
    \<Rightarrow> (abstract_cfg \<times> node_index) adapted" where
  "lower_nodes transfer l g start =
     abind (transfer start) (\<lambda>tr.
       let cfg = set_entry_transfer tr (cfg_new (print_value l start)) in
       afold (\<lambda>i (cfg, nodes). if i = start then aret (cfg, nodes) else
           abind (transfer i) (\<lambda>tr.
             let (node, cfg) = add_node (print_value l i) tr cfg in aret (cfg, nodes(i \<mapsto> node))))
         (vertices g) (cfg, [start \<mapsto> cfg_entry cfg]))"

definition mark_exits :: "function_graph \<Rightarrow> node_index \<Rightarrow> abstract_cfg \<Rightarrow> abstract_cfg adapted" where
  "mark_exits g nodes = afold (\<lambda>exit cfg. case nodes exit of
     None \<Rightarrow> aret cfg | Some node \<Rightarrow> of_cfg (mark_exit node cfg)) (graph_end g)"

definition graph_pairs :: "function_graph \<Rightarrow> (instruction \<times> instruction) list" where
  "graph_pairs g = concat (map (\<lambda>(source, node). map (Pair source) (sorted_list_of_set (gn_successors node)))
     (graph_edges g))"

definition lower_edges ::
  "llvm \<Rightarrow> function_graph \<Rightarrow> node_index \<Rightarrow> abstract_cfg \<Rightarrow> (abstract_cfg \<times> edge_index) adapted" where
  "lower_edges l g nodes cfg =
     afold (\<lambda>(source, target) (cfg, edges).
         abind (of_option MissingStart (nodes source)) (\<lambda>source_node.
         abind (of_option MissingStart (nodes target)) (\<lambda>target_node.
         abind (lower_edge_guard l (graph_name g) source target) (\<lambda>guard.
         abind (of_cfg (add_edge source_node target_node guard [] cfg)) (\<lambda>(i, cfg).
           aret (cfg, edges((source, target) \<mapsto> i))))))) (graph_pairs g) (cfg, Map.empty)"

definition index_node :: "instruction list \<Rightarrow> node_index \<Rightarrow> (cfg_node_id \<rightharpoonup> instruction)" where
  "index_node is nodes = (\<lambda>node. find (\<lambda>i. nodes i = Some node) is)"

text \<open>The graph before its memory is resolved, with the assertion sites.\<close>

definition lower_graph ::
  "bool \<Rightarrow> llvm \<Rightarrow> function_graph \<Rightarrow> string set \<Rightarrow> instruction
    \<Rightarrow> (abstract_cfg \<times> node_index \<times> assertion_site list) adapted" where
  "lower_graph oc l g memory_pure start =
     (let transfer = lower_node_transfer oc l memory_pure (map_of (allocation_list l g))
            (map_of (heap_alloc_list l g)) (data_layout_str g) (graph_name g) in
      abind (lower_nodes transfer l g start) (\<lambda>(cfg, nodes).
      abind (mark_exits g nodes cfg) (\<lambda>cfg.
      abind (lower_edges l g nodes cfg) (\<lambda>(cfg, edges).
      abind (lower_phi_edge_effects oc l (graph_name g) g edges cfg) (\<lambda>cfg.
      abind (lower_assertions l (graph_name g) g nodes) (\<lambda>assertions.
      abind (lower_assumes l (graph_name g) g nodes cfg) (\<lambda>cfg.
      abind (of_cfg (ensure_single_exit cfg)) (\<lambda>(_, cfg).
        aret (cfg, nodes, assertions)))))))))"

section \<open>Debug names\<close>

fun scan_term_for_arrays :: "fterm \<Rightarrow> string set" where
  "scan_term_for_arrays (TSelect m index) =
     (case m of MVar r \<Rightarrow> if index = TInt 0 then {} else {r} | MStore _ _ _ \<Rightarrow> {}) \<union> scan_term_for_arrays index"
| "scan_term_for_arrays (TAdd a b) = scan_term_for_arrays a \<union> scan_term_for_arrays b"
| "scan_term_for_arrays (TSub a b) = scan_term_for_arrays a \<union> scan_term_for_arrays b"
| "scan_term_for_arrays (TMul a b) = scan_term_for_arrays a \<union> scan_term_for_arrays b"
| "scan_term_for_arrays (TDiv a b) = scan_term_for_arrays a \<union> scan_term_for_arrays b"
| "scan_term_for_arrays (TRem a b) = scan_term_for_arrays a \<union> scan_term_for_arrays b"
| "scan_term_for_arrays (TNeg a) = scan_term_for_arrays a"
| "scan_term_for_arrays _ = {}"

fun scan_effect_for_arrays :: "transfer_effect \<Rightarrow> string set" where
  "scan_effect_for_arrays (MemoryStore r off _) = (if off = TInt 0 then {} else {r})"
| "scan_effect_for_arrays (Assign _ (AssignTerm t)) = scan_term_for_arrays t"
| "scan_effect_for_arrays _ = {}"

definition scan_effects_for_arrays :: "transfer_effect list \<Rightarrow> string set" where
  "scan_effects_for_arrays es = \<Union> (set (map scan_effect_for_arrays es))"

definition collect_array_regions :: "abstract_cfg \<Rightarrow> string set" where
  "collect_array_regions cfg =
     \<Union> (set (map (\<lambda>n. scan_effects_for_arrays (effects (node_transfer n))) (bt_values (cfg_nodes cfg))))
     \<union> \<Union> (set (map (\<lambda>e. scan_effects_for_arrays (edge_effects e)) (bt_values (cfg_edges cfg))))"

fun loaded_name :: "(string \<rightharpoonup> string) \<Rightarrow> transfer_effect \<Rightarrow> (string \<times> string) option" where
  "loaded_name names (Assign target (AssignTerm (TSelect (MVar r) index))) =
     (if index = TInt 0 then map_option (Pair (var_name target)) (names r) else None)"
| "loaded_name names _ = None"

fun stored_name :: "(string \<rightharpoonup> string) \<Rightarrow> transfer_effect \<Rightarrow> (string \<times> string) option" where
  "stored_name names (MemoryStore r off (TVar v)) =
     (if off = TInt 0 then map_option (Pair (var_name v)) (names r) else None)"
| "stored_name names _ = None"

definition node_effect_list :: "abstract_cfg \<Rightarrow> transfer_effect list" where
  "node_effect_list cfg = concat (map (\<lambda>n. effects (node_transfer n)) (bt_values (cfg_nodes cfg)))"

text \<open>Collecting pairs into a hash map and extending a map with it: the later pair wins.\<close>

definition extend_names :: "(string \<times> string) list \<Rightarrow> (string \<rightharpoonup> string) \<Rightarrow> (string \<rightharpoonup> string)" where
  "extend_names ps names = fold (\<lambda>(k, v) m. m(k \<mapsto> v)) ps names"

definition scalar_key :: "string \<Rightarrow> string option" where
  "scalar_key key = (if starts_with (rev ''|scalar'') (rev key) then Some (take (length key - 7) key) else None)"

definition add_scalar_entries :: "string set \<Rightarrow> (string \<rightharpoonup> string) \<Rightarrow> (string \<rightharpoonup> string)" where
  "add_scalar_entries array_regions names = (\<lambda>key. case scalar_key key of
     Some r \<Rightarrow> if CHR ''|'' \<notin> set r \<and> r \<notin> array_regions \<and> names r \<noteq> None then names r else names key
   | None \<Rightarrow> names key)"

definition debug_names_of :: "llvm \<Rightarrow> function_graph \<Rightarrow> abstract_cfg \<Rightarrow> (string \<rightharpoonup> string)" where
  "debug_names_of l g cfg =
     (let names = extend_names (List.map_filter (\<lambda>(i, r). map_option (Pair r) (debug_names g i))
            (allocation_list l g)) Map.empty;
          names = extend_names (List.map_filter (loaded_name names) (node_effect_list cfg)) names;
          names = extend_names (List.map_filter (stored_name names) (node_effect_list cfg)) names in
      add_scalar_entries (collect_array_regions cfg) names)"

section \<open>The whole function\<close>

definition adapt_with_purity_and_summaries ::
  "bool \<Rightarrow> hash_orders \<Rightarrow> llvm \<Rightarrow> function_graph \<Rightarrow> string set \<Rightarrow> call_summary_registry \<Rightarrow> alias_result
    \<Rightarrow> (adapted_procedure \<times> call_summary_registry) adapted" where
  "adapt_with_purity_and_summaries oc hs l g memory_pure reg alias =
     (case graph_start g of
        None \<Rightarrow> afail MissingStart
      | Some start \<Rightarrow>
          obind (initial_layout oc hs l g) (\<lambda>flat.
          abind (lower_graph oc l g memory_pure start) (\<lambda>(cfg, nodes, assertions).
          let node_to_instruction = index_node (start # vertices g) nodes in
          obind (resolve_memory_effects oc l g (graph_name g) alias flat reg node_to_instruction cfg)
            (\<lambda>(cfg, st).
          let (cfg, reg) = apply_pending_return_summaries l g nodes node_to_instruction (graph_name g)
                (r_env st) (cfg, reg) in
          abind (apply_pending_memcpy_effects l g nodes (graph_name g) (r_env st) cfg) (\<lambda>cfg.
            aret (\<lparr>adapted_name = graph_name g, adapted_cfg = cfg, adapted_assertions = assertions,
              instruction_nodes = nodes, adapted_ptr_at = r_ptr_at st,
              adapted_debug_names = debug_names_of l g cfg,
              formal_parameters = formal_parameter_names g (graph_name g)\<rparr>, reg))))))"

definition adapt_with_purity ::
  "bool \<Rightarrow> hash_orders \<Rightarrow> llvm \<Rightarrow> function_graph \<Rightarrow> string set
    \<Rightarrow> (adapted_procedure \<times> call_summary_registry) adapted" where
  "adapt_with_purity oc hs l g memory_pure =
     adapt_with_purity_and_summaries oc hs l g memory_pure registry_new alias_default"

definition adapt ::
  "bool \<Rightarrow> hash_orders \<Rightarrow> llvm \<Rightarrow> function_graph \<Rightarrow> (adapted_procedure \<times> call_summary_registry) adapted" where
  "adapt oc hs l g = adapt_with_purity oc hs l g {}"

section \<open>Summaries of a function\<close>

definition pull_into_source ::
  "abstract_cfg \<Rightarrow> abstract_edge \<Rightarrow> (cfg_node_id, formula) btree \<Rightarrow> (cfg_node_id, formula) btree option" where
  "pull_into_source cfg e st =
     (case cfg_node cfg (edge_source e) of
        Inl _ \<Rightarrow> None
      | Inr n \<Rightarrow>
          let state_at = (\<lambda>i. case bt_get st i of None \<Rightarrow> FFalse | Some f \<Rightarrow> f);
              pre_at_source = wp (node_transfer n) (f_and (edge_guard e) (wp (edge_transfer e) (state_at (edge_target e)))) in
          Some (bt_insert (edge_source e) (f_or (state_at (edge_source e)) pre_at_source) st))"

definition pull_incoming ::
  "abstract_cfg \<Rightarrow> cfg_node_id \<Rightarrow> (cfg_node_id, formula) btree \<Rightarrow> (cfg_node_id, formula) btree option" where
  "pull_incoming cfg node = opt_fold (\<lambda>i st. case cfg_edge cfg i of
     Inl _ \<Rightarrow> None | Inr e \<Rightarrow> pull_into_source cfg e st) (incoming_edges cfg node)"

definition summary_states ::
  "abstract_cfg \<Rightarrow> cfg_node_id list \<Rightarrow> cfg_node_id \<Rightarrow> formula \<Rightarrow> (cfg_node_id, formula) btree option" where
  "summary_states cfg order exit post_at_exit =
     (case cfg_node cfg exit of
        Inl _ \<Rightarrow> None
      | Inr n \<Rightarrow> opt_fold (pull_incoming cfg) (rev order)
          (bt_insert exit (wp (node_transfer n) post_at_exit)
            (fold (\<lambda>i m. bt_insert i FFalse m) (node_ids cfg) [])))"

definition compute_return_summary ::
  "function_graph \<Rightarrow> adapted_procedure \<Rightarrow> return_summary option outcome" where
  "compute_return_summary g p =
     (let cfg = adapted_cfg p; retval_name = synthetic_retval_name (adapted_name p);
          retval_obs_name = retval_name @ ''$obs'' in
      obind (topological_order cfg) (\<lambda>order. Returns (case order of
        None \<Rightarrow> None
      | Some order \<Rightarrow> (case cfg_exit cfg of
          None \<Rightarrow> None
        | Some exit \<Rightarrow>
            (case summary_states cfg order exit
                (FEq (TVar (var_int retval_name)) (TVar (var_int retval_obs_name))) of
               None \<Rightarrow> None
             | Some st \<Rightarrow>
                 let entry_state = (case bt_get st (cfg_entry cfg) of None \<Rightarrow> FFalse | Some f \<Rightarrow> f);
                     relation = rename_formula_uniform
                       (\<lambda>name. if name = retval_obs_name then retval_name else name) entry_state in
                 if \<not> formula_contains_var retval_name relation then None
                 else Some \<lparr>rs_function = adapted_name p,
                   rs_formal_parameters = formal_parameter_names g (adapted_name p),
                   rs_retval_name = retval_name, rs_relation = relation,
                   rs_write_effects = [], rs_ptr_writes = []\<rparr>)))))"

definition extract_ptr_writes ::
  "hash_orders \<Rightarrow> function_graph \<Rightarrow> string \<Rightarrow> ptr_map \<Rightarrow> pointer_write_effect list" where
  "extract_ptr_writes hs g fn_name ptr_at = concat (map (\<lambda>param_index.
     List.map_filter (\<lambda>((r, param_offset), target_region, target_offset).
       if r = ext_region fn_name param_index then
         Some \<lparr>pw_param_index = param_index, pw_param_offset = word_of_int param_offset,
           pw_target_region = target_region, pw_target_offset = target_offset\<rparr>
       else None) (ptr_order hs ptr_at)) (pointer_param_indices g))"

definition ptr_write_summary_if_any ::
  "hash_orders \<Rightarrow> function_graph \<Rightarrow> adapted_procedure \<Rightarrow> return_summary option" where
  "ptr_write_summary_if_any hs g p =
     (let ptr_writes = extract_ptr_writes hs g (adapted_name p) (adapted_ptr_at p) in
      if ptr_writes = [] then None
      else Some \<lparr>rs_function = adapted_name p,
        rs_formal_parameters = formal_parameter_names g (adapted_name p),
        rs_retval_name = synthetic_retval_name (adapted_name p), rs_relation = FTrue,
        rs_write_effects = [], rs_ptr_writes = ptr_writes\<rparr>)"

section \<open>Purity and callees\<close>

definition is_known_pure_external :: "string \<Rightarrow> bool" where
  "is_known_pure_external name \<longleftrightarrow> starts_with ''__may_nondet_'' name
     \<or> name \<in> {''llvm.stacksave'', ''llvm.stackrestore''}
     \<or> starts_with ''llvm.stacksave.'' name \<or> starts_with ''llvm.stackrestore.'' name"

definition called_names :: "llvm \<Rightarrow> function_graph \<Rightarrow> string list" where
  "called_names l g = List.map_filter (\<lambda>i. if raw_opcode l i \<noteq> OpCall then None else get_called_function l i)
     (vertices g)"

definition has_store :: "llvm \<Rightarrow> function_graph \<Rightarrow> bool" where
  "has_store l g \<longleftrightarrow> list_ex (\<lambda>i. raw_opcode l i = OpStore) (vertices g)"

definition calls_impure :: "llvm \<Rightarrow> string set \<Rightarrow> function_graph \<Rightarrow> bool" where
  "calls_impure l impure g \<longleftrightarrow> list_ex (\<lambda>callee. callee \<noteq> ''may_assert'' \<and> \<not> is_known_pure_external callee
     \<and> callee \<in> impure) (called_names l g)"

text \<open>One round of the fixpoint: the set grows while the graphs are visited.\<close>

definition impure_round :: "llvm \<Rightarrow> function_graph list \<Rightarrow> string set \<times> bool \<Rightarrow> string set \<times> bool" where
  "impure_round l graphs = fold (\<lambda>g (impure, changed).
     if graph_name g \<in> impure then (impure, changed)
     else if calls_impure l impure g then (insert (graph_name g) impure, True) else (impure, changed)) graphs"

lemma impure_round_grows:
  assumes "impure_round l graphs (impure, changed) = (impure', changed')"
  shows "impure \<subseteq> impure'" "impure' \<subseteq> impure \<union> graph_name ` set graphs"
    and "changed' \<Longrightarrow> changed \<or> (\<exists>g \<in> set graphs. graph_name g \<in> impure' - impure)"
    and "changed \<Longrightarrow> changed'"
proof -
  have "impure \<subseteq> impure' \<and> impure' \<subseteq> impure \<union> graph_name ` set graphs \<and>
      (changed' \<longrightarrow> changed \<or> (\<exists>g \<in> set graphs. graph_name g \<in> impure' - impure)) \<and> (changed \<longrightarrow> changed')"
    using assms
  proof (induction graphs arbitrary: impure changed)
    case Nil
    then show ?case by (simp add: impure_round_def)
  next
    case (Cons g graphs)
    have step: "impure_round l (g # graphs) (impure, changed) = impure_round l graphs
        (if graph_name g \<in> impure then (impure, changed)
         else if calls_impure l impure g then (insert (graph_name g) impure, True) else (impure, changed))"
      by (simp add: impure_round_def)
    show ?case
    proof (cases "graph_name g \<notin> impure \<and> calls_impure l impure g")
      case True
      with step Cons.prems have "impure_round l graphs (insert (graph_name g) impure, True) = (impure', changed')"
        by simp
      from Cons.IH [OF this] True show ?thesis by auto
    next
      case False
      with step Cons.prems have "impure_round l graphs (impure, changed) = (impure', changed')"
        by (simp split: if_splits)
      from Cons.IH [OF this] show ?thesis by auto
    qed
  qed
  then show "impure \<subseteq> impure'" "impure' \<subseteq> impure \<union> graph_name ` set graphs"
    "changed' \<Longrightarrow> changed \<or> (\<exists>g \<in> set graphs. graph_name g \<in> impure' - impure)" "changed \<Longrightarrow> changed'"
    by auto
qed

function impure_loop :: "llvm \<Rightarrow> function_graph list \<Rightarrow> string set \<Rightarrow> string set" where
  "impure_loop l graphs impure =
     (let (impure', changed) = impure_round l graphs (impure, False) in
      if changed then impure_loop l graphs impure' else impure')"
  by auto
termination
proof (relation "measure (\<lambda>(l, graphs, impure). card (graph_name ` set graphs - impure))", goal_cases)
  case (2 l graphs impure p impure' changed)
  then have round: "impure_round l graphs (impure, False) = (impure', True)" by simp
  from impure_round_grows [OF round] have "impure \<subseteq> impure'"
    "\<exists>g \<in> set graphs. graph_name g \<in> impure' - impure" by auto
  then have "graph_name ` set graphs - impure' \<subset> graph_name ` set graphs - impure" by auto
  then show ?case by (auto intro: psubset_card_mono)
qed simp

declare impure_loop.simps [simp del]

definition infer_memory_pure_functions :: "llvm \<Rightarrow> function_graph list \<Rightarrow> string set" where
  "infer_memory_pure_functions l graphs =
     (let impure = impure_loop l graphs (set (map graph_name (filter (has_store l) graphs))) in
      set (filter (\<lambda>name. name \<notin> impure) (map graph_name graphs))
      \<union> set (filter is_known_pure_external (concat (map (called_names l) graphs))))"

definition collect_callee_names :: "llvm \<Rightarrow> function_graph list \<Rightarrow> string set" where
  "collect_callee_names l graphs =
     set (filter (\<lambda>callee. callee \<noteq> ''may_assert'' \<and> callee \<noteq> ''may_assume'')
       (concat (map (called_names l) graphs)))"

end
