(* ===== verification/Driver.thy ===== *)
theory Driver
  imports Adaptation Scheduler Back_Edges
begin

text \<open>
  The module driver (\<open>src/analysis/interproc/driver.rs\<close>, \<open>src/analysis/interproc/providers.rs\<close>):
  summaries are inferred for every function, the assertions of every function are queued in one
  scheduler, and the outcomes are collected into reports.  The pointer analysis may not return, so
  the result of a whole analysis is an option; inside it the computation can panic or fail.  What the
  analyses need besides the program is the record \<open>services\<close> of the scheduler, which depends on the
  configuration of the loop-invariant search.
\<close>

section \<open>Reports\<close>

record procedure_report =
  report_procedure :: string
  report_assertions :: "assertion_result list"
  report_failures :: "string list"
  loop_count :: nat
  instruction_count :: nat
  is_recursive :: bool

datatype safety_verdict = Safe | Unsafe | UnknownVerdict

fun safety_verdict_str :: "safety_verdict \<Rightarrow> string" where
  "safety_verdict_str Safe = ''SAFE''"
| "safety_verdict_str Unsafe = ''UNSAFE''"
| "safety_verdict_str UnknownVerdict = ''UNKNOWN''"

text \<open>The loop over the assertions: it stops at the first bug.\<close>

fun scan_judgements :: "assertion_result list \<Rightarrow> bool \<Rightarrow> safety_verdict" where
  "scan_judgements [] all_verified = (if all_verified then Safe else UnknownVerdict)"
| "scan_judgements (a # as) all_verified = (case result_judgement a of
     Verified \<Rightarrow> scan_judgements as all_verified
   | BugFound _ \<Rightarrow> Unsafe
   | JudgementUnknown \<Rightarrow> scan_judgements as False)"

definition verdict :: "procedure_report \<Rightarrow> safety_verdict" where
  "verdict self =
     (if report_failures self \<noteq> [] then UnknownVerdict
      else if report_assertions self = [] then Safe
      else scan_judgements (report_assertions self) True)"

record module_report =
  module_reports :: "procedure_report list"
  module_summaries :: summary_table
  computed_summaries :: "return_summary list"

section \<open>Providers\<close>

type_synonym candidate_provider = "string \<Rightarrow> return_summary option"

definition no_provider :: candidate_provider where
  "no_provider callee = None"

type_synonym manual_provider = "(string, return_summary) btree"

definition add_function_summary :: "return_summary \<Rightarrow> manual_provider \<Rightarrow> manual_provider" where
  "add_function_summary smry self = bt_insert (rs_function smry) smry self"

definition manual_function_summary :: "manual_provider \<Rightarrow> candidate_provider" where
  "manual_function_summary self callee = bt_get self callee"

section \<open>Recursive functions\<close>

type_synonym call_graph = "(string, string list) btree"

definition call_graph_of :: "llvm \<Rightarrow> function_graph list \<Rightarrow> call_graph" where
  "call_graph_of l graphs =
     fold (\<lambda>g calls. bt_insert (graph_name g)
         (sorted_list_of_set (set (filter (\<lambda>callee. callee \<noteq> ''may_assert'' \<and> callee \<in> graph_name ` set graphs)
           (List.map_filter (get_called_function l) (vertices g))))) calls) graphs []"

text \<open>The loop over the callees; \<open>go\<close> is the recursive call, \<open>None\<close> that its fuel is used up.\<close>

fun any_callee ::
  "(string \<Rightarrow> string set \<Rightarrow> (bool \<times> string set) option) \<Rightarrow> string \<Rightarrow> string list \<Rightarrow> string set
    \<Rightarrow> (bool \<times> string set) option" where
  "any_callee go target [] seen = Some (False, seen)"
| "any_callee go target (callee # callees) seen =
     (if callee = target then Some (True, seen)
      else if callee \<in> seen then any_callee go target callees seen
      else case go callee (insert callee seen) of
        None \<Rightarrow> None
      | Some (True, seen) \<Rightarrow> Some (True, seen)
      | Some (False, seen) \<Rightarrow> any_callee go target callees seen)"

fun reaches :: "nat \<Rightarrow> call_graph \<Rightarrow> string \<Rightarrow> string \<Rightarrow> string set \<Rightarrow> (bool \<times> string set) option" where
  "reaches 0 calls target start seen = None"
| "reaches (Suc k) calls target start seen = (case bt_get calls start of
     None \<Rightarrow> Some (False, seen)
   | Some callees \<Rightarrow> any_callee (reaches k calls target) target callees seen)"

definition recursive_functions :: "llvm \<Rightarrow> function_graph list \<Rightarrow> string set" where
  "recursive_functions l graphs =
     (let calls = call_graph_of l graphs in
      set (filter (\<lambda>name. map_option fst (reaches (length graphs + 1) calls name name {}) = Some True)
        (map graph_name graphs)))"

section \<open>The observer pattern\<close>

fun const_int_value :: "bool \<Rightarrow> fterm \<Rightarrow> i64 option outcome" where
  "const_int_value oc (TInt n) = Returns (Some n)"
| "const_int_value oc (TAdd a b) = const_binop (const_int_value oc a) (const_int_value oc b) (i64_add oc)"
| "const_int_value oc (TSub a b) = const_binop (const_int_value oc a) (const_int_value oc b) (i64_sub oc)"
| "const_int_value oc (TNeg a) = obind (const_int_value oc a) (\<lambda>v. case v of
     None \<Rightarrow> Returns None | Some v \<Rightarrow> obind (i64_neg oc v) (\<lambda>v. Returns (Some v)))"
| "const_int_value oc _ = Returns None"

record observed =
  obs_indices :: "int set"
  saw_dynamic :: bool
  max_constant :: int

text \<open>The read of the observed region: a constant index is recorded, any other is dynamic.\<close>

definition note_index :: "bool \<Rightarrow> string \<Rightarrow> memory \<Rightarrow> fterm \<Rightarrow> observed \<Rightarrow> observed outcome" where
  "note_index oc ext m index st =
     (if m = MVar ext then
        obind (const_int_value oc index) (\<lambda>n. Returns (case n of
            Some n \<Rightarrow> st\<lparr>obs_indices := insert (sint n) (obs_indices st)\<rparr>
          | None \<Rightarrow> st\<lparr>saw_dynamic := True\<rparr>))
      else Returns st)"

fun oseq :: "('s \<Rightarrow> 's outcome) list \<Rightarrow> 's \<Rightarrow> 's outcome" where
  "oseq [] st = Returns st"
| "oseq (f # fs) st = obind (f st) (oseq fs)"

primrec collect_observer_indices_memory :: "bool \<Rightarrow> string \<Rightarrow> memory \<Rightarrow> observed \<Rightarrow> observed outcome"
  and collect_observer_indices_term :: "bool \<Rightarrow> string \<Rightarrow> fterm \<Rightarrow> observed \<Rightarrow> observed outcome"
  and collect_observer_indices_formula :: "bool \<Rightarrow> string \<Rightarrow> formula \<Rightarrow> observed \<Rightarrow> observed outcome" where
  "collect_observer_indices_memory oc ext (MVar r) = Returns"
| "collect_observer_indices_memory oc ext (MStore inner index val) =
     oseq [collect_observer_indices_memory oc ext inner, collect_observer_indices_term oc ext index,
       collect_observer_indices_term oc ext val]"
| "collect_observer_indices_term oc ext (TVar v) = Returns"
| "collect_observer_indices_term oc ext (TInt n) =
     (\<lambda>st. Returns (if 0 \<le> sint n then st\<lparr>max_constant := max (max_constant st) (sint n)\<rparr> else st))"
| "collect_observer_indices_term oc ext (TReal q) = Returns"
| "collect_observer_indices_term oc ext (TBoolToInt f) = collect_observer_indices_formula oc ext f"
| "collect_observer_indices_term oc ext (TSelect m index) =
     oseq [collect_observer_indices_memory oc ext m, note_index oc ext m index,
       collect_observer_indices_term oc ext index]"
| "collect_observer_indices_term oc ext (TAdd a b) =
     oseq [collect_observer_indices_term oc ext a, collect_observer_indices_term oc ext b]"
| "collect_observer_indices_term oc ext (TSub a b) =
     oseq [collect_observer_indices_term oc ext a, collect_observer_indices_term oc ext b]"
| "collect_observer_indices_term oc ext (TMul a b) =
     oseq [collect_observer_indices_term oc ext a, collect_observer_indices_term oc ext b]"
| "collect_observer_indices_term oc ext (TDiv a b) =
     oseq [collect_observer_indices_term oc ext a, collect_observer_indices_term oc ext b]"
| "collect_observer_indices_term oc ext (TRem a b) =
     oseq [collect_observer_indices_term oc ext a, collect_observer_indices_term oc ext b]"
| "collect_observer_indices_term oc ext (TNeg a) = collect_observer_indices_term oc ext a"
| "collect_observer_indices_formula oc ext FTrue = Returns"
| "collect_observer_indices_formula oc ext FFalse = Returns"
| "collect_observer_indices_formula oc ext (FVar v) = Returns"
| "collect_observer_indices_formula oc ext (FNot f) = collect_observer_indices_formula oc ext f"
| "collect_observer_indices_formula oc ext (FAnd fs) = oseq (map (collect_observer_indices_formula oc ext) fs)"
| "collect_observer_indices_formula oc ext (FOr fs) = oseq (map (collect_observer_indices_formula oc ext) fs)"
| "collect_observer_indices_formula oc ext (FImplies f g) =
     oseq [collect_observer_indices_formula oc ext f, collect_observer_indices_formula oc ext g]"
| "collect_observer_indices_formula oc ext (FEq a b) =
     oseq [collect_observer_indices_term oc ext a, collect_observer_indices_term oc ext b]"
| "collect_observer_indices_formula oc ext (FLt a b) =
     oseq [collect_observer_indices_term oc ext a, collect_observer_indices_term oc ext b]"
| "collect_observer_indices_formula oc ext (FLe a b) =
     oseq [collect_observer_indices_term oc ext a, collect_observer_indices_term oc ext b]"
| "collect_observer_indices_formula oc ext (FGt a b) =
     oseq [collect_observer_indices_term oc ext a, collect_observer_indices_term oc ext b]"
| "collect_observer_indices_formula oc ext (FGe a b) =
     oseq [collect_observer_indices_term oc ext a, collect_observer_indices_term oc ext b]"
| "collect_observer_indices_formula oc ext (FMemoryEq m n) =
     oseq [collect_observer_indices_memory oc ext m, collect_observer_indices_memory oc ext n]"

fun collect_observer_indices_effect :: "bool \<Rightarrow> string \<Rightarrow> transfer_effect \<Rightarrow> observed \<Rightarrow> observed outcome" where
  "collect_observer_indices_effect oc ext (Assign _ (AssignTerm t)) = collect_observer_indices_term oc ext t"
| "collect_observer_indices_effect oc ext (Assign _ (AssignPredicate f)) = collect_observer_indices_formula oc ext f"
| "collect_observer_indices_effect oc ext (Assume f) = collect_observer_indices_formula oc ext f"
| "collect_observer_indices_effect oc ext (Obligation f) = collect_observer_indices_formula oc ext f"
| "collect_observer_indices_effect oc ext (Store _ val) = collect_observer_indices_term oc ext val"
| "collect_observer_indices_effect oc ext (MemoryStore _ _ val) = collect_observer_indices_term oc ext val"
| "collect_observer_indices_effect oc ext (GetElementPtr _ _ off) = collect_observer_indices_term oc ext off"
| "collect_observer_indices_effect oc ext _ = Returns"

definition observer_candidate_indices :: "bool \<Rightarrow> abstract_cfg \<Rightarrow> string \<Rightarrow> nat \<Rightarrow> int list outcome" where
  "observer_candidate_indices oc cfg fn_name param_index =
     (let ext = ext_region fn_name param_index in
      obind (oseq (map (collect_observer_indices_effect oc ext) (node_effect_list cfg)
          @ map (\<lambda>e. collect_observer_indices_formula oc ext (edge_guard e)) (bt_values (cfg_edges cfg)))
        \<lparr>obs_indices = {}, saw_dynamic = False, max_constant = 0\<rparr>) (\<lambda>st.
        Returns (sorted_list_of_set (obs_indices st \<union>
          (if saw_dynamic st then set [0..max_constant st] else {})))))"

definition synthetic_exit_assertion :: "abstract_cfg \<Rightarrow> formula \<Rightarrow> assertion_site option" where
  "synthetic_exit_assertion cfg obligation = map_option (\<lambda>exit.
     \<lparr>site_id = 0, site_node = exit, site_source_location = source_location_new [] 0 0,
      site_location = ''summary exit'', site_obligation = obligation\<rparr>) (cfg_exit cfg)"

text \<open>One candidate: the relations found so far, or \<open>None\<close> when the analysis fails.\<close>

definition try_observer ::
  "services \<Rightarrow> adapted_procedure \<Rightarrow> nat \<Rightarrow> int \<Rightarrow> formula list option \<Rightarrow> formula list option outcome" where
  "try_observer sv p param_index index relations =
     (case relations of
        None \<Rightarrow> Returns None
      | Some relations \<Rightarrow>
          let obligation = FGe (TVar (var_int (synthetic_retval_name (adapted_name p))))
                (TSelect (MVar (ext_region (adapted_name p) param_index)) (TInt (word_of_int index))) in
          (case synthetic_exit_assertion (adapted_cfg p) obligation of
             None \<Rightarrow> Returns (Some relations)
           | Some site \<Rightarrow>
               obind (analyze_with_tables (adapted_cfg p) site (solver_of sv) table_new (adapted_debug_names p)
                   (synthesis_of sv (adapted_cfg p) (adapted_name p))) (\<lambda>r. Returns (case r of
                   Inl _ \<Rightarrow> None
                 | Inr result \<Rightarrow>
                     Some (if result_judgement result = Verified then relations @ [obligation] else relations)))))"

definition observer_relations ::
  "bool \<Rightarrow> services \<Rightarrow> function_graph \<Rightarrow> adapted_procedure \<Rightarrow> formula list option outcome" where
  "observer_relations oc sv g p =
     ofor (\<lambda>param_index relations. if relations = None then Returns None else
         obind (observer_candidate_indices oc (adapted_cfg p) (adapted_name p) param_index) (\<lambda>indices.
           ofor (try_observer sv p param_index) indices relations)) (pointer_param_indices g) (Some [])"

definition infer_cyclic_observer_summary ::
  "bool \<Rightarrow> services \<Rightarrow> function_graph \<Rightarrow> adapted_procedure \<Rightarrow> return_summary option outcome" where
  "infer_cyclic_observer_summary oc sv g p =
     obind (topological_order (adapted_cfg p)) (\<lambda>order.
       if order \<noteq> None \<or> pointer_param_indices g = [] then Returns None
       else obind (observer_relations oc sv g p) (\<lambda>relations. Returns (case relations of
           None \<Rightarrow> None
         | Some relations \<Rightarrow>
             if relations = [] then None
             else Some \<lparr>rs_function = adapted_name p,
               rs_formal_parameters = formal_parameter_names g (adapted_name p),
               rs_retval_name = synthetic_retval_name (adapted_name p),
               rs_relation = f_and_many relations, rs_write_effects = [], rs_ptr_writes = []\<rparr>)))"

definition infer_return_summary ::
  "bool \<Rightarrow> services \<Rightarrow> hash_orders \<Rightarrow> function_graph \<Rightarrow> adapted_procedure \<Rightarrow> return_summary option outcome" where
  "infer_return_summary oc sv hs g p =
     (let ptr_writes = extract_ptr_writes hs g (adapted_name p) (adapted_ptr_at p) in
      obind (compute_return_summary g p) (\<lambda>base.
      obind (case base of Some s \<Rightarrow> Returns (Some s)
             | None \<Rightarrow> infer_cyclic_observer_summary oc sv g p) (\<lambda>base.
        Returns (map_option (\<lambda>s. s\<lparr>rs_ptr_writes := ptr_writes\<rparr>)
          (case base of
             Some s \<Rightarrow> Some s
           | None \<Rightarrow> if ptr_writes = [] then None else ptr_write_summary_if_any hs g p)))))"

section \<open>Queueing the assertions of a procedure\<close>

record invariant_config =
  max_function_size :: nat
  achar_timeout :: nat

text \<open>The time budget is in seconds.\<close>

definition invariant_config_default :: invariant_config where
  "invariant_config_default = \<lparr>max_function_size = 500, achar_timeout = 10\<rparr>"

definition too_large :: "nat \<Rightarrow> function_graph \<Rightarrow> bool" where
  "too_large max_size g \<longleftrightarrow> 0 < max_size \<and> max_size < length (vertices g)"

definition too_large_message :: "nat \<Rightarrow> function_graph \<Rightarrow> string" where
  "too_large_message max_size g = ''function too large ('' @ nat_str (length (vertices g))
     @ '' instructions > limit '' @ nat_str max_size @ ''): skipped''"

definition context_of :: "adapted_procedure \<Rightarrow> procedure_context" where
  "context_of p = \<lparr>context_cfg = adapted_cfg p, context_assertions = adapted_assertions p,
     context_debug_names = adapted_debug_names p,
     context_interface = procedure_interface_new (adapted_name p) (formal_parameters p)\<rparr>"

definition assertion_query :: "adapted_procedure \<Rightarrow> assertion_site \<Rightarrow> query" where
  "assertion_query p site =
     (let neg_obligation = f_not (site_obligation site) in
      query_new (adapted_name p) FTrue (case cfg_node (adapted_cfg p) (site_node site) of
          Inr node \<Rightarrow> wp (node_transfer node) neg_obligation
        | Inl _ \<Rightarrow> neg_obligation))"

fun enqueue_sites :: "adapted_procedure \<Rightarrow> assertion_site list \<Rightarrow> scheduler \<Rightarrow> query_id list \<times> scheduler" where
  "enqueue_sites p [] sched = ([], sched)"
| "enqueue_sites p (site # sites) sched =
     (let (i, sched) = enqueue_query (assertion_query p site) (Some site) sched;
          (ids, sched) = enqueue_sites p sites sched in
      (i # ids, sched))"

definition loop_count_of :: "abstract_cfg \<Rightarrow> nat" where
  "loop_count_of cfg = (case detect_back_edges cfg of None \<Rightarrow> 0 | Some es \<Rightarrow> length es)"

section \<open>One function\<close>

definition completed_runs :: "dispatch_outcome list \<Rightarrow> smash_run_result list" where
  "completed_runs = List.map_filter (\<lambda>out. case out of Completed run \<Rightarrow> Some run | Unprovenanced \<Rightarrow> None)"

definition analyze_adapted ::
  "services \<Rightarrow> summary_table \<Rightarrow> function_graph \<Rightarrow> adapted_procedure \<Rightarrow> procedure_report outcome" where
  "analyze_adapted sv tables g p =
     (let sched = register_procedure (context_of p) (with_initial_tables tables);
          (_, sched) = enqueue_sites p (adapted_assertions p) sched in
      obind (drain sv sched) (\<lambda>(outcomes, _).
        Returns \<lparr>report_procedure = adapted_name p, report_assertions = map run_assertion (completed_runs outcomes),
          report_failures = [], loop_count = loop_count_of (adapted_cfg p),
          instruction_count = length (vertices g), is_recursive = False\<rparr>))"

definition skipped_report :: "nat \<Rightarrow> function_graph \<Rightarrow> procedure_report" where
  "skipped_report max_size g = \<lparr>report_procedure = graph_name g, report_assertions = [],
     report_failures = [too_large_message max_size g], loop_count = 0,
     instruction_count = length (vertices g), is_recursive = False\<rparr>"

definition analyze_with_summaries ::
  "bool \<Rightarrow> (invariant_config option \<Rightarrow> services) \<Rightarrow> hash_orders \<Rightarrow> llvm \<Rightarrow> function_graph \<Rightarrow> string set
    \<Rightarrow> call_summary_registry \<Rightarrow> summary_table option \<Rightarrow> invariant_config option
    \<Rightarrow> (procedure_report \<times> call_summary_registry) adapted option" where
  "analyze_with_summaries oc sv hs l g memory_pure reg tables config =
     (let max_size = (case config of None \<Rightarrow> 500 | Some c \<Rightarrow> max_function_size c) in
      if too_large max_size g then Some (aret (skipped_report max_size g, reg))
      else case run_alias_analysis (hash_order_of (sv config)) l [g] of
        None \<Rightarrow> None
      | Some alias \<Rightarrow> Some (
          abind (if registry_is_empty reg \<and> memory_pure = {}
                 then abind (adapt oc hs l g) (\<lambda>(p, _). aret (p, reg))
                 else adapt_with_purity_and_summaries oc hs l g memory_pure reg alias) (\<lambda>(p, reg).
          obind (analyze_adapted (sv config) (case tables of None \<Rightarrow> table_new | Some t \<Rightarrow> t) g p) (\<lambda>report.
            aret (report, reg)))))"

definition analyze_function_graph_with_purity ::
  "bool \<Rightarrow> (invariant_config option \<Rightarrow> services) \<Rightarrow> hash_orders \<Rightarrow> llvm \<Rightarrow> function_graph \<Rightarrow> string set
    \<Rightarrow> procedure_report adapted option" where
  "analyze_function_graph_with_purity oc sv hs l g memory_pure =
     map_option (\<lambda>r. abind r (\<lambda>(report, _). aret report))
       (analyze_with_summaries oc sv hs l g memory_pure registry_new None None)"

definition analyze_function_graph ::
  "bool \<Rightarrow> (invariant_config option \<Rightarrow> services) \<Rightarrow> hash_orders \<Rightarrow> llvm \<Rightarrow> function_graph
    \<Rightarrow> procedure_report adapted option" where
  "analyze_function_graph oc sv hs l g = analyze_function_graph_with_purity oc sv hs l g {}"

section \<open>A module\<close>

definition provided_summaries ::
  "llvm \<Rightarrow> function_graph list \<Rightarrow> candidate_provider \<Rightarrow> call_summary_registry \<Rightarrow> call_summary_registry" where
  "provided_summaries l graphs provider reg =
     fold (\<lambda>callee reg. if callee \<in> graph_name ` set graphs then reg
         else case provider callee of None \<Rightarrow> reg | Some s \<Rightarrow> registry_insert s reg)
       (sorted_list_of_set (collect_callee_names l graphs)) reg"

text \<open>
  One round of inference: the summaries of the round before are the snapshot, whose counter of call
  sites runs on through the round.  A function that cannot be adapted has no summary; its attempt
  numbers no call site, because only a missing node can stop an adaptation after that step.
\<close>

definition infer_function ::
  "bool \<Rightarrow> services \<Rightarrow> hash_orders \<Rightarrow> llvm \<Rightarrow> string set \<Rightarrow> alias_result \<Rightarrow> function_graph
    \<Rightarrow> call_summary_registry \<times> call_summary_registry \<Rightarrow> (call_summary_registry \<times> call_summary_registry) outcome" where
  "infer_function oc sv hs l memory_pure alias g =
     (\<lambda>(snapshot, reg). obind (adapt_with_purity_and_summaries oc hs l g memory_pure snapshot alias) (\<lambda>r. case r of
         Inl _ \<Rightarrow> Returns (snapshot, reg)
       | Inr (p, snapshot) \<Rightarrow> obind (infer_return_summary oc sv hs g p) (\<lambda>s. Returns (snapshot,
           (case s of None \<Rightarrow> reg | Some s \<Rightarrow> registry_insert s reg)))))"

definition inference_round ::
  "bool \<Rightarrow> services \<Rightarrow> hash_orders \<Rightarrow> llvm \<Rightarrow> string set \<Rightarrow> alias_result \<Rightarrow> function_graph list
    \<Rightarrow> call_summary_registry \<Rightarrow> call_summary_registry outcome" where
  "inference_round oc sv hs l memory_pure alias graphs reg =
     obind (ofor (infer_function oc sv hs l memory_pure alias) graphs (reg, reg)) (\<lambda>(_, reg). Returns reg)"

definition infer_summaries ::
  "bool \<Rightarrow> services \<Rightarrow> hash_orders \<Rightarrow> llvm \<Rightarrow> string set \<Rightarrow> alias_result \<Rightarrow> function_graph list
    \<Rightarrow> call_summary_registry \<Rightarrow> call_summary_registry outcome" where
  "infer_summaries oc sv hs l memory_pure alias graphs =
     ofor (\<lambda>_. inference_round oc sv hs l memory_pure alias graphs) [0..<max (length graphs) 1]"

definition add_return_summary :: "return_summary \<Rightarrow> summary_table \<Rightarrow> summary_table" where
  "add_return_summary s t =
     snd (add_notmay (rs_function s) \<lparr>notmay_precondition = FTrue, notmay_postcondition = f_not (rs_relation s)\<rparr>
       (snd (add_forward_may (rs_function s) \<lparr>may_precondition = FTrue, may_postcondition = rs_relation s\<rparr> t)))"

definition tables_of_registry :: "call_summary_registry \<Rightarrow> summary_table" where
  "tables_of_registry reg = fold add_return_summary (bt_values (registry reg)) table_new"

record module_run =
  run_scheduler :: scheduler
  run_registry :: call_summary_registry
  query_ids :: "(string, query_id list) btree"
  failures_of :: "(string, string list) btree"
  loop_counts :: "(string, nat) btree"

definition push_failure :: "string \<Rightarrow> string \<Rightarrow> module_run \<Rightarrow> module_run" where
  "push_failure name message run = run\<lparr>failures_of := bt_insert name
     ((case bt_get (failures_of run) name of None \<Rightarrow> [] | Some fs \<Rightarrow> fs) @ [message]) (failures_of run)\<rparr>"

definition queue_procedure :: "adapted_procedure \<Rightarrow> module_run \<Rightarrow> module_run" where
  "queue_procedure p run =
     (let (ids, sched) = enqueue_sites p (adapted_assertions p)
            (register_procedure (context_of p) (run_scheduler run)) in
      run\<lparr>run_scheduler := sched, query_ids := bt_insert (adapted_name p) ids (query_ids run),
        loop_counts := bt_insert (adapted_name p) (loop_count_of (adapted_cfg p)) (loop_counts run)\<rparr>)"

definition queue_graph ::
  "bool \<Rightarrow> hash_orders \<Rightarrow> llvm \<Rightarrow> string set \<Rightarrow> alias_result \<Rightarrow> nat \<Rightarrow> function_graph \<Rightarrow> module_run
    \<Rightarrow> module_run outcome" where
  "queue_graph oc hs l memory_pure alias max_size g run =
     (if too_large max_size g then Returns (push_failure (graph_name g) (too_large_message max_size g) run)
      else obind (adapt_with_purity_and_summaries oc hs l g memory_pure (run_registry run) alias) (\<lambda>r.
        Returns (case r of
          Inl e \<Rightarrow> push_failure (graph_name g) (adapter_error_str e) run
        | Inr (p, reg) \<Rightarrow> queue_procedure p (run\<lparr>run_registry := reg\<rparr>))))"

definition procedure_report_of ::
  "string set \<Rightarrow> scheduler \<Rightarrow> module_run \<Rightarrow> function_graph \<Rightarrow> procedure_report" where
  "procedure_report_of recursive sched run g =
     (case bt_get (failures_of run) (graph_name g) of
        Some failures \<Rightarrow> \<lparr>report_procedure = graph_name g, report_assertions = [], report_failures = failures,
          loop_count = 0, instruction_count = length (vertices g), is_recursive = graph_name g \<in> recursive\<rparr>
      | None \<Rightarrow>
          let ids = (case bt_get (query_ids run) (graph_name g) of None \<Rightarrow> [] | Some ids \<Rightarrow> ids) in
          \<lparr>report_procedure = graph_name g,
           report_assertions = map run_assertion (completed_runs (List.map_filter (completed_outcome sched) ids)),
           report_failures = [],
           loop_count = (case bt_get (loop_counts run) (graph_name g) of None \<Rightarrow> 0 | Some n \<Rightarrow> n),
           instruction_count = length (vertices g), is_recursive = graph_name g \<in> recursive\<rparr>)"

fun reports_of ::
  "string set \<Rightarrow> scheduler \<Rightarrow> function_graph list \<Rightarrow> module_run \<Rightarrow> procedure_report list" where
  "reports_of recursive sched [] run = []"
| "reports_of recursive sched (g # graphs) run = procedure_report_of recursive sched run g
     # reports_of recursive sched graphs (run\<lparr>failures_of := bt_remove (graph_name g) (failures_of run)\<rparr>)"

definition scan_vtables :: "bool \<Rightarrow> llvm \<Rightarrow> function_graph list \<Rightarrow> call_summary_registry outcome" where
  "scan_vtables oc l graphs = ofor (scan_graph_vtables oc l) graphs registry_new"

definition queue_module ::
  "bool \<Rightarrow> hash_orders \<Rightarrow> llvm \<Rightarrow> string set \<Rightarrow> alias_result \<Rightarrow> nat \<Rightarrow> function_graph list
    \<Rightarrow> call_summary_registry \<Rightarrow> module_run outcome" where
  "queue_module oc hs l memory_pure alias max_size graphs reg =
     ofor (queue_graph oc hs l memory_pure alias max_size) graphs
       \<lparr>run_scheduler = with_initial_tables (tables_of_registry reg), run_registry = reg,
        query_ids = [], failures_of = [], loop_counts = []\<rparr>"

definition analyze_module_with_provider ::
  "bool \<Rightarrow> (invariant_config option \<Rightarrow> services) \<Rightarrow> hash_orders \<Rightarrow> llvm \<Rightarrow> function_graph list \<Rightarrow> string set
    \<Rightarrow> candidate_provider \<Rightarrow> invariant_config \<Rightarrow> module_report outcome option" where
  "analyze_module_with_provider oc sv hs l graphs memory_pure provider inv_config =
     (case run_alias_analysis (hash_order_of (sv (Some inv_config))) l graphs of
        None \<Rightarrow> None
      | Some alias \<Rightarrow> Some (
          obind (scan_vtables oc l graphs) (\<lambda>reg.
          obind (infer_summaries oc (sv None) hs l memory_pure alias graphs
              (provided_summaries l graphs provider reg)) (\<lambda>reg.
          obind (queue_module oc hs l memory_pure alias (max_function_size inv_config) graphs reg) (\<lambda>run.
          obind (drain (sv (Some inv_config)) (run_scheduler run)) (\<lambda>(_, sched).
            Returns \<lparr>module_reports = reports_of (recursive_functions l graphs) sched graphs run,
              module_summaries = extend_from (table sched) (tables_of_registry reg),
              computed_summaries = bt_values (registry reg)\<rparr>))))))"

definition analyze_module ::
  "bool \<Rightarrow> (invariant_config option \<Rightarrow> services) \<Rightarrow> hash_orders \<Rightarrow> llvm \<Rightarrow> function_graph list \<Rightarrow> string set
    \<Rightarrow> module_report outcome option" where
  "analyze_module oc sv hs l graphs memory_pure =
     analyze_module_with_provider oc sv hs l graphs memory_pure no_provider invariant_config_default"

end
