(* ===== verification/Call_Graph_Correct.thy ===== *)
theory Call_Graph_Correct
  imports Driver Program_Graph_Correct
begin

text \<open>
  The scans of the whole module against reachability in the call graph: a function is taken to be
  memory-pure exactly when no chain of calls leads from it to a store, and recursive exactly when a
  chain of calls leads back to it.
\<close>

section \<open>Memory purity\<close>

text \<open>The calls that purity looks through.\<close>

definition impure_calls :: "llvm \<Rightarrow> function_graph list \<Rightarrow> (string \<times> string) set" where
  "impure_calls l graphs = {(graph_name g, callee) | g callee. g \<in> set graphs \<and>
     callee \<in> set (called_names l g) \<and> callee \<noteq> ''may_assert'' \<and> \<not> is_known_pure_external callee}"

definition storing :: "llvm \<Rightarrow> function_graph list \<Rightarrow> string set" where
  "storing l graphs = {graph_name g | g. g \<in> set graphs \<and> has_store l g}"

text \<open>A call chain leads from the function to one that stores.\<close>

definition may_store :: "llvm \<Rightarrow> function_graph list \<Rightarrow> string \<Rightarrow> bool" where
  "may_store l graphs f \<longleftrightarrow> (\<exists>g \<in> storing l graphs. (f, g) \<in> (impure_calls l graphs)\<^sup>*)"

lemma calls_impure_iff:
  "g \<in> set graphs \<Longrightarrow> calls_impure l impure g \<longleftrightarrow>
    (\<exists>callee \<in> impure. callee \<in> set (called_names l g) \<and> callee \<noteq> ''may_assert'' \<and> \<not> is_known_pure_external callee)"
  by (auto simp: calls_impure_def list_ex_iff)

lemma may_store_call:
  "(f, g) \<in> impure_calls l graphs \<Longrightarrow> may_store l graphs g \<Longrightarrow> may_store l graphs f"
  by (auto simp: may_store_def intro: converse_rtrancl_into_rtrancl)

lemma impure_round_sound:
  assumes "set gs \<subseteq> set graphs" "\<forall>f \<in> impure. may_store l graphs f"
  shows "\<forall>f \<in> fst (impure_round l gs (impure, changed)). may_store l graphs f"
  using assms
proof (induction gs arbitrary: impure changed)
  case (Cons g gs)
  have "may_store l graphs (graph_name g)" if "calls_impure l impure g"
  proof -
    from that Cons.prems(1) obtain callee where "callee \<in> impure" "(graph_name g, callee) \<in> impure_calls l graphs"
      using calls_impure_iff [of g graphs] by (auto simp: impure_calls_def)
    with Cons.prems(2) show ?thesis using may_store_call by blast
  qed
  then have grown: "\<forall>f \<in> insert (graph_name g) impure. may_store l graphs f" if "calls_impure l impure g"
    using that Cons.prems(2) by blast
  have rest: "set gs \<subseteq> set graphs" using Cons.prems(1) by simp
  show ?case
    using Cons.IH [OF rest Cons.prems(2), of changed] Cons.IH [OF rest grown, of True]
    by (auto simp: impure_round_def)
qed (simp add: impure_round_def)

text \<open>A round that changes nothing has met no function that calls an impure one.\<close>

lemma impure_round_stable:
  assumes "impure_round l gs (impure, False) = (impure', False)"
  shows "impure' = impure" "\<forall>g \<in> set gs. calls_impure l impure g \<longrightarrow> graph_name g \<in> impure"
proof -
  have "impure' = impure \<and> (\<forall>g \<in> set gs. calls_impure l impure g \<longrightarrow> graph_name g \<in> impure)"
    using assms
  proof (induction gs)
    case (Cons g gs)
    have quiet: "\<not> (graph_name g \<notin> impure \<and> calls_impure l impure g)"
    proof
      assume "graph_name g \<notin> impure \<and> calls_impure l impure g"
      then have "impure_round l gs (insert (graph_name g) impure, True) = (impure', False)"
        using Cons.prems by (simp add: impure_round_def)
      then show False using impure_round_grows(4) by blast
    qed
    then have "impure_round l gs (impure, False) = (impure', False)"
      using Cons.prems by (simp add: impure_round_def split: if_splits)
    with quiet Cons.IH show ?case by auto
  qed (simp add: impure_round_def)
  then show "impure' = impure" "\<forall>g \<in> set gs. calls_impure l impure g \<longrightarrow> graph_name g \<in> impure" by auto
qed

lemma impure_loop_closed:
  assumes "\<forall>f \<in> impure. may_store l graphs f" "storing l graphs \<subseteq> impure"
  shows "(\<forall>f \<in> impure_loop l graphs impure. may_store l graphs f) \<and>
    storing l graphs \<subseteq> impure_loop l graphs impure \<and>
    (\<forall>f g. (f, g) \<in> impure_calls l graphs \<longrightarrow> g \<in> impure_loop l graphs impure \<longrightarrow> f \<in> impure_loop l graphs impure)"
  using assms
proof (induction l graphs impure rule: impure_loop.induct)
  case (1 l graphs impure)
  obtain impure' changed where round: "impure_round l graphs (impure, False) = (impure', changed)"
    by (cases "impure_round l graphs (impure, False)") auto
  have sound: "\<forall>f \<in> impure'. may_store l graphs f"
    using impure_round_sound [of graphs graphs impure l False] "1.prems"(1) round by simp
  have grown: "storing l graphs \<subseteq> impure'" using impure_round_grows(1) [OF round] "1.prems"(2) by blast
  show ?case
  proof (cases changed)
    case True
    with round have "impure_loop l graphs impure = impure_loop l graphs impure'"
      by (subst impure_loop.simps) simp
    with "1.IH" [OF round [symmetric] refl] True sound grown show ?thesis by simp
  next
    case False
    with round have quiet: "impure_round l graphs (impure, False) = (impure', False)" by simp
    note stable = impure_round_stable [OF quiet]
    have eq: "impure_loop l graphs impure = impure'"
      using round False by (subst impure_loop.simps) simp
    have "f \<in> impure'" if call: "(f, g) \<in> impure_calls l graphs" "g \<in> impure'" for f g
    proof -
      from call(1) obtain h where h: "h \<in> set graphs" "f = graph_name h" "g \<in> set (called_names l h)"
        "g \<noteq> ''may_assert''" "\<not> is_known_pure_external g" by (auto simp: impure_calls_def)
      with call(2) stable(1) have "calls_impure l impure h" using calls_impure_iff [OF h(1)] by blast
      with stable h show ?thesis by blast
    qed
    with eq sound grown show ?thesis by blast
  qed
qed

lemma impure_loop_iff:
  "f \<in> impure_loop l graphs (storing l graphs) \<longleftrightarrow> may_store l graphs f"
proof -
  have base: "\<forall>f \<in> storing l graphs. may_store l graphs f" by (auto simp: may_store_def)
  note closed = impure_loop_closed [OF base order_refl]
  have "f \<in> impure_loop l graphs (storing l graphs)" if chain: "may_store l graphs f"
  proof -
    from chain obtain g where g: "g \<in> storing l graphs" "(f, g) \<in> (impure_calls l graphs)\<^sup>*"
      by (auto simp: may_store_def)
    from g(2) show ?thesis
      by (induction rule: converse_rtrancl_induct) (use closed g(1) in blast)+
  qed
  with closed show ?thesis by blast
qed

text \<open>
  C31: the inference of memory-pure functions is reachability: a name is returned exactly when it is
  a function of the module from which no chain of calls, other than of \<open>may_assert\<close> and of known pure names,
  leads to a function of the module with a store, or when it is a known pure name that the module calls,
  even if the module defines it.  Other externals count as functions without a store.
\<close>

theorem memory_purity_is_reachability:
  "f \<in> infer_memory_pure_functions l graphs \<longleftrightarrow>
     (f \<in> graph_name ` set graphs \<and> \<not> may_store l graphs f) \<or>
     (is_known_pure_external f \<and> (\<exists>g \<in> set graphs. f \<in> set (called_names l g)))"
proof -
  have "set (map graph_name (filter (has_store l) graphs)) = storing l graphs"
    by (auto simp: storing_def)
  then show ?thesis using impure_loop_iff [of f l graphs]
    by (auto simp: infer_memory_pure_functions_def Let_def)
qed

section \<open>Recursion\<close>

text \<open>The calls inside the module.\<close>

definition module_calls :: "llvm \<Rightarrow> function_graph list \<Rightarrow> (string \<times> string) set" where
  "module_calls l graphs = {(graph_name g, callee) | g callee. g \<in> set graphs \<and>
     callee \<noteq> ''may_assert'' \<and> callee \<in> graph_name ` set graphs \<and>
     (\<exists>i \<in> set (vertices g). get_called_function l i = Some callee)}"

lemma module_calls_iff: "(f, c) \<in> module_calls l graphs \<longleftrightarrow> (\<exists>g \<in> set graphs. graph_name g = f \<and>
    c \<noteq> ''may_assert'' \<and> c \<in> graph_name ` set graphs \<and> (\<exists>i \<in> set (vertices g). get_called_function l i = Some c))"
  by (auto simp: module_calls_def)

definition callee_edges :: "call_graph \<Rightarrow> (string \<times> string) set" where
  "callee_edges calls = {(f, c). \<exists>cs. bt_get calls f = Some cs \<and> c \<in> set cs}"

text \<open>
  What a call of \<open>reaches\<close> establishes: a negative answer leaves a set of seen functions all of whose
  callees are seen and none of which calls the target, as far as it has grown in this call.
\<close>

definition closed_since :: "call_graph \<Rightarrow> string \<Rightarrow> string set \<Rightarrow> string set \<Rightarrow> bool" where
  "closed_since calls target seen seen' \<longleftrightarrow> seen \<subseteq> seen' \<and>
     (\<forall>f \<in> seen' - seen. \<forall>c. (f, c) \<in> callee_edges calls \<longrightarrow> c \<noteq> target \<and> c \<in> seen')"

lemma closed_since_trans:
  "closed_since calls target a b \<Longrightarrow> closed_since calls target b c \<Longrightarrow> closed_since calls target a c"
  unfolding closed_since_def by blast


lemma closed_since_refl [simp]: "closed_since calls target seen seen"
  by (simp add: closed_since_def)

lemma any_callee_spec:
  assumes fin: "finite U"
    and go: "\<And>c seen. card (U - seen) < k \<Longrightarrow> \<exists>b seen'. go c seen = Some (b, seen') \<and>
      (b \<longrightarrow> (c, target) \<in> (callee_edges calls)\<^sup>+) \<and>
      (\<not> b \<longrightarrow> closed_since calls target seen seen' \<and>
        (\<forall>d. (c, d) \<in> callee_edges calls \<longrightarrow> d \<noteq> target \<and> d \<in> seen'))"
    and "set cs \<subseteq> U" "card (U - seen) \<le> k"
  shows "\<exists>b seen'. any_callee go target cs seen = Some (b, seen') \<and>
    (b \<longrightarrow> (\<exists>c \<in> set cs. c = target \<or> (c, target) \<in> (callee_edges calls)\<^sup>+)) \<and>
    (\<not> b \<longrightarrow> closed_since calls target seen seen' \<and> (\<forall>c \<in> set cs. c \<noteq> target \<and> c \<in> seen'))"
  using assms(3,4)
proof (induction cs arbitrary: seen)
  case (Cons c cs)
  consider "c = target" | "c \<noteq> target" "c \<in> seen" | "c \<noteq> target" "c \<notin> seen" by blast
  then show ?case
  proof cases
    case 2
    from Cons.IH [of seen] Cons.prems obtain b seen' where "any_callee go target cs seen = Some (b, seen')"
      "b \<longrightarrow> (\<exists>c \<in> set cs. c = target \<or> (c, target) \<in> (callee_edges calls)\<^sup>+)"
      "\<not> b \<longrightarrow> closed_since calls target seen seen' \<and> (\<forall>c \<in> set cs. c \<noteq> target \<and> c \<in> seen')" by auto
    with 2 show ?thesis by (intro exI [of _ b] exI [of _ seen']) (auto simp: closed_since_def)
  next
    case 3
    have "card (U - insert c seen) < card (U - seen)"
      using 3 Cons.prems(1) fin by (intro psubset_card_mono) auto
    then have "card (U - insert c seen) < k" using Cons.prems(2) by simp
    with go [where c = c and seen = "insert c seen"] obtain b s1 where s1: "go c (insert c seen) = Some (b, s1)"
      "b \<longrightarrow> (c, target) \<in> (callee_edges calls)\<^sup>+"
      "\<not> b \<longrightarrow> closed_since calls target (insert c seen) s1 \<and>
        (\<forall>d. (c, d) \<in> callee_edges calls \<longrightarrow> d \<noteq> target \<and> d \<in> s1)" by auto
    show ?thesis
    proof (cases b)
      case True
      with 3 s1(1,2) show ?thesis by (intro exI [of _ True] exI [of _ s1]) simp
    next
      case False
      have since: "closed_since calls target seen s1" using s1(3) False by (auto simp: closed_since_def)
      then have "card (U - s1) \<le> card (U - seen)"
        using fin by (intro card_mono) (auto simp: closed_since_def)
      with Cons.IH [of s1] Cons.prems obtain b' seen' where rest: "any_callee go target cs s1 = Some (b', seen')"
        "b' \<longrightarrow> (\<exists>c \<in> set cs. c = target \<or> (c, target) \<in> (callee_edges calls)\<^sup>+)"
        "\<not> b' \<longrightarrow> closed_since calls target s1 seen' \<and> (\<forall>c \<in> set cs. c \<noteq> target \<and> c \<in> seen')" by auto
      have "c \<in> s1" using s1(3) False by (auto simp: closed_since_def)
      then have "\<not> b' \<longrightarrow> closed_since calls target seen seen' \<and> c \<in> seen'"
        using rest(3) closed_since_trans [OF since] unfolding closed_since_def by blast
      then have "\<not> b' \<longrightarrow> closed_since calls target seen seen' \<and> (\<forall>d \<in> set (c # cs). d \<noteq> target \<and> d \<in> seen')"
        using rest(3) 3(1) by simp
      moreover have "any_callee go target (c # cs) seen = Some (b', seen')" using 3 s1(1) False rest(1) by simp
      moreover have "b' \<longrightarrow> (\<exists>d \<in> set (c # cs). d = target \<or> (d, target) \<in> (callee_edges calls)\<^sup>+)"
        using rest(2) by (meson list.set_intros(2))
      ultimately show ?thesis by blast
    qed
  next
    case 1
    then show ?thesis by (intro exI [of _ True] exI [of _ seen]) simp
  qed
next
  case Nil
  show ?case by (intro exI [of _ False] exI [of _ seen]) simp
qed

lemma reaches_spec:
  assumes "finite U" "Range (callee_edges calls) \<subseteq> U" "card (U - seen) < k"
  shows "\<exists>b seen'. reaches k calls target start seen = Some (b, seen') \<and>
    (b \<longrightarrow> (start, target) \<in> (callee_edges calls)\<^sup>+) \<and>
    (\<not> b \<longrightarrow> closed_since calls target seen seen' \<and>
      (\<forall>d. (start, d) \<in> callee_edges calls \<longrightarrow> d \<noteq> target \<and> d \<in> seen'))"
  using assms(3)
proof (induction k arbitrary: start seen)
  case (Suc k)
  show ?case
  proof (cases "bt_get calls start")
    case None
    then have "(start, d) \<notin> callee_edges calls" for d by (simp add: callee_edges_def)
    with None have "reaches (Suc k) calls target start seen = Some (False, seen) \<and>
      (\<forall>d. (start, d) \<in> callee_edges calls \<longrightarrow> d \<noteq> target \<and> d \<in> seen)" by simp
    then show ?thesis using closed_since_refl by blast
  next
    case (Some cs)
    then have cs: "c \<in> set cs \<longleftrightarrow> (start, c) \<in> callee_edges calls" for c by (simp add: callee_edges_def)
    have "set cs \<subseteq> U" using cs assms(2) by blast
    moreover have "card (U - seen) \<le> k" using Suc.prems by simp
    ultimately obtain b seen' where "any_callee (reaches k calls target) target cs seen = Some (b, seen')"
      "b \<longrightarrow> (\<exists>c \<in> set cs. c = target \<or> (c, target) \<in> (callee_edges calls)\<^sup>+)"
      "\<not> b \<longrightarrow> closed_since calls target seen seen' \<and> (\<forall>c \<in> set cs. c \<noteq> target \<and> c \<in> seen')"
      using any_callee_spec [OF assms(1) Suc.IH, where cs = cs and seen = seen] by metis
    moreover from this(2) have "b \<longrightarrow> (start, target) \<in> (callee_edges calls)\<^sup>+"
      using cs by (metis r_into_trancl' trancl_into_trancl2)
    ultimately show ?thesis using Some cs by (intro exI [of _ b] exI [of _ seen']) simp
  qed
qed simp

lemma reaches_cycle:
  assumes "finite U" "Range (callee_edges calls) \<subseteq> U" "card U < k"
  shows "map_option fst (reaches k calls f f {}) = Some True \<longleftrightarrow> (f, f) \<in> (callee_edges calls)\<^sup>+"
proof -
  obtain b seen where r: "reaches k calls f f {} = Some (b, seen)" "b \<longrightarrow> (f, f) \<in> (callee_edges calls)\<^sup>+"
    "\<not> b \<longrightarrow> closed_since calls f {} seen \<and> (\<forall>d. (f, d) \<in> callee_edges calls \<longrightarrow> d \<noteq> f \<and> d \<in> seen)"
    using reaches_spec [OF assms(1,2), where seen = "{}" and k = k and start = f and target = f] assms(3) by auto
  have "d \<noteq> f \<and> d \<in> seen" if "(f, d) \<in> (callee_edges calls)\<^sup>+" "\<not> b" for d
    using that(1) by (induction rule: trancl_induct) (use r(3) that(2) in \<open>auto simp: closed_since_def\<close>)
  with r show ?thesis by auto
qed

lemma bt_get_fold_insert:
  assumes "distinct (map key gs)"
  shows "bt_get (fold (\<lambda>g. bt_insert (key g) (val g)) gs m) f = Some cs \<longleftrightarrow>
    (\<exists>g \<in> set gs. key g = f \<and> cs = val g) \<or> (f \<notin> key ` set gs \<and> bt_get m f = Some cs)"
  using assms by (induction gs arbitrary: m) (auto simp: bt_get_insert)

lemma callee_edges_fold_insert:
  assumes "distinct (map key gs)"
  shows "(f, c) \<in> callee_edges (fold (\<lambda>g. bt_insert (key g) (val g)) gs []) \<longleftrightarrow>
    (\<exists>g \<in> set gs. key g = f \<and> c \<in> set (val g))"
  unfolding callee_edges_def mem_Collect_eq case_prod_conv bt_get_fold_insert [OF assms]
  by (auto simp: bt_get_def)

lemma call_graph_of_edges:
  assumes "distinct (map graph_name graphs)"
  shows "callee_edges (call_graph_of l graphs) = module_calls l graphs"
proof -
  have mem: "c \<in> set (sorted_list_of_set (set (filter P (List.map_filter h xs)))) \<longleftrightarrow> P c \<and> (\<exists>x \<in> set xs. h x = Some c)"
    for c :: string and P h and xs :: "instruction list"
    by (force simp: List.map_filter_def)
  have "(f, c) \<in> callee_edges (call_graph_of l graphs) \<longleftrightarrow> (f, c) \<in> module_calls l graphs" for f c
    unfolding call_graph_of_def callee_edges_fold_insert [OF assms] mem module_calls_def by blast
  then show ?thesis by (intro set_eqI) (simp only: split_paired_all)
qed

text \<open>
  C32: recursion detection is exact: with one graph per function name, a function is reported as
  recursive exactly when a chain of calls inside the module leads from it back to it; the bound on
  the depth of the search is never met.
\<close>

theorem recursive_functions_correct:
  assumes "distinct (map graph_name graphs)"
  shows "f \<in> recursive_functions l graphs \<longleftrightarrow> (f, f) \<in> (module_calls l graphs)\<^sup>+"
proof -
  let ?U = "graph_name ` set graphs"
  have "card ?U < length graphs + 1" using card_image_le [of "set graphs" graph_name] card_length [of graphs] by simp
  moreover have "Range (callee_edges (call_graph_of l graphs)) \<subseteq> ?U"
    unfolding call_graph_of_edges [OF assms] by (auto simp: module_calls_def)
  ultimately have "map_option fst (reaches (length graphs + 1) (call_graph_of l graphs) f f {}) = Some True \<longleftrightarrow>
      (f, f) \<in> (module_calls l graphs)\<^sup>+" for f
    using reaches_cycle [of ?U "call_graph_of l graphs" "length graphs + 1"] by (simp add: call_graph_of_edges [OF assms])
  moreover have "f \<in> ?U" if "(f, f) \<in> (module_calls l graphs)\<^sup>+"
    using tranclD [OF that] by (auto simp: module_calls_def)
  ultimately show ?thesis by (auto simp: recursive_functions_def Let_def)
qed

section \<open>Examples\<close>

text \<open>Instruction \<open>i\<close> calls the function with the \<open>i\<close>-th name.\<close>

definition call_module :: llvm where
  "call_module = sample_module\<lparr>raw_opcode := (\<lambda>_. OpCall), raw_called_value := (\<lambda>i. i),
     raw_name := (\<lambda>i. if i < 4 then Some ([''a'', ''b'', ''c'', ''memset''] ! i) else None)\<rparr>"

definition calling :: "string \<Rightarrow> instruction list \<Rightarrow> function_graph" where
  "calling f is = (empty_graph call_module 0 [])\<lparr>graph_name := f, vertices := is\<rparr>"

lemma call_module_names [simp]:
  "get_called_function call_module 0 = Some ''a''" "get_called_function call_module (Suc 0) = Some ''b''"
  "get_called_function call_module 2 = Some ''c''" "get_called_function call_module 3 = Some ''memset''"
  by code_simp+

lemma calling_sel [simp]: "graph_name (calling f is) = f" "vertices (calling f is) = is"
  by (simp_all add: calling_def)

theorem recursive_functions_witness:
  "''a'' \<in> recursive_functions call_module [calling ''a'' [1], calling ''b'' [0], calling ''c'' [0]]
    \<and> ''c'' \<notin> recursive_functions call_module [calling ''a'' [1], calling ''b'' [0], calling ''c'' [0]]"
proof -
  let ?gs = "[calling ''a'' [1], calling ''b'' [0], calling ''c'' [0]]"
  have "distinct (map graph_name ?gs)" by simp
  note exact = recursive_functions_correct [OF this]
  have calls: "module_calls call_module ?gs = {(''a'', ''b''), (''b'', ''a''), (''c'', ''a'')}"
    unfolding set_eq_iff split_paired_All by (auto simp: module_calls_iff)
  have "(''a'', ''a'') \<in> (module_calls call_module ?gs)\<^sup>+"
    unfolding calls by (rule trancl_into_trancl [OF r_into_trancl, of _ "''b''"]) simp_all
  moreover have "(f, d) \<in> (module_calls call_module ?gs)\<^sup>+ \<Longrightarrow> d \<noteq> ''c''" for f d
    unfolding calls by (induction rule: trancl_induct) auto
  ultimately show ?thesis unfolding exact by blast
qed

text \<open>An unknown external function does not make its caller impure.\<close>

lemma external_calls_ignored:
  "''a'' \<in> infer_memory_pure_functions call_module [calling ''a'' [3]]"
  "\<not> is_known_pure_external ''memset''"
proof -
  have "\<not> may_store call_module [calling ''a'' [3]] ''a''"
    by (auto simp: may_store_def storing_def has_store_def call_module_def)
  moreover have "set (map graph_name (filter (has_store call_module) [calling ''a'' [3]]))
      = storing call_module [calling ''a'' [3]]" by (auto simp: storing_def)
  ultimately show "''a'' \<in> infer_memory_pure_functions call_module [calling ''a'' [3]]"
    using impure_loop_iff [of "''a''" call_module "[calling ''a'' [3]]"]
    by (simp add: infer_memory_pure_functions_def)
  show "\<not> is_known_pure_external ''memset''" by code_simp
qed

end
