(* ===== verification/Return_Correct.thy ===== *)
theory Return_Correct
  imports Adaptation Loops_Backward Backward_Claims
begin

text \<open>
  The summary of a function: the relation between its entry state and the value it returns
  (\<open>compute_return_summary\<close> of \<open>src/cfg/adapter.rs\<close>), against the runs of its graph from the entry to
  the exit.
\<close>

section \<open>Runs that return\<close>

inductive returns :: "abstract_cfg \<Rightarrow> cfg_node_id \<Rightarrow> cfg_node_id \<Rightarrow> valuation \<Rightarrow> valuation \<Rightarrow> bool"
  for cfg exit where
  stop: "bt_get (cfg_nodes cfg) exit = Some nd \<Longrightarrow> transfer_runs s (node_transfer nd) u \<Longrightarrow> returns cfg exit exit s u"
| onward: "e \<in> set (all_edges cfg) \<Longrightarrow> edge_source e = n \<Longrightarrow> edge_step cfg e s t \<Longrightarrow>
    returns cfg exit (edge_target e) t u \<Longrightarrow> returns cfg exit n s u"

lemma scalar_unwritten_step:
  assumes "effect_step s e t" "ScalarSym x \<notin> writes e"
  shows "scalar_of t x = scalar_of s x"
  using assms(1) by (cases rule: effect_step_cases) (use assms(2) in \<open>auto simp: same_but_memory_def\<close>)

lemma scalar_unwritten:
  "steps effect_step s es t \<Longrightarrow> ScalarSym x \<notin> writes_all es \<Longrightarrow> scalar_of t x = scalar_of s x"
proof (induction es arbitrary: s)
  case (Cons e es)
  then obtain u where u: "effect_step s e u" "steps effect_step u es t" by auto
  have "ScalarSym x \<notin> writes e" "ScalarSym x \<notin> writes_all es" using Cons.prems(2) by (auto simp: writes_all_def)
  with u Cons.IH scalar_unwritten_step show ?case by metis
qed simp

lemma writes_all_subset: "set es \<subseteq> set fs \<Longrightarrow> x \<notin> writes_all fs \<Longrightarrow> x \<notin> writes_all es"
  by (auto simp: writes_all_def)

lemma returns_unwritten:
  assumes "returns cfg exit n s u" "ScalarSym x \<notin> writes_all (all_effects cfg)"
  shows "scalar_of u x = scalar_of s x"
  using assms(1)
proof induction
  case (stop nd s u)
  then show ?case using scalar_unwritten [OF _ writes_all_subset [OF node_effects assms(2)]] by blast
next
  case (onward e n s t u)
  obtain nd v where v: "bt_get (cfg_nodes cfg) (edge_source e) = Some nd" "transfer_runs s (node_transfer nd) v"
    "steps effect_step v (edge_effects e) t" using onward(3) by (auto simp: edge_step_def)
  have "scalar_of v x = scalar_of s x"
    using scalar_unwritten [OF v(2) writes_all_subset [OF node_effects [OF v(1)] assms(2)]] .
  moreover have "scalar_of t x = scalar_of v x"
    using scalar_unwritten [OF v(3) writes_all_subset [OF edge_effects_subset [OF onward(1)] assms(2)]] .
  ultimately show ?case using onward(5) by simp
qed

section \<open>The backward pass from the exit\<close>

definition whole_pass :: pass_config where
  "whole_pass = \<lparr>excluded = {}, restricted = None, ignore_guards = False, assume_inductive = False, summarized = {}\<rparr>"

lemma kept_edges_none [simp]: "kept_edges {} cfg = all_edges cfg"
  by (simp add: kept_edges_def)

lemma inside_whole_pass [simp]: "inside cfg whole_pass = set (all_edges cfg)"
  by (simp add: inside_def whole_pass_def)

lemma edge_precondition_whole [simp]: "edge_precondition cfg whole_pass = edge_pre cfg"
  by (auto simp: edge_precondition_def edge_pre_def whole_pass_def fun_eq_iff split: option.split)

lemma pull_incoming_node: "pull_incoming cfg = pull_node cfg whole_pass"
proof -
  have "(case cfg_edge cfg i of Inl _ \<Rightarrow> None | Inr e \<Rightarrow> pull_into_source cfg e u) = pull_edge cfg whole_pass i u" for i u
    by (auto simp: pull_edge_def pull_into_source_def whole_pass_def get_or_def Let_def
        simp del: cfg_edge_Inr cfg_node_Inr split: sum.split option.split)
  then show ?thesis by (simp add: pull_incoming_def pull_node_def whole_pass_def fun_eq_iff)
qed

lemma fill_get: "state_of (fold (\<lambda>i m. bt_insert i FFalse m) ks []) n = FFalse"
proof -
  have "get_or m n FFalse = FFalse \<Longrightarrow> get_or (fold (\<lambda>i m. bt_insert i FFalse m) ks m) n FFalse = FFalse" for m
    by (induction ks arbitrary: m) (simp_all add: get_or_bt_insert)
  then show ?thesis by (simp add: get_or_def bt_get_def)
qed

lemma summary_states_solve:
  assumes wf: "cfg_wf cfg" and order: "topological_order cfg = Returns (Some order)"
    and nd: "bt_get (cfg_nodes cfg) exit = Some nd"
    and good: "wp_good B (wp (node_transfer nd) post)"
      "\<And>e f. e \<in> set (all_edges cfg) \<Longrightarrow> wp_good B f \<Longrightarrow> wp_good B (edge_pre cfg e f)"
  shows "acyclic (flow (all_edges cfg)) \<and> (\<exists>st. summary_states cfg order exit post = Some st \<and> (\<forall>n. wp_good B (state_of st n)) \<and>
    (\<forall>s n. eval_formula s (state_of st n) \<longleftrightarrow> n = exit \<and> eval_formula s (wp (node_transfer nd) post) \<or>
       (\<exists>e \<in> set (all_edges cfg). edge_source e = n \<and> eval_formula s (edge_pre cfg e (state_of st (edge_target e))))))"
proof -
  let ?c = whole_pass and ?seeds = "bt_insert exit (wp (node_transfer nd) post)
    (fold (\<lambda>i m. bt_insert i FFalse m) (node_ids cfg) [])"
  have ex: "excluded ?c = {}" by (simp add: whole_pass_def)
  have "topological_order_excluding {} cfg = Returns (Some order)"
    using order by (simp add: topological_order_excluding_def topological_order_def)
  then have top: "topological (node_ids cfg) (all_edges cfg) order" and ac: "acyclic (flow (all_edges cfg))"
    using order_cases [OF wf, of "{}"] by auto
  have irr: "edge_source e \<noteq> edge_target e" if "e \<in> set (kept_edges (excluded ?c) cfg)" for e
    using ac that by (auto simp: acyclic_def flow_def ex)
  have seed: "state_of ?seeds n = (if n = exit then wp (node_transfer nd) post else FFalse)" for n
    by (simp add: get_or_bt_insert fill_get)
  have "wp_good B (state_of ?seeds n)" for n using good(1) by (simp add: seed)
  moreover have "solves cfg ?c ?seeds {} ?seeds" by (simp add: solves_def)
  moreover have "keeps_good cfg ?c B" using good(2) by (simp add: keeps_good_def)
  moreover have "distinct (rev order)" "set (rev order) \<inter> {} = {}" using top by (simp_all add: topological_def)
  moreover have "edge_source e \<notin> {} \<union> set (take i (rev order))"
    if "i < length (rev order)" "e \<in> set (kept_edges (excluded ?c) cfg)" "edge_target e = rev order ! i" for i e
    using topological_rev [OF top, of i e] that by (simp add: ex)
  ultimately obtain st where st: "opt_fold (pull_node cfg ?c) (rev order) ?seeds = Some st"
    and eq: "solves cfg ?c ?seeds ({} \<union> set (rev order)) st" and g: "\<forall>n. wp_good B (state_of st n)"
    using pull_nodes [where c = ?c and ns = "rev order" and D = "{}" and seeds = ?seeds and st = ?seeds and B = B, OF wf irr]
    by blast
  have "edge_target e \<in> set order" if "e \<in> set (all_edges cfg)" for e
    using top wf_kept(2) [OF wf, of "{}"] that by (auto simp: topological_def)
  then have "eval_formula s (state_of st n) \<longleftrightarrow> n = exit \<and> eval_formula s (wp (node_transfer nd) post) \<or>
       (\<exists>e \<in> set (all_edges cfg). edge_source e = n \<and> eval_formula s (edge_pre cfg e (state_of st (edge_target e))))" for s n
    using eq [unfolded solves_def, rule_format, of s n] by (auto simp: seed)
  moreover have node: "cfg_node cfg exit = Inr nd" using nd by simp
  have "summary_states cfg order exit post = Some st"
    using st by (simp add: summary_states_def pull_incoming_node node del: cfg_node_Inr)
  ultimately show ?thesis using ac g by blast
qed

text \<open>The equations have one solution on an acyclic graph: the states that return with the post-condition.\<close>

lemma solution_covers:
  assumes "analysable cfg site" "\<And>n. wp_good (assigned cfg) (h n)" "wp_good (assigned cfg) post"
    and "bt_get (cfg_nodes cfg) exit = Some nd" "transfer_ok (assigned cfg) (node_transfer nd)"
    and "\<And>s n. n = exit \<and> eval_formula s (wp (node_transfer nd) post) \<or>
       (\<exists>e \<in> set (all_edges cfg). edge_source e = n \<and> eval_formula s (edge_pre cfg e (h (edge_target e)))) \<Longrightarrow>
       eval_formula s (h n)"
    and "returns cfg exit n s u" "eval_formula u post"
  shows "eval_formula s (h n)"
  using assms(7,8)
proof induction
  case (stop nd' s u)
  with assms(4) have "eval_formula s (wp (node_transfer nd) post)"
    by (intro wp_covers [OF assms(5,3)]) auto
  then show ?case using assms(6) by blast
next
  case (onward e n s t u)
  then have "eval_formula s (edge_pre cfg e (h (edge_target e)))"
    using edge_pre_covers [OF assms(1) _ assms(2)] by blast
  then show ?case using assms(6) onward(1,2) by blast
qed

lemma solution_exact:
  assumes "acyclic (flow (all_edges cfg))" "analysable cfg site" "exact_effects cfg" "\<And>n. wp_good (assigned cfg) (h n)"
    and "wp_good (assigned cfg) post" "bt_get (cfg_nodes cfg) exit = Some nd" "transfer_ok (assigned cfg) (node_transfer nd)"
    and "\<And>s n. eval_formula s (h n) \<Longrightarrow> n = exit \<and> eval_formula s (wp (node_transfer nd) post) \<or>
       (\<exists>e \<in> set (all_edges cfg). edge_source e = n \<and> eval_formula s (edge_pre cfg e (h (edge_target e))))"
    and "eval_formula s (h n)"
  shows "\<exists>u. returns cfg exit n s u \<and> eval_formula u post"
proof -
  have "finite (flow (all_edges cfg))" by (simp add: flow_def)
  then have "wf ((flow (all_edges cfg))\<inverse>)" using assms(1) by (intro finite_acyclic_wf_converse)
  then show ?thesis using assms(9)
  proof (induction n arbitrary: s rule: wf_induct_rule)
    case (less n)
    from assms(8) [OF less.prems] show ?case
    proof (elim disjE conjE bexE)
      assume here: "n = exit" "eval_formula s (wp (node_transfer nd) post)"
      have "transfer_exact (node_transfer nd)" by (rule exact_list [OF assms(3) node_effects [OF assms(6)]])
      with here(2) obtain u where "transfer_runs s (node_transfer nd) u" "eval_formula u post"
        using wp_is_preimage [OF assms(7) _ assms(5)] by blast
      with here(1) show ?thesis using stop [OF assms(6)] by blast
    next
      fix e
      assume e: "e \<in> set (all_edges cfg)" "edge_source e = n" "eval_formula s (edge_pre cfg e (h (edge_target e)))"
      obtain t where t: "edge_step cfg e s t" "eval_formula t (h (edge_target e))"
        using edge_pre_exact [OF assms(2,3) e(1) assms(4) e(3)] by blast
      have "(edge_target e, n) \<in> (flow (all_edges cfg))\<inverse>" using e(1,2) by (auto simp: flow_def)
      from less.IH [OF this t(2)] show ?thesis using onward [OF e(1,2) t(1)] by blast
    qed
  qed
qed

section \<open>The relation of a summary\<close>

text \<open>The state whose observed return value is what \<open>s\<close> gives to the return value.\<close>

definition observing :: "string \<Rightarrow> valuation \<Rightarrow> valuation" where
  "observing rv s = (let \<rho> = (\<lambda>name. if name = rv @ ''$obs'' then rv else name) in pull_back \<rho> \<rho> s)"

lemma observing_obs [simp]: "scalar_of (observing rv s) (var_int (rv @ ''$obs'')) = scalar_of s (var_int rv)"
  by (simp add: observing_def rename_var_def var_int_def var_new_def Let_def)

lemma compute_return_summary_Some:
  assumes "compute_return_summary g p = Returns (Some r)" "cfg_exit (adapted_cfg p) = Some exit"
  shows "rs_retval_name r = synthetic_retval_name (adapted_name p) \<and>
    (\<exists>order st. topological_order (adapted_cfg p) = Returns (Some order) \<and>
    summary_states (adapted_cfg p) order exit (FEq (TVar (var_int (synthetic_retval_name (adapted_name p))))
      (TVar (var_int (synthetic_retval_name (adapted_name p) @ ''$obs'')))) = Some st \<and>
    (\<forall>s. eval_formula s (rs_relation r) \<longleftrightarrow>
      eval_formula (observing (synthetic_retval_name (adapted_name p)) s) (state_of st (cfg_entry (adapted_cfg p)))))"
proof -
  let ?cfg = "adapted_cfg p" and ?rv = "synthetic_retval_name (adapted_name p)"
  obtain ord where ord: "topological_order ?cfg = Returns ord"
    using assms(1) by (auto simp: compute_return_summary_def obind_eq_Returns Let_def)
  then obtain order where order: "topological_order ?cfg = Returns (Some order)"
    using assms(1) by (cases ord) (simp_all add: compute_return_summary_def)
  then obtain st where st: "summary_states ?cfg order exit (FEq (TVar (var_int ?rv)) (TVar (var_int (?rv @ ''$obs'')))) = Some st"
    using assms by (auto simp: compute_return_summary_def Let_def split: option.splits)
  have "rs_retval_name r = ?rv" "rs_relation r = rename_formula_uniform (\<lambda>name. if name = ?rv @ ''$obs'' then ?rv else name)
      (state_of st (cfg_entry ?cfg))"
    using assms order st by (auto simp: compute_return_summary_def Let_def get_or_def split: if_splits)
  with order st show ?thesis
    by (auto simp: observing_def rename_formula_uniform_def eval_rename_formula Let_def)
qed

lemma compare_with_IntV: "compare_values (=) (=) a (IntV v) \<longleftrightarrow> a = IntV v"
  by (cases a) auto

lemma return_summary_core:
  assumes "compute_return_summary g p = Returns (Some r)" "rv = synthetic_retval_name (adapted_name p)"
    and "cfg = adapted_cfg p" "cfg_wf cfg" "cfg_exit cfg = Some exit" "analysable cfg site"
    and "ScalarSym (var_int (rv @ ''$obs'')) \<notin> writes_all (all_effects cfg)" "scalar_of s (var_int rv) = IntV v"
  shows "(returns cfg exit (cfg_entry cfg) (observing rv s) u \<longrightarrow> scalar_of u (var_int rv) = IntV v \<longrightarrow>
      eval_formula s (rs_relation r)) \<and>
    (exact_effects cfg \<longrightarrow> eval_formula s (rs_relation r) \<longrightarrow>
      (\<exists>u. returns cfg exit (cfg_entry cfg) (observing rv s) u \<and> scalar_of u (var_int rv) = IntV v))"
proof -
  let ?post = "FEq (TVar (var_int rv)) (TVar (var_int (rv @ ''$obs'')))"
  obtain order st where order: "topological_order cfg = Returns (Some order)"
    and st: "summary_states cfg order exit ?post = Some st"
    and rel: "eval_formula s (rs_relation r) \<longleftrightarrow> eval_formula (observing rv s) (state_of st (cfg_entry cfg))"
    using compute_return_summary_Some [OF assms(1)] assms(2,3,5) by auto
  obtain nd where nd: "bt_get (cfg_nodes cfg) exit = Some nd"
    using st by (auto simp: summary_states_def split: sum.splits)
  have ok: "transfer_ok (assigned cfg) (node_transfer nd)"
    using analysable_effects [OF assms(6) node_effects [OF nd]] by (simp add: transfer_ok_def)
  have post: "wp_good (assigned cfg) ?post" by (simp add: wp_good_def)
  have good: "wp_good (assigned cfg) (edge_pre cfg e f)" if "e \<in> set (all_edges cfg)" "wp_good (assigned cfg) f" for e f
    using edge_pre_good [OF assms(6) that] .
  from summary_states_solve [OF assms(4) order nd wp_good_wp [OF ok post] good] st
  have ac: "acyclic (flow (all_edges cfg))" and g: "\<And>n. wp_good (assigned cfg) (state_of st n)"
    and eq: "\<And>s n. eval_formula s (state_of st n) \<longleftrightarrow> n = exit \<and> eval_formula s (wp (node_transfer nd) ?post) \<or>
       (\<exists>e \<in> set (all_edges cfg). edge_source e = n \<and> eval_formula s (edge_pre cfg e (state_of st (edge_target e))))"
    by auto
  have observed: "eval_formula u ?post \<longleftrightarrow> scalar_of u (var_int rv) = IntV v"
    if "returns cfg exit (cfg_entry cfg) (observing rv s) u" for u
    using returns_unwritten [OF that assms(7)] assms(8) by (simp add: compare_with_IntV)
  have "eval_formula s (rs_relation r)"
    if "returns cfg exit (cfg_entry cfg) (observing rv s) u" "scalar_of u (var_int rv) = IntV v"
    unfolding rel
  proof (rule solution_covers [OF assms(6) g post nd ok _ that(1)])
    show "eval_formula s' (state_of st n)" if "n = exit \<and> eval_formula s' (wp (node_transfer nd) ?post) \<or>
       (\<exists>e \<in> set (all_edges cfg). edge_source e = n \<and> eval_formula s' (edge_pre cfg e (state_of st (edge_target e))))"
      for s' n by (rule eq [THEN iffD2, OF that])
    show "eval_formula u ?post" using observed [OF that(1)] that(2) by (rule iffD2)
  qed
  moreover have "\<exists>u. returns cfg exit (cfg_entry cfg) (observing rv s) u \<and> scalar_of u (var_int rv) = IntV v"
    if "exact_effects cfg" "eval_formula s (rs_relation r)"
  proof -
    have "eval_formula (observing rv s) (state_of st (cfg_entry cfg))" using that(2) rel by simp
    from solution_exact [where h = "state_of st", OF ac assms(6) that(1) g post nd ok eq [THEN iffD1] this]
    show ?thesis using observed by blast
  qed
  ultimately show ?thesis by blast
qed

text \<open>
  C7: the summary of a function is the function, when its graph has no cycle (then there is a summary)
  and its effects are analysable and do not write the observation name: a state, with an integer for the
  return value, satisfies the relation whenever a run from that state returns this value, and, where the
  effects forget nothing, only then.
\<close>

theorem return_summary_exact:
  assumes "compute_return_summary g p = Returns (Some r)" "rv = synthetic_retval_name (adapted_name p)"
    and "cfg = adapted_cfg p" "cfg_wf cfg" "cfg_exit cfg = Some exit" "analysable cfg site"
    and "ScalarSym (var_int (rv @ ''$obs'')) \<notin> writes_all (all_effects cfg)" "scalar_of s (var_int rv) = IntV v"
  shows "(returns cfg exit (cfg_entry cfg) (observing rv s) u \<longrightarrow> scalar_of u (var_int rv) = IntV v \<longrightarrow>
      eval_formula s (rs_relation r)) \<and>
    (exact_effects cfg \<longrightarrow> eval_formula s (rs_relation r) \<longrightarrow>
      (\<exists>u. returns cfg exit (cfg_entry cfg) (observing rv s) u \<and> scalar_of u (var_int rv) = IntV v))"
  by (rule return_summary_core [OF assms])

text \<open>\<open>if (c) return 1; else return 0;\<close>\<close>

definition choice_cfg :: abstract_cfg where
  "choice_cfg = \<lparr>cfg_nodes = [(0, example_node 0),
       (1, (example_node 1)\<lparr>node_transfer := transfer_fn_new [Assign (var_int ''f$__retval'') (AssignTerm (TInt 1))]\<rparr>),
       (2, (example_node 2)\<lparr>node_transfer := transfer_fn_new [Assign (var_int ''f$__retval'') (AssignTerm (TInt 0))]\<rparr>),
       (3, example_node 3)],
     cfg_edges = [(0, (example_edge 0 0 1)\<lparr>edge_guard := f_bool_var ''f$c''\<rparr>),
       (1, (example_edge 1 0 2)\<lparr>edge_guard := f_not (f_bool_var ''f$c'')\<rparr>),
       (2, example_edge 2 1 3), (3, example_edge 3 2 3)],
     cfg_entry = 0, concrete_exits = [3], cfg_exit = Some 3, next_node = 4, next_edge = 4\<rparr>"

definition choice_procedure :: adapted_procedure where
  "choice_procedure = \<lparr>adapted_name = ''f'', adapted_cfg = choice_cfg, adapted_assertions = [],
     instruction_nodes = Map.empty, adapted_ptr_at = [], adapted_debug_names = Map.empty, formal_parameters = []\<rparr>"

definition choice_function :: function_graph where
  "choice_function = \<lparr>graph_name = ''f'', graph_params = [''c''], pointer_param_indices = [], vertices = [], graph_edges = [],
     graph_start = None, graph_end = [], graph_vars = [], asserts = [], assumes_of = [],
     data_layout_str = [], debug_names = Map.empty\<rparr>"

lemmas choice_defs = choice_cfg_def choice_procedure_def example_node_def example_edge_def transfer_fn_new_def
  transfer_identity_def var_int_def var_new_def var_bool_def f_bool_var_def

lemma choice_wf: "cfg_wf choice_cfg"
  by (auto simp: cfg_wf_defs choice_defs bt_wf_def node_ids_def bt_keys_def)

lemma choice_analysable: "analysable choice_cfg (branch_site 1)" "exact_effects choice_cfg"
  by (auto simp: analysable_def exact_effects_def all_effects_def assigned_def choice_defs branch_site_def
      bt_values_def f_not_def)

lemma choice_summarised: "case compute_return_summary choice_function choice_procedure of
    Returns (Some r) \<Rightarrow> rs_formal_parameters r = [''f$c''] | _ \<Rightarrow> False"
  by code_simp

lemma choice_returns:
  assumes "\<not> bool_of s (var_bool ''f$c'')"
  shows "returns choice_cfg 3 0 s (set_scalar (var_int ''f$__retval'') (IntV 0) s)"
proof -
  let ?t = "set_scalar (var_int ''f$__retval'') (IntV 0) s"
  let ?e = "(example_edge 1 0 2)\<lparr>edge_guard := f_not (f_bool_var ''f$c'')\<rparr>" and ?f = "example_edge 3 2 3"
  have "edge_step choice_cfg ?e s s"
    using assms by (auto simp: edge_step_def choice_defs bt_get_def)
  moreover have "edge_step choice_cfg ?f s ?t"
    by (auto simp: edge_step_def choice_defs bt_get_def effect_step_simps)
  moreover have "returns choice_cfg 3 3 ?t ?t" by (rule stop) (auto simp: choice_defs bt_get_def)
  moreover have "?e \<in> set (all_edges choice_cfg)" "?f \<in> set (all_edges choice_cfg)"
    by (simp_all add: choice_defs bt_values_def)
  ultimately show ?thesis
    using onward [of ?e choice_cfg 0 s s 3] onward [of ?f choice_cfg 2 s ?t 3] by (simp add: example_edge_def)
qed

theorem return_summary_witness:
  "case compute_return_summary choice_function choice_procedure of
     Returns (Some r) \<Rightarrow> eval_formula sample_state (rs_relation r) | _ \<Rightarrow> False"
proof -
  obtain r where r: "compute_return_summary choice_function choice_procedure = Returns (Some r)"
    using choice_summarised by (auto split: outcome.splits option.splits)
  let ?s = "observing ''f$__retval'' sample_state" and ?rv = "''f$__retval''"
  have rv: "?rv = synthetic_retval_name (adapted_name choice_procedure)" by code_simp
  have "ScalarSym (var_int (?rv @ ''$obs'')) \<notin> writes_all (all_effects choice_cfg)"
    by (auto simp: writes_all_def all_effects_def choice_defs bt_values_def)
  moreover have "\<not> bool_of ?s (var_bool ''f$c'')"
    by (simp add: observing_def sample_state_def Let_def)
  ultimately have "eval_formula sample_state (rs_relation r)"
    using return_summary_exact [OF r rv, of choice_cfg 3 "branch_site 1" sample_state 0] choice_wf choice_analysable
      choice_returns [of ?s]
    by (auto simp: choice_procedure_def choice_cfg_def sample_state_def var_int_def var_new_def)
  with r show ?thesis by simp
qed

end
