(* ===== verification/Call_Correct.thy ===== *)
theory Call_Correct
  imports Return_Correct Program_Graph_Correct
begin

text \<open>
  A summarised call: what the obligation that the adapter adds at a call site (\<open>instantiate_summary\<close>)
  says of the caller's state, and, with the summary that was computed for the callee, that it admits
  every return of the callee.
\<close>

section \<open>Regions of pointer arguments\<close>

text \<open>The cells of a callee's region, among the caller's regions.\<close>

definition bound_cells :: "region_bindings \<Rightarrow> valuation \<Rightarrow> string \<Rightarrow> int \<Rightarrow> int" where
  "bound_cells m s name = (case bt_get m name of
     Some (actual_region, base) \<Rightarrow> (case eval_term s base of
         IntV z \<Rightarrow> (\<lambda>k. cells_of s actual_region (z + k)) | _ \<Rightarrow> cells_of s actual_region)
   | None \<Rightarrow> (case field_region m name of Some r \<Rightarrow> cells_of s r | None \<Rightarrow> cells_of s name))"

definition bound_state :: "region_bindings \<Rightarrow> valuation \<Rightarrow> valuation" where
  "bound_state m s = s\<lparr>cells_of := bound_cells m s\<rparr>"

lemma bound_state_sel [simp]:
  "scalar_of (bound_state m s) = scalar_of s" "bool_of (bound_state m s) = bool_of s"
  "cells_of (bound_state m s) = bound_cells m s" "int_div_of (bound_state m s) = int_div_of s"
  "int_rem_of (bound_state m s) = int_rem_of s" "real_div_of (bound_state m s) = real_div_of s"
  by (simp_all add: bound_state_def)

text \<open>Regions are only read, one cell at a time.\<close>

primrec plain_memory :: "memory \<Rightarrow> bool" and plain_term :: "fterm \<Rightarrow> bool" and plain_reads :: "formula \<Rightarrow> bool" where
  "plain_memory (MVar r) = False"
| "plain_memory (MStore inner index val) = False"
| "plain_term (TVar v) = True"
| "plain_term (TInt n) = True"
| "plain_term (TReal q) = True"
| "plain_term (TBoolToInt f) = plain_reads f"
| "plain_term (TSelect mem index) = ((\<exists>r. mem = MVar r) \<and> plain_term index)"
| "plain_term (TAdd a b) = (plain_term a \<and> plain_term b)"
| "plain_term (TSub a b) = (plain_term a \<and> plain_term b)"
| "plain_term (TMul a b) = (plain_term a \<and> plain_term b)"
| "plain_term (TDiv a b) = (plain_term a \<and> plain_term b)"
| "plain_term (TRem a b) = (plain_term a \<and> plain_term b)"
| "plain_term (TNeg a) = plain_term a"
| "plain_reads FTrue = True"
| "plain_reads FFalse = True"
| "plain_reads (FVar v) = True"
| "plain_reads (FNot f) = plain_reads f"
| "plain_reads (FAnd fs) = list_all (\<lambda>b. b) (map plain_reads fs)"
| "plain_reads (FOr fs) = list_all (\<lambda>b. b) (map plain_reads fs)"
| "plain_reads (FImplies f g) = (plain_reads f \<and> plain_reads g)"
| "plain_reads (FEq a b) = (plain_term a \<and> plain_term b)"
| "plain_reads (FMemoryEq m n) = False"
| "plain_reads (FLt a b) = (plain_term a \<and> plain_term b)"
| "plain_reads (FLe a b) = (plain_term a \<and> plain_term b)"
| "plain_reads (FGt a b) = (plain_term a \<and> plain_term b)"
| "plain_reads (FGe a b) = (plain_term a \<and> plain_term b)"

text \<open>Offsets that are integers in \<open>s\<close>, and the bindings that do not move a region.\<close>

definition placed :: "region_bindings \<Rightarrow> valuation \<Rightarrow> bool" where
  "placed m s \<longleftrightarrow> (\<forall>name r base. bt_get m name = Some (r, base) \<longrightarrow> (\<exists>z. eval_term s base = IntV z))"

definition unmoved :: "region_bindings \<Rightarrow> valuation \<Rightarrow> bool" where
  "unmoved m s \<longleftrightarrow> (\<forall>name r base. bt_get m name = Some (r, base) \<longrightarrow> eval_term s base = IntV 0)"

lemma select_moved:
  "select_cell c (arith_value (+) (+) (IntV z) i) = select_cell (\<lambda>k. c (z + k)) i"
  by (cases i) (simp_all add: select_cell_def)

lemma select_actual_sem:
  assumes "placed m s"
  shows "eval_term s (select_actual m name index) = select_cell (bound_cells m s name) (eval_term s index)"
proof (cases "bt_get m name")
  case (Some b)
  moreover obtain r base where "b = (r, base)" by fastforce
  moreover from calculation obtain z where "eval_term s base = IntV z" using assms unfolding placed_def by blast
  ultimately show ?thesis by (simp add: select_actual_def bound_cells_def select_moved)
qed (auto simp: select_actual_def bound_cells_def actual_memory_def split: option.split)

lemma actual_memory_sem: "unmoved m s \<Longrightarrow> eval_memory s (actual_memory m name) = bound_cells m s name"
  by (auto simp: actual_memory_def bound_cells_def unmoved_def split: option.split)

lemma substitute_ext_regions_sem:
  assumes "placed m s"
  shows "unmoved m s \<Longrightarrow> eval_memory s (substitute_ext_regions_memory m mem) = eval_memory (bound_state m s) mem"
    and "unmoved m s \<or> plain_term t \<Longrightarrow> eval_term s (substitute_ext_regions_term m t) = eval_term (bound_state m s) t"
    and "unmoved m s \<or> plain_reads f \<Longrightarrow> eval_formula s (substitute_ext_regions m f) = eval_formula (bound_state m s) f"
proof (induction mem and t and f)
  case (TSelect mem index)
  then show ?case
  proof (cases mem)
    case (MVar r)
    then show ?thesis using TSelect by (auto simp: select_actual_sem [OF assms])
  next
    case (MStore inner i v)
    then show ?thesis using TSelect by auto
  qed
qed (auto simp: actual_memory_sem list_all_iff)

section \<open>The obligation of a call\<close>

text \<open>The caller's state, read in the names and regions of the callee.\<close>

definition callee_view ::
  "llvm \<Rightarrow> string \<Rightarrow> pointer_env \<Rightarrow> return_summary \<Rightarrow> string \<Rightarrow> string \<Rightarrow> instruction \<Rightarrow> valuation \<Rightarrow> valuation" where
  "callee_view l fn_name env smry callee local_prefix i s =
     (let \<rho> = callee_rename (call_mapping l fn_name smry i) callee local_prefix in
      pull_back \<rho> \<rho> (bound_state (call_regions l fn_name callee local_prefix env i) s))"

lemma no_constants:
  "\<forall>(formal, actual) \<in> set ps. raw_constant_int l actual = None \<Longrightarrow>
    fold (\<lambda>(formal, actual) f. case raw_constant_int l actual of
        None \<Rightarrow> f | Some n \<Rightarrow> substitute_var_name_with_term formal (TInt n) f) ps f = f"
  by (induction ps arbitrary: f) auto

lemma rename_plain:
  shows "plain_memory (rename_memory g h mem) = plain_memory mem"
    and "plain_term (rename_term g h t) = plain_term t"
    and "plain_reads (rename_formula g h f) = plain_reads f"
proof (induction mem and t and f)
  case (TSelect mem index)
  then show ?case by (cases mem) auto
qed (auto simp: list_all_iff)

lemma instantiate_summary_sem:
  assumes "\<forall>actual \<in> set (get_call_args l i). raw_constant_int l actual = None"
    and "placed (call_regions l fn_name callee local_prefix env i) s"
    and "unmoved (call_regions l fn_name callee local_prefix env i) s \<or> plain_reads (rs_relation smry)"
  shows "eval_formula s (instantiate_summary l fn_name env smry callee local_prefix i) \<longleftrightarrow>
    eval_formula (callee_view l fn_name env smry callee local_prefix i s) (rs_relation smry)"
proof -
  have "\<forall>(formal, actual) \<in> set (zip (rs_formal_parameters smry) (get_call_args l i)). raw_constant_int l actual = None"
    using assms(1) by (auto dest: set_zip_rightD)
  with assms(2,3) show ?thesis
    by (simp add: instantiate_summary_def Let_def no_constants substitute_ext_regions_sem rename_callee_vars_def
        rename_formula_uniform_def rename_plain eval_rename_formula callee_view_def)
qed

text \<open>
  C8: a summarised call admits every return of its callee: when no argument is a constant, the effects of
  the callee are analysable and do not write the observation name, and its regions are placed and either not
  displaced or read at plain indices, a run of the callee from the caller's state, read in the callee's names
  and regions, that returns the value that the caller's state has for the result of the call makes the
  obligation added at the call hold of that state; and, where the effects of the callee forget nothing, it
  holds of no other.
\<close>

theorem call_obligation_exact:
  assumes "compute_return_summary g p = Returns (Some smry)" "rv = synthetic_retval_name (adapted_name p)"
    and "cfg = adapted_cfg p" "cfg_wf cfg" "cfg_exit cfg = Some exit" "analysable cfg site"
    and "ScalarSym (var_int (rv @ ''$obs'')) \<notin> writes_all (all_effects cfg)"
    and "\<forall>actual \<in> set (get_call_args l i). raw_constant_int l actual = None"
    and "placed (call_regions l fn_name callee local_prefix env i) s"
    and "unmoved (call_regions l fn_name callee local_prefix env i) s \<or> plain_reads (rs_relation smry)"
    and "scalar_of s (var_int (local_name l fn_name i)) = IntV v"
  shows "((\<exists>u. returns cfg exit (cfg_entry cfg)
        (observing rv (callee_view l fn_name env smry callee local_prefix i s)) u \<and> scalar_of u (var_int rv) = IntV v) \<longrightarrow>
      eval_formula s (instantiate_summary l fn_name env smry callee local_prefix i)) \<and>
    (exact_effects cfg \<longrightarrow> eval_formula s (instantiate_summary l fn_name env smry callee local_prefix i) \<longrightarrow>
      (\<exists>u. returns cfg exit (cfg_entry cfg)
        (observing rv (callee_view l fn_name env smry callee local_prefix i s)) u \<and> scalar_of u (var_int rv) = IntV v))"
proof -
  let ?s = "callee_view l fn_name env smry callee local_prefix i s"
  have "rs_retval_name smry = rv"
    using compute_return_summary_Some [OF assms(1)] assms(2,3,5) by blast
  then have "bt_get (call_mapping l fn_name smry i) rv = Some (local_name l fn_name i)"
    by (simp add: call_mapping_def bt_get_insert)
  then have "scalar_of ?s (var_int rv) = IntV v"
    using assms(11) by (simp add: callee_view_def Let_def rename_var_def callee_rename_def var_int_def var_new_def)
  from return_summary_core [OF assms(1-7) this] instantiate_summary_sem [OF assms(8-10)] show ?thesis by blast
qed

text \<open>\<open>r = f(c)\<close> in \<open>h\<close>, for the function \<open>f\<close> that returns 1 if its argument holds and 0 otherwise.\<close>

definition bool_call_module :: llvm where
  "bool_call_module = sample_module\<lparr>raw_name := (\<lambda>i. if i = 1 then Some ''r'' else if i = 20 then Some ''c'' else None)\<rparr>"

lemma bool_call:
  "get_call_args bool_call_module 1 = [20]" "raw_constant_int bool_call_module 20 = None"
  "call_regions bool_call_module ''h'' ''f'' ''h$call0'' Map.empty 1 = []"
  "local_name bool_call_module ''h'' 1 = ''h$%r''"
  by code_simp+

theorem call_obligation_witness:
  "\<exists>smry. compute_return_summary choice_function choice_procedure = Returns (Some smry) \<and>
    eval_formula sample_state (instantiate_summary bool_call_module ''h'' Map.empty smry ''f'' ''h$call0'' 1)"
proof -
  obtain smry where smry: "compute_return_summary choice_function choice_procedure = Returns (Some smry)"
    using choice_summarised by (auto split: outcome.splits option.splits)
  let ?rv = "''f$__retval''"
  let ?s = "observing ?rv (callee_view bool_call_module ''h'' Map.empty smry ''f'' ''h$call0'' 1 sample_state)"
  have rv: "?rv = synthetic_retval_name (adapted_name choice_procedure)" by code_simp
  have "ScalarSym (var_int (?rv @ ''$obs'')) \<notin> writes_all (all_effects choice_cfg)"
    by (auto simp: writes_all_def all_effects_def choice_defs bt_values_def)
  moreover have "placed (call_regions bool_call_module ''h'' ''f'' ''h$call0'' Map.empty 1) sample_state"
    "unmoved (call_regions bool_call_module ''h'' ''f'' ''h$call0'' Map.empty 1) sample_state"
    unfolding bool_call(3) by (simp_all add: placed_def unmoved_def bt_get_def)
  moreover have "\<not> bool_of ?s (var_bool ''f$c'')"
    by (simp add: observing_def callee_view_def sample_state_def Let_def)
  moreover have "\<forall>actual \<in> set (get_call_args bool_call_module 1). raw_constant_int bool_call_module actual = None"
    unfolding bool_call(1) by (simp add: bool_call(2))
  moreover have "scalar_of sample_state (var_int (local_name bool_call_module ''h'' 1)) = IntV 0"
    by (simp add: sample_state_def var_int_def var_new_def)
  moreover have "choice_cfg = adapted_cfg choice_procedure" "cfg_exit choice_cfg = Some 3" "cfg_entry choice_cfg = 0"
    by (simp_all add: choice_procedure_def choice_cfg_def)
  ultimately have "eval_formula sample_state (instantiate_summary bool_call_module ''h'' Map.empty smry ''f'' ''h$call0'' 1)"
    using call_obligation_exact [OF smry rv, where exit = 3 and site = "branch_site 1" and s = sample_state and v = 0
        and l = bool_call_module and i = 1 and fn_name = "''h''" and callee = "''f''" and local_prefix = "''h$call0''"
        and env = Map.empty and cfg = choice_cfg] choice_wf choice_analysable(1) choice_returns [of ?s]
    by force
  with smry show ?thesis by blast
qed

text \<open>
  A constant argument is lost: its formal parameter has been renamed to the name it has at this call
  before the constant is substituted for the original name.
\<close>

definition identity_summary :: return_summary where
  "identity_summary = \<lparr>rs_function = ''f'', rs_formal_parameters = [''f$x''], rs_retval_name = ''f$__retval'',
     rs_relation = FEq (TVar (var_int ''f$__retval'')) (TVar (var_int ''f$x'')), rs_write_effects = [], rs_ptr_writes = []\<rparr>"

lemma constant_argument_lost:
  "instantiate_summary (bool_call_module\<lparr>raw_constant_int := (\<lambda>i. if i = 20 then Some 5 else None)\<rparr>)
     ''h'' Map.empty identity_summary ''f'' ''h$call0'' 1
   = FEq (TVar (var_int ''h$%r'')) (TVar (var_int ''h$call0$x''))"
  by code_simp

end
