(* ===== verification/Adaptation_Correct.thy ===== *)
theory Adaptation_Correct
  imports Adaptation Cfg_Claims Program_Graph_Correct
begin

text \<open>
  The shape of a lowered function (\<open>adapt_with_purity_and_summaries\<close> of \<open>src/cfg/adapter.rs\<close>): its
  graph is the control flow between the visible instructions of the function, with the guards of the
  branches, and joins into a single exit.  The passes after the edges only write effects.
\<close>

section \<open>Loops\<close>

lemma afold_invariant:
  assumes "afold f xs s = aret t" "I s" "\<And>x s t. x \<in> set xs \<Longrightarrow> I s \<Longrightarrow> f x s = aret t \<Longrightarrow> I t"
  shows "I t"
  using assms
proof (induction xs arbitrary: s)
  case (Cons x xs)
  from Cons.prems(1) obtain u where u: "f x s = aret u" "afold f xs u = aret t" by (auto simp: abind_eq_aret)
  have "I u" using Cons.prems(2,3) u(1) by (metis list.set_intros(1))
  then show ?case using Cons.IH [OF u(2)] Cons.prems(3) by (metis list.set_intros(2))
qed simp

lemma ofor_invariant:
  assumes "ofor f xs s = Returns t" "I s" "\<And>x s t. x \<in> set xs \<Longrightarrow> I s \<Longrightarrow> f x s = Returns t \<Longrightarrow> I t"
  shows "I t"
  using assms
proof (induction xs arbitrary: s)
  case (Cons x xs)
  from Cons.prems(1) obtain u where u: "f x s = Returns u" "ofor f xs u = Returns t" by (auto simp: obind_eq_Returns)
  have "I u" using Cons.prems(2,3) u(1) by (metis list.set_intros(1))
  then show ?case using Cons.IH [OF u(2)] Cons.prems(3) by (metis list.set_intros(2))
qed simp

section \<open>Graphs alike but for effects\<close>

text \<open>The frame of a graph is everything but its effects, locations and labels.\<close>

definition edge_shapes :: "abstract_cfg \<Rightarrow> (cfg_node_id \<times> cfg_node_id \<times> formula) set" where
  "edge_shapes g = (\<lambda>e. (edge_source e, edge_target e, edge_guard e)) ` set (all_edges g)"

definition frame :: "abstract_cfg \<Rightarrow> cfg_node_id set \<times> cfg_node_id \<times> cfg_node_id list \<times> cfg_node_id option" where
  "frame g = (set (node_ids g), cfg_entry g, concrete_exits g, cfg_exit g)"

definition alike :: "abstract_cfg \<Rightarrow> abstract_cfg \<Rightarrow> bool" where
  "alike g h \<longleftrightarrow> cfg_wf h \<and> frame h = frame g \<and> edge_shapes h = edge_shapes g"

lemma alike_refl: "cfg_wf g \<Longrightarrow> alike g g"
  by (simp add: alike_def)

lemma alike_trans: "alike g h \<Longrightarrow> alike h k \<Longrightarrow> alike g k"
  by (simp add: alike_def)

lemma alike_wf: "alike g h \<Longrightarrow> cfg_wf h"
  by (simp add: alike_def)

lemma frame_eq: "frame h = frame g \<longleftrightarrow> set (node_ids h) = set (node_ids g) \<and> cfg_entry h = cfg_entry g
    \<and> concrete_exits h = concrete_exits g \<and> cfg_exit h = cfg_exit g"
  by (simp add: frame_def)

lemma graph_edge_shapes: "graph g = (\<lambda>(s, t, _). (s, t)) ` edge_shapes g"
  by (force simp: flow_def edge_shapes_def)

lemma node_mut_alike:
  assumes "alike g h" "node_mut i w h = Inr k" "\<And>n. node_id (w n) = node_id n"
  shows "alike g k"
proof -
  have "cfg_exit k = cfg_exit h" using assms(2) by (auto simp: node_mut_def split: option.splits)
  then show ?thesis using assms(1) node_mut_wf [OF alike_wf [OF assms(1)] assms(2,3)] node_mut_frame [OF assms(2)]
    by (simp add: alike_def frame_eq edge_shapes_def)
qed

lemma node_mut_attempt_alike:
  assumes "alike g h" "\<And>n. node_id (w n) = node_id n"
  shows "alike g (case node_mut i w h of Inl _ \<Rightarrow> h | Inr k \<Rightarrow> k)"
  using assms node_mut_alike [OF assms(1) _ assms(2)] by (simp split: sum.split)

lemma push_effects_id [simp]: "node_id (push_effects es n) = node_id n"
  by (simp add: push_effects_def)

lemma append_edge_effects_alike:
  assumes "alike g h" "append_edge_effects i es h = Inr k"
  shows "alike g k"
proof -
  obtain e where e: "bt_get (cfg_edges h) i = Some e"
    and k: "k = h\<lparr>cfg_edges := bt_insert i (e\<lparr>edge_effects := edge_effects e @ es\<rparr>) (cfg_edges h)\<rparr>"
    using assms(2) by (auto simp: append_edge_effects_def edge_mut_def split: option.splits)
  have wf: "bt_wf (cfg_edges h)" using alike_wf [OF assms(1)] by (simp add: cfg_wf_defs)
  define rest where "rest = {p \<in> set (cfg_edges h). fst p \<noteq> i}"
  have "set (cfg_edges h) = insert (i, e) rest"
    using bt_get_SomeD [OF e] e by (auto simp: rest_def dest: bt_get_mem [OF wf])
  moreover have "set (cfg_edges k) = insert (i, e\<lparr>edge_effects := edge_effects e @ es\<rparr>) rest"
    by (simp add: k set_bt_insert [OF wf] rest_def)
  ultimately have "edge_shapes k = edge_shapes h" by (simp add: edge_shapes_def bt_values_def image_image)
  then show ?thesis using assms append_edge_effects_wf [OF alike_wf [OF assms(1)] assms(2)]
    by (auto simp: alike_def frame_eq k node_ids_def)
qed


lemma add_edge_shape:
  assumes "cfg_wf g" "add_edge s t gd es g = Inr (i, h)"
  shows "cfg_wf h" "frame h = frame g" "edge_shapes h = insert (s, t, gd) (edge_shapes g)"
    "s \<in> set (node_ids g)" "t \<in> set (node_ids g)"
proof -
  have wf: "bt_wf (cfg_edges g)" "\<forall>p \<in> set (cfg_edges g). fst p \<noteq> next_edge g" using assms(1) by (auto simp: cfg_wf_defs)
  then have "{p \<in> set (cfg_edges g). fst p \<noteq> next_edge g} = set (cfg_edges g)" by auto
  with assms(2) wf(1) show "frame h = frame g" "edge_shapes h = insert (s, t, gd) (edge_shapes g)"
    "s \<in> set (node_ids g)" "t \<in> set (node_ids g)"
    by (auto simp: add_edge_Inr frame_eq node_ids_def edge_shapes_def bt_values_def set_bt_insert image_image)
  show "cfg_wf h" by (rule add_edge_wf [OF assms])
qed

section \<open>Nodes\<close>

text \<open>Each instruction of \<open>D\<close> and the first one have a node, and there are no other nodes.\<close>

definition numbered :: "instruction \<Rightarrow> instruction set \<Rightarrow> abstract_cfg \<Rightarrow> node_index \<Rightarrow> bool" where
  "numbered start D cfg nodes \<longleftrightarrow> dom nodes = insert start D \<and> inj_on nodes (dom nodes) \<and>
     nodes start = Some (cfg_entry cfg) \<and> set (node_ids cfg) = ran nodes"

definition node_stage :: "instruction \<Rightarrow> instruction set \<Rightarrow> abstract_cfg \<Rightarrow> node_index \<Rightarrow> bool" where
  "node_stage start D cfg nodes \<longleftrightarrow> cfg_wf cfg \<and> numbered start D cfg nodes \<and> edge_shapes cfg = {} \<and>
     concrete_exits cfg = [] \<and> cfg_exit cfg = None"

lemma numbered_cong:
  "set (node_ids h) = set (node_ids g) \<Longrightarrow> cfg_entry h = cfg_entry g \<Longrightarrow> numbered start D h nodes = numbered start D g nodes"
  by (simp add: numbered_def)

lemma ran_upd_fresh: "nodes i = None \<Longrightarrow> ran (nodes(i \<mapsto> n)) = insert n (ran nodes)"
  by (rule ran_map_upd)

lemma add_node_numbered:
  assumes "numbered start D cfg nodes" "i \<noteq> start" "i \<notin> D" "n \<notin> set (node_ids cfg)"
    and "set (node_ids cfg') = insert n (set (node_ids cfg))" "cfg_entry cfg' = cfg_entry cfg"
  shows "numbered start (insert i D) cfg' (nodes(i \<mapsto> n))"
proof -
  have nodes: "dom nodes = insert start D" "inj_on nodes (dom nodes)" "nodes start = Some (cfg_entry cfg)"
    "set (node_ids cfg) = ran nodes" using assms(1) unfolding numbered_def by blast+
  have none: "nodes i = None" using assms(2,3) nodes(1) by (auto simp: domIff)
  have "Some n \<notin> nodes ` dom nodes" using assms(4) nodes(4) by (auto intro: ranI)
  then have "inj_on (nodes(i \<mapsto> n)) (insert i (dom nodes))"
    using inj_on_fun_updI [OF nodes(2), of "Some n" i] by (auto simp: inj_on_insert)
  with nodes none assms show ?thesis by (simp add: numbered_def ran_upd_fresh insert_commute)
qed

lemma add_node_stage:
  assumes "node_stage start D cfg nodes" "i \<noteq> start" "i \<notin> D" "add_node label tr cfg = (n, cfg')"
  shows "node_stage start (insert i D) cfg' (nodes(i \<mapsto> n))"
proof -
  have wf: "cfg_wf cfg" using assms(1) by (simp add: node_stage_def)
  have "n \<notin> set (node_ids cfg)" using add_node_fresh [OF wf, of label tr] assms(4) by simp
  moreover have "set (node_ids cfg') = insert n (set (node_ids cfg))" "cfg_entry cfg' = cfg_entry cfg"
    "edge_shapes cfg' = edge_shapes cfg" "concrete_exits cfg' = concrete_exits cfg" "cfg_exit cfg' = cfg_exit cfg"
    using assms(4) by (auto simp: add_node_def Let_def node_ids_def edge_shapes_def)
  moreover have "cfg_wf cfg'" using cfg_wf_add_node [OF wf, of label tr] assms(4) by simp
  ultimately show ?thesis using assms(1-3) add_node_numbered [of start D cfg nodes i n cfg'] by (simp add: node_stage_def)
qed

lemma lower_nodes_stage:
  assumes "lower_nodes transfer l g start = aret (cfg, nodes)" "distinct (vertices g)"
  shows "node_stage start (set (vertices g)) cfg nodes"
proof -
  define add where "add = (\<lambda>i (cfg, nodes :: node_index). if i = start then aret (cfg, nodes) else
    abind (transfer i) (\<lambda>tr. let (node, cfg) = add_node (print_value l i) tr cfg in aret (cfg, nodes(i \<mapsto> node))))"
  have step: "node_stage start (insert i D) (fst u) (snd u)"
    if "node_stage start D (fst s) (snd s)" "add i s = aret u" "i \<notin> D" for i s u D
  proof (cases "i = start")
    case True
    then have "u = s" using that(2) by (auto simp: add_def)
    moreover have "numbered start (insert start D) = numbered start D" by (simp add: numbered_def fun_eq_iff)
    ultimately show ?thesis using that(1) True by (simp add: node_stage_def)
  next
    case False
    then show ?thesis using that(2,3) add_node_stage [OF that(1)]
      by (auto simp: add_def abind_eq_aret case_prod_beta Let_def)
  qed
  have "node_stage start (D \<union> set xs) (fst u) (snd u)"
    if "node_stage start D (fst s) (snd s)" "afold add xs s = aret u" "distinct xs" "set xs \<inter> D = {}" for xs s u D
    using that
  proof (induction xs arbitrary: s D)
    case (Cons i xs)
    obtain v where v: "add i s = aret v" "afold add xs v = aret u" using Cons.prems(2) by (auto simp: abind_eq_aret)
    have "node_stage start (insert i D) (fst v) (snd v)" using step [OF Cons.prems(1) v(1)] Cons.prems(4) by simp
    from Cons.IH [OF this v(2)] Cons.prems(3,4) show ?case by auto
  qed simp
  moreover obtain tr where "afold add (vertices g) (set_entry_transfer tr (cfg_new (print_value l start)),
      [start \<mapsto> cfg_entry (set_entry_transfer tr (cfg_new (print_value l start)))]) = aret (cfg, nodes)"
    using assms(1) by (auto simp: lower_nodes_def abind_eq_aret add_def Let_def)
  moreover have "node_stage start {} (set_entry_transfer tr (cfg_new label))
      [start \<mapsto> cfg_entry (set_entry_transfer tr (cfg_new label))]" for tr label
    using set_entry_transfer_wf [OF cfg_wf_new]
    by (auto simp: node_stage_def numbered_def set_entry_transfer_def cfg_new_def bt_get_def node_ids_def bt_keys_def edge_shapes_def bt_values_def)
  ultimately show ?thesis using assms(2) by fastforce
qed

section \<open>Exits and edges\<close>

lemma mark_exit_shape:
  assumes "cfg_wf g" "mark_exit i g = Inr h"
  shows "cfg_wf h" "set (node_ids h) = set (node_ids g)" "cfg_entry h = cfg_entry g" "edge_shapes h = edge_shapes g"
    "set (concrete_exits h) = set (concrete_exits g) \<union> ({i} - {cfg_entry g})" "cfg_exit g = None \<Longrightarrow> cfg_exit h = None"
proof -
  show "cfg_wf h" by (rule mark_exit_wf [OF assms])
  consider "i = cfg_entry g" "h = g" | k where "i \<noteq> cfg_entry g" "node_mut i (\<lambda>n. n\<lparr>node_kind := Exit\<rparr>) g = Inr k"
      "h = k\<lparr>concrete_exits := insort_insert i (concrete_exits k), cfg_exit := None\<rparr>"
    using assms(2) by (auto simp: mark_exit_def rbind_eq_Inr split: if_splits)
  then have "set (node_ids h) = set (node_ids g) \<and> cfg_entry h = cfg_entry g \<and> edge_shapes h = edge_shapes g \<and>
    set (concrete_exits h) = set (concrete_exits g) \<union> ({i} - {cfg_entry g}) \<and> (cfg_exit g = None \<longrightarrow> cfg_exit h = None)"
  proof cases
    case 2
    have "set (node_ids h) = set (node_ids k)" "cfg_entry h = cfg_entry k" "edge_shapes h = edge_shapes k"
      "concrete_exits h = insort_insert i (concrete_exits k)" "cfg_exit h = None"
      by (simp_all add: 2(3) node_ids_def edge_shapes_def)
    moreover have "edge_shapes k = edge_shapes g" using node_mut_frame(1) [OF 2(2)] by (simp add: edge_shapes_def)
    ultimately show ?thesis using node_mut_frame(2-4) [OF 2(2)] 2(1) by (simp add: set_insort_insert)
  qed simp
  then show "set (node_ids h) = set (node_ids g)" "cfg_entry h = cfg_entry g" "edge_shapes h = edge_shapes g"
    "set (concrete_exits h) = set (concrete_exits g) \<union> ({i} - {cfg_entry g})" "cfg_exit g = None \<Longrightarrow> cfg_exit h = None"
    by blast+
qed

definition exit_nodes :: "node_index \<Rightarrow> instruction list \<Rightarrow> cfg_node_id set" where
  "exit_nodes nodes is = {n. \<exists>i \<in> set is. nodes i = Some n}"

definition exits_stage :: "instruction \<Rightarrow> instruction set \<Rightarrow> cfg_node_id set \<Rightarrow> abstract_cfg \<Rightarrow> node_index \<Rightarrow> bool" where
  "exits_stage start D X cfg nodes \<longleftrightarrow> cfg_wf cfg \<and> numbered start D cfg nodes \<and> edge_shapes cfg = {} \<and>
     set (concrete_exits cfg) = X - {cfg_entry cfg} \<and> cfg_exit cfg = None"

lemma mark_exits_stage:
  assumes "node_stage start D cfg nodes" "mark_exits g nodes cfg = aret cfg'"
  shows "exits_stage start D (exit_nodes nodes (graph_end g)) cfg' nodes"
proof -
  have "exits_stage start D (X \<union> exit_nodes nodes is) cfg' nodes"
    if "exits_stage start D X cfg nodes" "afold (\<lambda>exit cfg. case nodes exit of
        None \<Rightarrow> aret cfg | Some node \<Rightarrow> of_cfg (mark_exit node cfg)) is cfg = aret cfg'" for X "is" cfg
    using that
  proof (induction "is" arbitrary: X cfg)
    case (Cons i "is")
    show ?case
    proof (cases "nodes i")
      case None
      then have "exit_nodes nodes (i # is) = exit_nodes nodes is" by (auto simp: exit_nodes_def)
      with None Cons show ?thesis by simp
    next
      case (Some n)
      then obtain cfg1 where c: "mark_exit n cfg = Inr cfg1"
        "afold (\<lambda>exit cfg. case nodes exit of None \<Rightarrow> aret cfg | Some node \<Rightarrow> of_cfg (mark_exit node cfg)) is cfg1 = aret cfg'"
        using Cons.prems(2) by (auto simp: abind_eq_aret)
      have "exits_stage start D (insert n X) cfg1 nodes"
        using Cons.prems(1) mark_exit_shape [OF _ c(1)] numbered_cong [of cfg1 cfg] by (auto simp: exits_stage_def)
      moreover have "exit_nodes nodes (i # is) = insert n (exit_nodes nodes is)" using Some by (auto simp: exit_nodes_def)
      ultimately show ?thesis using Cons.IH [OF _ c(2)] by fastforce
    qed
  qed (simp add: exit_nodes_def)
  moreover have "exits_stage start D {} cfg nodes" using assms(1) by (simp add: exits_stage_def node_stage_def)
  ultimately show ?thesis using assms(2) by (fastforce simp: mark_exits_def)
qed

text \<open>The edges that the arcs \<open>A\<close> become.\<close>

definition arc_shapes ::
  "llvm \<Rightarrow> string \<Rightarrow> node_index \<Rightarrow> (instruction \<times> instruction) set \<Rightarrow> (cfg_node_id \<times> cfg_node_id \<times> formula) set" where
  "arc_shapes l name nodes A = {(s, t, gd). \<exists>(u, v) \<in> A. nodes u = Some s \<and> nodes v = Some t \<and>
     lower_edge_guard l name u v = aret gd}"

definition arcs_lowered :: "llvm \<Rightarrow> string \<Rightarrow> node_index \<Rightarrow> (instruction \<times> instruction) set \<Rightarrow> bool" where
  "arcs_lowered l name nodes A \<longleftrightarrow> (\<forall>(u, v) \<in> A. u \<in> dom nodes \<and> v \<in> dom nodes \<and> (\<exists>gd. lower_edge_guard l name u v = aret gd))"

lemma lower_edges_shape:
  assumes "lower_edges l g nodes cfg = aret (cfg', edges)" "cfg_wf cfg" "edge_shapes cfg = {}"
  shows "cfg_wf cfg'" "frame cfg' = frame cfg"
    "edge_shapes cfg' = arc_shapes l (graph_name g) nodes (set (graph_pairs g))"
    "arcs_lowered l (graph_name g) nodes (set (graph_pairs g))"
proof -
  define f where "f = (\<lambda>(source, target) (cfg, edges :: edge_index).
    abind (of_option MissingStart (nodes source)) (\<lambda>source_node.
    abind (of_option MissingStart (nodes target)) (\<lambda>target_node.
    abind (lower_edge_guard l (graph_name g) source target) (\<lambda>guard.
    abind (of_cfg (add_edge source_node target_node guard [] cfg)) (\<lambda>(i, cfg).
      aret (cfg, edges((source, target) \<mapsto> i)))))))"
  have "cfg_wf (fst t) \<and> frame (fst t) = frame (fst s) \<and> arcs_lowered l (graph_name g) nodes (set ps) \<and>
      edge_shapes (fst t) = edge_shapes (fst s) \<union> arc_shapes l (graph_name g) nodes (set ps)"
    if "afold f ps s = aret t" "cfg_wf (fst s)" for ps s t
    using that
  proof (induction ps arbitrary: s)
    case (Cons p ps)
    obtain u v where p: "p = (u, v)" by fastforce
    obtain c es where s: "s = (c, es)" by fastforce
    from Cons.prems(1) obtain m where m: "f p s = aret m" "afold f ps m = aret t" by (auto simp: abind_eq_aret)
    then obtain a b gd i where e: "nodes u = Some a" "nodes v = Some b" "lower_edge_guard l (graph_name g) u v = aret gd"
      "add_edge a b gd [] c = Inr (i, fst m)"
      by (auto simp: f_def p s abind_eq_aret)
    note new = add_edge_shape [OF _ e(4)]
    have "arc_shapes l (graph_name g) nodes (set (p # ps)) = insert (a, b, gd) (arc_shapes l (graph_name g) nodes (set ps))"
      using e(1-3) by (auto simp: arc_shapes_def p)
    moreover have "arcs_lowered l (graph_name g) nodes (set (p # ps)) = arcs_lowered l (graph_name g) nodes (set ps)"
      using e(1-3) by (auto simp: arcs_lowered_def p)
    ultimately show ?case using Cons.IH [OF m(2)] new Cons.prems(2) by (auto simp: s)
  qed (auto simp: arc_shapes_def arcs_lowered_def)
  moreover have "afold f (graph_pairs g) (cfg, Map.empty) = aret (cfg', edges)"
    using assms(1) by (simp add: lower_edges_def f_def)
  ultimately show "cfg_wf cfg'" "frame cfg' = frame cfg"
    "edge_shapes cfg' = arc_shapes l (graph_name g) nodes (set (graph_pairs g))"
    "arcs_lowered l (graph_name g) nodes (set (graph_pairs g))"
    using assms(2,3) by fastforce+
qed

section \<open>Effects, sites and the single exit\<close>

lemma lower_phi_alike:
  assumes "cfg_wf cfg" "lower_phi_edge_effects oc l name g edges cfg = aret cfg'"
  shows "alike cfg cfg'"
proof -
  have incoming: "alike cfg k" if "alike cfg h" "lower_phi_incoming oc l name g edges i target p h = aret k" for h k i target p
    using that(2) append_edge_effects_alike [OF that(1)] by (cases p) (auto simp: lower_phi_incoming_def abind_eq_aret)
  have "alike cfg k" if "alike cfg h"
    "afold (lower_phi_incoming oc l name g edges i target) ps h = aret k" for h k i target ps
    by (rule afold_invariant [where I = "alike cfg", OF that(2,1)]) (rule incoming)
  then show ?thesis
    using assms by (intro afold_invariant [OF assms(2) [unfolded lower_phi_edge_effects_def], of "alike cfg"])
      (auto simp: alike_refl abind_eq_aret split: if_splits)
qed

lemma lower_assumes_alike:
  assumes "cfg_wf cfg" "lower_assumes l name g nodes cfg = aret cfg'"
  shows "alike cfg cfg'"
proof -
  have "alike cfg k" if h: "alike cfg h" and k: "lower_assume l name nodes site h = aret k" for h k site
  proof -
    obtain node es where "k = (case node_mut node (push_effects es) h of Inl _ \<Rightarrow> h | Inr k \<Rightarrow> k)"
      using k by (auto simp: lower_assume_def abind_eq_aret)
    with node_mut_attempt_alike [OF h] show ?thesis by simp
  qed
  with assms show ?thesis by (auto simp: lower_assumes_def alike_refl intro: afold_invariant)
qed

lemma choose_assert_node_ran: "choose_assert_node site nodes = Some n \<Longrightarrow> n \<in> ran nodes"
  by (auto simp: choose_assert_node_def or_else_def node_at_def intro: ranI split: option.splits)

lemma lower_assertions_sites:
  assumes "lower_assertions l name g nodes = aret sites"
  shows "length sites = length (asserts g)" "site_node ` set sites \<subseteq> ran nodes"
proof -
  have step: "length u = Suc (length s) \<and> site_node ` set u \<subseteq> ran nodes \<union> site_node ` set s"
    if lowered: "lower_assertion l name nodes p s = aret u" for p s u
  proof -
    obtain site a where "choose_assert_node site nodes = Some (site_node a)" "u = s @ [a]"
      using lowered by (cases p) (clarsimp simp: lower_assertion_def abind_eq_aret, metis (no_types) assertion_site.select_convs(2))
    moreover from this have "site_node a \<in> ran nodes" by (intro choose_assert_node_ran)
    ultimately show ?thesis by auto
  qed
  have "length u = length s + length ps \<and> site_node ` set u \<subseteq> ran nodes \<union> site_node ` set s"
    if "afold (lower_assertion l name nodes) ps s = aret u" for ps s u
    using that
  proof (induction ps arbitrary: s)
    case (Cons p ps)
    from Cons.prems obtain v where v: "lower_assertion l name nodes p s = aret v"
      "afold (lower_assertion l name nodes) ps v = aret u" by (auto simp: abind_eq_aret)
    note s = step [OF v(1)] and i = Cons.IH [OF v(2)]
    have "site_node ` set u \<subseteq> ran nodes \<union> site_node ` set s" using s i by blast
    with s i show ?case by simp
  qed simp
  from this [OF assms [unfolded lower_assertions_def]]
  show "length sites = length (asserts g)" "site_node ` set sites \<subseteq> ran nodes" by simp_all
qed

lemma join_exits_shape:
  assumes "rfold (join_exit x) cs g = Inr h" "cfg_wf g"
  shows "cfg_wf h \<and> frame h = frame g \<and> edge_shapes h = edge_shapes g \<union> (\<lambda>c. (c, x, FTrue)) ` set cs"
  using assms
proof (induction cs arbitrary: g)
  case (Cons c cs)
  then obtain i k where k: "add_edge c x FTrue [] g = Inr (i, k)" "rfold (join_exit x) cs k = Inr h"
    by (auto simp: rbind_eq_Inr)
  from add_edge_shape [OF Cons.prems(2) k(1)] Cons.IH [OF k(2)] show ?case by auto
qed simp

lemma single_exit_shape:
  assumes "cfg_wf g" "cfg_exit g = None" "ensure_single_exit g = Inr (x, h)"
  shows "cfg_wf h" "cfg_exit h = Some x" "set (node_ids h) = insert x (set (node_ids g))" "cfg_entry h = cfg_entry g"
    "concrete_exits h = concrete_exits g" "edge_shapes h = edge_shapes g \<union> (\<lambda>c. (c, x, FTrue)) ` (set (concrete_exits g) - {x})"
    "x \<notin> set (node_ids g) \<or> concrete_exits g = [x]"
proof -
  show "cfg_wf h" by (rule ensure_single_exit_wf [OF assms(1,3)])
  have "cfg_exit h = Some x \<and> set (node_ids h) = insert x (set (node_ids g)) \<and> cfg_entry h = cfg_entry g \<and>
    concrete_exits h = concrete_exits g \<and>
    edge_shapes h = edge_shapes g \<union> (\<lambda>c. (c, x, FTrue)) ` (set (concrete_exits g) - {x}) \<and>
    (x \<notin> set (node_ids g) \<or> concrete_exits g = [x])"
  proof (cases "\<exists>a. concrete_exits g = [a]")
    case True
    then have "concrete_exits g = [x]" "h = g\<lparr>cfg_exit := Some x\<rparr>" using assms(2,3) by (auto simp: ensure_single_exit_def)
    moreover from this assms(1) have "x \<in> set (node_ids g)" by (simp add: cfg_wf_defs)
    ultimately show ?thesis by (auto simp: node_ids_def edge_shapes_def)
  next
    case False
    then obtain a b cs where "concrete_exits g = a # b # cs" using assms(2,3)
      by (auto simp: ensure_single_exit_def split: list.splits)
    then obtain n g1 g2 k where s: "add_node ''__synthetic_exit'' transfer_identity g = (x, g1)"
      "node_mut x (\<lambda>n. n\<lparr>node_kind := SyntheticExit\<rparr>) g1 = Inr g2"
      "rfold (join_exit x) (concrete_exits g) g2 = Inr k" "h = k\<lparr>cfg_exit := Some x\<rparr>"
      using assms(2,3) by (auto simp: ensure_single_exit_def rbind_eq_Inr split: prod.splits)
    have wf1: "cfg_wf g1" and fresh: "x \<notin> set (node_ids g)"
      using cfg_wf_add_node [OF assms(1)] add_node_fresh [OF assms(1)] s(1) by (metis fst_conv snd_conv)+
    have g1: "set (node_ids g1) = insert x (set (node_ids g))" "cfg_entry g1 = cfg_entry g"
      "concrete_exits g1 = concrete_exits g" "edge_shapes g1 = edge_shapes g"
      using s(1) by (auto simp: add_node_def Let_def node_ids_def edge_shapes_def)
    have g2: "alike g1 g2" by (rule node_mut_alike [OF alike_refl [OF wf1] s(2)]) simp
    have k: "frame k = frame g2" "edge_shapes k = edge_shapes g2 \<union> (\<lambda>c. (c, x, FTrue)) ` set (concrete_exits g)"
      using join_exits_shape [OF s(3) alike_wf [OF g2]] by simp_all
    have "set (concrete_exits g) \<subseteq> set (node_ids g)" using assms(1) by (auto simp: cfg_wf_defs)
    then have "set (concrete_exits g) - {x} = set (concrete_exits g)" using fresh by auto
    moreover have "node_ids h = node_ids k" "edge_shapes h = edge_shapes k" "cfg_entry h = cfg_entry k"
      "concrete_exits h = concrete_exits k" "cfg_exit h = Some x"
      by (simp_all add: s(4) node_ids_def edge_shapes_def)
    ultimately show ?thesis using k g2 g1 fresh by (simp add: alike_def frame_eq)
  qed
  then show "cfg_exit h = Some x" "set (node_ids h) = insert x (set (node_ids g))" "cfg_entry h = cfg_entry g"
    "concrete_exits h = concrete_exits g" "edge_shapes h = edge_shapes g \<union> (\<lambda>c. (c, x, FTrue)) ` (set (concrete_exits g) - {x})"
    "x \<notin> set (node_ids g) \<or> concrete_exits g = [x]" by blast+
qed

section \<open>The lowered graph\<close>

lemma graph_pairs_arcs:
  assumes "graph_wf g" "finite (arcs g)"
  shows "set (graph_pairs g) = arcs g"
proof -
  have edges: "(u, n) \<in> set (graph_edges g) \<longleftrightarrow> bt_get (graph_edges g) u = Some n" for u n
    using assms(1) by (auto simp: graph_wf_def dest: bt_get_SomeD bt_get_mem)
  have "finite (gn_successors n)" if "bt_get (graph_edges g) u = Some n" for u n
  proof (rule finite_subset)
    show "gn_successors n \<subseteq> snd ` arcs g" using that by (force simp: arcs_def)
  qed (use assms(2) in simp)
  moreover have "(u, v) \<in> set (graph_pairs g) \<longleftrightarrow>
      (\<exists>n. (u, n) \<in> set (graph_edges g) \<and> v \<in> set (sorted_list_of_set (gn_successors n)))" for u v
    by (force simp: graph_pairs_def)
  ultimately show ?thesis by (auto simp: arcs_def edges)
qed

text \<open>What the graph of a function is lowered to; \<open>nodes\<close> numbers the instructions.\<close>

definition lowers_to :: "llvm \<Rightarrow> function_graph \<Rightarrow> instruction \<Rightarrow> abstract_cfg \<Rightarrow> node_index \<Rightarrow> bool" where
  "lowers_to l g start cfg nodes \<longleftrightarrow> cfg_wf cfg \<and>
     dom nodes = insert start (set (vertices g)) \<and> inj_on nodes (dom nodes) \<and> nodes start = Some (cfg_entry cfg) \<and>
     arcs_lowered l (graph_name g) nodes (arcs g) \<and>
     set (concrete_exits cfg) = exit_nodes nodes (graph_end g) - {cfg_entry cfg} \<and>
     (\<exists>x. cfg_exit cfg = Some x \<and> set (node_ids cfg) = insert x (ran nodes) \<and>
        (x \<notin> ran nodes \<or> concrete_exits cfg = [x]) \<and>
        edge_shapes cfg = arc_shapes l (graph_name g) nodes (arcs g)
          \<union> (\<lambda>c. (c, x, FTrue)) ` (set (concrete_exits cfg) - {x}))"

lemma lowers_toE:
  assumes "lowers_to l g start cfg nodes"
  obtains x where "cfg_wf cfg" "dom nodes = insert start (set (vertices g))" "inj_on nodes (dom nodes)"
    "nodes start = Some (cfg_entry cfg)" "arcs_lowered l (graph_name g) nodes (arcs g)"
    "set (concrete_exits cfg) = exit_nodes nodes (graph_end g) - {cfg_entry cfg}"
    "cfg_exit cfg = Some x" "set (node_ids cfg) = insert x (ran nodes)" "x \<notin> ran nodes \<or> concrete_exits cfg = [x]"
    "edge_shapes cfg = arc_shapes l (graph_name g) nodes (arcs g) \<union> (\<lambda>c. (c, x, FTrue)) ` (set (concrete_exits cfg) - {x})"
  using assms unfolding lowers_to_def by (elim conjE exE) (rule that; assumption)

lemma lowers_to_alike:
  assumes "lowers_to l g start cfg nodes" "alike cfg cfg'"
  shows "lowers_to l g start cfg' nodes"
proof -
  have same: "set (node_ids cfg') = set (node_ids cfg)" "cfg_entry cfg' = cfg_entry cfg"
    "concrete_exits cfg' = concrete_exits cfg" "cfg_exit cfg' = cfg_exit cfg" "edge_shapes cfg' = edge_shapes cfg"
    using assms(2) by (simp_all add: alike_def frame_eq)
  from assms(1) alike_wf [OF assms(2)] show ?thesis unfolding lowers_to_def same by (elim conjE) (intro conjI; assumption)
qed

lemma lower_graph_shape:
  assumes "lower_graph oc l g memory_pure start = aret (cfg, nodes, sites)" "graph_wf g" "finite (arcs g)"
  shows "lowers_to l g start cfg nodes" "length sites = length (asserts g)" "site_node ` set sites \<subseteq> ran nodes"
proof -
  obtain transfer cfg0 cfg1 cfg2 edges cfg3 cfg4 x where
    s: "lower_nodes transfer l g start = aret (cfg0, nodes)" "mark_exits g nodes cfg0 = aret cfg1"
    "lower_edges l g nodes cfg1 = aret (cfg2, edges)" "lower_phi_edge_effects oc l (graph_name g) g edges cfg2 = aret cfg3"
    "lower_assertions l (graph_name g) g nodes = aret sites" "lower_assumes l (graph_name g) g nodes cfg3 = aret cfg4"
    "ensure_single_exit cfg4 = Inr (x, cfg)"
    using assms(1) by (auto simp: lower_graph_def Let_def abind_eq_aret)
  show "length sites = length (asserts g)" "site_node ` set sites \<subseteq> ran nodes" by (rule lower_assertions_sites [OF s(5)])+
  have "distinct (vertices g)" using assms(2) by (simp add: graph_wf_def)
  note exits = mark_exits_stage [OF lower_nodes_stage [OF s(1) this] s(2)]
  then have one: "cfg_wf cfg1" "edge_shapes cfg1 = {}" "numbered start (set (vertices g)) cfg1 nodes"
    "set (concrete_exits cfg1) = exit_nodes nodes (graph_end g) - {cfg_entry cfg1}" "cfg_exit cfg1 = None"
    by (simp_all add: exits_stage_def)
  note edges = lower_edges_shape [OF s(3) one(1,2), unfolded graph_pairs_arcs [OF assms(2,3)]]
  have "alike cfg2 cfg3" by (rule lower_phi_alike [OF edges(1) s(4)])
  moreover from this have "alike cfg3 cfg4" by (intro lower_assumes_alike [OF _ s(6)] alike_wf)
  ultimately have four: "alike cfg2 cfg4" by (rule alike_trans)
  have same: "set (node_ids cfg4) = set (node_ids cfg1)" "cfg_entry cfg4 = cfg_entry cfg1"
    "concrete_exits cfg4 = concrete_exits cfg1" "cfg_exit cfg4 = None"
    "edge_shapes cfg4 = arc_shapes l (graph_name g) nodes (arcs g)"
    using four edges(2,3) one(5) by (simp_all add: alike_def frame_eq)
  note single = single_exit_shape [OF alike_wf [OF four] same(4) s(7)]
  have nodes: "dom nodes = insert start (set (vertices g))" "inj_on nodes (dom nodes)" "nodes start = Some (cfg_entry cfg1)"
    "set (node_ids cfg1) = ran nodes" using one(3) unfolding numbered_def by blast+
  show "lowers_to l g start cfg nodes"
    unfolding lowers_to_def single same using nodes edges(4) one(4) single(1,7) same by simp
qed

section \<open>The passes over memory and calls\<close>

lemma resolve_memory_alike:
  assumes "cfg_wf cfg" "resolve_memory_effects oc l g name alias flat reg index cfg = Returns (cfg', st)"
  shows "alike cfg cfg'"
proof -
  have "alike cfg (fst u)" if s: "alike cfg (fst s)" and u: "rewrite_node oc l name alias reg index i s = Returns u" for i s u
  proof (cases "cfg_node (fst s) i")
    case (Inl e)
    with s u show ?thesis by (simp add: rewrite_node_def case_prod_beta)
  next
    case (Inr n)
    with u obtain es where
      "fst u = (case node_mut i (\<lambda>n. n\<lparr>node_transfer := transfer_fn_new es\<rparr>) (fst s) of Inl _ \<Rightarrow> fst s | Inr k \<Rightarrow> k)"
      by (auto simp: rewrite_node_def case_prod_beta obind_eq_Returns)
    with node_mut_attempt_alike [OF s] show ?thesis by simp
  qed
  moreover obtain order st0 where "ofor (rewrite_node oc l name alias reg index) order (cfg, st0) = Returns (cfg', st)"
    using assms(2) by (auto simp: resolve_memory_effects_def obind_eq_Returns split: option.splits)
  ultimately have "alike cfg (fst (cfg', st))" using alike_refl [OF assms(1)] by (elim ofor_invariant) auto
  then show ?thesis by simp
qed

lemma apply_summaries_alike:
  assumes "cfg_wf cfg"
  shows "alike cfg (fst (apply_pending_return_summaries l g nodes index name env (cfg, reg)))"
proof -
  have "alike cfg (fst (apply_summary l name env call s))" if "alike cfg (fst s)" for call s
    using that node_mut_attempt_alike [OF that] by (simp add: apply_summary_def case_prod_beta Let_def split: option.split)
  then have "alike cfg (fst (fold (apply_summary l name env) calls s))" if "alike cfg (fst s)" for calls s
    using that by (induction calls arbitrary: s) auto
  then show ?thesis using alike_refl [OF assms] by (simp add: apply_pending_return_summaries_def)
qed

lemma apply_memcpy_alike:
  assumes "cfg_wf cfg" "apply_pending_memcpy_effects l g nodes name env cfg = aret cfg'"
  shows "alike cfg cfg'"
  by (rule afold_invariant [OF assms(2) [unfolded apply_pending_memcpy_effects_def], of "alike cfg"])
    (auto simp: alike_refl [OF assms(1)] Let_def split: option.splits if_splits elim: node_mut_alike)

lemma adapted_lowers:
  assumes "adapt_with_purity_and_summaries oc hs l g memory_pure reg alias = Returns (Inr (p, reg'))"
    and "graph_wf g" "finite (arcs g)" "graph_start g = Some start"
  shows "lowers_to l g start (adapted_cfg p) (instruction_nodes p)"
    "length (adapted_assertions p) = length (asserts g)"
    "site_node ` set (adapted_assertions p) \<subseteq> ran (instruction_nodes p)"
proof -
  obtain flat cfg0 cfg1 st where
    s: "lower_graph oc l g memory_pure start = aret (cfg0, instruction_nodes p, adapted_assertions p)"
    "resolve_memory_effects oc l g (graph_name g) alias flat reg (index_node (start # vertices g) (instruction_nodes p)) cfg0
      = Returns (cfg1, st)"
    "apply_pending_memcpy_effects l g (instruction_nodes p) (graph_name g) (r_env st)
      (fst (apply_pending_return_summaries l g (instruction_nodes p)
        (index_node (start # vertices g) (instruction_nodes p)) (graph_name g) (r_env st) (cfg1, reg)))
      = aret (adapted_cfg p)"
    using assms(1,4) by (auto simp: adapt_with_purity_and_summaries_def abind_eq_aret obind_eq_Returns Let_def case_prod_beta)
  note low = lower_graph_shape [OF s(1) assms(2,3)]
  then show "length (adapted_assertions p) = length (asserts g)"
    "site_node ` set (adapted_assertions p) \<subseteq> ran (instruction_nodes p)" by blast+
  have "cfg_wf cfg0" using low(1) by (simp add: lowers_to_def)
  then have one: "alike cfg0 cfg1" using s(2) by (rule resolve_memory_alike)
  note two = apply_summaries_alike [OF alike_wf [OF one]]
  note three = apply_memcpy_alike [OF alike_wf [OF two] s(3)]
  show "lowers_to l g start (adapted_cfg p) (instruction_nodes p)"
    using low(1) by (rule lowers_to_alike) (rule alike_trans [OF alike_trans [OF one two] three])
qed

section \<open>Cycles\<close>

lemma lowers_to_graph:
  assumes "lowers_to l g start cfg nodes" "cfg_exit cfg = Some x"
  shows "graph cfg = {(s, t). \<exists>(u, v) \<in> arcs g. nodes u = Some s \<and> nodes v = Some t}
    \<union> (\<lambda>c. (c, x)) ` (set (concrete_exits cfg) - {x})"
proof -
  have shapes: "edge_shapes cfg = arc_shapes l (graph_name g) nodes (arcs g) \<union> (\<lambda>c. (c, x, FTrue)) ` (set (concrete_exits cfg) - {x})"
    and low: "arcs_lowered l (graph_name g) nodes (arcs g)"
    using lowers_toE [OF assms(1)] assms(2) by (metis option.inject)+
  have "(s, t) \<in> (\<lambda>(s, t, _). (s, t)) ` arc_shapes l (graph_name g) nodes (arcs g)
      \<longleftrightarrow> (\<exists>(u, v) \<in> arcs g. nodes u = Some s \<and> nodes v = Some t)" for s t
    using low by (fastforce simp: arc_shapes_def arcs_lowered_def image_iff)
  then have "(\<lambda>(s, t, _). (s, t)) ` arc_shapes l (graph_name g) nodes (arcs g)
      = {(s, t). \<exists>(u, v) \<in> arcs g. nodes u = Some s \<and> nodes v = Some t}"
    by (simp add: set_eq_iff split_paired_All)
  then show ?thesis by (simp add: graph_edge_shapes shapes image_Un image_image)
qed

lemma acyclic_injected:
  assumes "finite A" "acyclic A" "inj_on nodes (dom nodes)"
  shows "wf {(s, t). \<exists>(u, v) \<in> A. nodes u = Some s \<and> nodes v = Some t}"
proof -
  define inst where "inst = (\<lambda>n. THE i. nodes i = Some n)"
  have "inst n = i" if "nodes i = Some n" for i n
    using that assms(3) unfolding inst_def by (intro the_equality) (assumption, metis domI inj_onD)
  then have "{(s, t). \<exists>(u, v) \<in> A. nodes u = Some s \<and> nodes v = Some t} \<subseteq> inv_image A inst" by auto
  moreover have "wf (inv_image A inst)" using assms(1,2) by (simp add: wf_inv_image finite_acyclic_wf)
  ultimately show ?thesis using wf_subset by blast
qed

lemma lowers_to_acyclic:
  assumes "lowers_to l g start cfg nodes" "finite (arcs g)" "acyclic (arcs g)"
  shows "acyclic (graph cfg)"
proof -
  from assms(1) obtain x where inj: "inj_on nodes (dom nodes)"
    and x: "cfg_exit cfg = Some x" "x \<notin> ran nodes \<or> concrete_exits cfg = [x]" by (rule lowers_toE)
  let ?E = "{(s, t). \<exists>(u, v) \<in> arcs g. nodes u = Some s \<and> nodes v = Some t}"
  let ?J = "(\<lambda>c. (c, x)) ` (set (concrete_exits cfg) - {x})"
  have "wf ?E" by (rule acyclic_injected [OF assms(2,3) inj])
  moreover have "?J \<subseteq> measure (\<lambda>n. if n = x then 1 else 0 :: nat)" by (auto split: if_splits)
  then have "wf ?J" using wf_subset wf_measure by blast
  moreover have "Domain ?E \<inter> Range ?J = {}" using x(2) by (auto intro: ranI)
  ultimately have "wf (?E \<union> ?J)" by (rule wf_Un)
  then show ?thesis unfolding lowers_to_graph [OF assms(1) x(1)] by (rule wf_acyclic)
qed

section \<open>From the module\<close>

lemma built_graph_shape:
  assumes "function_graph_new hash_order l f layout = Inr g" "\<And>ks. set (hash_order ks) = set ks"
  shows "graph_wf g" "arcs g = control_flow l f" "finite (arcs g)" "graph_name g = raw_function_name l f"
    "set (vertices g) = (\<Union>b \<in> set (raw_blocks l f). set (visible_of l b))"
    "asserts g = concat (map (block_asserts l) (raw_blocks l f))"
    "graph_start g = first_of (concat (map (visible_of l) (raw_blocks l f)))"
    "graph_end g = filter (raw_is_return l) (concat (map (visible_of l) (raw_blocks l f)))"
proof -
  let ?X = "\<Union>b \<in> set (raw_blocks l f). set (visible_of l b)"
  have "raw_blocks l f \<noteq> []" using assms(1) by (auto simp: function_graph_new_def)
  from function_graph_built [OF this assms(2), of layout] assms(1) obtain u where u: "grown (control_flow l f) u g"
    "vertices g = vertices u" "passed l (concat (map (visible_of l) (raw_blocks l f))) (empty_graph l f layout) u"
    "asserts u = concat (map (block_asserts l) (raw_blocks l f))"
    "graph_start u = first_of (concat (map (visible_of l) (raw_blocks l f)))" "graph_name u = raw_function_name l f" by auto
  have frame: "g = u\<lparr>vertices := vertices g, graph_edges := graph_edges g\<rparr>" using u(1) by (simp add: grown_def)
  have same: "graph_end g = graph_end u" "graph_start g = graph_start u" "asserts g = asserts u" "graph_name g = graph_name u"
    by (subst frame, simp)+
  then show "asserts g = concat (map (block_asserts l) (raw_blocks l f))" "graph_name g = raw_function_name l f"
    "graph_start g = first_of (concat (map (visible_of l) (raw_blocks l f)))" by (simp_all only: u(4-6))
  have "vertices u = foldl push_new [] (concat (map (visible_of l) (raw_blocks l f)))" "arcs u = {}"
    and ends: "graph_end u = filter (raw_is_return l) (concat (map (visible_of l) (raw_blocks l f)))"
    using u(3) empty_graph_wf by (simp_all add: passed_def) (simp_all add: empty_graph_def Let_def)
  moreover show "graph_end g = filter (raw_is_return l) (concat (map (visible_of l) (raw_blocks l f)))"
    unfolding same ends ..
  moreover have "graph_wf g \<and> arcs g = arcs u \<union> control_flow l f" using u(1) unfolding grown_def by blast
  ultimately show "graph_wf g" "arcs g = control_flow l f" "set (vertices g) = ?X" unfolding u(2) by simp_all
  have "finite (fst ` control_flow l f \<union> snd ` control_flow l f)" by (rule finite_subset [OF control_flow_vertices]) simp
  then have "finite (control_flow l f)" by (auto intro: finite_subset [OF subset_fst_snd])
  then show "finite (arcs g)" using \<open>arcs g = control_flow l f\<close> by simp
qed

text \<open>
  C6: the graph that is analysed is the control flow of the function.  When a function of the module is
  lowered, its visible instructions and the nodes correspond one to one, but for a synthetic exit; the
  edges are the control flow between visible instructions with the guards of their branches, and
  unguarded joins of the other exits into the single exit; the exits are the returns, each assertion
  sits at an instruction, and the graph has no cycle when the function has none.
\<close>

theorem lowered_graph_correct:
  assumes "function_graph_new block_order l f layout = Inr g" and "\<And>ks. set (block_order ks) = set ks"
    and "adapt_with_purity_and_summaries oc hs l g memory_pure reg alias = Returns (Inr (p, reg'))"
  defines "cfg \<equiv> adapted_cfg p" and "nodes \<equiv> instruction_nodes p"
    and "shown \<equiv> concat (map (visible_of l) (raw_blocks l f))"
  shows "cfg_wf cfg \<and> dom nodes = set shown \<and> inj_on nodes (dom nodes) \<and> nodes (hd shown) = Some (cfg_entry cfg)
    \<and> set (concrete_exits cfg) = exit_nodes nodes (filter (raw_is_return l) shown) - {cfg_entry cfg}
    \<and> (\<exists>x. cfg_exit cfg = Some x \<and> set (node_ids cfg) = insert x (ran nodes)
        \<and> (x \<notin> ran nodes \<or> concrete_exits cfg = [x])
        \<and> edge_shapes cfg = arc_shapes l (raw_function_name l f) nodes (control_flow l f)
            \<union> (\<lambda>c. (c, x, FTrue)) ` (set (concrete_exits cfg) - {x}))
    \<and> length (adapted_assertions p) = length (concat (map (block_asserts l) (raw_blocks l f)))
    \<and> site_node ` set (adapted_assertions p) \<subseteq> ran nodes
    \<and> (acyclic (control_flow l f) \<longrightarrow> acyclic (graph cfg))"
proof -
  note built = built_graph_shape [OF assms(1,2)]
  obtain start where start: "graph_start g = Some start"
    using assms(3) by (auto simp: adapt_with_purity_and_summaries_def split: option.splits)
  then have hd: "start = hd shown" "insert start (set shown) = set shown"
    using built(7) [folded shown_def] by (auto simp: first_of_def split: list.splits)
  note low = adapted_lowers [OF assms(3) built(1,3) start, folded cfg_def nodes_def]
  have "acyclic (control_flow l f) \<longrightarrow> acyclic (graph cfg)" using lowers_to_acyclic [OF low(1) built(3)] built(2) by simp
  moreover have "insert start (set (vertices g)) = set shown" using built(5) hd(2) by (simp add: shown_def)
  moreover note low(1) [unfolded lowers_to_def this built(2,4,8), folded shown_def, unfolded hd(1)]
  ultimately show ?thesis using low(2) [unfolded built(6)] low(3) by (elim conjE) (intro conjI; assumption)
qed

text \<open>\<open>main(c): br c, 1, 2; 1: may_assert(c); br 2; 2: ret\<close>\<close>

definition checked_module :: llvm where
  "checked_module = sample_module\<lparr>
     raw_opcode := (\<lambda>i. if i = 1 then OpCall else if i = 2 \<or> i = 3 then OpBr else if i = 8 then OpRet else OpUnknown),
     raw_type := (\<lambda>i. if i = 20 then Some 0 else Some 1), raw_kind := (\<lambda>t. if t = 0 then KInteger 1 else KVoid),
     raw_is_branch := (\<lambda>i. i \<in> {2, 3}), raw_is_terminator := (\<lambda>i. i \<in> {2, 3, 8}),
     raw_condition := (\<lambda>i. if i = 2 then Some 20 else None), raw_params := (\<lambda>_. [Some 20]),
     raw_parent := (\<lambda>i. Some (if i = 2 then 0 else if i = 8 then 2 else 1)),
     raw_successors := (\<lambda>i. if i = 2 then [Some 1, Some 2] else if i = 3 then [Some 2] else []),
     raw_blocks := (\<lambda>f. if f = 0 then [0, 1, 2] else []),
     raw_instructions := (\<lambda>b. if b = 0 then [2] else if b = 1 then [1, 3] else [8])\<rparr>"

definition checked_lowering :: "(adapted_procedure \<times> call_summary_registry) adapted" where
  "checked_lowering = (case function_graph_new rev checked_module 0 [] of
     Inl _ \<Rightarrow> Panics
   | Inr g \<Rightarrow> adapt_with_purity_and_summaries True \<lparr>heap_order = (\<lambda>xs. xs), ptr_order = (\<lambda>xs. xs)\<rparr> checked_module g {}
       registry_new alias_default)"

lemma checked_lowered:
  "case checked_lowering of Returns (Inr _) \<Rightarrow> True | _ \<Rightarrow> False"
  "concat (map (visible_of checked_module) (raw_blocks checked_module 0)) = [2, 3, 8]"
  "length (concat (map (block_asserts checked_module) (raw_blocks checked_module 0))) = 1"
  by code_simp+

theorem lowered_graph_witness:
  "\<exists>p reg'. checked_lowering = Returns (Inr (p, reg')) \<and> cfg_wf (adapted_cfg p) \<and> dom (instruction_nodes p) = {2, 3, 8}
    \<and> instruction_nodes p 2 = Some (cfg_entry (adapted_cfg p)) \<and> length (adapted_assertions p) = 1"
proof -
  obtain g p reg' where g: "function_graph_new rev checked_module 0 [] = Inr g"
    and p: "adapt_with_purity_and_summaries True \<lparr>heap_order = (\<lambda>xs. xs), ptr_order = (\<lambda>xs. xs)\<rparr> checked_module g {}
      registry_new alias_default = Returns (Inr (p, reg'))"
    using checked_lowered(1) unfolding checked_lowering_def
    by (cases "function_graph_new rev checked_module 0 []") (auto split: sum.splits outcome.splits, metis sum.exhaust surj_pair)
  have "checked_lowering = Returns (Inr (p, reg'))" by (simp add: checked_lowering_def g p)
  moreover have "set (rev ks) = set ks" for ks :: "basic_block list" by simp
  note lowered_graph_correct [OF g this p, unfolded checked_lowered(2,3)]
  ultimately show ?thesis by auto
qed

end
