(* ===== verification/Driver_Correct.thy ===== *)
theory Driver_Correct
  imports Driver Scheduler_Correct Adaptation_Correct
begin

text \<open>
  The verdicts of the driver.  The queue answers every assertion of a lowered function, each answer is
  right, and the verdict of a report sums the answers up; for a module the same holds of every report,
  although the functions share one queue and one summary table.
\<close>

section \<open>Verdicts of reports\<close>

lemma scan_judgements_Safe:
  "scan_judgements as b = Safe \<longleftrightarrow> b \<and> (\<forall>a \<in> set as. result_judgement a = Verified)"
  by (induction as arbitrary: b) (auto split: judgement.splits)

lemma scan_judgements_Unsafe:
  "scan_judgements as b = Unsafe \<longleftrightarrow> (\<exists>a \<in> set as. \<exists>m. result_judgement a = BugFound m)"
  by (induction as arbitrary: b) (auto split: judgement.splits)

lemma verdict_Safe:
  "verdict r = Safe \<longleftrightarrow> report_failures r = [] \<and> (\<forall>a \<in> set (report_assertions r). result_judgement a = Verified)"
  by (auto simp: verdict_def scan_judgements_Safe)

lemma verdict_Unsafe:
  "verdict r = Unsafe \<longleftrightarrow> report_failures r = [] \<and>
    (\<exists>a \<in> set (report_assertions r). \<exists>m. result_judgement a = BugFound m)"
  by (auto simp: verdict_def scan_judgements_Unsafe)

section \<open>Queueing\<close>

definition site_entry :: "adapted_procedure \<Rightarrow> query_id \<Rightarrow> assertion_site \<Rightarrow> pending_entry" where
  "site_entry p i site = \<lparr>entry_id = i, entry_query = assertion_query p site, provenance = Some site\<rparr>"

lemma site_entry_sel [simp]:
  "entry_id (site_entry p i site) = i" "provenance (site_entry p i site) = Some site"
  "query_procedure (entry_query (site_entry p i site)) = adapted_name p"
  by (simp_all add: site_entry_def assertion_query_def query_new_def Let_def)

lemma site_entry_ids: "length ids = length sites \<Longrightarrow> map entry_id (map2 (site_entry p) ids sites) = ids"
  by (induction ids sites rule: list_induct2) simp_all

lemma well_queued_start [simp]: "well_queued (with_initial_tables t)" "waiting (with_initial_tables t) = []"
  by (simp_all add: well_queued_def with_initial_tables_def bt_wf_def bt_keys_def waiting_def bt_values_def)

lemma register_frame [simp]:
  "well_queued (register_procedure ctx s) = well_queued s" "waiting (register_procedure ctx s) = waiting s"
  "procedure (register_procedure ctx s) = (procedure s)(iface_procedure (context_interface ctx) \<mapsto> ctx)"
  by (simp_all add: well_queued_def register_procedure_def waiting_def procedure_def fun_eq_iff bt_get_insert)

lemma enqueue_sites_spec:
  assumes "well_queued s" "enqueue_sites p sites s = (ids, s')"
  shows "well_queued s' \<and> procedure s' = procedure s \<and> length ids = length sites
    \<and> waiting s' = waiting s @ map2 (site_entry p) ids sites"
  using assms
proof (induction sites arbitrary: s ids s')
  case (Cons site sites)
  obtain i t where t: "enqueue_query (assertion_query p site) (Some site) s = (i, t)" by fastforce
  obtain js u where u: "enqueue_sites p sites t = (js, u)" by fastforce
  have i: "i = next_id s" and t': "t = snd (enqueue_query (assertion_query p site) (Some site) s)"
    using t by (auto simp: enqueue_query_def Let_def)
  note one = well_queued_enqueue [OF Cons.prems(1), of "assertion_query p site" "Some site", folded t']
  have "procedure t = procedure s" unfolding t' by (simp add: procedure_def enqueue_query_def Let_def fun_eq_iff)
  with Cons.IH [OF one(1) u] one(2) Cons.prems(2) t u i show ?case by (auto simp: site_entry_def)
qed simp

lemma context_of_sel [simp]:
  "context_cfg (context_of p) = adapted_cfg p" "iface_procedure (context_interface (context_of p)) = adapted_name p"
  by (simp_all add: context_of_def procedure_interface_new_def)

section \<open>Draining\<close>

text \<open>An entry with a site and a registered procedure is run.\<close>

definition runnable :: "scheduler \<Rightarrow> pending_entry \<Rightarrow> bool" where
  "runnable s e \<longleftrightarrow> procedure s (query_procedure (entry_query e)) \<noteq> None \<and> provenance e \<noteq> None"

definition calls_nothing :: "abstract_cfg \<Rightarrow> bool" where
  "calls_nothing cfg \<longleftrightarrow> (\<forall>i n. bt_get (cfg_nodes cfg) i = Some n \<longrightarrow> callee_of n = None)"

lemma answers_Completed:
  assumes "answers sv s e (Completed run)" "procedure s (query_procedure (entry_query e)) = Some ctx"
    and "provenance e = Some site" "calls_nothing (context_cfg ctx)" "checkable B (context_cfg ctx) site"
  shows "verdict_right (context_cfg ctx) site (run_assertion run)"
  using assms unfolding answers_def calls_nothing_def by auto

lemma dispatch_entry_runs:
  "runnable u e \<Longrightarrow> dispatch_entry sv i e u = Returns (out, s') \<Longrightarrow> \<exists>run. out = Completed run"
  by (auto simp: runnable_def procedure_def dispatch_entry_def Let_def obind_def split: option.splits outcome.splits)

lemma drain_runs:
  assumes "well_queued s" "drain sv s = Returns (outs, s')"
  shows "list_all2 (\<lambda>e out. runnable s e \<longrightarrow> (\<exists>run. out = Completed run)) (waiting s) outs"
  using assms
proof (induction sv s arbitrary: outs s' rule: drain.induct)
  case (1 sv s)
  obtain r t where d: "dispatch_next sv s = Returns (r, t)"
    using 1(3) by (auto simp: drain.simps [of sv s] split: outcome.splits)
  show ?case
  proof (cases r)
    case None
    then have "outs = []" using 1(3) d by (simp add: drain.simps [of sv s])
    with dispatch_next_cases [OF 1(2) d] None 1(2) show ?thesis
      by (auto simp: waiting_def well_queued_def bt_keys_def bt_values_def)
  next
    case (Some out)
    then obtain rest where rest: "drain sv t = Returns (rest, s')" "outs = out # rest"
      using 1(3) d by (auto simp: drain.simps [of sv s] obind_def split: outcome.splits)
    obtain e es u where e: "waiting s = e # es" "waiting t = es" "well_queued t" "procedures t = procedures s"
      "dispatch_entry sv (entry_id e) e u = Returns (out, t)" "procedures u = procedures s"
      using dispatch_next_cases [OF 1(2) d] Some by auto
    have "runnable t = runnable s" "runnable u = runnable s"
      using e(4,6) by (simp_all add: runnable_def procedure_def fun_eq_iff)
    with 1(1) [OF d _ Some e(3) rest(1)] dispatch_entry_runs [OF _ e(5)] e(1,2) rest(2) show ?thesis by simp
  qed
qed

text \<open>The answers to the entries of one procedure are right about its graph.\<close>

definition right_answers :: "abstract_cfg \<Rightarrow> assertion_site list \<Rightarrow> assertion_result list \<Rightarrow> bool" where
  "right_answers cfg sites results \<longleftrightarrow>
     list_all2 (\<lambda>site r. (\<exists>B. checkable B cfg site) \<longrightarrow> verdict_right cfg site r) sites results"

lemma drained_entry:
  assumes "well_queued s" "drain sv s = Returns (outs, s')" "sound_services sv"
    and "e \<in> set (waiting s)" "procedure s (query_procedure (entry_query e)) = Some ctx" "provenance e = Some site"
    and "calls_nothing (context_cfg ctx)"
  shows "\<exists>run. completed_outcome s' (entry_id e) = Some (Completed run) \<and>
    ((\<exists>B. checkable B (context_cfg ctx) site) \<longrightarrow> verdict_right (context_cfg ctx) site (run_assertion run))"
proof -
  note facts = drain_facts [OF assms(1,2)]
  obtain k where k: "k < length (waiting s)" "waiting s ! k = e" using assms(4) by (auto simp: in_set_conv_nth)
  have len: "length outs = length (waiting s)" using facts by blast
  have "runnable s (waiting s ! k)" using assms(5,6) k by (simp add: runnable_def)
  with list_all2_nthD [OF drain_runs [OF assms(1,2)] k(1)] obtain run where run: "outs ! k = Completed run" by blast
  have "map Some outs ! k = map (completed_outcome s' \<circ> entry_id) (waiting s) ! k" using facts by argo
  then have done_: "completed_outcome s' (entry_id e) = Some (Completed run)" using k len run by simp
  have "list_all2 (answers sv s) (waiting s) outs" using facts assms(3) by blast
  from list_all2_nthD [OF this k(1)] have "answers sv s e (Completed run)" using k run by simp
  note right = answers_Completed [OF this assms(5-7)]
  show ?thesis using done_ right by blast
qed

lemma map_filter_all: "map f xs = map (\<lambda>y. Some (h y)) ys \<Longrightarrow> List.map_filter f xs = map h ys"
  by (induction xs arbitrary: ys) (auto simp: List.map_filter_simps map_eq_Cons_conv Cons_eq_map_conv)

lemma completed_runs_Completed [simp]: "completed_runs (map Completed runs) = runs"
  by (induction runs) (simp_all add: completed_runs_def)

lemma drained_sites:
  assumes "well_queued s" "drain sv s = Returns (outs, s')" "sound_services sv"
    and "length ids = length sites" "set (map2 (site_entry p) ids sites) \<subseteq> set (waiting s)"
    and "procedure s (adapted_name p) = Some (context_of p)" "calls_nothing (adapted_cfg p)"
  shows "\<exists>runs. map (completed_outcome s') ids = map (\<lambda>run. Some (Completed run)) runs \<and>
    right_answers (adapted_cfg p) sites (map run_assertion runs)"
  using assms(4,5)
proof (induction ids sites rule: list_induct2)
  case (Cons i ids site sites)
  have "site_entry p i site \<in> set (waiting s)" using Cons.prems by simp
  from drained_entry [OF assms(1-3) this, where ctx = "context_of p" and site = site] assms(6,7) obtain run where
    "completed_outcome s' i = Some (Completed run)"
    "(\<exists>B. checkable B (adapted_cfg p) site) \<longrightarrow> verdict_right (adapted_cfg p) site (run_assertion run)" by auto
  moreover from Cons obtain runs where "map (completed_outcome s') ids = map (\<lambda>run. Some (Completed run)) runs"
    "right_answers (adapted_cfg p) sites (map run_assertion runs)" by auto
  ultimately show ?case by (intro exI [of _ "run # runs"]) (simp add: right_answers_def)
qed (simp add: right_answers_def)

section \<open>One function\<close>

text \<open>The verdict of a report, given that its answers are right.\<close>

definition verdict_sound :: "adapted_procedure \<Rightarrow> procedure_report \<Rightarrow> bool" where
  "verdict_sound p r \<longleftrightarrow>
     (verdict r = Safe \<longrightarrow> (\<forall>site \<in> set (adapted_assertions p). \<not> may_fail (adapted_cfg p) site)) \<and>
     (verdict r = Unsafe \<longrightarrow> (\<exists>site \<in> set (adapted_assertions p). may_fail (adapted_cfg p) site))"

text \<open>The side conditions of both directions of the analysis hold of every assertion.\<close>

definition checkable_procedure :: "adapted_procedure \<Rightarrow> bool" where
  "checkable_procedure p \<longleftrightarrow> calls_nothing (adapted_cfg p) \<and>
     (\<forall>site \<in> set (adapted_assertions p). \<exists>B. checkable B (adapted_cfg p) site)"

lemma right_answers_verdict:
  assumes "right_answers (adapted_cfg p) (adapted_assertions p) (report_assertions r)" "checkable_procedure p"
  shows "verdict_sound p r"
proof -
  note right = assms(1) [unfolded right_answers_def list_all2_conv_all_nth]
  have "verdict_right (adapted_cfg p) (adapted_assertions p ! k) (report_assertions r ! k)"
    if "k < length (adapted_assertions p)" for k
    using right assms(2) that by (auto simp: checkable_procedure_def)
  moreover have len: "length (report_assertions r) = length (adapted_assertions p)" using right by simp
  moreover have "\<not> may_fail (adapted_cfg p) (adapted_assertions p ! k)"
    if "verdict r = Safe" "k < length (adapted_assertions p)" for k
  proof -
    have "report_assertions r ! k \<in> set (report_assertions r)" using that(2) len by simp
    then have "result_judgement (report_assertions r ! k) = Verified" using that(1) unfolding verdict_Safe by blast
    with calculation(1) [OF that(2)] show ?thesis by (simp add: verdict_right_def)
  qed
  moreover have "\<exists>k < length (adapted_assertions p). may_fail (adapted_cfg p) (adapted_assertions p ! k)"
    if unsafe: "verdict r = Unsafe"
  proof -
    obtain a m where a: "a \<in> set (report_assertions r)" "result_judgement a = BugFound m"
      using unsafe unfolding verdict_Unsafe by blast
    obtain k where k: "k < length (report_assertions r)" "report_assertions r ! k = a"
      using a(1) unfolding in_set_conv_nth by blast
    with calculation(1) [of k] len a(2) show ?thesis by (auto simp: verdict_right_def)
  qed
  ultimately show ?thesis unfolding verdict_sound_def all_set_conv_all_nth Bex_def in_set_conv_nth by blast
qed

text \<open>
  The verdict about one function is right: the analysis of a lowered function answers each of its
  assertions, SAFE means that no run of its graph violates an assertion, and UNSAFE that some run does,
  given a sound solver, the side conditions of both directions, and no calls.
\<close>

theorem function_verdict_right:
  assumes "sound_services sv" "analyze_adapted sv tables g p = Returns r" "checkable_procedure p"
  shows "length (report_assertions r) = length (adapted_assertions p) \<and> verdict_sound p r"
proof -
  let ?s = "register_procedure (context_of p) (with_initial_tables tables)"
  obtain ids s where q: "enqueue_sites p (adapted_assertions p) ?s = (ids, s)" by fastforce
  obtain outs s' where d: "drain sv s = Returns (outs, s')"
    and r: "report_assertions r = map run_assertion (completed_runs outs)"
    using assms(2) q by (auto simp: analyze_adapted_def obind_def split: outcome.splits)
  note queued = enqueue_sites_spec [OF _ q, simplified]
  then have wq: "well_queued s" by blast
  have waiting: "waiting s = map2 (site_entry p) ids (adapted_assertions p)" using queued by simp
  obtain runs where runs: "map (completed_outcome s') ids = map (\<lambda>run. Some (Completed run)) runs"
    "right_answers (adapted_cfg p) (adapted_assertions p) (map run_assertion runs)"
    using drained_sites [OF wq d assms(1), of ids "adapted_assertions p" p] queued assms(3)
    by (auto simp: checkable_procedure_def)
  have "map entry_id (waiting s) = ids" unfolding waiting using queued by (intro site_entry_ids) simp
  moreover have "map Some outs = map (completed_outcome s') (map entry_id (waiting s))"
    using drain_facts [OF wq d] by simp
  ultimately have "map Some outs = map Some (map Completed runs)" using runs(1) by (simp add: comp_def)
  then have "outs = map Completed runs" using inj_map_eq_map [OF inj_Some] by blast
  with r runs(2) have right: "right_answers (adapted_cfg p) (adapted_assertions p) (report_assertions r)"
    by simp
  then show ?thesis using right_answers_verdict [OF right assms(3)]
    by (auto simp: right_answers_def dest: list_all2_lengthD)
qed

definition branch_procedure :: adapted_procedure where
  "branch_procedure = \<lparr>adapted_name = ''p'', adapted_cfg = branch_cfg (f_bool_var ''c''),
     adapted_assertions = [branch_site 1], instruction_nodes = Map.empty, adapted_ptr_at = [],
     adapted_debug_names = Map.empty, formal_parameters = []\<rparr>"

definition branch_function :: function_graph where
  "branch_function = \<lparr>graph_name = ''p'', graph_params = [], pointer_param_indices = [], vertices = [], graph_edges = [],
     graph_start = None, graph_end = [], graph_vars = [], asserts = [], assumes_of = [],
     data_layout_str = [], debug_names = Map.empty\<rparr>"

lemma branch_checkable_procedure: "checkable_procedure branch_procedure"
proof -
  have "calls_nothing (branch_cfg (f_bool_var ''c''))"
    by (auto simp: calls_nothing_def branch_defs callee_of_def bt_get_def map_of_Cons_code split: if_splits)
  then show ?thesis using branch_checkable by (auto simp: checkable_procedure_def branch_procedure_def)
qed

lemma branch_analyzed: "\<exists>r. analyze_adapted (example_services folding_solver) table_new branch_function branch_procedure = Returns r
    \<and> verdict r = Safe"
proof -
  have "case analyze_adapted (example_services folding_solver) table_new branch_function branch_procedure of
      Returns r \<Rightarrow> verdict r = Safe | Panics \<Rightarrow> False"
    by code_simp
  then show ?thesis by (auto split: outcome.splits)
qed

theorem function_verdict_witness:
  "\<exists>r. analyze_adapted (example_services folding_solver) table_new branch_function branch_procedure = Returns r
    \<and> verdict r = Safe \<and> \<not> may_fail (adapted_cfg branch_procedure) (branch_site 1)"
proof -
  obtain r where r: "analyze_adapted (example_services folding_solver) table_new branch_function branch_procedure = Returns r"
    "verdict r = Safe" using branch_analyzed by blast
  from function_verdict_right [OF example_services_sound [OF folding_solver_sound] r(1) branch_checkable_procedure] r
  show ?thesis by (simp add: verdict_sound_def branch_procedure_def)
qed

section \<open>A module\<close>

text \<open>
  While the functions are queued one after the other, a function is known to have failed, or its
  assertions wait in the shared queue under the identifiers noted for it.
\<close>

definition lowered ::
  "bool \<Rightarrow> hash_orders \<Rightarrow> llvm \<Rightarrow> string set \<Rightarrow> alias_result \<Rightarrow> function_graph \<Rightarrow> adapted_procedure \<Rightarrow> bool" where
  "lowered oc hs l memory_pure alias g p \<longleftrightarrow> (\<exists>reg reg'.
     adapt_with_purity_and_summaries oc hs l g memory_pure reg alias = Returns (Inr (p, reg')))"

lemma lowered_name: "lowered oc hs l memory_pure alias g p \<Longrightarrow> adapted_name p = graph_name g"
  by (auto simp: lowered_def adapt_with_purity_and_summaries_def abind_eq_aret obind_eq_Returns Let_def case_prod_beta
      split: option.splits)

text \<open>
  The lowering gives some of the side conditions: only those on the effects and on the cycles of the
  function itself are left.
\<close>

definition supported_effects :: "adapted_procedure \<Rightarrow> bool" where
  "supported_effects p \<longleftrightarrow> calls_nothing (adapted_cfg p) \<and> stable_guards (adapted_cfg p) \<and> exact_effects (adapted_cfg p) \<and>
     (\<forall>site \<in> set (adapted_assertions p). analysable (adapted_cfg p) site \<and> (\<exists>B. dart_ready B (adapted_cfg p) site))"

lemma lowered_checkable:
  assumes "lowered oc hs l memory_pure alias g p" "graph_wf g" "finite (arcs g)" "acyclic (arcs g)" "supported_effects p"
  shows "checkable_procedure p"
proof -
  obtain reg reg' where p: "adapt_with_purity_and_summaries oc hs l g memory_pure reg alias = Returns (Inr (p, reg'))"
    using assms(1) by (auto simp: lowered_def)
  then obtain start where "graph_start g = Some start"
    by (auto simp: adapt_with_purity_and_summaries_def split: option.splits)
  note low = adapted_lowers [OF p assms(2,3) this]
  have "ran (instruction_nodes p) \<subseteq> set (node_ids (adapted_cfg p))" "cfg_wf (adapted_cfg p)"
    using lowers_toE [OF low(1)] by (metis subset_insertI)+
  then have "cfg_wf (adapted_cfg p)" "\<forall>site \<in> set (adapted_assertions p). site_node site \<in> set (node_ids (adapted_cfg p))"
    using low(3) by auto
  moreover have "acyclic (graph (adapted_cfg p))" by (rule lowers_to_acyclic [OF low(1) assms(3,4)])
  ultimately show ?thesis using assms(5) by (simp add: checkable_procedure_def supported_effects_def checkable_def)
qed

definition in_queue :: "adapted_procedure \<Rightarrow> query_id list \<Rightarrow> scheduler \<Rightarrow> bool" where
  "in_queue p ids s \<longleftrightarrow> length ids = length (adapted_assertions p) \<and>
     set (map2 (site_entry p) ids (adapted_assertions p)) \<subseteq> set (waiting s) \<and>
     procedure s (adapted_name p) = Some (context_of p)"

definition queued :: "(function_graph \<Rightarrow> adapted_procedure \<Rightarrow> bool) \<Rightarrow> module_run \<Rightarrow> function_graph \<Rightarrow> bool" where
  "queued low run g \<longleftrightarrow> bt_get (failures_of run) (graph_name g) \<noteq> None \<or>
     (\<exists>p ids. low g p \<and> bt_get (query_ids run) (graph_name g) = Some ids \<and> in_queue p ids (run_scheduler run))"

definition run_ok :: "module_run \<Rightarrow> bool" where
  "run_ok run \<longleftrightarrow> well_queued (run_scheduler run) \<and> (\<forall>name. bt_get (failures_of run) name \<noteq> Some [])"

lemma run_ok_push_failure [simp]: "run_ok run \<Longrightarrow> run_ok (push_failure name message run)"
  by (simp add: run_ok_def push_failure_def bt_get_insert)

lemma queued_push_failure:
  "queued low (push_failure (graph_name g) message run) g"
  "queued low run h \<Longrightarrow> queued low (push_failure name message run) h"
  by (auto simp: queued_def push_failure_def bt_get_insert)

lemma queue_procedure_spec:
  assumes "run_ok run" "queue_procedure p run = run'"
  shows "run_ok run'"
    and "low g p \<Longrightarrow> adapted_name p = graph_name g \<Longrightarrow> queued low run' g"
    and "\<lbrakk>\<And>h q. low h q \<Longrightarrow> adapted_name q = graph_name h; adapted_name p \<noteq> graph_name h; queued low run h\<rbrakk>
      \<Longrightarrow> queued low run' h"
proof -
  let ?s = "register_procedure (context_of p) (run_scheduler run)"
  obtain ids s where q: "enqueue_sites p (adapted_assertions p) ?s = (ids, s)" by fastforce
  have spec: "well_queued s" "procedure s = (procedure (run_scheduler run))(adapted_name p \<mapsto> context_of p)"
    "length ids = length (adapted_assertions p)"
    "waiting s = waiting (run_scheduler run) @ map2 (site_entry p) ids (adapted_assertions p)"
    using enqueue_sites_spec [OF _ q] assms(1) by (simp_all add: run_ok_def)
  have run': "run_scheduler run' = s" "query_ids run' = bt_insert (adapted_name p) ids (query_ids run)"
    "failures_of run' = failures_of run"
    using assms(2) q by (auto simp: queue_procedure_def)
  show "run_ok run'" using assms(1) spec(1) run' by (simp add: run_ok_def)
  show "queued low run' g" if "low g p" "adapted_name p = graph_name g"
    using that spec run' by (auto simp: queued_def in_queue_def bt_get_insert)
  show "queued low run' h" if names: "\<And>h q. low h q \<Longrightarrow> adapted_name q = graph_name h"
    and h: "adapted_name p \<noteq> graph_name h" "queued low run h"
  proof (cases "bt_get (failures_of run) (graph_name h)")
    case None
    then obtain q js where q: "low h q" "bt_get (query_ids run) (graph_name h) = Some js"
      "in_queue q js (run_scheduler run)" using h(2) by (auto simp: queued_def)
    have "in_queue q js s" using q(3) spec names [OF q(1)] h(1) by (auto simp: in_queue_def)
    then show ?thesis using q(1,2) h(1) run' by (auto simp: queued_def bt_get_insert)
  qed (simp add: queued_def run')
qed

lemma queue_graph_spec:
  assumes "run_ok run" "queue_graph oc hs l memory_pure alias max_size g run = Returns run'"
  shows "run_ok run'" and "queued (lowered oc hs l memory_pure alias) run' g"
    and "graph_name g \<noteq> graph_name h \<Longrightarrow> queued (lowered oc hs l memory_pure alias) run h
      \<Longrightarrow> queued (lowered oc hs l memory_pure alias) run' h"
proof -
  let ?low = "lowered oc hs l memory_pure alias"
  have "run_ok run' \<and> queued ?low run' g \<and> (graph_name g \<noteq> graph_name h \<longrightarrow> queued ?low run h \<longrightarrow> queued ?low run' h)"
  proof (cases "\<exists>message. run' = push_failure (graph_name g) message run")
    case True
    then show ?thesis using assms(1) queued_push_failure by auto
  next
    case False
    then obtain p reg where p: "adapt_with_purity_and_summaries oc hs l g memory_pure (run_registry run) alias
        = Returns (Inr (p, reg))" "run' = queue_procedure p (run\<lparr>run_registry := reg\<rparr>)"
      using assms(2) by (auto simp: queue_graph_def obind_def split: if_splits outcome.splits sum.splits)
    then have low: "?low g p" unfolding lowered_def by blast
    have ok: "run_ok (run\<lparr>run_registry := reg\<rparr>)" using assms(1) by (simp add: run_ok_def)
    have same: "queued ?low (run\<lparr>run_registry := reg\<rparr>) h = queued ?low run h" by (simp add: queued_def)
    show ?thesis using queue_procedure_spec [OF ok p(2) [symmetric]] low lowered_name same by metis
  qed
  then show "run_ok run'" "queued ?low run' g"
    "graph_name g \<noteq> graph_name h \<Longrightarrow> queued ?low run h \<Longrightarrow> queued ?low run' h" by blast+
qed

lemma queue_graphs_spec:
  assumes "ofor (queue_graph oc hs l memory_pure alias max_size) gs run = Returns run'"
    and "run_ok run" "distinct (map graph_name gs)"
  shows "run_ok run' \<and> (\<forall>g \<in> set gs. queued (lowered oc hs l memory_pure alias) run' g)
    \<and> (\<forall>h. graph_name h \<notin> graph_name ` set gs \<longrightarrow> queued (lowered oc hs l memory_pure alias) run h
        \<longrightarrow> queued (lowered oc hs l memory_pure alias) run' h)"
  using assms
proof (induction gs arbitrary: run)
  case (Cons g gs)
  obtain u where u: "queue_graph oc hs l memory_pure alias max_size g run = Returns u"
    "ofor (queue_graph oc hs l memory_pure alias max_size) gs u = Returns run'"
    using Cons.prems(1) by (auto simp: obind_def split: outcome.splits)
  note step = queue_graph_spec [OF Cons.prems(2) u(1)]
  have "distinct (map graph_name gs)" "graph_name g \<notin> graph_name ` set gs" using Cons.prems(3) by auto
  with Cons.IH [OF u(2) step(1)] step show ?case by auto
qed simp

lemma reports_of_map:
  "distinct (map graph_name gs) \<Longrightarrow> reports_of recursive sched gs run = map (procedure_report_of recursive sched run) gs"
proof (induction gs arbitrary: run)
  case (Cons g gs)
  have "procedure_report_of recursive sched (run\<lparr>failures_of := bt_remove (graph_name g) (failures_of run)\<rparr>) h
      = procedure_report_of recursive sched run h" if "h \<in> set gs" for h
  proof -
    have "graph_name h \<in> graph_name ` set gs" using that by (rule imageI)
    then have "graph_name h \<noteq> graph_name g" using Cons.prems by auto
    then show ?thesis by (simp add: procedure_report_of_def bt_get_remove Let_def split: option.split)
  qed
  with Cons show ?case by simp
qed simp

text \<open>What a report is right about.\<close>

definition report_right :: "(adapted_procedure \<Rightarrow> bool) \<Rightarrow> procedure_report \<Rightarrow> bool" where
  "report_right low r \<longleftrightarrow> (report_failures r \<noteq> [] \<and> verdict r = UnknownVerdict) \<or>
     (\<exists>p. low p \<and> (checkable_procedure p \<longrightarrow>
        length (report_assertions r) = length (adapted_assertions p) \<and> verdict_sound p r))"

lemma report_of_queued:
  assumes "run_ok run" "queued low run g" "\<And>p. low g p \<Longrightarrow> adapted_name p = graph_name g"
    and "drain sv (run_scheduler run) = Returns (outs, s')" "sound_services sv"
  shows "report_right (low g) (procedure_report_of recursive s' run g)"
proof (cases "bt_get (failures_of run) (graph_name g)")
  case (Some failures)
  with assms(1) have "failures \<noteq> []" by (auto simp: run_ok_def)
  with Some show ?thesis by (simp add: report_right_def procedure_report_of_def verdict_def)
next
  case None
  then obtain p ids where p: "low g p" "bt_get (query_ids run) (graph_name g) = Some ids"
    "in_queue p ids (run_scheduler run)" using assms(2) by (auto simp: queued_def)
  let ?r = "procedure_report_of recursive s' run g"
  have "length (report_assertions ?r) = length (adapted_assertions p) \<and> verdict_sound p ?r"
    if check: "checkable_procedure p"
  proof -
    have wq: "well_queued (run_scheduler run)" using assms(1) by (simp add: run_ok_def)
    obtain runs where runs: "map (completed_outcome s') ids = map (\<lambda>run. Some (Completed run)) runs"
      "right_answers (adapted_cfg p) (adapted_assertions p) (map run_assertion runs)"
      using drained_sites [OF wq assms(4,5), of ids "adapted_assertions p" p] p(3) check
      by (auto simp: in_queue_def checkable_procedure_def)
    have "List.map_filter (completed_outcome s') ids = map Completed runs"
      using runs(1) by (rule map_filter_all)
    then have "right_answers (adapted_cfg p) (adapted_assertions p) (report_assertions ?r)"
      using None p(2) runs(2) by (simp add: procedure_report_of_def Let_def)
    then show ?thesis using right_answers_verdict [OF _ check]
      by (auto simp: right_answers_def dest: list_all2_lengthD)
  qed
  with p(1) show ?thesis by (auto simp: report_right_def)
qed

lemma module_reports_right:
  assumes "analyze_module_with_provider oc sv hs l graphs memory_pure provider config = Some (Returns m)"
    and "sound_services (sv (Some config))" "distinct (map graph_name graphs)"
  shows "\<exists>alias. run_alias_analysis (hash_order_of (sv (Some config))) l graphs = Some alias \<and>
    list_all2 (\<lambda>g r. report_right (lowered oc hs l memory_pure alias g) r) graphs (module_reports m)"
proof -
  obtain aliases reg run outs s' where an: "run_alias_analysis (hash_order_of (sv (Some config))) l graphs = Some aliases"
    and run: "queue_module oc hs l memory_pure aliases (max_function_size config) graphs reg = Returns run"
    and drained: "drain (sv (Some config)) (run_scheduler run) = Returns (outs, s')"
    and m: "module_reports m = reports_of (recursive_functions l graphs) s' graphs run"
    using assms(1) by (auto simp: analyze_module_with_provider_def obind_eq_Returns split: option.splits)
  have "run_ok run" "\<And>g. g \<in> set graphs \<Longrightarrow> queued (lowered oc hs l memory_pure aliases) run g"
    using queue_graphs_spec [OF run [unfolded queue_module_def] _ assms(3)] by (simp_all add: run_ok_def bt_get_def)
  then have "report_right (lowered oc hs l memory_pure aliases g)
      (procedure_report_of (recursive_functions l graphs) s' run g)" if "g \<in> set graphs" for g
    using that lowered_name by (intro report_of_queued [OF _ _ _ drained assms(2)]) blast+
  with an m assms(3) show ?thesis by (simp add: reports_of_map list_all2_conv_all_nth)
qed

text \<open>
  C5: the verdicts about a module are right: every function has one report, in the order of the module,
  which either says that the function could not be analysed, and gives no verdict, or belongs to the lowered
  function.  When that calls nothing, has no cycle and meets the side conditions of both directions at every
  assertion, the report has one answer for each and its verdict is right about the graph.  The functions
  share one scheduler and one summary table.
\<close>

theorem module_verdicts_right:
  assumes "analyze_module_with_provider oc sv hs l graphs memory_pure provider config = Some (Returns m)"
    and "sound_services (sv (Some config))" "distinct (map graph_name graphs)"
  shows "\<exists>alias. run_alias_analysis (hash_order_of (sv (Some config))) l graphs = Some alias \<and>
    list_all2 (\<lambda>g r. report_right (lowered oc hs l memory_pure alias g) r) graphs (module_reports m)"
  by (rule module_reports_right [OF assms])

text \<open>
  The module \<open>checked_module\<close>, from the module to the verdict: the graph is
  built, lowered, summarised, queued and analysed.
\<close>

definition checked_graphs :: "function_graph list" where
  "checked_graphs = (case generate_program_graph rev checked_module of Inr gs \<Rightarrow> gs | Inl _ \<Rightarrow> [])"

abbreviation analyze_checked :: "module_report outcome option" where
  "analyze_checked \<equiv> analyze_module_with_provider True (\<lambda>_. example_services pair_solver)
     \<lparr>heap_order = (\<lambda>xs. xs), ptr_order = (\<lambda>xs. xs)\<rparr> checked_module checked_graphs {} no_provider
     invariant_config_default"

lemma checked_analyzed:
  "map graph_name checked_graphs = [''main'']"
  "case analyze_checked of Some (Returns m) \<Rightarrow> map verdict (module_reports m) = [Safe] | _ \<Rightarrow> False"
  by code_simp+

theorem module_verdicts_witness:
  "\<exists>m aliases g r. analyze_checked = Some (Returns m) \<and> checked_graphs = [g] \<and> module_reports m = [r] \<and> verdict r = Safe
    \<and> report_right (lowered True \<lparr>heap_order = (\<lambda>xs. xs), ptr_order = (\<lambda>xs. xs)\<rparr> checked_module {} aliases g) r"
proof -
  obtain m where m: "analyze_checked = Some (Returns m)" "map verdict (module_reports m) = [Safe]"
    using checked_analyzed(2) by (auto split: option.splits outcome.splits)
  have "sound_services (example_services pair_solver)" by (rule example_services_sound [OF pair_solver_sound])
  moreover obtain g where g: "checked_graphs = [g]" using checked_analyzed(1) by (auto simp: map_eq_Cons_conv)
  moreover obtain r where r: "module_reports m = [r]" "verdict r = Safe" using m(2) by (auto simp: map_eq_Cons_conv)
  moreover have "distinct (map graph_name checked_graphs)" unfolding checked_analyzed(1) by simp
  ultimately obtain aliases where
    "list_all2 (\<lambda>g r. report_right (lowered True \<lparr>heap_order = (\<lambda>xs. xs), ptr_order = (\<lambda>xs. xs)\<rparr> checked_module {}
       aliases g) r) checked_graphs (module_reports m)" using module_verdicts_right [OF m(1)] by blast
  then have "report_right (lowered True \<lparr>heap_order = (\<lambda>xs. xs), ptr_order = (\<lambda>xs. xs)\<rparr> checked_module {} aliases g) r"
    unfolding g r by simp
  with m(1) g r show ?thesis by blast
qed

end
