(* ===== verification/Printing.thy ===== *)
theory Printing
  imports Backward Llvm
begin

text \<open>
  What the tool shows: formulas, terms and models (the \<open>Display\<close> and \<open>pretty\<close> functions of
  \<open>src/formula/mod.rs\<close>), and the rendering of a result with its counterexample
  (\<open>src/analysis/backward/mod.rs\<close>).
\<close>

section \<open>Sorts, numbers and variables\<close>

fun sort_display :: "sort \<Rightarrow> string" where
  "sort_display SBool = ''Bool''"
| "sort_display SInt = ''Int''"
| "sort_display SReal = ''Real''"

definition rational_display :: "rational \<Rightarrow> string" where
  "rational_display q = (if rat_den q = 1 then i64_str (rat_num q) else i64_str (rat_num q) @ ''/'' @ i64_str (rat_den q))"

section \<open>Formulas as expressions\<close>

definition bracketed :: "string \<Rightarrow> string list \<Rightarrow> string" where
  "bracketed sep items = ''('' @ join_strings sep items @ '')''"

primrec memory_display :: "memory \<Rightarrow> string"
  and term_display :: "fterm \<Rightarrow> string"
  and formula_display :: "formula \<Rightarrow> string" where
  "memory_display (MVar name) = name"
| "memory_display (MStore mem index val) =
     ''(store '' @ memory_display mem @ '' '' @ term_display index @ '' '' @ term_display val @ '')''"
| "term_display (TVar v) = var_name v"
| "term_display (TInt n) = i64_str n"
| "term_display (TReal q) = rational_display q"
| "term_display (TBoolToInt f) = ''bool_to_int('' @ formula_display f @ '')''"
| "term_display (TSelect mem index) = ''(select '' @ memory_display mem @ '' '' @ term_display index @ '')''"
| "term_display (TAdd l r) = bracketed '' + '' [term_display l, term_display r]"
| "term_display (TSub l r) = bracketed '' - '' [term_display l, term_display r]"
| "term_display (TMul l r) = bracketed '' * '' [term_display l, term_display r]"
| "term_display (TDiv l r) = bracketed '' / '' [term_display l, term_display r]"
| "term_display (TRem l r) = bracketed '' % '' [term_display l, term_display r]"
| "term_display (TNeg t) = ''(-'' @ term_display t @ '')''"
| "formula_display FTrue = ''true''"
| "formula_display FFalse = ''false''"
| "formula_display (FVar v) = var_name v"
| "formula_display (FNot f) = ''(!'' @ formula_display f @ '')''"
| "formula_display (FAnd fs) = bracketed '' && '' (map formula_display fs)"
| "formula_display (FOr fs) = bracketed '' || '' (map formula_display fs)"
| "formula_display (FImplies f g) = bracketed '' => '' [formula_display f, formula_display g]"
| "formula_display (FEq l r) = bracketed '' == '' [term_display l, term_display r]"
| "formula_display (FMemoryEq l r) = bracketed '' == '' [memory_display l, memory_display r]"
| "formula_display (FLt l r) = bracketed '' < '' [term_display l, term_display r]"
| "formula_display (FLe l r) = bracketed '' <= '' [term_display l, term_display r]"
| "formula_display (FGt l r) = bracketed '' > '' [term_display l, term_display r]"
| "formula_display (FGe l r) = bracketed '' >= '' [term_display l, term_display r]"

section \<open>Formulas with the names of the source\<close>

text \<open>What follows the last occurrence of \<open>pattern\<close>.\<close>

fun after_last :: "string \<Rightarrow> string \<Rightarrow> string option" where
  "after_last pattern [] = strip_prefix pattern []"
| "after_last pattern (c # s) = (case after_last pattern s of
     Some rest \<Rightarrow> Some rest | None \<Rightarrow> strip_prefix pattern (c # s))"

definition local_part :: "string \<Rightarrow> string" where
  "local_part name = (case after_last ''$%'' name of
     Some rest \<Rightarrow> rest
   | None \<Rightarrow> (case after_last ''$'' name of Some rest \<Rightarrow> rest | None \<Rightarrow> name))"

definition source_name :: "(string \<rightharpoonup> string) \<Rightarrow> string \<Rightarrow> string" where
  "source_name names name = (case names name of None \<Rightarrow> name | Some s \<Rightarrow> s)"

definition pretty_cell :: "(string \<rightharpoonup> string) \<Rightarrow> string \<Rightarrow> fterm \<Rightarrow> string \<Rightarrow> string" where
  "pretty_cell names r index index_str =
     (let cell = source_name names r @ ''['' @ index_str @ '']'' in
      if index = TInt 0 then (case names (r @ ''|scalar'') of Some src \<Rightarrow> src | None \<Rightarrow> cell) else cell)"

primrec memory_pretty :: "(string \<rightharpoonup> string) \<Rightarrow> memory \<Rightarrow> string"
  and term_pretty :: "(string \<rightharpoonup> string) \<Rightarrow> fterm \<Rightarrow> string"
  and formula_pretty :: "(string \<rightharpoonup> string) \<Rightarrow> formula \<Rightarrow> string" where
  "memory_pretty names (MVar name) = source_name names name"
| "memory_pretty names (MStore mem index val) =
     ''(store '' @ memory_pretty names mem @ '' '' @ term_pretty names index @ '' '' @ term_pretty names val @ '')''"
| "term_pretty names (TVar v) = local_part (var_name v)"
| "term_pretty names (TInt n) = i64_str n"
| "term_pretty names (TReal q) = rational_display q"
| "term_pretty names (TBoolToInt f) = ''bool_to_int('' @ formula_pretty names f @ '')''"
| "term_pretty names (TSelect mem index) = (case mem of
     MVar r \<Rightarrow> pretty_cell names r index (term_pretty names index)
   | MStore _ _ _ \<Rightarrow> ''(select '' @ memory_pretty names mem @ '' '' @ term_pretty names index @ '')'')"
| "term_pretty names (TAdd l r) = bracketed '' + '' [term_pretty names l, term_pretty names r]"
| "term_pretty names (TSub l r) = bracketed '' - '' [term_pretty names l, term_pretty names r]"
| "term_pretty names (TMul l r) = bracketed '' * '' [term_pretty names l, term_pretty names r]"
| "term_pretty names (TDiv l r) = bracketed '' / '' [term_pretty names l, term_pretty names r]"
| "term_pretty names (TRem l r) = bracketed '' % '' [term_pretty names l, term_pretty names r]"
| "term_pretty names (TNeg t) = ''(-'' @ term_pretty names t @ '')''"
| "formula_pretty names FTrue = ''true''"
| "formula_pretty names FFalse = ''false''"
| "formula_pretty names (FVar v) = var_name v"
| "formula_pretty names (FNot f) = ''(!'' @ formula_pretty names f @ '')''"
| "formula_pretty names (FAnd fs) = bracketed '' && '' (map (formula_pretty names) fs)"
| "formula_pretty names (FOr fs) = bracketed '' || '' (map (formula_pretty names) fs)"
| "formula_pretty names (FImplies f g) = bracketed '' => '' [formula_pretty names f, formula_pretty names g]"
| "formula_pretty names (FEq l r) = bracketed '' == '' [term_pretty names l, term_pretty names r]"
| "formula_pretty names (FMemoryEq l r) = bracketed '' == '' [memory_pretty names l, memory_pretty names r]"
| "formula_pretty names (FLt l r) = bracketed '' < '' [term_pretty names l, term_pretty names r]"
| "formula_pretty names (FLe l r) = bracketed '' <= '' [term_pretty names l, term_pretty names r]"
| "formula_pretty names (FGt l r) = bracketed '' > '' [term_pretty names l, term_pretty names r]"
| "formula_pretty names (FGe l r) = bracketed '' >= '' [term_pretty names l, term_pretty names r]"

text \<open>\<open>str::replace\<close> with a nonempty pattern; long formulas are broken at their conjunctions.\<close>

function replace_all :: "string \<Rightarrow> string \<Rightarrow> string \<Rightarrow> string" where
  "replace_all pattern other [] = []"
| "replace_all pattern other (c # s) =
     (if starts_with pattern (c # s) then other @ replace_all pattern other (drop (length pattern - 1) s)
      else c # replace_all pattern other s)"
  by pat_completeness auto
termination by (relation "measure (\<lambda>(_, _, s). length s)") auto

definition new_line :: string where
  "new_line = [CHR 0x0A]"

definition pretty_formula_with_names :: "formula \<Rightarrow> (string \<rightharpoonup> string) \<Rightarrow> string" where
  "pretty_formula_with_names f names =
     (let rendered = formula_pretty names f in
      if length rendered \<le> 100 then rendered else replace_all '' && '' (new_line @ ''      && '') rendered)"

definition pretty_formula :: "formula \<Rightarrow> string" where
  "pretty_formula f = pretty_formula_with_names f Map.empty"

section \<open>Models\<close>

fun model_value_display :: "model_value \<Rightarrow> string" where
  "model_value_display (ModelInt n) = i64_str n"
| "model_value_display (ModelBool b) = (if b then ''true'' else ''false'')"
| "model_value_display (ModelReal q) = rational_display q"
| "model_value_display (ArrayDefault v) = ''((as const (Array Int Int)) '' @ model_value_display v @ '')''"

definition smt_model_display :: "smt_model \<Rightarrow> string" where
  "smt_model_display m =
     concat (map (\<lambda>(v, x). ''(define-fun '' @ var_name v @ '' () '' @ sort_display (var_sort v) @ '' ''
       @ model_value_display x @ '')'' @ new_line) (model_scalar m))
     @ concat (map (\<lambda>(name, x). ''(define-fun '' @ name @ '' () (Array Int Int) ''
       @ model_value_display x @ '')'' @ new_line) (model_memory m))"

fun format_array_value :: "model_value \<Rightarrow> string" where
  "format_array_value (ArrayDefault v) = ''all elements = '' @ model_value_display v"
| "format_array_value v = model_value_display v"

section \<open>Counterexamples\<close>

text \<open>An entry of the trace: the function, the name shown, and the line.\<close>

type_synonym trace_entry = "string \<times> string \<times> string"

definition trace_name :: "(string \<rightharpoonup> string) \<Rightarrow> string \<Rightarrow> (string \<times> string) option" where
  "trace_name names name = map_option (\<lambda>(func, local). (func, case names name of None \<Rightarrow> local | Some d \<Rightarrow> d))
     (parse_model_var_name name)"

definition scalar_entry :: "(string \<rightharpoonup> string) \<Rightarrow> var \<times> model_value \<Rightarrow> trace_entry option" where
  "scalar_entry names = (\<lambda>(v, x). map_option (\<lambda>(func, d).
     (func, d, ''      '' @ d @ '' = '' @ model_value_display x)) (trace_name names (var_name v)))"

fun is_array_default :: "model_value \<Rightarrow> bool" where
  "is_array_default (ArrayDefault _) = True"
| "is_array_default _ = False"

definition memory_entry :: "(string \<rightharpoonup> string) \<Rightarrow> (string \<times> string) set \<Rightarrow> string \<times> model_value \<Rightarrow> trace_entry option" where
  "memory_entry names scalar_names_seen = (\<lambda>(name, x). case trace_name names name of
     None \<Rightarrow> None
   | Some (func, d) \<Rightarrow>
       if is_array_default x \<and> (func, d) \<in> scalar_names_seen then None
       else Some (func, d, ''      '' @ d @ '': '' @ format_array_value x))"

definition push_line :: "trace_entry \<Rightarrow> (string, string list) btree \<Rightarrow> (string, string list) btree" where
  "push_line = (\<lambda>(func, _, line) m.
     bt_insert func ((case bt_get m func of None \<Rightarrow> [] | Some lines \<Rightarrow> lines) @ [line]) m)"

definition trace_of :: "smt_model \<Rightarrow> (string \<rightharpoonup> string) \<Rightarrow> (string, string list) btree" where
  "trace_of m names =
     (let scalars = List.map_filter (scalar_entry names) (model_scalar m);
          seen = set (map (\<lambda>(func, d, _). (func, d)) scalars);
          memories = List.map_filter (memory_entry names seen) (model_memory m) in
      fold push_line memories (fold push_line scalars []))"

definition function_lines :: "string \<times> string list \<Rightarrow> string list" where
  "function_lines = (\<lambda>(func, entries). (''      ['' @ func @ '']'') # remdups_adj (sort entries))"

definition render_counterexample :: "smt_model \<Rightarrow> (string \<rightharpoonup> string) \<Rightarrow> string" where
  "render_counterexample m names =
     (let by_function = trace_of m names in
      if by_function = [] then ''      (no concrete values)''
      else join_strings new_line (concat (map function_lines by_function)))"

section \<open>Results\<close>

definition result_location :: "assertion_result \<Rightarrow> string" where
  "result_location r =
     (if loc_file (result_source_location r) \<noteq> [] then source_location_display (result_source_location r)
      else if 0 < loc_line (result_source_location r) then source_location_display (result_source_location r)
      else result_site_label r)"

definition judgement_lines :: "assertion_result \<Rightarrow> string list" where
  "judgement_lines r = (case result_judgement r of
     Verified \<Rightarrow> [''    judgement: Verified'']
   | JudgementUnknown \<Rightarrow> [''    judgement: Unknown'',
       ''    reach: '' @ formula_pretty (result_debug_names r) (reach (result_entry_summary r)),
       ''    state: '' @ formula_pretty (result_debug_names r) (state (result_entry_summary r))]
   | BugFound m \<Rightarrow> ''    judgement: UNSAFE'' # (case m of
       None \<Rightarrow> []
     | Some model \<Rightarrow> if smt_model_is_empty model then []
         else [''    counterexample:'', render_counterexample model (result_debug_names r)]))"

definition render_result :: "assertion_result \<Rightarrow> string" where
  "render_result r = join_strings new_line
     ((''  assertion #'' @ nat_str (result_site_id r) @ ''  '' @ result_location r) # judgement_lines r)"

section \<open>What is shown\<close>

text \<open>Breaking the lines of a formula changes its blanks only.\<close>

lemma replace_all_filter:
  assumes "pattern \<noteq> []" "filter P other = filter P pattern"
  shows "filter P (replace_all pattern other s) = filter P s"
  using assms
proof (induction pattern other s rule: replace_all.induct)
  case (2 pattern other c s)
  show ?case
  proof (cases "starts_with pattern (c # s)")
    case True
    then obtain rest where rest: "c # s = pattern @ rest" by (auto simp: starts_with_iff)
    moreover from this "2.prems"(1) have "drop (length pattern - 1) s = rest" by (cases pattern) auto
    ultimately show ?thesis using True 2 by (metis filter_append replace_all.simps(2))
  qed (use 2 in simp)
qed simp

lemma pretty_formula_blanks:
  "filter (\<lambda>c. c \<noteq> CHR '' '' \<and> c \<noteq> CHR 0x0A) (pretty_formula_with_names f names)
    = filter (\<lambda>c. c \<noteq> CHR '' '' \<and> c \<noteq> CHR 0x0A) (formula_pretty names f)"
  unfolding pretty_formula_with_names_def Let_def new_line_def by (auto intro!: replace_all_filter)

text \<open>
  A counterexample shows, under its function, every value whose name is one of a function, except the
  default of a memory whose name a scalar has been shown with, and nothing else.
\<close>

definition lines_for :: "(string, string list) btree \<Rightarrow> string \<Rightarrow> string list" where
  "lines_for m func = (case bt_get m func of None \<Rightarrow> [] | Some lines \<Rightarrow> lines)"

lemma lines_for_push:
  "lines_for (fold push_line es m) func = lines_for m func @ map (\<lambda>(_, _, line). line) (filter (\<lambda>(f, _, _). f = func) es)"
  by (induction es arbitrary: m) (auto simp: push_line_def lines_for_def bt_get_insert split: option.split)

lemma set_map_filter: "y \<in> set (List.map_filter f xs) \<longleftrightarrow> (\<exists>x \<in> set xs. f x = Some y)"
  by (induction xs) (auto simp: List.map_filter_simps split: option.split)

definition shown_scalar :: "smt_model \<Rightarrow> (string \<rightharpoonup> string) \<Rightarrow> string \<Rightarrow> string \<Rightarrow> model_value \<Rightarrow> bool" where
  "shown_scalar m names func d x \<longleftrightarrow> (\<exists>v. (v, x) \<in> set (model_scalar m) \<and> trace_name names (var_name v) = Some (func, d))"

definition shown_memory :: "smt_model \<Rightarrow> (string \<rightharpoonup> string) \<Rightarrow> string \<Rightarrow> string \<Rightarrow> model_value \<Rightarrow> bool" where
  "shown_memory m names func d x \<longleftrightarrow> (\<exists>name. (name, x) \<in> set (model_memory m) \<and> trace_name names name = Some (func, d)) \<and>
     \<not> (is_array_default x \<and> (\<exists>y. shown_scalar m names func d y))"

lemma counterexample_lines:
  "line \<in> set (lines_for (trace_of m names) func) \<longleftrightarrow>
     (\<exists>d x. shown_scalar m names func d x \<and> line = ''      '' @ d @ '' = '' @ model_value_display x) \<or>
     (\<exists>d x. shown_memory m names func d x \<and> line = ''      '' @ d @ '': '' @ format_array_value x)"
proof -
  let ?scalars = "List.map_filter (scalar_entry names) (model_scalar m)"
  let ?seen = "set (map (\<lambda>(func, d, _). (func, d)) ?scalars)"
  have scalars: "(func, d, line) \<in> set ?scalars \<longleftrightarrow>
      (\<exists>x. shown_scalar m names func d x \<and> line = ''      '' @ d @ '' = '' @ model_value_display x)" for func d line
  proof
    assume "(func, d, line) \<in> set ?scalars"
    then show "\<exists>x. shown_scalar m names func d x \<and> line = ''      '' @ d @ '' = '' @ model_value_display x"
      by (auto simp: set_map_filter scalar_entry_def shown_scalar_def)
  next
    assume "\<exists>x. shown_scalar m names func d x \<and> line = ''      '' @ d @ '' = '' @ model_value_display x"
    then obtain x v where "(v, x) \<in> set (model_scalar m)" "trace_name names (var_name v) = Some (func, d)"
      "line = ''      '' @ d @ '' = '' @ model_value_display x" by (auto simp: shown_scalar_def)
    then show "(func, d, line) \<in> set ?scalars"
      unfolding set_map_filter by (intro bexI [of _ "(v, x)"]) (simp_all add: scalar_entry_def)
  qed
  have seen: "(func, d) \<in> ?seen \<longleftrightarrow> (\<exists>x. shown_scalar m names func d x)" for func d
  proof -
    have "(func, d) \<in> ?seen \<longleftrightarrow> (\<exists>line. (func, d, line) \<in> set ?scalars)" unfolding set_map image_iff by (auto intro: bexI [rotated])
    then show ?thesis unfolding scalars by blast
  qed
  have memories: "(func, d, line) \<in> set (List.map_filter (memory_entry names ?seen) (model_memory m)) \<longleftrightarrow>
      (\<exists>x. shown_memory m names func d x \<and> line = ''      '' @ d @ '': '' @ format_array_value x)" for func d line
  proof
    assume "(func, d, line) \<in> set (List.map_filter (memory_entry names ?seen) (model_memory m))"
    then obtain name x where "(name, x) \<in> set (model_memory m)" "memory_entry names ?seen (name, x) = Some (func, d, line)"
      unfolding set_map_filter by auto
    then show "\<exists>x. shown_memory m names func d x \<and> line = ''      '' @ d @ '': '' @ format_array_value x"
      unfolding memory_entry_def shown_memory_def seen [symmetric]
      by (intro exI [of _ x]) (auto simp del: set_map split: option.splits if_splits)
  next
    assume "\<exists>x. shown_memory m names func d x \<and> line = ''      '' @ d @ '': '' @ format_array_value x"
    then obtain x name where "(name, x) \<in> set (model_memory m)" "trace_name names name = Some (func, d)"
      "\<not> (is_array_default x \<and> (func, d) \<in> ?seen)" "line = ''      '' @ d @ '': '' @ format_array_value x"
      unfolding shown_memory_def seen by blast
    then show "(func, d, line) \<in> set (List.map_filter (memory_entry names ?seen) (model_memory m))"
      unfolding set_map_filter memory_entry_def by (intro bexI [of _ "(name, x)"]) (simp_all del: set_map)
  qed
  have "lines_for (trace_of m names) func = map (\<lambda>(_, _, line). line) (filter (\<lambda>(f, _, _). f = func) ?scalars)
      @ map (\<lambda>(_, _, line). line) (filter (\<lambda>(f, _, _). f = func)
        (List.map_filter (memory_entry names ?seen) (model_memory m)))"
    unfolding trace_of_def Let_def lines_for_push by (simp add: lines_for_def bt_get_def)
  then have "line \<in> set (lines_for (trace_of m names) func) \<longleftrightarrow> (\<exists>d. (func, d, line) \<in> set ?scalars) \<or>
      (\<exists>d. (func, d, line) \<in> set (List.map_filter (memory_entry names ?seen) (model_memory m)))"
    by (auto simp: image_iff)
  then show ?thesis unfolding scalars memories .
qed

lemma function_lines_set: "set (function_lines (func, entries)) = insert (''      ['' @ func @ '']'') (set entries)"
  by (simp add: function_lines_def)

end
