(* ===== verification/Command_Line.thy ===== *)
theory Command_Line
  imports Driver_Correct Printing
begin

text \<open>
  What the command line makes of a module (\<open>src/main.rs\<close>): the stages from the LLVM module to the report,
  the verdict about the module,
  and the lines that are printed.  Arguments and files are left out.
\<close>

definition invariant_config_of :: "nat option \<Rightarrow> nat option \<Rightarrow> invariant_config" where
  "invariant_config_of max_size timeout =
     \<lparr>max_function_size = (case max_size of None \<Rightarrow> 500 | Some n \<Rightarrow> n),
      achar_timeout = (case timeout of None \<Rightarrow> 10 | Some n \<Rightarrow> n)\<rparr>"

text \<open>\<open>Inl\<close> when the program exits because no graph can be built.\<close>

definition handle ::
  "bool \<Rightarrow> (basic_block list \<Rightarrow> basic_block list) \<Rightarrow> (invariant_config option \<Rightarrow> services) \<Rightarrow> hash_orders \<Rightarrow> llvm
    \<Rightarrow> invariant_config \<Rightarrow> prog_error + module_report outcome option" where
  "handle oc block_order sv hs l inv_config =
     (case generate_program_graph block_order l of
        Inl error \<Rightarrow> Inl error
      | Inr graphs \<Rightarrow>
          let memory_pure = infer_memory_pure_functions l graphs in
          Inr (analyze_module_with_provider oc sv hs l graphs memory_pure no_provider inv_config))"

fun combine_verdict :: "safety_verdict \<Rightarrow> safety_verdict \<Rightarrow> safety_verdict" where
  "combine_verdict Unsafe _ = Unsafe"
| "combine_verdict _ Unsafe = Unsafe"
| "combine_verdict UnknownVerdict _ = UnknownVerdict"
| "combine_verdict _ UnknownVerdict = UnknownVerdict"
| "combine_verdict Safe Safe = Safe"

definition module_verdict :: "module_report \<Rightarrow> safety_verdict" where
  "module_verdict report = foldl (\<lambda>v procedure. combine_verdict v (verdict procedure)) Safe (module_reports report)"

section \<open>The printed report\<close>

definition procedure_heading :: "function_graph list \<Rightarrow> procedure_report \<Rightarrow> string" where
  "procedure_heading graphs r =
     (let instructions = (case find (\<lambda>g. graph_name g = report_procedure r) graphs of
            None \<Rightarrow> instruction_count r | Some g \<Rightarrow> length (vertices g)) in
      ''procedure '' @ report_procedure r @ ''  ['' @ nat_str (length (report_assertions r)) @ '' assertion(s), ''
      @ nat_str instructions @ '' instruction(s)''
      @ (if 0 < loop_count r then '' | '' @ nat_str (loop_count r) @ '' loop(s)'' else [])
      @ (if is_recursive r then '' | recursive'' else []) @ '']'')"

definition procedure_lines :: "function_graph list \<Rightarrow> procedure_report \<Rightarrow> string list" where
  "procedure_lines graphs r =
     procedure_heading graphs r # map render_result (report_assertions r)
     @ map (\<lambda>failure. ''  unsupported: '' @ failure) (report_failures r)
     @ (if is_recursive r then [''  note: procedure participates in a direct or indirect call cycle''] else [])
     @ [''  verdict: '' @ safety_verdict_str (verdict r), []]"

definition write_effect_line :: "write_effect_summary \<Rightarrow> string" where
  "write_effect_line w = ''    write param #'' @ nat_str (we_param_index w) @ '' '' @ we_ext_region_name w @ '' -> ''
     @ we_obs_name w @ '': '' @ formula_display (we_relation w)"

definition return_summary_lines :: "return_summary \<Rightarrow> string list" where
  "return_summary_lines s =
     [''  '' @ rs_function s @ '':'', ''    params: '' @ join_strings '', '' (rs_formal_parameters s),
      ''    retval: '' @ rs_retval_name s, ''    relation: '' @ formula_display (rs_relation s)]
     @ map write_effect_line (rs_write_effects s)"

definition condition_line :: "string \<Rightarrow> formula \<Rightarrow> formula \<Rightarrow> string" where
  "condition_line name pre post = ''  '' @ name @ '': '' @ formula_display pre @ '' => '' @ formula_display post"

definition table_lines :: "summary_table \<Rightarrow> string list" where
  "table_lines t =
     ''[forward-may summaries]'' # concat (map (\<lambda>name. map (\<lambda>s. condition_line name (may_precondition s)
         (may_postcondition s)) (forward_may t name)) (all_procedure_names t))
     @ ''[not-may summaries]'' # concat (map (\<lambda>name. map (\<lambda>s. condition_line name (notmay_precondition s)
         (notmay_postcondition s)) (notmay t name)) (all_procedure_names t))
     @ ''[loop invariants]'' # concat (map (\<lambda>name. map (\<lambda>(header, invariant). ''  '' @ name @ '' @ CfgNodeId(''
         @ nat_str header @ ''): '' @ pretty_formula invariant) (get_loop_invariants t name)) (all_procedure_names t))"

definition print_module_report :: "module_report \<Rightarrow> function_graph list \<Rightarrow> bool \<Rightarrow> string list" where
  "print_module_report report graphs show_summaries =
     [[], ''Analysis summaries:''] @ concat (map (procedure_lines graphs) (module_reports report))
     @ [''module verdict: '' @ safety_verdict_str (module_verdict report)]
     @ (if show_summaries then [[], ''[return summaries]'']
          @ concat (map return_summary_lines (computed_summaries report)) @ table_lines (module_summaries report)
        else [])"

section \<open>The verdict about a module\<close>

lemma combine_verdict_Safe: "combine_verdict v w = Safe \<longleftrightarrow> v = Safe \<and> w = Safe"
  by (cases v; cases w) simp_all

lemma combine_verdict_Unsafe: "combine_verdict v w = Unsafe \<longleftrightarrow> v = Unsafe \<or> w = Unsafe"
  by (cases v; cases w) simp_all

lemma module_verdict_iff:
  "module_verdict m = Safe \<longleftrightarrow> (\<forall>r \<in> set (module_reports m). verdict r = Safe)"
  "module_verdict m = Unsafe \<longleftrightarrow> (\<exists>r \<in> set (module_reports m). verdict r = Unsafe)"
proof -
  have "foldl (\<lambda>v procedure. combine_verdict v (verdict procedure)) v rs = Safe \<longleftrightarrow> v = Safe \<and> (\<forall>r \<in> set rs. verdict r = Safe)"
    "foldl (\<lambda>v procedure. combine_verdict v (verdict procedure)) v rs = Unsafe \<longleftrightarrow> v = Unsafe \<or> (\<exists>r \<in> set rs. verdict r = Unsafe)"
    for v rs by (induction rs arbitrary: v) (auto simp: combine_verdict_Safe combine_verdict_Unsafe)
  then show "module_verdict m = Safe \<longleftrightarrow> (\<forall>r \<in> set (module_reports m). verdict r = Safe)"
    "module_verdict m = Unsafe \<longleftrightarrow> (\<exists>r \<in> set (module_reports m). verdict r = Unsafe)"
    by (simp_all add: module_verdict_def)
qed

lemma list_all2_partner:
  "list_all2 P xs ys \<Longrightarrow> x \<in> set xs \<Longrightarrow> \<exists>y \<in> set ys. P x y"
  "list_all2 P xs ys \<Longrightarrow> y \<in> set ys \<Longrightarrow> \<exists>x \<in> set xs. P x y"
  by (induction rule: list_all2_induct) auto

lemma report_right_verdicts:
  assumes "report_right low r"
  shows "verdict r = Safe \<Longrightarrow> \<exists>p. low p \<and> (checkable_procedure p \<longrightarrow>
      (\<forall>site \<in> set (adapted_assertions p). \<not> may_fail (adapted_cfg p) site))"
    and "verdict r = Unsafe \<Longrightarrow> \<exists>p. low p \<and> (checkable_procedure p \<longrightarrow>
      (\<exists>site \<in> set (adapted_assertions p). may_fail (adapted_cfg p) site))"
  using assms by (auto simp: report_right_def verdict_sound_def)

lemma generated_graph_built:
  assumes "generate_program_graph block_order l = Inr graphs" "g \<in> set graphs"
  shows "\<exists>f. function_graph_new block_order l f (raw_data_layout l) = Inr g"
proof -
  have "g \<in> set graphs \<Longrightarrow> \<exists>f. function_graph_new block_order l f layout = Inr g"
    if "program_graphs block_order l layout fs = Inr graphs" for fs layout graphs
    using that by (induction fs arbitrary: graphs)
      (auto simp: rbind_eq_Inr split: sum.splits prog_error.splits)
  with assms show ?thesis by (auto simp: generate_program_graph_def)
qed

text \<open>
  C4: the verdict of the whole program is right.  With a sound solver, when the functions of the module
  have names of their own: SAFE means that every function with a body was lowered and no run of a
  lowered graph violates an assertion, UNSAFE that some function was lowered to a graph one of whose
  runs does, for the functions whose control flow has no cycle and whose effects meet the side conditions of
  both directions.
\<close>

theorem tool_verdict_right:
  assumes "handle oc block_order sv hs l config = Inr (Some (Returns m))" "\<And>ks. set (block_order ks) = set ks"
    and "sound_services (sv (Some config))"
    and "distinct (map (raw_function_name l) (filter (\<lambda>f. raw_blocks l f \<noteq> []) (raw_functions l)))"
  shows "\<exists>graphs aliases. generate_program_graph block_order l = Inr graphs \<and>
    map graph_name graphs = map (raw_function_name l) (filter (\<lambda>f. raw_blocks l f \<noteq> []) (raw_functions l)) \<and>
    (module_verdict m = Safe \<longrightarrow> (\<forall>g \<in> set graphs. \<exists>p. lowered oc hs l (infer_memory_pure_functions l graphs) aliases g p \<and>
       (acyclic (arcs g) \<and> supported_effects p \<longrightarrow>
         (\<forall>site \<in> set (adapted_assertions p). \<not> may_fail (adapted_cfg p) site)))) \<and>
    (module_verdict m = Unsafe \<longrightarrow> (\<exists>g \<in> set graphs. \<exists>p. lowered oc hs l (infer_memory_pure_functions l graphs) aliases g p \<and>
       (acyclic (arcs g) \<and> supported_effects p \<longrightarrow>
         (\<exists>site \<in> set (adapted_assertions p). may_fail (adapted_cfg p) site))))"
proof -
  obtain graphs where graphs: "generate_program_graph block_order l = Inr graphs"
    and names: "map graph_name graphs = map (raw_function_name l) (filter (\<lambda>f. raw_blocks l f \<noteq> []) (raw_functions l))"
    using generate_program_graph_total [OF assms(2)] by blast
  let ?pure = "infer_memory_pure_functions l graphs"
  have "analyze_module_with_provider oc sv hs l graphs ?pure no_provider config = Some (Returns m)"
    using assms(1) graphs by (simp add: handle_def Let_def)
  from module_reports_right [OF this assms(3)] names assms(4) obtain aliases where
    right: "list_all2 (\<lambda>g r. report_right (lowered oc hs l ?pure aliases g) r) graphs (module_reports m)" by auto
  have "checkable_procedure p" if "g \<in> set graphs" "lowered oc hs l ?pure aliases g p" "acyclic (arcs g) \<and> supported_effects p"
    for g p
    using generated_graph_built [OF graphs that(1)] built_graph_shape(1,3) [OF _ assms(2)] lowered_checkable [OF that(2)] that(3)
    by blast
  note check = this
  have safe: "\<exists>p. lowered oc hs l ?pure aliases g p \<and> (acyclic (arcs g) \<and> supported_effects p \<longrightarrow>
      (\<forall>site \<in> set (adapted_assertions p). \<not> may_fail (adapted_cfg p) site))"
    if "module_verdict m = Safe" "g \<in> set graphs" for g
    using list_all2_partner(1) [OF right that(2)] that report_right_verdicts(1) check unfolding module_verdict_iff by metis
  have unsafe: "\<exists>g \<in> set graphs. \<exists>p. lowered oc hs l ?pure aliases g p \<and> (acyclic (arcs g) \<and> supported_effects p \<longrightarrow>
      (\<exists>site \<in> set (adapted_assertions p). may_fail (adapted_cfg p) site))"
    if "module_verdict m = Unsafe"
    using that list_all2_partner(2) [OF right] report_right_verdicts(2) check unfolding module_verdict_iff by metis
  show ?thesis using graphs names safe unsafe by blast
qed

abbreviation handle_checked :: "prog_error + module_report outcome option" where
  "handle_checked \<equiv> handle True rev (\<lambda>_. example_services pair_solver)
     \<lparr>heap_order = (\<lambda>xs. xs), ptr_order = (\<lambda>xs. xs)\<rparr> checked_module (invariant_config_of None None)"

lemma checked_handled:
  "case handle_checked of Inr (Some (Returns m)) \<Rightarrow> module_verdict m = Safe | _ \<Rightarrow> False"
  "map (raw_function_name checked_module) (filter (\<lambda>f. raw_blocks checked_module f \<noteq> []) (raw_functions checked_module)) = [''main'']"
  by code_simp+

theorem tool_verdict_witness:
  "\<exists>m g aliases p. handle_checked = Inr (Some (Returns m)) \<and> module_verdict m = Safe \<and> graph_name g = ''main'' \<and>
    generate_program_graph rev checked_module = Inr [g] \<and> lowered True \<lparr>heap_order = (\<lambda>xs. xs), ptr_order = (\<lambda>xs. xs)\<rparr>
      checked_module (infer_memory_pure_functions checked_module [g]) aliases g p"
proof -
  obtain m where m: "handle_checked = Inr (Some (Returns m))" "module_verdict m = Safe"
    using checked_handled(1) by (auto split: option.splits outcome.splits sum.splits)
  have sound: "sound_services (example_services pair_solver)" by (rule example_services_sound [OF pair_solver_sound])
  have dist: "distinct (map (raw_function_name checked_module)
      (filter (\<lambda>f. raw_blocks checked_module f \<noteq> []) (raw_functions checked_module)))"
    unfolding checked_handled(2) by simp
  obtain graphs aliases where graphs: "generate_program_graph rev checked_module = Inr graphs"
    "map graph_name graphs = [''main'']"
    "\<forall>g \<in> set graphs. \<exists>p. lowered True \<lparr>heap_order = (\<lambda>xs. xs), ptr_order = (\<lambda>xs. xs)\<rparr> checked_module
      (infer_memory_pure_functions checked_module graphs) aliases g p"
    using tool_verdict_right [OF m(1) set_rev sound dist, unfolded checked_handled(2)] m(2)
    by (elim exE conjE) (rule that, assumption+, blast)
  then obtain g where "graphs = [g]" "graph_name g = ''main''" by (auto simp: map_eq_Cons_conv)
  with graphs m show ?thesis by auto
qed

end
