(* ===== verification/Spec2Isabelle.thy ===== *)
theory Spec2Isabelle
  imports Formula_Claims Transfer_Claims Renaming Flat_Layout Cfg_Claims Back_Edges Summaries_Correct
    Projection_Correct Backward_Claims Dart_Claims Program_Graph_Correct Pointers_Correct Lowering_Correct
    Scheduler_Correct Assertions_Correct Loops_Claims Invariants_Claims
    Instructions_Correct Call_Graph_Correct Call_Correct Command_Line
begin

text \<open>
  Smash-plus-ultra: a compositional may/must assertion checker for LLVM bitcode
  (\<open>src/README.md\<close>; all paths below are under \<open>src/src/\<close>).

  \<^bold>\<open>The program.\<close>  A module goes through five stages.  The front end (\<open>frontend\<close>) reads the LLVM values
  through a wrapper, builds one instruction graph per function and collects the \<open>may_assert\<close> and
  \<open>may_assume\<close> sites; assertions may also come as text.  A pointer analysis (\<open>pointer_analysis\<close>) finds
  what pointers point to.  The adapter (\<open>cfg/adapter.rs\<close>) lowers an instruction graph to an abstract
  control-flow graph (\<open>cfg/abstract_cfg.rs\<close>) whose nodes and edges carry effects on symbolic scalars and
  memory regions, with their predicate transformers over the formulas of \<open>formula\<close>.  The analyses
  (\<open>analysis\<close>) check one assertion of one graph: the backward rule engine with loop invariants, and the
  bug-finding path exploration; both ask the SMT solver (\<open>smt\<close>).  The interprocedural layer
  (\<open>analysis/interproc\<close>) infers return summaries, queues one query per assertion, answers each by the two
  directions, keeps not-may, must and may summaries in a table, and sums the answers up in reports.

  \<^bold>\<open>Shared vocabulary.\<close>
  \<^item> \<open>Prelude\<close>, \<open>Machine_Int\<close>: results as sums, panics as \<open>outcome\<close> (a result \<open>Panics\<close> is a panic of the source),
    the ordered maps of the source as sorted association lists (locale \<open>ordered_map\<close>, interpreted on them),
    loops that stop early, and \<open>i64\<close> as a 64-bit word with its checked and wrapping operations; \<open>oc\<close> says whether the
    build checks overflow.
  \<^item> \<open>Formula\<close>, \<open>Formula_Sem\<close>, \<open>Substitution\<close>, \<open>Symbols\<close>, \<open>Formula_Claims\<close>: \<open>formula/mod.rs\<close>.  Formulas mean what they are
    lowered to: unbounded integers, reals, arrays; an \<open>admissible\<close> state has well-sorted values and SMT-LIB
    division.  Constructors keep the meaning, substitution is state update, the sort checker is sound.
  \<^item> \<open>Renaming\<close>: \<open>formula/alpha_rename.rs\<close>.  Renaming a block commutes with \<open>wp\<close>.
  \<^item> \<open>Oracle\<close>, \<open>Lowering\<close>, \<open>Lowering_Correct\<close>: \<open>smt/oracle.rs\<close>, \<open>smt/solver.rs\<close>.  A solver is a record of functions; Z3's constructors and its
    check are a parameter.  \<open>sound_solver\<close> is what the verdicts rest on; the lowering is shown to give it from a
    Z3 that decides correctly.

  \<^bold>\<open>Graphs and effects.\<close>
  \<^item> \<open>Effects\<close>, \<open>Effects_Correct\<close>, \<open>Transfer_Claims\<close>: the effects and \<open>wp\<close>, \<open>wp_inductive\<close>, \<open>sp\<close>, against the step relation
    \<open>effect_step\<close> (locales \<open>transformer\<close> and its extensions).  \<open>wp\<close> covers the pre-image and is exact where nothing
    is forgotten.
  \<^item> \<open>Cfg\<close>, \<open>Cfg_Ops\<close>, \<open>Cfg_Claims\<close>, \<open>Topology\<close>, \<open>Back_Edges\<close>: the graph, every operation with the invariant \<open>cfg_wf\<close>, topological
    order and back edges, the search for the latter with as much fuel as there are nodes, which is shown to be enough.
  \<^item> \<open>Runs\<close>, \<open>Skeleton\<close>: the executions \<open>cfg_run\<close>, the runs that violate an assertion, and the side conditions of the verdicts:
    \<open>analysable\<close>, \<open>exact_effects\<close>, \<open>stable_guards\<close>.

  \<^bold>\<open>Front end and adapter.\<close>
  \<^item> \<open>Llvm\<close>, \<open>Program_Graph\<close>, \<open>Program_Graph_Correct\<close>: \<open>frontend/llvm_wrap.rs\<close>, \<open>frontend/program_graph.rs\<close>.  The record \<open>llvm\<close> is
    what the LLVM C interface answers; the graph is exactly the control flow between visible instructions.
  \<^item> \<open>Assertions\<close>, \<open>Translation\<close>, \<open>Assertions_Correct\<close>: \<open>frontend/assertions\<close>.  The parser reads back what a precedence-aware printer writes; a
    translated assertion is well sorted.
  \<^item> \<open>Andersen\<close>, \<open>Andersen_Correct\<close>, \<open>Pointers_Correct\<close>: \<open>pointer_analysis/andersen.rs\<close>.  The worklist computes the least solution, exactly when a
    finite one exists; a worklist that does not end is \<open>None\<close>.  The analysis of a module covers the addresses that names and cells hold in
    executions of its pointer instructions (\<open>pointer_execs\<close>); results and arguments of calls are not in them, nor in the constraints.
  \<^item> \<open>Flat_Layout\<close>: \<open>cfg/flat_layout.rs\<close>, addresses behind \<open>ptrtoint\<close>.
  \<^item> \<open>Adapter\<close> (values, names, pointers), \<open>Instructions\<close> (one definition per group of opcodes, edge guards, \<open>phi\<close>, assertion and assume
    sites), \<open>Resolution\<close> (the pass that turns memory effects into accesses of regions), \<open>Call_Summaries\<close> (summaries and intrinsics at
    calls), \<open>Adaptation\<close> (the lowering of a function, return summaries, memory purity): \<open>cfg/adapter.rs\<close>.
  \<^item> \<open>Adaptation_Correct\<close>: the lowered graph is the control flow of the function with the guards of its branches, joined into one
    exit; the passes after the edges change effects only.
  \<^item> \<open>Instructions_Correct\<close>: integer instructions against machine integers of their width: which executions agree, and which
    are dropped.
  \<^item> \<open>Return_Correct\<close>, \<open>Call_Correct\<close>: the summary of a function is its input-output relation, and the obligation at a call admits
    exactly the returns of the callee.
  \<^item> \<open>Call_Graph_Correct\<close>: memory purity and recursion are reachability in the call graph.

  \<^bold>\<open>Analyses.\<close>
  \<^item> \<open>Rules\<close>, \<open>Backward\<close>, \<open>Engine\<close>, \<open>Backward_Sound\<close>, \<open>Verified_Sound\<close>, \<open>Backward_Claims\<close>: \<open>analysis/backward\<close>.  \<open>Verified\<close> and \<open>BugFound\<close> are right on acyclic
    graphs, and the engine ends.
  \<^item> \<open>Loops\<close>, \<open>Loops_Correct\<close>, \<open>Loops_Backward\<close>, \<open>Loops_Forward\<close>, \<open>Loops_Pass\<close>, \<open>Loops_Sound\<close>, \<open>Loops_Claims\<close>: \<open>analysis/loops\<close>.  Natural loops, and the three
    checks of a candidate; an accepted candidate is an invariant of a graph with one loop.
  \<^item> \<open>Invariants\<close>, \<open>Invariants_Correct\<close>, \<open>Invariants_Claims\<close>, \<open>Loop_Verdict\<close>: \<open>analysis/invariants\<close>, the synthesis by examples and tiers; the clock is a
    stream of readings.  \<open>Verified\<close> with the invariants synthesized for a graph with one loop is right, under the conditions of \<open>single_loop\<close>.
    The synthesis can panic (\<open>screening_panics\<close>), and the backward analysis of a graph with cycles then panics with it.
  \<^item> \<open>Dart\<close>, \<open>Dart_Paths\<close>, \<open>Dart_Sound\<close>, \<open>Dart_Claims\<close>: \<open>analysis/dart\<close>.  The enumeration is complete within its bounds, and a reported bug is a run.

  \<^bold>\<open>Interprocedural layer.\<close>
  \<^item> \<open>Summaries\<close>, \<open>Summaries_Correct\<close>, \<open>Projection\<close>, \<open>Projection_Correct\<close>: \<open>analysis/interproc/query.rs\<close>.  The table stays valid and loses no coverage (locale
    \<open>covering\<close>); projection to the interface is quantification.
  \<^item> \<open>Scheduler\<close>, \<open>Scheduler_Correct\<close>: \<open>smash.rs\<close> and \<open>scheduler.rs\<close>.  The queue is first in, first out, and answers everything unless the synthesis panics
    on a graph with cycles; answers about graphs that meet the side conditions are right.
  \<^item> \<open>Driver\<close>, \<open>Driver_Correct\<close>: \<open>driver.rs\<close> and \<open>providers.rs\<close>.  The composition: from the graphs of a module through scanning, inference,
    lowering, the shared queue and the reports; the verdict about a function is right where its lowered graph is checkable.
  \<^item> \<open>Command_Line\<close>: \<open>main.rs\<close>.  The stages from the LLVM module to the report, and the verdict about the module: SAFE and UNSAFE are right under the side conditions below.  \<open>Printing\<close>: formulas,
    results and counterexamples as they are shown; a counterexample shows exactly the values of the model that belong to functions.

  \<^bold>\<open>Hash maps.\<close>  Where the iteration order of a hash map is observable it is an argument (\<open>hash_order\<close>, \<open>hash_orders\<close>), and the theorems hold for
  every order; where it is not, the map is a function.

  \<^bold>\<open>Fuel and bounds.\<close>  \<open>detect_back_edges\<close> has the number of nodes; \<open>reaches\<close> has the number of functions plus one, and the theorem on
  recursion shows that it never runs out; the parser has three units per token and three more, and always answers; the resolution of substitution chains
  has the eight rounds of the source; the rounds, revisits and path counts of the analyses are the
  constants of the source's configurations.

  \<^bold>\<open>What the verdicts assume.\<close>  The verdict theorems speak of the lowered graph.  They assume a sound solver and the side conditions of
  \<open>Runs\<close>; for a lowered function those on the graph follow from the lowering, and \<open>supported_effects\<close> is what is left.  Of calls they assume
  that there are none, or summaries for none: the summaries the scheduler keeps are not
  sound for callers in general, as \<open>shared_summary_hides_bug\<close> shows.  The theorems on integers, calls and pointers
  relate the lowering to the program; a single theorem from LLVM executions to verdicts is not proved, because the
  lowering is not sound for all of them: the lemmas \<open>sext_drops_true\<close>, \<open>sdiv_rounds_down\<close>, \<open>external_calls_ignored\<close> and \<open>constant_argument_lost\<close> show where.

  \<^bold>\<open>Not modelled.\<close>  Argument parsing and files (\<open>main.rs\<close>, \<open>frontend/source.rs\<close>), the \<open>mod.rs\<close> files that only declare modules, dot output,
  logging, \<open>Debug\<close> renderings, and the unit tests: input and output only.  The unsafe calls of \<open>frontend/llvm_wrap.rs\<close> into the LLVM C interface and their
  memory management, and the Z3 calls of \<open>smt/solver.rs\<close>: LLVM and Z3 are not part of the repository, and what they answer is a parameter.
\<close>

end
